(* ===== verification/Veyport_Prelude.thy ===== *)
theory Veyport_Prelude
  imports Main "HOL-Library.Word" "HOL-Library.Char_ord" "HOL-Library.List_Lexorder"
    "HOL-Library.Product_Lexorder"
begin

text \<open>
  Shared vocabulary of the development: the parts of Go's language and standard library that the
  modelled packages use (machine integers, \<open>time.Time\<close> and \<open>time.Duration\<close>,
  \<open>strings.TrimSpace\<close>, \<open>strconv.Atoi\<close>) and the relational operations through which the
  hub's store reaches SQLite (guarded \<open>UPDATE\<close>, \<open>DELETE\<close>, \<open>INSERT\<close> and counting),
  with the lemmas and lemma collections the component theories share.
\<close>

section \<open>Lemma collections and type names\<close>

named_theorems go_simps \<open>equations of the Go runtime model\<close>
named_theorems sql_simps \<open>equations of the relational operations\<close>

text \<open>Go's \<open>int\<close> and \<open>int64\<close> are signed 64-bit; a value is the integer it denotes.\<close>

type_synonym go_int = int

text \<open>A \<open>time.Time\<close> is its distance from the Unix epoch in nanoseconds; a
  \<open>time.Duration\<close> is a signed 64-bit count of nanoseconds.\<close>

type_synonym go_time = int
type_synonym duration = int

text \<open>Which statement of a database operation fails, by its position in the operation.\<close>

type_synonym db_faults = "nat \<Rightarrow> bool"

section \<open>Signed 64-bit arithmetic\<close>

definition max_int64 :: int where
  "max_int64 = 9223372036854775807"

definition min_int64 :: int where
  "min_int64 = - 9223372036854775808"

definition in_int64 :: "int \<Rightarrow> bool" where
  "in_int64 x \<longleftrightarrow> min_int64 \<le> x \<and> x \<le> max_int64"

text \<open>Two's-complement reduction of an integer to 64 bits, as Go's \<open>+\<close> and \<open>*\<close> do.\<close>

definition wrap64 :: "int \<Rightarrow> int" where
  "wrap64 x = (x + 9223372036854775808) mod 18446744073709551616 - 9223372036854775808"

lemma wrap64_range: "in_int64 (wrap64 x)"
proof -
  have "0 \<le> (x + 9223372036854775808) mod 18446744073709551616"
    and "(x + 9223372036854775808) mod 18446744073709551616 < 18446744073709551616"
    by simp_all
  then show ?thesis
    unfolding in_int64_def wrap64_def min_int64_def max_int64_def by linarith
qed

lemma wrap64_id [go_simps]: "in_int64 x \<Longrightarrow> wrap64 x = x"
  by (simp add: in_int64_def wrap64_def min_int64_def max_int64_def)

lemma wrap64_signed_word: "wrap64 x = sint (word_of_int x :: 64 word)"
  by (simp add: wrap64_def sint_sbintrunc' signed_take_bit_eq_take_bit_shift take_bit_eq_mod)

lemma div_mult_le: "0 < u \<Longrightarrow> x div u * u \<le> (x :: int)"
  by (metis add.commute add_le_same_cancel2 div_mult_mod_eq pos_mod_sign add_increasing2 order_refl le_add_same_cancel1)

section \<open>Time\<close>

definition nanosecond :: duration where "nanosecond = 1"
definition second :: duration where "second = 1000000000"
definition minute :: duration where "minute = 60000000000"
definition hour :: duration where "hour = 3600000000000"

lemmas duration_units = nanosecond_def second_def minute_def hour_def

text \<open>\<open>Time.Sub\<close> saturates at the ends of the \<open>Duration\<close> range instead of wrapping.\<close>

definition time_sub :: "go_time \<Rightarrow> go_time \<Rightarrow> duration" where
  "time_sub t u = max min_int64 (min max_int64 (t - u))"

definition time_add :: "go_time \<Rightarrow> duration \<Rightarrow> go_time" where
  "time_add t d = t + d"

text \<open>Multiplying a \<open>Duration\<close> wraps like every 64-bit product.\<close>

definition dur_mul :: "int \<Rightarrow> int \<Rightarrow> duration" where
  "dur_mul a b = wrap64 (a * b)"

lemma time_sub_range: "in_int64 (time_sub t u)"
  by (simp add: in_int64_def time_sub_def min_int64_def max_int64_def)

lemma time_sub_le_iff: "in_int64 d \<Longrightarrow> d < max_int64 \<Longrightarrow> time_sub t u \<le> d \<longleftrightarrow> t - u \<le> d"
  by (auto simp: time_sub_def in_int64_def)

lemma time_sub_less_iff:
  "in_int64 d \<Longrightarrow> d < max_int64 \<Longrightarrow> d < time_sub t u \<longleftrightarrow> d < t - u"
  by (auto simp: time_sub_def in_int64_def)

lemma time_sub_nonneg: "u \<le> t \<Longrightarrow> 0 \<le> time_sub t u"
  by (simp add: time_sub_def max_int64_def min_int64_def)

lemma time_sub_exact: "in_int64 (t - u) \<Longrightarrow> time_sub t u = t - u"
  by (auto simp: time_sub_def in_int64_def)

lemma time_sub_mono: "t \<le> t' \<Longrightarrow> time_sub t u \<le> time_sub t' u"
  by (auto simp: time_sub_def)

lemma time_sub_antimono: "u \<le> u' \<Longrightarrow> time_sub t u' \<le> time_sub t u"
  by (auto simp: time_sub_def)

text \<open>
  SQLite columns hold times as the text of \<open>sqliteTimeFormat\<close> (\<open>2006-01-02 15:04:05\<close>), so
  a stored time is a whole second; the model keeps the second's number. Reading the text back
  with \<open>time.Parse\<close> succeeds for the years 0000 to 9999 that the layout can express.
\<close>

type_synonym sql_time = int

definition format_sqlite :: "go_time \<Rightarrow> sql_time" where
  "format_sqlite t = t div second"

definition sqlite_representable :: "sql_time \<Rightarrow> bool" where
  "sqlite_representable s \<longleftrightarrow> - 62167219200 \<le> s \<and> s \<le> 253402300799"

definition parse_sqlite :: "sql_time option \<Rightarrow> go_time option" where
  "parse_sqlite v = (case v of None \<Rightarrow> None
     | Some s \<Rightarrow> if sqlite_representable s then Some (s * second) else None)"

definition sqlite_ptr :: "go_time option \<Rightarrow> sql_time option" where
  "sqlite_ptr v = map_option format_sqlite v"

lemma format_sqlite_bounds:
  "format_sqlite t * second \<le> t" "t < (format_sqlite t + 1) * second"
  by (simp_all add: format_sqlite_def second_def div_times_less_eq_dividend minus_mod_eq_div_mult [symmetric]
      distrib_right)

lemma format_sqlite_mono: "t \<le> u \<Longrightarrow> format_sqlite t \<le> format_sqlite u"
  by (simp add: format_sqlite_def second_def zdiv_mono1)

lemma format_sqlite_whole [simp]: "format_sqlite (s * second) = s"
  by (simp add: format_sqlite_def second_def)

lemma format_sqlite_less: "format_sqlite t < format_sqlite u \<Longrightarrow> t < u"
  by (meson format_sqlite_mono not_less)

lemma parse_sqlite_ptr:
  "sqlite_representable (format_sqlite t) \<Longrightarrow>
   parse_sqlite (sqlite_ptr (Some t)) = Some (format_sqlite t * second)"
  by (simp add: parse_sqlite_def sqlite_ptr_def)

lemma parse_sqlite_None [simp]: "parse_sqlite None = None"
  by (simp add: parse_sqlite_def)

lemma sqlite_ptr_None [simp]: "sqlite_ptr None = None"
  by (simp add: sqlite_ptr_def)

section \<open>Strings\<close>

text \<open>Go strings are byte strings, and so is \<open>string\<close>. \<open>strings.TrimSpace\<close> removes the
  UTF-8 encodings of the Unicode white-space code points from both ends.\<close>

definition space_seqs :: "string list" where
  "space_seqs =
     [[CHR 0x09], [CHR 0x0A], [CHR 0x0B], [CHR 0x0C], [CHR 0x0D], [CHR 0x20],
      [CHR 0xC2, CHR 0x85], [CHR 0xC2, CHR 0xA0], [CHR 0xE1, CHR 0x9A, CHR 0x80],
      [CHR 0xE2, CHR 0x80, CHR 0x80], [CHR 0xE2, CHR 0x80, CHR 0x81],
      [CHR 0xE2, CHR 0x80, CHR 0x82], [CHR 0xE2, CHR 0x80, CHR 0x83],
      [CHR 0xE2, CHR 0x80, CHR 0x84], [CHR 0xE2, CHR 0x80, CHR 0x85],
      [CHR 0xE2, CHR 0x80, CHR 0x86], [CHR 0xE2, CHR 0x80, CHR 0x87],
      [CHR 0xE2, CHR 0x80, CHR 0x88], [CHR 0xE2, CHR 0x80, CHR 0x89],
      [CHR 0xE2, CHR 0x80, CHR 0x8A], [CHR 0xE2, CHR 0x80, CHR 0xA8],
      [CHR 0xE2, CHR 0x80, CHR 0xA9], [CHR 0xE2, CHR 0x80, CHR 0xAF],
      [CHR 0xE2, CHR 0x81, CHR 0x9F], [CHR 0xE3, CHR 0x80, CHR 0x80]]"

fun strip_prefix :: "string \<Rightarrow> string \<Rightarrow> string option" where
  "strip_prefix [] s = Some s"
| "strip_prefix (p # ps) [] = None"
| "strip_prefix (p # ps) (c # cs) = (if p = c then strip_prefix ps cs else None)"

lemma strip_prefix_Some: "strip_prefix p s = Some r \<longleftrightarrow> s = p @ r"
  by (induction p s rule: strip_prefix.induct) auto

fun first_stripped :: "string list \<Rightarrow> string \<Rightarrow> string option" where
  "first_stripped [] s = None"
| "first_stripped (p # ps) s =
     (case strip_prefix p s of Some r \<Rightarrow> Some r | None \<Rightarrow> first_stripped ps s)"

lemma first_stripped_decreases:
  "first_stripped ps s = Some r \<Longrightarrow> [] \<notin> set ps \<Longrightarrow> length r < length s"
  by (induction ps) (auto simp: strip_prefix_Some split: option.splits)

lemma space_seqs_nonempty: "[] \<notin> set space_seqs"
  by (simp add: space_seqs_def)

lemma space_seqs_rev_nonempty: "[] \<notin> set (map rev space_seqs)"
  by (simp add: space_seqs_def)

function trim_left :: "string list \<Rightarrow> string \<Rightarrow> string" where
  "trim_left ps s =
     (if [] \<in> set ps then s
      else case first_stripped ps s of None \<Rightarrow> s | Some r \<Rightarrow> trim_left ps r)"
  by pat_completeness auto
termination
  by (relation "measure (\<lambda>(ps, s). length s)") (auto dest: first_stripped_decreases)

declare trim_left.simps [simp del]

definition trim_space :: "string \<Rightarrow> string" where
  "trim_space s = rev (trim_left (map rev space_seqs) (rev (trim_left space_seqs s)))"

lemma trim_left_length: "length (trim_left ps s) \<le> length s"
proof (induction ps s rule: trim_left.induct)
  case (1 ps s)
  show ?case
  proof (cases "[] \<in> set ps \<or> first_stripped ps s = None")
    case True
    then show ?thesis by (auto simp: trim_left.simps [of ps s])
  next
    case False
    then obtain r where r: "first_stripped ps s = Some r" and ne: "[] \<notin> set ps" by auto
    from "1.IH" [OF ne r] first_stripped_decreases [OF r ne]
    show ?thesis by (simp add: trim_left.simps [of ps s] r ne)
  qed
qed

lemma trim_space_length: "length (trim_space s) \<le> length s"
  unfolding trim_space_def
  by (metis (no_types, lifting) length_rev order_trans trim_left_length)

text \<open>\<open>strings.Fields\<close>: the maximal runs of bytes between white-space characters.\<close>

function fields_from :: "string \<Rightarrow> string \<Rightarrow> string list" where
  "fields_from cur s =
     (case s of [] \<Rightarrow> (if cur = [] then [] else [cur])
      | c # cs \<Rightarrow>
        (case first_stripped space_seqs s of
           Some r \<Rightarrow> (if cur = [] then [] else [cur]) @ fields_from [] r
         | None \<Rightarrow> fields_from (cur @ [c]) cs))"
  by pat_completeness auto
termination
  by (relation "measure (\<lambda>(_, s). length s)") (auto dest: first_stripped_decreases [OF _ space_seqs_nonempty])

declare fields_from.simps [simp del]

definition string_fields :: "string \<Rightarrow> string list" where
  "string_fields s = fields_from [] s"

text \<open>\<open>strconv.Atoi\<close>: an optional sign, at least one decimal digit, nothing else, and the value in
  the 64-bit range; every other input is an error.\<close>

definition is_digit :: "char \<Rightarrow> bool" where
  "is_digit c \<longleftrightarrow> 48 \<le> (of_char c :: nat) \<and> (of_char c :: nat) \<le> 57"

definition digit_val :: "char \<Rightarrow> int" where
  "digit_val c = of_char c - 48"

fun digits_val :: "int \<Rightarrow> string \<Rightarrow> int" where
  "digits_val acc [] = acc"
| "digits_val acc (c # cs) = digits_val (acc * 10 + digit_val c) cs"

definition parse_digits :: "string \<Rightarrow> int option" where
  "parse_digits s = (if s \<noteq> [] \<and> list_all is_digit s then Some (digits_val 0 s) else None)"

definition atoi :: "string \<Rightarrow> int option" where
  "atoi s =
     (let r = (case s of
          c # cs \<Rightarrow> if c = CHR ''-'' then map_option uminus (parse_digits cs)
                     else if c = CHR ''+'' then parse_digits cs
                     else parse_digits s
        | [] \<Rightarrow> None)
      in case r of Some v \<Rightarrow> if in_int64 v then Some v else None | None \<Rightarrow> None)"

lemma atoi_range: "atoi s = Some v \<Longrightarrow> in_int64 v"
  by (auto simp: atoi_def Let_def split: option.splits if_splits)

text \<open>Decimal text of a natural number, as \<open>encoding/json\<close> and \<open>fmt\<close> print it.\<close>

fun show_nat :: "nat \<Rightarrow> string" where
  "show_nat n = (if n < 10 then [char_of (48 + n)] else show_nat (n div 10) @ [char_of (48 + n mod 10)])"

declare show_nat.simps [simp del]

text \<open>A lower-case hexadecimal digit.\<close>

definition hex_digit :: "nat \<Rightarrow> char" where
  "hex_digit n = (if n < 10 then char_of (48 + n) else char_of (87 + n))"

text \<open>\<open>utf8.ValidString\<close>: every character is one of the byte sequences of the UTF-8 table (no overlong
  forms, no surrogates, nothing above U+10FFFF).\<close>

definition byte_in :: "nat \<Rightarrow> nat \<Rightarrow> char \<Rightarrow> bool" where
  "byte_in lo hi c \<longleftrightarrow> lo \<le> (of_char c :: nat) \<and> (of_char c :: nat) \<le> hi"

fun valid_utf8 :: "string \<Rightarrow> bool" where
  "valid_utf8 [] \<longleftrightarrow> True"
| "valid_utf8 (a # s) \<longleftrightarrow>
     (if byte_in 0 0x7F a then valid_utf8 s
      else case s of [] \<Rightarrow> False | b # s1 \<Rightarrow>
        if byte_in 0xC2 0xDF a then byte_in 0x80 0xBF b \<and> valid_utf8 s1
        else case s1 of [] \<Rightarrow> False | c # s2 \<Rightarrow>
          if byte_in 0xE0 0xEF a
          then byte_in (if a = CHR 0xE0 then 0xA0 else 0x80) (if a = CHR 0xED then 0x9F else 0xBF) b \<and>
               byte_in 0x80 0xBF c \<and> valid_utf8 s2
          else case s2 of [] \<Rightarrow> False | d # s3 \<Rightarrow>
            byte_in 0xF0 0xF4 a \<and>
            byte_in (if a = CHR 0xF0 then 0x90 else 0x80) (if a = CHR 0xF4 then 0x8F else 0xBF) b \<and>
            byte_in 0x80 0xBF c \<and> byte_in 0x80 0xBF d \<and> valid_utf8 s3)"

declare valid_utf8.simps [simp del]

section \<open>Relational operations\<close>

text \<open>
  A table is the list of its rows. The operations carry the \<open>WHERE\<close> clause as a predicate;
  \<open>sql_count\<close> is also the \<open>RowsAffected\<close> of the update or deletion with the same clause.
\<close>

definition sql_update :: "('r \<Rightarrow> bool) \<Rightarrow> ('r \<Rightarrow> 'r) \<Rightarrow> 'r list \<Rightarrow> 'r list" where
  "sql_update P f rows = map (\<lambda>r. if P r then f r else r) rows"

definition sql_count :: "('r \<Rightarrow> bool) \<Rightarrow> 'r list \<Rightarrow> nat" where
  "sql_count P rows = length (filter P rows)"

definition sql_delete :: "('r \<Rightarrow> bool) \<Rightarrow> 'r list \<Rightarrow> 'r list" where
  "sql_delete P rows = filter (\<lambda>r. \<not> P r) rows"

definition sql_first :: "('r \<Rightarrow> bool) \<Rightarrow> 'r list \<Rightarrow> 'r option" where
  "sql_first P rows = find P rows"

lemma find_append:
  "find P (xs @ ys) = (case find P xs of Some x \<Rightarrow> Some x | None \<Rightarrow> find P ys)"
  by (induction xs) auto

text \<open>A primary key: no two rows share it.\<close>

definition pk_ok :: "('r \<Rightarrow> 'k) \<Rightarrow> 'r list \<Rightarrow> bool" where
  "pk_ok key rows \<longleftrightarrow> distinct (map key rows)"

text \<open>\<open>INSERT\<close> into a table with a primary key fails when the key is taken.\<close>

definition sql_insert :: "('r \<Rightarrow> 'k) \<Rightarrow> 'r \<Rightarrow> 'r list \<Rightarrow> 'r list option" where
  "sql_insert key r rows = (if key r \<in> set (map key rows) then None else Some (rows @ [r]))"

lemma sql_update_keys [sql_simps]:
  "(\<And>r. key (f r) = key r) \<Longrightarrow> map key (sql_update P f rows) = map key rows"
  by (simp add: sql_update_def)

lemma pk_ok_update [sql_simps]:
  "(\<And>r. key (f r) = key r) \<Longrightarrow> pk_ok key (sql_update P f rows) = pk_ok key rows"
  by (simp add: pk_ok_def sql_update_keys)

lemma pk_ok_delete: "pk_ok key rows \<Longrightarrow> pk_ok key (sql_delete P rows)"
  by (simp add: pk_ok_def sql_delete_def distinct_map_filter)

lemma pk_ok_insert: "pk_ok key rows \<Longrightarrow> sql_insert key r rows = Some rows' \<Longrightarrow> pk_ok key rows'"
  by (auto simp: pk_ok_def sql_insert_def split: if_splits)

lemma sql_update_length [simp]: "length (sql_update P f rows) = length rows"
  by (simp add: sql_update_def)

lemma set_sql_update:
  "set (sql_update P f rows) = {f r |r. r \<in> set rows \<and> P r} \<union> {r \<in> set rows. \<not> P r}"
  by (auto simp: sql_update_def)

lemma set_sql_delete [sql_simps]: "set (sql_delete P rows) = {r \<in> set rows. \<not> P r}"
  by (auto simp: sql_delete_def)

lemma sql_count_0_iff: "sql_count P rows = 0 \<longleftrightarrow> (\<forall>r \<in> set rows. \<not> P r)"
  by (auto simp: sql_count_def filter_empty_conv)

lemma sql_count_pos_iff: "0 < sql_count P rows \<longleftrightarrow> (\<exists>r \<in> set rows. P r)"
  using sql_count_0_iff [of P rows] by auto

lemma sql_update_noop: "\<forall>r \<in> set rows. \<not> P r \<Longrightarrow> sql_update P f rows = rows"
  by (simp add: sql_update_def map_idI)

lemma pk_unique:
  "pk_ok key rows \<Longrightarrow> r \<in> set rows \<Longrightarrow> r' \<in> set rows \<Longrightarrow> key r = key r' \<Longrightarrow> r = r'"
  by (auto simp: pk_ok_def distinct_map inj_on_def)

lemma sql_count_key_le_1:
  "pk_ok key rows \<Longrightarrow> sql_count (\<lambda>r. key r = k \<and> P r) rows \<le> 1"
proof (induction rows)
  case Nil
  then show ?case by (simp add: sql_count_def)
next
  case (Cons r rows)
  from Cons.prems have ok: "pk_ok key rows" and new: "key r \<notin> key ` set rows"
    by (auto simp: pk_ok_def)
  show ?case
  proof (cases "key r = k \<and> P r")
    case True
    with new have "\<forall>x \<in> set rows. \<not> (key x = k \<and> P x)"
      by (metis imageI)
    then have "sql_count (\<lambda>r. key r = k \<and> P r) rows = 0" by (simp only: sql_count_0_iff)
    then show ?thesis by (simp add: sql_count_def)
  next
    case False
    then have "sql_count (\<lambda>r. key r = k \<and> P r) (r # rows) = sql_count (\<lambda>r. key r = k \<and> P r) rows"
      by (auto simp: sql_count_def)
    then show ?thesis using Cons.IH [OF ok] by simp
  qed
qed

lemma sql_first_Some: "sql_first P rows = Some r \<Longrightarrow> r \<in> set rows \<and> P r"
  by (auto simp: sql_first_def find_Some_iff)

lemma sql_first_None: "sql_first P rows = None \<longleftrightarrow> (\<forall>r \<in> set rows. \<not> P r)"
  by (auto simp: sql_first_def find_None_iff)

lemma sql_first_key:
  "pk_ok key rows \<Longrightarrow> r \<in> set rows \<Longrightarrow> sql_first (\<lambda>x. key x = key r) rows = Some r"
proof -
  assume ok: "pk_ok key rows" and mem: "r \<in> set rows"
  then obtain r' where r': "sql_first (\<lambda>x. key x = key r) rows = Some r'"
    by (cases "sql_first (\<lambda>x. key x = key r) rows") (auto simp: sql_first_None)
  with sql_first_Some [OF r'] pk_unique [OF ok _ mem] show ?thesis by auto
qed

lemma sql_update_all:
  "\<lbrakk>\<And>r. r \<in> set rows \<Longrightarrow> P r \<Longrightarrow> Q (f r); \<And>r. r \<in> set rows \<Longrightarrow> \<not> P r \<Longrightarrow> Q r\<rbrakk> \<Longrightarrow>
   \<forall>r \<in> set (sql_update P f rows). Q r"
  by (auto simp: sql_update_def)

lemma sql_first_update:
  "(\<And>r. key (f r) = key r) \<Longrightarrow>
   sql_first (\<lambda>r. key r = k) (sql_update (\<lambda>r. key r = k') f rows) =
     (if k = k' then map_option f (sql_first (\<lambda>r. key r = k) rows) else sql_first (\<lambda>r. key r = k) rows)"
  unfolding sql_first_def sql_update_def by (induction rows) auto

section \<open>Option and sum helpers\<close>

lemma sum_case_Inr_iff:
  "(case x of Inl e \<Rightarrow> Inl (f e) | Inr v \<Rightarrow> g v) = Inr y \<longleftrightarrow> (\<exists>v. x = Inr v \<and> g v = Inr y)"
  by (cases x) auto

section \<open>Runs of operations and one-shot effects\<close>

text \<open>
  Concurrent callers of one store, registry or manager are serialized by its transaction or its
  mutex, so an interleaving is a sequence of operations; \<open>run_results\<close> pairs each operation with
  what it returned.
\<close>

fun run_results :: "('op \<Rightarrow> 's \<Rightarrow> 'r \<times> 's) \<Rightarrow> 'op list \<Rightarrow> 's \<Rightarrow> ('op \<times> 'r) list" where
  "run_results step [] s = []"
| "run_results step (x # xs) s = (x, fst (step x s)) # run_results step xs (snd (step x s))"

fun run_state :: "('op \<Rightarrow> 's \<Rightarrow> 'r \<times> 's) \<Rightarrow> 'op list \<Rightarrow> 's \<Rightarrow> 's" where
  "run_state step [] s = s"
| "run_state step (x # xs) s = run_state step xs (snd (step x s))"

definition wins_of :: "('op \<Rightarrow> 'r \<Rightarrow> bool) \<Rightarrow> ('op \<times> 'r) list \<Rightarrow> nat" where
  "wins_of w log = length (filter (\<lambda>(x, r). w x r) log)"

lemma wins_of_simps [simp]:
  "wins_of w [] = 0"
  "wins_of w ((x, r) # log) = (if w x r then 1 else 0) + wins_of w log"
  by (simp_all add: wins_of_def)

lemma run_state_append: "run_state step (xs @ ys) s = run_state step ys (run_state step xs s)"
  by (induction xs arbitrary: s) simp_all

lemma run_state_invariant:
  assumes "\<And>x s. ok x \<Longrightarrow> J s \<Longrightarrow> J (snd (step x s))" "J s" "\<forall>x \<in> set xs. ok x"
  shows "J (run_state step xs s)"
  using assms(2,3) by (induction xs arbitrary: s) (simp_all add: assms(1))

text \<open>
  An effect that may happen at most once: ending a session, spending a proof, claiming a
  dispatch. The provider promises an invariant of its state, that the winning call needs the
  effect unspent and leaves it spent, and that no admitted operation makes it unspent again.
\<close>

locale one_shot =
  fixes step :: "'op \<Rightarrow> 's \<Rightarrow> 'r \<times> 's" and good :: "'s \<Rightarrow> bool" and spent :: "'s \<Rightarrow> bool"
    and wins :: "'op \<Rightarrow> 'r \<Rightarrow> bool" and ok :: "'op \<Rightarrow> bool"
  assumes good_stays: "\<lbrakk>ok x; good s\<rbrakk> \<Longrightarrow> good (snd (step x s))"
    and spent_stays: "\<lbrakk>ok x; good s; spent s\<rbrakk> \<Longrightarrow> spent (snd (step x s))"
    and win_fresh: "\<lbrakk>ok x; good s; wins x (fst (step x s))\<rbrakk> \<Longrightarrow> \<not> spent s"
    and win_spends: "\<lbrakk>ok x; good s; wins x (fst (step x s))\<rbrakk> \<Longrightarrow> spent (snd (step x s))"
begin

lemma spent_no_win:
  "\<lbrakk>\<forall>x \<in> set xs. ok x; good s; spent s\<rbrakk> \<Longrightarrow> wins_of wins (run_results step xs s) = 0"
proof (induction xs arbitrary: s)
  case (Cons x xs)
  then have "\<not> wins x (fst (step x s))" using win_fresh by auto
  then show ?case using Cons spent_stays good_stays by simp
qed simp

lemma at_most_one_win:
  "\<lbrakk>\<forall>x \<in> set xs. ok x; good s\<rbrakk> \<Longrightarrow> wins_of wins (run_results step xs s) \<le> 1"
proof (induction xs arbitrary: s)
  case (Cons x xs)
  show ?case
  proof (cases "wins x (fst (step x s))")
    case True
    then show ?thesis using Cons.prems win_spends spent_no_win good_stays by simp
  next
    case False
    then show ?thesis using Cons good_stays by simp
  qed
qed simp

lemma run_spent:
  "\<lbrakk>\<forall>x \<in> set xs. ok x; good s; spent s\<rbrakk> \<Longrightarrow> spent (run_state step xs s)"
proof -
  assume "\<forall>x \<in> set xs. ok x" "good s" "spent s"
  then have "(\<lambda>s. good s \<and> spent s) (run_state step xs s)"
    using run_state_invariant [where ok = ok and J = "\<lambda>s. good s \<and> spent s" and step = step and s = s and xs = xs]
      spent_stays good_stays by blast
  then show ?thesis by simp
qed

end

end
