(* ===== verification/Lockout.thy ===== *)
theory Lockout
  imports Veyport_Prelude
begin

text \<open>
  The per-account login lockout of \<open>hub/internal/lockout/lockout.go\<close>: the policy and how it is
  read from configuration, the failure-counting transition, and the contract the store relies
  on when it records failures.
\<close>

section \<open>Policy\<close>

definition KeyThreshold :: string where "KeyThreshold = ''account.lockout_threshold''"
definition KeyWindowMinutes :: string where "KeyWindowMinutes = ''account.lockout_window_minutes''"
definition KeyDurationMinutes :: string where
  "KeyDurationMinutes = ''account.lockout_duration_minutes''"
definition KeyDormantDays :: string where "KeyDormantDays = ''account.dormant_days''"
definition KeySessionIdleMinutes :: string where
  "KeySessionIdleMinutes = ''account.session_idle_minutes''"
definition KeyCLISessionIdleMinutes :: string where
  "KeyCLISessionIdleMinutes = ''account.cli_session_idle_minutes''"
definition KeySessionMaxHours :: string where "KeySessionMaxHours = ''account.session_max_hours''"

lemmas policy_keys = KeyThreshold_def KeyWindowMinutes_def KeyDurationMinutes_def
  KeyDormantDays_def KeySessionIdleMinutes_def KeyCLISessionIdleMinutes_def KeySessionMaxHours_def

definition DefaultThreshold :: go_int where "DefaultThreshold = 5"
definition DefaultWindow :: duration where "DefaultWindow = 15 * minute"
definition DefaultDuration :: duration where "DefaultDuration = 15 * minute"
definition DefaultDormantDays :: go_int where "DefaultDormantDays = 35"
definition DefaultSessionIdle :: duration where "DefaultSessionIdle = 15 * minute"
definition DefaultCLISessionIdle :: duration where "DefaultCLISessionIdle = 45 * minute"
definition MaxCLISessionIdleMinutes :: int where
  "MaxCLISessionIdleMinutes = max_int64 div minute"
definition DefaultSessionMax :: duration where "DefaultSessionMax = 12 * hour"

lemmas policy_defaults = DefaultThreshold_def DefaultWindow_def DefaultDuration_def
  DefaultDormantDays_def DefaultSessionIdle_def DefaultCLISessionIdle_def
  MaxCLISessionIdleMinutes_def DefaultSessionMax_def

text \<open>9999-12-31 00:00:00 UTC, the expiry of a lock that never ends on its own.\<close>

definition NoAutoUnlock :: go_time where
  "NoAutoUnlock = 253402214400 * second"

record Policy =
  Threshold :: go_int
  Window :: duration
  Duration :: duration
  DormantDays :: go_int
  SessionIdle :: duration
  CLISessionIdle :: duration
  SessionMax :: duration

definition Defaults :: Policy where
  "Defaults = \<lparr>Threshold = DefaultThreshold, Window = DefaultWindow, Duration = DefaultDuration,
     DormantDays = DefaultDormantDays, SessionIdle = DefaultSessionIdle,
     CLISessionIdle = DefaultCLISessionIdle, SessionMax = DefaultSessionMax\<rparr>"

text \<open>Reading one key: \<open>get\<close> answers \<open>None\<close> when it reports an error.\<close>

definition loadInt :: "(string \<Rightarrow> string option) \<Rightarrow> string \<Rightarrow> go_int \<Rightarrow> go_int" where
  "loadInt get key dflt =
     (case get key of
        None \<Rightarrow> dflt
      | Some raw \<Rightarrow>
          (case atoi (trim_space raw) of
             None \<Rightarrow> dflt
           | Some parsed \<Rightarrow> if parsed < 0 then dflt else parsed))"

definition Load :: "(string \<Rightarrow> string option) \<Rightarrow> Policy" where
  "Load get =
     (let cliMinutes = loadInt get KeyCLISessionIdleMinutes (DefaultCLISessionIdle div minute);
          cliMinutes = (if cliMinutes > MaxCLISessionIdleMinutes
                        then DefaultCLISessionIdle div minute else cliMinutes)
      in Defaults\<lparr>
           Threshold := loadInt get KeyThreshold DefaultThreshold,
           Window := dur_mul (loadInt get KeyWindowMinutes (DefaultWindow div minute)) minute,
           Duration := dur_mul (loadInt get KeyDurationMinutes (DefaultDuration div minute)) minute,
           DormantDays := loadInt get KeyDormantDays DefaultDormantDays,
           SessionIdle :=
             dur_mul (loadInt get KeySessionIdleMinutes (DefaultSessionIdle div minute)) minute,
           CLISessionIdle := dur_mul cliMinutes minute,
           SessionMax := dur_mul (loadInt get KeySessionMaxHours (DefaultSessionMax div hour)) hour\<rparr>)"

text \<open>The fields \<open>Validate\<close> names, in the order it tests them; \<open>None\<close> is a nil error.\<close>

datatype InvalidPolicy = BadThreshold | BadWindow | BadDuration | BadDormantDays
  | BadSessionIdle | BadCLISessionIdle | BadSessionMax

definition Validate :: "Policy \<Rightarrow> InvalidPolicy option" where
  "Validate p =
     (if Threshold p < 0 then Some BadThreshold
      else if Window p < 0 then Some BadWindow
      else if Duration p < 0 then Some BadDuration
      else if DormantDays p < 0 then Some BadDormantDays
      else if SessionIdle p < 0 then Some BadSessionIdle
      else if CLISessionIdle p < 0 then Some BadCLISessionIdle
      else if SessionMax p < 0 then Some BadSessionMax
      else None)"

section \<open>The failure transition\<close>

record State =
  Count :: go_int
  LastFailedAt :: "go_time option"
  LockedUntil :: "go_time option"

definition IsLocked :: "go_time option \<Rightarrow> go_time \<Rightarrow> bool" where
  "IsLocked lockedUntil now = (case lockedUntil of None \<Rightarrow> False | Some u \<Rightarrow> now < u)"

definition NextState :: "State \<Rightarrow> go_time \<Rightarrow> Policy \<Rightarrow> State \<times> bool" where
  "NextState prev now p =
     (let cnt = (case LastFailedAt prev of
                   None \<Rightarrow> 1
                 | Some l \<Rightarrow> if time_sub now l \<le> Window p then wrap64 (Count prev + 1) else 1)
      in if Threshold p > 0 \<and> cnt \<ge> Threshold p \<and> \<not> IsLocked (LockedUntil prev) now
         then (let until = (if Duration p = 0 then NoAutoUnlock else time_add now (Duration p))
               in (\<lparr>Count = cnt, LastFailedAt = Some now, LockedUntil = Some until\<rparr>, True))
         else (\<lparr>Count = cnt, LastFailedAt = Some now, LockedUntil = LockedUntil prev\<rparr>, False))"

text \<open>A run of failures at the given instants, with the lock report of each.\<close>

fun failures :: "Policy \<Rightarrow> State \<Rightarrow> go_time list \<Rightarrow> State \<times> bool list" where
  "failures p s [] = (s, [])"
| "failures p s (t # ts) =
     (let (s', b) = NextState s t p; (s'', bs) = failures p s' ts in (s'', b # bs))"

section \<open>Lemmas\<close>

lemma loadInt_nonneg: "0 \<le> dflt \<Longrightarrow> 0 \<le> loadInt get key dflt"
  by (auto simp: loadInt_def split: option.splits)

lemma loadInt_range: "in_int64 dflt \<Longrightarrow> in_int64 (loadInt get key dflt)"
  by (auto simp: loadInt_def dest: atoi_range split: option.splits)

lemma dur_mul_small:
  assumes "0 \<le> n" "0 < u" "n \<le> max_int64 div u"
  shows "dur_mul n u = n * u"
proof -
  have "n * u \<le> (max_int64 div u) * u" using assms by (simp add: mult_right_mono)
  also have "\<dots> \<le> max_int64" using assms(2) by (rule div_mult_le)
  finally have "n * u \<le> max_int64" .
  moreover have "0 \<le> n * u" using assms by simp
  ultimately have "in_int64 (n * u)" by (simp add: in_int64_def min_int64_def)
  then show ?thesis by (simp add: dur_mul_def wrap64_id)
qed

lemma dur_mul_nonneg:
  "0 \<le> n \<Longrightarrow> 0 < u \<Longrightarrow> n \<le> max_int64 div u \<Longrightarrow> 0 \<le> dur_mul n u"
  by (simp add: dur_mul_small)

lemma Validate_None_iff:
  "Validate p = None \<longleftrightarrow>
     0 \<le> Threshold p \<and> 0 \<le> Window p \<and> 0 \<le> Duration p \<and> 0 \<le> DormantDays p \<and>
     0 \<le> SessionIdle p \<and> 0 \<le> CLISessionIdle p \<and> 0 \<le> SessionMax p"
  by (auto simp: Validate_def)

lemma Defaults_valid: "Validate Defaults = None"
  by (simp add: Validate_None_iff Defaults_def policy_defaults duration_units)

lemma IsLocked_simps [simp]:
  "IsLocked None now = False" "IsLocked (Some u) now = (now < u)"
  by (simp_all add: IsLocked_def)

lemma IsLocked_earlier: "IsLocked l t \<Longrightarrow> t' \<le> t \<Longrightarrow> IsLocked l t'"
  by (cases l) auto

lemma NextState_last [simp]: "LastFailedAt (fst (NextState s t p)) = Some t"
  by (simp add: NextState_def Let_def)

lemma NextState_locked_unchanged:
  "IsLocked (LockedUntil s) t \<Longrightarrow>
   LockedUntil (fst (NextState s t p)) = LockedUntil s \<and> \<not> snd (NextState s t p)"
  by (simp add: NextState_def Let_def)

lemma NextState_newly:
  "snd (NextState s t p) \<Longrightarrow>
   \<not> IsLocked (LockedUntil s) t \<and> 0 < Threshold p \<and>
   LockedUntil (fst (NextState s t p)) =
     Some (if Duration p = 0 then NoAutoUnlock else t + Duration p)"
  by (simp add: NextState_def Let_def time_add_def split: if_splits)

lemma NextState_not_newly:
  "\<not> snd (NextState s t p) \<Longrightarrow> LockedUntil (fst (NextState s t p)) = LockedUntil s"
  by (auto simp: NextState_def Let_def split: if_splits)

lemma NextState_in_window:
  "LastFailedAt s = Some l \<Longrightarrow> time_sub t l \<le> Window p \<Longrightarrow> in_int64 (Count s + 1) \<Longrightarrow>
   Count (fst (NextState s t p)) = Count s + 1"
  by (simp add: NextState_def Let_def wrap64_id)

lemma NextState_restart:
  "LastFailedAt s = None \<or> (\<exists>l. LastFailedAt s = Some l \<and> Window p < time_sub t l) \<Longrightarrow>
   Count (fst (NextState s t p)) = 1"
  by (auto simp: NextState_def Let_def)

section \<open>The contract of a failure counter\<close>

text \<open>
  What a caller that records failures relies on: a report is made only by a failure that found
  the account unlocked, an attempt during a lock changes neither the expiry nor reports, and a
  failure that does not report carries the expiry through. The lemmas about whole runs of
  failures are proved once from these laws.
\<close>

fun fail_run :: "('s \<Rightarrow> go_time \<Rightarrow> 's \<times> bool) \<Rightarrow> 's \<Rightarrow> go_time list \<Rightarrow> 's \<times> bool list" where
  "fail_run fail s [] = (s, [])"
| "fail_run fail s (t # ts) =
     (let (s', b) = fail s t; (s'', bs) = fail_run fail s' ts in (s'', b # bs))"

locale failure_counter =
  fixes fail :: "'s \<Rightarrow> go_time \<Rightarrow> 's \<times> bool"
    and expiry :: "'s \<Rightarrow> go_time option"
  assumes report_unlocked: "snd (fail s t) \<Longrightarrow> \<not> IsLocked (expiry s) t"
    and carried: "\<not> snd (fail s t) \<Longrightarrow> expiry (fst (fail s t)) = expiry s"
begin

lemma locked_step:
  "IsLocked (expiry s) t \<Longrightarrow> expiry (fst (fail s t)) = expiry s \<and> \<not> snd (fail s t)"
  using report_unlocked carried by blast

lemma locked_run:
  "\<forall>t \<in> set ts. IsLocked (expiry s) t \<Longrightarrow>
   expiry (fst (fail_run fail s ts)) = expiry s \<and>
   snd (fail_run fail s ts) = replicate (length ts) False"
proof (induction ts arbitrary: s)
  case Nil
  then show ?case by simp
next
  case (Cons t ts)
  then have step: "expiry (fst (fail s t)) = expiry s" "\<not> snd (fail s t)"
    using locked_step by auto
  with Cons.prems have "\<forall>u \<in> set ts. IsLocked (expiry (fst (fail s t))) u" by simp
  from Cons.IH [OF this] step show ?case
    by (simp add: Let_def split: prod.splits) (metis fst_conv snd_conv)
qed

lemma report_needs_elapsed_lock:
  assumes "sorted ts" and "expiry s = Some u" and "t \<in> set ts"
    and "True \<in> set (snd (fail_run fail s ts))"
  shows "\<exists>t \<in> set ts. u \<le> t"
proof (rule ccontr)
  assume "\<not> (\<exists>t \<in> set ts. u \<le> t)"
  with assms(2) have "\<forall>t \<in> set ts. IsLocked (expiry s) t" by auto
  from locked_run [OF this] assms(4) show False by auto
qed

end

interpretation lockout: failure_counter "\<lambda>s t. NextState s t p" LockedUntil for p
  by unfold_locales (auto dest: NextState_newly NextState_not_newly)

lemma failures_fail_run: "failures p s ts = fail_run (\<lambda>s t. NextState s t p) s ts"
  by (induction ts arbitrary: s) (simp_all split: prod.splits)

section \<open>A streak of failures\<close>

text \<open>Consecutive failures, each within the window of the one before.\<close>

fun within_window :: "Policy \<Rightarrow> go_time \<Rightarrow> go_time list \<Rightarrow> bool" where
  "within_window p l [] = True"
| "within_window p l (t # ts) = (time_sub t l \<le> Window p \<and> within_window p t ts)"

lemma streak_locks:
  assumes "within_window p l ts" "ts \<noteq> []"
    and "LastFailedAt s = Some l" "Count s + int (length ts) = Threshold p" "0 \<le> Count s"
    and "Threshold p \<le> max_int64"
    and "\<forall>t \<in> set ts. \<not> IsLocked (LockedUntil s) t"
  shows "snd (failures p s ts) = replicate (length ts - 1) False @ [True] \<and>
    LockedUntil (fst (failures p s ts)) =
      Some (if Duration p = 0 then NoAutoUnlock else last ts + Duration p)"
  using assms
proof (induction ts arbitrary: s l)
  case Nil
  then show ?case by simp
next
  case (Cons t ts)
  let ?s' = "fst (NextState s t p)"
  have rng: "in_int64 (Count s + 1)"
    using Cons.prems(4-6) by (simp add: in_int64_def min_int64_def)
  have cnt: "Count ?s' = Count s + 1"
    using Cons.prems rng by (intro NextState_in_window) auto
  show ?case
  proof (cases "ts = []")
    case True
    then show ?thesis
      using Cons.prems rng by (simp add: NextState_def Let_def wrap64_id time_add_def)
  next
    case False
    then have "1 \<le> length ts" by (cases ts) auto
    then have "Count s + 1 < Threshold p" using Cons.prems(4) by simp
    then have notyet: "\<not> snd (NextState s t p)"
      using Cons.prems rng by (simp add: NextState_def Let_def wrap64_id)
    then have lk: "LockedUntil ?s' = LockedUntil s" by (rule NextState_not_newly)
    have IH: "snd (failures p ?s' ts) = replicate (length ts - 1) False @ [True] \<and>
      LockedUntil (fst (failures p ?s' ts)) =
        Some (if Duration p = 0 then NoAutoUnlock else last ts + Duration p)"
      by (rule Cons.IH [where l = t]) (use Cons.prems False cnt lk in auto)
    obtain b where step: "NextState s t p = (?s', b)" by (metis prod.collapse)
    with notyet have "b = False" by (metis snd_conv)
    with step IH False show ?thesis
      by (cases ts) (auto simp: Let_def split: prod.splits)
  qed
qed

section \<open>Properties\<close>

text \<open>From a clean account, exactly the \<open>Threshold\<close>-th consecutive failure, each failure
  within the window of the one before, locks the account and is the only one reported as the
  locking one; the lock then lasts \<open>Duration\<close> from that failure, or has no automatic end when
  the duration is zero.\<close>

theorem lockout_at_threshold:
  assumes "0 < Threshold p" "Threshold p \<le> max_int64"
    and "int (length (t # ts)) = Threshold p" and "within_window p t ts"
  shows "snd (failures p \<lparr>Count = 0, LastFailedAt = None, LockedUntil = None\<rparr> (t # ts)) =
           replicate (length ts) False @ [True] \<and>
         LockedUntil (fst (failures p \<lparr>Count = 0, LastFailedAt = None, LockedUntil = None\<rparr> (t # ts))) =
           Some (if Duration p = 0 then NoAutoUnlock else last (t # ts) + Duration p)"
proof (cases "ts = []")
  case True
  with assms show ?thesis by (simp add: NextState_def Let_def time_add_def)
next
  case False
  let ?s0 = "\<lparr>Count = 0, LastFailedAt = None, LockedUntil = None\<rparr> :: State"
  have n: "1 < Threshold p" using False assms(3) by (cases ts) auto
  then have step: "NextState ?s0 t p = (\<lparr>Count = 1, LastFailedAt = Some t, LockedUntil = None\<rparr>, False)"
    by (simp add: NextState_def Let_def)
  have "snd (failures p (fst (NextState ?s0 t p)) ts) = replicate (length ts - 1) False @ [True] \<and>
    LockedUntil (fst (failures p (fst (NextState ?s0 t p)) ts)) =
      Some (if Duration p = 0 then NoAutoUnlock else last ts + Duration p)"
    by (rule streak_locks [where l = t]) (use assms False step in auto)
  with step False show ?thesis
    by (cases ts) (auto simp: Let_def split: prod.splits)
qed

theorem lockout_at_threshold_witness:
  "snd (failures Defaults \<lparr>Count = 0, LastFailedAt = None, LockedUntil = None\<rparr>
      [0, minute, 2 * minute, 3 * minute, 4 * minute]) = [False, False, False, False, True] \<and>
   LockedUntil (fst (failures Defaults \<lparr>Count = 0, LastFailedAt = None, LockedUntil = None\<rparr>
      [0, minute, 2 * minute, 3 * minute, 4 * minute])) = Some (19 * minute)"
  using lockout_at_threshold
    [of Defaults 0 "[minute, 2 * minute, 3 * minute, 4 * minute]"]
  by (simp add: Defaults_def policy_defaults duration_units max_int64_def min_int64_def
      time_sub_def numeral_eq_Suc)

text \<open>While an account is locked, no number of further failures moves the lock's expiry or
  is reported as locking it: an attack during a lock neither extends it nor repeats its
  notification.\<close>

theorem lock_not_extended:
  assumes "\<forall>t \<in> set ts. IsLocked (LockedUntil s) t"
  shows "LockedUntil (fst (failures p s ts)) = LockedUntil s \<and>
         snd (failures p s ts) = replicate (length ts) False"
  using lockout.locked_run [OF assms] by (simp add: failures_fail_run)

theorem lock_not_extended_witness:
  "LockedUntil (fst (failures Defaults \<lparr>Count = 5, LastFailedAt = Some 0, LockedUntil = Some 100\<rparr>
      [10, 20, 99])) = Some 100 \<and>
   snd (failures Defaults \<lparr>Count = 5, LastFailedAt = Some 0, LockedUntil = Some 100\<rparr>
      [10, 20, 99]) = [False, False, False]"
  using lock_not_extended
    [of "[10, 20, 99]" "\<lparr>Count = 5, LastFailedAt = Some 0, LockedUntil = Some 100\<rparr>" Defaults]
  by (simp add: numeral_eq_Suc)

text \<open>Whatever the configuration store answers, the loaded policy passes \<open>Validate\<close> as
  long as no stored minute or hour count exceeds the largest one whose duration fits 64 bits.\<close>

theorem Load_valid:
  assumes "loadInt get KeyWindowMinutes 15 \<le> max_int64 div minute"
    and "loadInt get KeyDurationMinutes 15 \<le> max_int64 div minute"
    and "loadInt get KeySessionIdleMinutes 15 \<le> max_int64 div minute"
    and "loadInt get KeySessionMaxHours 12 \<le> max_int64 div hour"
  shows "Validate (Load get) = None"
proof -
  have dm: "DefaultWindow div minute = 15" "DefaultDuration div minute = 15"
    "DefaultSessionIdle div minute = 15" "DefaultCLISessionIdle div minute = 45"
    "DefaultSessionMax div hour = 12"
    by (simp_all add: policy_defaults duration_units)
  have pos: "0 < minute" "0 < hour" by (simp_all add: duration_units)
  have "0 \<le> Window (Load get)" "0 \<le> Duration (Load get)" "0 \<le> SessionIdle (Load get)"
    "0 \<le> SessionMax (Load get)"
    using assms pos by (simp_all add: Load_def Let_def dm dur_mul_nonneg loadInt_nonneg)
  moreover have "(45 :: int) \<le> max_int64 div minute" by (simp add: duration_units max_int64_def)
  then have "0 \<le> CLISessionIdle (Load get)"
    using pos by (simp add: Load_def Let_def dm MaxCLISessionIdleMinutes_def dur_mul_nonneg
        loadInt_nonneg not_less)
  moreover have "0 \<le> Threshold (Load get)" "0 \<le> DormantDays (Load get)"
    by (simp_all add: Load_def Let_def loadInt_nonneg DefaultThreshold_def DefaultDormantDays_def)
  ultimately show ?thesis by (simp add: Validate_None_iff)
qed

theorem Load_valid_witness:
  "Validate (Load (\<lambda>k. if k = KeyWindowMinutes then Some ''30'' else None)) = None"
  by (rule Load_valid)
    (simp_all add: loadInt_def policy_keys duration_units max_int64_def trim_space_def
      trim_left.simps space_seqs_def atoi_def parse_digits_def is_digit_def digit_val_def
      of_char_def in_int64_def min_int64_def)

text \<open>Without that bound the loaded policy can be invalid: a stored window of 153722868
  minutes is a non-negative integer, is accepted, and wraps to a negative duration, so
  \<open>Validate\<close> rejects what \<open>Load\<close> returned.\<close>

theorem Load_overflow_invalid:
  "Validate (Load (\<lambda>k. if k = KeyWindowMinutes then Some ''153722868'' else None)) = Some BadWindow"
proof -
  let ?get = "\<lambda>k. if k = KeyWindowMinutes then Some ''153722868'' else None"
  have "loadInt ?get KeyWindowMinutes 15 = 153722868"
    by (simp add: loadInt_def trim_space_def trim_left.simps space_seqs_def atoi_def
        parse_digits_def is_digit_def digit_val_def of_char_def in_int64_def min_int64_def
        max_int64_def)
  moreover have "loadInt ?get KeyThreshold 5 = 5"
    by (simp add: loadInt_def policy_keys)
  moreover have "DefaultWindow div minute = 15" by (simp add: policy_defaults duration_units)
  ultimately show ?thesis
    by (simp add: Validate_def Load_def Let_def DefaultThreshold_def dur_mul_def wrap64_def
        duration_units)
qed

end
