(* ===== verification/Account.thy ===== *)
theory Account
  imports Lockout
begin

text \<open>
  The derived account status of \<open>hub/internal/account/account.go\<close>: the activity clock, dormancy,
  the precedence of the four statuses and the refusal each gives.
\<close>

datatype Status = StatusActive | StatusLocked | StatusDisabled | StatusDormant

record Input =
  in_DisabledAt :: "go_time option"
  in_LockedUntil :: "go_time option"
  in_LastActivityAt :: "go_time option"
  in_ReactivatedAt :: "go_time option"
  in_CreatedAt :: go_time
  in_DormancyExempt :: bool

definition LatestActivity :: "Input \<Rightarrow> go_time" where
  "LatestActivity i =
     (let latest = in_CreatedAt i;
          latest = (case in_LastActivityAt i of Some a \<Rightarrow> if latest < a then a else latest
                                               | None \<Rightarrow> latest)
      in case in_ReactivatedAt i of Some a \<Rightarrow> if latest < a then a else latest
                                  | None \<Rightarrow> latest)"

definition IsDormant :: "Input \<Rightarrow> go_time \<Rightarrow> go_int \<Rightarrow> bool" where
  "IsDormant i now dormantDays =
     (if in_DormancyExempt i \<or> dormantDays \<le> 0 then False
      else time_sub now (LatestActivity i) > dur_mul (dur_mul dormantDays 24) hour)"

definition Evaluate_account :: "Input \<Rightarrow> go_time \<Rightarrow> Policy \<Rightarrow> Status" where
  "Evaluate_account i now p =
     (if in_DisabledAt i \<noteq> None then StatusDisabled
      else if IsDormant i now (DormantDays p) then StatusDormant
      else if IsLocked (in_LockedUntil i) now then StatusLocked
      else StatusActive)"

datatype Refusal_msg = MsgDisabled | MsgDormant

text \<open>\<open>Refusal\<close>'s pair of a message and whether it refuses: \<open>None\<close> is \<open>("", false)\<close>.\<close>

fun Refusal :: "Status \<Rightarrow> Refusal_msg option" where
  "Refusal StatusDisabled = Some MsgDisabled"
| "Refusal StatusDormant = Some MsgDormant"
| "Refusal _ = None"

section \<open>Lemmas\<close>

lemma LatestActivity_ge_created: "in_CreatedAt i \<le> LatestActivity i"
  by (auto simp: LatestActivity_def Let_def split: option.splits)

lemma LatestActivity_ge:
  "in_LastActivityAt i = Some t \<Longrightarrow> t \<le> LatestActivity i"
  "in_ReactivatedAt i = Some t \<Longrightarrow> t \<le> LatestActivity i"
  by (auto simp: LatestActivity_def Let_def split: option.splits)

lemma LatestActivity_is_one:
  "LatestActivity i \<in> insert (in_CreatedAt i)
     (set_option (in_LastActivityAt i) \<union> set_option (in_ReactivatedAt i))"
  by (auto simp: LatestActivity_def Let_def split: option.splits)

lemma dormancy_threshold_exact:
  assumes "0 < d" "d \<le> 106751"
  shows "dur_mul (dur_mul d 24) hour = d * 24 * hour"
    and "in_int64 (d * 24 * hour)" and "d * 24 * hour < max_int64"
proof -
  have "in_int64 (d * 24)" "in_int64 (d * 24 * hour)"
    using assms by (simp_all add: in_int64_def hour_def max_int64_def min_int64_def)
  then show "dur_mul (dur_mul d 24) hour = d * 24 * hour" "in_int64 (d * 24 * hour)"
    by (simp_all add: dur_mul_def wrap64_id)
  show "d * 24 * hour < max_int64" using assms by (simp add: hour_def max_int64_def)
qed

lemma IsDormant_iff:
  assumes "0 < d" "d \<le> 106751"
  shows "IsDormant i now d \<longleftrightarrow>
    \<not> in_DormancyExempt i \<and> d * 24 * hour < now - LatestActivity i"
  using assms time_sub_less_iff [OF dormancy_threshold_exact(2,3) [OF assms]]
  by (auto simp: IsDormant_def dormancy_threshold_exact(1) [OF assms])

lemma IsDormant_later: "IsDormant i now d \<Longrightarrow> now \<le> now' \<Longrightarrow> IsDormant i now' d"
  using time_sub_mono [of now now' "LatestActivity i"]
  by (auto simp: IsDormant_def split: if_splits)

lemma Evaluate_refuses_iff:
  "Refusal (Evaluate_account i now p) \<noteq> None \<longleftrightarrow>
     in_DisabledAt i \<noteq> None \<or> IsDormant i now (DormantDays p)"
  by (simp add: Evaluate_account_def)

section \<open>Properties\<close>

text \<open>For every dormancy limit of up to 106751 days the account is dormant exactly when it is
  not exempt and its latest recorded activity lies strictly more than that many days back, and
  an enabled account is refused exactly then.\<close>

theorem dormancy_exact:
  assumes "0 < DormantDays p" "DormantDays p \<le> 106751" and "in_DisabledAt i = None"
  shows "Refusal (Evaluate_account i now p) = Some MsgDormant \<longleftrightarrow>
    \<not> in_DormancyExempt i \<and>
    (\<forall>t \<in> insert (in_CreatedAt i) (set_option (in_LastActivityAt i) \<union> set_option (in_ReactivatedAt i)).
       DormantDays p * 24 * hour < now - t)"
proof -
  have "(\<forall>t \<in> insert (in_CreatedAt i)
       (set_option (in_LastActivityAt i) \<union> set_option (in_ReactivatedAt i)).
         DormantDays p * 24 * hour < now - t) \<longleftrightarrow> DormantDays p * 24 * hour < now - LatestActivity i"
  proof
    assume "\<forall>t \<in> insert (in_CreatedAt i)
       (set_option (in_LastActivityAt i) \<union> set_option (in_ReactivatedAt i)).
         DormantDays p * 24 * hour < now - t"
    then show "DormantDays p * 24 * hour < now - LatestActivity i"
      using LatestActivity_is_one by blast
  next
    assume a: "DormantDays p * 24 * hour < now - LatestActivity i"
    show "\<forall>t \<in> insert (in_CreatedAt i)
       (set_option (in_LastActivityAt i) \<union> set_option (in_ReactivatedAt i)).
         DormantDays p * 24 * hour < now - t"
      using a LatestActivity_ge_created [of i] LatestActivity_ge [of i] by force
  qed
  with assms IsDormant_iff [OF assms(1,2)] show ?thesis
    by (auto simp: Evaluate_account_def)
qed

theorem dormancy_exact_witness:
  "Refusal (Evaluate_account \<lparr>in_DisabledAt = None, in_LockedUntil = None, in_LastActivityAt = Some 5,
      in_ReactivatedAt = None, in_CreatedAt = 0, in_DormancyExempt = False\<rparr>
      (35 * 24 * hour + 6) Defaults) = Some MsgDormant"
  by (subst dormancy_exact) (simp_all add: Defaults_def policy_defaults hour_def)

text \<open>A dormancy limit of 106752 days or more does not fit the 64-bit nanosecond count it is
  compared with: at 106752 days the product wraps to a negative duration, and an enabled,
  non-exempt account that was active this very instant is refused as dormant.\<close>

theorem dormancy_overflow:
  assumes "in_DisabledAt i = None" "\<not> in_DormancyExempt i" and "DormantDays p = 106752"
    and "LatestActivity i = now"
  shows "Refusal (Evaluate_account i now p) = Some MsgDormant"
  using assms by (simp add: Evaluate_account_def IsDormant_def dur_mul_def wrap64_def hour_def
      time_sub_def max_int64_def min_int64_def)

theorem dormancy_overflow_witness:
  "Refusal (Evaluate_account \<lparr>in_DisabledAt = None, in_LockedUntil = None, in_LastActivityAt = Some 7,
      in_ReactivatedAt = None, in_CreatedAt = 0, in_DormancyExempt = False\<rparr>
      7 (Defaults\<lparr>DormantDays := 106752\<rparr>)) = Some MsgDormant"
  by (rule dormancy_overflow) (simp_all add: LatestActivity_def)

end
