(* ===== verification/Session.thy ===== *)
theory Session
  imports Lockout
begin

text \<open>
  The session verdict of \<open>hub/internal/session/session.go\<close>: idle and absolute expiry with their
  precedence, the idle deadline shown to users, and the refusal message.
\<close>

definition SessionKindWeb :: string where "SessionKindWeb = ''web''"
definition SessionKindCLI :: string where "SessionKindCLI = ''cli''"

record session_state =
  ss_Kind :: string
  ss_CreatedAt :: go_time
  ss_LastSeenAt :: go_time
  ss_ExpiresAt :: "go_time option"
  ss_EndedAt :: "go_time option"

datatype Verdict = VerdictOK | VerdictEnded | VerdictExpiredIdle | VerdictExpiredAbsolute

fun Verdict_String :: "Verdict \<Rightarrow> string" where
  "Verdict_String VerdictOK = ''ok''"
| "Verdict_String VerdictEnded = ''ended''"
| "Verdict_String VerdictExpiredIdle = ''expired_idle''"
| "Verdict_String VerdictExpiredAbsolute = ''expired_absolute''"

definition IdleTimeout :: "string \<Rightarrow> Policy \<Rightarrow> duration" where
  "IdleTimeout kind p = (if kind = SessionKindCLI then CLISessionIdle p else SessionIdle p)"

definition Evaluate_session :: "session_state \<Rightarrow> go_time \<Rightarrow> Policy \<Rightarrow> Verdict" where
  "Evaluate_session st now p =
     (let idle = IdleTimeout (ss_Kind st) p in
      if ss_EndedAt st \<noteq> None then VerdictEnded
      else if (case ss_ExpiresAt st of None \<Rightarrow> False | Some e \<Rightarrow> \<not> now < e)
        then VerdictExpiredAbsolute
      else if idle > 0 \<and> time_sub now (ss_LastSeenAt st) > idle then VerdictExpiredIdle
      else VerdictOK)"

definition IdleDeadline :: "session_state \<Rightarrow> Policy \<Rightarrow> go_time option" where
  "IdleDeadline st p =
     (let idle = IdleTimeout (ss_Kind st) p in
      if idle \<le> 0 then None else Some (time_add (ss_LastSeenAt st) idle))"

datatype session_msg = MsgExpired | MsgEnded

fun Message :: "Verdict \<Rightarrow> session_msg option" where
  "Message VerdictEnded = Some MsgEnded"
| "Message VerdictExpiredIdle = Some MsgExpired"
| "Message VerdictExpiredAbsolute = Some MsgExpired"
| "Message VerdictOK = None"

section \<open>Lemmas\<close>

lemma Evaluate_OK_iff:
  "Evaluate_session st now p = VerdictOK \<longleftrightarrow>
     ss_EndedAt st = None \<and> (\<forall>e. ss_ExpiresAt st = Some e \<longrightarrow> now < e) \<and>
     (IdleTimeout (ss_Kind st) p \<le> 0 \<or> time_sub now (ss_LastSeenAt st) \<le> IdleTimeout (ss_Kind st) p)"
  by (auto simp: Evaluate_session_def Let_def split: option.splits)

lemma Message_None_iff: "Message v = None \<longleftrightarrow> v = VerdictOK"
  by (cases v) auto

section \<open>Properties\<close>

text \<open>A session that is refused stays refused: if nothing touches or rewrites the row, every
  later evaluation under the same policy refuses it too, so an expired session never comes
  back by waiting.\<close>

theorem refused_stays_refused:
  assumes "Message (Evaluate_session st now p) \<noteq> None" "now \<le> now'"
  shows "Message (Evaluate_session st now' p) \<noteq> None"
proof
  assume "Message (Evaluate_session st now' p) = None"
  moreover have "time_sub now (ss_LastSeenAt st) \<le> time_sub now' (ss_LastSeenAt st)"
    using assms(2) by (rule time_sub_mono)
  ultimately have "Message (Evaluate_session st now p) = None"
    using assms(2) unfolding Message_None_iff Evaluate_OK_iff by force
  with assms(1) show False by simp
qed

theorem refused_stays_refused_witness:
  "Message (Evaluate_session \<lparr>ss_Kind = ''web'', ss_CreatedAt = 0, ss_LastSeenAt = 0,
      ss_ExpiresAt = Some 10, ss_EndedAt = None\<rparr> 20 Defaults) \<noteq> None"
  by (rule refused_stays_refused [where now = 10]) (simp_all add: Evaluate_session_def Let_def)

text \<open>The idle deadline shown to the user is the true one: a session that has not been ended
  and is inside its absolute limit is live exactly while the clock has not passed its idle
  deadline, and is live without limit when the idle policy is switched off.\<close>

theorem idle_deadline_exact:
  assumes "ss_EndedAt st = None" "\<forall>e. ss_ExpiresAt st = Some e \<longrightarrow> now < e"
    and "IdleTimeout (ss_Kind st) p < max_int64"
  shows "Evaluate_session st now p =
    (case IdleDeadline st p of
       None \<Rightarrow> VerdictOK
     | Some d \<Rightarrow> if now \<le> d then VerdictOK else VerdictExpiredIdle)"
proof (cases "IdleTimeout (ss_Kind st) p \<le> 0")
  case True
  with assms show ?thesis
    by (auto simp: Evaluate_session_def IdleDeadline_def Let_def split: option.splits)
next
  case False
  then have "in_int64 (IdleTimeout (ss_Kind st) p)"
    using assms(3) by (simp add: in_int64_def min_int64_def)
  from time_sub_less_iff [OF this assms(3)] False assms(1,2) show ?thesis
    by (auto simp: Evaluate_session_def IdleDeadline_def Let_def time_add_def split: option.splits)
qed

theorem idle_deadline_exact_witness:
  "Evaluate_session \<lparr>ss_Kind = ''cli'', ss_CreatedAt = 0, ss_LastSeenAt = 0,
      ss_ExpiresAt = None, ss_EndedAt = None\<rparr> (45 * minute) Defaults = VerdictOK \<and>
   Evaluate_session \<lparr>ss_Kind = ''web'', ss_CreatedAt = 0, ss_LastSeenAt = 0,
      ss_ExpiresAt = None, ss_EndedAt = None\<rparr> (45 * minute) Defaults = VerdictExpiredIdle"
  by (subst idle_deadline_exact,
      simp_all add: IdleTimeout_def SessionKindCLI_def Defaults_def policy_defaults duration_units
        max_int64_def IdleDeadline_def time_add_def)
    (subst idle_deadline_exact,
      simp_all add: IdleTimeout_def SessionKindCLI_def Defaults_def policy_defaults duration_units
        max_int64_def IdleDeadline_def time_add_def)

end
