(* ===== verification/Store_Schema.thy ===== *)
theory Store_Schema
  imports Account Session
begin

text \<open>
  The tables of the hub's SQLite database that the modelled store operations read and write
  (\<open>hub/internal/migrate/migrations\<close>), the triggers of migration 025 on credential changes, the
  immediate transaction of \<open>hub/internal/store/lifecycle.go\<close>, the configuration reads of
  \<open>config.go\<close> and the protected-principal guard of \<open>security.go\<close>.
\<close>

section \<open>Rows\<close>

record user_row =
  u_id :: string
  u_username :: string
  u_password_hash :: string
  u_role :: string
  u_auth_provider :: string
  u_external_id :: string
  u_ldap_dn :: string
  u_ldap_username :: string
  u_terminal_access :: bool
  u_totp_secret :: "string option"
  u_totp_enabled :: bool
  u_token_generation :: int
  u_security_revision :: int
  u_ssh_generation :: int
  u_must_change :: bool
  u_temp_expires :: "sql_time option"
  u_failed_count :: int
  u_last_failed :: "sql_time option"
  u_last_login :: "sql_time option"
  u_locked_until :: "sql_time option"
  u_disabled_at :: "sql_time option"
  u_disabled_by :: "string option"
  u_reactivated_at :: "sql_time option"
  u_dormancy_exempt :: bool
  u_last_activity :: "sql_time option"
  u_created_at :: sql_time
  u_updated_at :: sql_time

record api_token_row =
  tk_id :: string
  tk_user_id :: string
  tk_hash :: string
  tk_expires_at :: "sql_time option"
  tk_revoked_at :: "sql_time option"
  tk_updated_at :: sql_time

record session_row =
  s_id :: string
  s_user_id :: string
  s_kind :: string
  s_ip :: string
  s_user_agent :: string
  s_created_at :: sql_time
  s_last_seen_at :: sql_time
  s_expires_at :: "sql_time option"
  s_ended_at :: "sql_time option"
  s_end_reason :: "string option"
  s_ended_by :: "string option"
  s_refresh :: string

record role_row =
  r_user_id :: string
  r_role :: string
  r_granting :: string

record link_row =
  l_user_id :: string
  l_person_id :: string
  l_granting :: string

record nomination_row =
  n_request_id :: string
  n_user_id :: string
  n_person_id :: string
  n_roles :: "string list"
  n_verification :: string

record change_row =
  ch_id :: string
  ch_revision :: int
  ch_requester_id :: string
  ch_requester_person :: string
  ch_requester_generation :: int
  ch_expected_version :: nat
  ch_digest :: string
  ch_reason :: string
  ch_payload :: string
  ch_state :: string
  ch_created_at :: int
  ch_expires_at :: int
  ch_intent_ref :: string
  ch_commit_ref :: string
  ch_result_ref :: string
  ch_applier_id :: string
  ch_applier_person :: string
  ch_applier_revision :: int

record approval_row =
  ap_request_id :: string
  ap_revision :: int
  ap_digest :: string
  ap_user_id :: string
  ap_person_id :: string
  ap_proof_sha256 :: string
  ap_generation :: int
  ap_approved_at :: int
  ap_invalidated_at :: "int option"

record stepup_row =
  su_hash :: string
  su_user_id :: string
  su_session_id :: string
  su_action :: string
  su_digest :: string
  su_created_at :: int
  su_expires_at :: int
  su_consumed_at :: "int option"
  su_generation :: int

record policy_version_row =
  pv_version :: nat
  pv_payload :: string
  pv_digest :: string
  pv_request_id :: string

record policy_state_row =
  ps_active :: nat
  ps_state :: string
  ps_pending :: "nat option"
  ps_pending_change :: string

record audit_row =
  ar_id :: string
  ar_user_id :: "string option"
  ar_action :: string
  ar_target :: "string option"
  ar_detail :: "string option"
  ar_ip :: "string option"
  ar_outcome :: string
  ar_actor_type :: string
  ar_correlation_id :: "string option"
  ar_resource_type :: "string option"
  ar_prev_hash :: string

record history_row =
  hi_id :: string
  hi_user_id :: string
  hi_hash :: string
  hi_created_at :: sql_time

record person_row =
  pe_id :: string
  pe_verification :: string

record secret_row =
  sc_ref :: string
  sc_encrypted :: string
  sc_created_by :: string
  sc_created_at :: int

record evidence_row =
  ev_request_id :: string
  ev_event_type :: string
  ev_record :: string
  ev_reference :: string

record password_recovery_row =
  pr_user_id :: string
  pr_request_id :: string
  pr_password_hash :: string

record mfa_recovery_row =
  mr_user_id :: string
  mr_request_id :: string
  mr_generation :: int

record break_glass_row =
  bg_user_id :: string
  bg_audit_id :: string
  bg_password_hash :: string
  bg_generation :: int
  bg_password_pending :: bool
  bg_expires_at :: sql_time

record db =
  users :: "user_row list"
  api_tokens :: "api_token_row list"
  sessions :: "session_row list"
  user_roles :: "role_row list"
  identity_links :: "link_row list"
  nominations :: "nomination_row list"
  changes :: "change_row list"
  approvals :: "approval_row list"
  stepups :: "stepup_row list"
  policy_versions :: "policy_version_row list"
  policy_state :: policy_state_row
  audit_logs :: "audit_row list"
  password_history :: "history_row list"
  config :: "string \<rightharpoonup> string"
  persons :: "person_row list"
  secrets :: "secret_row list"
  evidence :: "evidence_row list"
  password_recoveries :: "password_recovery_row list"
  mfa_recoveries :: "mfa_recovery_row list"
  break_glass :: "break_glass_row list"

text \<open>The policy record that migration 025 installs as version 1, without a digest.\<close>

definition initialStandardPolicy :: string where
  "initialStandardPolicy = ''{\"profile\":\"standard\",\"actors\":[],\"nodes\":[],\"runtime_seconds\":3600,\"retention_hours\":24,\"destination\":\"\",\"credential_ref\":\"\",\"trust_key_ids\":[],\"qualification_sha256\":\"\"}''"

text \<open>The database right after the migrations, before the first account.\<close>

definition empty_db :: db where
  "empty_db = \<lparr>users = [], api_tokens = [], sessions = [], user_roles = [], identity_links = [],
     nominations = [], changes = [], approvals = [], stepups = [],
     policy_versions = [\<lparr>pv_version = 1, pv_payload = initialStandardPolicy, pv_digest = [],
       pv_request_id = []\<rparr>],
     policy_state = \<lparr>ps_active = 1, ps_state = ''standard'', ps_pending = None,
       ps_pending_change = []\<rparr>,
     audit_logs = [], password_history = [], config = Map.empty, persons = [], secrets = [], evidence = [],
     password_recoveries = [], mfa_recoveries = [], break_glass = []\<rparr>"

text \<open>What a store operation can report; \<open>NoRows\<close> is \<open>sql.ErrNoRows\<close> returned as it is,
  \<open>ErrJSON\<close> a decoding failure, \<open>NilDereference\<close> the run-time panic (the transaction then rolls
  back), \<open>ErrPolicyRecovery\<close> the authorization service's \<open>ErrRecovery\<close>, which its policy validator
  hands to the store; \<open>ErrReplay\<close> is joined with the error it comes with.\<close>

datatype store_error = DbError | UserNotFound | ErrAlreadyDisabled | ErrLastAdmin | ErrNotAdmin
  | ErrProtectedChange | ErrSecurityConflict | ErrStepup | ErrPolicyIntegrity
  | ErrSessionNotFound | ErrSessionRefreshRejected | ErrAccountManagementActor
  | ErrLocalPasswordOnly | APITokenNotFound | UnexpectedRows | ErrAccountDisabled
  | ErrTemporaryPasswordExpired | ErrUserExists
  | NoRows | ErrJSON | NilDereference | ErrPolicyRecovery
  | ErrExecutionState | ErrReceipt | ErrReplay store_error | ErrSchema | ErrPreparationMissing | ErrInvalidOutcome

type_synonym ('a, 's) tx = "'s \<Rightarrow> (store_error + 'a) \<times> 's"
type_synonym 'a op = "('a, db) tx"

definition RoleAdmin :: string where "RoleAdmin = ''admin''"
definition RoleAuditor :: string where "RoleAuditor = ''auditor''"
definition RoleViewer :: string where "RoleViewer = ''viewer''"
definition RoleSecurityOfficer :: string where "RoleSecurityOfficer = ''security-officer''"
definition RoleSecurityApprover :: string where "RoleSecurityApprover = ''security-approver''"
definition RoleOriginalReader :: string where "RoleOriginalReader = ''original-reader''"

lemmas role_names = RoleAdmin_def RoleAuditor_def RoleViewer_def RoleSecurityOfficer_def
  RoleSecurityApprover_def RoleOriginalReader_def

definition IsValidRole :: "string \<Rightarrow> bool" where
  "IsValidRole r \<longleftrightarrow> r = RoleAdmin \<or> r = RoleAuditor \<or> r = RoleViewer"

definition IsSecurityRole :: "string \<Rightarrow> bool" where
  "IsSecurityRole r \<longleftrightarrow> r = RoleSecurityOfficer \<or> r = RoleSecurityApprover \<or> r = RoleOriginalReader"

section \<open>Immediate transactions\<close>

text \<open>
  \<open>withImmediateTx\<close>: the connection (statement 0), \<open>BEGIN IMMEDIATE\<close> (1) and \<open>COMMIT\<close> (2) may
  fail; every failure, the body's included, leaves the database as it was.
\<close>

definition withImmediateTx :: "db_faults \<Rightarrow> ('a, 's) tx \<Rightarrow> ('a, 's) tx" where
  "withImmediateTx dbf fn d =
     (if dbf 0 then (Inl DbError, d)
      else if dbf 1 then (Inl DbError, d)
      else case fn d of
             (Inl e, _) \<Rightarrow> (Inl e, d)
           | (Inr v, d') \<Rightarrow> if dbf 2 then (Inl DbError, d) else (Inr v, d'))"

lemma tx_error_unchanged: "withImmediateTx dbf fn d = (Inl e, d') \<Longrightarrow> d' = d"
  by (auto simp: withImmediateTx_def split: if_splits sum.splits prod.splits)

lemma tx_success: "withImmediateTx dbf fn d = (Inr v, d') \<Longrightarrow> fn d = (Inr v, d')"
  by (auto simp: withImmediateTx_def split: if_splits sum.splits prod.splits)

text \<open>Sequencing of the statements of a transaction body: a statement that may fail, a check that
  may refuse, and one operation after another. The first error ends the body.\<close>

definition stmt :: "bool \<Rightarrow> ('a, 's) tx \<Rightarrow> ('a, 's) tx" where
  "stmt fault k d = (if fault then (Inl DbError, d) else k d)"

definition refuse_if :: "bool \<Rightarrow> store_error \<Rightarrow> ('a, 's) tx \<Rightarrow> ('a, 's) tx" where
  "refuse_if c e k d = (if c then (Inl e, d) else k d)"

definition check :: "('s \<Rightarrow> store_error option) \<Rightarrow> ('a, 's) tx \<Rightarrow> ('a, 's) tx" where
  "check g k d = (case g d of Some e \<Rightarrow> (Inl e, d) | None \<Rightarrow> k d)"

definition op_bind :: "('a, 's) tx \<Rightarrow> ('a \<Rightarrow> ('b, 's) tx) \<Rightarrow> ('b, 's) tx" where
  "op_bind m f d = (case m d of (Inl e, d') \<Rightarrow> (Inl e, d') | (Inr v, d') \<Rightarrow> f v d')"

lemma stmt_ok: "stmt b k d = (Inr v, d') \<longleftrightarrow> \<not> b \<and> k d = (Inr v, d')"
  by (simp add: stmt_def)

lemma refuse_ok: "refuse_if c e k d = (Inr v, d') \<longleftrightarrow> \<not> c \<and> k d = (Inr v, d')"
  by (simp add: refuse_if_def)

lemma check_ok: "check g k d = (Inr v, d') \<longleftrightarrow> g d = None \<and> k d = (Inr v, d')"
  by (simp add: check_def split: option.splits)

lemma bind_ok: "op_bind m f d = (Inr v, d') \<longleftrightarrow> (\<exists>x d1. m d = (Inr x, d1) \<and> f x d1 = (Inr v, d'))"
  by (auto simp: op_bind_def split: prod.splits sum.splits)

lemmas op_ok = stmt_ok refuse_ok check_ok bind_ok

section \<open>Triggers on user rows\<close>

text \<open>The columns whose change fires \<open>governance_credentials\<close>.\<close>

definition credentials_changed :: "user_row \<Rightarrow> user_row \<Rightarrow> bool" where
  "credentials_changed r r' \<longleftrightarrow>
     u_password_hash r \<noteq> u_password_hash r' \<or> u_totp_secret r \<noteq> u_totp_secret r' \<or>
     u_totp_enabled r \<noteq> u_totp_enabled r' \<or> u_role r \<noteq> u_role r' \<or>
     u_auth_provider r \<noteq> u_auth_provider r' \<or> u_external_id r \<noteq> u_external_id r' \<or>
     u_disabled_at r \<noteq> u_disabled_at r' \<or> u_username r \<noteq> u_username r' \<or>
     u_ldap_dn r \<noteq> u_ldap_dn r' \<or> u_ldap_username r \<noteq> u_ldap_username r' \<or>
     u_terminal_access r \<noteq> u_terminal_access r' \<or> u_must_change r \<noteq> u_must_change r'"

text \<open>
  \<open>UPDATE users\<close> with its triggers at wall-clock second \<open>wall\<close>: a row whose credentials changed
  gets the next security revision, its step-up proofs are spent and its votes invalidated; a
  changed legacy role replaces the user's legacy entry in \<open>user_roles\<close>.
\<close>

definition legacy_role_trigger ::
    "(user_row \<Rightarrow> bool) \<Rightarrow> (user_row \<Rightarrow> user_row) \<Rightarrow> user_row list \<Rightarrow> role_row list \<Rightarrow> role_row list" where
  "legacy_role_trigger P f us rr =
     (let hits = filter (\<lambda>r. P r \<and> u_role r \<noteq> u_role (f r)) us in
      filter (\<lambda>x. \<not> (r_user_id x \<in> u_id ` set hits \<and> IsValidRole (r_role x))) rr @
      map (\<lambda>r. \<lparr>r_user_id = u_id r, r_role = u_role (f r), r_granting = ''''\<rparr>) hits)"

definition update_users :: "int \<Rightarrow> (user_row \<Rightarrow> bool) \<Rightarrow> (user_row \<Rightarrow> user_row) \<Rightarrow> db \<Rightarrow> db" where
  "update_users wall P f d =
     (let hit = u_id ` set (filter (\<lambda>r. P r \<and> credentials_changed r (f r)) (users d)) in
      d\<lparr>users := sql_update P
           (\<lambda>r. let r' = f r in if credentials_changed r r'
                  then r'\<lparr>u_security_revision := u_security_revision r' + 1\<rparr> else r') (users d),
        stepups := sql_update (\<lambda>p. su_user_id p \<in> hit)
           (\<lambda>p. p\<lparr>su_consumed_at := Some (case su_consumed_at p of Some c \<Rightarrow> c | None \<Rightarrow> wall)\<rparr>)
           (stepups d),
        approvals := sql_update (\<lambda>a. ap_user_id a \<in> hit)
           (\<lambda>a. a\<lparr>ap_invalidated_at := Some wall\<rparr>) (approvals d),
        user_roles := legacy_role_trigger P f (users d) (user_roles d)\<rparr>)"

definition find_user :: "db \<Rightarrow> string \<Rightarrow> user_row option" where
  "find_user d i = sql_first (\<lambda>r. u_id r = i) (users d)"

lemma update_users_ids:
  "(\<And>r. u_id (f r) = u_id r) \<Longrightarrow> map u_id (users (update_users w P f d)) = map u_id (users d)"
  by (simp add: update_users_def Let_def sql_update_def comp_def)

lemma update_users_frame [simp]:
  "sessions (update_users w P f d) = sessions d"
  "api_tokens (update_users w P f d) = api_tokens d"
  "changes (update_users w P f d) = changes d"
  "policy_versions (update_users w P f d) = policy_versions d"
  "policy_state (update_users w P f d) = policy_state d"
  "config (update_users w P f d) = config d"
  "audit_logs (update_users w P f d) = audit_logs d"
  "identity_links (update_users w P f d) = identity_links d"
  "nominations (update_users w P f d) = nominations d"
  "password_history (update_users w P f d) = password_history d"
  "persons (update_users w P f d) = persons d"
  "secrets (update_users w P f d) = secrets d"
  "evidence (update_users w P f d) = evidence d"
  "password_recoveries (update_users w P f d) = password_recoveries d"
  "mfa_recoveries (update_users w P f d) = mfa_recoveries d"
  "break_glass (update_users w P f d) = break_glass d"
  by (simp_all add: update_users_def Let_def)

lemma legacy_role_trigger_id:
  "(\<And>r. P r \<Longrightarrow> u_role (f r) = u_role r) \<Longrightarrow> legacy_role_trigger P f us rr = rr"
  by (simp add: legacy_role_trigger_def Let_def cong: conj_cong)

lemma update_users_roles:
  "(\<And>r. P r \<Longrightarrow> u_role (f r) = u_role r) \<Longrightarrow> user_roles (update_users w P f d) = user_roles d"
  by (simp add: update_users_def Let_def legacy_role_trigger_id)

lemma update_users_mem:
  "r \<in> set (users (update_users w P f d)) \<Longrightarrow>
   \<exists>r0 \<in> set (users d).
     (\<not> P r0 \<and> r = r0) \<or>
     (P r0 \<and> (r = f r0 \<or> r = (f r0)\<lparr>u_security_revision := u_security_revision (f r0) + 1\<rparr>))"
  by (auto simp: update_users_def Let_def sql_update_def split: if_splits)

text \<open>A credential change spends every step-up proof of the account and voids its votes.\<close>

lemma update_users_revokes:
  assumes "r \<in> set (users d)" "P r" "credentials_changed r (f r)"
  shows "\<forall>p \<in> set (stepups (update_users w P f d)). su_user_id p = u_id r \<longrightarrow> su_consumed_at p \<noteq> None"
    and "\<forall>a \<in> set (approvals (update_users w P f d)). ap_user_id a = u_id r \<longrightarrow> ap_invalidated_at a \<noteq> None"
proof -
  have "u_id r \<in> u_id ` set (filter (\<lambda>r. P r \<and> credentials_changed r (f r)) (users d))"
    using assms by auto
  then show "\<forall>p \<in> set (stepups (update_users w P f d)).
      su_user_id p = u_id r \<longrightarrow> su_consumed_at p \<noteq> None"
    and "\<forall>a \<in> set (approvals (update_users w P f d)).
      ap_user_id a = u_id r \<longrightarrow> ap_invalidated_at a \<noteq> None"
    by (auto simp: update_users_def Let_def sql_update_def)
qed

section \<open>Reading users and configuration\<close>

text \<open>Go's zero time, what an unreadable non-null timestamp scans to.\<close>

definition zero_time :: go_time where
  "zero_time = - 62135596800 * second"

definition parse_sqlite_value :: "sql_time \<Rightarrow> go_time" where
  "parse_sqlite_value v = (case parse_sqlite (Some v) of Some t \<Rightarrow> t | None \<Rightarrow> zero_time)"

definition input_of_row :: "user_row \<Rightarrow> Input" where
  "input_of_row r = \<lparr>in_DisabledAt = parse_sqlite (u_disabled_at r),
     in_LockedUntil = parse_sqlite (u_locked_until r),
     in_LastActivityAt = parse_sqlite (u_last_activity r),
     in_ReactivatedAt = parse_sqlite (u_reactivated_at r),
     in_CreatedAt = parse_sqlite_value (u_created_at r),
     in_DormancyExempt = u_dormancy_exempt r\<rparr>"

definition LookupConfig :: "db_faults \<Rightarrow> db \<Rightarrow> string \<Rightarrow> store_error + string option" where
  "LookupConfig dbf d key = (if dbf 0 then Inl DbError else Inr (config d key))"

text \<open>\<open>GetConfig\<close>: both an error and an absent key are reported as an error.\<close>

definition GetConfig :: "db_faults \<Rightarrow> db \<Rightarrow> string \<Rightarrow> string option" where
  "GetConfig dbf d key = (case LookupConfig dbf d key of Inl _ \<Rightarrow> None | Inr v \<Rightarrow> v)"

text \<open>\<open>AccountPolicy\<close>: absent keys are read as the empty text, and any failed read fails it; the
  fault of the read of each key is given by \<open>kf\<close>.\<close>

definition policy_key_list :: "string list" where
  "policy_key_list = [KeyThreshold, KeyWindowMinutes, KeyDurationMinutes, KeyDormantDays,
     KeySessionIdleMinutes, KeyCLISessionIdleMinutes, KeySessionMaxHours]"

definition AccountPolicy :: "(string \<Rightarrow> bool) \<Rightarrow> db \<Rightarrow> store_error + Policy" where
  "AccountPolicy kf d =
     (if \<exists>k \<in> set policy_key_list. kf k then Inl DbError
      else Inr (Load (\<lambda>k. Some (case config d k of Some v \<Rightarrow> v | None \<Rightarrow> ''''))))"

definition SetConfig :: "db_faults \<Rightarrow> string \<Rightarrow> string \<Rightarrow> unit op" where
  "SetConfig dbf key val d =
     (if dbf 0 then (Inl DbError, d) else (Inr (), d\<lparr>config := (config d)(key \<mapsto> val)\<rparr>))"

text \<open>\<open>accountManagementPolicyStrict\<close>, the same policy inside a transaction: an absent key is
  the error the loader falls back on, any other failure is returned.\<close>

definition accountManagementPolicyStrict :: "(string \<Rightarrow> bool) \<Rightarrow> db \<Rightarrow> store_error + Policy" where
  "accountManagementPolicyStrict kf d =
     (if \<exists>k \<in> set policy_key_list. kf k then Inl DbError
      else Inr (Load (config d)))"

section \<open>Live sessions\<close>

definition readLiveSession :: "db_faults \<Rightarrow> db \<Rightarrow> string \<Rightarrow> string \<Rightarrow> store_error + session_state" where
  "readLiveSession dbf d i user =
     (if dbf 0 then Inl DbError
      else case sql_first (\<lambda>r. s_id r = i \<and> s_user_id r = user) (sessions d) of
             None \<Rightarrow> Inl ErrSecurityConflict
           | Some r \<Rightarrow>
               if s_ended_at r \<noteq> None \<or> parse_sqlite_value (s_created_at r) = zero_time \<or>
                  parse_sqlite_value (s_last_seen_at r) = zero_time \<or>
                  (s_expires_at r \<noteq> None \<and> parse_sqlite (s_expires_at r) = None)
               then Inl ErrSecurityConflict
               else Inr \<lparr>ss_Kind = s_kind r, ss_CreatedAt = zero_time,
                      ss_LastSeenAt = parse_sqlite_value (s_last_seen_at r),
                      ss_ExpiresAt = parse_sqlite (s_expires_at r),
                      ss_EndedAt = parse_sqlite (s_ended_at r)\<rparr>)"

definition guardLiveSession ::
    "db_faults \<Rightarrow> db \<Rightarrow> string \<Rightarrow> string \<Rightarrow> go_time \<Rightarrow> Policy \<Rightarrow> store_error option" where
  "guardLiveSession dbf d i user now p =
     (case readLiveSession dbf d i user of
        Inl e \<Rightarrow> Some e
      | Inr st \<Rightarrow> if Evaluate_session st now p \<noteq> VerdictOK then Some ErrSecurityConflict else None)"

section \<open>Protected principals\<close>

text \<open>
  A change in one of these states is open. \<open>json_targets\<close> stands for SQLite's \<open>json_extract\<close>: it
  gives the user ids a change's stored payload names as the target of a role, person or
  recovery change.
\<close>

definition open_change_states :: "string list" where
  "open_change_states = [''requested'', ''partially_approved'', ''approved'', ''applying'']"

definition person_of :: "db \<Rightarrow> string \<Rightarrow> string option" where
  "person_of d i = map_option l_person_id (sql_first (\<lambda>l. l_user_id l = i) (identity_links d))"

definition protectedPerson :: "(string \<Rightarrow> string list) \<Rightarrow> db \<Rightarrow> string \<Rightarrow> bool" where
  "protectedPerson json_targets d user \<longleftrightarrow>
     (\<exists>r \<in> set (user_roles d). IsSecurityRole (r_role r) \<and>
        (\<exists>l \<in> set (identity_links d). l_user_id l = r_user_id r \<and>
           person_of d user = Some (l_person_id l))) \<or>
     (\<exists>n \<in> set (nominations d). (n_user_id n = user \<or> person_of d user = Some (n_person_id n)) \<and>
        (\<exists>c \<in> set (changes d). ch_id c = n_request_id n \<and> ch_state c \<in> set open_change_states)) \<or>
     (\<exists>c \<in> set (changes d). ch_state c \<in> set open_change_states \<and>
        (user \<in> set (json_targets (ch_payload c)) \<or>
         ch_state c = ''applying'' \<and> user \<in> {ch_requester_id c, ch_applier_id c}))"

definition guardSecurityPrincipal ::
    "(string \<Rightarrow> string list) \<Rightarrow> bool \<Rightarrow> db \<Rightarrow> string \<Rightarrow> store_error option" where
  "guardSecurityPrincipal json_targets fault d user =
     (if fault then Some DbError
      else if protectedPerson json_targets d user then Some ErrProtectedChange else None)"

section \<open>Example rows\<close>

text \<open>An enabled account and a live web session, used where a property is applied to concrete
  data.\<close>

definition example_user :: "string \<Rightarrow> string \<Rightarrow> user_row" where
  "example_user i role = \<lparr>u_id = i, u_username = i, u_password_hash = ''h'', u_role = role,
     u_auth_provider = ''local'', u_external_id = [], u_ldap_dn = [], u_ldap_username = [],
     u_terminal_access = True, u_totp_secret = None, u_totp_enabled = True,
     u_token_generation = 0, u_security_revision = 0, u_ssh_generation = 0,
     u_must_change = False, u_temp_expires = None, u_failed_count = 0, u_last_failed = None,
     u_last_login = None, u_locked_until = None, u_disabled_at = None, u_disabled_by = None,
     u_reactivated_at = None, u_dormancy_exempt = False, u_last_activity = None,
     u_created_at = 1000, u_updated_at = 1000\<rparr>"

definition example_session :: "string \<Rightarrow> string \<Rightarrow> session_row" where
  "example_session i user = \<lparr>s_id = i, s_user_id = user, s_kind = SessionKindWeb, s_ip = [],
     s_user_agent = [], s_created_at = 1000, s_last_seen_at = 2000, s_expires_at = Some 9000,
     s_ended_at = None, s_end_reason = None, s_ended_by = None, s_refresh = []\<rparr>"

end
