(* ===== verification/Audit_Log.thy ===== *)
theory Audit_Log
  imports Store_Schema
begin

text \<open>
  The hub's local audit trail of \<open>hub/internal/store/audit.go\<close>: normalisation of an entry, the
  hash chained over the rows, and the append inside a write transaction.
\<close>

section \<open>Entries\<close>

text \<open>
  A Go \<open>*string\<close>: nil, or an address and the text found there. \<open>fmt\<close>'s \<open>%v\<close> verb prints a nil
  pointer as \<open><nil>\<close> and any other pointer to a string as its address in hexadecimal.
\<close>

datatype strptr = NilPtr | Ptr nat string

fun deref :: "strptr \<Rightarrow> string option" where
  "deref NilPtr = None"
| "deref (Ptr a s) = Some s"

fun hex_of :: "nat \<Rightarrow> string" where
  "hex_of n = (if n < 16 then [hex_digit n] else hex_of (n div 16) @ [hex_digit (n mod 16)])"

declare hex_of.simps [simp del]

fun show_ptr :: "strptr \<Rightarrow> string" where
  "show_ptr NilPtr = ''<nil>''"
| "show_ptr (Ptr a s) = ''0x'' @ hex_of a"

record AuditEntry =
  ae_ID :: string
  ae_UserID :: strptr
  ae_Action :: string
  ae_Target :: strptr
  ae_Detail :: strptr
  ae_IPAddress :: strptr
  ae_Outcome :: string
  ae_ActorType :: string
  ae_CorrelationID :: strptr
  ae_ResourceType :: strptr

definition has_prefix :: "string \<Rightarrow> string \<Rightarrow> bool" where
  "has_prefix s p \<longleftrightarrow> take (length p) s = p"

definition has_suffix :: "string \<Rightarrow> string \<Rightarrow> bool" where
  "has_suffix s p \<longleftrightarrow> has_prefix (rev s) (rev p)"

definition deriveAuditResourceType :: "string \<Rightarrow> string" where
  "deriveAuditResourceType action =
     (if has_prefix action ''user.'' then ''user''
      else if has_prefix action ''server.'' then ''server''
      else if has_prefix action ''file.'' then ''file''
      else if has_prefix action ''path.'' then ''path''
      else if has_prefix action ''log.'' then ''log''
      else if has_prefix action ''audit.'' then ''audit''
      else if has_prefix action ''ssh.'' then ''ssh''
      else ''system'')"

text \<open>\<open>uuid\<close> is the identifier a missing one is replaced with, \<open>addr\<close> where a derived resource
  type is allocated.\<close>

definition normalizeAuditEntry :: "string \<Rightarrow> nat \<Rightarrow> AuditEntry \<Rightarrow> AuditEntry" where
  "normalizeAuditEntry uuid addr e = e\<lparr>
     ae_ID := (if ae_ID e = '''' then uuid else ae_ID e),
     ae_Outcome :=
       (if ae_Outcome e = ''''
        then (if has_suffix (ae_Action e) ''_failed'' then ''failure'' else ''success'')
        else ae_Outcome e),
     ae_ActorType :=
       (if ae_ActorType e = ''''
        then (if ae_UserID e \<noteq> NilPtr then ''user''
              else if has_prefix (ae_Action e) ''server.register'' \<or>
                      has_prefix (ae_Action e) ''server.registration'' then ''device''
              else ''system'')
        else ae_ActorType e),
     ae_ResourceType :=
       (if ae_ResourceType e = NilPtr
        then Ptr addr (deriveAuditResourceType (ae_Action e)) else ae_ResourceType e)\<rparr>"

section \<open>The hash chain\<close>

definition bar :: string where "bar = ''|''"

definition hash_input :: "string \<Rightarrow> AuditEntry \<Rightarrow> string" where
  "hash_input prevHash e =
     prevHash @ bar @ ae_ID e @ bar @ show_ptr (ae_UserID e) @ bar @ ae_Action e @ bar @
     show_ptr (ae_Target e) @ bar @ show_ptr (ae_Detail e) @ bar @ show_ptr (ae_IPAddress e) @ bar @
     ae_Outcome e @ bar @ ae_ActorType e @ bar @ show_ptr (ae_CorrelationID e) @ bar @
     show_ptr (ae_ResourceType e)"

text \<open>The hash of the last row, or the empty text in an empty table.\<close>

definition last_hash :: "audit_row list \<Rightarrow> string" where
  "last_hash rows = (if rows = [] then '''' else ar_prev_hash (last rows))"

definition audit_row_of :: "AuditEntry \<Rightarrow> string \<Rightarrow> audit_row" where
  "audit_row_of e h = \<lparr>ar_id = ae_ID e, ar_user_id = deref (ae_UserID e), ar_action = ae_Action e,
     ar_target = deref (ae_Target e), ar_detail = deref (ae_Detail e), ar_ip = deref (ae_IPAddress e),
     ar_outcome = ae_Outcome e, ar_actor_type = ae_ActorType e,
     ar_correlation_id = deref (ae_CorrelationID e), ar_resource_type = deref (ae_ResourceType e),
     ar_prev_hash = h\<rparr>"

text \<open>\<open>sha\<close> is the hexadecimal SHA-256 digest. The query (statement 0) and the insert (1) may
  fail, the insert also on a duplicate id.\<close>

definition logAuditConn ::
    "(string \<Rightarrow> string) \<Rightarrow> string \<Rightarrow> nat \<Rightarrow> db_faults \<Rightarrow> AuditEntry \<Rightarrow> unit op" where
  "logAuditConn sha uuid addr dbf entry d =
     (let e = normalizeAuditEntry uuid addr entry in
      if dbf 0 then (Inl DbError, d)
      else let h = sha (hash_input (last_hash (audit_logs d)) e) in
           if dbf 1 then (Inl DbError, d)
           else case sql_insert ar_id (audit_row_of e h) (audit_logs d) of
                  None \<Rightarrow> (Inl DbError, d)
                | Some rows \<Rightarrow> (Inr (), d\<lparr>audit_logs := rows\<rparr>))"

text \<open>\<open>LogAudit\<close> as its own transaction.\<close>

definition LogAudit ::
    "(string \<Rightarrow> string) \<Rightarrow> string \<Rightarrow> nat \<Rightarrow> db_faults \<Rightarrow> db_faults \<Rightarrow> AuditEntry \<Rightarrow> unit op" where
  "LogAudit sha uuid addr txf dbf entry =
     withImmediateTx txf
       (logAuditConn sha uuid addr dbf (normalizeAuditEntry uuid addr entry))"

section \<open>Lemmas\<close>

lemma logAuditConn_frame:
  assumes "logAuditConn sha uuid addr dbf e d = (r, d')"
  shows "users d' = users d" "user_roles d' = user_roles d" "sessions d' = sessions d"
    "api_tokens d' = api_tokens d" "config d' = config d" "identity_links d' = identity_links d"
    "changes d' = changes d" "stepups d' = stepups d" "approvals d' = approvals d"
    "policy_state d' = policy_state d" "policy_versions d' = policy_versions d"
  using assms by (auto simp: logAuditConn_def Let_def split: if_splits option.splits)

lemma logAuditConn_appends:
  "logAuditConn sha uuid addr dbf e d = (Inr u, d') \<Longrightarrow>
   \<exists>row. audit_logs d' = audit_logs d @ [row] \<and>
     row = audit_row_of (normalizeAuditEntry uuid addr e)
             (sha (hash_input (last_hash (audit_logs d)) (normalizeAuditEntry uuid addr e)))"
  by (auto simp: logAuditConn_def Let_def sql_insert_def split: if_splits option.splits)

section \<open>Properties\<close>

text \<open>The chained hash does not bind what an entry says: replacing the texts of the user id,
  target, detail, address and correlation id by any others, at the same addresses, gives the
  same hash, so the row's integrity value does not detect the change.\<close>

theorem audit_hash_ignores_contents:
  assumes "ae_UserID e = Ptr a1 s1" "ae_Target e = Ptr a2 s2" "ae_Detail e = Ptr a3 s3"
    and "ae_IPAddress e = Ptr a4 s4"
    and "e' = e\<lparr>ae_UserID := Ptr a1 t1, ae_Target := Ptr a2 t2, ae_Detail := Ptr a3 t3,
               ae_IPAddress := Ptr a4 t4\<rparr>"
    and "logAuditConn sha uuid addr dbf e d = (Inr (), d1)"
    and "logAuditConn sha uuid addr dbf e' d = (Inr (), d2)"
  shows "ar_prev_hash (last (audit_logs d1)) = ar_prev_hash (last (audit_logs d2))"
proof -
  have "hash_input h (normalizeAuditEntry uuid addr e) = hash_input h (normalizeAuditEntry uuid addr e')" for h
    using assms(1-5) by (simp add: normalizeAuditEntry_def hash_input_def)
  with logAuditConn_appends [OF assms(6)] logAuditConn_appends [OF assms(7)] show ?thesis
    by (auto simp: audit_row_of_def)
qed

theorem audit_hash_ignores_contents_witness:
  "\<exists>e d1 d2. ae_Target e = Ptr 2 ''bob'' \<and> ae_UserID e = Ptr 1 ''alice'' \<and>
     logAuditConn id ''u'' 9 (\<lambda>_. False) e empty_db = (Inr (), d1) \<and>
     logAuditConn id ''u'' 9 (\<lambda>_. False)
       (e\<lparr>ae_UserID := Ptr 1 ''mallory'', ae_Target := Ptr 2 ''carol'', ae_Detail := Ptr 3 ''y'',
          ae_IPAddress := Ptr 4 ''10.9.9.9''\<rparr>) empty_db = (Inr (), d2) \<and>
     ar_prev_hash (last (audit_logs d1)) = ar_prev_hash (last (audit_logs d2)) \<and>
     ar_target (last (audit_logs d1)) \<noteq> ar_target (last (audit_logs d2))"
proof -
  define e where "e = \<lparr>ae_ID = ''a'', ae_UserID = Ptr 1 ''alice'', ae_Action = ''user.disabled'',
       ae_Target = Ptr 2 ''bob'', ae_Detail = Ptr 3 ''x'', ae_IPAddress = Ptr 4 ''10.0.0.1'',
       ae_Outcome = ''success'', ae_ActorType = ''user'', ae_CorrelationID = NilPtr,
       ae_ResourceType = NilPtr\<rparr>"
  define e' where "e' = e\<lparr>ae_UserID := Ptr 1 ''mallory'', ae_Target := Ptr 2 ''carol'',
       ae_Detail := Ptr 3 ''y'', ae_IPAddress := Ptr 4 ''10.9.9.9''\<rparr>"
  define d1 where "d1 = snd (logAuditConn id ''u'' 9 (\<lambda>_. False) e empty_db)"
  define d2 where "d2 = snd (logAuditConn id ''u'' 9 (\<lambda>_. False) e' empty_db)"
  have 1: "logAuditConn id ''u'' 9 (\<lambda>_. False) e empty_db = (Inr (), d1)"
    and 2: "logAuditConn id ''u'' 9 (\<lambda>_. False) e' empty_db = (Inr (), d2)"
    by (simp_all add: d1_def d2_def logAuditConn_def Let_def sql_insert_def empty_db_def)
  have "ar_prev_hash (last (audit_logs d1)) = ar_prev_hash (last (audit_logs d2))"
    by (rule audit_hash_ignores_contents [OF _ _ _ _ e'_def 1 2]) (simp_all add: e_def)
  moreover have "ar_target (last (audit_logs d1)) = Some ''bob''"
    and "ar_target (last (audit_logs d2)) = Some ''carol''"
    by (simp_all add: d1_def d2_def logAuditConn_def Let_def sql_insert_def empty_db_def
        audit_row_of_def normalizeAuditEntry_def e'_def e_def)
  ultimately show ?thesis
    using 1 2 by (intro exI [of _ e] exI [of _ d1] exI [of _ d2]) (simp add: e'_def, simp add: e_def)
qed

end
