(* ===== verification/Session_Store.thy ===== *)
theory Session_Store
  imports Store_Schema
begin

text \<open>
  The session registry of \<open>hub/internal/store/sessions.go\<close> and the refresh rotation of
  \<open>session_refresh.go\<close>, on the session rows of \<open>Store_Schema\<close>. Stored times are whole seconds
  and compare as their texts do.
\<close>

section \<open>Operations\<close>

text \<open>The session as the Go code sees it, and how a row is read into it.\<close>

record model_Session =
  ms_ID :: string
  ms_UserID :: string
  ms_Kind :: string
  ms_IP :: string
  ms_UserAgent :: string
  ms_CreatedAt :: go_time
  ms_LastSeenAt :: go_time
  ms_ExpiresAt :: "go_time option"
  ms_EndedAt :: "go_time option"
  ms_EndReason :: string
  ms_EndedBy :: "string option"

definition scanSession :: "session_row \<Rightarrow> model_Session" where
  "scanSession r = \<lparr>ms_ID = s_id r, ms_UserID = s_user_id r, ms_Kind = s_kind r, ms_IP = s_ip r,
     ms_UserAgent = s_user_agent r, ms_CreatedAt = parse_sqlite_value (s_created_at r),
     ms_LastSeenAt = parse_sqlite_value (s_last_seen_at r), ms_ExpiresAt = parse_sqlite (s_expires_at r),
     ms_EndedAt = parse_sqlite (s_ended_at r),
     ms_EndReason = (case s_end_reason r of Some x \<Rightarrow> x | None \<Rightarrow> []), ms_EndedBy = s_ended_by r\<rparr>"

definition StateFromModel :: "model_Session \<Rightarrow> session_state" where
  "StateFromModel s = \<lparr>ss_Kind = ms_Kind s, ss_CreatedAt = ms_CreatedAt s,
     ss_LastSeenAt = ms_LastSeenAt s, ss_ExpiresAt = ms_ExpiresAt s, ss_EndedAt = ms_EndedAt s\<rparr>"

text \<open>\<open>CreateSession\<close>: the id is the primary key, the kind is checked by the schema and the user
  must exist; the columns the statement does not name take their defaults.\<close>

definition new_session_row :: "model_Session \<Rightarrow> session_row" where
  "new_session_row m = \<lparr>s_id = ms_ID m, s_user_id = ms_UserID m, s_kind = ms_Kind m, s_ip = ms_IP m,
     s_user_agent = ms_UserAgent m, s_created_at = format_sqlite (ms_CreatedAt m),
     s_last_seen_at = format_sqlite (ms_LastSeenAt m), s_expires_at = sqlite_ptr (ms_ExpiresAt m),
     s_ended_at = None, s_end_reason = None, s_ended_by = None, s_refresh = []\<rparr>"

definition CreateSession :: "db_faults \<Rightarrow> model_Session \<Rightarrow> unit op" where
  "CreateSession dbf sess d =
     (if dbf 0 then (Inl DbError, d)
      else if ms_Kind sess \<noteq> SessionKindWeb \<and> ms_Kind sess \<noteq> SessionKindCLI then (Inl DbError, d)
      else if find_user d (ms_UserID sess) = None then (Inl DbError, d)
      else case sql_insert s_id (new_session_row sess) (sessions d) of
             None \<Rightarrow> (Inl DbError, d)
           | Some rows \<Rightarrow> (Inr (), d\<lparr>sessions := rows\<rparr>))"

definition GetSession :: "db_faults \<Rightarrow> string \<Rightarrow> db \<Rightarrow> store_error + model_Session" where
  "GetSession dbf i d =
     (if dbf 0 then Inl DbError
      else case sql_first (\<lambda>r. s_id r = i) (sessions d) of
             None \<Rightarrow> Inl ErrSessionNotFound | Some r \<Rightarrow> Inr (scanSession r))"

text \<open>\<open>ListUserSessions\<close>: two queries with their own orders.\<close>

definition live_key :: "session_row \<Rightarrow> int \<times> int \<times> string" where
  "live_key r = (- s_last_seen_at r, - s_created_at r, s_id r)"

definition ended_key :: "session_row \<Rightarrow> int \<times> string" where
  "ended_key r = (case s_ended_at r of Some e \<Rightarrow> (- e, s_id r) | None \<Rightarrow> (0, s_id r))"

definition ListUserSessions ::
    "db_faults \<Rightarrow> string \<Rightarrow> bool \<Rightarrow> go_time \<Rightarrow> db \<Rightarrow> store_error + model_Session list" where
  "ListUserSessions dbf user includeEnded since d =
     (if dbf 0 then Inl DbError
      else let live = sort_key live_key
                 (filter (\<lambda>r. s_user_id r = user \<and> s_ended_at r = None) (sessions d)) in
           if \<not> includeEnded then Inr (map scanSession live)
           else if dbf 1 then Inl DbError
           else Inr (map scanSession live @ map scanSession (sort_key ended_key
                  (filter (\<lambda>r. s_user_id r = user \<and>
                     (\<exists>e \<in> set_option (s_ended_at r). format_sqlite since \<le> e)) (sessions d)))))"

definition touch_guard :: "string \<Rightarrow> go_time \<Rightarrow> duration \<Rightarrow> session_row \<Rightarrow> bool" where
  "touch_guard i now minInterval r \<longleftrightarrow>
     s_id r = i \<and> s_ended_at r = None \<and>
     (minInterval \<le> 0 \<or> s_last_seen_at r < format_sqlite (time_add now (- minInterval)))"

definition TouchSession :: "db_faults \<Rightarrow> string \<Rightarrow> go_time \<Rightarrow> duration \<Rightarrow> unit op" where
  "TouchSession dbf i now minInterval d =
     (if dbf 0 then (Inl DbError, d)
      else (Inr (), d\<lparr>sessions := sql_update (touch_guard i now minInterval)
              (\<lambda>r. r\<lparr>s_last_seen_at := format_sqlite now\<rparr>) (sessions d)\<rparr>))"

text \<open>Ending a row. \<open>endOne\<close> is not in a transaction, so a failure to read the number of affected
  rows (1) or the row itself (2) is reported after the write.\<close>

definition end_row :: "sql_time \<Rightarrow> string \<Rightarrow> string option \<Rightarrow> session_row \<Rightarrow> session_row" where
  "end_row stamp reason by_id r = r\<lparr>s_ended_at := Some stamp, s_end_reason := Some reason, s_ended_by := by_id\<rparr>"

definition live_id :: "string \<Rightarrow> session_row \<Rightarrow> bool" where
  "live_id i r \<longleftrightarrow> s_id r = i \<and> s_ended_at r = None"

definition endOne :: "db_faults \<Rightarrow> string \<Rightarrow> string \<Rightarrow> string option \<Rightarrow> go_time \<Rightarrow> bool op" where
  "endOne dbf i reason by_id now d =
     (if dbf 0 then (Inl DbError, d)
      else let n = sql_count (live_id i) (sessions d);
               d' = d\<lparr>sessions := sql_update (live_id i)
                        (end_row (format_sqlite now) reason by_id) (sessions d)\<rparr> in
           if dbf 1 then (Inl DbError, d')
           else if n = 1 then (Inr True, d')
           else if dbf 2 then (Inl DbError, d')
           else if sql_first (\<lambda>r. s_id r = i) (sessions d') = None then (Inl ErrSessionNotFound, d')
           else (Inr False, d'))"

definition EndSession :: "db_faults \<Rightarrow> string \<Rightarrow> string \<Rightarrow> string option \<Rightarrow> go_time \<Rightarrow> bool op" where
  "EndSession dbf i reason by_id now = endOne dbf i reason by_id now"

definition MarkExpired :: "db_faults \<Rightarrow> string \<Rightarrow> string \<Rightarrow> go_time \<Rightarrow> bool op" where
  "MarkExpired dbf i reason now = endOne dbf i reason None now"

text \<open>\<open>EndUserSessions\<close>: the ids are selected (statement 0 of the body) and ended one by one
  (statements 1, 2, \<dots>) in one transaction.\<close>

fun end_ids :: "db_faults \<Rightarrow> nat \<Rightarrow> sql_time \<Rightarrow> string \<Rightarrow> string option \<Rightarrow> string list \<Rightarrow> unit op" where
  "end_ids dbf k stamp reason by_id [] d = (Inr (), d)"
| "end_ids dbf k stamp reason by_id (i # is) d =
     (if dbf k then (Inl DbError, d)
      else end_ids dbf (Suc k) stamp reason by_id is
             (d\<lparr>sessions := sql_update (live_id i) (end_row stamp reason by_id) (sessions d)\<rparr>))"

definition end_user_selected :: "string \<Rightarrow> string option \<Rightarrow> session_row \<Rightarrow> bool" where
  "end_user_selected user exceptID r \<longleftrightarrow>
     s_user_id r = user \<and> s_ended_at r = None \<and> exceptID \<noteq> Some (s_id r)"

definition EndUserSessions ::
    "db_faults \<Rightarrow> db_faults \<Rightarrow> string \<Rightarrow> string option \<Rightarrow> string \<Rightarrow> string option \<Rightarrow> go_time \<Rightarrow> string list op" where
  "EndUserSessions txf dbf user exceptID reason by_id now =
     withImmediateTx txf (\<lambda>d.
       if dbf 0 then (Inl DbError, d)
       else let ids = map s_id (filter (end_user_selected user exceptID) (sessions d)) in
            case end_ids dbf 1 (format_sqlite now) reason by_id ids d of
              (Inl e, d') \<Rightarrow> (Inl e, d')
            | (Inr _, d') \<Rightarrow> (Inr ids, d'))"

definition PruneEndedSessions :: "db_faults \<Rightarrow> go_time \<Rightarrow> nat op" where
  "PruneEndedSessions dbf before d =
     (let P = (\<lambda>r. \<exists>e \<in> set_option (s_ended_at r). e < format_sqlite before) in
      if dbf 0 then (Inl DbError, d)
      else let d' = d\<lparr>sessions := sql_delete P (sessions d)\<rparr> in
           if dbf 1 then (Inl DbError, d')
           else (Inr (sql_count P (sessions d)), d'))"

section \<open>Refresh rotation\<close>

definition is_lower_hex :: "char \<Rightarrow> bool" where
  "is_lower_hex c \<longleftrightarrow> is_digit c \<or> (97 \<le> (of_char c :: nat) \<and> (of_char c :: nat) \<le> 102)"

definition ValidHash :: "string \<Rightarrow> bool" where
  "ValidHash s \<longleftrightarrow> length s = 64 \<and> list_all is_lower_hex s"

text \<open>The guard of the \<open>UPDATE\<close> on the session's own columns and on the account.\<close>

definition rotate_session_guard ::
    "string \<Rightarrow> string \<Rightarrow> string \<Rightarrow> go_time \<Rightarrow> Policy \<Rightarrow> session_row \<Rightarrow> bool" where
  "rotate_session_guard user sid previous now p r \<longleftrightarrow>
     (let stamp = format_sqlite now; idle = IdleTimeout (s_kind r) p in
      s_id r = sid \<and> s_user_id r = user \<and> s_ended_at r = None \<and>
      (case s_expires_at r of None \<Rightarrow> True | Some e \<Rightarrow> stamp < e) \<and>
      (idle \<le> 0 \<or> format_sqlite (time_add now (- idle)) \<le> s_last_seen_at r) \<and>
      (s_refresh r = previous \<or> s_refresh r = []))"

definition rotate_user_guard :: "user_row \<Rightarrow> user_row \<Rightarrow> bool" where
  "rotate_user_guard u r \<longleftrightarrow>
     u_id r = u_id u \<and> u_token_generation r = u_token_generation u \<and>
     u_security_revision r = u_security_revision u \<and> u_disabled_at r = None \<and>
     u_totp_enabled r \<and> u_must_change r = u_must_change u \<and> \<not> u_must_change r"

definition rotate_row :: "string \<Rightarrow> sql_time \<Rightarrow> session_row \<Rightarrow> session_row" where
  "rotate_row nxt stamp r = r\<lparr>s_refresh := nxt,
     s_last_seen_at := (if s_last_seen_at r < stamp then stamp else s_last_seen_at r)\<rparr>"

text \<open>Statement 0 is the start of the transaction, 1 the update, 2 its row count, 3 the commit.\<close>

definition RotateSessionRefresh ::
    "db_faults \<Rightarrow> user_row option \<Rightarrow> string \<Rightarrow> string \<Rightarrow> string \<Rightarrow> go_time \<Rightarrow> Policy \<Rightarrow> unit op" where
  "RotateSessionRefresh dbf user sid previous nxt now p d =
     (case user of
        None \<Rightarrow> (Inl ErrSessionRefreshRejected, d)
      | Some u \<Rightarrow>
          if u_id u = [] \<or> sid = [] \<or> \<not> ValidHash nxt \<or>
             (previous \<noteq> [] \<and> (\<not> ValidHash previous \<or> previous = nxt))
          then (Inl ErrSessionRefreshRejected, d)
          else if dbf 0 then (Inl DbError, d)
          else if dbf 1 then (Inl DbError, d)
          else let P = (\<lambda>r. rotate_session_guard (u_id u) sid previous now p r \<and>
                          (\<exists>x \<in> set (users d). rotate_user_guard u x)) in
               if dbf 2 then (Inl DbError, d)
               else if sql_count P (sessions d) \<noteq> 1 then (Inl ErrSessionRefreshRejected, d)
               else if dbf 3 then (Inl DbError, d)
               else (Inr (), d\<lparr>sessions := sql_update P (rotate_row nxt (format_sqlite now)) (sessions d)\<rparr>))"

section \<open>Calls and their interleavings\<close>

datatype session_call =
    CallCreate db_faults model_Session
  | CallTouch db_faults string go_time duration
  | CallEnd db_faults string string "string option" go_time
  | CallExpire db_faults string string go_time
  | CallEndUser db_faults db_faults string "string option" string "string option" go_time
  | CallPrune db_faults go_time
  | CallRotate db_faults "user_row option" string string string go_time Policy

datatype session_reply = ReplyUnit | ReplyBool bool | ReplyIds "string list" | ReplyCount nat

definition reply_with :: "('a \<Rightarrow> session_reply) \<Rightarrow> (store_error + 'a) \<times> db \<Rightarrow> (store_error + session_reply) \<times> db" where
  "reply_with f x = (map_sum id f (fst x), snd x)"

fun session_step :: "session_call \<Rightarrow> session_reply op" where
  "session_step (CallCreate f m) d = reply_with (\<lambda>_. ReplyUnit) (CreateSession f m d)"
| "session_step (CallTouch f i now m) d = reply_with (\<lambda>_. ReplyUnit) (TouchSession f i now m d)"
| "session_step (CallEnd f i re b now) d = reply_with ReplyBool (EndSession f i re b now d)"
| "session_step (CallExpire f i re now) d = reply_with ReplyBool (MarkExpired f i re now d)"
| "session_step (CallEndUser t f u ex re b now) d = reply_with ReplyIds (EndUserSessions t f u ex re b now d)"
| "session_step (CallPrune f c) d = reply_with ReplyCount (PruneEndedSessions f c d)"
| "session_step (CallRotate f u i prev nxt now p) d =
     reply_with (\<lambda>_. ReplyUnit) (RotateSessionRefresh f u i prev nxt now p d)"

text \<open>Calls that may run while session \<open>i\<close> is watched: any but a creation under the same id.\<close>

fun not_creating :: "string \<Rightarrow> session_call \<Rightarrow> bool" where
  "not_creating i (CallCreate f m) = (ms_ID m \<noteq> i)"
| "not_creating i _ = True"

text \<open>The call told its caller that it was the one to end session \<open>i\<close>.\<close>

fun reports_end :: "string \<Rightarrow> session_call \<Rightarrow> store_error + session_reply \<Rightarrow> bool" where
  "reports_end i (CallEnd f j re b now) (Inr (ReplyBool w)) = (w \<and> j = i)"
| "reports_end i (CallExpire f j re now) (Inr (ReplyBool w)) = (w \<and> j = i)"
| "reports_end i (CallEndUser t f u ex re b now) (Inr (ReplyIds ids)) = (i \<in> set ids)"
| "reports_end i _ _ = False"

definition no_live :: "string \<Rightarrow> db \<Rightarrow> bool" where
  "no_live i d \<longleftrightarrow> (\<forall>r \<in> set (sessions d). \<not> live_id i r)"

text \<open>The call spent the refresh digest \<open>h\<close> of session \<open>i\<close>.\<close>

fun spends_refresh :: "string \<Rightarrow> string \<Rightarrow> session_call \<Rightarrow> store_error + session_reply \<Rightarrow> bool" where
  "spends_refresh i h (CallRotate f u j prev nxt now p) (Inr r) = (j = i \<and> prev = h)"
| "spends_refresh i h _ _ = False"

fun not_reissuing :: "string \<Rightarrow> string \<Rightarrow> session_call \<Rightarrow> bool" where
  "not_reissuing i h (CallCreate f m) = (ms_ID m \<noteq> i)"
| "not_reissuing i h (CallRotate f u j prev nxt now p) = (j = i \<longrightarrow> nxt \<noteq> h)"
| "not_reissuing i h _ = True"

definition refresh_spent :: "string \<Rightarrow> string \<Rightarrow> db \<Rightarrow> bool" where
  "refresh_spent i h d \<longleftrightarrow>
     (\<forall>r \<in> set (sessions d). s_id r = i \<longrightarrow> s_refresh r \<noteq> h \<and> s_refresh r \<noteq> [])"

section \<open>How session rows evolve\<close>

text \<open>Every row comes from a row with the same id; an ended row is not touched again.\<close>

definition rows_evolve :: "session_row list \<Rightarrow> session_row list \<Rightarrow> bool" where
  "rows_evolve rs rs' \<longleftrightarrow>
     (\<forall>r' \<in> set rs'. \<exists>r \<in> set rs. s_id r' = s_id r \<and> (s_ended_at r \<noteq> None \<longrightarrow> r' = r))"

lemma rows_evolve_refl [simp]: "rows_evolve rs rs"
  by (auto simp: rows_evolve_def)

lemma rows_evolve_trans: "rows_evolve a b \<Longrightarrow> rows_evolve b c \<Longrightarrow> rows_evolve a c"
  unfolding rows_evolve_def by (metis option.distinct(1))

lemma rows_evolve_update:
  assumes "\<And>r. P r \<Longrightarrow> s_ended_at r = None" "\<And>r. s_id (f r) = s_id r"
  shows "rows_evolve rs (sql_update P f rs)"
  using assms unfolding rows_evolve_def sql_update_def by force

lemma rows_evolve_delete: "rows_evolve rs (sql_delete P rs)"
  by (auto simp: rows_evolve_def sql_delete_def)

lemma end_row_sel [simp]:
  "s_id (end_row st re b r) = s_id r" "s_ended_at (end_row st re b r) = Some st"
  "s_user_id (end_row st re b r) = s_user_id r" "s_refresh (end_row st re b r) = s_refresh r"
  by (simp_all add: end_row_def)

lemma rotate_row_sel [simp]:
  "s_id (rotate_row n st r) = s_id r" "s_ended_at (rotate_row n st r) = s_ended_at r"
  "s_refresh (rotate_row n st r) = n"
  by (simp_all add: rotate_row_def)

lemma end_ids_ok:
  "end_ids dbf k st re b ids d = (Inr u, d') \<Longrightarrow>
   sessions d' = sql_update (\<lambda>r. s_id r \<in> set ids \<and> s_ended_at r = None) (end_row st re b) (sessions d)"
proof (induction ids arbitrary: k d)
  case (Cons i ids)
  from Cons.prems have "end_ids dbf (Suc k) st re b ids
      (d\<lparr>sessions := sql_update (live_id i) (end_row st re b) (sessions d)\<rparr>) = (Inr u, d')"
    by (simp split: if_splits)
  from Cons.IH [OF this] show ?case
    by (auto simp: sql_update_def live_id_def)
qed (simp add: sql_update_def)

lemma end_ids_frame: "end_ids dbf k st re b ids d = (r, d') \<Longrightarrow> users d' = users d"
  by (induction ids arbitrary: k d) (auto split: if_splits)

lemma EndUserSessions_ok:
  assumes "EndUserSessions txf dbf user ex re b now d = (Inr ids, d')"
  shows "ids = map s_id (filter (end_user_selected user ex) (sessions d))"
    and "sessions d' = sql_update (\<lambda>r. s_id r \<in> set ids \<and> s_ended_at r = None)
           (end_row (format_sqlite now) re b) (sessions d)"
proof -
  from assms obtain u where ids: "ids = map s_id (filter (end_user_selected user ex) (sessions d))"
    and e: "end_ids dbf 1 (format_sqlite now) re b ids d = (Inr u, d')"
    by (auto simp: EndUserSessions_def Let_def dest!: tx_success split: if_splits sum.splits prod.splits)
  show "ids = map s_id (filter (end_user_selected user ex) (sessions d))" by (rule ids)
  show "sessions d' = sql_update (\<lambda>r. s_id r \<in> set ids \<and> s_ended_at r = None)
      (end_row (format_sqlite now) re b) (sessions d)" by (rule end_ids_ok [OF e])
qed

lemma EndUserSessions_err: "EndUserSessions txf dbf user ex re b now d = (Inl e, d') \<Longrightarrow> d' = d"
  unfolding EndUserSessions_def by (rule tx_error_unchanged)

lemma evolve_EndUser: "rows_evolve (sessions d) (sessions (snd (EndUserSessions t f u ex re b now d)))"
proof (cases "EndUserSessions t f u ex re b now d")
  case (Pair r d')
  then show ?thesis
    by (cases r) (auto simp: EndUserSessions_ok(2) intro: rows_evolve_update dest: EndUserSessions_err)
qed

lemma evolve_endOne: "rows_evolve (sessions d) (sessions (snd (endOne f i re b now d)))"
  by (auto simp: endOne_def Let_def live_id_def intro: rows_evolve_update)

lemma evolve_Touch: "rows_evolve (sessions d) (sessions (snd (TouchSession f i now m d)))"
  by (auto simp: TouchSession_def touch_guard_def intro: rows_evolve_update)

lemma evolve_Rotate: "rows_evolve (sessions d) (sessions (snd (RotateSessionRefresh f u i prev nxt now p d)))"
  by (auto simp: RotateSessionRefresh_def rotate_session_guard_def Let_def
      intro!: rows_evolve_update split: option.splits)

lemma Create_rows:
  "sessions (snd (CreateSession f m d)) = sessions d \<or>
   sessions (snd (CreateSession f m d)) = sessions d @ [new_session_row m]"
  by (auto simp: CreateSession_def sql_insert_def split: option.splits if_splits)

text \<open>A creation adds a row, every other call evolves the rows there are.\<close>

lemma session_step_evolve:
  assumes "\<And>f m. c \<noteq> CallCreate f m"
  shows "rows_evolve (sessions d) (sessions (snd (session_step c d)))"
proof (cases c)
  case (CallPrune f b)
  then show ?thesis
    by (simp add: reply_with_def PruneEndedSessions_def Let_def rows_evolve_delete)
qed (simp_all add: assms reply_with_def EndSession_def MarkExpired_def
      evolve_Touch evolve_endOne evolve_EndUser evolve_Rotate)

lemma session_step_rows:
  assumes "not_creating i c" "r' \<in> set (sessions (snd (session_step c d)))" "s_id r' = i"
  shows "\<exists>r \<in> set (sessions d). s_id r = i \<and> (s_ended_at r \<noteq> None \<longrightarrow> r' = r)"
proof (cases "\<exists>f m. c = CallCreate f m")
  case True
  then obtain f m where c: "c = CallCreate f m" by blast
  with assms Create_rows [of f m d] have "r' \<in> set (sessions d)"
    by (auto simp: reply_with_def new_session_row_def)
  with assms(3) show ?thesis by blast
next
  case False
  with session_step_evolve [of c d] assms(2,3) show ?thesis
    unfolding rows_evolve_def by metis
qed

lemma session_step_no_live:
  assumes "not_creating i c" "no_live i d" shows "no_live i (snd (session_step c d))"
  unfolding no_live_def live_id_def
proof (intro ballI notI)
  fix r' assume r': "r' \<in> set (sessions (snd (session_step c d)))" "s_id r' = i \<and> s_ended_at r' = None"
  with session_step_rows [OF assms(1) r'(1)] obtain r where r: "r \<in> set (sessions d)" "s_id r = i"
    "s_ended_at r \<noteq> None \<longrightarrow> r' = r" by blast
  with assms(2) have "s_ended_at r \<noteq> None" by (auto simp: no_live_def live_id_def)
  with r r' show False by simp
qed

lemma endOne_wins:
  assumes "endOne f i re b now d = (Inr True, d')"
  shows "\<not> no_live i d" and "no_live i d'"
proof -
  from assms have n: "sql_count (live_id i) (sessions d) = 1"
    and d': "sessions d' = sql_update (live_id i) (end_row (format_sqlite now) re b) (sessions d)"
    by (auto simp: endOne_def Let_def split: if_splits)
  show "\<not> no_live i d" using n by (auto simp: no_live_def sql_count_0_iff [symmetric])
  show "no_live i d'" by (auto simp: no_live_def d' set_sql_update) (simp add: live_id_def)
qed

lemma EndUser_wins:
  assumes "EndUserSessions t f u ex re b now d = (Inr ids, d')" "i \<in> set ids"
  shows "\<not> no_live i d" and "no_live i d'"
  using assms EndUserSessions_ok [OF assms(1)]
  by (auto simp: no_live_def live_id_def end_user_selected_def set_sql_update)

lemma reports_end_wins:
  assumes "reports_end i c (fst (session_step c d))"
  shows "\<not> no_live i d \<and> no_live i (snd (session_step c d))"
proof (cases c)
  case (CallEnd f j re b now)
  with assms obtain d' where "endOne f i re b now d = (Inr True, d')" "j = i"
    by (cases "endOne f j re b now d"; cases "fst (endOne f j re b now d)")
      (auto simp: reply_with_def EndSession_def)
  with endOne_wins [OF this(1)] CallEnd show ?thesis by (simp add: reply_with_def EndSession_def)
next
  case (CallExpire f j re now)
  with assms obtain d' where "endOne f i re None now d = (Inr True, d')" "j = i"
    by (cases "endOne f j re None now d"; cases "fst (endOne f j re None now d)")
      (auto simp: reply_with_def MarkExpired_def)
  with endOne_wins [OF this(1)] CallExpire show ?thesis by (simp add: reply_with_def MarkExpired_def)
next
  case (CallEndUser t f u ex re b now)
  with assms obtain ids d' where "EndUserSessions t f u ex re b now d = (Inr ids, d')" "i \<in> set ids"
    by (cases "EndUserSessions t f u ex re b now d"; cases "fst (EndUserSessions t f u ex re b now d)")
      (auto simp: reply_with_def)
  with EndUser_wins [OF this] CallEndUser show ?thesis by (simp add: reply_with_def)
qed (use assms in auto)

text \<open>Session ids stay distinct, whatever is called.\<close>

abbreviation ids_distinct :: "db \<Rightarrow> bool" where
  "ids_distinct d \<equiv> pk_ok s_id (sessions d)"

lemma endOne_ids: "ids_distinct d \<Longrightarrow> ids_distinct (snd (endOne f i re b now d))"
  by (simp add: endOne_def Let_def pk_ok_update)

lemma EndUser_ids: "ids_distinct d \<Longrightarrow> ids_distinct (snd (EndUserSessions t f u ex re b now d))"
  by (cases "EndUserSessions t f u ex re b now d"; cases "fst (EndUserSessions t f u ex re b now d)")
    (auto simp: EndUserSessions_ok(2) pk_ok_update dest: EndUserSessions_err)

lemma Rotate_ids: "ids_distinct d \<Longrightarrow> ids_distinct (snd (RotateSessionRefresh f u i prev nxt now p d))"
  by (simp add: RotateSessionRefresh_def Let_def pk_ok_update split: option.splits)

lemma session_step_ids: "ids_distinct d \<Longrightarrow> ids_distinct (snd (session_step c d))"
proof (cases c)
  case (CallCreate f m)
  then show "ids_distinct d \<Longrightarrow> ?thesis"
    by (auto simp: reply_with_def CreateSession_def pk_ok_insert split: option.splits)
qed (simp_all add: reply_with_def EndSession_def MarkExpired_def TouchSession_def
      PruneEndedSessions_def Let_def endOne_ids EndUser_ids Rotate_ids pk_ok_update pk_ok_delete)

interpretation session_end: one_shot session_step ids_distinct "no_live i" "reports_end i" "not_creating i" for i
  by unfold_locales (auto simp: session_step_no_live session_step_ids dest: reports_end_wins)

text \<open>Session calls leave the account tables alone.\<close>

lemma end_ids_users: "users (snd (end_ids f k st re b ids d)) = users d \<and>
    user_roles (snd (end_ids f k st re b ids d)) = user_roles d"
  by (induction ids arbitrary: k d) auto

lemma EndUser_users: "users (snd (EndUserSessions t f u ex re b now d)) = users d \<and>
    user_roles (snd (EndUserSessions t f u ex re b now d)) = user_roles d"
  using end_ids_users [of f 1 "format_sqlite now" re b "map s_id (filter (end_user_selected u ex) (sessions d))" d]
  by (auto simp: EndUserSessions_def withImmediateTx_def Let_def split: prod.splits sum.splits)

lemma session_step_users:
  "users (snd (session_step c d)) = users d \<and> user_roles (snd (session_step c d)) = user_roles d"
proof (cases c)
  case (CallEndUser t f u ex re b now)
  then show ?thesis by (simp add: reply_with_def EndUser_users)
qed (auto simp: reply_with_def CreateSession_def TouchSession_def EndSession_def MarkExpired_def
    endOne_def PruneEndedSessions_def RotateSessionRefresh_def Let_def split: option.splits)

section \<open>Refresh digests\<close>

lemma ValidHash_nonempty: "ValidHash h \<Longrightarrow> h \<noteq> []"
  by (auto simp: ValidHash_def)

lemma Rotate_ok:
  assumes "RotateSessionRefresh f u i prev nxt now p d = (Inr x, d')"
  obtains u0 P where "u = Some u0" "ValidHash nxt" "prev \<noteq> nxt \<or> prev = []"
    "P = (\<lambda>r. rotate_session_guard (u_id u0) i prev now p r \<and> (\<exists>x \<in> set (users d). rotate_user_guard u0 x))"
    "sql_count P (sessions d) = 1" "d' = d\<lparr>sessions := sql_update P (rotate_row nxt (format_sqlite now)) (sessions d)\<rparr>"
  using assms by (auto simp: RotateSessionRefresh_def Let_def split: option.splits if_splits)

lemma Rotate_err: "RotateSessionRefresh f u i prev nxt now p d = (Inl e, d') \<Longrightarrow> d' = d"
  by (auto simp: RotateSessionRefresh_def Let_def split: option.splits if_splits)

lemma refresh_unchanged_rows:
  assumes "\<And>r'. r' \<in> set (sessions d') \<Longrightarrow> s_id r' = i \<Longrightarrow> \<exists>r \<in> set (sessions d). s_id r = i \<and> s_refresh r' = s_refresh r"
  shows "refresh_spent i h d \<Longrightarrow> refresh_spent i h d'"
  using assms unfolding refresh_spent_def by metis

lemma update_keeps_refresh:
  assumes "\<And>r. s_id (f r) = s_id r" "\<And>r. s_refresh (f r) = s_refresh r"
    and "r' \<in> set (sql_update P f rs)" "s_id r' = i"
  shows "\<exists>r \<in> set rs. s_id r = i \<and> s_refresh r' = s_refresh r"
  using assms by (force simp: set_sql_update)

lemma Rotate_spent:
  assumes "j = i \<longrightarrow> nxt \<noteq> h" "refresh_spent i h d"
  shows "refresh_spent i h (snd (RotateSessionRefresh f u j prev nxt now p d))"
proof (cases "RotateSessionRefresh f u j prev nxt now p d")
  case (Pair r d')
  show ?thesis
  proof (cases r)
    case (Inr x)
    with Pair have "RotateSessionRefresh f u j prev nxt now p d = (Inr x, d')" by simp
    then show ?thesis
    proof (rule Rotate_ok)
      fix u0 P
      assume nxt: "ValidHash nxt" and P: "P = (\<lambda>r. rotate_session_guard (u_id u0) j prev now p r \<and>
          (\<exists>x \<in> set (users d). rotate_user_guard u0 x))"
        and d': "d' = d\<lparr>sessions := sql_update P (rotate_row nxt (format_sqlite now)) (sessions d)\<rparr>"
      have "P r \<Longrightarrow> s_id r = j" for r by (simp add: P rotate_session_guard_def Let_def)
      with assms ValidHash_nonempty [OF nxt] show ?thesis
        by (auto simp: Pair d' refresh_spent_def set_sql_update)
    qed
  next
    case (Inl e)
    with Pair Rotate_err have "d' = d" by blast
    with Pair assms(2) show ?thesis by simp
  qed
qed

lemma endOne_spent: "refresh_spent i h d \<Longrightarrow> refresh_spent i h (snd (endOne f j re b now d))"
  by (auto simp: endOne_def Let_def refresh_spent_def set_sql_update)

lemma EndUser_spent: "refresh_spent i h d \<Longrightarrow> refresh_spent i h (snd (EndUserSessions t f u ex re b now d))"
  by (cases "EndUserSessions t f u ex re b now d"; cases "fst (EndUserSessions t f u ex re b now d)")
    (auto simp: refresh_spent_def set_sql_update EndUserSessions_ok(2) dest: EndUserSessions_err)

lemma session_step_refresh_spent:
  assumes "not_reissuing i h c" "refresh_spent i h d"
  shows "refresh_spent i h (snd (session_step c d))"
proof (cases c)
  case (CallCreate f m)
  with assms Create_rows [of f m d] show ?thesis
    by (auto simp: reply_with_def refresh_spent_def new_session_row_def)
next
  case (CallTouch f j now m)
  with assms show ?thesis
    by (auto simp: reply_with_def refresh_spent_def TouchSession_def set_sql_update)
next
  case (CallPrune f b)
  with assms show ?thesis
    by (auto simp: reply_with_def refresh_spent_def PruneEndedSessions_def Let_def sql_delete_def)
next
  case (CallRotate f u j prev nxt now p)
  with assms show ?thesis by (simp add: reply_with_def Rotate_spent)
qed (use assms in \<open>simp_all add: reply_with_def EndSession_def MarkExpired_def endOne_spent EndUser_spent\<close>)

lemma spends_refresh_fresh:
  assumes "spends_refresh i h c (fst (session_step c d))" "h \<noteq> []"
  shows "\<not> refresh_spent i h d"
proof (cases c)
  case (CallRotate f u j prev nxt now p)
  with assms obtain x d' where r: "RotateSessionRefresh f u i h nxt now p d = (Inr x, d')"
    by (cases "RotateSessionRefresh f u j prev nxt now p d"; cases "fst (RotateSessionRefresh f u j prev nxt now p d)")
      (auto simp: reply_with_def)
  then show ?thesis
  proof (rule Rotate_ok)
    fix u0 P
    assume P: "P = (\<lambda>r. rotate_session_guard (u_id u0) i h now p r \<and> (\<exists>x \<in> set (users d). rotate_user_guard u0 x))"
      and "sql_count P (sessions d) = 1"
    then obtain r where "r \<in> set (sessions d)" "P r"
      by (metis sql_count_pos_iff zero_less_one)
    then show ?thesis by (auto simp: refresh_spent_def P rotate_session_guard_def Let_def)
  qed
qed (use assms in auto)

lemma spends_refresh_spent:
  assumes "spends_refresh i h c (fst (session_step c d))" "h \<noteq> []" "not_reissuing i h c" "ids_distinct d"
  shows "refresh_spent i h (snd (session_step c d))"
proof (cases c)
  case (CallRotate f u j prev nxt now p)
  with assms obtain x d' where r: "RotateSessionRefresh f u i h nxt now p d = (Inr x, d')" and nh: "nxt \<noteq> h"
    and d': "snd (session_step c d) = d'"
    by (cases "RotateSessionRefresh f u j prev nxt now p d"; cases "fst (RotateSessionRefresh f u j prev nxt now p d)")
      (auto simp: reply_with_def)
  from r show ?thesis
  proof (rule Rotate_ok)
    fix u0 P
    assume P: "P = (\<lambda>r. rotate_session_guard (u_id u0) i h now p r \<and> (\<exists>x \<in> set (users d). rotate_user_guard u0 x))"
      and one: "sql_count P (sessions d) = 1" and nxt: "ValidHash nxt"
      and d'_eq: "d' = d\<lparr>sessions := sql_update P (rotate_row nxt (format_sqlite now)) (sessions d)\<rparr>"
    from one obtain r where r: "r \<in> set (sessions d)" "P r" by (metis sql_count_pos_iff zero_less_one)
    then have "s_id r = i" by (simp add: P rotate_session_guard_def Let_def)
    with r pk_unique [OF assms(4)] have "\<forall>r' \<in> set (sessions d). s_id r' = i \<longrightarrow> P r'" by metis
    with nh ValidHash_nonempty [OF nxt] show ?thesis
      by (auto simp: d' d'_eq refresh_spent_def set_sql_update)
  qed
qed (use assms in auto)

text \<open>Digests are non-empty; for the empty one the law is claimed of no call.\<close>

interpretation refresh_use: one_shot session_step ids_distinct "refresh_spent i h"
  "\<lambda>c r. h \<noteq> [] \<and> spends_refresh i h c r" "not_reissuing i h" for i h
  by unfold_locales
    (auto simp: session_step_refresh_spent session_step_ids spends_refresh_spent dest: spends_refresh_fresh)

section \<open>Properties\<close>

text \<open>However calls interleave, at most one of them reports that it ended a given session
  (an administrator's revocation, an expiry or a revocation of all the user's sessions), so one
  audit entry is written for it.\<close>

theorem session_ends_once:
  assumes "\<forall>c \<in> set calls. not_creating i c" "ids_distinct d"
  shows "wins_of (reports_end i) (run_results session_step calls d) \<le> 1"
  using assms by (rule session_end.at_most_one_win)

theorem session_ends_once_witness:
  "wins_of (reports_end ''s1'') (run_results session_step
     [CallEnd (\<lambda>_. False) ''s1'' ''revoked_admin'' (Some ''root'') 5000000000000,
      CallExpire (\<lambda>_. False) ''s1'' ''expired_idle'' 5000000000001]
     (empty_db\<lparr>sessions := [example_session ''s1'' ''u1'']\<rparr>)) \<le> 1"
  by (rule session_ends_once) (simp_all add: pk_ok_def)

text \<open>Once a session has ended, no sequence of calls changes its row again: who ended it, when
  and why stay as first recorded, and no touch or refresh revives it.\<close>

theorem ended_session_frozen:
  assumes "\<forall>c \<in> set calls. not_creating (s_id r) c" "ids_distinct d"
    and "r \<in> set (sessions d)" "s_ended_at r \<noteq> None"
    and "r' \<in> set (sessions (run_state session_step calls d))" "s_id r' = s_id r"
  shows "r' = r"
proof -
  have "\<forall>x \<in> set (sessions (run_state session_step calls d)). s_id x = s_id r \<longrightarrow> x = r"
  proof (rule run_state_invariant [where ok = "not_creating (s_id r)" and step = session_step
        and J = "\<lambda>d. \<forall>x \<in> set (sessions d). s_id x = s_id r \<longrightarrow> x = r"])
    show "\<forall>x \<in> set (sessions (snd (session_step c d))). s_id x = s_id r \<longrightarrow> x = r"
      if "not_creating (s_id r) c" "\<forall>x \<in> set (sessions d). s_id x = s_id r \<longrightarrow> x = r" for c d
      using session_step_rows [OF that(1)] that(2) assms(4) by metis
  qed (use assms pk_unique in \<open>metis+\<close>)
  with assms(5,6) show ?thesis by simp
qed

theorem ended_session_frozen_witness:
  "end_row 5000 ''logout'' None (example_session ''s1'' ''u1'') \<in>
     set (sessions (run_state session_step [CallTouch (\<lambda>_. False) ''s1'' 6000000000000 0]
       (empty_db\<lparr>sessions := [end_row 5000 ''logout'' None (example_session ''s1'' ''u1'')]\<rparr>)))"
proof -
  let ?r = "end_row 5000 ''logout'' None (example_session ''s1'' ''u1'')"
  let ?d = "empty_db\<lparr>sessions := [?r]\<rparr>"
  let ?cs = "[CallTouch (\<lambda>_. False) ''s1'' 6000000000000 0]"
  have "sessions (run_state session_step ?cs ?d) \<noteq> []"
    by (simp add: reply_with_def TouchSession_def sql_update_def)
  then obtain r' where r': "r' \<in> set (sessions (run_state session_step ?cs ?d))"
    by (cases "sessions (run_state session_step ?cs ?d)") auto
  have "r' = ?r"
    by (rule ended_session_frozen [where calls = ?cs and d = ?d])
      (use r' in \<open>auto simp: pk_ok_def reply_with_def TouchSession_def sql_update_def example_session_def end_row_def\<close>)
  with r' show ?thesis by simp
qed

text \<open>C24. A refresh digest is good for one rotation: of all calls, concurrent ones included, that
  present it for the session, at most one succeeds, as long as the digest is not issued again.\<close>

theorem refresh_digest_single_use:
  assumes "\<forall>c \<in> set calls. not_reissuing i h c" "ids_distinct d" "h \<noteq> []"
  shows "wins_of (spends_refresh i h) (run_results session_step calls d) \<le> 1"
  using refresh_use.at_most_one_win [OF assms(1,2)] assms(3) by simp

theorem refresh_digest_single_use_witness:
  "wins_of (spends_refresh ''s1'' (replicate 64 CHR ''a'')) (run_results session_step
     (replicate 2 (CallRotate (\<lambda>_. False) (Some (example_user ''u1'' ''admin'')) ''s1''
        (replicate 64 CHR ''a'') (replicate 64 CHR ''b'') 2001000000000 Defaults))
     (empty_db\<lparr>users := [example_user ''u1'' ''admin''],
        sessions := [(example_session ''s1'' ''u1'')\<lparr>s_refresh := replicate 64 CHR ''a''\<rparr>]\<rparr>)) \<le> 1"
  by (rule refresh_digest_single_use) (simp_all add: pk_ok_def numeral_eq_Suc)

definition row_readable :: "session_row \<Rightarrow> bool" where
  "row_readable r \<longleftrightarrow> sqlite_representable (s_last_seen_at r) \<and>
     (\<forall>e \<in> set_option (s_expires_at r). sqlite_representable e) \<and>
     (\<forall>e \<in> set_option (s_ended_at r). sqlite_representable e)"

lemma idle_cutoff:
  assumes "idle = k * second"
  shows "format_sqlite (time_add now (- idle)) = format_sqlite now - k"
proof -
  have "(now + (- k) * second) div second = (- k) + now div second"
    by (rule div_mult_self1) (simp add: second_def)
  then show ?thesis by (simp add: format_sqlite_def time_add_def assms)
qed

text \<open>The rotation's SQL guard and the verdict of the authentication middleware agree at the
  granularity of the stored times: with a whole-second idle limit the guard accepts a readable
  row exactly when the verdict at the last whole second is OK and the digest matches.\<close>

theorem rotation_guard_is_verdict:
  assumes "row_readable r" "IdleTimeout (s_kind r) p = k * second"
    and "in_int64 (IdleTimeout (s_kind r) p)" "IdleTimeout (s_kind r) p < max_int64"
  shows "rotate_session_guard (s_user_id r) (s_id r) previous now p r \<longleftrightarrow>
     Evaluate_session (StateFromModel (scanSession r)) (format_sqlite now * second) p = VerdictOK \<and>
     (s_refresh r = previous \<or> s_refresh r = [])"
proof -
  let ?idle = "IdleTimeout (s_kind r) p" and ?t = "format_sqlite now"
  have seen: "parse_sqlite_value (s_last_seen_at r) = s_last_seen_at r * second"
    using assms(1) by (simp add: row_readable_def parse_sqlite_value_def parse_sqlite_def)
  have ended: "parse_sqlite (s_ended_at r) = None \<longleftrightarrow> s_ended_at r = None"
    using assms(1) by (auto simp: row_readable_def parse_sqlite_def split: option.splits)
  have expires: "parse_sqlite (s_expires_at r) = map_option (\<lambda>e. e * second) (s_expires_at r)"
    using assms(1) by (auto simp: row_readable_def parse_sqlite_def split: option.splits)
  have exp: "(case s_expires_at r of None \<Rightarrow> True | Some e \<Rightarrow> ?t < e) \<longleftrightarrow>
      (\<forall>e. parse_sqlite (s_expires_at r) = Some e \<longrightarrow> ?t * second < e)"
    by (auto simp: expires second_def split: option.splits)
  have idle: "format_sqlite (time_add now (- ?idle)) \<le> s_last_seen_at r \<longleftrightarrow>
      time_sub (?t * second) (parse_sqlite_value (s_last_seen_at r)) \<le> ?idle"
  proof -
    have "time_sub (?t * second) (s_last_seen_at r * second) \<le> ?idle \<longleftrightarrow>
        ?t * second - s_last_seen_at r * second \<le> k * second"
      using time_sub_le_iff [OF assms(3,4)] assms(2) by simp
    also have "\<dots> \<longleftrightarrow> ?t - k \<le> s_last_seen_at r" unfolding second_def by linarith
    finally show ?thesis by (simp add: seen idle_cutoff [OF assms(2)])
  qed
  show ?thesis
    unfolding rotate_session_guard_def Let_def Evaluate_OK_iff
    using ended exp idle by (auto simp: StateFromModel_def scanSession_def)
qed

theorem rotation_guard_is_verdict_witness:
  "rotate_session_guard ''u1'' ''s1'' [] 2500000000000 Defaults (example_session ''s1'' ''u1'') \<longleftrightarrow>
     Evaluate_session (StateFromModel (scanSession (example_session ''s1'' ''u1'')))
       (format_sqlite 2500000000000 * second) Defaults = VerdictOK \<and> True"
  using rotation_guard_is_verdict [of "example_session ''s1'' ''u1''" Defaults 900 "[]" 2500000000000]
  by (simp add: row_readable_def example_session_def sqlite_representable_def IdleTimeout_def
      SessionKindWeb_def SessionKindCLI_def Defaults_def DefaultSessionIdle_def duration_units
      in_int64_def min_int64_def max_int64_def)

text \<open>Revoking a user's sessions returns exactly the ids of the rows it ended: afterwards the
  user has no live session but the one spared, and every other row is as it was. A failure leaves
  every session as it was.\<close>

theorem EndUserSessions_exact:
  assumes "ids_distinct d"
  shows "case EndUserSessions txf dbf user ex reason by_id now d of
      (Inl e, d') \<Rightarrow> d' = d
    | (Inr ids, d') \<Rightarrow>
        sessions d' = map (\<lambda>r. if s_id r \<in> set ids then end_row (format_sqlite now) reason by_id r else r) (sessions d) \<and>
        set ids = {s_id r |r. r \<in> set (sessions d) \<and> end_user_selected user ex r} \<and>
        (\<forall>r \<in> set (sessions d'). s_user_id r = user \<and> s_ended_at r = None \<longrightarrow> ex = Some (s_id r))"
proof (cases "EndUserSessions txf dbf user ex reason by_id now d")
  case (Pair res d')
  show ?thesis
  proof (cases res)
    case (Inl e)
    with Pair show ?thesis by (auto dest: EndUserSessions_err)
  next
    case (Inr ids)
    with Pair have call: "EndUserSessions txf dbf user ex reason by_id now d = (Inr ids, d')" by simp
    note ok = EndUserSessions_ok [OF call]
    have live: "s_ended_at r = None" if "r \<in> set (sessions d)" "s_id r \<in> set ids" for r
      using that pk_unique [OF assms] by (auto simp: ok(1) end_user_selected_def)
    have eq: "sessions d' = map (\<lambda>r. if s_id r \<in> set ids then end_row (format_sqlite now) reason by_id r else r) (sessions d)"
      by (auto simp: ok(2) sql_update_def live)
    have spared: "ex = Some (s_id r)"
      if "r \<in> set (sessions d')" "s_user_id r = user" "s_ended_at r = None" for r
      using that by (auto simp: eq ok(1) end_user_selected_def split: if_splits)
    have "set ids = {s_id r |r. r \<in> set (sessions d) \<and> end_user_selected user ex r}"
      by (auto simp: ok(1))
    with eq spared show ?thesis unfolding call prod.case sum.case by blast
  qed
qed

theorem EndUserSessions_exact_witness:
  "sessions (snd (EndUserSessions (\<lambda>_. False) (\<lambda>_. False) ''u1'' (Some ''s2'')
      ''revoked_self'' (Some ''u1'') 0
      (empty_db\<lparr>sessions := [example_session ''s1'' ''u1'', example_session ''s2'' ''u1'']\<rparr>))) =
   [end_row 0 ''revoked_self'' (Some ''u1'') (example_session ''s1'' ''u1''), example_session ''s2'' ''u1'']"
proof -
  let ?d = "empty_db\<lparr>sessions := [example_session ''s1'' ''u1'', example_session ''s2'' ''u1'']\<rparr>"
  let ?call = "EndUserSessions (\<lambda>_. False) (\<lambda>_. False) ''u1'' (Some ''s2'') ''revoked_self'' (Some ''u1'') 0 ?d"
  have "ids_distinct ?d" by (simp add: pk_ok_def example_session_def)
  note c = EndUserSessions_exact [OF this, where txf = "\<lambda>_. False" and dbf = "\<lambda>_. False"
    and user = "''u1''" and ex = "Some ''s2''" and reason = "''revoked_self''" and by_id = "Some ''u1''" and now = 0]
  have "fst ?call = Inr [''s1'']"
    by (simp add: EndUserSessions_def withImmediateTx_def end_user_selected_def example_session_def)
  then obtain d' where call: "?call = (Inr [''s1''], d')" by (metis prod.collapse)
  have i: "s_id (example_session ''s1'' ''u1'') = ''s1''" "s_id (example_session ''s2'' ''u1'') = ''s2''"
    by (simp_all add: example_session_def)
  have "sessions d' = map (\<lambda>r. if s_id r \<in> set [''s1''] then end_row (format_sqlite 0) ''revoked_self'' (Some ''u1'') r else r) (sessions ?d)"
    using c unfolding call prod.case sum.case by (rule conjunct1)
  also have "\<dots> = [end_row 0 ''revoked_self'' (Some ''u1'') (example_session ''s1'' ''u1''), example_session ''s2'' ''u1'']"
    by (simp add: i format_sqlite_def)
  finally show ?thesis unfolding call snd_conv .
qed

text \<open>Pruning deletes exactly the sessions that ended before the cutoff; a live session is never
  deleted, however old.\<close>

theorem prune_keeps_live:
  "set (sessions (snd (PruneEndedSessions dbf before d))) \<supseteq> {r \<in> set (sessions d). s_ended_at r = None} \<and>
   (\<not> dbf 0 \<longrightarrow> \<not> dbf 1 \<longrightarrow>
     (let d' = snd (PruneEndedSessions dbf before d) in
      fst (PruneEndedSessions dbf before d) = Inr (length (sessions d) - length (sessions d')) \<and>
      (\<forall>r \<in> set (sessions d). r \<notin> set (sessions d') \<longleftrightarrow>
        (\<exists>e. s_ended_at r = Some e \<and> e < format_sqlite before))))"
proof -
  define P where "P = (\<lambda>r :: session_row. \<exists>e \<in> set_option (s_ended_at r). e < format_sqlite before)"
  have len: "length (filter P (sessions d)) = length (sessions d) - length (filter (\<lambda>x. \<not> P x) (sessions d))"
    using sum_length_filter_compl [of P "sessions d"] by linarith
  have P: "P r \<longleftrightarrow> (\<exists>e. s_ended_at r = Some e \<and> e < format_sqlite before)" for r
    by (auto simp: P_def)
  show ?thesis
    by (simp add: PruneEndedSessions_def Let_def sql_delete_def sql_count_def len P flip: P_def) auto
qed

theorem prune_keeps_live_witness:
  "sessions (snd (PruneEndedSessions (\<lambda>_. False) 9000000000000
     (empty_db\<lparr>sessions := [example_session ''s1'' ''u1'']\<rparr>))) \<noteq> []"
  using conjunct1 [OF prune_keeps_live [where d = "empty_db\<lparr>sessions := [example_session ''s1'' ''u1'']\<rparr>"
    and dbf = "\<lambda>_. False" and before = 9000000000000]]
  by (force simp: example_session_def)

end
