(* ===== verification/Account_Store.thy ===== *)
theory Account_Store
  imports Audit_Log Session_Store
begin

text \<open>
  Account operations of the store: login failures and successes (\<open>store/lockout.go\<close>), the account
  lifecycle (\<open>store/lifecycle.go\<close>), the audited administrator operations with their authority
  guard (\<open>store/account_lifecycle_audited.go\<close>, \<open>store/account_management.go\<close>) and API tokens
  (\<open>store/api_tokens.go\<close>). Statements on tables outside the model keep their place, since they may
  fail, and change nothing here.
\<close>

section \<open>Login outcomes\<close>

record FailureResult =
  fr_Count :: go_int
  fr_LockedUntil :: "go_time option"
  fr_NewlyLocked :: bool

definition lockout_state_of :: "user_row \<Rightarrow> State" where
  "lockout_state_of u = \<lparr>Count = u_failed_count u, LastFailedAt = parse_sqlite (u_last_failed u),
     LockedUntil = parse_sqlite (u_locked_until u)\<rparr>"

definition RecordLoginFailure ::
    "db_faults \<Rightarrow> db_faults \<Rightarrow> int \<Rightarrow> string \<Rightarrow> go_time \<Rightarrow> Policy \<Rightarrow> FailureResult op" where
  "RecordLoginFailure txf dbf wall user now p =
     withImmediateTx txf (stmt (dbf 0) (\<lambda>d.
       case find_user d user of
         None \<Rightarrow> (Inl UserNotFound, d)
       | Some u \<Rightarrow>
           let (nxt, newly) = NextState (lockout_state_of u) now p in
           stmt (dbf 1) (\<lambda>d. (Inr \<lparr>fr_Count = Count nxt, fr_LockedUntil = LockedUntil nxt, fr_NewlyLocked = newly\<rparr>,
             update_users wall (\<lambda>r. u_id r = user)
               (\<lambda>r. r\<lparr>u_failed_count := Count nxt, u_last_failed := sqlite_ptr (LastFailedAt nxt),
                  u_locked_until := sqlite_ptr (LockedUntil nxt), u_updated_at := format_sqlite now\<rparr>) d)) d))"

definition RecordLoginSuccess :: "db_faults \<Rightarrow> int \<Rightarrow> string \<Rightarrow> go_time \<Rightarrow> unit op" where
  "RecordLoginSuccess dbf wall user now d =
     (let stamp = format_sqlite now; P = (\<lambda>r. u_id r = user);
          d' = update_users wall P (\<lambda>r. r\<lparr>u_failed_count := 0, u_last_login := Some stamp,
                 u_locked_until := None, u_last_activity := Some stamp, u_updated_at := stamp\<rparr>) d in
      if dbf 0 then (Inl DbError, d)
      else if dbf 1 then (Inl DbError, d')
      else if sql_count P (users d) = 0 then (Inl UserNotFound, d') else (Inr (), d'))"

section \<open>Lifecycle operations\<close>

definition enabled_admin :: "user_row \<Rightarrow> bool" where
  "enabled_admin r \<longleftrightarrow> u_role r = RoleAdmin \<and> u_disabled_at r = None"

definition revoke_tokens :: "sql_time \<Rightarrow> string \<Rightarrow> db \<Rightarrow> db" where
  "revoke_tokens stamp user d = d\<lparr>api_tokens := sql_update (\<lambda>t. tk_user_id t = user \<and> tk_revoked_at t = None)
     (\<lambda>t. t\<lparr>tk_revoked_at := Some stamp, tk_updated_at := stamp\<rparr>) (api_tokens d)\<rparr>"

definition disable_row :: "sql_time \<Rightarrow> string \<Rightarrow> user_row \<Rightarrow> user_row" where
  "disable_row stamp by_id r = r\<lparr>u_disabled_at := Some stamp, u_disabled_by := Some by_id,
     u_token_generation := u_token_generation r + 1, u_ssh_generation := u_ssh_generation r + 1,
     u_updated_at := stamp\<rparr>"

definition others_enabled :: "string \<Rightarrow> db \<Rightarrow> nat" where
  "others_enabled user d = sql_count (\<lambda>r. enabled_admin r \<and> u_id r \<noteq> user) (users d)"

definition DisableUser :: "db_faults \<Rightarrow> db_faults \<Rightarrow> int \<Rightarrow> string \<Rightarrow> string \<Rightarrow> go_time \<Rightarrow> nat op" where
  "DisableUser txf dbf wall user by_id now =
     withImmediateTx txf (stmt (dbf 0) (\<lambda>d.
       case find_user d user of
         None \<Rightarrow> (Inl UserNotFound, d)
       | Some u \<Rightarrow>
           refuse_if (u_disabled_at u \<noteq> None) ErrAlreadyDisabled
          (stmt (u_role u = RoleAdmin \<and> dbf 1)
          (refuse_if (u_role u = RoleAdmin \<and> others_enabled user d = 0) ErrLastAdmin
          (stmt (dbf 2) (\<lambda>d.
             let P = (\<lambda>r. u_id r = user \<and> u_disabled_at r = None);
                 d1 = update_users wall P (disable_row (format_sqlite now) by_id) d in
             (stmt (dbf 3)
             (refuse_if (sql_count P (users d) \<noteq> 1) UnexpectedRows
             (stmt (dbf 4)
             (stmt (dbf 5) (\<lambda>d. (Inr (sql_count (\<lambda>t. tk_user_id t = user \<and> tk_revoked_at t = None) (api_tokens d)),
                revoke_tokens (format_sqlite now) user d)))))) d1)))) d))"

definition enable_row :: "sql_time \<Rightarrow> user_row \<Rightarrow> user_row" where
  "enable_row stamp r = r\<lparr>u_disabled_at := None, u_disabled_by := None, u_locked_until := None,
     u_failed_count := 0,
     u_reactivated_at := (if u_disabled_at r \<noteq> None then Some stamp else u_reactivated_at r),
     u_updated_at := stamp\<rparr>"

definition EnableUser ::
    "(string \<Rightarrow> string list) \<Rightarrow> db_faults \<Rightarrow> db_faults \<Rightarrow> int \<Rightarrow> string \<Rightarrow> go_time \<Rightarrow> bool op" where
  "EnableUser jt txf dbf wall user now =
     withImmediateTx txf (check (\<lambda>d. guardSecurityPrincipal jt (dbf 0) d user) (stmt (dbf 1) (\<lambda>d.
       case find_user d user of
         None \<Rightarrow> (Inl UserNotFound, d)
       | Some u \<Rightarrow> stmt (dbf 2) (\<lambda>d. (Inr (u_disabled_at u \<noteq> None),
             update_users wall (\<lambda>r. u_id r = user) (enable_row (format_sqlite now)) d)) d)))"

definition lock_in_force :: "user_row \<Rightarrow> go_time \<Rightarrow> bool" where
  "lock_in_force u now \<longleftrightarrow> (case parse_sqlite (u_locked_until u) of None \<Rightarrow> False | Some t \<Rightarrow> now < t)"

definition unlock_row :: "sql_time \<Rightarrow> bool \<Rightarrow> user_row \<Rightarrow> user_row" where
  "unlock_row stamp was r = r\<lparr>u_locked_until := None, u_failed_count := 0,
     u_reactivated_at := (if was then Some stamp else u_reactivated_at r), u_updated_at := stamp\<rparr>"

definition UnlockUser :: "db_faults \<Rightarrow> db_faults \<Rightarrow> int \<Rightarrow> string \<Rightarrow> go_time \<Rightarrow> bool op" where
  "UnlockUser txf dbf wall user now =
     withImmediateTx txf (stmt (dbf 0) (\<lambda>d.
       case find_user d user of
         None \<Rightarrow> (Inl UserNotFound, d)
       | Some u \<Rightarrow> stmt (dbf 1) (\<lambda>d. (Inr (lock_in_force u now),
             update_users wall (\<lambda>r. u_id r = user) (unlock_row (format_sqlite now) (lock_in_force u now)) d)) d))"

text \<open>\<open>SetDormancyExempt\<close>: one guarded update outside a transaction (statement 0; its row count is
  1), then a read that tells a missing account from one that is not an administrator.\<close>

definition SetDormancyExempt :: "db_faults \<Rightarrow> int \<Rightarrow> string \<Rightarrow> bool \<Rightarrow> unit op" where
  "SetDormancyExempt dbf wall user exempt d =
     (let P = (\<lambda>r. u_id r = user \<and> u_role r = RoleAdmin);
          d' = update_users wall P (\<lambda>r. r\<lparr>u_dormancy_exempt := exempt, u_updated_at := wall\<rparr>) d in
      if dbf 0 then (Inl DbError, d)
      else if dbf 1 then (Inl DbError, d')
      else if 0 < sql_count P (users d) then (Inr (), d')
      else if dbf 2 then (Inl DbError, d')
      else if find_user d' user = None then (Inl UserNotFound, d')
      else (Inl ErrNotAdmin, d'))"

definition activityThrottle :: duration where "activityThrottle = 60 * second"

definition TouchUserActivity :: "db_faults \<Rightarrow> int \<Rightarrow> string \<Rightarrow> go_time \<Rightarrow> unit op" where
  "TouchUserActivity dbf wall user now d =
     (if dbf 0 then (Inl DbError, d)
      else (Inr (), update_users wall
        (\<lambda>r. u_id r = user \<and> (case u_last_activity r of None \<Rightarrow> True
             | Some a \<Rightarrow> a < format_sqlite (time_add now (- activityThrottle))))
        (\<lambda>r. r\<lparr>u_last_activity := Some (format_sqlite now)\<rparr>) d))"

definition CountEnabledAdmins :: "db_faults \<Rightarrow> db \<Rightarrow> store_error + nat" where
  "CountEnabledAdmins dbf d = (if dbf 0 then Inl DbError else Inr (sql_count enabled_admin (users d)))"

section \<open>The authority of an acting administrator\<close>

text \<open>An absent expiry stands for Go's zero time.\<close>

record AccountManagementActor =
  am_UserID :: string
  am_SessionID :: string
  am_Generation :: go_int
  am_SecurityRevision :: go_int
  am_ExpiresAt :: "go_time option"
  am_APITokenHash :: string

definition actor_token :: "bool \<Rightarrow> AccountManagementActor \<Rightarrow> db \<Rightarrow> store_error + api_token_row option" where
  "actor_token fault a d =
     (if am_APITokenHash a = [] then Inr None
      else if fault then Inl DbError
      else case sql_first (\<lambda>t. tk_hash t = am_APITokenHash a) (api_tokens d) of
             None \<Rightarrow> Inl ErrAccountManagementActor | Some t \<Rightarrow> Inr (Some t))"

definition actor_session :: "bool \<Rightarrow> AccountManagementActor \<Rightarrow> db \<Rightarrow> store_error + session_state option" where
  "actor_session fault a d =
     (if am_SessionID a = [] then Inr None
      else case readLiveSession (\<lambda>_. fault) d (am_SessionID a) (am_UserID a) of
             Inl e \<Rightarrow> Inl (if e = ErrSecurityConflict then ErrAccountManagementActor else e)
           | Inr st \<Rightarrow> Inr (Some st))"

definition actor_account_ok :: "AccountManagementActor \<Rightarrow> user_row \<Rightarrow> Policy \<Rightarrow> go_time \<Rightarrow> db \<Rightarrow> bool" where
  "actor_account_ok a u p now d \<longleftrightarrow>
     (\<exists>r \<in> set (user_roles d). r_user_id r = u_id u \<and> r_role r = RoleAdmin) \<and>
     u_totp_enabled u \<and> u_totp_secret u \<noteq> None \<and>
     u_token_generation u = am_Generation a \<and> u_security_revision u = am_SecurityRevision a \<and>
     \<not> u_must_change u \<and> parse_sqlite (u_disabled_at u) = None \<and>
     \<not> IsDormant (input_of_row u) now (DormantDays p) \<and>
     (case am_ExpiresAt a of None \<Rightarrow> True | Some e \<Rightarrow> now < e)"

definition actor_token_ok :: "AccountManagementActor \<Rightarrow> api_token_row \<Rightarrow> go_time \<Rightarrow> bool" where
  "actor_token_ok a t now \<longleftrightarrow>
     tk_user_id t = am_UserID a \<and> tk_revoked_at t = None \<and>
     (tk_expires_at t = None \<or> (case parse_sqlite (tk_expires_at t) of None \<Rightarrow> False | Some e \<Rightarrow> now < e))"

text \<open>The clock is sampled once, after every read: account (0), configuration (by key), API token
  (1) and session (2).\<close>

definition guardAccountManagementActor ::
    "db_faults \<Rightarrow> (string \<Rightarrow> bool) \<Rightarrow> AccountManagementActor \<Rightarrow> go_time \<Rightarrow> db \<Rightarrow> store_error option" where
  "guardAccountManagementActor dbf kf a now d =
     (if dbf 0 then Some DbError
      else case find_user d (am_UserID a) of
        None \<Rightarrow> Some ErrAccountManagementActor
      | Some u \<Rightarrow>
         (case accountManagementPolicyStrict kf d of
            Inl e \<Rightarrow> Some e
          | Inr p \<Rightarrow>
             (case actor_token (dbf 1) a d of
                Inl e \<Rightarrow> Some e
              | Inr tok \<Rightarrow>
                 (case actor_session (dbf 2) a d of
                    Inl e \<Rightarrow> Some e
                  | Inr st \<Rightarrow>
                      if \<not> actor_account_ok a u p now d then Some ErrAccountManagementActor
                      else if (\<exists>t \<in> set_option tok. \<not> actor_token_ok a t now) then Some ErrAccountManagementActor
                      else if (\<exists>s \<in> set_option st. Evaluate_session s now p \<noteq> VerdictOK)
                        then Some ErrAccountManagementActor
                      else None))))"

text \<open>
  What the environment decides during one administrator write: which statements fail in the
  transaction, in the guard before and after the body, in the body and in the audit insert, when
  the clock is read, the second \<open>datetime('now')\<close> gives, and the functions outside the source
  (SHA-256, the JSON targets of stored changes, the fresh audit id and address).
\<close>

record am_env =
  e_tx :: db_faults
  e_pre :: db_faults
  e_pre_cfg :: "string \<Rightarrow> bool"
  e_pre_now :: go_time
  e_body :: db_faults
  e_body_now :: go_time
  e_audit :: db_faults
  e_audit2 :: db_faults
  e_post :: db_faults
  e_post_cfg :: "string \<Rightarrow> bool"
  e_post_now :: go_time
  e_wall :: int
  e_sha :: "string \<Rightarrow> string"
  e_targets :: "string \<Rightarrow> string list"
  e_uuid :: string
  e_uuid2 :: string
  e_addr :: nat

definition accountManagementWrite :: "am_env \<Rightarrow> AccountManagementActor \<Rightarrow> 'a op \<Rightarrow> 'a op" where
  "accountManagementWrite env actor fn =
     withImmediateTx (e_tx env)
       (check (guardAccountManagementActor (e_pre env) (e_pre_cfg env) actor (e_pre_now env))
         (op_bind fn (\<lambda>v.
            check (guardAccountManagementActor (e_post env) (e_post_cfg env) actor (e_post_now env))
              (\<lambda>d. (Inr v, d)))))"

definition audit :: "am_env \<Rightarrow> AuditEntry \<Rightarrow> unit op" where
  "audit env entry = logAuditConn (e_sha env) (e_uuid env) (e_addr env) (e_audit env) entry"

definition principal_guard :: "am_env \<Rightarrow> string \<Rightarrow> db \<Rightarrow> store_error option" where
  "principal_guard env user d = guardSecurityPrincipal (e_targets env) (e_body env 0) d user"

section \<open>Audited administrator operations\<close>

definition role_row_update :: "int \<Rightarrow> string \<Rightarrow> user_row \<Rightarrow> user_row" where
  "role_row_update wall role r = r\<lparr>u_role := role,
     u_dormancy_exempt := (if role = RoleAdmin then u_dormancy_exempt r else False),
     u_token_generation := u_token_generation r + 1, u_updated_at := wall\<rparr>"

text \<open>The update fails when the role is not one the \<open>users\<close> table admits.\<close>

definition role_audited_body ::
    "am_env \<Rightarrow> string \<Rightarrow> string \<Rightarrow> AuditEntry \<Rightarrow> AuditEntry \<Rightarrow> (user_row \<times> bool) op" where
  "role_audited_body env user role roleEntry exemptionEntry =
     check (principal_guard env user) (stmt (e_body env 1) (\<lambda>d.
       case find_user d user of
         None \<Rightarrow> (Inl UserNotFound, d)
       | Some prev \<Rightarrow>
           let cleared = (u_dormancy_exempt prev \<and> role \<noteq> RoleAdmin) in
           stmt (e_body env 2) (stmt (\<not> IsValidRole role) (stmt (e_body env 3) (\<lambda>d.
             op_bind (audit env roleEntry) (\<lambda>_.
             op_bind (if cleared then logAuditConn (e_sha env) (e_uuid2 env) (e_addr env) (e_audit2 env) exemptionEntry
                      else (\<lambda>d. (Inr (), d))) (\<lambda>_.
             stmt (e_body env 4) (\<lambda>d.
               case find_user d user of None \<Rightarrow> (Inl UserNotFound, d) | Some u \<Rightarrow> (Inr (u, cleared), d))))
             (update_users (e_wall env) (\<lambda>r. u_id r = user) (role_row_update (e_wall env) role) d)))) d))"

definition UpdateUserRoleAudited ::
    "am_env \<Rightarrow> string \<Rightarrow> string \<Rightarrow> AuditEntry \<Rightarrow> AuditEntry \<Rightarrow> AccountManagementActor \<Rightarrow> (user_row \<times> bool) op" where
  "UpdateUserRoleAudited env user role roleEntry exemptionEntry actor =
     accountManagementWrite env actor (role_audited_body env user role roleEntry exemptionEntry)"

text \<open>Deleting a user row removes its sessions, roles, tokens and recovery grants (foreign keys), and a deleted
  security role spends the account's proofs and votes (trigger \<open>governance_security_role_revoke\<close>).\<close>

definition delete_user_rows :: "int \<Rightarrow> string \<Rightarrow> db \<Rightarrow> db" where
  "delete_user_rows wall user d =
     (let sec = (\<exists>r \<in> set (user_roles d). r_user_id r = user \<and> IsSecurityRole (r_role r)) in
      d\<lparr>users := sql_delete (\<lambda>r. u_id r = user) (users d),
        sessions := sql_delete (\<lambda>s. s_user_id s = user) (sessions d),
        user_roles := sql_delete (\<lambda>r. r_user_id r = user) (user_roles d),
        password_recoveries := sql_delete (\<lambda>r. pr_user_id r = user) (password_recoveries d),
        mfa_recoveries := sql_delete (\<lambda>r. mr_user_id r = user) (mfa_recoveries d),
        break_glass := sql_delete (\<lambda>r. bg_user_id r = user) (break_glass d),
        stepups := sql_update (\<lambda>p. sec \<and> su_user_id p = user)
          (\<lambda>p. p\<lparr>su_consumed_at := Some (case su_consumed_at p of Some c \<Rightarrow> c | None \<Rightarrow> wall)\<rparr>) (stepups d),
        approvals := sql_update (\<lambda>a. sec \<and> ap_user_id a = user)
          (\<lambda>a. a\<lparr>ap_invalidated_at := Some wall\<rparr>) (approvals d)\<rparr>)"

text \<open>The clean-up before it: statement 2 clears the audit references, 3 to 11 delete from the nine
  dependent tables in the code's order (identity links, two notification tables, tokens,
  permissions, password history, and three audit tables), 12 deletes the row.\<close>

definition delete_dependents :: "string \<Rightarrow> db \<Rightarrow> db" where
  "delete_dependents user d = d\<lparr>
     audit_logs := sql_update (\<lambda>r. ar_user_id r = Some user) (\<lambda>r. r\<lparr>ar_user_id := None\<rparr>) (audit_logs d),
     identity_links := sql_delete (\<lambda>l. l_user_id l = user) (identity_links d),
     api_tokens := sql_delete (\<lambda>t. tk_user_id t = user) (api_tokens d),
     password_history := sql_delete (\<lambda>h. hi_user_id h = user) (password_history d)\<rparr>"

definition DeleteUserAudited :: "am_env \<Rightarrow> string \<Rightarrow> AuditEntry \<Rightarrow> AccountManagementActor \<Rightarrow> unit op" where
  "DeleteUserAudited env user entry actor =
     accountManagementWrite env actor
       (check (principal_guard env user) (stmt (e_body env 1) (\<lambda>d.
          refuse_if (find_user d user = None) UserNotFound
            (stmt (\<exists>k \<in> {2..13}. e_body env k) (\<lambda>d.
               audit env entry (delete_user_rows (e_wall env) user (delete_dependents user d)))) d)))"

record DisableUserResult =
  RevokedAPITokens :: nat
  EndedSessionIDs :: "string list"

definition disable_detail :: "nat \<Rightarrow> DisableUserResult \<Rightarrow> strptr" where
  "disable_detail addr r = Ptr addr (''{\"revoked_api_tokens\":'' @ show_nat (RevokedAPITokens r) @
     '',\"ended_sessions\":'' @ show_nat (length (EndedSessionIDs r)) @ ''}'')"

definition SessionEndRevokedDisable :: string where
  "SessionEndRevokedDisable = ''revoked_disable''"

text \<open>The part of \<open>DisableUserAudited\<close> that runs when the account is still enabled; its result is
  the number of tokens revoked.\<close>

definition disable_enabled :: "am_env \<Rightarrow> string \<Rightarrow> string \<Rightarrow> user_row \<Rightarrow> nat op" where
  "disable_enabled env user by_id u d =
     (let stamp = format_sqlite (e_body_now env) in
      (stmt (u_role u = RoleAdmin \<and> e_body env 1)
      (refuse_if (u_role u = RoleAdmin \<and> others_enabled user d = 0) ErrLastAdmin
      (stmt (e_body env 2) (\<lambda>d.
         (stmt (e_body env 3) (stmt (e_body env 4) (\<lambda>d.
            (Inr (sql_count (\<lambda>t. tk_user_id t = user \<and> tk_revoked_at t = None) (api_tokens d)),
             revoke_tokens stamp user d))))
         (update_users (e_wall env) (\<lambda>r. u_id r = user \<and> u_disabled_at r = None) (disable_row stamp by_id) d))))) d)"

definition disable_audited_body ::
    "am_env \<Rightarrow> string \<Rightarrow> string \<Rightarrow> AuditEntry \<Rightarrow> DisableUserResult op" where
  "disable_audited_body env user by_id entry = stmt (e_body env 0) (\<lambda>d.
     case find_user d user of
       None \<Rightarrow> (Inl UserNotFound, d)
     | Some u \<Rightarrow>
         op_bind (if u_disabled_at u = None then disable_enabled env user by_id u else (\<lambda>d. (Inr 0, d))) (\<lambda>n.
           stmt (e_body env 5) (\<lambda>d.
             let ids = map s_id (filter (\<lambda>s. s_user_id s = user \<and> s_ended_at s = None) (sessions d));
                 out = \<lparr>RevokedAPITokens = n, EndedSessionIDs = ids\<rparr> in
             op_bind (end_ids (e_body env) 6 (format_sqlite (e_body_now env)) SessionEndRevokedDisable (Some by_id) ids) (\<lambda>_.
             op_bind (audit env (entry\<lparr>ae_Detail := disable_detail (e_addr env) out\<rparr>)) (\<lambda>_.
               (\<lambda>d. (Inr out, d)))) d)) d)"

definition DisableUserAudited ::
    "am_env \<Rightarrow> string \<Rightarrow> string \<Rightarrow> AuditEntry \<Rightarrow> AccountManagementActor \<Rightarrow> DisableUserResult op" where
  "DisableUserAudited env user by_id entry actor =
     accountManagementWrite env actor (disable_audited_body env user by_id entry)"

definition bool_detail :: "nat \<Rightarrow> string \<Rightarrow> bool \<Rightarrow> strptr" where
  "bool_detail addr key b = Ptr addr (''{\"'' @ key @ ''\":'' @ (if b then ''true'' else ''false'') @ ''}'')"

definition EnableUserAudited :: "am_env \<Rightarrow> string \<Rightarrow> AuditEntry \<Rightarrow> AccountManagementActor \<Rightarrow> bool op" where
  "EnableUserAudited env user entry actor =
     accountManagementWrite env actor (check (principal_guard env user) (stmt (e_body env 1) (\<lambda>d.
       case find_user d user of
         None \<Rightarrow> (Inl UserNotFound, d)
       | Some u \<Rightarrow>
           stmt (e_body env 2) (\<lambda>d.
             op_bind (audit env (entry\<lparr>ae_Detail := bool_detail (e_addr env) ''was_disabled'' (u_disabled_at u \<noteq> None)\<rparr>))
               (\<lambda>_ d. (Inr (u_disabled_at u \<noteq> None), d))
               (update_users (e_wall env) (\<lambda>r. u_id r = user) (enable_row (format_sqlite (e_body_now env))) d)) d)))"

definition UnlockUserAudited :: "am_env \<Rightarrow> string \<Rightarrow> AuditEntry \<Rightarrow> AccountManagementActor \<Rightarrow> bool op" where
  "UnlockUserAudited env user entry actor =
     accountManagementWrite env actor (check (principal_guard env user) (stmt (e_body env 1) (\<lambda>d.
       case find_user d user of
         None \<Rightarrow> (Inl UserNotFound, d)
       | Some u \<Rightarrow>
           let was = lock_in_force u (e_body_now env) in
           stmt (e_body env 2) (\<lambda>d.
             op_bind (audit env (entry\<lparr>ae_Detail := bool_detail (e_addr env) ''was_locked'' was\<rparr>))
               (\<lambda>_ d. (Inr was, d))
               (update_users (e_wall env) (\<lambda>r. u_id r = user) (unlock_row (format_sqlite (e_body_now env)) was) d)) d)))"

definition SetDormancyExemptAudited ::
    "am_env \<Rightarrow> string \<Rightarrow> bool \<Rightarrow> AuditEntry \<Rightarrow> AccountManagementActor \<Rightarrow> unit op" where
  "SetDormancyExemptAudited env user exempt entry actor =
     accountManagementWrite env actor (check (principal_guard env user) (stmt (e_body env 1) (stmt (e_body env 2) (\<lambda>d.
       let P = (\<lambda>r. u_id r = user \<and> u_role r = RoleAdmin) in
       if sql_count P (users d) = 0
       then stmt (e_body env 3) (\<lambda>d.
         (if find_user d user = None then (Inl UserNotFound, d) else (Inl ErrNotAdmin, d))) d
       else audit env entry (update_users (e_wall env) P
              (\<lambda>r. r\<lparr>u_dormancy_exempt := exempt, u_updated_at := format_sqlite (e_body_now env)\<rparr>) d)))))"

section \<open>Reactivation and password changes\<close>

text \<open>The variadic guard: no actor, no check.\<close>

definition guard_actors ::
    "db_faults \<Rightarrow> (string \<Rightarrow> bool) \<Rightarrow> AccountManagementActor list \<Rightarrow> go_time \<Rightarrow> db \<Rightarrow> store_error option" where
  "guard_actors dbf kf actors now d =
     (case actors of [] \<Rightarrow> None | a # _ \<Rightarrow> guardAccountManagementActor dbf kf a now d)"

text \<open>\<open>ReactivateUser\<close>; its own policy read may fail like the guard's, so it takes the keys' faults.\<close>

definition ReactivateUser ::
    "am_env \<Rightarrow> (string \<Rightarrow> bool) \<Rightarrow> string \<Rightarrow> AuditEntry \<Rightarrow> AccountManagementActor list \<Rightarrow> (user_row \<times> bool) op" where
  "ReactivateUser env kf user entry actors =
     withImmediateTx (e_tx env)
       (check (guard_actors (e_pre env) (e_pre_cfg env) actors (e_pre_now env))
       (check (principal_guard env user)
       (stmt (e_body env 1) (\<lambda>d.
          case find_user d user of
            None \<Rightarrow> (Inl UserNotFound, d)
          | Some u \<Rightarrow>
              refuse_if (parse_sqlite (u_disabled_at u) \<noteq> None) ErrAccountDisabled (\<lambda>d.
                case accountManagementPolicyStrict kf d of
                  Inl e \<Rightarrow> (Inl e, d)
                | Inr p \<Rightarrow>
                    let now = e_body_now env; stamp = format_sqlite now;
                        changed = IsDormant (input_of_row u) now (DormantDays p) in
                    op_bind (if changed
                        then stmt (e_body env 2) (\<lambda>d. (Inr (u\<lparr>u_reactivated_at := Some stamp\<rparr>),
                               update_users (e_wall env) (\<lambda>r. u_id r = user)
                                 (\<lambda>r. r\<lparr>u_reactivated_at := Some stamp, u_updated_at := stamp\<rparr>) d))
                        else (\<lambda>d. (Inr u, d))) (\<lambda>u'.
                    op_bind (audit env (entry\<lparr>ae_Detail := bool_detail (e_addr env) ''changed'' changed\<rparr>)) (\<lambda>_.
                    check (guard_actors (e_post env) (e_post_cfg env) actors (e_post_now env))
                      (\<lambda>d. (Inr (u', changed), d)))) d) d))))"

text \<open>\<open>appendPasswordHistoryConn\<close>: the outgoing hash is moved to the most recent place unless it was
  temporary, and all but the newest \<open>limit\<close> rows of the account are dropped (a negative limit
  keeps all). Rows are in \<open>rowid\<close> order; \<open>i\<close> is the fresh id.\<close>

definition newest_first :: "history_row list \<Rightarrow> history_row list" where
  "newest_first hs = sort_key (\<lambda>h. - hi_created_at h) (rev hs)"

definition keep_newest :: "int \<Rightarrow> string \<Rightarrow> history_row list \<Rightarrow> history_row list" where
  "keep_newest limit user hs =
     (let mine = newest_first (filter (\<lambda>h. hi_user_id h = user) hs);
          kept = map hi_id (if limit < 0 then mine else take (nat limit) mine) in
      sql_delete (\<lambda>h. hi_user_id h = user \<and> hi_id h \<notin> set kept) hs)"

definition appendPasswordHistoryConn ::
    "db_faults \<Rightarrow> string \<Rightarrow> string \<Rightarrow> string \<Rightarrow> bool \<Rightarrow> int \<Rightarrow> go_time \<Rightarrow> unit op" where
  "appendPasswordHistoryConn dbf i user oldHash temporary limit now d =
     (let h1 = sql_delete (\<lambda>h. hi_user_id h = user \<and> hi_hash h = oldHash) (password_history d);
          row = \<lparr>hi_id = i, hi_user_id = user, hi_hash = oldHash, hi_created_at = format_sqlite now\<rparr> in
      if dbf 0 then (Inl DbError, d)
      else if \<not> temporary \<and> dbf 1 then (Inl DbError, d)
      else case (if temporary then Some h1 else sql_insert hi_id row h1) of
             None \<Rightarrow> (Inl DbError, d)
           | Some h2 \<Rightarrow> if dbf 2 then (Inl DbError, d)
                        else (Inr (), d\<lparr>password_history := keep_newest limit user h2\<rparr>))"

text \<open>\<open>revokeCredentialAuthorityConn\<close>: tokens and sessions, then three application-access statements.\<close>

definition revokeCredentialAuthorityConn ::
    "db_faults \<Rightarrow> string \<Rightarrow> string option \<Rightarrow> go_time \<Rightarrow> string \<Rightarrow> unit op" where
  "revokeCredentialAuthorityConn dbf user actor now reason =
     stmt (\<exists>k < 5. dbf k) (\<lambda>d.
       let stamp = format_sqlite now; d1 = revoke_tokens stamp user d in
       (Inr (), d1\<lparr>sessions := sql_update (\<lambda>r. s_user_id r = user \<and> s_ended_at r = None)
          (\<lambda>r. (end_row stamp reason actor r)\<lparr>s_refresh := []\<rparr>) (sessions d1)\<rparr>))"

definition AuthProviderLocal :: string where "AuthProviderLocal = ''local''"

text \<open>Body statements: 0 guard, 1 read, 2 to 4 history, 5 update, 6 to 10 revocation, 11 final read.\<close>

definition password_row :: "string \<Rightarrow> bool \<Rightarrow> sql_time option \<Rightarrow> sql_time \<Rightarrow> user_row \<Rightarrow> user_row" where
  "password_row hash must expires stamp r = r\<lparr>u_password_hash := hash, u_must_change := must,
     u_temp_expires := expires, u_token_generation := u_token_generation r + 1,
     u_ssh_generation := u_ssh_generation r + 1, u_updated_at := stamp\<rparr>"

definition ResetLocalPassword ::
    "am_env \<Rightarrow> string \<Rightarrow> string \<Rightarrow> go_int \<Rightarrow> string \<Rightarrow> go_time \<Rightarrow> int \<Rightarrow> AuditEntry \<Rightarrow> AccountManagementActor list \<Rightarrow> user_row op" where
  "ResetLocalPassword env historyID user expected hash expires history entry actors =
     withImmediateTx (e_tx env)
       (check (guard_actors (e_pre env) (e_pre_cfg env) actors (e_pre_now env))
       (check (principal_guard env user)
       (stmt (e_body env 1) (\<lambda>d.
          case find_user d user of
            None \<Rightarrow> (Inl UserNotFound, d)
          | Some u \<Rightarrow>
             (refuse_if (u_auth_provider u \<noteq> AuthProviderLocal) ErrLocalPasswordOnly
             (refuse_if (u_token_generation u \<noteq> expected) ErrSecurityConflict
             (op_bind (appendPasswordHistoryConn (\<lambda>k. e_body env (k + 2)) historyID user (u_password_hash u)
                (u_must_change u) history (e_body_now env)) (\<lambda>_.
              stmt (e_body env 5) (\<lambda>d.
              op_bind (revokeCredentialAuthorityConn (\<lambda>k. e_body env (k + 6)) user (deref (ae_UserID entry))
                (e_body_now env) ''password_changed'') (\<lambda>_.
              op_bind (audit env entry) (\<lambda>_.
              stmt (e_body env 11) (\<lambda>d.
                case find_user d user of
                  None \<Rightarrow> (Inl UserNotFound, d)
                | Some u' \<Rightarrow> check (guard_actors (e_post env) (e_post_cfg env) actors (e_post_now env))
                               (\<lambda>d. (Inr u', d)) d)))
              (update_users (e_wall env) (\<lambda>r. u_id r = user)
                 (password_row hash True (Some (format_sqlite expires)) (format_sqlite (e_body_now env))) d)))))) d))))"

section \<open>API tokens and generations\<close>

definition RevokeAllAPITokensByUserID :: "db_faults \<Rightarrow> int \<Rightarrow> string \<Rightarrow> unit op" where
  "RevokeAllAPITokensByUserID dbf wall user = stmt (dbf 0) (\<lambda>d. (Inr (), revoke_tokens wall user d))"

definition RevokeAPIToken :: "db_faults \<Rightarrow> int \<Rightarrow> string \<Rightarrow> unit op" where
  "RevokeAPIToken dbf wall i d =
     (let P = (\<lambda>t. tk_id t = i \<and> tk_revoked_at t = None);
          d' = d\<lparr>api_tokens := sql_update P (\<lambda>t. t\<lparr>tk_revoked_at := Some wall, tk_updated_at := wall\<rparr>) (api_tokens d)\<rparr> in
      if dbf 0 then (Inl DbError, d)
      else if dbf 1 then (Inl DbError, d')
      else if sql_count P (api_tokens d) = 0 then (Inl APITokenNotFound, d') else (Inr (), d'))"

definition IncrementTokenGeneration :: "db_faults \<Rightarrow> int \<Rightarrow> string \<Rightarrow> go_int op" where
  "IncrementTokenGeneration dbf wall user d =
     (let d' = update_users wall (\<lambda>r. u_id r = user)
          (\<lambda>r. r\<lparr>u_token_generation := u_token_generation r + 1, u_updated_at := wall\<rparr>) d in
      if dbf 0 then (Inl DbError, d)
      else if dbf 1 then (Inl DbError, d')
      else case find_user d' user of
             None \<Rightarrow> (Inl UserNotFound, d') | Some u \<Rightarrow> (Inr (u_token_generation u), d'))"

text \<open>\<open>TerminalCredentialLive\<close>, the durable authority of a running terminal; any failure is a refusal.\<close>

definition TerminalCredentialLive :: "bool \<Rightarrow> string \<Rightarrow> go_int \<Rightarrow> bool \<Rightarrow> db \<Rightarrow> bool" where
  "TerminalCredentialLive fault user generation ssh d \<longleftrightarrow>
     \<not> fault \<and> (\<exists>r \<in> set (users d). u_id r = user \<and>
       (if ssh then u_ssh_generation r = generation \<and> u_totp_enabled r \<and> u_totp_secret r \<noteq> None
        else u_token_generation r = generation) \<and>
       u_disabled_at r = None \<and> \<not> u_must_change r)"

section \<open>What success means\<close>

lemma find_user_Some: "find_user d i = Some u \<Longrightarrow> u \<in> set (users d) \<and> u_id u = i"
  unfolding find_user_def by (rule sql_first_Some)

lemma DisableUser_ok:
  assumes "DisableUser txf dbf wall user by_id now d = (Inr n, d')"
  obtains u where "find_user d user = Some u" "u_disabled_at u = None"
    "u_role u = RoleAdmin \<Longrightarrow> 0 < others_enabled user d"
    "n = sql_count (\<lambda>t. tk_user_id t = user \<and> tk_revoked_at t = None) (api_tokens d)"
    "d' = revoke_tokens (format_sqlite now) user (update_users wall
       (\<lambda>r. u_id r = user \<and> u_disabled_at r = None) (disable_row (format_sqlite now) by_id) d)"
  using assms unfolding DisableUser_def
  by (auto simp: op_ok Let_def dest!: tx_success split: option.splits)

lemma accountManagementWrite_ok:
  assumes "accountManagementWrite env a fn d = (Inr v, d')"
  shows "guardAccountManagementActor (e_pre env) (e_pre_cfg env) a (e_pre_now env) d = None"
    and "fn d = (Inr v, d')"
    and "guardAccountManagementActor (e_post env) (e_post_cfg env) a (e_post_now env) d' = None"
  using tx_success [OF assms [unfolded accountManagementWrite_def]] by (auto simp: op_ok)

lemma accountManagementWrite_err:
  "accountManagementWrite env a fn d = (Inl e, d') \<Longrightarrow> d' = d"
  unfolding accountManagementWrite_def by (rule tx_error_unchanged)

lemma guard_passes:
  assumes "guardAccountManagementActor dbf kf a now d = None"
  obtains u p where "find_user d (am_UserID a) = Some u" "actor_account_ok a u p now d"
  using assms by (auto simp: guardAccountManagementActor_def split: if_splits option.splits sum.splits)

section \<open>The account invariant\<close>

text \<open>
  Ids are distinct, every disabled marker is readable, and the legacy roles in \<open>user_roles\<close> are
  exactly the roles of the \<open>users\<close> rows (which the trigger maintains).
\<close>

definition role_mirror :: "db \<Rightarrow> bool" where
  "role_mirror d \<longleftrightarrow>
     (\<forall>r \<in> set (user_roles d). IsValidRole (r_role r) \<longrightarrow>
        (\<exists>u \<in> set (users d). u_id u = r_user_id r \<and> u_role u = r_role r)) \<and>
     (\<forall>u \<in> set (users d). \<exists>r \<in> set (user_roles d). r_user_id r = u_id u \<and> r_role r = u_role u)"

definition account_inv :: "db \<Rightarrow> bool" where
  "account_inv d \<longleftrightarrow> pk_ok u_id (users d) \<and> role_mirror d \<and>
     (\<forall>u \<in> set (users d). \<forall>t. u_disabled_at u = Some t \<longrightarrow> sqlite_representable t)"

definition some_admin :: "db \<Rightarrow> bool" where
  "some_admin d \<longleftrightarrow> (\<exists>u \<in> set (users d). enabled_admin u)"

lemma account_inv_frame:
  "users d' = users d \<Longrightarrow> user_roles d' = user_roles d \<Longrightarrow> account_inv d' = account_inv d"
  by (simp add: account_inv_def role_mirror_def)

lemma some_admin_frame: "users d' = users d \<Longrightarrow> some_admin d' = some_admin d"
  by (simp add: some_admin_def)

text \<open>Whoever passes the authority guard is an enabled administrator.\<close>

lemma guard_some_admin:
  assumes "guardAccountManagementActor dbf kf a now d = None" "account_inv d"
  shows "some_admin d"
proof -
  from guard_passes [OF assms(1)] obtain u p where u: "find_user d (am_UserID a) = Some u"
    and ok: "actor_account_ok a u p now d" by blast
  from ok obtain r where r: "r \<in> set (user_roles d)" "r_user_id r = u_id u" "r_role r = RoleAdmin"
    by (auto simp: actor_account_ok_def)
  with assms(2) obtain u' where u': "u' \<in> set (users d)" "u_id u' = u_id u" "u_role u' = RoleAdmin"
    by (auto simp: account_inv_def role_mirror_def IsValidRole_def)
  have mem: "u \<in> set (users d)" using u by (auto dest: find_user_Some)
  with u' assms(2) have "u' = u" by (auto simp: account_inv_def dest: pk_unique)
  moreover have "u_disabled_at u = None"
    using ok assms(2) mem
    by (auto simp: actor_account_ok_def account_inv_def parse_sqlite_def split: option.splits if_splits)
  ultimately show ?thesis using u' mem by (auto simp: some_admin_def enabled_admin_def)
qed

lemma update_users_row:
  "r \<in> set (users d) \<Longrightarrow>
   \<exists>r' \<in> set (users (update_users w P f d)).
     (if P r then u_id r' = u_id (f r) \<and> u_role r' = u_role (f r) \<and> u_disabled_at r' = u_disabled_at (f r)
      else r' = r)"
proof -
  define g where "g r = (if P r then (let r' = f r in if credentials_changed r r'
      then r'\<lparr>u_security_revision := u_security_revision r' + 1\<rparr> else r') else r)" for r
  have "users (update_users w P f d) = map g (users d)"
    by (simp add: update_users_def Let_def sql_update_def g_def [abs_def])
  moreover assume "r \<in> set (users d)"
  ultimately have "g r \<in> set (users (update_users w P f d))" by simp
  then show ?thesis by (rule bexI [rotated]) (simp add: g_def Let_def)
qed

lemma update_users_origin:
  "r' \<in> set (users (update_users w P f d)) \<Longrightarrow>
   \<exists>r \<in> set (users d).
     (if P r then u_id r' = u_id (f r) \<and> u_role r' = u_role (f r) \<and> u_disabled_at r' = u_disabled_at (f r)
      else r' = r)"
  using update_users_mem by fastforce

lemma user_roles_update:
  "user_roles (update_users w P f d) = legacy_role_trigger P f (users d) (user_roles d)"
  by (simp add: update_users_def Let_def)

lemma role_mirror_update:
  assumes m: "role_mirror d" and pk: "pk_ok u_id (users d)" and id: "\<And>r. u_id (f r) = u_id r"
  shows "role_mirror (update_users w P f d)"
proof -
  let ?d = "update_users w P f d"
  define hits where "hits = filter (\<lambda>r. P r \<and> u_role r \<noteq> u_role (f r)) (users d)"
  have roles: "set (user_roles ?d) =
      {x \<in> set (user_roles d). \<not> (r_user_id x \<in> u_id ` set hits \<and> IsValidRole (r_role x))} \<union>
      (\<lambda>r. \<lparr>r_user_id = u_id r, r_role = u_role (f r), r_granting = ''''\<rparr>) ` set hits"
    by (auto simp: user_roles_update legacy_role_trigger_def Let_def hits_def)
  have 1: "\<exists>u \<in> set (users ?d). u_id u = r_user_id x \<and> u_role u = r_role x"
    if x: "x \<in> set (user_roles ?d)" "IsValidRole (r_role x)" for x
  proof -
    from x consider (old) u where "u \<in> set (users d)" "u_id u = r_user_id x" "u_role u = r_role x" "u \<notin> set hits"
      | (new) h where "h \<in> set hits" "r_user_id x = u_id h" "r_role x = u_role (f h)"
      using m unfolding roles role_mirror_def by (force simp: image_iff)
    then show ?thesis
    proof cases
      case old
      then show ?thesis using update_users_row [OF old(1), of w P f] id
        by (auto simp: hits_def split: if_splits)
    next
      case new
      then have "h \<in> set (users d)" "P h" by (auto simp: hits_def)
      with new update_users_row [of h d w P f] id show ?thesis by auto
    qed
  qed
  have 2: "\<exists>r \<in> set (user_roles ?d). r_user_id r = u_id u' \<and> r_role r = u_role u'"
    if "u' \<in> set (users ?d)" for u'
  proof -
    from update_users_origin [OF that] obtain u where u: "u \<in> set (users d)" and
      u': "if P u then u_id u' = u_id (f u) \<and> u_role u' = u_role (f u) \<and> u_disabled_at u' = u_disabled_at (f u)
           else u' = u" by blast
    from m u obtain x where x: "x \<in> set (user_roles d)" "r_user_id x = u_id u" "r_role x = u_role u"
      by (auto simp: role_mirror_def)
    show ?thesis
    proof (cases "u \<in> set hits")
      case True
      then have "\<lparr>r_user_id = u_id u, r_role = u_role (f u), r_granting = ''''\<rparr> \<in> set (user_roles ?d)"
        unfolding roles by blast
      then show ?thesis by (rule bexI [rotated]) (use True u' id in \<open>auto simp: hits_def\<close>)
    next
      case False
      with u pk have "r_user_id x \<notin> u_id ` set hits"
        using x(2) by (auto simp: hits_def dest: pk_unique)
      with x have "x \<in> set (user_roles ?d)" unfolding roles by blast
      with x u' id False u show ?thesis by (auto simp: hits_def split: if_splits)
    qed
  qed
  from 1 2 show ?thesis unfolding role_mirror_def by blast
qed

lemma account_inv_update:
  assumes "account_inv d" "\<And>r. u_id (f r) = u_id r"
    and "\<And>r t. P r \<Longrightarrow> u_disabled_at (f r) = Some t \<Longrightarrow> u_disabled_at r = Some t \<or> sqlite_representable t"
  shows "account_inv (update_users w P f d)"
proof -
  have "pk_ok u_id (users (update_users w P f d))"
    using assms(1) update_users_ids [OF assms(2)] by (simp add: account_inv_def pk_ok_def)
  moreover have "role_mirror (update_users w P f d)"
    using assms(1,2) by (intro role_mirror_update) (auto simp: account_inv_def)
  moreover have "sqlite_representable t"
    if "u \<in> set (users (update_users w P f d))" "u_disabled_at u = Some t" for u t
  proof -
    from update_users_origin [OF that(1)] obtain r where r: "r \<in> set (users d)"
      and eq: "if P r then u_id u = u_id (f r) \<and> u_role u = u_role (f r) \<and> u_disabled_at u = u_disabled_at (f r)
           else u = r" by blast
    from eq that(2) assms(3) have "u_disabled_at r = Some t \<or> sqlite_representable t"
      by (metis (full_types))
    with r assms(1) show ?thesis by (auto simp: account_inv_def)
  qed
  ultimately show ?thesis by (auto simp: account_inv_def)
qed

lemma some_admin_update:
  assumes "some_admin d" "\<And>r. P r \<Longrightarrow> enabled_admin r \<Longrightarrow> enabled_admin (f r)"
  shows "some_admin (update_users w P f d)"
proof -
  from assms(1) obtain u where u: "u \<in> set (users d)" "enabled_admin u" by (auto simp: some_admin_def)
  from update_users_row [OF u(1), of w P f] u(2) assms(2) [of u] show ?thesis
    by (auto simp: some_admin_def enabled_admin_def split: if_splits)
qed

section \<open>Every account operation keeps an enabled administrator\<close>

text \<open>The transitions of the account tables: any operation, with any faults, in any order. The
  operations that stamp \<open>disabled_at\<close> do so with a clock that the stored format can express.\<close>

inductive account_step :: "db \<Rightarrow> db \<Rightarrow> bool" where
  step_fail: "RecordLoginFailure txf f w user now p d = (r, d') \<Longrightarrow> account_step d d'"
| step_success: "RecordLoginSuccess f w user now d = (r, d') \<Longrightarrow> account_step d d'"
| step_disable: "sqlite_representable (format_sqlite now) \<Longrightarrow>
    DisableUser txf f w user by_id now d = (r, d') \<Longrightarrow> account_step d d'"
| step_enable: "EnableUser jt txf f w user now d = (r, d') \<Longrightarrow> account_step d d'"
| step_unlock: "UnlockUser txf f w user now d = (r, d') \<Longrightarrow> account_step d d'"
| step_exempt: "SetDormancyExempt f w user b d = (r, d') \<Longrightarrow> account_step d d'"
| step_touch: "TouchUserActivity f w user now d = (r, d') \<Longrightarrow> account_step d d'"
| step_role_audited: "UpdateUserRoleAudited env user role e1 e2 a d = (r, d') \<Longrightarrow> account_step d d'"
| step_delete_audited: "DeleteUserAudited env user e1 a d = (r, d') \<Longrightarrow> account_step d d'"
| step_disable_audited: "sqlite_representable (format_sqlite (e_body_now env)) \<Longrightarrow>
    DisableUserAudited env user by_id e1 a d = (r, d') \<Longrightarrow> account_step d d'"
| step_enable_audited: "EnableUserAudited env user e1 a d = (r, d') \<Longrightarrow> account_step d d'"
| step_unlock_audited: "UnlockUserAudited env user e1 a d = (r, d') \<Longrightarrow> account_step d d'"
| step_exempt_audited: "SetDormancyExemptAudited env user b e1 a d = (r, d') \<Longrightarrow> account_step d d'"
| step_reactivate: "ReactivateUser env kf user e1 as d = (r, d') \<Longrightarrow> account_step d d'"
| step_reset_password: "ResetLocalPassword env hid user g h ex n e1 as d = (r, d') \<Longrightarrow> account_step d d'"
| step_revoke_all: "RevokeAllAPITokensByUserID f w user d = (r, d') \<Longrightarrow> account_step d d'"
| step_revoke: "RevokeAPIToken f w i d = (r, d') \<Longrightarrow> account_step d d'"
| step_generation: "IncrementTokenGeneration f w user d = (r, d') \<Longrightarrow> account_step d d'"
| step_session: "session_step c d = (r, d') \<Longrightarrow> account_step d d'"

definition admin_inv :: "db \<Rightarrow> bool" where
  "admin_inv d \<longleftrightarrow> account_inv d \<and> some_admin d"

lemma admin_inv_frame:
  "users d' = users d \<Longrightarrow> user_roles d' = user_roles d \<Longrightarrow> admin_inv d' = admin_inv d"
  by (simp add: admin_inv_def account_inv_def role_mirror_def some_admin_def)

text \<open>An update that moves neither ids, roles nor disabled markers, or only clears markers.\<close>

lemma admin_inv_update:
  assumes "admin_inv d" "\<And>r. u_id (f r) = u_id r" "\<And>r. u_role (f r) = u_role r"
    and "\<And>r. u_disabled_at (f r) = u_disabled_at r \<or> u_disabled_at (f r) = None"
  shows "admin_inv (update_users w P f d)"
proof -
  have dis: "u_disabled_at (f r) = Some t \<Longrightarrow> u_disabled_at r = Some t" for r t
    using assms(4) [of r] by auto
  have ena: "enabled_admin r \<Longrightarrow> enabled_admin (f r)" for r
    using assms(3) [of r] assms(4) [of r] by (auto simp: enabled_admin_def)
  from assms(1) have "account_inv d" "some_admin d" by (simp_all add: admin_inv_def)
  from \<open>account_inv d\<close> have "account_inv (update_users w P f d)"
    by (rule account_inv_update [OF _ assms(2)]) (blast dest: dis)
  moreover from \<open>some_admin d\<close> have "some_admin (update_users w P f d)"
    by (rule some_admin_update) (rule ena)
  ultimately show ?thesis by (simp add: admin_inv_def)
qed

lemma row_sels [simp]:
  "u_id (enable_row st r) = u_id r" "u_role (enable_row st r) = u_role r" "u_disabled_at (enable_row st r) = None"
  "u_id (unlock_row st b r) = u_id r" "u_role (unlock_row st b r) = u_role r"
  "u_disabled_at (unlock_row st b r) = u_disabled_at r"
  "u_id (disable_row st y r) = u_id r" "u_role (disable_row st y r) = u_role r"
  "u_disabled_at (disable_row st y r) = Some st"
  "u_id (role_row_update st role r) = u_id r" "u_disabled_at (role_row_update st role r) = u_disabled_at r"
  "u_id (password_row h m e st r) = u_id r" "u_role (password_row h m e st r) = u_role r"
  "u_disabled_at (password_row h m e st r) = u_disabled_at r"
  by (simp_all add: enable_row_def unlock_row_def disable_row_def role_row_update_def password_row_def)

lemma audit_frame:
  "audit env e d = (r, d') \<Longrightarrow> users d' = users d"
  "audit env e d = (r, d') \<Longrightarrow> user_roles d' = user_roles d"
  unfolding audit_def by (blast dest: logAuditConn_frame)+

lemma revoke_tokens_frame [simp]:
  "users (revoke_tokens st user d) = users d" "user_roles (revoke_tokens st user d) = user_roles d"
  "sessions (revoke_tokens st user d) = sessions d"
  by (simp_all add: revoke_tokens_def)

lemma revoke_tokens_all:
  "\<forall>t \<in> set (api_tokens (revoke_tokens st user d)). tk_user_id t = user \<longrightarrow> tk_revoked_at t \<noteq> None"
  unfolding revoke_tokens_def by simp (rule sql_update_all, auto)

lemma end_ids_roles: "end_ids dbf k st re b ids d = (r, d') \<Longrightarrow> user_roles d' = user_roles d"
  by (induction ids arbitrary: k d) (auto split: if_splits)

lemma disable_keeps_admin:
  assumes "admin_inv d" "find_user d user = Some u" "u_role u = RoleAdmin \<Longrightarrow> 0 < others_enabled user d"
    and "sqlite_representable st"
  shows "admin_inv (update_users w (\<lambda>r. u_id r = user \<and> u_disabled_at r = None) (disable_row st by_id) d)"
proof -
  have inv: "account_inv (update_users w (\<lambda>r. u_id r = user \<and> u_disabled_at r = None) (disable_row st by_id) d)"
    using assms(1,4) by (intro account_inv_update) (auto simp: admin_inv_def)
  obtain x where x: "x \<in> set (users d)" "enabled_admin x" "u_id x \<noteq> user"
  proof (cases "u_role u = RoleAdmin")
    case True
    from assms(3) [OF True] show ?thesis using that
      by (auto simp: others_enabled_def sql_count_pos_iff)
  next
    case False
    from assms(1) obtain y where y: "y \<in> set (users d)" "enabled_admin y"
      by (auto simp: admin_inv_def some_admin_def)
    with assms(1) False find_user_Some [OF assms(2)] have "u_id y \<noteq> user"
      by (metis account_inv_def admin_inv_def enabled_admin_def pk_unique)
    with y show ?thesis by (rule that)
  qed
  from update_users_row [OF x(1), of w "\<lambda>r. u_id r = user \<and> u_disabled_at r = None" "disable_row st by_id"] x
  have "some_admin (update_users w (\<lambda>r. u_id r = user \<and> u_disabled_at r = None) (disable_row st by_id) d)"
    by (auto simp: some_admin_def)
  with inv show ?thesis by (simp add: admin_inv_def)
qed

lemma account_inv_delete:
  "account_inv d \<Longrightarrow> account_inv (delete_user_rows w user d)"
  unfolding account_inv_def role_mirror_def delete_user_rows_def Let_def pk_ok_def
  by (simp add: sql_delete_def distinct_map_filter) metis

text \<open>An administrator write keeps the invariant as soon as its body keeps the tables consistent:
  the guard after the body supplies the enabled administrator.\<close>

lemma write_admin_inv:
  assumes "accountManagementWrite env a fn d = (r, d')" "admin_inv d"
    and "\<And>v d'. fn d = (Inr v, d') \<Longrightarrow> account_inv d'"
  shows "admin_inv d'"
proof (cases r)
  case (Inl e)
  with assms accountManagementWrite_err show ?thesis by blast
next
  case (Inr v)
  note ok = accountManagementWrite_ok [OF assms(1) [unfolded Inr]]
  from assms(3) [OF ok(2)] guard_some_admin [OF ok(3)] show ?thesis by (simp add: admin_inv_def)
qed

lemma tx_admin_inv:
  assumes "withImmediateTx txf fn d = (r, d')" "admin_inv d" "\<And>v d'. fn d = (Inr v, d') \<Longrightarrow> admin_inv d'"
  shows "admin_inv d'"
  using assms by (cases r) (auto dest: tx_error_unchanged tx_success)

lemma account_inv_cleanup: "account_inv (delete_dependents user d) = account_inv d"
  by (rule account_inv_frame) (simp_all add: delete_dependents_def)

lemma fail_admin_inv:
  assumes "RecordLoginFailure txf f w user now p d = (r, d')" "admin_inv d" shows "admin_inv d'"
  by (rule tx_admin_inv [OF assms(1) [unfolded RecordLoginFailure_def] assms(2)])
    (auto simp: op_ok Let_def intro!: admin_inv_update assms(2) split: option.splits prod.splits)

lemma disable_admin_inv:
  assumes "DisableUser txf f w user by_id now d = (r, d')" "admin_inv d"
    and "sqlite_representable (format_sqlite now)"
  shows "admin_inv d'"
proof (cases r)
  case (Inl e)
  with assms(1,2) show ?thesis unfolding DisableUser_def by (auto dest: tx_error_unchanged)
next
  case (Inr n)
  from assms(1) [unfolded Inr] show ?thesis
    by (rule DisableUser_ok) (simp add: admin_inv_frame [OF revoke_tokens_frame(1,2)]
        disable_keeps_admin [OF assms(2) _ _ assms(3)])
qed

lemma enable_admin_inv:
  assumes "EnableUser jt txf f w user now d = (r, d')" "admin_inv d" shows "admin_inv d'"
  by (rule tx_admin_inv [OF assms(1) [unfolded EnableUser_def] assms(2)])
    (auto simp: op_ok intro!: admin_inv_update assms(2) split: option.splits)

lemma unlock_admin_inv:
  assumes "UnlockUser txf f w user now d = (r, d')" "admin_inv d" shows "admin_inv d'"
  by (rule tx_admin_inv [OF assms(1) [unfolded UnlockUser_def] assms(2)])
    (auto simp: op_ok intro!: admin_inv_update assms(2) split: option.splits)

lemma plain_admin_inv:
  assumes "admin_inv d"
  shows "RecordLoginSuccess f w user now d = (r, d') \<Longrightarrow> admin_inv d'"
    and "SetDormancyExempt f w user b d = (r1, d') \<Longrightarrow> admin_inv d'"
    and "TouchUserActivity f w user now d = (r2, d') \<Longrightarrow> admin_inv d'"
    and "IncrementTokenGeneration f w user d = (r3, d') \<Longrightarrow> admin_inv d'"
  using assms by (auto simp: RecordLoginSuccess_def SetDormancyExempt_def TouchUserActivity_def
      IncrementTokenGeneration_def Let_def intro!: admin_inv_update assms split: if_splits option.splits)

lemma token_admin_inv:
  assumes "admin_inv d"
  shows "RevokeAllAPITokensByUserID f w user d = (r, d') \<Longrightarrow> admin_inv d'"
    and "RevokeAPIToken f w i d = (r1, d') \<Longrightarrow> admin_inv d'"
proof -
  show "RevokeAllAPITokensByUserID f w user d = (r, d') \<Longrightarrow> admin_inv d'"
    using assms admin_inv_frame [OF revoke_tokens_frame(1,2)]
    by (auto simp: RevokeAllAPITokensByUserID_def stmt_def split: if_splits)
  assume "RevokeAPIToken f w i d = (r1, d')"
  then have "users d' = users d" "user_roles d' = user_roles d"
    by (auto simp: RevokeAPIToken_def Let_def split: if_splits)
  with assms show "admin_inv d'" using admin_inv_frame by blast
qed

lemma audit_account_inv: "audit env e d = (r, d') \<Longrightarrow> account_inv d' = account_inv d"
  using account_inv_frame audit_frame by metis

lemma audit2_account_inv: "logAuditConn sha u a f e d = (r, d') \<Longrightarrow> account_inv d' = account_inv d"
  using account_inv_frame logAuditConn_frame(1,2) by metis

lemma role_audited_admin_inv:
  assumes "UpdateUserRoleAudited env user role e1 e2 a d = (r, d')" "admin_inv d" shows "admin_inv d'"
proof (rule write_admin_inv [OF assms(1) [unfolded UpdateUserRoleAudited_def] assms(2)])
  have upd: "account_inv (update_users (e_wall env) (\<lambda>r. u_id r = user) (role_row_update (e_wall env) role) d)"
    using assms(2) by (intro account_inv_update) (auto simp: admin_inv_def)
  show "account_inv d2" if "role_audited_body env user role e1 e2 d = (Inr v, d2)" for v d2
    using that upd by (auto simp: role_audited_body_def op_ok Let_def
        dest!: audit_account_inv audit2_account_inv split: option.splits if_splits)
qed

lemma delete_audited_admin_inv:
  assumes "DeleteUserAudited env user e1 a d = (r, d')" "admin_inv d" shows "admin_inv d'"
  by (rule write_admin_inv [OF assms(1) [unfolded DeleteUserAudited_def] assms(2)])
    (use assms(2) in \<open>auto simp: op_ok account_inv_cleanup account_inv_delete admin_inv_def
       dest!: audit_account_inv\<close>)

lemma end_ids_account_inv: "end_ids dbf k st re b ids d = (r, d') \<Longrightarrow> account_inv d' = account_inv d"
  using account_inv_frame end_ids_frame end_ids_roles by metis

lemma disable_enabled_ok:
  "disable_enabled env user by_id u d = (Inr n, d') \<Longrightarrow>
   (u_role u = RoleAdmin \<longrightarrow> 0 < others_enabled user d) \<and>
   n = sql_count (\<lambda>t. tk_user_id t = user \<and> tk_revoked_at t = None) (api_tokens d) \<and>
   d' = revoke_tokens (format_sqlite (e_body_now env)) user
     (update_users (e_wall env) (\<lambda>r. u_id r = user \<and> u_disabled_at r = None)
       (disable_row (format_sqlite (e_body_now env)) by_id) d)"
  by (auto simp: disable_enabled_def Let_def op_ok)

lemma disable_audited_admin_inv:
  assumes "DisableUserAudited env user by_id e1 a d = (r, d')" "admin_inv d"
    and "sqlite_representable (format_sqlite (e_body_now env))"
  shows "admin_inv d'"
proof (rule write_admin_inv [OF assms(1) [unfolded DisableUserAudited_def] assms(2)])
  have upd: "account_inv (revoke_tokens (format_sqlite (e_body_now env)) user
     (update_users (e_wall env) (\<lambda>r. u_id r = user \<and> u_disabled_at r = None)
       (disable_row (format_sqlite (e_body_now env)) by_id) d))"
    unfolding account_inv_frame [OF revoke_tokens_frame(1,2)]
    using assms(2,3) by (intro account_inv_update) (auto simp: admin_inv_def)
  show "account_inv d2" if "disable_audited_body env user by_id e1 d = (Inr v, d2)" for v d2
    using that upd assms(2) by (auto simp: disable_audited_body_def op_ok Let_def admin_inv_def
        dest!: disable_enabled_ok audit_account_inv end_ids_account_inv split: option.splits if_splits)
qed

lemma reversible_update_inv:
  assumes "admin_inv d" "audit env e (update_users w P f d) = (r, d')"
    and "\<And>r. u_id (f r) = u_id r" "\<And>r. u_role (f r) = u_role r"
    and "\<And>r. u_disabled_at (f r) = u_disabled_at r \<or> u_disabled_at (f r) = None"
  shows "admin_inv d'"
  using admin_inv_update [OF assms(1) assms(3-5)] admin_inv_frame [OF audit_frame [OF assms(2)]] by simp

lemma enable_audited_admin_inv:
  assumes "EnableUserAudited env user e1 a d = (r, d')" "admin_inv d" shows "admin_inv d'"
  by (rule write_admin_inv [OF assms(1) [unfolded EnableUserAudited_def] assms(2)])
    (auto simp: op_ok split: option.splits dest!: reversible_update_inv [OF assms(2)], simp add: admin_inv_def)

lemma unlock_audited_admin_inv:
  assumes "UnlockUserAudited env user e1 a d = (r, d')" "admin_inv d" shows "admin_inv d'"
  by (rule write_admin_inv [OF assms(1) [unfolded UnlockUserAudited_def] assms(2)])
    (auto simp: op_ok Let_def split: option.splits dest!: reversible_update_inv [OF assms(2)], simp add: admin_inv_def)

lemma exempt_audited_admin_inv:
  assumes "SetDormancyExemptAudited env user b e1 a d = (r, d')" "admin_inv d" shows "admin_inv d'"
  by (rule write_admin_inv [OF assms(1) [unfolded SetDormancyExemptAudited_def] assms(2)])
    (auto simp: op_ok Let_def split: if_splits dest!: reversible_update_inv [OF assms(2)], simp add: admin_inv_def)

lemma reactivate_admin_inv:
  assumes "ReactivateUser env kf user e1 as d = (r, d')" "admin_inv d" shows "admin_inv d'"
  by (rule tx_admin_inv [OF assms(1) [unfolded ReactivateUser_def] assms(2)])
    (use assms(2) admin_inv_frame [OF audit_frame] in
      \<open>auto simp: op_ok Let_def split: option.splits sum.splits if_splits
        dest!: reversible_update_inv [OF assms(2)]\<close>)

lemma appendPasswordHistory_frame:
  "appendPasswordHistoryConn f i user h t n now d = (r, d') \<Longrightarrow> users d' = users d \<and> user_roles d' = user_roles d"
  by (auto simp: appendPasswordHistoryConn_def Let_def split: if_splits option.splits)

lemma revokeCredential_frame:
  "revokeCredentialAuthorityConn f user act now re d = (r, d') \<Longrightarrow> users d' = users d \<and> user_roles d' = user_roles d"
  by (auto simp: revokeCredentialAuthorityConn_def stmt_def Let_def split: if_splits)

lemma history_admin_inv:
  "appendPasswordHistoryConn f i user h t n now d = (r, d') \<Longrightarrow> admin_inv d' = admin_inv d"
  "revokeCredentialAuthorityConn f user act now re d = (r1, d') \<Longrightarrow> admin_inv d' = admin_inv d"
  "audit env e d = (r2, d') \<Longrightarrow> admin_inv d' = admin_inv d"
  by (metis admin_inv_frame appendPasswordHistory_frame, metis admin_inv_frame revokeCredential_frame,
      metis admin_inv_frame audit_frame)

lemma reset_admin_inv:
  assumes "ResetLocalPassword env hid user g h ex n e1 as d = (r, d')" "admin_inv d" shows "admin_inv d'"
  by (rule tx_admin_inv [OF assms(1) [unfolded ResetLocalPassword_def] assms(2)])
    (use assms(2) in \<open>auto simp: op_ok history_admin_inv intro!: admin_inv_update split: option.splits\<close>)

inductive_cases account_stepE: "account_step d d'"

lemma account_step_admin_inv: "account_step d d' \<Longrightarrow> admin_inv d \<Longrightarrow> admin_inv d'"
proof (induction rule: account_step.induct)
  case (step_session c d r d')
  have "users (snd (session_step c d)) = users d \<and> user_roles (snd (session_step c d)) = user_roles d"
    by (rule session_step_users)
  with step_session admin_inv_frame [of d' d] show ?case by simp
qed (blast intro: fail_admin_inv plain_admin_inv disable_admin_inv enable_admin_inv unlock_admin_inv
    role_audited_admin_inv delete_audited_admin_inv disable_audited_admin_inv enable_audited_admin_inv
    unlock_audited_admin_inv exempt_audited_admin_inv reactivate_admin_inv reset_admin_inv token_admin_inv)+

section \<open>Login failures at the store\<close>

record fail_call =
  fc_tx :: db_faults
  fc_db :: db_faults
  fc_wall :: int
  fc_now :: go_time

definition fail_step :: "string \<Rightarrow> Policy \<Rightarrow> fail_call \<Rightarrow> FailureResult op" where
  "fail_step user p c = RecordLoginFailure (fc_tx c) (fc_db c) (fc_wall c) user (fc_now c) p"

definition reports_lock :: "fail_call \<Rightarrow> store_error + FailureResult \<Rightarrow> bool" where
  "reports_lock c r \<longleftrightarrow> (\<exists>x. r = Inr x \<and> fr_NewlyLocked x)"

definition locked_through :: "string \<Rightarrow> go_time \<Rightarrow> db \<Rightarrow> bool" where
  "locked_through user T d \<longleftrightarrow> (\<forall>u \<in> set (users d). u_id u = user \<longrightarrow>
     (\<exists>s. u_locked_until u = Some s \<and> sqlite_representable s \<and> T \<le> s * second))"

text \<open>Failures between \<open>start\<close> and \<open>T\<close>, an interval no longer than any lock set inside it.\<close>

definition lock_covers :: "Policy \<Rightarrow> go_time \<Rightarrow> go_time \<Rightarrow> fail_call \<Rightarrow> bool" where
  "lock_covers p start T c \<longleftrightarrow> start \<le> fc_now c \<and> fc_now c < T \<and>
     (let until = (if Duration p = 0 then NoAutoUnlock else fc_now c + Duration p) in
      sqlite_representable (format_sqlite until) \<and> T \<le> format_sqlite until * second)"

lemma RecordLoginFailure_ok:
  assumes "RecordLoginFailure txf f w user now p d = (Inr x, d')"
  obtains u nxt newly where "find_user d user = Some u" "NextState (lockout_state_of u) now p = (nxt, newly)"
    "x = \<lparr>fr_Count = Count nxt, fr_LockedUntil = LockedUntil nxt, fr_NewlyLocked = newly\<rparr>"
    "d' = update_users w (\<lambda>r. u_id r = user) (\<lambda>r. r\<lparr>u_failed_count := Count nxt,
       u_last_failed := sqlite_ptr (LastFailedAt nxt), u_locked_until := sqlite_ptr (LockedUntil nxt),
       u_updated_at := format_sqlite now\<rparr>) d"
  using assms unfolding RecordLoginFailure_def
  by (auto simp: op_ok Let_def dest!: tx_success split: option.splits prod.splits)

lemma RecordLoginFailure_err: "RecordLoginFailure txf f w user now p d = (Inl e, d') \<Longrightarrow> d' = d"
  unfolding RecordLoginFailure_def by (rule tx_error_unchanged)

lemma parse_sqlite_locked:
  "u_locked_until u = Some s \<Longrightarrow> sqlite_representable s \<Longrightarrow> LockedUntil (lockout_state_of u) = Some (s * second)"
  by (simp add: lockout_state_of_def parse_sqlite_def)

lemma locked_through_update:
  assumes "\<And>r. u_id (f r) = u_id r" "\<And>r. u_locked_until (f r) = Some s"
    and "sqlite_representable s" "T \<le> s * second"
  shows "locked_through user T (update_users w (\<lambda>r. u_id r = user) f d)"
  unfolding locked_through_def
proof (intro ballI impI)
  fix r' assume r': "r' \<in> set (users (update_users w (\<lambda>r. u_id r = user) f d))" "u_id r' = user"
  from update_users_mem [OF r'(1)] obtain r0 where
    "(u_id r0 \<noteq> user \<and> r' = r0) \<or>
     (u_id r0 = user \<and> (r' = f r0 \<or> r' = (f r0)\<lparr>u_security_revision := u_security_revision (f r0) + 1\<rparr>))"
    by blast
  with r'(2) have "u_locked_until r' = u_locked_until (f r0)" by (elim disjE conjE) simp_all
  with assms show "\<exists>s. u_locked_until r' = Some s \<and> sqlite_representable s \<and> T \<le> s * second" by simp
qed

lemma fail_keeps_locked:
  assumes c: "lock_covers p start T c" and l: "locked_through user T d"
  shows "locked_through user T (snd (fail_step user p c d)) \<and> \<not> reports_lock c (fst (fail_step user p c d))"
proof (cases "fail_step user p c d")
  case (Pair r d')
  show ?thesis
  proof (cases r)
    case (Inl e)
    with Pair l show ?thesis by (auto simp: fail_step_def reports_lock_def dest: RecordLoginFailure_err)
  next
    case (Inr x)
    from Pair [unfolded Inr fail_step_def] show ?thesis
    proof (rule RecordLoginFailure_ok)
      fix u nxt newly
      assume u: "find_user d user = Some u" and n: "NextState (lockout_state_of u) (fc_now c) p = (nxt, newly)"
        and x: "x = \<lparr>fr_Count = Count nxt, fr_LockedUntil = LockedUntil nxt, fr_NewlyLocked = newly\<rparr>"
        and d': "d' = update_users (fc_wall c) (\<lambda>r. u_id r = user) (\<lambda>r. r\<lparr>u_failed_count := Count nxt,
          u_last_failed := sqlite_ptr (LastFailedAt nxt), u_locked_until := sqlite_ptr (LockedUntil nxt),
          u_updated_at := format_sqlite (fc_now c)\<rparr>) d"
      from l u obtain s where s: "u_locked_until u = Some s" "sqlite_representable s" "T \<le> s * second"
        by (auto simp: locked_through_def dest!: find_user_Some)
      have "IsLocked (LockedUntil (lockout_state_of u)) (fc_now c)"
        using c s by (simp add: parse_sqlite_locked lock_covers_def)
      from NextState_locked_unchanged [OF this, of p] n s have nxt: "LockedUntil nxt = Some (s * second)" "\<not> newly"
        by (auto simp: parse_sqlite_locked)
      have "locked_through user T d'"
        unfolding d' by (rule locked_through_update [where s = s]) (simp_all add: nxt sqlite_ptr_def s)
      with nxt x Inr Pair show ?thesis by (simp add: reports_lock_def)
    qed
  qed
qed

lemma fail_reports_spends:
  assumes c: "lock_covers p start T c" and w: "reports_lock c (fst (fail_step user p c d))"
  shows "locked_through user T (snd (fail_step user p c d))"
proof -
  from w obtain x d' where r: "fail_step user p c d = (Inr x, d')" and x: "fr_NewlyLocked x"
    by (cases "fail_step user p c d") (auto simp: reports_lock_def)
  from r [unfolded fail_step_def] show ?thesis
  proof (rule RecordLoginFailure_ok)
    fix u nxt newly
    assume n: "NextState (lockout_state_of u) (fc_now c) p = (nxt, newly)"
      and xe: "x = \<lparr>fr_Count = Count nxt, fr_LockedUntil = LockedUntil nxt, fr_NewlyLocked = newly\<rparr>"
      and d': "d' = update_users (fc_wall c) (\<lambda>r. u_id r = user) (\<lambda>r. r\<lparr>u_failed_count := Count nxt,
        u_last_failed := sqlite_ptr (LastFailedAt nxt), u_locked_until := sqlite_ptr (LockedUntil nxt),
        u_updated_at := format_sqlite (fc_now c)\<rparr>) d"
    from NextState_newly [of "lockout_state_of u" "fc_now c" p] n x xe
    have lu: "LockedUntil nxt = Some (if Duration p = 0 then NoAutoUnlock else fc_now c + Duration p)"
      by simp
    define s where "s = format_sqlite (if Duration p = 0 then NoAutoUnlock else fc_now c + Duration p)"
    have "sqlite_representable s" "T \<le> s * second"
      using c by (simp_all add: lock_covers_def Let_def s_def)
    then show ?thesis
      unfolding r snd_conv d' by (intro locked_through_update [where s = s]) (simp_all add: lu sqlite_ptr_def s_def)
  qed
qed

interpretation lock_report: one_shot "fail_step user p" "\<lambda>_. True" "locked_through user T" reports_lock
    "lock_covers p start T" for user p start T
  by unfold_locales (use fail_keeps_locked fail_reports_spends in blast)+

section \<open>Properties\<close>



text \<open>Under concurrent failed sign-ins of one account, at most one failure reports that it locked
  the account while that lock lasts, so one lock is audited and notified; locks of failed calls
  and other accounts do not count.\<close>

theorem lock_reported_once:
  assumes "\<forall>c \<in> set calls. lock_covers p start T c"
  shows "wins_of reports_lock (run_results (fail_step user p) calls d) \<le> 1"
  by (rule lock_report.at_most_one_win [OF assms]) simp

theorem lock_reported_once_witness:
  "wins_of reports_lock (run_results (fail_step ''u1'' (Defaults\<lparr>Threshold := 1\<rparr>))
     [\<lparr>fc_tx = (\<lambda>_. False), fc_db = (\<lambda>_. False), fc_wall = 0, fc_now = 0\<rparr>,
      \<lparr>fc_tx = (\<lambda>_. False), fc_db = (\<lambda>_. False), fc_wall = 0, fc_now = 1\<rparr>]
     (empty_db\<lparr>users := [example_user ''u1'' RoleViewer]\<rparr>)) \<le> 1"
  by (rule lock_reported_once [where start = 0 and T = "60 * second"])
    (simp add: lock_covers_def Defaults_def DefaultDuration_def duration_units format_sqlite_def
      sqlite_representable_def)



text \<open>Disabling an account takes away everything at once: the row is marked, both credential
  generations move on, every API token of the account is revoked, every step-up proof is spent,
  every vote is invalidated, and no terminal credential of the account is live any more.\<close>

theorem disable_revokes_all:
  assumes "DisableUser txf dbf wall user by_id now d = (Inr n, d')" "pk_ok u_id (users d)"
  shows "(\<forall>g ssh. \<not> TerminalCredentialLive False user g ssh d') \<and>
     (\<forall>t \<in> set (api_tokens d'). tk_user_id t = user \<longrightarrow> tk_revoked_at t \<noteq> None) \<and>
     (\<forall>q \<in> set (stepups d'). su_user_id q = user \<longrightarrow> su_consumed_at q \<noteq> None) \<and>
     (\<forall>v \<in> set (approvals d'). ap_user_id v = user \<longrightarrow> ap_invalidated_at v \<noteq> None) \<and>
     (\<exists>u. find_user d user = Some u \<and> (\<forall>r \<in> set (users d'). u_id r = user \<longrightarrow>
        u_token_generation r = u_token_generation u + 1 \<and> u_ssh_generation r = u_ssh_generation u + 1 \<and>
        u_disabled_at r = Some (format_sqlite now) \<and> u_disabled_by r = Some by_id))"
  using assms(1)
proof (rule DisableUser_ok)
  let ?P = "\<lambda>r. u_id r = user \<and> u_disabled_at r = None" and ?f = "disable_row (format_sqlite now) by_id"
  fix u assume u: "find_user d user = Some u" "u_disabled_at u = None"
    and d': "d' = revoke_tokens (format_sqlite now) user (update_users wall ?P ?f d)"
  have mem: "u \<in> set (users d)" "u_id u = user" using find_user_Some [OF u(1)] by simp_all
  have changed: "credentials_changed u (?f u)" by (simp add: credentials_changed_def disable_row_def u)
  have rows: "u_token_generation r = u_token_generation u + 1 \<and> u_ssh_generation r = u_ssh_generation u + 1 \<and>
      u_disabled_at r = Some (format_sqlite now) \<and> u_disabled_by r = Some by_id"
    if r: "r \<in> set (users d')" "u_id r = user" for r
  proof -
    from r(1) have "r \<in> set (users (update_users wall ?P ?f d))" by (simp add: d')
    from update_users_mem [OF this] obtain r0 where r0: "r0 \<in> set (users d)" and
      c: "(\<not> ?P r0 \<and> r = r0) \<or> (?P r0 \<and> (r = ?f r0 \<or> r = (?f r0)\<lparr>u_security_revision := u_security_revision (?f r0) + 1\<rparr>))"
      by (rule bexE) (rule that)
    from c r(2) have "u_id r0 = user" by blast
    with mem(2) have "r0 = u" using pk_unique [OF assms(2) r0 mem(1)] by simp
    with c mem(2) u(2) consider "r = ?f u" | "r = (?f u)\<lparr>u_security_revision := u_security_revision (?f u) + 1\<rparr>"
      by blast
    then show ?thesis by cases (simp_all add: disable_row_def)
  qed
  have frame: "stepups d' = stepups (update_users wall ?P ?f d)" "approvals d' = approvals (update_users wall ?P ?f d)"
    by (simp_all add: d' revoke_tokens_def)
  have P: "?P u" using u mem by simp
  note rev = update_users_revokes [where P = ?P and f = ?f and w = wall, OF mem(1) P changed, unfolded mem(2)]
  show ?thesis
  proof (intro conjI)
    show "\<forall>g ssh. \<not> TerminalCredentialLive False user g ssh d'"
      using rows by (auto simp: TerminalCredentialLive_def)
    show "\<forall>t \<in> set (api_tokens d'). tk_user_id t = user \<longrightarrow> tk_revoked_at t \<noteq> None"
      unfolding d' by (rule revoke_tokens_all)
    show "\<forall>q \<in> set (stepups d'). su_user_id q = user \<longrightarrow> su_consumed_at q \<noteq> None"
      unfolding frame by (rule rev(1))
    show "\<forall>v \<in> set (approvals d'). ap_user_id v = user \<longrightarrow> ap_invalidated_at v \<noteq> None"
      unfolding frame by (rule rev(2))
  qed (use u(1) rows in blast)
qed

theorem disable_revokes_all_witness:
  "\<not> TerminalCredentialLive False ''u1'' 1 False (snd (DisableUser (\<lambda>_. False) (\<lambda>_. False) 0 ''u1'' ''root'' 0
     (empty_db\<lparr>users := [example_user ''u1'' RoleViewer]\<rparr>)))"
proof -
  let ?d = "empty_db\<lparr>users := [example_user ''u1'' RoleViewer]\<rparr>"
  have u: "find_user ?d ''u1'' = Some (example_user ''u1'' RoleViewer)"
    and n: "u_disabled_at (example_user ''u1'' RoleViewer) = None" "u_role (example_user ''u1'' RoleViewer) \<noteq> RoleAdmin"
    and one: "sql_count (\<lambda>r. u_id r = ''u1'' \<and> u_disabled_at r = None) (users ?d) = 1"
    by (simp_all add: find_user_def sql_first_def sql_count_def example_user_def role_names)
  have "isl (fst (DisableUser (\<lambda>_. False) (\<lambda>_. False) 0 ''u1'' ''root'' 0 ?d)) = False"
    by (simp add: DisableUser_def withImmediateTx_def stmt_def refuse_if_def u n one [simplified] Let_def)
  then obtain k d' where r: "DisableUser (\<lambda>_. False) (\<lambda>_. False) 0 ''u1'' ''root'' 0 ?d = (Inr k, d')"
    by (metis prod.collapse sum.collapse(2))
  have "pk_ok u_id (users ?d)" by (simp add: pk_ok_def)
  from disable_revokes_all [OF r this] show ?thesis unfolding r snd_conv by blast
qed

lemma find_user_frame: "users d' = users d \<Longrightarrow> find_user d' i = find_user d i"
  by (simp add: find_user_def)

lemma find_user_generation:
  assumes "\<And>r. u_id (f r) = u_id r" "\<And>r. u_token_generation (f r) = u_token_generation r + 1"
    and "find_user d i = Some u"
  shows "\<exists>u'. find_user (update_users w (\<lambda>r. u_id r = i) f d) i = Some u' \<and>
           u_token_generation u' = u_token_generation u + 1"
proof -
  let ?g = "\<lambda>r. let r' = f r in if credentials_changed r r'
      then r'\<lparr>u_security_revision := u_security_revision r' + 1\<rparr> else r'"
  have "find_user (update_users w (\<lambda>r. u_id r = i) f d) i = map_option ?g (find_user d i)"
    using sql_first_update [where key = u_id and f = ?g and k = i and k' = i and rows = "users d"] assms(1)
    by (simp add: find_user_def update_users_def Let_def)
  with assms(2,3) show ?thesis by (simp add: Let_def)
qed

lemma update_users_gen:
  assumes "r \<in> set (users d)" "P r"
  shows "\<exists>r' \<in> set (users (update_users w P f d)). u_id r' = u_id (f r) \<and> u_token_generation r' = u_token_generation (f r)"
proof -
  define g where "g r = (if P r then (let r' = f r in if credentials_changed r r'
      then r'\<lparr>u_security_revision := u_security_revision r' + 1\<rparr> else r') else r)" for r
  have "users (update_users w P f d) = map g (users d)"
    by (simp add: update_users_def Let_def sql_update_def g_def [abs_def])
  with assms(1) have "g r \<in> set (users (update_users w P f d))" by simp
  then show ?thesis by (rule bexI [rotated]) (simp add: g_def Let_def assms(2))
qed

text \<open>The guard after the body refuses as soon as the actor's generation has moved or its row is gone.\<close>

lemma post_guard_refuses:
  assumes "accountManagementWrite env a fn d = (Inr v, d')" "find_user d (am_UserID a) = Some u"
    and "find_user d' (am_UserID a) = None \<or>
      (\<exists>u'. find_user d' (am_UserID a) = Some u' \<and> u_token_generation u' = u_token_generation u + 1)"
  shows False
proof -
  note ok = accountManagementWrite_ok [OF assms(1)]
  from guard_passes [OF ok(1)] assms(2) have "u_token_generation u = am_Generation a"
    by (auto simp: actor_account_ok_def)
  moreover from guard_passes [OF ok(3)] obtain u' where "find_user d' (am_UserID a) = Some u'"
    "u_token_generation u' = am_Generation a" by (auto simp: actor_account_ok_def)
  ultimately show False using assms(3) by auto
qed

lemma not_success_isl: "(\<And>v d'. x = (Inr v, d') \<Longrightarrow> False) \<Longrightarrow> isl (fst x)"
  by (cases x; cases "fst x") auto

lemma self_demotion_refused: "isl (fst (UpdateUserRoleAudited env (am_UserID a) role e1 e2 a d))"
proof (rule not_success_isl)
  fix v d' assume w: "UpdateUserRoleAudited env (am_UserID a) role e1 e2 a d = (Inr v, d')"
  from accountManagementWrite_ok(2) [OF w [unfolded UpdateUserRoleAudited_def]]
  obtain u where u: "find_user d (am_UserID a) = Some u" and us: "users d' =
      users (update_users (e_wall env) (\<lambda>r. u_id r = am_UserID a) (role_row_update (e_wall env) role) d)"
    by (auto simp: role_audited_body_def op_ok Let_def dest!: audit_frame(1) logAuditConn_frame(1)
        split: option.splits if_splits)
  show False
    by (rule post_guard_refuses [OF w [unfolded UpdateUserRoleAudited_def] u])
      (use find_user_generation [OF _ _ u] find_user_frame [OF us] in \<open>auto simp: role_row_update_def\<close>)
qed

lemma self_deletion_refused: "isl (fst (DeleteUserAudited env (am_UserID a) e1 a d))"
proof (rule not_success_isl)
  fix v d' assume w: "DeleteUserAudited env (am_UserID a) e1 a d = (Inr v, d')"
  from accountManagementWrite_ok(2) [OF w [unfolded DeleteUserAudited_def]]
  obtain u where u: "find_user d (am_UserID a) = Some u" and us: "users d' =
      users (delete_user_rows (e_wall env) (am_UserID a) (delete_dependents (am_UserID a) d))"
    by (auto simp: op_ok dest!: audit_frame(1))
  have "find_user d' (am_UserID a) = None"
    by (simp add: find_user_def us delete_user_rows_def Let_def sql_first_None sql_delete_def)
  then show False by (intro post_guard_refuses [OF w [unfolded DeleteUserAudited_def] u]) simp
qed

text \<open>No administrator can end its own authority: demoting, deleting or disabling oneself is
  always refused and rolled back, because the authority guard runs again on the changed tables.\<close>

theorem self_removal_refused:
  assumes "account_inv d"
  shows "isl (fst (UpdateUserRoleAudited env (am_UserID a) role e1 e2 a d)) \<and>
     isl (fst (DeleteUserAudited env (am_UserID a) e1 a d)) \<and>
     isl (fst (DisableUserAudited env (am_UserID a) by_id e1 a d))"
proof (intro conjI self_demotion_refused self_deletion_refused, rule not_success_isl)
  fix v d' assume w: "DisableUserAudited env (am_UserID a) by_id e1 a d = (Inr v, d')"
  note ok = accountManagementWrite_ok [OF w [unfolded DisableUserAudited_def]]
  from guard_passes [OF ok(1)] obtain u p where u: "find_user d (am_UserID a) = Some u"
    and pass: "actor_account_ok a u p (e_pre_now env) d" by blast
  have en: "u_disabled_at u = None"
    using pass assms find_user_Some [OF u]
    by (auto simp: actor_account_ok_def account_inv_def parse_sqlite_def split: option.splits if_splits)
  let ?P = "\<lambda>r. u_id r = am_UserID a \<and> u_disabled_at r = None" and ?f = "disable_row (format_sqlite (e_body_now env)) by_id"
  from ok(2) u en have us: "users d' = users (update_users (e_wall env) ?P ?f d)"
    by (auto simp: disable_audited_body_def op_ok Let_def
        dest!: disable_enabled_ok audit_frame(1) end_ids_frame split: option.splits if_splits)
  from update_users_gen [where r = u and d = d and P = ?P and f = ?f and w = "e_wall env"] find_user_Some [OF u] en
  obtain r' where r': "r' \<in> set (users d')" "u_id r' = am_UserID a" "u_token_generation r' = u_token_generation u + 1"
    unfolding us by (auto simp: disable_row_def)
  have inv: "pk_ok u_id (users d')"
    using assms update_users_ids [of ?f] unfolding us account_inv_def pk_ok_def by simp
  from guard_passes [OF ok(3)] obtain u2 where u2: "find_user d' (am_UserID a) = Some u2" by blast
  have "r' = u2" using pk_unique [OF inv r'(1)] find_user_Some [OF u2] r'(2) by auto
  with u2 r'(3) post_guard_refuses [OF w [unfolded DisableUserAudited_def] u] show False by blast
qed

theorem self_removal_refused_witness:
  "isl (fst (DisableUserAudited
     \<lparr>e_tx = (\<lambda>_. False), e_pre = (\<lambda>_. False), e_pre_cfg = (\<lambda>_. False), e_pre_now = 0, e_body = (\<lambda>_. False),
      e_body_now = 0, e_audit = (\<lambda>_. False), e_audit2 = (\<lambda>_. False), e_post = (\<lambda>_. False),
      e_post_cfg = (\<lambda>_. False), e_post_now = 0, e_wall = 0, e_sha = id, e_targets = (\<lambda>_. []),
      e_uuid = ''a'', e_uuid2 = ''b'', e_addr = 1\<rparr> ''root'' ''root''
     \<lparr>ae_ID = [], ae_UserID = NilPtr, ae_Action = ''user.disabled'', ae_Target = NilPtr, ae_Detail = NilPtr,
      ae_IPAddress = NilPtr, ae_Outcome = [], ae_ActorType = [], ae_CorrelationID = NilPtr, ae_ResourceType = NilPtr\<rparr>
     \<lparr>am_UserID = ''root'', am_SessionID = [], am_Generation = 0, am_SecurityRevision = 0, am_ExpiresAt = None,
      am_APITokenHash = []\<rparr>
     (empty_db\<lparr>users := [example_user ''root'' RoleAdmin, example_user ''second'' RoleAdmin],
        user_roles := [\<lparr>r_user_id = ''root'', r_role = RoleAdmin, r_granting = []\<rparr>,
          \<lparr>r_user_id = ''second'', r_role = RoleAdmin, r_granting = []\<rparr>]\<rparr>)))"
  using self_removal_refused [where a = "\<lparr>am_UserID = ''root'', am_SessionID = [], am_Generation = 0,
      am_SecurityRevision = 0, am_ExpiresAt = None, am_APITokenHash = []\<rparr>"
    and d = "empty_db\<lparr>users := [example_user ''root'' RoleAdmin, example_user ''second'' RoleAdmin],
        user_roles := [\<lparr>r_user_id = ''root'', r_role = RoleAdmin, r_granting = []\<rparr>,
          \<lparr>r_user_id = ''second'', r_role = RoleAdmin, r_granting = []\<rparr>]\<rparr>"]
  by (simp add: account_inv_def role_mirror_def pk_ok_def example_user_def)

end
