(* ===== verification/Conn_Manager.thy ===== *)
theory Conn_Manager
  imports Veyport_Prelude
begin

text \<open>
  The hub's registry of agent connections, \<open>hub/internal/connmgr\<close>: generations of control streams
  and their retirement (\<open>connmgr.go\<close>), the bounded accounting of remote activities and the
  maintenance reservation (\<open>activities.go\<close>). A connection object is a number in a heap, so that two
  generations of one server are different even when every field agrees. One definition models one
  critical section of \<open>cm.mu\<close>; operations with several sections are composed from them, and the
  step relation interleaves the sections of all callers. \<open>sending\<close> holds the connections whose
  \<open>GenerationMu\<close> a send has taken.
\<close>

section \<open>State\<close>

record AgentConn =
  c_ServerID :: string
  c_Stream :: nat
  c_LastSeen :: go_time
  c_closed :: bool

datatype ActivityKind = ActivityList | ActivityRead | ActivityDelete | ActivityUpload | ActivityLog
  | ActivityApplication | ActivityOther string

record activityKey =
  k_connection :: nat
  k_id :: string
  k_kind :: ActivityKind

record activityRecord =
  dispatched :: bool
  abandoned :: bool

text \<open>Absent entries of the integer maps read as zero and of the maintenance map as the empty text,
  as Go map reads do; \<open>uncertain\<close> lists the keys that map to true.\<close>

record ConnManager =
  conns :: "nat \<Rightarrow> AgentConn"
  next_conn :: nat
  streams :: "string \<rightharpoonup> nat"
  retiring :: "string \<rightharpoonup> nat"
  maintenance :: "string \<Rightarrow> string"
  activities :: "(activityKey \<times> activityRecord) list"
  uncertain :: "string list"
  activityNodes :: "string \<Rightarrow> int"
  activityCounts :: "nat \<Rightarrow> nat"
  sending :: "nat list"

definition new_conn_manager :: ConnManager where
  "new_conn_manager = \<lparr>conns = (\<lambda>_. \<lparr>c_ServerID = [], c_Stream = 0, c_LastSeen = 0, c_closed = True\<rparr>),
     next_conn = 0, streams = Map.empty, retiring = Map.empty, maintenance = (\<lambda>_. []), activities = [],
     uncertain = [], activityNodes = (\<lambda>_. 0), activityCounts = (\<lambda>_. 0), sending = []\<rparr>"

datatype cm_error = AgentNotConnected | InvalidBinding | ConnectionChanged | MaintenanceActive
  | AlreadyAdmitted | ErrActivityCapacity | ErrActivityBusy | UploadContinuation
  | UnsupportedCapability | StaleCapability | MaintenanceReserved | CheckRefused | AgentDisconnected
  | NotAdmitted | BindingDiffers | ContextDone

type_synonym 'a cm_op = "ConnManager \<Rightarrow> (cm_error + 'a) \<times> ConnManager"

definition MaxNodeActivities :: int where "MaxNodeActivities = 128"
definition MaxActivities :: nat where "MaxActivities = 4096"

abbreviation server :: "ConnManager \<Rightarrow> nat \<Rightarrow> string" where
  "server cm c \<equiv> c_ServerID (conns cm c)"

definition close_conn :: "nat \<Rightarrow> ConnManager \<Rightarrow> ConnManager" where
  "close_conn c cm = cm\<lparr>conns := (conns cm)(c := (conns cm c)\<lparr>c_closed := True\<rparr>)\<rparr>"

text \<open>The messages the package looks into; the request id is the one the generated accessor gives.\<close>

datatype HubMessage = FileListRequest string | FileReadRequest string | FileDeleteRequest string
  | FileUploadRequest string string | LogStreamRequest string | ApplicationOpen string
  | TerminalOpenRequest | ExecutionPrepare | ExecutionAttach | OtherHubMessage

datatype AgentResponse = FileListResponse string | FileReadResponse string | FileDeleteResponse string
  | FileUploadAck string | LogStreamChunk string bool | ApplicationClosed string | OtherResponse

section \<open>Activities\<close>

definition validActivity :: "string \<Rightarrow> ActivityKind \<Rightarrow> bool" where
  "validActivity i kind \<longleftrightarrow>
     i \<noteq> [] \<and> length i \<le> 128 \<and> CHR 0x00 \<notin> set i \<and> CHR 0x0D \<notin> set i \<and> CHR 0x0A \<notin> set i \<and>
     (case kind of ActivityOther _ \<Rightarrow> False | _ \<Rightarrow> True)"

definition liveLocked :: "ConnManager \<Rightarrow> nat \<Rightarrow> bool" where
  "liveLocked cm c \<longleftrightarrow> streams cm (server cm c) = Some c \<and> \<not> c_closed (conns cm c)"

definition activity :: "ConnManager \<Rightarrow> activityKey \<Rightarrow> activityRecord option" where
  "activity cm key = map_of (activities cm) key"

definition addActivityLocked :: "activityKey \<Rightarrow> unit cm_op" where
  "addActivityLocked key cm =
     (let node = server cm (k_connection key) in
      if activityNodes cm node \<ge> MaxNodeActivities \<or>
         length (activities cm) + length (uncertain cm) \<ge> MaxActivities
      then (Inl ErrActivityCapacity, cm)
      else (Inr (), cm\<lparr>activities := (key, \<lparr>dispatched = False, abandoned = False\<rparr>) # activities cm,
              activityNodes := (activityNodes cm)(node := activityNodes cm node + 1)\<rparr>))"

definition removeActivityLocked :: "activityKey \<Rightarrow> ConnManager \<Rightarrow> ConnManager" where
  "removeActivityLocked key cm =
     (if activity cm key = None then cm
      else let node = server cm (k_connection key); n = activityNodes cm node - 1;
               rest = filter (\<lambda>e. fst e \<noteq> key) (activities cm) in
           if n = 0 \<and> activityCounts cm (k_connection key) > 0
           then cm\<lparr>activities := rest, uncertain := List.insert node (uncertain cm),
                   activityNodes := (activityNodes cm)(node := 1)\<rparr>
           else cm\<lparr>activities := rest, activityNodes := (activityNodes cm)(node := n)\<rparr>)"

text \<open>A record updated in place through its pointer.\<close>

definition set_activity :: "activityKey \<Rightarrow> (activityRecord \<Rightarrow> activityRecord) \<Rightarrow> ConnManager \<Rightarrow> ConnManager" where
  "set_activity key f cm = cm\<lparr>activities := map (\<lambda>(k, r). if k = key then (k, f r) else (k, r)) (activities cm)\<rparr>"

fun messageActivity :: "HubMessage \<Rightarrow> ActivityKind \<times> string" where
  "messageActivity (FileListRequest i) = (ActivityList, i)"
| "messageActivity (FileReadRequest i) = (ActivityRead, i)"
| "messageActivity (FileDeleteRequest i) = (ActivityDelete, i)"
| "messageActivity (FileUploadRequest i _) = (ActivityUpload, i)"
| "messageActivity (LogStreamRequest i) = (ActivityLog, i)"
| "messageActivity (ApplicationOpen i) = (ActivityApplication, i)"
| "messageActivity _ = (ActivityOther [], [])"

definition BeginActivity :: "nat option \<Rightarrow> string \<Rightarrow> ActivityKind \<Rightarrow> activityKey cm_op" where
  "BeginActivity conn i kind cm =
     (case conn of
        None \<Rightarrow> (Inl InvalidBinding, cm)
      | Some c \<Rightarrow>
          let key = \<lparr>k_connection = c, k_id = i, k_kind = kind\<rparr> in
          if \<not> validActivity i kind then (Inl InvalidBinding, cm)
          else if \<not> liveLocked cm c then (Inl ConnectionChanged, cm)
          else if maintenance cm (server cm c) \<noteq> [] then (Inl MaintenanceActive, cm)
          else if activity cm key \<noteq> None then (Inl AlreadyAdmitted, cm)
          else case addActivityLocked key cm of (Inl e, cm') \<Rightarrow> (Inl e, cm') | (Inr _, cm') \<Rightarrow> (Inr key, cm'))"

definition BeginRequest :: "nat option \<Rightarrow> HubMessage \<Rightarrow> activityKey cm_op" where
  "BeginRequest conn msg = (case messageActivity msg of (kind, i) \<Rightarrow> BeginActivity conn i kind)"

definition abandonActivity :: "activityKey \<Rightarrow> ConnManager \<Rightarrow> ConnManager" where
  "abandonActivity key cm =
     (case activity cm key of
        None \<Rightarrow> cm
      | Some r \<Rightarrow> if \<not> dispatched r then removeActivityLocked key cm
                  else set_activity key (\<lambda>r. r\<lparr>abandoned := True\<rparr>) cm)"

definition abandonMessage :: "nat \<Rightarrow> HubMessage \<Rightarrow> ConnManager \<Rightarrow> ConnManager" where
  "abandonMessage c msg cm =
     (case messageActivity msg of (kind, i) \<Rightarrow>
        if kind \<noteq> ActivityOther [] then abandonActivity \<lparr>k_connection = c, k_id = i, k_kind = kind\<rparr> cm else cm)"

text \<open>The claim that \<open>Activity.Send\<close> makes before its message is sent.\<close>

definition Activity_claim :: "activityKey \<Rightarrow> HubMessage \<Rightarrow> unit cm_op" where
  "Activity_claim key msg cm =
     (if messageActivity msg \<noteq> (k_kind key, k_id key) then (Inl BindingDiffers, cm)
      else case activity cm key of
             None \<Rightarrow> (Inl NotAdmitted, cm)
           | Some r \<Rightarrow> if abandoned r then (Inl NotAdmitted, cm)
                       else (Inr (), set_activity key (\<lambda>r. r\<lparr>dispatched := True\<rparr>) cm))"

definition is_admission :: "HubMessage \<Rightarrow> bool" where
  "is_admission msg \<longleftrightarrow> fst (messageActivity msg) \<noteq> ActivityOther [] \<or>
     msg = TerminalOpenRequest \<or> msg = ExecutionPrepare \<or> msg = ExecutionAttach"

definition prepareActivitySend :: "nat \<Rightarrow> HubMessage \<Rightarrow> unit cm_op" where
  "prepareActivitySend c msg cm =
     (if \<not> liveLocked cm c then (Inl ConnectionChanged, cm)
      else case messageActivity msg of (kind, i) \<Rightarrow>
        let key = \<lparr>k_connection = c, k_id = i, k_kind = kind\<rparr>;
            mark = set_activity key (\<lambda>r. r\<lparr>dispatched := True\<rparr>) in
        if is_admission msg \<and> maintenance cm (server cm c) \<noteq> [] \<and> activity cm key = None
        then (Inl MaintenanceActive, cm)
        else if kind = ActivityOther [] then (Inr (), cm)
        else if \<not> validActivity i kind then (Inl InvalidBinding, cm)
        else if activity cm key \<noteq> None then (Inr (), mark cm)
        else if kind = ActivityUpload \<and> msg = FileUploadRequest i [] then (Inl UploadContinuation, cm)
        else case addActivityLocked key cm of
               (Inl e, cm') \<Rightarrow> (Inl e, cm') | (Inr _, cm') \<Rightarrow> (Inr (), mark cm'))"

definition CompleteActivity :: "string \<Rightarrow> nat \<Rightarrow> string \<Rightarrow> ActivityKind \<Rightarrow> ConnManager \<Rightarrow> bool \<times> ConnManager" where
  "CompleteActivity node stream i kind cm =
     (case streams cm node of
        None \<Rightarrow> (False, cm)
      | Some c \<Rightarrow>
          let key = \<lparr>k_connection = c, k_id = i, k_kind = kind\<rparr> in
          if c_Stream (conns cm c) \<noteq> stream then (False, cm)
          else if activity cm key = None then (False, cm)
          else (True, removeActivityLocked key cm))"

fun response_activity :: "AgentResponse \<Rightarrow> (ActivityKind \<times> string) option" where
  "response_activity (FileListResponse i) = Some (ActivityList, i)"
| "response_activity (FileReadResponse i) = Some (ActivityRead, i)"
| "response_activity (FileDeleteResponse i) = Some (ActivityDelete, i)"
| "response_activity (FileUploadAck i) = Some (ActivityUpload, i)"
| "response_activity (LogStreamChunk i done_flag) = (if done_flag then Some (ActivityLog, i) else None)"
| "response_activity (ApplicationClosed i) = Some (ActivityApplication, i)"
| "response_activity OtherResponse = None"

definition CompleteResponse :: "string \<Rightarrow> nat \<Rightarrow> AgentResponse \<Rightarrow> ConnManager \<Rightarrow> bool \<times> ConnManager" where
  "CompleteResponse node stream msg cm =
     (case response_activity msg of
        None \<Rightarrow> (False, cm) | Some (kind, i) \<Rightarrow> CompleteActivity node stream i kind cm)"

text \<open>\<open>endActivitiesLocked\<close>: the count of the connection is forgotten first, then its entries are
  removed one by one, and what may still run is kept as one uncertainty slot.\<close>

definition keys_of_conn :: "nat \<Rightarrow> ConnManager \<Rightarrow> activityKey list" where
  "keys_of_conn c cm = filter (\<lambda>k. k_connection k = c) (map fst (activities cm))"

definition endActivitiesLocked :: "nat \<Rightarrow> ConnManager \<Rightarrow> ConnManager" where
  "endActivitiesLocked c cm =
     (let node = server cm c;
          unknown = (activityCounts cm c > 0 \<or>
                     (\<exists>e \<in> set (activities cm). k_connection (fst e) = c \<and> dispatched (snd e)));
          cm1 = cm\<lparr>activityCounts := (activityCounts cm)(c := 0)\<rparr>;
          cm2 = fold removeActivityLocked (keys_of_conn c cm1) cm1 in
      if unknown \<and> node \<notin> set (uncertain cm2)
      then cm2\<lparr>uncertain := node # uncertain cm2,
               activityNodes := (activityNodes cm2)(node := activityNodes cm2 node + 1)\<rparr>
      else cm2)"

definition clearUncertainLocked :: "string \<Rightarrow> ConnManager \<Rightarrow> ConnManager" where
  "clearUncertainLocked node cm =
     (if node \<in> set (uncertain cm)
      then cm\<lparr>uncertain := filter (\<lambda>x. x \<noteq> node) (uncertain cm),
              activityNodes := (activityNodes cm)(node := activityNodes cm node - 1)\<rparr>
      else cm)"

definition GetConn :: "ConnManager \<Rightarrow> string \<Rightarrow> nat option" where
  "GetConn cm node = (case streams cm node of None \<Rightarrow> None
     | Some c \<Rightarrow> if c_closed (conns cm c) then None else Some c)"

definition ObserveActivityCapabilities :: "string \<Rightarrow> nat \<Rightarrow> nat \<Rightarrow> nat \<Rightarrow> unit cm_op" where
  "ObserveActivityCapabilities node stream version count cm =
     (if version \<noteq> 1 \<or> int count > MaxNodeActivities then (Inl UnsupportedCapability, cm)
      else case GetConn cm node of
        None \<Rightarrow> (Inl StaleCapability, cm)
      | Some c \<Rightarrow>
          if c_Stream (conns cm c) \<noteq> stream then (Inl StaleCapability, cm)
          else if \<not> liveLocked cm c then (Inl StaleCapability, cm)
          else if count > 0 \<and> activityNodes cm node = 0 \<and>
                  length (activities cm) + length (uncertain cm) \<ge> MaxActivities
          then (Inl ErrActivityCapacity, cm)
          else let cm1 = (if count > 0 \<and> activityNodes cm node = 0
                          then cm\<lparr>uncertain := List.insert node (uncertain cm),
                                  activityNodes := (activityNodes cm)(node := activityNodes cm node + 1)\<rparr>
                          else cm);
                   cm2 = cm1\<lparr>activityCounts := (activityCounts cm1)(c := count)\<rparr> in
               (Inr (), if count = 0 then clearUncertainLocked node cm2 else cm2))"

definition activityIdleLocked :: "nat \<Rightarrow> bool \<Rightarrow> ConnManager \<Rightarrow> cm_error option" where
  "activityIdleLocked c manual cm =
     (if activityCounts cm c > 0 then Some ErrActivityBusy
      else if server cm c \<in> set (uncertain cm) \<and> \<not> manual then Some ErrActivityBusy
      else if \<exists>e \<in> set (activities cm). server cm (k_connection (fst e)) = server cm c \<and>
                (\<not> manual \<or> \<not> abandoned (snd e))
      then Some ErrActivityBusy else None)"

definition clearAbandonedActivitiesLocked :: "nat \<Rightarrow> ConnManager \<Rightarrow> ConnManager" where
  "clearAbandonedActivitiesLocked c cm =
     clearUncertainLocked (server cm c)
       (fold removeActivityLocked
          (map fst (filter (\<lambda>e. k_connection (fst e) = c \<and> abandoned (snd e)) (activities cm))) cm)"

section \<open>Generations\<close>

text \<open>A new connection object for a stream, not yet installed.\<close>

definition alloc_conn :: "string \<Rightarrow> nat \<Rightarrow> go_time \<Rightarrow> ConnManager \<Rightarrow> nat \<times> ConnManager" where
  "alloc_conn node stream now cm = (next_conn cm,
     cm\<lparr>conns := (conns cm)(next_conn cm := \<lparr>c_ServerID = node, c_Stream = stream, c_LastSeen = now, c_closed = False\<rparr>),
        next_conn := Suc (next_conn cm)\<rparr>)"

text \<open>
  The sections of the loop of \<open>Register\<close>: the first installs the connection or reports what is in
  the way; the second, entered with \<open>GenerationMu\<close> of the retiring generation, retires it and
  installs; \<open>detachIfCurrent\<close> starts the retirement of a generation that is still current.
\<close>

datatype reg_view = Installed | SawRetiring nat | SawPrevious nat

definition Register_try :: "string \<Rightarrow> nat \<Rightarrow> ConnManager \<Rightarrow> reg_view \<times> ConnManager" where
  "Register_try node c cm =
     (case (streams cm node, retiring cm node) of
        (None, None) \<Rightarrow> (Installed, cm\<lparr>streams := (streams cm)(node \<mapsto> c)\<rparr>)
      | (_, Some r) \<Rightarrow> (SawRetiring r, cm)
      | (Some p, None) \<Rightarrow> (SawPrevious p, cm))"

definition Register_retire :: "string \<Rightarrow> nat \<Rightarrow> nat \<Rightarrow> ConnManager \<Rightarrow> bool \<times> ConnManager" where
  "Register_retire node c r cm =
     (if retiring cm node \<noteq> Some r then (False, cm)
      else let s1 = (if streams cm node = Some r then (streams cm)(node := None) else streams cm);
               cm1 = cm\<lparr>streams := s1, retiring := (retiring cm)(node := None)\<rparr> in
           if s1 node = None then (True, cm1\<lparr>streams := s1(node \<mapsto> c)\<rparr>) else (False, cm1))"

definition detachIfCurrent :: "string \<Rightarrow> nat \<Rightarrow> ConnManager \<Rightarrow> bool \<times> ConnManager" where
  "detachIfCurrent node c cm =
     (if streams cm node \<noteq> Some c then (False, cm)
      else let cm1 = endActivitiesLocked c (close_conn c cm) in
           (True, cm1\<lparr>retiring := (retiring cm1)(node \<mapsto> c)\<rparr>))"

definition finishRetirement :: "nat \<Rightarrow> ConnManager \<Rightarrow> ConnManager" where
  "finishRetirement c cm =
     (let node = server cm c in
      if retiring cm node = Some c
      then cm\<lparr>streams := (if streams cm node = Some c then (streams cm)(node := None) else streams cm),
              retiring := (retiring cm)(node := None)\<rparr>
      else cm)"

text \<open>\<open>Register\<close> when no other caller intervenes; \<open>fuel\<close> bounds the iterations.\<close>

fun Register_loop :: "nat \<Rightarrow> string \<Rightarrow> nat \<Rightarrow> ConnManager \<Rightarrow> (nat \<times> ConnManager) option" where
  "Register_loop 0 node c cm = None"
| "Register_loop (Suc fuel) node c cm =
     (case Register_try node c cm of
        (Installed, cm') \<Rightarrow> Some (c, cm')
      | (SawRetiring r, cm') \<Rightarrow>
          (case Register_retire node c r cm' of
             (True, cm'') \<Rightarrow> Some (c, cm'') | (False, cm'') \<Rightarrow> Register_loop fuel node c cm'')
      | (SawPrevious p, cm') \<Rightarrow> Register_loop fuel node c (snd (detachIfCurrent node p cm')))"

definition Register :: "nat \<Rightarrow> string \<Rightarrow> nat \<Rightarrow> go_time \<Rightarrow> ConnManager \<Rightarrow> (nat \<times> ConnManager) option" where
  "Register fuel node stream now cm =
     (case alloc_conn node stream now cm of (c, cm1) \<Rightarrow> Register_loop fuel node c cm1)"

definition Unregister :: "string \<Rightarrow> ConnManager \<Rightarrow> ConnManager" where
  "Unregister node cm = (case streams cm node of None \<Rightarrow> cm | Some c \<Rightarrow> snd (detachIfCurrent node c cm))"

definition UnregisterIfCurrent :: "string \<Rightarrow> nat \<Rightarrow> ConnManager \<Rightarrow> bool \<times> ConnManager" where
  "UnregisterIfCurrent node stream cm =
     (case streams cm node of
        None \<Rightarrow> (False, cm)
      | Some c \<Rightarrow> if c_Stream (conns cm c) \<noteq> stream then (False, cm) else detachIfCurrent node c cm)"

text \<open>\<open>WithCurrentGeneration\<close>: the connection that \<open>fn\<close> runs on, if any; \<open>DeliveryMu\<close> keeps it current
  while \<open>fn\<close> runs.\<close>

definition WithCurrentGeneration :: "ConnManager \<Rightarrow> string \<Rightarrow> nat \<Rightarrow> nat option" where
  "WithCurrentGeneration cm node stream =
     (case streams cm node of
        None \<Rightarrow> None
      | Some c \<Rightarrow> if c_Stream (conns cm c) \<noteq> stream \<or> c_closed (conns cm c) then None else Some c)"

definition UpdateHeartbeat :: "string \<Rightarrow> go_time \<Rightarrow> ConnManager \<Rightarrow> ConnManager" where
  "UpdateHeartbeat node now cm =
     (case streams cm node of None \<Rightarrow> cm
      | Some c \<Rightarrow> cm\<lparr>conns := (conns cm)(c := (conns cm c)\<lparr>c_LastSeen := now\<rparr>)\<rparr>)"

text \<open>Membership of a server in \<open>ActiveServerIDs\<close> and in \<open>StaleConnections\<close>.\<close>

definition ActiveServerIDs :: "ConnManager \<Rightarrow> string \<Rightarrow> bool" where
  "ActiveServerIDs cm node \<longleftrightarrow> GetConn cm node \<noteq> None"

definition StaleConnections :: "ConnManager \<Rightarrow> go_time \<Rightarrow> duration \<Rightarrow> string \<Rightarrow> bool" where
  "StaleConnections cm now maxAge node \<longleftrightarrow>
     (\<exists>c \<in> set_option (streams cm node). c_LastSeen (conns cm c) < time_add now (- maxAge))"

section \<open>Sending\<close>

text \<open>
  \<open>SendToConnectionGuarded\<close> in two parts. The first takes \<open>SendMu\<close> and \<open>GenerationMu\<close>, refuses a
  closed connection or a finished context, runs the caller's check and prepares the activity; from
  then on the send is in flight. The second is the outcome of \<open>Stream.Send\<close>, after which the locks
  are released.
\<close>

definition send_prepare :: "nat option \<Rightarrow> HubMessage \<Rightarrow> bool \<Rightarrow> unit cm_op \<Rightarrow> unit cm_op" where
  "send_prepare conn msg ctxDone check cm =
     (case conn of
        None \<Rightarrow> (Inl AgentNotConnected, cm)
      | Some c \<Rightarrow>
          if c_closed (conns cm c) then (Inl AgentDisconnected, cm)
          else if ctxDone then (Inl ContextDone, cm)
          else case check cm of
                 (Inl e, cm1) \<Rightarrow> (Inl e, cm1)
               | (Inr _, cm1) \<Rightarrow>
                   (case prepareActivitySend c msg cm1 of
                      (Inl e, cm2) \<Rightarrow> (Inl e, cm2)
                    | (Inr _, cm2) \<Rightarrow> (Inr (), cm2\<lparr>sending := c # sending cm2\<rparr>)))"

definition send_finish :: "nat \<Rightarrow> HubMessage \<Rightarrow> bool \<Rightarrow> ConnManager \<Rightarrow> ConnManager" where
  "send_finish c msg ok cm =
     (let cm1 = (if ok then cm else abandonMessage c msg cm) in cm1\<lparr>sending := remove1 c (sending cm1)\<rparr>)"

section \<open>Maintenance\<close>

text \<open>
  \<open>ReserveMaintenanceWithIdleAssertion\<close>: the checks before the caller's callback, and the commit
  under the registry's lock after it. Other callers may run between the two.
\<close>

definition reserve_precheck :: "nat option \<Rightarrow> bool \<Rightarrow> ConnManager \<Rightarrow> cm_error option" where
  "reserve_precheck conn manual cm =
     (case conn of
        None \<Rightarrow> Some AgentNotConnected
      | Some c \<Rightarrow>
          if GetConn cm (server cm c) \<noteq> Some c then Some ConnectionChanged
          else if c_closed (conns cm c) then Some AgentDisconnected
          else if maintenance cm (server cm c) \<noteq> [] then Some MaintenanceReserved
          else activityIdleLocked c manual cm)"

definition reserve_commit :: "nat \<Rightarrow> string \<Rightarrow> bool \<Rightarrow> unit cm_op" where
  "reserve_commit c i manual cm =
     (if \<not> liveLocked cm c then (Inl ConnectionChanged, cm)
      else if maintenance cm (server cm c) \<noteq> [] then (Inl MaintenanceReserved, cm)
      else case activityIdleLocked c manual cm of
             Some e \<Rightarrow> (Inl e, cm)
           | None \<Rightarrow>
               let cm1 = (if manual then clearAbandonedActivitiesLocked c cm else cm) in
               (Inr (), cm1\<lparr>maintenance := (maintenance cm1)(server cm c := i)\<rparr>))"

definition ReserveMaintenanceWithIdleAssertion ::
    "nat option \<Rightarrow> string \<Rightarrow> bool \<Rightarrow> bool \<Rightarrow> (ConnManager \<Rightarrow> ConnManager) \<Rightarrow> unit cm_op" where
  "ReserveMaintenanceWithIdleAssertion conn i manual checkFails others cm =
     (case reserve_precheck conn manual cm of
        Some e \<Rightarrow> (Inl e, cm)
      | None \<Rightarrow>
          if checkFails then (Inl CheckRefused, others cm)
          else reserve_commit (the conn) i manual (others cm))"

definition SetMaintenance :: "string \<Rightarrow> string \<Rightarrow> ConnManager \<Rightarrow> ConnManager" where
  "SetMaintenance node i cm = cm\<lparr>maintenance := (maintenance cm)(node := i)\<rparr>"

definition ReleaseMaintenance :: "string \<Rightarrow> string \<Rightarrow> ConnManager \<Rightarrow> ConnManager" where
  "ReleaseMaintenance node i cm =
     (if maintenance cm node = i then cm\<lparr>maintenance := (maintenance cm)(node := [])\<rparr> else cm)"

section \<open>Steps\<close>

text \<open>
  One critical section of some caller. A connection is allocated by the \<open>Register\<close> call that later
  installs it; retiring a generation needs its \<open>GenerationMu\<close>, so no send of it may be in flight; a
  send needs that lock too. Maintenance is set or released only through the last three rules.
\<close>

inductive cm_step :: "ConnManager \<Rightarrow> ConnManager \<Rightarrow> bool" where
  s_alloc: "alloc_conn node stream now cm = (c, cm') \<Longrightarrow> cm_step cm cm'"
| s_try: "c < next_conn cm \<Longrightarrow> server cm c = node \<Longrightarrow> Register_try node c cm = (v, cm') \<Longrightarrow> cm_step cm cm'"
| s_retire: "c < next_conn cm \<Longrightarrow> server cm c = node \<Longrightarrow> r \<notin> set (sending cm) \<Longrightarrow>
    Register_retire node c r cm = (v, cm') \<Longrightarrow> cm_step cm cm'"
| s_detach: "detachIfCurrent node c cm = (v, cm') \<Longrightarrow> cm_step cm cm'"
| s_finish: "c \<notin> set (sending cm) \<Longrightarrow> finishRetirement c cm = cm' \<Longrightarrow> cm_step cm cm'"
| s_close: "close_conn c cm = cm' \<Longrightarrow> cm_step cm cm'"
| s_heartbeat: "UpdateHeartbeat node now cm = cm' \<Longrightarrow> cm_step cm cm'"
| s_begin: "BeginActivity conn i kind cm = (v, cm') \<Longrightarrow> cm_step cm cm'"
| s_abandon: "abandonActivity key cm = cm' \<Longrightarrow> cm_step cm cm'"
| s_complete: "CompleteActivity node stream i kind cm = (v, cm') \<Longrightarrow> cm_step cm cm'"
| s_observe: "ObserveActivityCapabilities node stream version count cm = (v, cm') \<Longrightarrow> cm_step cm cm'"
| s_send: "c \<notin> set (sending cm) \<Longrightarrow> send_prepare (Some c) msg ctxDone (\<lambda>cm. (r, cm)) cm = (v, cm') \<Longrightarrow> cm_step cm cm'"
| s_send_activity: "c \<notin> set (sending cm) \<Longrightarrow> k_connection key = c \<Longrightarrow>
    send_prepare (Some c) msg ctxDone (Activity_claim key msg) cm = (v, cm') \<Longrightarrow> cm_step cm cm'"
| s_sent: "c \<in> set (sending cm) \<Longrightarrow> send_finish c msg ok cm = cm' \<Longrightarrow> cm_step cm cm'"
| s_reserve: "reserve_commit c i manual cm = (v, cm') \<Longrightarrow> cm_step cm cm'"
| s_set_maintenance: "SetMaintenance node i cm = cm' \<Longrightarrow> cm_step cm cm'"
| s_release: "ReleaseMaintenance node i cm = cm' \<Longrightarrow> cm_step cm cm'"

section \<open>The accounting invariant\<close>

definition node_count :: "ConnManager \<Rightarrow> string \<Rightarrow> nat" where
  "node_count cm node = length (filter (\<lambda>e. server cm (k_connection (fst e)) = node) (activities cm))"

text \<open>Every activity belongs to the installed generation of its server; the per-server counters are
  the activities plus one for an uncertainty slot; the two capacities hold; and a positive count
  reported by an agent has a slot reserved.\<close>

definition acc_inv :: "ConnManager \<Rightarrow> bool" where
  "acc_inv cm \<longleftrightarrow>
     distinct (map fst (activities cm)) \<and> distinct (uncertain cm) \<and>
     (\<forall>e \<in> set (activities cm). streams cm (server cm (k_connection (fst e))) = Some (k_connection (fst e))) \<and>
     (\<forall>node. activityNodes cm node = int (node_count cm node) + (if node \<in> set (uncertain cm) then 1 else 0)) \<and>
     length (activities cm) + length (uncertain cm) \<le> MaxActivities \<and>
     (\<forall>node. activityNodes cm node \<le> MaxNodeActivities) \<and>
     (\<forall>c. activityCounts cm c > 0 \<longrightarrow> streams cm (server cm c) = Some c \<and> 1 \<le> activityNodes cm (server cm c))"

text \<open>Installed generations are allocated and under their own name; a retiring generation is closed,
  still installed and has nothing to account for; every send in flight is of the installed
  generation.\<close>

definition gen_inv :: "ConnManager \<Rightarrow> bool" where
  "gen_inv cm \<longleftrightarrow>
     (\<forall>node c. streams cm node = Some c \<longrightarrow> server cm c = node \<and> c < next_conn cm) \<and>
     (\<forall>node c. retiring cm node = Some c \<longrightarrow> streams cm node = Some c \<and> c_closed (conns cm c) \<and>
        activityCounts cm c = 0 \<and> (\<forall>e \<in> set (activities cm). k_connection (fst e) \<noteq> c)) \<and>
     (\<forall>c \<in> set (sending cm). streams cm (server cm c) = Some c)"

definition cm_inv :: "ConnManager \<Rightarrow> bool" where
  "cm_inv cm \<longleftrightarrow> acc_inv cm \<and> gen_inv cm"

lemma acc_invI:
  assumes "distinct (map fst (activities cm))" "distinct (uncertain cm)"
    and "\<And>e. e \<in> set (activities cm) \<Longrightarrow> streams cm (server cm (k_connection (fst e))) = Some (k_connection (fst e))"
    and "\<And>node. activityNodes cm node = int (node_count cm node) + (if node \<in> set (uncertain cm) then 1 else 0)"
    and "length (activities cm) + length (uncertain cm) \<le> MaxActivities"
    and "\<And>node. activityNodes cm node \<le> MaxNodeActivities"
    and "\<And>c. activityCounts cm c > 0 \<Longrightarrow> streams cm (server cm c) = Some c \<and> 1 \<le> activityNodes cm (server cm c)"
  shows "acc_inv cm"
  using assms unfolding acc_inv_def by blast

lemma acc_invD:
  assumes "acc_inv cm"
  shows "distinct (map fst (activities cm))" "distinct (uncertain cm)"
    and "\<And>e. e \<in> set (activities cm) \<Longrightarrow> streams cm (server cm (k_connection (fst e))) = Some (k_connection (fst e))"
    and "\<And>node. activityNodes cm node = int (node_count cm node) + (if node \<in> set (uncertain cm) then 1 else 0)"
    and "length (activities cm) + length (uncertain cm) \<le> MaxActivities"
    and "\<And>node. activityNodes cm node \<le> MaxNodeActivities"
    and "\<And>c. activityCounts cm c > 0 \<Longrightarrow> streams cm (server cm c) = Some c \<and> 1 \<le> activityNodes cm (server cm c)"
  using assms unfolding acc_inv_def by blast+

lemma activity_Some: "activity cm key = Some r \<Longrightarrow> (key, r) \<in> set (activities cm)"
  unfolding activity_def by (rule map_of_SomeD)

lemma activity_None: "activity cm key = None \<longleftrightarrow> key \<notin> fst ` set (activities cm)"
  by (simp add: activity_def map_of_eq_None_iff)

lemma count_without_key:
  "distinct (map fst xs) \<Longrightarrow> key \<in> fst ` set xs \<Longrightarrow>
   length (filter (\<lambda>e. Q (fst e)) xs) =
     length (filter (\<lambda>e. Q (fst e)) (filter (\<lambda>e. fst e \<noteq> key) xs)) + (if Q key then 1 else 0)"
proof (induction xs)
  case (Cons x xs)
  show ?case
  proof (cases "fst x = key")
    case True
    from Cons.prems have "fst x \<notin> fst ` set xs" by simp
    with True have "\<forall>e \<in> set xs. fst e \<noteq> key" by (metis imageI)
    then have "filter (\<lambda>e. fst e \<noteq> key) xs = xs" by (simp add: filter_id_conv)
    with True show ?thesis by simp
  next
    case False
    with Cons show ?thesis by auto
  qed
qed simp

lemma length_without_key:
  "distinct (map fst xs) \<Longrightarrow> key \<in> fst ` set xs \<Longrightarrow>
   length xs = Suc (length (filter (\<lambda>e. fst e \<noteq> key) xs))"
  using count_without_key [of xs key "\<lambda>_. True"] by simp

lemma remove_frame [simp]:
  "conns (removeActivityLocked key cm) = conns cm" "streams (removeActivityLocked key cm) = streams cm"
  "retiring (removeActivityLocked key cm) = retiring cm" "sending (removeActivityLocked key cm) = sending cm"
  "next_conn (removeActivityLocked key cm) = next_conn cm"
  "activityCounts (removeActivityLocked key cm) = activityCounts cm"
  "maintenance (removeActivityLocked key cm) = maintenance cm"
  by (simp_all add: removeActivityLocked_def Let_def)

lemma remove_activities:
  "activities (removeActivityLocked key cm) = filter (\<lambda>e. fst e \<noteq> key) (activities cm)"
  by (auto simp: removeActivityLocked_def Let_def activity_None filter_id_conv intro!: filter_True [symmetric])

lemma node_count_remove:
  assumes "distinct (map fst (activities cm))" "key \<in> fst ` set (activities cm)"
  shows "node_count cm node =
     node_count (removeActivityLocked key cm) node + (if server cm (k_connection key) = node then 1 else 0)"
  using count_without_key [OF assms, of "\<lambda>k. server cm (k_connection k) = node"]
  by (simp add: node_count_def remove_activities)

lemma acc_inv_remove:
  assumes inv: "acc_inv cm" shows "acc_inv (removeActivityLocked key cm)"
proof (cases "activity cm key")
  case None
  then show ?thesis using inv by (simp add: removeActivityLocked_def)
next
  case (Some r)
  let ?cm = "removeActivityLocked key cm" and ?c = "k_connection key"
  let ?node = "server cm ?c"
  from Some have mem: "key \<in> fst ` set (activities cm)" by (metis activity_None option.distinct(1))
  note dist = acc_invD(1) [OF inv] and du = acc_invD(2) [OF inv] and inst = acc_invD(3) [OF inv]
    and nodes = acc_invD(4) [OF inv] and cap = acc_invD(5) [OF inv] and node_cap = acc_invD(6) [OF inv]
    and cnt = acc_invD(7) [OF inv]
  note nc = node_count_remove [OF dist mem]
  have len: "length (activities cm) = Suc (length (activities ?cm))"
    unfolding remove_activities by (rule length_without_key [OF dist mem])
  have inst': "streams cm ?node = Some ?c" using inst mem by auto
  have base: "distinct (map fst (activities ?cm))"
    "\<forall>e \<in> set (activities ?cm). streams cm (server cm (k_connection (fst e))) = Some (k_connection (fst e))"
    using dist inst by (auto simp: remove_activities distinct_map_filter)
  have pos: "1 \<le> activityNodes cm ?node" using nc [of ?node] nodes [of ?node] by auto
  show ?thesis
  proof (cases "activityNodes cm ?node - 1 = 0 \<and> activityCounts cm ?c > 0")
    case True
    then have one: "node_count cm ?node = 1" "?node \<notin> set (uncertain cm)"
      using nodes [of ?node] nc [of ?node] by (auto split: if_splits)
    have u: "uncertain ?cm = ?node # uncertain cm" and n: "activityNodes ?cm = (activityNodes cm)(?node := 1)"
      using True Some one(2) by (simp_all add: removeActivityLocked_def Let_def List.insert_def)
    show ?thesis
    proof (rule acc_invI)
      show "activityNodes ?cm node = int (node_count ?cm node) + (if node \<in> set (uncertain ?cm) then 1 else 0)" for node
        using nc [of node] nodes [of node] one by (auto simp: n u)
      show "activityNodes ?cm node \<le> MaxNodeActivities" for node
        using node_cap [of node] by (simp add: n MaxNodeActivities_def)
      show "length (activities ?cm) + length (uncertain ?cm) \<le> MaxActivities" using cap len by (simp add: u)
      show "streams ?cm (server ?cm c) = Some c \<and> 1 \<le> activityNodes ?cm (server ?cm c)"
        if "0 < activityCounts ?cm c" for c using cnt [of c] that by (simp add: n)
    qed (use base du one in \<open>simp_all add: u\<close>)
  next
    case False
    have u: "uncertain ?cm = uncertain cm" and n: "activityNodes ?cm = (activityNodes cm)(?node := activityNodes cm ?node - 1)"
      using False Some by (auto simp: removeActivityLocked_def Let_def)
    have eq: "activityNodes ?cm node = int (node_count ?cm node) + (if node \<in> set (uncertain ?cm) then 1 else 0)" for node
      using nc [of node] nodes [of node] by (auto simp: n u)
    have slot: "1 \<le> activityNodes ?cm (server cm c)" if c: "activityCounts cm c > 0" for c
    proof (cases "server cm c = ?node")
      case True
      with cnt [OF c] inst' have "c = ?c" by (metis option.inject)
      with c False have "activityNodes cm ?node - 1 \<noteq> 0" by simp
      with pos True show ?thesis by (simp add: n)
    next
      case False
      with cnt [OF c] show ?thesis by (simp add: n)
    qed
    show ?thesis
    proof (rule acc_invI)
      show "activityNodes ?cm node \<le> MaxNodeActivities" for node
        using node_cap [of node] by (auto simp: n)
      show "length (activities ?cm) + length (uncertain ?cm) \<le> MaxActivities" using cap len by (simp add: u)
      show "streams ?cm (server ?cm c) = Some c \<and> 1 \<le> activityNodes ?cm (server ?cm c)"
        if "0 < activityCounts ?cm c" for c using cnt [of c] slot [of c] that by simp
    qed (use base du eq in \<open>simp_all add: u\<close>)
  qed
qed

lemma acc_inv_fold_remove: "acc_inv cm \<Longrightarrow> acc_inv (fold removeActivityLocked ks cm)"
  by (induction ks arbitrary: cm) (simp_all add: acc_inv_remove)

lemma fold_remove_frame [simp]:
  "conns (fold removeActivityLocked ks cm) = conns cm" "streams (fold removeActivityLocked ks cm) = streams cm"
  "retiring (fold removeActivityLocked ks cm) = retiring cm" "sending (fold removeActivityLocked ks cm) = sending cm"
  "next_conn (fold removeActivityLocked ks cm) = next_conn cm"
  "activityCounts (fold removeActivityLocked ks cm) = activityCounts cm"
  "maintenance (fold removeActivityLocked ks cm) = maintenance cm"
  by (induction ks arbitrary: cm) simp_all

lemma fold_remove_activities:
  "activities (fold removeActivityLocked ks cm) = filter (\<lambda>e. fst e \<notin> set ks) (activities cm)"
  by (induction ks arbitrary: cm) (auto simp: remove_activities intro: filter_cong)

lemma fold_remove_uncertain:
  "(\<And>k. k \<in> set ks \<Longrightarrow> activityCounts cm (k_connection k) = 0) \<Longrightarrow>
   uncertain (fold removeActivityLocked ks cm) = uncertain cm"
proof (induction ks arbitrary: cm)
  case (Cons k ks)
  then have "uncertain (removeActivityLocked k cm) = uncertain cm"
    by (simp add: removeActivityLocked_def Let_def)
  with Cons show ?case by simp
qed simp

section \<open>Operations keep the invariant\<close>

lemma gen_inv_cong:
  assumes "gen_inv cm" "streams cm' = streams cm" "retiring cm' = retiring cm" "sending cm' = sending cm"
    and "next_conn cm' = next_conn cm" "activityCounts cm' = activityCounts cm" "conns cm' = conns cm"
    and "fst ` set (activities cm') \<subseteq> fst ` set (activities cm)"
  shows "gen_inv cm'"
proof -
  have "k_connection (fst e) \<noteq> c"
    if "\<forall>e \<in> set (activities cm). k_connection (fst e) \<noteq> c" "e \<in> set (activities cm')" for e c
    using that assms(8) by (metis (no_types, lifting) imageE imageI subsetD)
  with assms(1-7) show ?thesis unfolding gen_inv_def by simp
qed

lemma remove_cm_inv: "cm_inv cm \<Longrightarrow> cm_inv (removeActivityLocked key cm)"
  unfolding cm_inv_def
  by (auto intro: acc_inv_remove elim!: gen_inv_cong simp: remove_activities intro: rev_image_eqI)

lemma fold_remove_cm_inv: "cm_inv cm \<Longrightarrow> cm_inv (fold removeActivityLocked ks cm)"
  by (induction ks arbitrary: cm) (simp_all add: remove_cm_inv)

lemma set_activity_frame [simp]:
  "conns (set_activity key f cm) = conns cm" "streams (set_activity key f cm) = streams cm"
  "retiring (set_activity key f cm) = retiring cm" "sending (set_activity key f cm) = sending cm"
  "next_conn (set_activity key f cm) = next_conn cm" "activityCounts (set_activity key f cm) = activityCounts cm"
  "uncertain (set_activity key f cm) = uncertain cm" "activityNodes (set_activity key f cm) = activityNodes cm"
  "maintenance (set_activity key f cm) = maintenance cm"
  by (simp_all add: set_activity_def)

lemma set_activity_keys [simp]: "map fst (activities (set_activity key f cm)) = map fst (activities cm)"
  by (simp add: set_activity_def comp_def case_prod_unfold if_distrib [of fst])

lemma count_by_key: "length (filter (\<lambda>e. Q (fst e)) xs) = length (filter Q (map fst xs))"
  by (induction xs) simp_all

lemma acc_inv_keys:
  assumes "acc_inv cm" "map fst (activities cm') = map fst (activities cm)" "uncertain cm' = uncertain cm"
    and "activityNodes cm' = activityNodes cm" "activityCounts cm' = activityCounts cm" "streams cm' = streams cm"
    and "\<And>c. server cm' c = server cm c"
  shows "acc_inv cm'"
proof -
  have len: "length (activities cm') = length (activities cm)" using assms(2) by (metis length_map)
  have keys: "fst ` set (activities cm') = fst ` set (activities cm)" using assms(2) by (metis set_map)
  have nc: "node_count cm' node = node_count cm node" for node
    unfolding node_count_def count_by_key [of "\<lambda>k. server cm' (k_connection k) = node"]
      count_by_key [of "\<lambda>k. server cm (k_connection k) = node"] assms(2) assms(7) by simp
  have inst: "streams cm (server cm (k_connection (fst e))) = Some (k_connection (fst e))"
    if "e \<in> set (activities cm')" for e
  proof -
    from that keys have "fst e \<in> fst ` set (activities cm)" by blast
    then obtain e' where "e' \<in> set (activities cm)" "fst e' = fst e" by force
    with acc_invD(3) [OF assms(1), of e'] show ?thesis by simp
  qed
  note d = acc_invD [OF assms(1)]
  show ?thesis
    by (rule acc_invI) (use d inst in \<open>simp_all add: nc len assms(2-7) del: of_nat_Suc\<close>)
qed

lemma set_activity_cm_inv: "cm_inv cm \<Longrightarrow> cm_inv (set_activity key f cm)"
proof -
  assume inv: "cm_inv cm"
  have keys: "fst ` set (activities (set_activity key f cm)) = fst ` set (activities cm)"
    by (metis set_activity_keys set_map)
  have "acc_inv (set_activity key f cm)"
    by (rule acc_inv_keys [of cm]) (use inv in \<open>simp_all add: cm_inv_def\<close>)
  moreover have "gen_inv (set_activity key f cm)"
    by (rule gen_inv_cong [of cm]) (use inv in \<open>simp_all add: cm_inv_def keys\<close>)
  ultimately show ?thesis by (simp add: cm_inv_def)
qed

lemma add_activity_cm_inv:
  assumes inv: "cm_inv cm" and live: "liveLocked cm (k_connection key)" and new: "activity cm key = None"
    and add: "addActivityLocked key cm = (r, cm')"
  shows "cm_inv cm'"
proof (cases "activityNodes cm (server cm (k_connection key)) \<ge> MaxNodeActivities \<or>
    length (activities cm) + length (uncertain cm) \<ge> MaxActivities")
  case True
  with add inv show ?thesis by (auto simp: addActivityLocked_def Let_def)
next
  case False
  let ?c = "k_connection key" and ?rec = "\<lparr>dispatched = False, abandoned = False\<rparr>"
  let ?node = "server cm ?c"
  from False add have cm': "cm' = cm\<lparr>activities := (key, ?rec) # activities cm,
      activityNodes := (activityNodes cm)(?node := activityNodes cm ?node + 1)\<rparr>"
    by (auto simp: addActivityLocked_def Let_def)
  from inv have acc: "acc_inv cm" and gen: "gen_inv cm" by (simp_all add: cm_inv_def)
  note d = acc_invD [OF acc]
  have nc: "node_count cm' node = node_count cm node + (if node = ?node then 1 else 0)" for node
    by (simp add: node_count_def cm')
  have "acc_inv cm'"
  proof (rule acc_invI)
    show "activityNodes cm' node = int (node_count cm' node) + (if node \<in> set (uncertain cm') then 1 else 0)" for node
      using d(4) [of node] by (auto simp: nc) (auto simp: cm')
    show "activityNodes cm' node \<le> MaxNodeActivities" for node
      using d(6) [of node] False by (auto simp: cm')
    show "streams cm' (server cm' c) = Some c \<and> 1 \<le> activityNodes cm' (server cm' c)"
      if "0 < activityCounts cm' c" for c using d(7) [of c] that by (auto simp: cm')
    show "streams cm' (server cm' (k_connection (fst e))) = Some (k_connection (fst e))"
      if "e \<in> set (activities cm')" for e
      using d(3) [of e] that live by (auto simp: cm' liveLocked_def)
  qed (use d(1,2,5) new False in \<open>simp_all add: cm' activity_None\<close>)
  moreover have "gen_inv cm'"
    using gen live by (auto simp: gen_inv_def cm' liveLocked_def)
  ultimately show ?thesis by (simp add: cm_inv_def)
qed

lemma add_fresh_cm_inv:
  "\<lbrakk>cm_inv cm; liveLocked cm c; activity cm \<lparr>k_connection = c, k_id = i, k_kind = kind\<rparr> = None;
    addActivityLocked \<lparr>k_connection = c, k_id = i, k_kind = kind\<rparr> cm = (r, cm')\<rbrakk> \<Longrightarrow> cm_inv cm'"
  by (rule add_activity_cm_inv) simp_all

lemma abandon_cm_inv: "cm_inv cm \<Longrightarrow> cm_inv (abandonActivity key cm)"
  by (simp add: abandonActivity_def remove_cm_inv set_activity_cm_inv split: option.splits)

lemma complete_cm_inv: "CompleteActivity node stream i kind cm = (r, cm') \<Longrightarrow> cm_inv cm \<Longrightarrow> cm_inv cm'"
  by (auto simp: CompleteActivity_def Let_def remove_cm_inv split: option.splits if_splits)

lemma begin_cm_inv: "BeginActivity conn i kind cm = (r, cm') \<Longrightarrow> cm_inv cm \<Longrightarrow> cm_inv cm'"
  by (auto simp: BeginActivity_def Let_def split: option.splits if_splits prod.splits sum.splits
      intro: add_fresh_cm_inv)

lemma prepare_cm_inv: "prepareActivitySend c msg cm = (r, cm') \<Longrightarrow> cm_inv cm \<Longrightarrow> cm_inv cm'"
  by (auto simp: prepareActivitySend_def Let_def split: if_splits prod.splits sum.splits
      intro!: set_activity_cm_inv intro: add_fresh_cm_inv)

lemma claim_cm_inv: "Activity_claim key msg cm = (r, cm') \<Longrightarrow> cm_inv cm \<Longrightarrow> cm_inv cm'"
  by (auto simp: Activity_claim_def set_activity_cm_inv split: if_splits option.splits)

section \<open>Disconnection, capabilities and maintenance\<close>

lemma gen_invD:
  assumes "gen_inv cm"
  shows "\<And>node c. streams cm node = Some c \<Longrightarrow> server cm c = node \<and> c < next_conn cm"
    and "\<And>node c. retiring cm node = Some c \<Longrightarrow> streams cm node = Some c \<and> c_closed (conns cm c) \<and>
        activityCounts cm c = 0 \<and> (\<forall>e \<in> set (activities cm). k_connection (fst e) \<noteq> c)"
    and "\<And>c. c \<in> set (sending cm) \<Longrightarrow> streams cm (server cm c) = Some c"
  using assms unfolding gen_inv_def by blast+

lemma gen_inv_reinstall:
  assumes gen: "gen_inv cm" and quiet: "\<And>k. k \<in> set (sending cm) \<Longrightarrow> server cm k \<noteq> node"
    and x: "\<And>c. x = Some c \<Longrightarrow> server cm c = node \<and> c < next_conn cm"
  shows "gen_inv (cm\<lparr>streams := (streams cm)(node := x), retiring := (retiring cm)(node := None)\<rparr>)" (is "gen_inv ?cm")
proof -
  note g = gen_invD [OF gen]
  have "server cm c = n \<and> c < next_conn cm" if "((streams cm)(node := x)) n = Some c" for n c
    using that g(1) [of n c] x [of c] by (cases "n = node") simp_all
  moreover have "((streams cm)(node := x)) n = Some c \<and> c_closed (conns cm c) \<and> activityCounts cm c = 0 \<and>
      (\<forall>e \<in> set (activities cm). k_connection (fst e) \<noteq> c)"
    if "((retiring cm)(node := None)) n = Some c" for n c
    using that g(2) [of n c] by (cases "n = node") simp_all
  moreover have "((streams cm)(node := x)) (server cm c) = Some c" if "c \<in> set (sending cm)" for c
    using g(3) [OF that] quiet [OF that] by simp
  ultimately show ?thesis unfolding gen_inv_def by simp
qed

lemma close_conn_frame [simp]:
  "streams (close_conn c cm) = streams cm" "retiring (close_conn c cm) = retiring cm"
  "sending (close_conn c cm) = sending cm" "next_conn (close_conn c cm) = next_conn cm"
  "activityCounts (close_conn c cm) = activityCounts cm" "activities (close_conn c cm) = activities cm"
  "uncertain (close_conn c cm) = uncertain cm" "activityNodes (close_conn c cm) = activityNodes cm"
  "maintenance (close_conn c cm) = maintenance cm" "server (close_conn c cm) x = server cm x"
  "c_closed (conns (close_conn c cm) x) = (x = c \<or> c_closed (conns cm x))"
  by (simp_all add: close_conn_def)

lemma close_cm_inv: "cm_inv cm \<Longrightarrow> cm_inv (close_conn c cm)"
proof -
  assume inv: "cm_inv cm"
  have "acc_inv (close_conn c cm)"
    by (rule acc_inv_keys [of cm]) (use inv in \<open>simp_all add: cm_inv_def\<close>)
  moreover have "gen_inv (close_conn c cm)"
    using inv unfolding cm_inv_def gen_inv_def by auto
  ultimately show ?thesis by (simp add: cm_inv_def)
qed

lemma reset_count_inv:
  assumes "cm_inv cm" shows "cm_inv (cm\<lparr>activityCounts := (activityCounts cm)(c := 0)\<rparr>)"
proof -
  from assms have acc: "acc_inv cm" and gen: "gen_inv cm" by (simp_all add: cm_inv_def)
  note d = acc_invD [OF acc]
  let ?cm = "cm\<lparr>activityCounts := (activityCounts cm)(c := 0)\<rparr>"
  have nc: "node_count ?cm n = node_count cm n" for n by (simp add: node_count_def)
  have "acc_inv ?cm"
  proof (rule acc_invI)
    show "activityNodes ?cm n = int (node_count ?cm n) + (if n \<in> set (uncertain ?cm) then 1 else 0)" for n
      using d(4) [of n] by (simp add: nc)
    show "activityNodes ?cm n \<le> MaxNodeActivities" for n using d(6) [of n] by simp
    show "streams ?cm (server ?cm x) = Some x \<and> 1 \<le> activityNodes ?cm (server ?cm x)"
      if "0 < activityCounts ?cm x" for x using d(7) [of x] that by (simp split: if_splits)
  qed (use d(1,2,3,5) in simp_all)
  moreover have "gen_inv (cm\<lparr>activityCounts := (activityCounts cm)(c := 0)\<rparr>)"
    using gen unfolding gen_inv_def by auto
  ultimately show ?thesis by (simp add: cm_inv_def)
qed

text \<open>Reserving an uncertainty slot for a server that has none.\<close>

lemma add_uncertain_inv:
  assumes inv: "cm_inv cm" and new: "node \<notin> set (uncertain cm)" and small: "activityNodes cm node < MaxNodeActivities"
    and cap: "length (activities cm) + length (uncertain cm) < MaxActivities"
  shows "cm_inv (cm\<lparr>uncertain := node # uncertain cm, activityNodes := (activityNodes cm)(node := activityNodes cm node + 1)\<rparr>)"
    (is "cm_inv ?cm")
proof -
  from inv have acc: "acc_inv cm" and gen: "gen_inv cm" by (simp_all add: cm_inv_def)
  note d = acc_invD [OF acc]
  have nc: "node_count ?cm n = node_count cm n" for n by (simp add: node_count_def)
  have "acc_inv ?cm"
  proof (rule acc_invI)
    show "activityNodes ?cm n = int (node_count ?cm n) + (if n \<in> set (uncertain ?cm) then 1 else 0)" for n
      using d(4) [of n] new by (auto simp: nc)
    show "activityNodes ?cm n \<le> MaxNodeActivities" for n using d(6) [of n] small by auto
    show "streams ?cm (server ?cm c) = Some c \<and> 1 \<le> activityNodes ?cm (server ?cm c)"
      if "0 < activityCounts ?cm c" for c using d(7) [of c] that by auto
  qed (use d(1,2,3) new cap in simp_all)
  moreover have "gen_inv ?cm" using gen unfolding gen_inv_def by simp
  ultimately show ?thesis by (simp add: cm_inv_def)
qed

lemma end_activities_frame [simp]:
  "conns (endActivitiesLocked c cm) = conns cm" "streams (endActivitiesLocked c cm) = streams cm"
  "retiring (endActivitiesLocked c cm) = retiring cm" "sending (endActivitiesLocked c cm) = sending cm"
  "next_conn (endActivitiesLocked c cm) = next_conn cm" "maintenance (endActivitiesLocked c cm) = maintenance cm"
  "activityCounts (endActivitiesLocked c cm) = (activityCounts cm)(c := 0)"
  by (simp_all add: endActivitiesLocked_def Let_def)

lemma end_activities_left:
  "activities (endActivitiesLocked c cm) = filter (\<lambda>e. k_connection (fst e) \<noteq> c) (activities cm)"
  unfolding endActivitiesLocked_def Let_def
  by (auto simp: fold_remove_activities keys_of_conn_def intro!: filter_cong)

lemma end_activities_cm_inv:
  assumes inv: "cm_inv cm" and cur: "streams cm (server cm c) = Some c"
  shows "cm_inv (endActivitiesLocked c cm)"
proof -
  let ?node = "server cm c"
  define cm1 where "cm1 = cm\<lparr>activityCounts := (activityCounts cm)(c := 0)\<rparr>"
  define cm2 where "cm2 = fold removeActivityLocked (keys_of_conn c cm1) cm1"
  have inv2: "cm_inv cm2" unfolding cm2_def cm1_def by (intro fold_remove_cm_inv reset_count_inv inv)
  then have acc2: "acc_inv cm2" by (simp add: cm_inv_def)
  have acts: "activities cm2 = filter (\<lambda>e. k_connection (fst e) \<noteq> c) (activities cm)"
    by (auto simp: cm2_def fold_remove_activities keys_of_conn_def cm1_def intro!: filter_cong)
  have unc: "uncertain cm2 = uncertain cm"
    unfolding cm2_def by (subst fold_remove_uncertain) (auto simp: keys_of_conn_def cm1_def)
  have conns2: "conns cm2 = conns cm" "streams cm2 = streams cm" by (simp_all add: cm2_def cm1_def)
  have here: "k_connection (fst e) = c" if "e \<in> set (activities cm)" "server cm (k_connection (fst e)) = ?node" for e
    using acc_invD(3) [of cm e] inv that cur by (auto simp: cm_inv_def)
  have zero: "node_count cm2 ?node = 0"
    using here by (auto simp: node_count_def acts conns2 filter_empty_conv)
  have unknown_cap: "length (activities cm2) < length (activities cm)"
    if u: "activityCounts cm c > 0 \<or> (\<exists>e \<in> set (activities cm). k_connection (fst e) = c \<and> dispatched (snd e))"
      and nu: "?node \<notin> set (uncertain cm)"
  proof -
    have "\<exists>e \<in> set (activities cm). k_connection (fst e) = c"
    proof (cases "activityCounts cm c > 0")
      case True
      with inv have "1 \<le> activityNodes cm ?node" by (auto simp: cm_inv_def dest: acc_invD(7))
      with inv nu have "1 \<le> node_count cm ?node"
        using acc_invD(4) [of cm ?node] by (simp add: cm_inv_def)
      then obtain e where "e \<in> set (filter (\<lambda>e. server cm (k_connection (fst e)) = ?node) (activities cm))"
        unfolding node_count_def by (metis length_pos_if_in_set list.set_intros(1) neq_Nil_conv length_0_conv not_one_le_zero)
      then have "e \<in> set (activities cm)" "server cm (k_connection (fst e)) = ?node" by auto
      with here [OF this] show ?thesis by blast
    next
      case False
      with u show ?thesis by blast
    qed
    then show ?thesis unfolding acts by (metis (mono_tags, lifting) length_filter_less)
  qed
  show ?thesis
  proof (cases "(activityCounts cm c > 0 \<or> (\<exists>e \<in> set (activities cm). k_connection (fst e) = c \<and> dispatched (snd e)))
      \<and> ?node \<notin> set (uncertain cm)")
    case True
    then have eq: "endActivitiesLocked c cm = cm2\<lparr>uncertain := ?node # uncertain cm2,
        activityNodes := (activityNodes cm2)(?node := activityNodes cm2 ?node + 1)\<rparr>"
      unfolding endActivitiesLocked_def Let_def cm2_def [symmetric] cm1_def [symmetric] unc by simp
    have "activityNodes cm2 ?node = 0" using acc_invD(4) [OF acc2, of ?node] zero True unc by simp
    moreover have "length (activities cm2) + length (uncertain cm2) < MaxActivities"
      using unknown_cap True unc acc_invD(5) [of cm] inv by (simp add: cm_inv_def)
    ultimately show ?thesis
      unfolding eq by (intro add_uncertain_inv inv2) (use True unc in \<open>simp_all add: MaxNodeActivities_def\<close>)
  next
    case False
    then have "endActivitiesLocked c cm = cm2"
      unfolding endActivitiesLocked_def Let_def cm2_def [symmetric] cm1_def [symmetric] unc by auto
    with inv2 show ?thesis by simp
  qed
qed

lemma detach_cm_inv:
  assumes "detachIfCurrent node c cm = (v, cm')" "cm_inv cm" shows "cm_inv cm'"
proof (cases "streams cm node = Some c")
  case False
  with assms show ?thesis by (simp add: detachIfCurrent_def)
next
  case True
  let ?cm = "endActivitiesLocked c (close_conn c cm)"
  from True assms(1) have cm': "cm' = ?cm\<lparr>retiring := (retiring ?cm)(node \<mapsto> c)\<rparr>"
    by (auto simp: detachIfCurrent_def Let_def)
  from True assms(2) have node: "server cm c = node"
    using gen_invD(1) [of cm] by (simp add: cm_inv_def)
  have inv: "cm_inv ?cm"
    by (intro end_activities_cm_inv close_cm_inv assms(2)) (use True node in simp)
  have "acc_inv cm'"
    unfolding cm' by (rule acc_inv_keys [of ?cm]) (use inv in \<open>simp_all add: cm_inv_def\<close>)
  moreover have "gen_inv cm'"
  proof -
    from inv have "gen_inv ?cm" by (simp add: cm_inv_def)
    note g = gen_invD [OF this]
    have left: "\<forall>e \<in> set (activities ?cm). k_connection (fst e) \<noteq> c" by (simp add: end_activities_left)
    have "streams ?cm n = Some k \<and> c_closed (conns ?cm k) \<and> activityCounts ?cm k = 0 \<and>
        (\<forall>e \<in> set (activities ?cm). k_connection (fst e) \<noteq> k)"
      if "((retiring ?cm)(node \<mapsto> c)) n = Some k" for n k
    proof (cases "n = node")
      case True
      with that have "k = c" by simp
      with True \<open>streams cm node = Some c\<close> left show ?thesis by simp
    next
      case False
      with that g(2) [of n k] show ?thesis by simp
    qed
    with g(1,3) show ?thesis unfolding gen_inv_def cm' by simp
  qed
  ultimately show ?thesis by (simp add: cm_inv_def)
qed

lemma acc_inv_uninstall:
  assumes "cm_inv cm" "retiring cm node = Some c"
  shows "acc_inv (cm\<lparr>streams := (streams cm)(node := x), retiring := (retiring cm)(node := None)\<rparr>)" (is "acc_inv ?cm")
proof -
  from assms have acc: "acc_inv cm" and gen: "gen_inv cm" by (simp_all add: cm_inv_def)
  note d = acc_invD [OF acc] and r = gen_invD(2) [OF gen assms(2)]
  have nc: "node_count ?cm n = node_count cm n" for n by (simp add: node_count_def)
  have other: "server cm k \<noteq> node" if "streams cm (server cm k) = Some k" "k \<noteq> c" for k
    using that r by auto
  show ?thesis
  proof (rule acc_invI)
    show "activityNodes ?cm n = int (node_count ?cm n) + (if n \<in> set (uncertain ?cm) then 1 else 0)" for n
      using d(4) [of n] by (simp add: nc)
    show "streams ?cm (server ?cm (k_connection (fst e))) = Some (k_connection (fst e))"
      if "e \<in> set (activities ?cm)" for e
      using d(3) [of e] other [of "k_connection (fst e)"] r that by simp
    show "streams ?cm (server ?cm k) = Some k \<and> 1 \<le> activityNodes ?cm (server ?cm k)"
      if "0 < activityCounts ?cm k" for k
      using d(7) [of k] other [of k] r that by (cases "k = c") simp_all
    show "activityNodes ?cm n \<le> MaxNodeActivities" for n using d(6) [of n] by simp
  qed (use d(1,2,5) in simp_all)
qed

lemma retire_cm_inv:
  assumes "Register_retire node c r cm = (v, cm')" "cm_inv cm" "c < next_conn cm" "server cm c = node"
    and "r \<notin> set (sending cm)"
  shows "cm_inv cm'"
proof (cases "retiring cm node = Some r")
  case False
  with assms show ?thesis by (simp add: Register_retire_def)
next
  case True
  from assms(2) have gen: "gen_inv cm" by (simp add: cm_inv_def)
  note g = gen_invD [OF gen]
  from g(2) [OF True] have st: "streams cm node = Some r" by simp
  with True assms(1) have cm': "cm' = cm\<lparr>streams := (streams cm)(node \<mapsto> c), retiring := (retiring cm)(node := None)\<rparr>"
    by (auto simp: Register_retire_def Let_def)
  have "gen_inv cm'"
    unfolding cm'
  proof (rule gen_inv_reinstall [OF gen])
    show "server cm k \<noteq> node" if "k \<in> set (sending cm)" for k
      using g(3) [OF that] st assms(5) that by (metis option.inject)
  qed (use assms(3,4) in simp)
  with acc_inv_uninstall [OF assms(2) True] show ?thesis by (simp add: cm' cm_inv_def)
qed

lemma finish_cm_inv:
  assumes "cm_inv cm" "c \<notin> set (sending cm)" shows "cm_inv (finishRetirement c cm)"
proof (cases "retiring cm (server cm c) = Some c")
  case False
  with assms show ?thesis by (simp add: finishRetirement_def Let_def)
next
  case True
  from assms(1) have gen: "gen_inv cm" by (simp add: cm_inv_def)
  note g = gen_invD [OF gen]
  from g(2) [OF True] have st: "streams cm (server cm c) = Some c" by simp
  let ?cm = "cm\<lparr>streams := (streams cm)(server cm c := None), retiring := (retiring cm)(server cm c := None)\<rparr>"
  have eq: "finishRetirement c cm = ?cm" using True st by (simp add: finishRetirement_def Let_def)
  have "gen_inv ?cm"
  proof (rule gen_inv_reinstall [OF gen])
    show "server cm k \<noteq> server cm c" if "k \<in> set (sending cm)" for k
      using g(3) [OF that] st assms(2) that by (metis option.inject)
  qed simp
  with acc_inv_uninstall [OF assms(1) True] show ?thesis by (simp add: eq cm_inv_def)
qed

lemma try_cm_inv:
  assumes "Register_try node c cm = (v, cm')" "cm_inv cm" "c < next_conn cm" "server cm c = node"
  shows "cm_inv cm'"
proof (cases "streams cm node = None \<and> retiring cm node = None")
  case False
  with assms(1,2) show ?thesis by (auto simp: Register_try_def split: option.splits)
next
  case True
  then have cm': "cm' = cm\<lparr>streams := (streams cm)(node \<mapsto> c)\<rparr>"
    using assms(1) by (auto simp: Register_try_def)
  from assms(2) have acc: "acc_inv cm" and gen: "gen_inv cm" by (simp_all add: cm_inv_def)
  note d = acc_invD [OF acc] and g = gen_invD [OF gen]
  have nc: "node_count cm' n = node_count cm n" for n by (simp add: node_count_def cm')
  have "acc_inv cm'"
  proof (rule acc_invI)
    show "activityNodes cm' n = int (node_count cm' n) + (if n \<in> set (uncertain cm') then 1 else 0)" for n
      using d(4) [of n] unfolding nc by (simp add: cm')
    show "streams cm' (server cm' (k_connection (fst e))) = Some (k_connection (fst e))"
      if "e \<in> set (activities cm')" for e
      using d(3) [of e] True that by (auto simp: cm')
    show "streams cm' (server cm' k) = Some k \<and> 1 \<le> activityNodes cm' (server cm' k)"
      if "0 < activityCounts cm' k" for k using d(7) [of k] True that by (auto simp: cm')
    show "activityNodes cm' n \<le> MaxNodeActivities" for n using d(6) [of n] by (simp add: cm')
  qed (use d(1,2,5) in \<open>simp_all add: cm'\<close>)
  moreover have "gen_inv cm'"
  proof -
    have "gen_inv (cm\<lparr>streams := (streams cm)(node := Some c), retiring := (retiring cm)(node := None)\<rparr>)"
    proof (rule gen_inv_reinstall [OF gen])
      show "server cm k \<noteq> node" if "k \<in> set (sending cm)" for k
        using g(3) [OF that] True by (metis option.distinct(1))
    qed (use assms(3,4) in simp)
    moreover have "(retiring cm)(node := None) = retiring cm" using True by (simp add: fun_upd_idem_iff)
    ultimately show ?thesis by (simp add: cm')
  qed
  ultimately show ?thesis by (simp add: cm_inv_def)
qed

lemma alloc_cm_inv: "alloc_conn node stream now cm = (c, cm') \<Longrightarrow> cm_inv cm \<Longrightarrow> cm_inv cm'"
proof -
  assume a: "alloc_conn node stream now cm = (c, cm')" and inv: "cm_inv cm"
  then have cm': "cm' = cm\<lparr>conns := (conns cm)(next_conn cm := \<lparr>c_ServerID = node, c_Stream = stream,
      c_LastSeen = now, c_closed = False\<rparr>), next_conn := Suc (next_conn cm)\<rparr>"
    by (auto simp: alloc_conn_def)
  from inv have acc: "acc_inv cm" and gen: "gen_inv cm" by (simp_all add: cm_inv_def)
  note d = acc_invD [OF acc] and g = gen_invD [OF gen]
  have old: "server cm' k = server cm k" if "streams cm (server cm k) = Some k" for k
    using g(1) [OF that] by (simp add: cm')
  have nc: "node_count cm' n = node_count cm n" for n
    unfolding node_count_def using d(3) old by (intro arg_cong [where f = length] filter_cong) (auto simp: cm')
  have no_count: "activityCounts cm k = 0" if "streams cm (server cm k) \<noteq> Some k" for k
    using d(7) [of k] that by auto
  have "acc_inv cm'"
  proof (rule acc_invI)
    show "activityNodes cm' n = int (node_count cm' n) + (if n \<in> set (uncertain cm') then 1 else 0)" for n
      using d(4) [of n] unfolding nc by (simp add: cm')
    show "streams cm' (server cm' (k_connection (fst e))) = Some (k_connection (fst e))"
      if "e \<in> set (activities cm')" for e
    proof -
      from that have "e \<in> set (activities cm)" by (simp add: cm')
      from d(3) [OF this] show ?thesis using old by (simp add: cm')
    qed
    show "streams cm' (server cm' k) = Some k \<and> 1 \<le> activityNodes cm' (server cm' k)"
      if "0 < activityCounts cm' k" for k
    proof -
      from that have "0 < activityCounts cm k" by (simp add: cm')
      from d(7) [OF this] show ?thesis using old [of k] by (simp add: cm')
    qed
    show "activityNodes cm' n \<le> MaxNodeActivities" for n using d(6) [of n] by (simp add: cm')
  qed (use d(1,2,5) in \<open>simp_all add: cm'\<close>)
  moreover have "gen_inv cm'"
  proof -
    have "server cm' k = n \<and> k < next_conn cm'" if "streams cm' n = Some k" for n k
    proof -
      from that have "streams cm n = Some k" by (simp add: cm')
      from g(1) [OF this] show ?thesis by (simp add: cm')
    qed
    moreover have "streams cm' n = Some k \<and> c_closed (conns cm' k) \<and> activityCounts cm' k = 0 \<and>
        (\<forall>e \<in> set (activities cm'). k_connection (fst e) \<noteq> k)" if "retiring cm' n = Some k" for n k
    proof -
      from that have "retiring cm n = Some k" by (simp add: cm')
      from g(2) [OF this] g(1) [of n k] show ?thesis by (simp add: cm')
    qed
    moreover have "streams cm' (server cm' k) = Some k" if "k \<in> set (sending cm')" for k
    proof -
      from that have "k \<in> set (sending cm)" by (simp add: cm')
      from g(3) [OF this] old show ?thesis by (simp add: cm')
    qed
    ultimately show ?thesis unfolding gen_inv_def by blast
  qed
  ultimately show ?thesis by (simp add: cm_inv_def)
qed

lemma heartbeat_cm_inv: "cm_inv cm \<Longrightarrow> cm_inv (UpdateHeartbeat node now cm)"
proof -
  assume inv: "cm_inv cm"
  let ?cm = "UpdateHeartbeat node now cm"
  have f: "activities ?cm = activities cm" "uncertain ?cm = uncertain cm" "activityNodes ?cm = activityNodes cm"
    "activityCounts ?cm = activityCounts cm" "streams ?cm = streams cm" "retiring ?cm = retiring cm"
    "sending ?cm = sending cm" "next_conn ?cm = next_conn cm" "\<And>c. server ?cm c = server cm c"
    "\<And>c. c_closed (conns ?cm c) = c_closed (conns cm c)"
    by (simp_all add: UpdateHeartbeat_def split: option.splits)
  have "acc_inv ?cm" by (rule acc_inv_keys [of cm]) (use inv in \<open>simp_all add: f cm_inv_def\<close>)
  moreover have "gen_inv ?cm" using inv unfolding cm_inv_def gen_inv_def by (simp add: f)
  ultimately show ?thesis by (simp add: cm_inv_def)
qed

lemma clear_uncertain_inv:
  assumes inv: "cm_inv cm" and no: "\<And>c. streams cm node = Some c \<Longrightarrow> activityCounts cm c = 0"
  shows "cm_inv (clearUncertainLocked node cm)"
proof (cases "node \<in> set (uncertain cm)")
  case False
  with inv show ?thesis by (simp add: clearUncertainLocked_def)
next
  case True
  let ?cm = "clearUncertainLocked node cm"
  have cm': "?cm = cm\<lparr>uncertain := filter (\<lambda>x. x \<noteq> node) (uncertain cm),
      activityNodes := (activityNodes cm)(node := activityNodes cm node - 1)\<rparr>"
    using True by (simp add: clearUncertainLocked_def)
  from inv have acc: "acc_inv cm" and gen: "gen_inv cm" by (simp_all add: cm_inv_def)
  note d = acc_invD [OF acc]
  have nc: "node_count ?cm n = node_count cm n" for n by (simp add: node_count_def cm')
  have "acc_inv ?cm"
  proof (rule acc_invI)
    show "activityNodes ?cm n = int (node_count ?cm n) + (if n \<in> set (uncertain ?cm) then 1 else 0)" for n
      using d(4) [of n] True unfolding nc by (auto simp: cm')
    show "activityNodes ?cm n \<le> MaxNodeActivities" for n using d(6) [of n] by (auto simp: cm')
    show "streams ?cm (server ?cm k) = Some k \<and> 1 \<le> activityNodes ?cm (server ?cm k)"
      if "0 < activityCounts ?cm k" for k
      using d(7) [of k] no [of k] that by (auto simp: cm')
    show "length (activities ?cm) + length (uncertain ?cm) \<le> MaxActivities"
      by (rule order_trans [OF _ d(5)]) (simp add: cm')
  qed (use d(1,2,3) in \<open>simp_all add: cm'\<close>)
  moreover have "gen_inv ?cm" using gen unfolding gen_inv_def by (simp add: cm')
  ultimately show ?thesis by (simp add: cm_inv_def)
qed

lemma set_count_inv:
  assumes inv: "cm_inv cm" and live: "liveLocked cm c" and slot: "1 \<le> activityNodes cm (server cm c)"
  shows "cm_inv (cm\<lparr>activityCounts := (activityCounts cm)(c := n)\<rparr>)"
proof -
  let ?cm = "cm\<lparr>activityCounts := (activityCounts cm)(c := n)\<rparr>"
  from inv have acc: "acc_inv cm" and gen: "gen_inv cm" by (simp_all add: cm_inv_def)
  note d = acc_invD [OF acc] and g = gen_invD [OF gen]
  have nc: "node_count ?cm m = node_count cm m" for m by (simp add: node_count_def)
  have "acc_inv ?cm"
  proof (rule acc_invI)
    show "activityNodes ?cm m = int (node_count ?cm m) + (if m \<in> set (uncertain ?cm) then 1 else 0)" for m
      using d(4) [of m] by (simp add: nc)
    show "activityNodes ?cm m \<le> MaxNodeActivities" for m using d(6) [of m] by simp
    show "streams ?cm (server ?cm x) = Some x \<and> 1 \<le> activityNodes ?cm (server ?cm x)"
      if "0 < activityCounts ?cm x" for x
      using d(7) [of x] live slot that by (cases "x = c") (simp_all add: liveLocked_def)
  qed (use d(1,2,3,5) in simp_all)
  moreover have "gen_inv ?cm"
  proof -
    have "k \<noteq> c" if "retiring cm m = Some k" for m k
      using g(2) [OF that] live by (auto simp: liveLocked_def)
    then show ?thesis using gen unfolding gen_inv_def by simp
  qed
  ultimately show ?thesis by (simp add: cm_inv_def)
qed

lemma observe_cm_inv:
  assumes "ObserveActivityCapabilities node stream version count cm = (v, cm')" "cm_inv cm" shows "cm_inv cm'"
proof (cases v)
  case (Inl e)
  with assms show ?thesis
    by (auto simp: ObserveActivityCapabilities_def Let_def split: if_splits option.splits)
next
  case (Inr u)
  let ?cm1 = "if count > 0 \<and> activityNodes cm node = 0
      then cm\<lparr>uncertain := List.insert node (uncertain cm),
              activityNodes := (activityNodes cm)(node := activityNodes cm node + 1)\<rparr> else cm"
  from assms(1) Inr obtain c where c: "GetConn cm node = Some c" and live: "liveLocked cm c"
    and cap: "count > 0 \<Longrightarrow> activityNodes cm node = 0 \<Longrightarrow> length (activities cm) + length (uncertain cm) < MaxActivities"
    and cm': "cm' = (let cm2 = ?cm1\<lparr>activityCounts := (activityCounts ?cm1)(c := count)\<rparr> in
        if count = 0 then clearUncertainLocked node cm2 else cm2)"
    by (auto simp: ObserveActivityCapabilities_def Let_def not_le split: if_splits option.splits)
  from assms(2) have acc: "acc_inv cm" and gen: "gen_inv cm" by (simp_all add: cm_inv_def)
  note d = acc_invD [OF acc] and g = gen_invD [OF gen]
  from c have st: "streams cm node = Some c" by (auto simp: GetConn_def split: option.splits if_splits)
  then have node: "server cm c = node" using g(1) by simp
  have inv1: "cm_inv ?cm1"
  proof (cases "count > 0 \<and> activityNodes cm node = 0")
    case True
    with d(4) [of node] have new: "node \<notin> set (uncertain cm)" by (auto split: if_splits)
    show ?thesis
      using add_uncertain_inv [OF assms(2) new] True cap new by (simp add: MaxNodeActivities_def)
  qed (use assms(2) in auto)
  have f: "conns ?cm1 = conns cm" "streams ?cm1 = streams cm" by simp_all
  show ?thesis
  proof (cases "count = 0")
    case True
    with cm' have "cm' = clearUncertainLocked node (cm\<lparr>activityCounts := (activityCounts cm)(c := 0)\<rparr>)"
      by (simp add: Let_def)
    then show ?thesis using clear_uncertain_inv [OF reset_count_inv [OF assms(2), of c], of node] st by simp
  next
    case False
    have slot: "1 \<le> activityNodes ?cm1 (server ?cm1 c)"
    proof -
      have "0 \<le> activityNodes cm node" using d(4) [of node] by simp
      then show ?thesis using False by (simp add: node)
    qed
    have live1: "liveLocked ?cm1 c" using live by (simp add: liveLocked_def)
    from False cm' have "cm' = ?cm1\<lparr>activityCounts := (activityCounts ?cm1)(c := count)\<rparr>"
      by (simp only: Let_def if_False)
    then show ?thesis using set_count_inv [OF inv1 live1 slot, of count] by (simp only:)
  qed
qed

lemma maintenance_cm_inv: "cm_inv (cm\<lparr>maintenance := m\<rparr>) = cm_inv cm"
  by (simp add: cm_inv_def acc_inv_def gen_inv_def node_count_def)

lemma reserve_cm_inv:
  assumes "reserve_commit c i manual cm = (v, cm')" "cm_inv cm" shows "cm_inv cm'"
proof (cases v)
  case (Inl e)
  with assms show ?thesis by (auto simp: reserve_commit_def Let_def split: if_splits option.splits)
next
  case (Inr u)
  let ?cm1 = "if manual then clearAbandonedActivitiesLocked c cm else cm"
  from assms(1) Inr have live: "liveLocked cm c" and idle: "activityIdleLocked c manual cm = None"
    and cm': "cm' = ?cm1\<lparr>maintenance := (maintenance ?cm1)(server cm c := i)\<rparr>"
    by (auto simp: reserve_commit_def Let_def split: if_splits option.splits)
  from idle have zero: "activityCounts cm c = 0" by (auto simp: activityIdleLocked_def split: if_splits)
  have inv1: "cm_inv ?cm1"
  proof (cases manual)
    case True
    have "cm_inv (clearAbandonedActivitiesLocked c cm)"
      unfolding clearAbandonedActivitiesLocked_def
      by (rule clear_uncertain_inv [OF fold_remove_cm_inv [OF assms(2)]])
        (use live zero in \<open>simp add: liveLocked_def\<close>)
    with True show ?thesis by simp
  qed (use assms(2) in simp)
  then show ?thesis unfolding cm' maintenance_cm_inv .
qed

lemma sending_cm_inv:
  "cm_inv cm \<Longrightarrow> liveLocked cm c \<Longrightarrow> cm_inv (cm\<lparr>sending := c # sending cm\<rparr>)"
  "cm_inv cm \<Longrightarrow> cm_inv (cm\<lparr>sending := remove1 c (sending cm)\<rparr>)"
proof -
  have acc: "acc_inv (cm\<lparr>sending := xs\<rparr>) = acc_inv cm" for xs
    by (simp add: acc_inv_def node_count_def)
  show "cm_inv cm \<Longrightarrow> liveLocked cm c \<Longrightarrow> cm_inv (cm\<lparr>sending := c # sending cm\<rparr>)"
    by (simp add: cm_inv_def acc gen_inv_def liveLocked_def)
  show "cm_inv cm \<Longrightarrow> cm_inv (cm\<lparr>sending := remove1 c (sending cm)\<rparr>)"
    by (auto simp: cm_inv_def acc gen_inv_def dest: notin_set_remove1 set_remove1_subset [THEN subsetD])
qed

lemma prepare_live: "prepareActivitySend c msg cm = (Inr u, cm') \<Longrightarrow> liveLocked cm' c"
  by (auto simp: prepareActivitySend_def Let_def liveLocked_def addActivityLocked_def
      split: if_splits prod.splits sum.splits)

lemma send_cm_inv:
  assumes "send_prepare (Some c) msg ctxDone chk cm = (v, cm')" "cm_inv cm"
    and "\<And>r cm1. chk cm = (r, cm1) \<Longrightarrow> cm_inv cm1"
  shows "cm_inv cm'"
  using assms by (auto simp: send_prepare_def split: if_splits prod.splits sum.splits
      intro!: sending_cm_inv intro: prepare_live prepare_cm_inv)

lemma sent_cm_inv: "cm_inv cm \<Longrightarrow> cm_inv (send_finish c msg ok cm)"
  by (auto simp: send_finish_def Let_def abandonMessage_def abandon_cm_inv split: prod.splits
      intro!: sending_cm_inv(2))

lemma cm_step_inv: "cm_step cm cm' \<Longrightarrow> cm_inv cm \<Longrightarrow> cm_inv cm'"
proof (induction rule: cm_step.induct)
  case (s_send c cm msg ctxDone r v cm')
  then show ?case using send_cm_inv [of c msg ctxDone "\<lambda>cm. (r, cm)" cm v cm'] by simp
next
  case (s_send_activity c cm key msg ctxDone v cm')
  then show ?case using send_cm_inv [of c msg ctxDone "Activity_claim key msg" cm v cm'] claim_cm_inv by blast
next
  case (s_set_maintenance node i cm cm')
  then show ?case by (auto simp: SetMaintenance_def maintenance_cm_inv)
next
  case (s_release node i cm cm')
  then show ?case by (auto simp: ReleaseMaintenance_def maintenance_cm_inv split: if_splits)
next
  case s_alloc
  from alloc_cm_inv [OF s_alloc] show ?case .
next
  case s_try
  from try_cm_inv [OF s_try(3,4,1,2)] show ?case .
next
  case s_retire
  from retire_cm_inv [OF s_retire(4,5,1,2,3)] show ?case .
next
  case s_detach
  from detach_cm_inv [OF s_detach] show ?case .
next
  case s_finish
  from finish_cm_inv [OF s_finish(3,1)] s_finish(2) show ?case by simp
next
  case s_close
  from close_cm_inv [OF s_close(2)] s_close(1) show ?case by metis
next
  case s_heartbeat
  from heartbeat_cm_inv [OF s_heartbeat(2)] s_heartbeat(1) show ?case by metis
next
  case s_begin
  from begin_cm_inv [OF s_begin] show ?case .
next
  case s_abandon
  from abandon_cm_inv [OF s_abandon(2)] s_abandon(1) show ?case by metis
next
  case s_complete
  from complete_cm_inv [OF s_complete] show ?case .
next
  case s_observe
  from observe_cm_inv [OF s_observe] show ?case .
next
  case s_sent
  from sent_cm_inv [OF s_sent(3)] s_sent(2) show ?case by metis
next
  case s_reserve
  from reserve_cm_inv [OF s_reserve] show ?case .
qed

lemma new_conn_manager_inv: "cm_inv new_conn_manager"
  by (simp add: cm_inv_def acc_inv_def gen_inv_def new_conn_manager_def node_count_def MaxNodeActivities_def)

lemma reachable_inv: "cm_step\<^sup>*\<^sup>* new_conn_manager cm \<Longrightarrow> cm_inv cm"
  by (induction rule: rtranclp_induct) (auto intro: new_conn_manager_inv cm_step_inv)

section \<open>Maintenance keeps a server quiet\<close>

definition quiet :: "string \<Rightarrow> ConnManager \<Rightarrow> bool" where
  "quiet node cm \<longleftrightarrow> (\<forall>k \<in> fst ` set (activities cm). server cm (k_connection k) \<noteq> node)"

lemma quiet_count: "quiet node cm \<longleftrightarrow> node_count cm node = 0"
  by (auto simp: quiet_def node_count_def filter_empty_conv)

lemma quiet_subset:
  assumes "quiet node cm" "fst ` set (activities cm') \<subseteq> fst ` set (activities cm)"
    and "\<And>c. server cm' c = server cm c"
  shows "quiet node cm'"
  using assms(1,2) unfolding quiet_def assms(3) by blast

lemma quiet_update [simp]:
  "quiet node (cm\<lparr>sending := x\<rparr>) = quiet node cm" "quiet node (cm\<lparr>maintenance := m\<rparr>) = quiet node cm"
  by (simp_all add: quiet_def)

lemma quiet_remove: "quiet node cm \<Longrightarrow> quiet node (removeActivityLocked key cm)"
  by (erule quiet_subset) (auto simp: remove_activities intro: rev_image_eqI)

lemma quiet_fold_remove: "quiet node cm \<Longrightarrow> quiet node (fold removeActivityLocked ks cm)"
  by (induction ks arbitrary: cm) (simp_all add: quiet_remove)

lemma quiet_set_activity: "quiet node cm \<Longrightarrow> quiet node (set_activity key f cm)"
  by (erule quiet_subset) (metis set_activity_keys set_map order_refl, simp)

lemma quiet_add:
  "\<lbrakk>quiet node cm; addActivityLocked key cm = (r, cm'); server cm (k_connection key) \<noteq> node\<rbrakk> \<Longrightarrow> quiet node cm'"
  unfolding addActivityLocked_def Let_def quiet_def by (force split: if_splits)

lemma observe_frame:
  "activities (snd (ObserveActivityCapabilities n stream v k cm)) = activities cm"
  "conns (snd (ObserveActivityCapabilities n stream v k cm)) = conns cm"
  by (simp_all add: ObserveActivityCapabilities_def clearUncertainLocked_def Let_def split: option.splits)

lemma quiet_abandon: "quiet node cm \<Longrightarrow> quiet node (abandonActivity key cm)"
  by (simp add: abandonActivity_def quiet_remove quiet_set_activity split: option.splits)

lemma quiet_prepare:
  assumes "prepareActivitySend c msg cm = (r, cm')" "quiet node cm" "maintenance cm node \<noteq> []"
  shows "quiet node cm'"
proof -
  obtain kind i where m: "messageActivity msg = (kind, i)" by fastforce
  let ?key = "\<lparr>k_connection = c, k_id = i, k_kind = kind\<rparr>"
  have adm: "kind \<noteq> ActivityOther [] \<Longrightarrow> is_admission msg" by (simp add: is_admission_def m)
  have "server cm c \<noteq> node" if "\<not> (is_admission msg \<and> maintenance cm (server cm c) \<noteq> [] \<and> activity cm ?key = None)"
    "kind \<noteq> ActivityOther []" "activity cm ?key = None"
    using that adm assms(3) by auto
  then show ?thesis
    using assms(1,2) quiet_add [of node cm ?key] quiet_set_activity
    by (auto simp: prepareActivitySend_def m Let_def split: if_splits prod.splits sum.splits)
qed

lemma quiet_send:
  assumes "send_prepare (Some c) msg ctxDone chk cm = (v, cm')" "quiet node cm" "maintenance cm node \<noteq> []"
    and "\<And>r cm1. chk cm = (r, cm1) \<Longrightarrow> quiet node cm1 \<and> maintenance cm1 = maintenance cm"
  shows "quiet node cm'"
proof -
  obtain r cm1 where c: "chk cm = (r, cm1)" by fastforce
  obtain r2 cm2 where p: "prepareActivitySend c msg cm1 = (r2, cm2)" by fastforce
  have q1: "quiet node cm1" "maintenance cm1 node \<noteq> []" using assms(3,4) c by auto
  from quiet_prepare [OF p q1] have q2: "quiet node cm2" .
  then have "quiet node (cm2\<lparr>sending := x\<rparr>)" for x by (simp add: quiet_def)
  with assms(1,2) c p q1 q2 show ?thesis
    by (auto simp: send_prepare_def split: if_splits sum.splits)
qed

lemma alloc_server:
  "alloc_conn node stream now cm = (c, cm') \<Longrightarrow> k < next_conn cm \<Longrightarrow> server cm' k = server cm k"
  by (auto simp: alloc_conn_def)

lemma quiet_step:
  assumes "cm_step cm cm'" "cm_inv cm" "maintenance cm node \<noteq> []" "quiet node cm"
  shows "quiet node cm'"
  using assms
proof (induction rule: cm_step.induct)
  case (s_alloc n stream now cm c cm')
  have "k_connection k < next_conn cm" if "k \<in> fst ` set (activities cm)" for k
    using that s_alloc(2) by (auto simp: cm_inv_def dest!: acc_invD(3) gen_invD(1))
  moreover have "activities cm' = activities cm" using s_alloc(1) by (auto simp: alloc_conn_def)
  ultimately show ?case using s_alloc(4) alloc_server [OF s_alloc(1)] by (auto simp: quiet_def)
next
  case (s_begin conn i kind cm v cm')
  then show ?case
    by (auto simp: BeginActivity_def Let_def split: option.splits if_splits prod.splits sum.splits
        elim: quiet_add)
next
  case (s_send c cm msg ctxDone r v cm')
  show ?case by (rule quiet_send [OF s_send(2,5,4)]) (use s_send(5) in auto)
next
  case (s_send_activity c cm key msg ctxDone v cm')
  have "quiet node cm1 \<and> maintenance cm1 = maintenance cm" if "Activity_claim key msg cm = (r, cm1)" for r cm1
    using that s_send_activity(6) by (auto simp: Activity_claim_def quiet_set_activity split: if_splits option.splits)
  from quiet_send [OF s_send_activity(3,6,5) this] show ?case .
next
  case (s_sent c cm msg ok cm')
  then have "quiet node (if ok then cm else abandonMessage c msg cm)"
    by (simp add: abandonMessage_def quiet_abandon split: prod.splits)
  then show ?case unfolding s_sent(2) [symmetric] by (simp add: send_finish_def Let_def)
next
  case (s_observe n stream version count cm v cm')
  show ?case
    by (rule quiet_subset [of node cm])
      (use s_observe observe_frame [of n stream version count cm] in simp_all)
next
  case (s_reserve c i manual cm v cm')
  have "quiet node (clearAbandonedActivitiesLocked c cm)"
    by (rule quiet_subset [OF quiet_fold_remove [OF s_reserve(4)]])
      (auto simp: clearAbandonedActivitiesLocked_def clearUncertainLocked_def)
  with s_reserve show ?case
    by (auto simp: reserve_commit_def Let_def split: if_splits option.splits)
next
  case (s_detach n c cm v cm')
  show ?case
    by (rule quiet_subset [of node cm]) (use s_detach in \<open>auto simp: detachIfCurrent_def Let_def end_activities_left split: if_splits\<close>)
next
  case (s_complete n stream i kind cm v cm')
  then show ?case
    by (auto simp: CompleteActivity_def Let_def quiet_remove split: option.splits if_splits)
next
  case (s_abandon key cm cm')
  then show ?case using quiet_abandon by metis
next
  case (s_try c cm n v cm')
  show ?case
    by (rule quiet_subset [of node cm]) (use s_try in \<open>auto simp: Register_try_def split: option.splits\<close>)
next
  case (s_retire c cm n r v cm')
  show ?case
    by (rule quiet_subset [of node cm]) (use s_retire in \<open>auto simp: Register_retire_def Let_def split: if_splits\<close>)
next
  case (s_finish c cm cm')
  show ?case
    by (rule quiet_subset [of node cm]) (use s_finish in \<open>auto simp: finishRetirement_def Let_def split: if_splits\<close>)
next
  case (s_close c cm cm')
  show ?case
    by (rule quiet_subset [of node cm]) (use s_close in \<open>auto\<close>)
next
  case (s_heartbeat n now cm cm')
  show ?case
    by (rule quiet_subset [of node cm]) (use s_heartbeat in \<open>auto simp: UpdateHeartbeat_def split: option.splits\<close>)
next
  case (s_set_maintenance n i cm cm')
  show ?case
    by (rule quiet_subset [of node cm]) (use s_set_maintenance in \<open>auto simp: SetMaintenance_def\<close>)
next
  case (s_release n i cm cm')
  show ?case
    by (rule quiet_subset [of node cm]) (use s_release in \<open>auto simp: ReleaseMaintenance_def split: if_splits\<close>)
qed

lemma reserve_quiet:
  assumes "reserve_commit c i manual cm = (Inr u, cm')" "cm_inv cm"
  shows "quiet (server cm c) cm' \<and> server cm c \<notin> set (uncertain cm') \<and> maintenance cm' (server cm c) = i"
proof -
  let ?cm1 = "if manual then clearAbandonedActivitiesLocked c cm else cm" and ?node = "server cm c"
  from assms(1) have live: "liveLocked cm c" and idle: "activityIdleLocked c manual cm = None"
    and cm': "cm' = ?cm1\<lparr>maintenance := (maintenance ?cm1)(?node := i)\<rparr>"
    by (auto simp: reserve_commit_def Let_def split: if_splits option.splits)
  from assms(2) have acc: "acc_inv cm" by (simp add: cm_inv_def)
  have here: "k_connection (fst e) = c" if "e \<in> set (activities cm)" "server cm (k_connection (fst e)) = ?node" for e
    using acc_invD(3) [OF acc that(1)] that(2) live by (simp add: liveLocked_def)
  have "quiet ?node ?cm1 \<and> ?node \<notin> set (uncertain ?cm1)"
  proof (cases manual)
    case False
    with idle show ?thesis by (auto simp: activityIdleLocked_def quiet_def split: if_splits)
  next
    case True
    have ab: "abandoned (snd e)" if "e \<in> set (activities cm)" "server cm (k_connection (fst e)) = ?node" for e
      using idle True that by (auto simp: activityIdleLocked_def split: if_splits)
    have left: "activities (clearAbandonedActivitiesLocked c cm) = filter (\<lambda>e. fst e \<notin> set (map fst
        (filter (\<lambda>e. k_connection (fst e) = c \<and> abandoned (snd e)) (activities cm)))) (activities cm)"
      by (simp add: clearAbandonedActivitiesLocked_def clearUncertainLocked_def fold_remove_activities)
    have "quiet ?node (clearAbandonedActivitiesLocked c cm)"
      unfolding quiet_def
    proof
      fix k assume "k \<in> fst ` set (activities (clearAbandonedActivitiesLocked c cm))"
      then obtain e where e: "e \<in> set (activities cm)" "k = fst e"
        "fst e \<notin> fst ` set (filter (\<lambda>e. k_connection (fst e) = c \<and> abandoned (snd e)) (activities cm))"
        unfolding left by auto
      then have "server cm (k_connection k) \<noteq> ?node" using here [of e] ab [of e] by auto
      then show "server (clearAbandonedActivitiesLocked c cm) (k_connection k) \<noteq> ?node"
        by (simp add: clearAbandonedActivitiesLocked_def clearUncertainLocked_def)
    qed
    with True show ?thesis by (simp add: clearAbandonedActivitiesLocked_def clearUncertainLocked_def)
  qed
  then show ?thesis unfolding cm' by (simp add: quiet_def)
qed

section \<open>Registration ends\<close>

lemma detach_result:
  assumes "streams cm node = Some p"
  shows "retiring (snd (detachIfCurrent node p cm)) node = Some p"
    and "streams (snd (detachIfCurrent node p cm)) = streams cm"
    and "c_closed (conns (snd (detachIfCurrent node p cm)) p)"
    and "next_conn (snd (detachIfCurrent node p cm)) = next_conn cm"
    and "\<And>k. server (snd (detachIfCurrent node p cm)) k = server cm k"
  using assms by (simp_all add: detachIfCurrent_def Let_def)

lemma register_retiring:
  assumes "cm_inv cm" "retiring cm node = Some r"
  shows "Register_loop (Suc k) node c cm = Some (c, cm\<lparr>streams := (streams cm)(node \<mapsto> c), retiring := (retiring cm)(node := None)\<rparr>)"
proof -
  from assms have "streams cm node = Some r" by (auto simp: cm_inv_def dest: gen_invD(2))
  with assms(2) show ?thesis by (simp add: Register_try_def Register_retire_def Let_def)
qed

section \<open>Properties\<close>

text \<open>C7. In every reachable state of the registry the activity accounting is exact and bounded: each
  server's counter is its number of admitted activities plus one if work of a lost connection may
  still run, no server exceeds 128, all together stay within 4096, and every admitted activity
  belongs to the currently installed generation of its server.\<close>

theorem activity_accounting:
  assumes "cm_step\<^sup>*\<^sup>* new_conn_manager cm"
  shows "activityNodes cm node = int (node_count cm node) + (if node \<in> set (uncertain cm) then 1 else 0) \<and>
     0 \<le> activityNodes cm node \<and> activityNodes cm node \<le> MaxNodeActivities \<and>
     length (activities cm) + length (uncertain cm) \<le> MaxActivities \<and>
     (\<forall>e \<in> set (activities cm). streams cm (server cm (k_connection (fst e))) = Some (k_connection (fst e)))"
proof -
  from reachable_inv [OF assms] have "acc_inv cm" by (simp add: cm_inv_def)
  note d = acc_invD [OF this]
  from d(4) [of node] d(5) d(6) [of node] d(3) show ?thesis by simp
qed

text \<open>A reachable registry: server \<open>n1\<close> is connected and one file listing is admitted.\<close>

definition example_connected :: ConnManager where
  "example_connected = snd (Register_try ''n1'' 0 (snd (alloc_conn ''n1'' 7 0 new_conn_manager)))"

definition example_busy :: ConnManager where
  "example_busy = snd (BeginActivity (Some 0) ''r1'' ActivityList example_connected)"

lemma example_connected_reachable: "cm_step\<^sup>*\<^sup>* new_conn_manager example_connected"
proof -
  let ?a = "snd (alloc_conn ''n1'' 7 0 new_conn_manager)"
  have "cm_step new_conn_manager ?a" by (rule s_alloc [where c = 0]) (simp add: alloc_conn_def new_conn_manager_def)
  moreover have "cm_step ?a example_connected"
    unfolding example_connected_def
    by (rule s_try [where c = 0 and node = "''n1''" and v = "fst (Register_try ''n1'' 0 ?a)"])
      (simp_all add: alloc_conn_def new_conn_manager_def)
  ultimately show ?thesis by (meson rtranclp.rtrancl_into_rtrancl rtranclp.rtrancl_refl)
qed

lemma example_busy_reachable: "cm_step\<^sup>*\<^sup>* new_conn_manager example_busy"
  by (rule rtranclp.rtrancl_into_rtrancl [OF example_connected_reachable],
      rule s_begin [where v = "fst (BeginActivity (Some 0) ''r1'' ActivityList example_connected)"])
    (simp add: example_busy_def)

theorem activity_accounting_witness:
  "activityNodes example_busy ''n1'' = 1 \<and> 1 \<le> MaxNodeActivities"
proof -
  have "node_count example_busy ''n1'' = 1" "''n1'' \<notin> set (uncertain example_busy)"
    by (simp_all add: example_busy_def example_connected_def alloc_conn_def Register_try_def new_conn_manager_def
        BeginActivity_def validActivity_def liveLocked_def activity_def addActivityLocked_def node_count_def
        MaxNodeActivities_def MaxActivities_def Let_def)
  with activity_accounting [OF example_busy_reachable, of "''n1''"] show ?thesis by simp
qed

text \<open>C8. Once maintenance of a server is reserved, no file, upload, log or application activity of
  that server is admitted, and none is there, until the reservation is set to empty or released,
  whatever the other callers do in between; the reservation itself is only granted when the
  server is idle.\<close>

theorem maintenance_quiescent:
  assumes "cm_step\<^sup>*\<^sup>* new_conn_manager cm0" "reserve_commit c i manual cm0 = (Inr u, cm1)"
    and "(\<lambda>x y. cm_step x y \<and> maintenance x (server cm0 c) \<noteq> [])\<^sup>*\<^sup>* cm1 cm2"
  shows "node_count cm2 (server cm0 c) = 0"
proof -
  note inv0 = reachable_inv [OF assms(1)]
  have start: "cm_inv cm1 \<and> quiet (server cm0 c) cm1"
    using reserve_quiet [OF assms(2) inv0] reserve_cm_inv [OF assms(2) inv0] by blast
  from assms(3) have "cm_inv cm2 \<and> quiet (server cm0 c) cm2"
    by (induction rule: rtranclp_induct) (use start cm_step_inv quiet_step in blast)+
  then show ?thesis by (simp add: quiet_count)
qed

theorem maintenance_quiescent_witness:
  "node_count (snd (reserve_commit 0 ''u1'' False example_connected)) ''n1'' = 0"
proof -
  have e: "server example_connected 0 = ''n1''"
    by (simp add: example_connected_def alloc_conn_def Register_try_def new_conn_manager_def)
  have "fst (reserve_commit 0 ''u1'' False example_connected) = Inr ()"
    by (simp add: reserve_commit_def example_connected_def alloc_conn_def Register_try_def new_conn_manager_def
        liveLocked_def activityIdleLocked_def)
  then have r: "reserve_commit 0 ''u1'' False example_connected =
      (Inr (), snd (reserve_commit 0 ''u1'' False example_connected))" by (metis prod.collapse)
  from maintenance_quiescent [OF example_connected_reachable r rtranclp.rtrancl_refl] show ?thesis by (simp add: e)
qed

text \<open>C29. A generation is replaced only after every send it admitted has finished: in every reachable
  state a send in flight is on the installed generation of its server, so two generations of one
  server never send at the same time, and a connection handed to callers is open.\<close>

theorem no_send_on_retired_generation:
  assumes "cm_step\<^sup>*\<^sup>* new_conn_manager cm" "c1 \<in> set (sending cm)" "c2 \<in> set (sending cm)"
    and "server cm c1 = server cm c2"
  shows "streams cm (server cm c1) = Some c1 \<and> c1 = c2 \<and>
     (\<forall>c. GetConn cm (server cm c1) = Some c \<longrightarrow> c = c1 \<and> \<not> c_closed (conns cm c) \<and> retiring cm (server cm c1) = None)"
proof -
  from reachable_inv [OF assms(1)] have g: "gen_inv cm" by (simp add: cm_inv_def)
  note d = gen_invD [OF g]
  have st: "streams cm (server cm c1) = Some c1" by (rule d(3) [OF assms(2)])
  have "streams cm (server cm c1) = Some c2" unfolding assms(4) by (rule d(3) [OF assms(3)])
  with st have "c1 = c2" by simp
  moreover have "c = c1 \<and> \<not> c_closed (conns cm c) \<and> retiring cm (server cm c1) = None"
    if "GetConn cm (server cm c1) = Some c" for c
  proof -
    from that st have "c = c1" "\<not> c_closed (conns cm c1)" by (auto simp: GetConn_def split: if_splits)
    moreover have "retiring cm (server cm c1) = None"
      using d(2) [of "server cm c1"] st \<open>\<not> c_closed (conns cm c1)\<close>
      by (cases "retiring cm (server cm c1)") auto
    ultimately show ?thesis by simp
  qed
  ultimately show ?thesis using st by blast
qed

theorem no_send_on_retired_generation_witness:
  "streams (snd (send_prepare (Some 0) OtherHubMessage False (\<lambda>cm. (Inr (), cm)) example_connected)) ''n1'' = Some 0"
proof -
  let ?cm = "snd (send_prepare (Some 0) OtherHubMessage False (\<lambda>cm. (Inr (), cm)) example_connected)"
  have f: "0 \<notin> set (sending example_connected)" "0 \<in> set (sending ?cm)" "server ?cm 0 = ''n1''"
    by (simp_all add: send_prepare_def prepareActivitySend_def liveLocked_def is_admission_def
        example_connected_def alloc_conn_def Register_try_def new_conn_manager_def)
  have "cm_step\<^sup>*\<^sup>* new_conn_manager ?cm"
    by (rule rtranclp.rtrancl_into_rtrancl [OF example_connected_reachable],
        rule s_send [where v = "fst (send_prepare (Some 0) OtherHubMessage False (\<lambda>cm. (Inr (), cm)) example_connected)",
          OF f(1)]) simp
  from no_send_on_retired_generation [OF this f(2) f(2) refl] show ?thesis by (simp add: f(3))
qed

text \<open>Registering a stream ends, in at most two rounds when no other caller intervenes, with a
  fresh open connection installed for the server and nothing retiring there; a generation that was
  installed before is closed.\<close>

theorem Register_installs:
  assumes "cm_inv cm" "2 \<le> fuel"
  shows "\<exists>c cm'. Register fuel node stream now cm = Some (c, cm') \<and> c = next_conn cm \<and>
     streams cm' node = Some c \<and> retiring cm' node = None \<and> GetConn cm' node = Some c \<and>
     (\<forall>p. streams cm node = Some p \<longrightarrow> p \<noteq> c \<and> c_closed (conns cm' p))"
proof -
  obtain cm1 where a: "alloc_conn node stream now cm = (next_conn cm, cm1)" by (simp add: alloc_conn_def)
  let ?c = "next_conn cm"
  have inv1: "cm_inv cm1" using alloc_cm_inv [OF a assms(1)] .
  have f1: "streams cm1 = streams cm" "retiring cm1 = retiring cm" "c_closed (conns cm1 ?c) = False"
    "\<And>k. k < ?c \<Longrightarrow> conns cm1 k = conns cm k"
    using a by (auto simp: alloc_conn_def)
  have old: "p < ?c" if "streams cm node = Some p" for p
    using assms(1) that by (auto simp: cm_inv_def dest: gen_invD(1))
  define k where "k = fuel - 2"
  have fuel: "fuel = Suc (Suc k)" using assms(2) by (simp add: k_def)
  have R: "Register fuel node stream now cm = Register_loop fuel node ?c cm1" by (simp add: Register_def a)
  have done_ok: ?thesis
    if L: "Register_loop fuel node ?c cm1 = Some (?c, cm2)" and st: "streams cm2 node = Some ?c"
      and rt: "retiring cm2 node = None" and op: "\<not> c_closed (conns cm2 ?c)"
      and cl: "\<And>p. streams cm node = Some p \<Longrightarrow> c_closed (conns cm2 p)" for cm2
    using L st rt op cl old by (auto simp: R GetConn_def simp del: Register_loop.simps)
  show ?thesis
  proof (cases "retiring cm node")
    case (Some r)
    then have r1: "retiring cm1 node = Some r" by (simp add: f1)
    from Some assms(1) have r: "streams cm node = Some r" "c_closed (conns cm r)"
      using gen_invD(2) [of cm node r] by (simp_all add: cm_inv_def)
    show ?thesis
      by (rule done_ok [OF register_retiring [OF inv1 r1, of "Suc k" ?c, folded fuel]])
        (use r f1 old in auto)
  next
    case None
    note none = this
    show ?thesis
    proof (cases "streams cm node")
      case None
      with none have "Register_loop fuel node ?c cm1 = Some (?c, cm1\<lparr>streams := (streams cm1)(node \<mapsto> ?c)\<rparr>)"
        by (simp add: fuel Register_try_def f1)
      then show ?thesis by (rule done_ok) (use None none f1 in auto)
    next
      case (Some p)
      let ?d = "snd (detachIfCurrent node p cm1)"
      have sp: "streams cm1 node = Some p" using Some by (simp add: f1)
      note r = detach_result [OF sp]
      have invd: "cm_inv ?d" using detach_cm_inv [of node p cm1 "fst (detachIfCurrent node p cm1)" ?d] inv1 by simp
      have "Register_try node ?c cm1 = (SawPrevious p, cm1)" using none sp by (simp add: Register_try_def f1)
      then have step: "Register_loop fuel node ?c cm1 = Register_loop (Suc k) node ?c ?d" by (simp add: fuel)
      have op: "\<not> c_closed (conns ?d ?c)"
        using sp old [OF Some] f1(3) by (simp add: detachIfCurrent_def Let_def)
      show ?thesis
        by (rule done_ok [OF step [unfolded register_retiring [OF invd r(1), of k ?c]]])
          (use op r(3) Some in simp_all)
    qed
  qed
qed

theorem Register_installs_witness:
  "\<exists>c cm'. Register 2 ''n1'' 8 0 example_connected = Some (c, cm') \<and> streams cm' ''n1'' = Some c \<and>
     c_closed (conns cm' 0)"
proof -
  have "streams example_connected ''n1'' = Some 0"
    by (simp add: example_connected_def alloc_conn_def Register_try_def new_conn_manager_def)
  with Register_installs [OF reachable_inv [OF example_connected_reachable], of 2 "''n1''" 8 0] show ?thesis by blast
qed

end
