(* ===== verification/Budget.thy ===== *)
theory Budget
  imports Veyport_Prelude
begin

text \<open>
  The agent's session budget (\<open>agent/internal/sessionlimit/budget.go\<close>): one mutex guards the
  number of terminal and execution slots in use, the number of file operations and log tails in
  flight, and the exclusive maintenance lease. Each method body is one critical section, so each
  is one function on the record. The locale \<open>slot_budget\<close> is the contract the clients of the
  budget (the execution manager) rely on.
\<close>

section \<open>State\<close>

text \<open>The observer is the registered \<open>activityObserver\<close> (its address); \<open>b_emitted\<close> is what the
  \<open>emit\<close> callbacks were given, oldest first. \<open>b_leases\<close> are the release closures whose
  \<open>sync.Once\<close> has not fired yet.\<close>

record Budget =
  b_used :: go_int
  b_maximum :: go_int
  b_maintenance :: bool
  b_activities :: "32 word"
  b_observer :: "nat option"
  b_leases :: "nat list"
  b_next :: nat
  b_emitted :: "(nat \<times> 32 word) list"

definition MaxActivities :: "32 word" where
  "MaxActivities = 128"

definition New_budget :: "go_int \<Rightarrow> Budget" where
  "New_budget maximum = \<lparr>b_used = 0, b_maximum = maximum, b_maintenance = False, b_activities = 0,
     b_observer = None, b_leases = [], b_next = 0, b_emitted = []\<rparr>"

section \<open>Operations\<close>

definition notifyActivity :: "Budget \<Rightarrow> Budget" where
  "notifyActivity b = (case b_observer b of None \<Rightarrow> b
     | Some a \<Rightarrow> b\<lparr>b_emitted := b_emitted b @ [(a, b_activities b)]\<rparr>)"

definition AcquireActivity :: "Budget \<Rightarrow> nat option \<times> Budget" where
  "AcquireActivity b =
     (if b_maintenance b \<or> MaxActivities \<le> b_activities b then (None, b)
      else (Some (b_next b),
        notifyActivity (b\<lparr>b_activities := b_activities b + 1, b_leases := b_next b # b_leases b,
                          b_next := b_next b + 1\<rparr>)))"

text \<open>The closure \<open>AcquireActivity\<close> returned: its \<open>sync.Once\<close> makes every call after the first a no-op.\<close>

definition release_activity :: "nat \<Rightarrow> Budget \<Rightarrow> Budget" where
  "release_activity l b =
     (if l \<in> set (b_leases b)
      then notifyActivity (b\<lparr>b_activities := b_activities b - 1, b_leases := remove1 l (b_leases b)\<rparr>)
      else b)"

definition ActivityCount :: "Budget \<Rightarrow> 32 word" where
  "ActivityCount b = b_activities b"

definition ObserveActivities :: "Budget \<Rightarrow> nat \<times> Budget" where
  "ObserveActivities b =
     (b_next b, notifyActivity (b\<lparr>b_observer := Some (b_next b), b_next := b_next b + 1\<rparr>))"

definition stop_observing :: "nat \<Rightarrow> Budget \<Rightarrow> Budget" where
  "stop_observing a b = (if b_observer b = Some a then b\<lparr>b_observer := None\<rparr> else b)"

definition Acquire :: "Budget \<Rightarrow> bool \<times> Budget" where
  "Acquire b = (if b_maintenance b \<or> b_maximum b \<le> b_used b then (False, b)
                else (True, b\<lparr>b_used := b_used b + 1\<rparr>))"

definition TryMaintenance :: "Budget \<Rightarrow> bool \<times> Budget" where
  "TryMaintenance b =
     (if b_maintenance b \<or> b_used b \<noteq> 0 \<or> b_activities b \<noteq> 0 then (False, b)
      else (True, b\<lparr>b_maintenance := True\<rparr>))"

definition EndMaintenance :: "Budget \<Rightarrow> Budget" where
  "EndMaintenance b = b\<lparr>b_maintenance := False\<rparr>"

definition Release :: "Budget \<Rightarrow> Budget" where
  "Release b = (if 0 < b_used b then b\<lparr>b_used := b_used b - 1\<rparr> else b)"

section \<open>Invariant\<close>

text \<open>The counter of activities is the number of open leases (so it never wraps below zero), it stays
  within its bound, slots stay within the maximum, and maintenance is exclusive.\<close>

definition budget_inv :: "Budget \<Rightarrow> bool" where
  "budget_inv b \<longleftrightarrow>
     distinct (b_leases b) \<and> (\<forall>l \<in> set (b_leases b). l < b_next b) \<and>
     unat (b_activities b) = length (b_leases b) \<and> length (b_leases b) \<le> unat MaxActivities \<and>
     0 \<le> b_used b \<and> (0 \<le> b_maximum b \<longrightarrow> b_used b \<le> b_maximum b) \<and>
     (b_maintenance b \<longrightarrow> b_used b = 0 \<and> b_activities b = 0)"

text \<open>The calls of the budget's users in the order in which they get the mutex.\<close>

datatype budget_op = OpAcquire | OpRelease | OpAcquireActivity | OpReleaseActivity nat | OpObserve
  | OpStopObserving nat | OpTryMaintenance | OpEndMaintenance

fun budget_step :: "budget_op \<Rightarrow> Budget \<Rightarrow> bool \<times> Budget" where
  "budget_step OpAcquire b = Acquire b"
| "budget_step OpRelease b = (True, Release b)"
| "budget_step OpAcquireActivity b = (case AcquireActivity b of (l, b') \<Rightarrow> (l \<noteq> None, b'))"
| "budget_step (OpReleaseActivity l) b = (True, release_activity l b)"
| "budget_step OpObserve b = (True, snd (ObserveActivities b))"
| "budget_step (OpStopObserving a) b = (True, stop_observing a b)"
| "budget_step OpTryMaintenance b = TryMaintenance b"
| "budget_step OpEndMaintenance b = (True, EndMaintenance b)"

lemma notifyActivity_simps [simp]:
  "b_used (notifyActivity b) = b_used b" "b_maximum (notifyActivity b) = b_maximum b"
  "b_maintenance (notifyActivity b) = b_maintenance b" "b_activities (notifyActivity b) = b_activities b"
  "b_leases (notifyActivity b) = b_leases b" "b_next (notifyActivity b) = b_next b"
  "b_observer (notifyActivity b) = b_observer b"
  by (simp_all add: notifyActivity_def split: option.split)

lemma budget_inv_notify [simp]: "budget_inv (notifyActivity b) = budget_inv b"
  by (simp add: budget_inv_def)

lemma budget_inv_New: "budget_inv (New_budget m)"
  by (simp add: budget_inv_def New_budget_def)

lemma activities_zero_iff: "budget_inv b \<Longrightarrow> b_activities b = 0 \<longleftrightarrow> b_leases b = []"
  by (metis budget_inv_def length_0_conv unat_eq_0)

lemma activities_incr:
  assumes "budget_inv b" "\<not> MaxActivities \<le> b_activities b"
  shows "unat (b_activities b + 1) = Suc (length (b_leases b))" "Suc (length (b_leases b)) \<le> unat MaxActivities"
proof -
  have lt: "unat (b_activities b) < 128"
    using assms(2) by (simp add: MaxActivities_def word_le_nat_alt)
  then have "unat (b_activities b) + unat (1 :: 32 word) < 2 ^ LENGTH(32)" by simp
  then have "unat (b_activities b + 1) = unat (b_activities b) + unat (1 :: 32 word)"
    by (simp only: unat_add_lem)
  then show "unat (b_activities b + 1) = Suc (length (b_leases b))"
    using assms(1) by (simp add: budget_inv_def)
  show "Suc (length (b_leases b)) \<le> unat MaxActivities"
    using lt assms(1) by (simp add: budget_inv_def MaxActivities_def)
qed

lemma activities_decr:
  assumes "budget_inv b" "l \<in> set (b_leases b)"
  shows "unat (b_activities b - 1) = length (b_leases b) - 1"
proof -
  have "b_activities b \<noteq> 0" using assms activities_zero_iff by auto
  then have "unat (b_activities b - 1) = unat (b_activities b) - 1" by (rule unat_minus_one)
  then show ?thesis using assms(1) by (simp add: budget_inv_def)
qed

lemma AcquireActivity_inv: "budget_inv b \<Longrightarrow> budget_inv (snd (AcquireActivity b))"
  using activities_incr [of b]
  by (auto simp: AcquireActivity_def budget_inv_def less_Suc_eq)

lemma release_activity_inv: "budget_inv b \<Longrightarrow> budget_inv (release_activity l b)"
  using activities_decr [of b l] activities_zero_iff [of b]
  by (auto simp: release_activity_def budget_inv_def length_remove1 dest: notin_set_remove1)

lemma budget_step_inv: "budget_inv b \<Longrightarrow> budget_inv (snd (budget_step op b))"
proof (cases op)
  case OpAcquireActivity
  assume "budget_inv b"
  with OpAcquireActivity AcquireActivity_inv show ?thesis by (simp add: split_beta)
next
  case (OpReleaseActivity l)
  assume "budget_inv b"
  with OpReleaseActivity release_activity_inv show ?thesis by simp
qed (auto simp: budget_inv_def Acquire_def Release_def ObserveActivities_def stop_observing_def
    TryMaintenance_def EndMaintenance_def less_SucI)

section \<open>The contract of the slot counter\<close>

text \<open>What a client of the budget relies on: a granted slot counts one more, stays within the
  maximum and is refused during maintenance; a release counts one less; nothing else moves.\<close>

locale slot_budget =
  fixes acquire :: "'b \<Rightarrow> bool \<times> 'b" and release :: "'b \<Rightarrow> 'b"
    and used :: "'b \<Rightarrow> int" and capacity :: "'b \<Rightarrow> int" and blocked :: "'b \<Rightarrow> bool"
  assumes granted: "acquire b = (True, b') \<Longrightarrow>
      \<not> blocked b \<and> used b < capacity b \<and> used b' = used b + 1 \<and> capacity b' = capacity b \<and> blocked b' = blocked b"
    and refused: "acquire b = (False, b') \<Longrightarrow> b' = b"
    and released: "used (release b) = (if 0 < used b then used b - 1 else used b)"
    and release_keeps: "capacity (release b) = capacity b \<and> blocked (release b) = blocked b"
begin

text \<open>\<open>n\<close> owners account for the slots in use.\<close>

definition accounts :: "nat \<Rightarrow> 'b \<Rightarrow> bool" where
  "accounts n b \<longleftrightarrow> used b = int n \<and> (blocked b \<longrightarrow> n = 0) \<and> (0 \<le> capacity b \<longrightarrow> int n \<le> capacity b)"

lemma accounts_acquire: "acquire b = (True, b') \<Longrightarrow> accounts n b \<Longrightarrow> accounts (Suc n) b'"
  using granted [of b b'] by (auto simp: accounts_def)

lemma accounts_refused: "acquire b = (False, b') \<Longrightarrow> accounts n b \<Longrightarrow> accounts n b'"
  using refused by auto

lemma accounts_release: "accounts (Suc n) b \<Longrightarrow> accounts n (release b)"
  using released [of b] release_keeps [of b] by (auto simp: accounts_def)

lemma accounts_releases: "accounts (k + n) b \<Longrightarrow> accounts n ((release ^^ k) b)"
  by (induction k arbitrary: n b) (auto dest: accounts_release simp: funpow_swap1)

end

interpretation sb: slot_budget Acquire Release b_used b_maximum b_maintenance
  by unfold_locales (auto simp: Acquire_def Release_def split: if_splits)

section \<open>Properties\<close>

text \<open>The observer is never stale: the last value any callback was given is the current count, and it
  was given to the registered observer.\<close>

definition observer_inv :: "Budget \<Rightarrow> bool" where
  "observer_inv b \<longleftrightarrow>
     (\<forall>a. b_observer b = Some a \<longrightarrow> b_emitted b \<noteq> [] \<and> last (b_emitted b) = (a, b_activities b))"

lemma observer_inv_notify: "observer_inv (notifyActivity b)"
  by (auto simp: observer_inv_def notifyActivity_def split: option.splits)

lemma observer_inv_step: "observer_inv b \<Longrightarrow> observer_inv (snd (budget_step op b))"
proof (cases op)
  case OpAcquireActivity
  assume "observer_inv b"
  then show ?thesis by (simp add: OpAcquireActivity AcquireActivity_def observer_inv_notify)
next
  case (OpReleaseActivity l)
  assume "observer_inv b"
  then show ?thesis by (simp add: OpReleaseActivity release_activity_def observer_inv_notify)
next
  case OpObserve
  then show ?thesis by (simp add: ObserveActivities_def observer_inv_notify)
qed (auto simp: observer_inv_def Acquire_def Release_def stop_observing_def TryMaintenance_def EndMaintenance_def)

lemma b_maximum_step: "b_maximum (snd (budget_step op b)) = b_maximum b"
  by (cases op) (simp_all add: Acquire_def Release_def AcquireActivity_def release_activity_def
    ObserveActivities_def stop_observing_def TryMaintenance_def EndMaintenance_def)

lemma budget_reachable:
  "budget_inv b \<Longrightarrow> observer_inv b \<Longrightarrow> b_maximum b = m \<Longrightarrow>
   (let b' = run_state budget_step ops b in budget_inv b' \<and> observer_inv b' \<and> b_maximum b' = m)"
  using run_state_invariant [where ok = "\<lambda>_. True" and step = budget_step and s = b and xs = ops
      and J = "\<lambda>b. budget_inv b \<and> observer_inv b \<and> b_maximum b = m"]
  by (simp add: budget_step_inv observer_inv_step b_maximum_step Let_def)

text \<open>C40. In every state the budget's users can reach, in whatever order their calls take the
  mutex, the slots in use never exceed the maximum, the 32-bit activity counter equals the number
  of leases not yet released and is at most 128 (so it never wraps), while maintenance is held there
  is no slot and no activity at all, and the last count a registered observer was given is the
  current one.\<close>

theorem budget_bounds:
  "let b = run_state budget_step ops (New_budget m) in
     0 \<le> b_used b \<and> (0 \<le> m \<longrightarrow> b_used b \<le> m) \<and>
     unat (b_activities b) = length (b_leases b) \<and> unat (b_activities b) \<le> 128 \<and>
     (b_maintenance b \<longrightarrow> b_used b = 0 \<and> b_leases b = []) \<and>
     (\<forall>a. b_observer b = Some a \<longrightarrow> last (b_emitted b) = (a, ActivityCount b))"
proof -
  have "observer_inv (New_budget m)" by (simp add: observer_inv_def New_budget_def)
  from budget_reachable [OF budget_inv_New this, where m = m and ops = ops]
  show ?thesis
    by (auto simp: Let_def budget_inv_def observer_inv_def New_budget_def MaxActivities_def ActivityCount_def)
qed

theorem budget_bounds_witness:
  "let b = run_state budget_step [OpAcquireActivity, OpReleaseActivity 0, OpReleaseActivity 0, OpTryMaintenance, OpAcquire] (New_budget 8) in
     b_maintenance b \<and> b_used b = 0 \<and> b_leases b = [] \<and> b_used b \<le> 8"
proof -
  let ?b = "run_state budget_step [OpAcquireActivity, OpReleaseActivity 0, OpReleaseActivity 0, OpTryMaintenance, OpAcquire] (New_budget 8)"
  have m: "b_maintenance ?b"
    by (simp add: New_budget_def AcquireActivity_def release_activity_def TryMaintenance_def Acquire_def
        notifyActivity_def MaxActivities_def)
  note b = budget_bounds [of "[OpAcquireActivity, OpReleaseActivity 0, OpReleaseActivity 0, OpTryMaintenance, OpAcquire]" 8,
      unfolded Let_def]
  from b m show ?thesis unfolding Let_def by simp
qed

end
