(* ===== verification/Exec_Journal.thy ===== *)
theory Exec_Journal
  imports Veyport_Prelude
begin

text \<open>
  The agent's durable execution journal (\<open>agent/internal/execution/journal.go\<close>). One file per
  execution id, created exclusively when the execution is claimed and replaced by rename when its
  state moves on; an in-memory map holds the active claims. The model keeps two views of the
  directory: what the file system shows now and what \<open>fsync\<close> has made durable, so that an agent
  or machine restart is an operation like the others. The theorems show that a durable claim is
  granted at most once per execution id for the life of the disk, whatever I/O fails and
  whenever the node restarts.
\<close>

section \<open>Records\<close>

text \<open>The protobuf messages the journal stores; \<open>bytes\<close> fields are byte strings.\<close>

record ExecutionBinding =
  eb_execution_id :: string
  eb_node_id :: string
  eb_preparation_id :: string
  eb_boot_id :: string
  eb_expires :: int

record ExecutionResult =
  er_binding :: ExecutionBinding
  er_state :: string
  er_exit_code :: int
  er_signal :: string
  er_reason :: string
  er_stdout_complete :: bool
  er_stderr_complete :: bool

record LaunchRecord =
  lr_binding :: ExecutionBinding
  lr_command_sha :: string
  lr_identity_sha :: string
  lr_policy :: string
  lr_state :: string
  lr_result :: "ExecutionResult option"

text \<open>A file of the journal directory either holds the whole JSON text of a record or something
  \<open>json.Unmarshal\<close> refuses (an empty or partly written file).\<close>

datatype journal_file = Whole LaunchRecord | Damaged

datatype journal_error = ErrAlreadyClaimed | ErrClaimIO | ErrClaimNotDurable | ErrNotClaimed
  | ErrUpdateIO | ErrUpdateNotDurable | ErrOpenDirectory | ErrDirectoryNotDurable

record Journal =
  j_records :: "string \<rightharpoonup> LaunchRecord"
  j_files :: "string \<rightharpoonup> journal_file"
  j_settled :: "string \<rightharpoonup> journal_file"

text \<open>SHA-256 and the length of the JSON text belong to libraries; \<open>je_sha\<close> and \<open>je_size\<close> stand for
  them.\<close>

record journal_env =
  je_sha :: "string \<Rightarrow> string"
  je_size :: "LaunchRecord \<Rightarrow> nat"

section \<open>Opening\<close>

text \<open>\<open>openJournal\<close> syncs the journal directory and every ancestor up to the root. A path is the list
  of its components; \<open>filepath.Dir\<close> drops the last one. The faults say at which path \<open>os.Open\<close>,
  the sync or the close fails; the result lists the paths that were synced.\<close>

function sync_path :: "(string list \<Rightarrow> bool) \<Rightarrow> (string list \<Rightarrow> bool) \<Rightarrow> (string list \<Rightarrow> bool) \<Rightarrow>
    string list \<Rightarrow> journal_error + string list list" where
  "sync_path open_f sync_f close_f path =
     (if open_f path then Inl ErrOpenDirectory
      else if sync_f path then Inl ErrDirectoryNotDurable
      else if close_f path then Inl ErrOpenDirectory
      else if path = [] then Inr [path]
      else case sync_path open_f sync_f close_f (butlast path) of
             Inl e \<Rightarrow> Inl e | Inr ps \<Rightarrow> Inr (path # ps))"
  by pat_completeness auto
termination
  by (relation "measure (\<lambda>(_, _, _, p). length p)") auto

declare sync_path.simps [simp del]

definition openJournal :: "(string list \<Rightarrow> bool) \<Rightarrow> (string list \<Rightarrow> bool) \<Rightarrow> (string list \<Rightarrow> bool) \<Rightarrow>
    string list \<Rightarrow> (string \<rightharpoonup> journal_file) \<Rightarrow> journal_error + Journal" where
  "openJournal open_f sync_f close_f dir disk =
     (case sync_path open_f sync_f close_f dir of
        Inl e \<Rightarrow> Inl e
      | Inr _ \<Rightarrow> Inr \<lparr>j_records = Map.empty, j_files = disk, j_settled = disk\<rparr>)"

section \<open>Reading\<close>

definition hex_encode :: "string \<Rightarrow> string" where
  "hex_encode s = concat (map (\<lambda>c. [hex_digit (of_char c div 16), hex_digit (of_char c mod 16)]) s)"

definition journalName :: "journal_env \<Rightarrow> string \<Rightarrow> string" where
  "journalName env ident = hex_encode (je_sha env ident) @ ''.json''"

definition empty_binding :: ExecutionBinding where
  "empty_binding = \<lparr>eb_execution_id = [], eb_node_id = [], eb_preparation_id = [], eb_boot_id = [], eb_expires = 0\<rparr>"

definition unknown_record :: "string \<Rightarrow> LaunchRecord" where
  "unknown_record ident = \<lparr>lr_binding = empty_binding\<lparr>eb_execution_id := ident\<rparr>, lr_command_sha = [],
     lr_identity_sha = [], lr_policy = [], lr_state = ''outcome_unknown'', lr_result = None\<rparr>"

text \<open>Faults: 0 the file cannot be opened (other than not existing), 1 it cannot be read.\<close>

definition readRecord :: "journal_env \<Rightarrow> db_faults \<Rightarrow> string \<Rightarrow> Journal \<Rightarrow> LaunchRecord option" where
  "readRecord env f ident j =
     (if f 0 then Some (unknown_record ident)
      else case j_files j (journalName env ident) of
        None \<Rightarrow> None
      | Some Damaged \<Rightarrow> Some (unknown_record ident)
      | Some (Whole r) \<Rightarrow>
          if f 1 \<or> 65536 < je_size env r \<or> eb_execution_id (lr_binding r) \<noteq> ident
          then Some (unknown_record ident)
          else if lr_state r = ''claimed'' \<or> lr_state r = ''running''
          then Some (r\<lparr>lr_state := ''outcome_unknown''\<rparr>)
          else Some r)"

definition Journal_Status :: "journal_env \<Rightarrow> db_faults \<Rightarrow> string \<Rightarrow> Journal \<Rightarrow> LaunchRecord option" where
  "Journal_Status env f ident j =
     (case j_records j ident of Some r \<Rightarrow> Some r | None \<Rightarrow> readRecord env f ident j)"

section \<open>Claiming and updating\<close>

text \<open>Faults of \<open>Claim\<close>: 0 the exclusive create fails for another reason, 1 the write, 2 its
  \<open>fsync\<close>, 3 the close, 4 the directory sync. The file stays behind on every failure after the
  create.\<close>

definition Claim :: "journal_env \<Rightarrow> db_faults \<Rightarrow> ExecutionBinding \<Rightarrow> string \<Rightarrow> string \<Rightarrow> string \<Rightarrow>
    Journal \<Rightarrow> (journal_error + LaunchRecord) \<times> Journal" where
  "Claim env f binding command_sha identity_sha policy j =
     (let ident = eb_execution_id binding; n = journalName env ident;
          r = \<lparr>lr_binding = binding, lr_command_sha = command_sha, lr_identity_sha = identity_sha,
               lr_policy = policy, lr_state = ''claimed'', lr_result = None\<rparr> in
      if j_records j ident \<noteq> None then (Inl ErrAlreadyClaimed, j)
      else if j_files j n \<noteq> None then (Inl ErrAlreadyClaimed, j)
      else if f 0 then (Inl ErrClaimIO, j)
      else if f 1 then (Inl ErrClaimNotDurable, j\<lparr>j_files := (j_files j)(n \<mapsto> Damaged)\<rparr>)
      else if f 2 \<or> f 3 \<or> f 4 then (Inl ErrClaimNotDurable, j\<lparr>j_files := (j_files j)(n \<mapsto> Whole r)\<rparr>)
      else (Inr r, j\<lparr>j_records := (j_records j)(ident \<mapsto> r), j_files := (j_files j)(n \<mapsto> Whole r),
                     j_settled := (j_settled j)(n \<mapsto> Whole r)\<rparr>))"

text \<open>Faults of \<open>update\<close>: 0 and 1 belong to \<open>readRecord\<close>, 2 the temporary file cannot be created, 3 its
  mode, content or sync fails, 4 the close, 5 the rename, 6 the directory sync. Until the directory
  is synced a crash may bring the old content back.\<close>

definition update :: "journal_env \<Rightarrow> db_faults \<Rightarrow> string \<Rightarrow> string \<Rightarrow> ExecutionResult option \<Rightarrow>
    Journal \<Rightarrow> (journal_error + unit) \<times> Journal" where
  "update env f ident state result j =
     (case Journal_Status env f ident j of
        None \<Rightarrow> (Inl ErrNotClaimed, j)
      | Some old \<Rightarrow>
          let n = journalName env ident; nxt = old\<lparr>lr_state := state, lr_result := result\<rparr>;
              dropped = (j_records j)(ident := None) in
          if f 2 then (Inl ErrUpdateIO, j)
          else if f 3 \<or> f 4 \<or> f 5 then (Inl ErrUpdateNotDurable, j\<lparr>j_records := dropped\<rparr>)
          else if f 6 then (Inl ErrUpdateNotDurable,
                 j\<lparr>j_records := dropped, j_files := (j_files j)(n \<mapsto> Whole nxt)\<rparr>)
          else (Inr (), j\<lparr>j_records := (if state = ''running'' then (j_records j)(ident \<mapsto> nxt) else dropped),
                          j_files := (j_files j)(n \<mapsto> Whole nxt),
                          j_settled := (j_settled j)(n \<mapsto> Whole nxt)\<rparr>))"

definition RecordRunning :: "journal_env \<Rightarrow> db_faults \<Rightarrow> string \<Rightarrow> Journal \<Rightarrow> (journal_error + unit) \<times> Journal" where
  "RecordRunning env f ident j = update env f ident ''running'' None j"

definition RecordResult :: "journal_env \<Rightarrow> db_faults \<Rightarrow> ExecutionResult \<Rightarrow> Journal \<Rightarrow> (journal_error + unit) \<times> Journal" where
  "RecordResult env f result j =
     update env f (eb_execution_id (er_binding result)) (er_state result) (Some result) j"

section \<open>Restarts\<close>

text \<open>After a crash or restart the memory is empty, and each file is found as it was last made durable, as
  the file system showed it, or (when it was never durable) damaged.\<close>

datatype survivor = Durable | Current | Partial

definition survives :: "survivor \<Rightarrow> journal_file option \<Rightarrow> journal_file option \<Rightarrow> journal_file option" where
  "survives w settled current =
     (case w of Durable \<Rightarrow> settled | Current \<Rightarrow> current
      | Partial \<Rightarrow> if settled = None \<and> current \<noteq> None then Some Damaged else settled)"

definition restart :: "(string \<Rightarrow> survivor) \<Rightarrow> Journal \<Rightarrow> Journal" where
  "restart pick j =
     (let disk = (\<lambda>n. survives (pick n) (j_settled j n) (j_files j n)) in
      \<lparr>j_records = Map.empty, j_files = disk, j_settled = disk\<rparr>)"

datatype journal_op =
    JStatus db_faults string
  | JClaim db_faults ExecutionBinding string string string
  | JRunning db_faults string
  | JResult db_faults ExecutionResult
  | JRestart "string \<Rightarrow> survivor"

datatype journal_reply = JRecord "LaunchRecord option" | JClaimed LaunchRecord | JDone | JFailed journal_error

fun journal_step :: "journal_env \<Rightarrow> journal_op \<Rightarrow> Journal \<Rightarrow> journal_reply \<times> Journal" where
  "journal_step env (JStatus f ident) j = (JRecord (Journal_Status env f ident j), j)"
| "journal_step env (JClaim f b c i p) j =
     (case Claim env f b c i p j of (Inl e, j') \<Rightarrow> (JFailed e, j') | (Inr r, j') \<Rightarrow> (JClaimed r, j'))"
| "journal_step env (JRunning f ident) j =
     (case RecordRunning env f ident j of (Inl e, j') \<Rightarrow> (JFailed e, j') | (Inr _, j') \<Rightarrow> (JDone, j'))"
| "journal_step env (JResult f r) j =
     (case RecordResult env f r j of (Inl e, j') \<Rightarrow> (JFailed e, j') | (Inr _, j') \<Rightarrow> (JDone, j'))"
| "journal_step env (JRestart pick) j = (JDone, restart pick j)"

section \<open>Invariant\<close>

text \<open>Every file that is durable is also visible, and every active claim has its file.\<close>

definition journal_inv :: "journal_env \<Rightarrow> Journal \<Rightarrow> bool" where
  "journal_inv env j \<longleftrightarrow>
     (\<forall>n. j_settled j n \<noteq> None \<longrightarrow> j_files j n \<noteq> None) \<and>
     (\<forall>ident. j_records j ident \<noteq> None \<longrightarrow> j_files j (journalName env ident) \<noteq> None)"

lemma Claim_shape:
  assumes "Claim env f b c i p j = (res, j')"
  obtains (unchanged) e where "res = Inl e" "j' = j"
  | (lost) e x where "res = Inl e" "j_files j (journalName env (eb_execution_id b)) = None"
      "j' = j\<lparr>j_files := (j_files j)(journalName env (eb_execution_id b) \<mapsto> x)\<rparr>"
  | (claimed) r where "res = Inr r" "j_files j (journalName env (eb_execution_id b)) = None"
      "lr_binding r = b" "lr_state r = ''claimed''"
      "j' = j\<lparr>j_records := (j_records j)(eb_execution_id b \<mapsto> r),
              j_files := (j_files j)(journalName env (eb_execution_id b) \<mapsto> Whole r),
              j_settled := (j_settled j)(journalName env (eb_execution_id b) \<mapsto> Whole r)\<rparr>"
proof -
  let ?n = "journalName env (eb_execution_id b)"
  let ?r = "\<lparr>lr_binding = b, lr_command_sha = c, lr_identity_sha = i, lr_policy = p, lr_state = ''claimed'', lr_result = None\<rparr>"
  consider "j_records j (eb_execution_id b) \<noteq> None \<or> j_files j ?n \<noteq> None"
    | "\<not> (j_records j (eb_execution_id b) \<noteq> None \<or> j_files j ?n \<noteq> None)" "f 0"
    | "\<not> (j_records j (eb_execution_id b) \<noteq> None \<or> j_files j ?n \<noteq> None)" "\<not> f 0" "f 1"
    | "\<not> (j_records j (eb_execution_id b) \<noteq> None \<or> j_files j ?n \<noteq> None)" "\<not> f 0" "\<not> f 1" "f 2 \<or> f 3 \<or> f 4"
    | "\<not> (j_records j (eb_execution_id b) \<noteq> None \<or> j_files j ?n \<noteq> None)" "\<not> f 0" "\<not> f 1" "\<not> (f 2 \<or> f 3 \<or> f 4)"
    by argo
  then show ?thesis
  proof cases
    case 1
    then have "(res, j') = (Inl ErrAlreadyClaimed, j)"
      unfolding assms [symmetric] Claim_def Let_def by (elim disjE) (simp_all del: not_None_eq)
    then have "res = Inl ErrAlreadyClaimed" "j' = j" by simp_all
    then show ?thesis by (rule unchanged)
  next
    case 2
    with assms have "res = Inl ErrClaimIO" "j' = j" by (simp_all add: Claim_def Let_def)
    then show ?thesis by (rule unchanged)
  next
    case 3
    with assms have "res = Inl ErrClaimNotDurable" "j_files j ?n = None" "j' = j\<lparr>j_files := (j_files j)(?n \<mapsto> Damaged)\<rparr>"
      by (simp_all add: Claim_def Let_def)
    then show ?thesis by (rule lost)
  next
    case 4
    with assms have "res = Inl ErrClaimNotDurable" "j_files j ?n = None" "j' = j\<lparr>j_files := (j_files j)(?n \<mapsto> Whole ?r)\<rparr>"
      by (simp_all add: Claim_def Let_def)
    then show ?thesis by (rule lost)
  next
    case 5
    with assms have "res = Inr ?r" "j_files j ?n = None" "lr_binding ?r = b" "lr_state ?r = ''claimed''"
      "j' = j\<lparr>j_records := (j_records j)(eb_execution_id b \<mapsto> ?r),
              j_files := (j_files j)(?n \<mapsto> Whole ?r), j_settled := (j_settled j)(?n \<mapsto> Whole ?r)\<rparr>"
      by (simp_all add: Claim_def Let_def)
    then show ?thesis by (rule claimed)
  qed
qed

lemma update_shape:
  assumes "update env f ident st rs j = (res, j')"
  obtains (unchanged) "j' = j"
  | (moved) m files settled where "j' = j\<lparr>j_records := m, j_files := files, j_settled := settled\<rparr>"
      "\<And>i. m i \<noteq> None \<Longrightarrow> j_records j i \<noteq> None \<or> i = ident \<and> files (journalName env ident) \<noteq> None"
      "\<And>n. j_files j n \<noteq> None \<Longrightarrow> files n \<noteq> None" "\<And>n. j_settled j n \<noteq> None \<Longrightarrow> settled n \<noteq> None"
      "\<And>n. settled n \<noteq> None \<Longrightarrow> j_settled j n \<noteq> None \<or> files n \<noteq> None"
proof (cases "Journal_Status env f ident j")
  case None
  with assms have "j' = j" by (auto simp: update_def)
  then show ?thesis by (rule unchanged)
next
  case (Some old)
  let ?n = "journalName env ident" and ?nxt = "old\<lparr>lr_state := st, lr_result := rs\<rparr>"
  consider "f 2" | "\<not> f 2" "f 3 \<or> f 4 \<or> f 5" | "\<not> f 2" "\<not> (f 3 \<or> f 4 \<or> f 5)" "f 6"
    | "\<not> f 2" "\<not> (f 3 \<or> f 4 \<or> f 5)" "\<not> f 6" by blast
  then show ?thesis
  proof cases
    case 1
    with assms Some have "j' = j" by (simp add: update_def)
    then show ?thesis by (rule unchanged)
  next
    case 2
    with assms Some have "j' = j\<lparr>j_records := (j_records j)(ident := None), j_files := j_files j, j_settled := j_settled j\<rparr>"
      by (auto simp: update_def)
    then show ?thesis by (rule moved) (auto split: if_splits)
  next
    case 3
    with assms Some have "j' = j\<lparr>j_records := (j_records j)(ident := None), j_files := (j_files j)(?n \<mapsto> Whole ?nxt), j_settled := j_settled j\<rparr>"
      by (auto simp: update_def)
    then show ?thesis by (rule moved) (auto split: if_splits)
  next
    case 4
    with assms Some have "j' = j\<lparr>j_records := (if st = ''running'' then (j_records j)(ident \<mapsto> ?nxt) else (j_records j)(ident := None)),
        j_files := (j_files j)(?n \<mapsto> Whole ?nxt), j_settled := (j_settled j)(?n \<mapsto> Whole ?nxt)\<rparr>"
      by (auto simp: update_def Let_def)
    then show ?thesis by (rule moved) (auto split: if_splits)
  qed
qed

lemma update_grows:
  assumes "update env f ident st rs j = (res, j')" "journal_inv env j"
  shows "journal_inv env j'" "j_files j n \<noteq> None \<Longrightarrow> j_files j' n \<noteq> None"
    "j_settled j n \<noteq> None \<Longrightarrow> j_settled j' n \<noteq> None"
proof -
  show "journal_inv env j'"
    using assms(1)
  proof (cases rule: update_shape)
    case unchanged
    with assms(2) show ?thesis by simp
  next
    case (moved m files settled)
    have "files (journalName env i) \<noteq> None" if "m i \<noteq> None" for i
      using moved(2) [OF that] moved(3) assms(2) by (auto simp: journal_inv_def)
    moreover have "files k \<noteq> None" if "settled k \<noteq> None" for k
      using moved(5) [OF that] moved(3) assms(2) by (auto simp: journal_inv_def)
    ultimately show ?thesis by (simp add: journal_inv_def moved(1))
  qed
  show "j_files j' n \<noteq> None" if "j_files j n \<noteq> None"
    using assms(1) by (cases rule: update_shape) (use that in simp_all)
  show "j_settled j' n \<noteq> None" if "j_settled j n \<noteq> None"
    using assms(1) by (cases rule: update_shape) (use that in simp_all)
qed

lemma Claim_grows:
  assumes "Claim env f b c i p j = (res, j')" "journal_inv env j"
  shows "journal_inv env j'" "j_files j n \<noteq> None \<Longrightarrow> j_files j' n \<noteq> None"
    "j_settled j n \<noteq> None \<Longrightarrow> j_settled j' n \<noteq> None"
proof -
  show "journal_inv env j'"
    using assms(1) by (cases rule: Claim_shape) (use assms(2) in \<open>auto simp: journal_inv_def\<close>)
  show "j_files j' n \<noteq> None" if "j_files j n \<noteq> None"
    using assms(1) by (cases rule: Claim_shape) (use that in auto)
  show "j_settled j' n \<noteq> None" if "j_settled j n \<noteq> None"
    using assms(1) by (cases rule: Claim_shape) (use that in auto)
qed

lemma restart_grows:
  assumes "journal_inv env j"
  shows "journal_inv env (restart pick j)" "j_settled j n \<noteq> None \<Longrightarrow> j_settled (restart pick j) n \<noteq> None"
  using assms by (auto simp: restart_def journal_inv_def survives_def Let_def split: survivor.splits)

lemma journal_step_grows:
  assumes "journal_inv env j"
  shows "journal_inv env (snd (journal_step env op j))"
    "j_settled j n \<noteq> None \<Longrightarrow> j_settled (snd (journal_step env op j)) n \<noteq> None"
    "(\<And>pick. op \<noteq> JRestart pick) \<Longrightarrow> j_files j n \<noteq> None \<Longrightarrow> j_files (snd (journal_step env op j)) n \<noteq> None"
  using assms
  by (cases op; auto simp: RecordRunning_def RecordResult_def restart_grows split: prod.splits sum.splits
      dest: Claim_grows update_grows)+

text \<open>The claim of one execution id as a one-shot effect of the journal.\<close>

fun claims_id :: "string \<Rightarrow> journal_op \<Rightarrow> journal_reply \<Rightarrow> bool" where
  "claims_id ident (JClaim f b c i p) (JClaimed r) \<longleftrightarrow> eb_execution_id b = ident"
| "claims_id ident _ _ \<longleftrightarrow> False"

lemma claims_id_cases:
  assumes "claims_id ident op (fst (journal_step env op j))"
  obtains f b c i p r j' where "op = JClaim f b c i p" "eb_execution_id b = ident"
    "Claim env f b c i p j = (Inr r, j')" "snd (journal_step env op j) = j'"
  using assms
  by (cases op) (auto split: prod.splits sum.splits)

lemma claim_wins:
  assumes "claims_id ident op (fst (journal_step env op j))"
  shows "j_files j (journalName env ident) = None" "j_settled (snd (journal_step env op j)) (journalName env ident) \<noteq> None"
    "j_files (snd (journal_step env op j)) (journalName env ident) \<noteq> None"
proof -
  from assms obtain f b c i p r j' where op: "op = JClaim f b c i p" "eb_execution_id b = ident"
    and call: "Claim env f b c i p j = (Inr r, j')" and s: "snd (journal_step env op j) = j'"
    by (rule claims_id_cases)
  from call show "j_files j (journalName env ident) = None"
    by (cases rule: Claim_shape) (simp_all add: op)
  from call show "j_settled (snd (journal_step env op j)) (journalName env ident) \<noteq> None"
    unfolding s by (cases rule: Claim_shape) (simp_all add: op)
  from call show "j_files (snd (journal_step env op j)) (journalName env ident) \<noteq> None"
    unfolding s by (cases rule: Claim_shape) (simp_all add: op)
qed

interpretation durable_claim: one_shot "journal_step env" "journal_inv env"
  "\<lambda>j. j_settled j (journalName env ident) \<noteq> None" "claims_id ident" "\<lambda>_. True"
  for env ident
proof
  fix op j
  assume inv: "journal_inv env j"
  show "journal_inv env (snd (journal_step env op j))" by (rule journal_step_grows(1) [OF inv])
  show "j_settled (snd (journal_step env op j)) (journalName env ident) \<noteq> None"
    if "j_settled j (journalName env ident) \<noteq> None"
    using inv that by (rule journal_step_grows(2))
  assume win: "claims_id ident op (fst (journal_step env op j))"
  show "\<not> j_settled j (journalName env ident) \<noteq> None"
    using claim_wins(1) [OF win] inv by (auto simp: journal_inv_def)
  show "j_settled (snd (journal_step env op j)) (journalName env ident) \<noteq> None"
    by (rule claim_wins(2) [OF win])
qed

interpretation boot_claim: one_shot "journal_step env" "journal_inv env"
  "\<lambda>j. j_files j (journalName env ident) \<noteq> None" "claims_id ident" "\<lambda>op. \<forall>pick. op \<noteq> JRestart pick"
  for env ident
proof
  fix op j
  assume ok: "\<forall>pick. op \<noteq> JRestart pick" and inv: "journal_inv env j"
  show "journal_inv env (snd (journal_step env op j))" by (rule journal_step_grows(1) [OF inv])
  show "j_files (snd (journal_step env op j)) (journalName env ident) \<noteq> None"
    if "j_files j (journalName env ident) \<noteq> None"
    by (rule journal_step_grows(3) [OF inv _ that]) (rule ok [THEN spec])
  assume win: "claims_id ident op (fst (journal_step env op j))"
  show "\<not> j_files j (journalName env ident) \<noteq> None" using claim_wins(1) [OF win] by simp
  show "j_files (snd (journal_step env op j)) (journalName env ident) \<noteq> None" by (rule claim_wins(3) [OF win])
qed

lemma opened_inv:
  "openJournal opn syn cls dir disk = Inr j \<Longrightarrow> j_files j = disk \<and> j_settled j = disk \<and> journal_inv env j"
  by (auto simp: openJournal_def journal_inv_def split: sum.splits)

lemma Status_of_file:
  assumes "j_files j (journalName env ident) \<noteq> None" "j_records j ident = None"
  shows "\<exists>r. Journal_Status env f ident j = Some r \<and> lr_state r \<noteq> ''claimed'' \<and> lr_state r \<noteq> ''running''"
proof -
  obtain x where x: "j_files j (journalName env ident) = Some x" using assms(1) by auto
  show ?thesis
    by (cases x) (simp_all add: Journal_Status_def readRecord_def assms(2) x unknown_record_def)
qed

lemma sync_path_covers:
  "sync_path opn syn cls path = Inr ps \<Longrightarrow>
   ps = map (\<lambda>k. take k path) (rev [0..<Suc (length path)]) \<and> (\<forall>p \<in> set ps. \<not> syn p)"
proof (induction opn syn cls path arbitrary: ps rule: sync_path.induct)
  case (1 opn syn cls path)
  show ?case
  proof (cases "path = []")
    case True
    with "1.prems" show ?thesis by (subst (asm) sync_path.simps) (auto split: if_splits)
  next
    case False
    with "1.prems" obtain qs where q: "sync_path opn syn cls (butlast path) = Inr qs" "ps = path # qs" and c: "\<not> opn path" "\<not> syn path" "\<not> cls path"
      by (subst (asm) sync_path.simps) (auto split: if_splits sum.splits)
    from "1.IH" [OF c(1,2,3) False q(1)] have qs: "qs = map (\<lambda>k. take k (butlast path)) (rev [0..<Suc (length path - 1)])" "\<forall>p \<in> set qs. \<not> syn p"
      by simp_all
    have "take k (butlast path) = take k path" if "k < length path" for k
      using that by (simp add: take_butlast)
    with False have "qs = map (\<lambda>k. take k path) (rev [0..<length path])"
      unfolding qs(1) by (intro map_cong) auto
    with q(2) c(2) qs(2) show ?thesis by simp
  qed
qed

section \<open>Properties\<close>

text \<open>For the life of the disk, over every sequence of journal calls, injected I/O failures and
  restarts after the journal was opened, at most one durable claim is granted per execution id, and
  none when a file for that id was already on the disk.\<close>

theorem claim_at_most_once:
  assumes "openJournal opn syn cls dir disk = Inr j"
  shows "wins_of (claims_id ident) (run_results (journal_step env) ops j)
           \<le> (if disk (journalName env ident) = None then 1 else 0)"
proof -
  from opened_inv [OF assms] have inv: "journal_inv env j" and d: "j_settled j = disk" by auto
  show ?thesis
    using durable_claim.at_most_one_win [OF _ inv, of ops ident]
      durable_claim.spent_no_win [OF _ inv, of ops ident] d by auto
qed

definition example_env :: journal_env where
  "example_env = \<lparr>je_sha = (\<lambda>s. s), je_size = (\<lambda>_. 512)\<rparr>"

definition example_binding :: ExecutionBinding where
  "example_binding = empty_binding\<lparr>eb_execution_id := ''e1'', eb_node_id := ''n1'', eb_expires := 60000\<rparr>"

definition no_fault :: db_faults where
  "no_fault = (\<lambda>_. False)"

theorem claim_at_most_once_witness:
  "wins_of (claims_id ''e1'') (run_results (journal_step example_env)
     [JClaim no_fault example_binding ''c'' ''i'' [], JRestart (\<lambda>_. Durable), JClaim no_fault example_binding ''c'' ''i'' []]
     \<lparr>j_records = Map.empty, j_files = Map.empty, j_settled = Map.empty\<rparr>) = 1"
proof -
  let ?ops = "[JClaim no_fault example_binding ''c'' ''i'' [], JRestart (\<lambda>_. Durable), JClaim no_fault example_binding ''c'' ''i'' []]"
  have o: "openJournal (\<lambda>_. False) (\<lambda>_. False) (\<lambda>_. False) [''var'', ''lib''] Map.empty =
      Inr \<lparr>j_records = Map.empty, j_files = Map.empty, j_settled = Map.empty\<rparr>"
    by (simp add: openJournal_def sync_path.simps)
  have "wins_of (claims_id ''e1'') (run_results (journal_step example_env) ?ops
     \<lparr>j_records = Map.empty, j_files = Map.empty, j_settled = Map.empty\<rparr>) \<le> 1"
    using claim_at_most_once [OF o, of "''e1''" example_env ?ops] by simp
  moreover have "1 \<le> wins_of (claims_id ''e1'') (run_results (journal_step example_env) ?ops
     \<lparr>j_records = Map.empty, j_files = Map.empty, j_settled = Map.empty\<rparr>)"
    by (simp add: Claim_def no_fault_def example_binding_def Let_def)
  ultimately show ?thesis by simp
qed

text \<open>A claim whose durability is uncertain still consumes the execution id: after \<open>Claim\<close> failed
  with the file created, no later claim of that id is granted for as long as the agent runs.\<close>

theorem uncertain_claim_consumes:
  assumes "journal_inv env j" "Claim env f b c i p j = (Inl ErrClaimNotDurable, j')"
    "\<forall>op \<in> set ops. \<forall>pick. op \<noteq> JRestart pick"
  shows "wins_of (claims_id (eb_execution_id b)) (run_results (journal_step env) ops j') = 0"
proof -
  have "j_files j' (journalName env (eb_execution_id b)) \<noteq> None"
    using assms(2) by (auto simp: Claim_def Let_def split: if_splits)
  then show ?thesis
    using boot_claim.spent_no_win [OF assms(3) Claim_grows(1) [OF assms(2,1)]] by simp
qed

theorem uncertain_claim_consumes_witness:
  "wins_of (claims_id ''e1'') (run_results (journal_step example_env) [JClaim no_fault example_binding ''c'' ''i'' []]
     (snd (Claim example_env (\<lambda>k. k = 4) example_binding ''c'' ''i'' []
        \<lparr>j_records = Map.empty, j_files = Map.empty, j_settled = Map.empty\<rparr>))) = 0"
proof -
  let ?j = "\<lparr>j_records = Map.empty, j_files = Map.empty, j_settled = Map.empty\<rparr> :: Journal"
  have "journal_inv example_env ?j" by (simp add: journal_inv_def)
  moreover have "Claim example_env (\<lambda>k. k = 4) example_binding ''c'' ''i'' [] ?j =
      (Inl ErrClaimNotDurable, snd (Claim example_env (\<lambda>k. k = 4) example_binding ''c'' ''i'' [] ?j))"
    by (simp add: Claim_def)
  ultimately show ?thesis
    using uncertain_claim_consumes [of example_env ?j "\<lambda>k. k = 4" example_binding "''c''" "''i''" "[]" _ "[JClaim no_fault example_binding ''c'' ''i'' []]"]
    by (simp add: example_binding_def)
qed

text \<open>C38. A durably claimed execution is never reported as unknown to the agent: after any further
  journal traffic and restarts its status is some record, and after a restart that record is never
  \<open>claimed\<close> or \<open>running\<close>, so an interrupted execution reads as \<open>outcome_unknown\<close> or with its
  result.\<close>

theorem durable_claim_known:
  assumes "journal_inv env j" "Claim env f b c i p j = (Inr r, j')"
  shows "Journal_Status env f' (eb_execution_id b) (run_state (journal_step env) ops j') \<noteq> None \<and>
    (\<exists>rec. Journal_Status env f' (eb_execution_id b) (restart pick (run_state (journal_step env) ops j')) = Some rec \<and>
       lr_state rec \<noteq> ''claimed'' \<and> lr_state rec \<noteq> ''running'')"
proof -
  let ?n = "journalName env (eb_execution_id b)" and ?j = "run_state (journal_step env) ops j'"
  have inv': "journal_inv env j'" by (rule Claim_grows(1) [OF assms(2,1)])
  have "j_settled j' ?n \<noteq> None" using assms(2) by (cases rule: Claim_shape) auto
  then have settled: "j_settled ?j ?n \<noteq> None" by (rule durable_claim.run_spent [rotated 2]) (simp_all add: inv')
  have inv: "journal_inv env ?j"
    by (rule run_state_invariant [where ok = "\<lambda>_. True"]) (simp_all add: journal_step_grows(1) inv')
  have "Journal_Status env f' (eb_execution_id b) ?j \<noteq> None"
  proof (cases "j_records ?j (eb_execution_id b)")
    case None
    have "j_files ?j ?n \<noteq> None" using settled inv by (simp add: journal_inv_def)
    from Status_of_file [OF this None, of f'] show ?thesis by auto
  qed (simp add: Journal_Status_def)
  moreover have "j_files (restart pick ?j) ?n \<noteq> None"
    using restart_grows [OF inv, where pick = pick] settled by (auto simp: journal_inv_def)
  then have "\<exists>rec. Journal_Status env f' (eb_execution_id b) (restart pick ?j) = Some rec \<and>
       lr_state rec \<noteq> ''claimed'' \<and> lr_state rec \<noteq> ''running''"
    by (rule Status_of_file) (simp add: restart_def Let_def)
  ultimately show ?thesis ..
qed

theorem durable_claim_known_witness:
  "\<exists>rec. Journal_Status example_env no_fault ''e1'' (restart (\<lambda>_. Durable)
      (snd (Claim example_env no_fault example_binding ''c'' ''i'' []
        \<lparr>j_records = Map.empty, j_files = Map.empty, j_settled = Map.empty\<rparr>))) = Some rec \<and>
      lr_state rec \<noteq> ''claimed'' \<and> lr_state rec \<noteq> ''running''"
proof -
  let ?j = "\<lparr>j_records = Map.empty, j_files = Map.empty, j_settled = Map.empty\<rparr> :: Journal"
  let ?c = "Claim example_env no_fault example_binding ''c'' ''i'' [] ?j"
  have inv: "journal_inv example_env ?j" by (simp add: journal_inv_def)
  obtain r where "fst ?c = Inr r" by (simp add: Claim_def no_fault_def Let_def)
  then have call: "?c = (Inr r, snd ?c)" by (metis prod.collapse)
  have e: "eb_execution_id example_binding = ''e1''" by (simp add: example_binding_def)
  show ?thesis
    using durable_claim_known [OF inv call, where ops = "[]" and f' = no_fault and pick = "\<lambda>_. Durable"]
    unfolding e run_state.simps by blast
qed

end
