(* ===== verification/Exec_Manager.thy ===== *)
theory Exec_Manager
  imports Budget Exec_Journal
begin

text \<open>
  The agent's execution manager (\<open>agent/internal/execution/manager.go\<close> and \<open>script.go\<close>): a
  noninteractive command is prepared (validated, its operating-system identity resolved, a slot of
  the shared budget reserved), attached, optionally given a protected script, started once through
  the durable journal, cancelled, and finished. Every critical section of the manager's mutex is one
  function; the work a call does between its sections has its own function, and \<open>exec_step\<close>
  interleaves them. The theorems show that budget slots are neither leaked nor released twice, that
  a process is spawned at most once per execution id, restarts included, and that what is spawned
  is what the hub's start message confirmed.
\<close>

section \<open>Messages and identities\<close>

definition MaxCommandBytes :: nat where "MaxCommandBytes = 32 * 1024"
definition MaxFrameBytes :: nat where "MaxFrameBytes = 64 * 1024"
definition MaxBufferBytes :: nat where "MaxBufferBytes = 2 * 1024 * 1024"
definition MaxScriptBytes :: "64 word" where "MaxScriptBytes = 16777216"

record ExecutionLimits =
  xl_max_frame :: "32 word"
  xl_max_buffer :: "32 word"
  xl_runtime :: "32 word"
  xl_term_grace :: "32 word"
  xl_blocked :: "32 word"

record ExecutionPrepare =
  xp_execution_id :: string
  xp_node_id :: string
  xp_run_as :: string
  xp_command :: string
  xp_cwd :: string
  xp_limits :: "ExecutionLimits option"
  xp_enhanced :: bool
  xp_script_sha :: string
  xp_script_length :: "64 word"

text \<open>\<open>executionidentity.Identity\<close>; \<open>SetCredential\<close> is excluded from its JSON text.\<close>

record Identity =
  id_username :: string
  id_uid :: "32 word"
  id_gid :: "32 word"
  id_groups :: "32 word list"
  id_home :: string
  id_shell :: string
  id_cwd :: string
  id_set_credential :: bool

record ExecutionIdentity =
  xi_username :: string
  xi_uid :: "32 word"
  xi_gid :: "32 word"
  xi_groups :: "32 word list"
  xi_groups_sha :: string
  xi_home :: string
  xi_shell :: string
  xi_cwd :: string
  xi_identity_sha :: string

record ExecutionPrepared =
  pr_execution_id :: string
  pr_binding :: "ExecutionBinding option"
  pr_identity :: "ExecutionIdentity option"
  pr_command_sha :: string
  pr_limits :: "ExecutionLimits option"
  pr_error :: string

record ExecutionStart =
  xs_binding :: "ExecutionBinding option"
  xs_command_sha :: string
  xs_identity_sha :: string
  xs_limits :: "ExecutionLimits option"
  xs_policy :: string
  xs_receipt :: string
  xs_admission_expires :: int

text \<open>The libraries the manager calls: the journal's SHA-256 and the JSON texts of an identity and of a
  group list.\<close>

record exec_env =
  xe_journal :: journal_env
  xe_identity_json :: "Identity \<Rightarrow> string"
  xe_groups_json :: "32 word list \<Rightarrow> string"

definition xe_sha :: "exec_env \<Rightarrow> string \<Rightarrow> string" where
  "xe_sha env = je_sha (xe_journal env)"

definition identity_Digest :: "exec_env \<Rightarrow> Identity \<Rightarrow> string" where
  "identity_Digest env i =
     xe_sha env (xe_identity_json env (i\<lparr>id_groups := sort (id_groups i), id_set_credential := False\<rparr>))"

definition GroupsDigest :: "exec_env \<Rightarrow> Identity \<Rightarrow> string" where
  "GroupsDigest env i = xe_sha env (xe_groups_json env (sort (id_groups i)))"

definition unix_milli :: "go_time \<Rightarrow> int" where
  "unix_milli t = t div 1000000"

section \<open>State\<close>

text \<open>A preparation is a heap object: \<open>p_ref\<close> is its address, which the expiry timer compares.
  \<open>p_script\<close> is the bytes written to its spool file, if it has one; \<open>scriptDigest\<close> is the running
  hash of the same bytes. \<open>p_cancelled\<close> says that \<open>launchCancel\<close> was called.\<close>

record preparation =
  p_ref :: nat
  p_binding :: ExecutionBinding
  p_identity_sha :: string
  p_command_sha :: string
  p_limits :: ExecutionLimits
  p_identity :: Identity
  p_command :: string
  p_run_as :: string
  p_attached :: bool
  p_cancelled :: bool
  p_enhanced :: bool
  p_script_hash :: string
  p_script_length :: "64 word"
  p_script_offset :: "64 word"
  p_script_complete :: bool
  p_script :: "string option"

record Run =
  r_binding :: ExecutionBinding
  r_enhanced :: bool
  r_script_length :: "64 word"
  r_script_hash :: string
  r_reason :: "string option"
  r_input_sequence :: "64 word"
  r_input_closed :: bool

record Manager =
  m_node_id :: string
  m_boot_id :: string
  m_ttl :: duration
  m_prepared :: "string \<rightharpoonup> preparation"
  m_pending :: "string set"
  m_launching :: "string \<rightharpoonup> preparation"
  m_runs :: "string \<rightharpoonup> Run"
  m_closed :: bool
  m_next :: nat

text \<open>\<open>NewManager\<close>: a zero or negative time to live becomes a minute; the boot id is random.\<close>

definition NewManager :: "string \<Rightarrow> duration \<Rightarrow> string option \<Rightarrow> string + Manager" where
  "NewManager node ttl boot =
     (if node = [] then Inl ''node and durable execution journal required''
      else case boot of None \<Rightarrow> Inl ''random source unavailable''
      | Some b \<Rightarrow> Inr \<lparr>m_node_id = node, m_boot_id = b, m_ttl = (if ttl \<le> 0 then minute else ttl),
          m_prepared = Map.empty, m_pending = {}, m_launching = Map.empty, m_runs = Map.empty,
          m_closed = False, m_next = 0\<rparr>)"

section \<open>Preparing\<close>

definition default_limits :: ExecutionLimits where
  "default_limits = \<lparr>xl_max_frame = of_nat MaxFrameBytes, xl_max_buffer = of_nat MaxBufferBytes,
     xl_runtime = 3600, xl_term_grace = 5, xl_blocked = 60\<rparr>"

definition normalizeLimits :: "ExecutionLimits option \<Rightarrow> string + ExecutionLimits" where
  "normalizeLimits limits =
     (case limits of None \<Rightarrow> Inr default_limits
      | Some l \<Rightarrow>
          if (xl_max_frame l \<noteq> 0 \<and> xl_max_frame l \<noteq> of_nat MaxFrameBytes) \<or>
             (xl_max_buffer l \<noteq> 0 \<and> xl_max_buffer l \<noteq> of_nat MaxBufferBytes) \<or>
             (xl_term_grace l \<noteq> 0 \<and> xl_term_grace l \<noteq> 5) \<or>
             (xl_blocked l \<noteq> 0 \<and> xl_blocked l \<noteq> 60) \<or> 3600 < xl_runtime l
          then Inl ''unsupported execution limits''
          else Inr (if xl_runtime l \<noteq> 0 then default_limits\<lparr>xl_runtime := xl_runtime l\<rparr> else default_limits))"

definition ScriptInterpreter :: "string \<Rightarrow> string" where
  "ScriptInterpreter command =
     (if command = ''bash -s'' \<or> command = ''/bin/bash -s'' then ''/bin/bash''
      else if command = ''sh -s'' \<or> command = ''/bin/sh -s'' then ''/bin/sh'' else [])"

text \<open>\<open>executable\<close>: the interpreter exists, is not a directory and has an execute bit.\<close>

definition withInterpreter :: "(string \<Rightarrow> bool) \<Rightarrow> Identity \<Rightarrow> string \<Rightarrow> string + Identity" where
  "withInterpreter executable i interpreter =
     (if executable interpreter then Inr (i\<lparr>id_shell := interpreter\<rparr>)
      else Inl ''protected interpreter unavailable'')"

text \<open>What a \<open>Prepare\<close> call meets outside the manager: whether the spool is configured and ready, the
  resolver, the file system, the random source and the clock.\<close>

record prepare_inputs =
  pi_spool_ready :: bool
  pi_journal_faults :: db_faults
  pi_resolve :: "string \<Rightarrow> string \<Rightarrow> string + Identity"
  pi_executable :: "string \<Rightarrow> bool"
  pi_prep_id :: "string option"
  pi_now :: go_time
  pi_spool_create :: bool

definition Prepare_checks :: "exec_env \<Rightarrow> prepare_inputs \<Rightarrow> Manager \<Rightarrow> Journal \<Rightarrow> ExecutionPrepare \<Rightarrow>
    string + ExecutionLimits" where
  "Prepare_checks env inp m j req =
     (let interpreter = ScriptInterpreter (xp_command req) in
      if xp_execution_id req = [] \<or> 128 < length (xp_execution_id req) \<or> xp_node_id req \<noteq> m_node_id m
      then Inl ''invalid execution ownership''
      else if xp_enhanced req \<and> \<not> pi_spool_ready inp
      then Inl ''protected encrypted input storage unavailable''
      else if xp_enhanced req \<and> (MaxScriptBytes < xp_script_length req \<or>
          interpreter \<noteq> [] \<and> length (xp_script_sha req) \<noteq> 32 \<or>
          interpreter = [] \<and> (xp_script_sha req \<noteq> [] \<or> xp_script_length req \<noteq> 0))
      then Inl ''invalid protected script binding''
      else if \<not> xp_enhanced req \<and> (xp_script_sha req \<noteq> [] \<or> xp_script_length req \<noteq> 0)
      then Inl ''script binding requires protected admission''
      else if xp_command req = [] \<or> MaxCommandBytes < length (xp_command req) \<or>
          \<not> valid_utf8 (xp_command req) \<or> CHR 0x00 \<in> set (xp_command req)
      then Inl ''invalid execution command''
      else if Journal_Status (xe_journal env) (pi_journal_faults inp) (xp_execution_id req) j \<noteq> None
      then Inl ''execution already durably claimed''
      else normalizeLimits (xp_limits req))"

text \<open>First critical section: admission against the budget.\<close>

definition Prepare_admit :: "string \<Rightarrow> Manager \<Rightarrow> Budget \<Rightarrow> (string + unit) \<times> Manager \<times> Budget" where
  "Prepare_admit ident m b =
     (if m_closed m then (Inl ''execution manager unavailable'', m, b)
      else if ident \<in> m_pending m \<or> m_prepared m ident \<noteq> None \<or> m_launching m ident \<noteq> None \<or> m_runs m ident \<noteq> None
      then (Inl ''execution already prepared'', m, b)
      else case Acquire b of
        (False, b') \<Rightarrow> (Inl ''too many active terminal/execution sessions'', m, b')
      | (True, b') \<Rightarrow> (Inr (), m\<lparr>m_pending := insert ident (m_pending m)\<rparr>, b'))"

text \<open>Outside the lock: identity, interpreter and preparation id.\<close>

definition Prepare_resolve :: "prepare_inputs \<Rightarrow> ExecutionPrepare \<Rightarrow> string + (Identity \<times> string)" where
  "Prepare_resolve inp req =
     (let interpreter = ScriptInterpreter (xp_command req) in
      case pi_resolve inp (xp_run_as req) (xp_cwd req) of
        Inl e \<Rightarrow> Inl e
      | Inr i \<Rightarrow>
          case (if xp_enhanced req \<and> interpreter \<noteq> [] then withInterpreter (pi_executable inp) i interpreter else Inr i) of
            Inl e \<Rightarrow> Inl e
          | Inr i' \<Rightarrow> (case pi_prep_id inp of None \<Rightarrow> Inl ''random source unavailable''
                       | Some pid \<Rightarrow> Inr (i', pid)))"

definition prepared_binding :: "prepare_inputs \<Rightarrow> Manager \<Rightarrow> ExecutionPrepare \<Rightarrow> string \<Rightarrow> ExecutionBinding" where
  "prepared_binding inp m req pid =
     \<lparr>eb_execution_id = xp_execution_id req, eb_node_id = m_node_id m, eb_preparation_id = pid,
      eb_boot_id = m_boot_id m, eb_expires = unix_milli (time_add (pi_now inp) (m_ttl m))\<rparr>"

definition prepared_identity :: "exec_env \<Rightarrow> Identity \<Rightarrow> ExecutionIdentity" where
  "prepared_identity env i =
     \<lparr>xi_username = id_username i, xi_uid = id_uid i, xi_gid = id_gid i, xi_groups = id_groups i,
      xi_groups_sha = GroupsDigest env i, xi_home = id_home i, xi_shell = id_shell i, xi_cwd = id_cwd i,
      xi_identity_sha = identity_Digest env i\<rparr>"

text \<open>Second critical section: the preparation is installed, or the call fails.\<close>

definition new_preparation :: "exec_env \<Rightarrow> prepare_inputs \<Rightarrow> Manager \<Rightarrow> ExecutionPrepare \<Rightarrow> ExecutionLimits \<Rightarrow>
    Identity \<Rightarrow> string \<Rightarrow> preparation" where
  "new_preparation env inp m req limits i pid =
     (let interpreter = ScriptInterpreter (xp_command req) in
      \<lparr>p_ref = m_next m, p_binding = prepared_binding inp m req pid, p_identity_sha = identity_Digest env i,
       p_command_sha = xe_sha env (xp_command req), p_limits = limits, p_identity = i,
       p_command = xp_command req, p_run_as = xp_run_as req, p_attached = False, p_cancelled = False,
       p_enhanced = xp_enhanced req, p_script_hash = xp_script_sha req, p_script_length = xp_script_length req,
       p_script_offset = 0, p_script_complete = (\<not> xp_enhanced req \<or> interpreter = []),
       p_script = (if xp_enhanced req \<and> interpreter \<noteq> [] then Some [] else None)\<rparr>)"

definition Prepare_install :: "exec_env \<Rightarrow> prepare_inputs \<Rightarrow> ExecutionPrepare \<Rightarrow> ExecutionLimits \<Rightarrow>
    Identity \<Rightarrow> string \<Rightarrow> Manager \<Rightarrow> (string + unit) \<times> Manager" where
  "Prepare_install env inp req limits i pid m =
     (let ident = xp_execution_id req in
      if m_closed m then (Inl ''execution manager unavailable'', m)
      else if m_prepared m ident \<noteq> None then (Inl ''execution already prepared'', m)
      else if m_runs m ident \<noteq> None then (Inl ''execution already durably claimed'', m)
      else if xp_enhanced req \<and> ScriptInterpreter (xp_command req) \<noteq> [] \<and> \<not> pi_spool_create inp
      then (Inl ''protected encrypted input storage unavailable'', m)
      else (Inr (), m\<lparr>m_prepared := (m_prepared m)(ident \<mapsto> new_preparation env inp m req limits i pid),
                       m_next := m_next m + 1\<rparr>))"

text \<open>The deferred section: the id stops being pending; the slot is given back afterwards when nothing
  was installed.\<close>

definition Prepare_exit :: "string \<Rightarrow> Manager \<Rightarrow> Manager" where
  "Prepare_exit ident m = m\<lparr>m_pending := m_pending m - {ident}\<rparr>"

text \<open>The whole call, uninterrupted.\<close>

definition prepare_refused :: "ExecutionPrepare \<Rightarrow> string \<Rightarrow> ExecutionPrepared" where
  "prepare_refused req e = \<lparr>pr_execution_id = xp_execution_id req, pr_binding = None, pr_identity = None,
     pr_command_sha = [], pr_limits = None, pr_error = e\<rparr>"

definition prepare_response :: "exec_env \<Rightarrow> prepare_inputs \<Rightarrow> Manager \<Rightarrow> ExecutionPrepare \<Rightarrow> ExecutionLimits \<Rightarrow>
    Identity \<Rightarrow> string \<Rightarrow> string \<Rightarrow> ExecutionPrepared" where
  "prepare_response env inp m req limits i pid e =
     \<lparr>pr_execution_id = xp_execution_id req, pr_binding = Some (prepared_binding inp m req pid),
      pr_identity = Some (prepared_identity env i), pr_command_sha = xe_sha env (xp_command req),
      pr_limits = Some limits, pr_error = e\<rparr>"

definition Prepare :: "exec_env \<Rightarrow> prepare_inputs \<Rightarrow> ExecutionPrepare option \<Rightarrow> Journal \<Rightarrow> Manager \<Rightarrow> Budget \<Rightarrow>
    ExecutionPrepared \<times> Manager \<times> Budget" where
  "Prepare env inp request j m b =
     (case request of
        None \<Rightarrow> (\<lparr>pr_execution_id = [], pr_binding = None, pr_identity = None, pr_command_sha = [],
                  pr_limits = None, pr_error = ''execution preparation required''\<rparr>, m, b)
      | Some req \<Rightarrow>
        case Prepare_checks env inp m j req of
          Inl e \<Rightarrow> (prepare_refused req e, m, b)
        | Inr limits \<Rightarrow>
          case Prepare_admit (xp_execution_id req) m b of
            (Inl e, m1, b1) \<Rightarrow> (prepare_refused req e, m1, b1)
          | (Inr _, m1, b1) \<Rightarrow>
            case Prepare_resolve inp req of
              Inl e \<Rightarrow> (prepare_refused req e, Prepare_exit (xp_execution_id req) m1, Release b1)
            | Inr (i, pid) \<Rightarrow>
              case Prepare_install env inp req limits i pid m1 of
                (Inl e, m2) \<Rightarrow> (prepare_response env inp m req limits i pid e,
                                Prepare_exit (xp_execution_id req) m2, Release b1)
              | (Inr _, m2) \<Rightarrow> (prepare_response env inp m req limits i pid [],
                                Prepare_exit (xp_execution_id req) m2, b1))"

section \<open>Expiry, attachment, status\<close>

definition remove_prepared :: "string \<Rightarrow> Manager \<Rightarrow> Manager" where
  "remove_prepared ident m = m\<lparr>m_prepared := (m_prepared m)(ident := None)\<rparr>"

text \<open>The timer of a preparation; it may still fire after \<open>Stop\<close>, so it compares addresses.\<close>

definition expire :: "string \<Rightarrow> nat \<Rightarrow> Manager \<Rightarrow> Budget \<Rightarrow> Manager \<times> Budget" where
  "expire ident ref m b =
     (case m_prepared m ident of
        Some p \<Rightarrow> if p_ref p = ref then (remove_prepared ident m, Release b) else (m, b)
      | None \<Rightarrow> (m, b))"

definition Attach :: "go_time \<Rightarrow> ExecutionBinding option \<Rightarrow> Manager \<Rightarrow> (string + unit) \<times> Manager" where
  "Attach now binding m =
     (case binding of
        None \<Rightarrow> (Inl ''execution manager unavailable'', m)
      | Some bd \<Rightarrow>
        if m_closed m then (Inl ''execution manager unavailable'', m)
        else case m_prepared m (eb_execution_id bd) of
          None \<Rightarrow> (Inl ''invalid or expired execution preparation'', m)
        | Some p \<Rightarrow>
          if p_binding p \<noteq> bd \<or> eb_expires bd \<le> unix_milli now
          then (Inl ''invalid or expired execution preparation'', m)
          else if p_attached p then (Inl ''execution transport already attached'', m)
          else (Inr (), m\<lparr>m_prepared := (m_prepared m)(eb_execution_id bd \<mapsto> p\<lparr>p_attached := True\<rparr>)\<rparr>))"

record ExecutionStatus =
  xt_execution_id :: string
  xt_binding :: "ExecutionBinding option"
  xt_state :: string
  xt_result :: "ExecutionResult option"

definition exec_Status :: "exec_env \<Rightarrow> db_faults \<Rightarrow> string \<Rightarrow> Journal \<Rightarrow> Manager \<Rightarrow> ExecutionStatus" where
  "exec_Status env f ident j m =
     (case Journal_Status (xe_journal env) f ident j of
        Some r \<Rightarrow> \<lparr>xt_execution_id = ident, xt_binding = Some (lr_binding r), xt_state = lr_state r, xt_result = lr_result r\<rparr>
      | None \<Rightarrow>
        case m_prepared m ident of
          Some p \<Rightarrow> \<lparr>xt_execution_id = ident, xt_binding = Some (p_binding p), xt_state = ''prepared'', xt_result = None\<rparr>
        | None \<Rightarrow> \<lparr>xt_execution_id = ident, xt_binding = None, xt_state = ''not_found'', xt_result = None\<rparr>)"

section \<open>Protected scripts\<close>

definition scriptPreparation :: "go_time \<Rightarrow> ExecutionBinding option \<Rightarrow> Manager \<Rightarrow> string + preparation" where
  "scriptPreparation now binding m =
     (case binding of
        None \<Rightarrow> Inl ''invalid script ownership''
      | Some bd \<Rightarrow>
        if m_closed m then Inl ''invalid script ownership''
        else case m_prepared m (eb_execution_id bd) of
          None \<Rightarrow> Inl ''invalid or completed protected script preparation''
        | Some p \<Rightarrow>
          if \<not> p_attached p \<or> p_binding p \<noteq> bd \<or> eb_expires bd \<le> unix_milli now \<or> \<not> p_enhanced p \<or>
             p_script p = None \<or> p_script_complete p
          then Inl ''invalid or completed protected script preparation''
          else Inr p)"

definition invalidateScript :: "ExecutionBinding option \<Rightarrow> Manager \<Rightarrow> Budget \<Rightarrow> Manager \<times> Budget" where
  "invalidateScript binding m b =
     (case binding of
        None \<Rightarrow> (m, b)
      | Some bd \<Rightarrow>
        case m_prepared m (eb_execution_id bd) of
          None \<Rightarrow> (m, b)
        | Some p \<Rightarrow> if p_binding p \<noteq> bd then (m, b)
                    else (remove_prepared (eb_execution_id bd) m, Release b))"

text \<open>\<open>write_ok\<close>: the spool took every byte of the chunk.\<close>

definition chunk_append :: "string \<Rightarrow> preparation \<Rightarrow> preparation" where
  "chunk_append bytes p =
     p\<lparr>p_script := Some (the (p_script p) @ bytes), p_script_offset := p_script_offset p + of_nat (length bytes)\<rparr>"

definition ScriptChunk_body :: "go_time \<Rightarrow> bool \<Rightarrow> ExecutionBinding option \<Rightarrow> (64 word \<times> string) option \<Rightarrow>
    Manager \<Rightarrow> (string + unit) \<times> Manager" where
  "ScriptChunk_body now write_ok binding chunk m =
     (case scriptPreparation now binding m of
        Inl e \<Rightarrow> (Inl e, m)
      | Inr p \<Rightarrow>
        case chunk of
          None \<Rightarrow> (Inl ''invalid protected script offset or length'', m)
        | Some (offset, bytes) \<Rightarrow>
          if bytes = [] \<or> MaxFrameBytes < length bytes \<or> offset \<noteq> p_script_offset p \<or>
             p_script_length p - p_script_offset p < of_nat (length bytes)
          then (Inl ''invalid protected script offset or length'', m)
          else if \<not> write_ok then (Inl ''protected script storage unavailable'', m)
          else (Inr (), m\<lparr>m_prepared := (m_prepared m)(eb_execution_id (the binding) \<mapsto> chunk_append bytes p)\<rparr>))"

definition ScriptChunk :: "go_time \<Rightarrow> bool \<Rightarrow> ExecutionBinding option \<Rightarrow> (64 word \<times> string) option \<Rightarrow>
    Manager \<Rightarrow> Budget \<Rightarrow> (string + unit) \<times> Manager \<times> Budget" where
  "ScriptChunk now write_ok binding chunk m b =
     (case ScriptChunk_body now write_ok binding chunk m of
        (Inl e, m') \<Rightarrow> (Inl e, invalidateScript binding m' b)
      | (Inr _, m') \<Rightarrow> (Inr (), m', b))"

definition ScriptEOF_body :: "exec_env \<Rightarrow> go_time \<Rightarrow> bool \<Rightarrow> ExecutionBinding option \<Rightarrow> (64 word \<times> string) option \<Rightarrow>
    Manager \<Rightarrow> (string + unit) \<times> Manager" where
  "ScriptEOF_body env now seal_ok binding eof m =
     (case scriptPreparation now binding m of
        Inl e \<Rightarrow> (Inl e, m)
      | Inr p \<Rightarrow>
        case eof of
          None \<Rightarrow> (Inl ''protected script content mismatch'', m)
        | Some (len, sha) \<Rightarrow>
          if len \<noteq> p_script_length p \<or> p_script_offset p \<noteq> p_script_length p \<or> sha \<noteq> p_script_hash p \<or>
             xe_sha env (the (p_script p)) \<noteq> p_script_hash p
          then (Inl ''protected script content mismatch'', m)
          else if \<not> seal_ok then (Inl ''protected script storage unavailable'', m)
          else (Inr (), m\<lparr>m_prepared := (m_prepared m)(eb_execution_id (the binding) \<mapsto> p\<lparr>p_script_complete := True\<rparr>)\<rparr>))"

definition ScriptEOF :: "exec_env \<Rightarrow> go_time \<Rightarrow> bool \<Rightarrow> ExecutionBinding option \<Rightarrow> (64 word \<times> string) option \<Rightarrow>
    Manager \<Rightarrow> Budget \<Rightarrow> (string + unit) \<times> Manager \<times> Budget" where
  "ScriptEOF env now seal_ok binding eof m b =
     (case ScriptEOF_body env now seal_ok binding eof m of
        (Inl e, m') \<Rightarrow> (Inl e, invalidateScript binding m' b)
      | (Inr _, m') \<Rightarrow> (Inr (), m', b))"

section \<open>Starting\<close>

text \<open>First critical section of \<open>Start\<close>: every binding the hub's message carries is compared, and the
  preparation moves to \<open>launching\<close>.\<close>

definition Start_begin :: "exec_env \<Rightarrow> db_faults \<Rightarrow> go_time \<Rightarrow> ExecutionStart option \<Rightarrow> Journal \<Rightarrow> Manager \<Rightarrow>
    (string + preparation) \<times> Manager" where
  "Start_begin env f now start j m =
     (case start of
        None \<Rightarrow> (Inl ''execution start binding required'', m)
      | Some st \<Rightarrow>
      case xs_binding st of
        None \<Rightarrow> (Inl ''execution start binding required'', m)
      | Some bd \<Rightarrow>
        if 128 < length (xs_policy st) \<or> \<not> valid_utf8 (xs_policy st) \<or> CHR 0x00 \<in> set (xs_policy st)
        then (Inl ''invalid execution policy version'', m)
        else if m_closed m then (Inl ''execution manager unavailable'', m)
        else case Journal_Status (xe_journal env) f (eb_execution_id bd) j of
          Some r \<Rightarrow> (Inl (if lr_binding r \<noteq> bd then ''execution ownership mismatch'' else ''execution already durably claimed''), m)
        | None \<Rightarrow>
        case m_prepared m (eb_execution_id bd) of
          None \<Rightarrow> (Inl ''invalid or expired execution preparation'', m)
        | Some p \<Rightarrow>
          if p_binding p \<noteq> bd \<or> eb_expires bd \<le> unix_milli now
          then (Inl ''invalid or expired execution preparation'', m)
          else if xs_command_sha st \<noteq> p_command_sha p \<or> xs_identity_sha st \<noteq> p_identity_sha p \<or> xs_limits st \<noteq> Some (p_limits p)
          then (Inl ''execution admission binding mismatch'', m)
          else if p_enhanced p \<and> (xs_receipt st = [] \<or> 16384 < length (xs_receipt st) \<or> \<not> p_script_complete p \<or>
              xs_admission_expires st \<le> unix_milli now \<or> eb_expires bd < xs_admission_expires st)
          then (Inl ''complete protected input and admission required'', m)
          else if \<not> p_enhanced p \<and> (xs_receipt st \<noteq> [] \<or> xs_admission_expires st \<noteq> 0)
          then (Inl ''unexpected protected admission'', m)
          else (Inr p, m\<lparr>m_prepared := (m_prepared m)(eb_execution_id bd := None),
                         m_launching := (m_launching m)(eb_execution_id bd \<mapsto> p)\<rparr>))"

text \<open>What the rest of \<open>Start\<close> meets: the resolver again, whether the context is done at each of its
  three checks, the clock before launch, the pipes and the process.\<close>

record start_inputs =
  si_resolve :: "string \<Rightarrow> string \<Rightarrow> string + Identity"
  si_executable :: "string \<Rightarrow> bool"
  si_cancelled :: "nat \<Rightarrow> bool"
  si_now :: "nat \<Rightarrow> go_time"
  si_script_opens :: bool
  si_pipe_fails :: "nat \<Rightarrow> bool"
  si_spawns :: bool
  si_claim_faults :: db_faults
  si_result_faults :: db_faults
  si_running_faults :: db_faults

definition Start_verify :: "exec_env \<Rightarrow> start_inputs \<Rightarrow> preparation \<Rightarrow> string + unit" where
  "Start_verify env inp p =
     (let interpreter = ScriptInterpreter (p_command p) in
      case (case si_resolve inp (p_run_as p) (id_cwd (p_identity p)) of
              Inl e \<Rightarrow> Inl e
            | Inr i \<Rightarrow> if p_enhanced p \<and> interpreter \<noteq> [] then withInterpreter (si_executable inp) i interpreter else Inr i) of
        Inl e \<Rightarrow> Inl ''prepared operating-system identity changed''
      | Inr i \<Rightarrow> if identity_Digest env i \<noteq> identity_Digest env (p_identity p)
                 then Inl ''prepared operating-system identity changed''
                 else if si_cancelled inp 0 \<or> p_cancelled p then Inl ''context canceled'' else Inr ())"

definition Start_claim :: "exec_env \<Rightarrow> start_inputs \<Rightarrow> ExecutionStart \<Rightarrow> preparation \<Rightarrow> Journal \<Rightarrow>
    (journal_error + LaunchRecord) \<times> Journal" where
  "Start_claim env inp st p j =
     Claim (xe_journal env) (si_claim_faults inp) (p_binding p) (p_command_sha p) (p_identity_sha p) (xs_policy st) j"

definition launchAuthorityValid :: "start_inputs \<Rightarrow> nat \<Rightarrow> ExecutionStart \<Rightarrow> preparation \<Rightarrow> bool" where
  "launchAuthorityValid inp k st p \<longleftrightarrow>
     \<not> si_cancelled inp k \<and> \<not> p_cancelled p \<and> unix_milli (si_now inp k) < eb_expires (p_binding p) \<and>
     (p_enhanced p \<longrightarrow> unix_milli (si_now inp k) < xs_admission_expires st)"

definition launch_failed :: "ExecutionBinding \<Rightarrow> string \<Rightarrow> ExecutionResult" where
  "launch_failed bd reason = \<lparr>er_binding = bd, er_state = ''launch_failed'', er_exit_code = 0, er_signal = [],
     er_reason = reason, er_stdout_complete = False, er_stderr_complete = False\<rparr>"

text \<open>The process \<open>cmd.Start\<close> creates: shell, arguments, working directory, and the script fed to it.\<close>

record spawn =
  sp_id :: string
  sp_shell :: string
  sp_args :: "string list"
  sp_cwd :: string
  sp_identity :: Identity
  sp_script :: "string option"

definition spawn_of :: "preparation \<Rightarrow> spawn" where
  "spawn_of p =
     \<lparr>sp_id = eb_execution_id (p_binding p), sp_shell = id_shell (p_identity p),
      sp_args = (if p_enhanced p \<and> ScriptInterpreter (p_command p) \<noteq> [] then [''-s''] else [''-c'', p_command p]),
      sp_cwd = id_cwd (p_identity p), sp_identity = p_identity p, sp_script = p_script p\<rparr>"

definition new_run :: "preparation \<Rightarrow> Run" where
  "new_run p = \<lparr>r_binding = p_binding p, r_enhanced = p_enhanced p, r_script_length = p_script_length p,
     r_script_hash = p_script_hash p, r_reason = None, r_input_sequence = 0, r_input_closed = False\<rparr>"

text \<open>From the durable claim to the running process. The third component is the process that was
  created, also when it is killed again because \<open>RecordRunning\<close> failed.\<close>

definition launchFailure :: "exec_env \<Rightarrow> start_inputs \<Rightarrow> preparation \<Rightarrow> string \<Rightarrow> string \<Rightarrow> Journal \<Rightarrow>
    (string + Run) \<times> Journal \<times> spawn option" where
  "launchFailure env inp p reason err j =
     (Inl err, snd (RecordResult (xe_journal env) (si_result_faults inp) (launch_failed (p_binding p) reason) j), None)"

definition Start_launch :: "exec_env \<Rightarrow> start_inputs \<Rightarrow> ExecutionStart \<Rightarrow> preparation \<Rightarrow> Journal \<Rightarrow>
    (string + Run) \<times> Journal \<times> spawn option" where
  "Start_launch env inp st p j =
     (if \<not> launchAuthorityValid inp 1 st p
      then launchFailure env inp p ''execution authority expired or cancelled before launch''
             ''execution cancelled or expired before launch'' j
      else if p_script p \<noteq> None \<and> \<not> si_script_opens inp
      then (Inl ''protected input unavailable before launch'', j, None)
      else if si_pipe_fails inp 0
      then launchFailure env inp p ''execution input pipe unavailable'' ''execution input pipe unavailable'' j
      else if si_pipe_fails inp 1
      then launchFailure env inp p ''execution output pipe unavailable'' ''execution output pipe unavailable'' j
      else if si_pipe_fails inp 2
      then launchFailure env inp p ''execution error pipe unavailable'' ''execution error pipe unavailable'' j
      else if \<not> launchAuthorityValid inp 2 st p
      then launchFailure env inp p ''execution authority expired or cancelled before launch''
             ''execution authority expired or cancelled before launch'' j
      else if \<not> si_spawns inp
      then launchFailure env inp p ''target process could not start'' ''target process could not start'' j
      else case RecordRunning (xe_journal env) (si_running_faults inp) (eb_execution_id (p_binding p)) j of
          (Inl _, j') \<Rightarrow> (Inl ''launch outcome could not be durably recorded'', j', Some (spawn_of p))
        | (Inr _, j') \<Rightarrow> (Inr (new_run p), j', Some (spawn_of p)))"

definition Start_publish :: "string \<Rightarrow> Run \<Rightarrow> Manager \<Rightarrow> Manager" where
  "Start_publish ident r m = m\<lparr>m_runs := (m_runs m)(ident \<mapsto> r)\<rparr>"

definition Start_exit :: "string \<Rightarrow> Manager \<Rightarrow> Manager" where
  "Start_exit ident m = m\<lparr>m_launching := (m_launching m)(ident := None)\<rparr>"

fun journal_error_text :: "journal_error \<Rightarrow> string" where
  "journal_error_text ErrAlreadyClaimed = ''execution already durably claimed''"
| "journal_error_text ErrClaimIO = ''claim execution journal''"
| "journal_error_text ErrClaimNotDurable = ''execution claim not durable''"
| "journal_error_text ErrNotClaimed = ''execution not claimed''"
| "journal_error_text ErrUpdateIO = ''execution journal file unavailable''"
| "journal_error_text ErrUpdateNotDurable = ''execution journal update not durable''"
| "journal_error_text ErrOpenDirectory = ''open execution journal directory''"
| "journal_error_text ErrDirectoryNotDurable = ''execution journal directory not durable''"

text \<open>The whole call, uninterrupted.\<close>

definition Start :: "exec_env \<Rightarrow> db_faults \<Rightarrow> go_time \<Rightarrow> start_inputs \<Rightarrow> ExecutionStart option \<Rightarrow>
    Journal \<Rightarrow> Manager \<Rightarrow> Budget \<Rightarrow> (string + Run) \<times> Journal \<times> Manager \<times> Budget \<times> spawn option" where
  "Start env f now inp start j m b =
     (case Start_begin env f now start j m of
        (Inl e, m1) \<Rightarrow> (Inl e, j, m1, b, None)
      | (Inr p, m1) \<Rightarrow>
        let ident = eb_execution_id (p_binding p); st = the start in
        case Start_verify env inp p of
          Inl e \<Rightarrow> (Inl e, j, Start_exit ident m1, Release b, None)
        | Inr _ \<Rightarrow>
          case Start_claim env inp st p j of
            (Inl e, j1) \<Rightarrow> (Inl (journal_error_text e), j1, Start_exit ident m1, Release b, None)
          | (Inr _, j1) \<Rightarrow>
            case Start_launch env inp st p j1 of
              (Inl e, j2, sp) \<Rightarrow> (Inl e, j2, Start_exit ident m1, Release b, sp)
            | (Inr r, j2, sp) \<Rightarrow> (Inr r, j2, Start_exit ident (Start_publish ident r m1), b, sp))"

section \<open>Cancelling, closing, finishing\<close>

definition cancel_reason :: "string \<Rightarrow> string" where
  "cancel_reason reason =
     (if reason = [] \<or> 128 < length reason \<or> \<not> valid_utf8 reason \<or> CHR 0x00 \<in> set reason
      then ''cancelled'' else reason)"

text \<open>\<open>Run.Cancel\<close>: \<open>cancelOnce\<close> lets only the first reason through.\<close>

definition Run_Cancel :: "string \<Rightarrow> Run \<Rightarrow> Run" where
  "Run_Cancel reason r = (case r_reason r of None \<Rightarrow> r\<lparr>r_reason := Some (cancel_reason reason)\<rparr> | Some _ \<Rightarrow> r)"

definition Cancel :: "exec_env \<Rightarrow> db_faults \<Rightarrow> (ExecutionBinding option \<times> string) option \<Rightarrow> Journal \<Rightarrow> Manager \<Rightarrow> Budget \<Rightarrow>
    (string + unit) \<times> Manager \<times> Budget" where
  "Cancel env f request j m b =
     (case request of
        Some (Some bd, reason) \<Rightarrow>
          (let ident = eb_execution_id bd in
           case m_prepared m ident of
             Some p \<Rightarrow>
               if p_binding p \<noteq> bd then (Inl ''execution ownership mismatch'', m, b)
               else (Inr (), remove_prepared ident m, Release b)
           | None \<Rightarrow>
           case m_launching m ident of
             Some p \<Rightarrow>
               if p_binding p \<noteq> bd then (Inl ''execution ownership mismatch'', m, b)
               else (Inr (), m\<lparr>m_launching := (m_launching m)(ident \<mapsto> p\<lparr>p_cancelled := True\<rparr>)\<rparr>, b)
           | None \<Rightarrow>
           case m_runs m ident of
             Some r \<Rightarrow>
               if r_binding r \<noteq> bd then (Inl ''execution ownership mismatch'', m, b)
               else (Inr (), m\<lparr>m_runs := (m_runs m)(ident \<mapsto> Run_Cancel reason r)\<rparr>, b)
           | None \<Rightarrow>
           case Journal_Status (xe_journal env) f ident j of
             Some rec \<Rightarrow> if lr_binding rec = bd then (Inr (), m, b) else (Inl ''execution not found'', m, b)
           | None \<Rightarrow> (Inl ''execution not found'', m, b))
      | _ \<Rightarrow> (Inl ''execution cancellation binding required'', m, b))"

text \<open>\<open>Close\<close>: no new work, every preparation dropped with its slot, every launch cancelled; after the
  launches have ended, every run cancelled.\<close>

definition Close_begin :: "Manager \<Rightarrow> Budget \<Rightarrow> Manager \<times> Budget" where
  "Close_begin m b =
     (if m_closed m then (m, b)
      else (m\<lparr>m_closed := True, m_prepared := Map.empty,
              m_launching := (\<lambda>i. map_option (\<lambda>p. p\<lparr>p_cancelled := True\<rparr>) (m_launching m i))\<rparr>,
            (Release ^^ card (dom (m_prepared m))) b))"

definition Close_runs :: "Manager \<Rightarrow> Manager" where
  "Close_runs m = m\<lparr>m_runs := (\<lambda>i. map_option (Run_Cancel ''control_transport_lost'') (m_runs m i))\<rparr>"

definition finish :: "string \<Rightarrow> Manager \<Rightarrow> Manager" where
  "finish ident m = m\<lparr>m_runs := (m_runs m)(ident := None)\<rparr>"

section \<open>Interleavings\<close>

text \<open>
  The goroutines in flight. A \<open>Prepare\<close> call that was admitted is known by its pending id, a
  \<open>Start\<close> call by its launching id; their local variables are the stage they reached. \<open>s_owed\<close>
  counts the calls that left the mutex and still have to run \<open>budget.Release\<close>; \<open>s_others\<close> the
  slots held by terminal sessions. \<open>s_spawned\<close> lists every process ever created, oldest first.
\<close>

datatype prepare_stage = PAdmitted ExecutionPrepare ExecutionLimits | PInstalled | PFailed
datatype start_stage = SBegun ExecutionStart | SVerified ExecutionStart | SClaimed ExecutionStart
  | SReady Run | SLaunched | SFailed

record exec_sys =
  s_mgr :: Manager
  s_budget :: Budget
  s_journal :: Journal
  s_preparing :: "string \<rightharpoonup> prepare_stage"
  s_starting :: "string \<rightharpoonup> start_stage"
  s_owed :: nat
  s_others :: nat
  s_spawned :: "spawn list"

definition boot_sys :: "Manager \<Rightarrow> go_int \<Rightarrow> Journal \<Rightarrow> spawn list \<Rightarrow> exec_sys" where
  "boot_sys m maximum j spawned = \<lparr>s_mgr = m, s_budget = New_budget maximum, s_journal = j,
     s_preparing = Map.empty, s_starting = Map.empty, s_owed = 0, s_others = 0, s_spawned = spawned\<rparr>"

inductive exec_step :: "exec_env \<Rightarrow> exec_sys \<Rightarrow> exec_sys \<Rightarrow> bool" for env where
  prepare_admit:
    "\<lbrakk>Prepare_checks env inp (s_mgr s) (s_journal s) req = Inr limits;
      Prepare_admit (xp_execution_id req) m (s_budget s) = (Inr (), m', b'); m = s_mgr s\<rbrakk> \<Longrightarrow>
     exec_step env s (s\<lparr>s_mgr := m', s_budget := b',
        s_preparing := (s_preparing s)(xp_execution_id req \<mapsto> PAdmitted req limits)\<rparr>)"
| prepare_unresolved:
    "\<lbrakk>s_preparing s i = Some (PAdmitted req limits); Prepare_resolve inp req = Inl e\<rbrakk> \<Longrightarrow>
     exec_step env s (s\<lparr>s_preparing := (s_preparing s)(i \<mapsto> PFailed)\<rparr>)"
| prepare_install:
    "\<lbrakk>s_preparing s i = Some (PAdmitted req limits); Prepare_resolve inp req = Inr (ident, pid);
      Prepare_install env inp req limits ident pid (s_mgr s) = (Inr (), m')\<rbrakk> \<Longrightarrow>
     exec_step env s (s\<lparr>s_mgr := m', s_preparing := (s_preparing s)(i \<mapsto> PInstalled)\<rparr>)"
| prepare_refused:
    "\<lbrakk>s_preparing s i = Some (PAdmitted req limits); Prepare_resolve inp req = Inr (ident, pid);
      Prepare_install env inp req limits ident pid (s_mgr s) = (Inl e, m')\<rbrakk> \<Longrightarrow>
     exec_step env s (s\<lparr>s_mgr := m', s_preparing := (s_preparing s)(i \<mapsto> PFailed)\<rparr>)"
| prepare_exit_installed:
    "s_preparing s i = Some PInstalled \<Longrightarrow>
     exec_step env s (s\<lparr>s_mgr := Prepare_exit i (s_mgr s), s_preparing := (s_preparing s)(i := None)\<rparr>)"
| prepare_exit_failed:
    "s_preparing s i = Some PFailed \<Longrightarrow>
     exec_step env s (s\<lparr>s_mgr := Prepare_exit i (s_mgr s), s_preparing := (s_preparing s)(i := None),
        s_owed := Suc (s_owed s)\<rparr>)"
| budget_release:
    "s_owed s = Suc n \<Longrightarrow> exec_step env s (s\<lparr>s_budget := Release (s_budget s), s_owed := n\<rparr>)"
| other_acquire:
    "Acquire (s_budget s) = (True, b') \<Longrightarrow> exec_step env s (s\<lparr>s_budget := b', s_others := Suc (s_others s)\<rparr>)"
| other_release:
    "s_others s = Suc n \<Longrightarrow> exec_step env s (s\<lparr>s_budget := Release (s_budget s), s_others := n\<rparr>)"
| budget_other:
    "\<lbrakk>op \<noteq> OpAcquire; op \<noteq> OpRelease\<rbrakk> \<Longrightarrow>
     exec_step env s (s\<lparr>s_budget := snd (budget_step op (s_budget s))\<rparr>)"
| timer_expire:
    "expire i ref (s_mgr s) (s_budget s) = (m', b') \<Longrightarrow> exec_step env s (s\<lparr>s_mgr := m', s_budget := b'\<rparr>)"
| attach:
    "Attach now bd (s_mgr s) = (res, m') \<Longrightarrow> exec_step env s (s\<lparr>s_mgr := m'\<rparr>)"
| script_chunk:
    "ScriptChunk now ok bd chunk (s_mgr s) (s_budget s) = (res, m', b') \<Longrightarrow>
     exec_step env s (s\<lparr>s_mgr := m', s_budget := b'\<rparr>)"
| script_eof:
    "ScriptEOF env now ok bd eof (s_mgr s) (s_budget s) = (res, m', b') \<Longrightarrow>
     exec_step env s (s\<lparr>s_mgr := m', s_budget := b'\<rparr>)"
| start_begin:
    "Start_begin env f now (Some st) (s_journal s) (s_mgr s) = (Inr p, m') \<Longrightarrow>
     exec_step env s (s\<lparr>s_mgr := m', s_starting := (s_starting s)(eb_execution_id (p_binding p) \<mapsto> SBegun st)\<rparr>)"
| start_unverified:
    "\<lbrakk>s_starting s i = Some (SBegun st); m_launching (s_mgr s) i = Some p; Start_verify env inp p = Inl e\<rbrakk> \<Longrightarrow>
     exec_step env s (s\<lparr>s_starting := (s_starting s)(i \<mapsto> SFailed)\<rparr>)"
| start_verified:
    "\<lbrakk>s_starting s i = Some (SBegun st); m_launching (s_mgr s) i = Some p; Start_verify env inp p = Inr ()\<rbrakk> \<Longrightarrow>
     exec_step env s (s\<lparr>s_starting := (s_starting s)(i \<mapsto> SVerified st)\<rparr>)"
| start_claimed:
    "\<lbrakk>s_starting s i = Some (SVerified st); m_launching (s_mgr s) i = Some p;
      Start_claim env inp st p (s_journal s) = (Inr r, j')\<rbrakk> \<Longrightarrow>
     exec_step env s (s\<lparr>s_journal := j', s_starting := (s_starting s)(i \<mapsto> SClaimed st)\<rparr>)"
| start_unclaimed:
    "\<lbrakk>s_starting s i = Some (SVerified st); m_launching (s_mgr s) i = Some p;
      Start_claim env inp st p (s_journal s) = (Inl e, j')\<rbrakk> \<Longrightarrow>
     exec_step env s (s\<lparr>s_journal := j', s_starting := (s_starting s)(i \<mapsto> SFailed)\<rparr>)"
| start_launch:
    "\<lbrakk>s_starting s i = Some (SClaimed st); m_launching (s_mgr s) i = Some p;
      Start_launch env inp st p (s_journal s) = (res, j', sp)\<rbrakk> \<Longrightarrow>
     exec_step env s (s\<lparr>s_journal := j',
        s_starting := (s_starting s)(i \<mapsto> (case res of Inl e \<Rightarrow> SFailed | Inr r \<Rightarrow> SReady r)),
        s_spawned := s_spawned s @ (case sp of None \<Rightarrow> [] | Some x \<Rightarrow> [x])\<rparr>)"
| start_publish:
    "s_starting s i = Some (SReady r) \<Longrightarrow>
     exec_step env s (s\<lparr>s_mgr := Start_publish i r (s_mgr s), s_starting := (s_starting s)(i \<mapsto> SLaunched)\<rparr>)"
| start_exit_launched:
    "s_starting s i = Some SLaunched \<Longrightarrow>
     exec_step env s (s\<lparr>s_mgr := Start_exit i (s_mgr s), s_starting := (s_starting s)(i := None)\<rparr>)"
| start_exit_failed:
    "s_starting s i = Some SFailed \<Longrightarrow>
     exec_step env s (s\<lparr>s_mgr := Start_exit i (s_mgr s), s_starting := (s_starting s)(i := None),
        s_owed := Suc (s_owed s)\<rparr>)"
| cancel:
    "Cancel env f request (s_journal s) (s_mgr s) (s_budget s) = (res, m', b') \<Longrightarrow>
     exec_step env s (s\<lparr>s_mgr := m', s_budget := b'\<rparr>)"
| close_begin:
    "Close_begin (s_mgr s) (s_budget s) = (m', b') \<Longrightarrow> exec_step env s (s\<lparr>s_mgr := m', s_budget := b'\<rparr>)"
| close_runs:
    "exec_step env s (s\<lparr>s_mgr := Close_runs (s_mgr s)\<rparr>)"
| run_finish:
    "m_runs (s_mgr s) i \<noteq> None \<Longrightarrow>
     exec_step env s (s\<lparr>s_mgr := finish i (s_mgr s), s_owed := Suc (s_owed s)\<rparr>)"
| run_result:
    "RecordResult (xe_journal env) f r (s_journal s) = (res, j') \<Longrightarrow> exec_step env s (s\<lparr>s_journal := j'\<rparr>)"
| agent_restart:
    "NewManager node ttl boot = Inr m \<Longrightarrow>
     exec_step env s (boot_sys m maximum (restart pick (s_journal s)) (s_spawned s))"

inductive exec_reachable :: "exec_env \<Rightarrow> exec_sys \<Rightarrow> bool" for env where
  boot: "\<lbrakk>NewManager node ttl rnd = Inr m; openJournal opn syn cls dir disk = Inr j\<rbrakk> \<Longrightarrow>
         exec_reachable env (boot_sys m maximum j [])"
| step: "\<lbrakk>exec_reachable env s; exec_step env s s'\<rbrakk> \<Longrightarrow> exec_reachable env s'"

end
