(* ===== verification/Exec_Invariants.thy ===== *)
theory Exec_Invariants
  imports Exec_Manager
begin

text \<open>
  Invariants of the interleaved execution manager: the accounting of budget slots, the single
  spawn per execution id, and the integrity of preparations.
\<close>

section \<open>Slot accounting\<close>

text \<open>The ids whose goroutine stage satisfies a predicate.\<close>

definition live :: "('st \<Rightarrow> bool) \<Rightarrow> ('k \<rightharpoonup> 'st) \<Rightarrow> 'k set" where
  "live Q m = {i. \<exists>st. m i = Some st \<and> Q st}"

lemma live_upd: "live Q (m(i \<mapsto> st)) = (if Q st then insert i (live Q m) else live Q m - {i})"
  by (auto simp: live_def)

lemma live_del: "live Q (m(i := None)) = live Q m - {i}"
  by (auto simp: live_def)

lemma live_subset: "live Q m \<subseteq> dom m"
  by (auto simp: live_def)

lemma live_empty [simp]: "live Q Map.empty = {}"
  by (simp add: live_def)

lemma in_live: "m i = Some st \<Longrightarrow> i \<in> live Q m \<longleftrightarrow> Q st"
  by (simp add: live_def)

text \<open>Who holds a slot: a \<open>Prepare\<close> that has not installed its preparation, a preparation, a \<open>Start\<close>
  that has not published its run, a run, a call about to release, another session.\<close>

abbreviation prepare_holders :: "exec_sys \<Rightarrow> string set" where
  "prepare_holders s \<equiv> live (\<lambda>st. st \<noteq> PInstalled) (s_preparing s)"

abbreviation start_holders :: "exec_sys \<Rightarrow> string set" where
  "start_holders s \<equiv> live (\<lambda>st. st \<noteq> SLaunched) (s_starting s)"

definition slots :: "exec_sys \<Rightarrow> nat" where
  "slots s = card (prepare_holders s) + card (dom (m_prepared (s_mgr s))) + card (start_holders s) +
     card (dom (m_runs (s_mgr s))) + s_owed s + s_others s"

definition keys_inv :: "exec_sys \<Rightarrow> bool" where
  "keys_inv s \<longleftrightarrow>
     finite (dom (m_prepared (s_mgr s))) \<and> finite (dom (m_runs (s_mgr s))) \<and>
     finite (dom (s_preparing s)) \<and> finite (dom (s_starting s)) \<and>
     m_pending (s_mgr s) = dom (s_preparing s) \<and> dom (m_launching (s_mgr s)) = dom (s_starting s) \<and>
     prepare_holders s \<inter> (dom (m_prepared (s_mgr s)) \<union> dom (s_starting s) \<union> dom (m_runs (s_mgr s))) = {} \<and>
     dom (m_prepared (s_mgr s)) \<inter> (dom (s_starting s) \<union> dom (m_runs (s_mgr s))) = {} \<and>
     start_holders s \<inter> dom (m_runs (s_mgr s)) = {} \<and>
     (\<forall>i req limits. s_preparing s i = Some (PAdmitted req limits) \<longrightarrow> xp_execution_id req = i)"

definition slot_inv :: "exec_sys \<Rightarrow> bool" where
  "slot_inv s \<longleftrightarrow> keys_inv s \<and> sb.accounts (slots s) (s_budget s)"

text \<open>What a manager operation may do to the keys and to the budget: nothing, or drop one preparation
  with one release.\<close>

definition same_keys :: "Manager \<Rightarrow> Manager \<Rightarrow> bool" where
  "same_keys m m' \<longleftrightarrow> dom (m_prepared m') = dom (m_prepared m) \<and> dom (m_launching m') = dom (m_launching m) \<and>
     dom (m_runs m') = dom (m_runs m) \<and> m_pending m' = m_pending m"

definition slot_frame :: "Manager \<Rightarrow> Budget \<Rightarrow> Manager \<Rightarrow> Budget \<Rightarrow> bool" where
  "slot_frame m b m' b' \<longleftrightarrow>
     same_keys m m' \<and> b' = b \<or>
     (\<exists>i. m_prepared m i \<noteq> None \<and> m' = remove_prepared i m \<and> b' = Release b)"

lemma frame_keep [intro]: "same_keys m m' \<Longrightarrow> slot_frame m b m' b"
  by (simp add: slot_frame_def)

lemma frame_refl [intro!, simp]: "slot_frame m b m b"
  by (simp add: slot_frame_def same_keys_def)

lemma frame_drop [intro]: "m_prepared m i = Some p \<Longrightarrow> slot_frame m b (remove_prepared i m) (Release b)"
  by (auto simp: slot_frame_def)

lemma expire_frame: "expire i ref m b = (m', b') \<Longrightarrow> slot_frame m b m' b'"
  by (auto simp: expire_def split: option.splits if_splits)

lemma same_keys_prepared:
  "m_prepared m i = Some p \<Longrightarrow> same_keys m (m\<lparr>m_prepared := (m_prepared m)(i \<mapsto> q)\<rparr>)"
  by (auto simp: same_keys_def)

lemma same_keys_launching:
  "m_launching m i = Some p \<Longrightarrow> same_keys m (m\<lparr>m_launching := (m_launching m)(i \<mapsto> q)\<rparr>)"
  by (auto simp: same_keys_def)

lemma same_keys_runs:
  "m_runs m i = Some p \<Longrightarrow> same_keys m (m\<lparr>m_runs := (m_runs m)(i \<mapsto> q)\<rparr>)"
  by (auto simp: same_keys_def)

lemma same_keys_refl [simp]: "same_keys m m"
  by (simp add: same_keys_def)

lemmas same_keys_intros = same_keys_prepared same_keys_launching same_keys_runs

lemma Attach_keys: "Attach now bd m = (res, m') \<Longrightarrow> same_keys m m'"
  by (auto simp: Attach_def intro: same_keys_intros split: option.splits if_splits)

lemma scriptPreparation_Inr:
  "scriptPreparation now bd m = Inr p \<Longrightarrow>
   \<exists>b. bd = Some b \<and> m_prepared m (eb_execution_id b) = Some p \<and> p_binding p = b \<and> p_script p \<noteq> None \<and>
       \<not> p_script_complete p \<and> p_enhanced p \<and> p_attached p \<and> unix_milli now < eb_expires b \<and> \<not> m_closed m"
  by (auto simp: scriptPreparation_def split: option.splits if_splits)

lemma invalidate_frame: "invalidateScript bd m b = (m', b') \<Longrightarrow> slot_frame m b m' b'"
  by (auto simp: invalidateScript_def split: option.splits if_splits)

lemma ScriptChunk_body_keys:
  assumes "ScriptChunk_body now ok bd chunk m = (res, m')"
  shows "same_keys m m'" "\<And>e. res = Inl e \<Longrightarrow> m' = m"
  using assms
  by (auto simp: ScriptChunk_body_def dest!: scriptPreparation_Inr intro!: same_keys_prepared
      split: sum.splits option.splits if_splits)

lemma ScriptEOF_body_keys:
  assumes "ScriptEOF_body env now ok bd eof m = (res, m')"
  shows "same_keys m m'" "\<And>e. res = Inl e \<Longrightarrow> m' = m"
  using assms
  by (auto simp: ScriptEOF_body_def dest!: scriptPreparation_Inr intro!: same_keys_prepared
      split: sum.splits option.splits if_splits)

lemma ScriptChunk_frame: "ScriptChunk now ok bd chunk m b = (res, m', b') \<Longrightarrow> slot_frame m b m' b'"
  by (auto simp: ScriptChunk_def split: prod.splits sum.splits
      dest: ScriptChunk_body_keys invalidate_frame)

lemma ScriptEOF_frame: "ScriptEOF env now ok bd eof m b = (res, m', b') \<Longrightarrow> slot_frame m b m' b'"
  by (auto simp: ScriptEOF_def split: prod.splits sum.splits
      dest: ScriptEOF_body_keys invalidate_frame)

lemma Cancel_frame:
  assumes "Cancel env f request j m b = (res, m', b')"
  shows "slot_frame m b m' b'"
proof (cases "\<exists>bd reason. request = Some (Some bd, reason)")
  case False
  with assms show ?thesis by (auto simp: Cancel_def split: option.splits)
next
  case True
  then obtain bd reason where r: "request = Some (Some bd, reason)" by blast
  let ?i = "eb_execution_id bd"
  show ?thesis
  proof (cases "m_prepared m ?i")
    case (Some p)
    with assms r show ?thesis by (auto simp: Cancel_def Let_def split: if_splits)
  next
    case np: None
    show ?thesis
    proof (cases "m_launching m ?i")
      case (Some p)
      with assms r np show ?thesis by (auto simp: Cancel_def Let_def intro: same_keys_launching split: if_splits)
    next
      case nl: None
      then show ?thesis
        using assms r np
        by (cases "m_runs m ?i") (auto simp: Cancel_def Let_def intro: same_keys_runs split: if_splits option.splits)
    qed
  qed
qed

lemma slot_frame_inv:
  assumes inv: "slot_inv s" and frame: "slot_frame (s_mgr s) (s_budget s) m' b'"
  shows "slot_inv (s\<lparr>s_mgr := m', s_budget := b'\<rparr>)"
proof (cases "same_keys (s_mgr s) m' \<and> b' = s_budget s")
  case True
  with inv show ?thesis by (simp add: slot_inv_def keys_inv_def slots_def same_keys_def)
next
  case False
  with frame obtain i where i: "m_prepared (s_mgr s) i \<noteq> None" and m': "m' = remove_prepared i (s_mgr s)"
    and b': "b' = Release (s_budget s)" by (auto simp: slot_frame_def)
  let ?P = "dom (m_prepared (s_mgr s))"
  have "finite ?P" "i \<in> ?P" using inv i by (auto simp: slot_inv_def keys_inv_def)
  then have "Suc (card (?P - {i})) = card ?P" by (rule card_Suc_Diff1)
  then have "slots s = Suc (slots (s\<lparr>s_mgr := m', s_budget := b'\<rparr>))"
    by (simp add: slots_def m' remove_prepared_def)
  moreover have "keys_inv (s\<lparr>s_mgr := m', s_budget := b'\<rparr>)"
    using inv by (auto simp: slot_inv_def keys_inv_def m' remove_prepared_def split: if_splits)
  ultimately show ?thesis
    using inv by (auto simp: slot_inv_def b' intro: sb.accounts_release)
qed

lemma keys_invD:
  assumes "keys_inv s"
  shows "dom (m_launching (s_mgr s)) = dom (s_starting s)"
    "prepare_holders s \<inter> (dom (m_prepared (s_mgr s)) \<union> dom (s_starting s) \<union> dom (m_runs (s_mgr s))) = {}"
    "dom (m_prepared (s_mgr s)) \<inter> (dom (s_starting s) \<union> dom (m_runs (s_mgr s))) = {}"
    "start_holders s \<inter> dom (m_runs (s_mgr s)) = {}"
proof -
  note k = assms [unfolded keys_inv_def]
  show "dom (m_launching (s_mgr s)) = dom (s_starting s)" using k by (elim conjE)
  show "prepare_holders s \<inter> (dom (m_prepared (s_mgr s)) \<union> dom (s_starting s) \<union> dom (m_runs (s_mgr s))) = {}"
    using k by (elim conjE)
  show "dom (m_prepared (s_mgr s)) \<inter> (dom (s_starting s) \<union> dom (m_runs (s_mgr s))) = {}" using k by (elim conjE)
  show "start_holders s \<inter> dom (m_runs (s_mgr s)) = {}" using k by (elim conjE)
qed

lemma keys_holder:
  assumes "keys_inv s" "i \<in> prepare_holders s"
  shows "m_prepared (s_mgr s) i = None" "m_launching (s_mgr s) i = None" "m_runs (s_mgr s) i = None"
proof -
  have "i \<notin> dom (m_prepared (s_mgr s)) \<union> dom (s_starting s) \<union> dom (m_runs (s_mgr s))"
    using assms(2) keys_invD(2) [OF assms(1)] by blast
  then have "i \<notin> dom (m_prepared (s_mgr s))" "i \<notin> dom (m_launching (s_mgr s))" "i \<notin> dom (m_runs (s_mgr s))"
    by (simp_all add: keys_invD(1) [OF assms(1)])
  then show "m_prepared (s_mgr s) i = None" "m_launching (s_mgr s) i = None" "m_runs (s_mgr s) i = None"
    by (simp_all add: domIff)
qed

lemma live_finite: "keys_inv s \<Longrightarrow> finite (prepare_holders s)" "keys_inv s \<Longrightarrow> finite (start_holders s)"
  by (auto simp: keys_inv_def intro: finite_subset [OF live_subset])

text \<open>A stage change that keeps the goroutine a holder changes no count.\<close>

lemma stage_stays:
  "\<lbrakk>m i = Some st; Q st; Q st'\<rbrakk> \<Longrightarrow> live Q (m(i \<mapsto> st')) = live Q m \<and> dom (m(i \<mapsto> st')) = dom m"
  by (auto simp: live_def)

lemma prepare_stage_inv:
  assumes "slot_inv s" "s_preparing s i = Some st" "st \<noteq> PInstalled"
  shows "slot_inv (s\<lparr>s_preparing := (s_preparing s)(i \<mapsto> PFailed)\<rparr>)"
  using assms stage_stays [of "s_preparing s" i st "\<lambda>st. st \<noteq> PInstalled" PFailed]
  by (auto simp: slot_inv_def keys_inv_def slots_def)

lemma start_stage_inv:
  assumes "slot_inv s" "s_starting s i = Some st" "st \<noteq> SLaunched" "st' \<noteq> SLaunched"
  shows "slot_inv (s\<lparr>s_starting := (s_starting s)(i \<mapsto> st')\<rparr>)"
  using assms stage_stays [of "s_starting s" i st "\<lambda>st. st \<noteq> SLaunched" st']
  by (simp add: slot_inv_def keys_inv_def slots_def)

lemma start_stage_journal_inv:
  assumes "slot_inv s" "s_starting s i = Some st" "st \<noteq> SLaunched" "st' \<noteq> SLaunched"
  shows "slot_inv (s\<lparr>s_journal := j, s_starting := (s_starting s)(i \<mapsto> st'), s_spawned := l\<rparr>)"
  using start_stage_inv [OF assms] by (simp add: slot_inv_def keys_inv_def slots_def)

lemma slot_inv_journal: "slot_inv (s\<lparr>s_journal := j\<rparr>) = slot_inv s" "slot_inv (s\<lparr>s_spawned := l\<rparr>) = slot_inv s"
  by (simp_all add: slot_inv_def keys_inv_def slots_def)

lemma admit_inv:
  assumes inv: "slot_inv s"
    and adm: "Prepare_admit (xp_execution_id req) (s_mgr s) (s_budget s) = (Inr (), m', b')"
  shows "slot_inv (s\<lparr>s_mgr := m', s_budget := b', s_preparing := (s_preparing s)(xp_execution_id req \<mapsto> PAdmitted req limits)\<rparr>)"
    (is "slot_inv ?s'")
proof -
  let ?i = "xp_execution_id req" and ?m = "s_mgr s"
  from adm have free: "?i \<notin> m_pending ?m" "m_prepared ?m ?i = None" "m_launching ?m ?i = None" "m_runs ?m ?i = None"
    and acq: "Acquire (s_budget s) = (True, b')" and m': "m' = ?m\<lparr>m_pending := insert ?i (m_pending ?m)\<rparr>"
    by (auto simp: Prepare_admit_def split: if_splits prod.splits bool.splits)
  have k: "keys_inv s" using inv by (simp add: slot_inv_def)
  have new: "?i \<notin> prepare_holders s" using free(1) k live_subset [of _ "s_preparing s"] by (auto simp: keys_inv_def)
  have "slots ?s' = Suc (slots s)"
    using new live_finite(1) [OF k] by (simp add: slots_def m' live_upd)
  moreover have "keys_inv ?s'"
    using k free new by (auto simp: keys_inv_def m' live_upd split: if_splits)
  ultimately show ?thesis
    using inv sb.accounts_acquire [OF acq] by (simp add: slot_inv_def)
qed

lemma install_inv:
  assumes inv: "slot_inv s" and st: "s_preparing s i = Some (PAdmitted req limits)"
    and ins: "Prepare_install env inp req limits ident pid (s_mgr s) = (Inr (), m')"
  shows "slot_inv (s\<lparr>s_mgr := m', s_preparing := (s_preparing s)(i \<mapsto> PInstalled)\<rparr>)" (is "slot_inv ?s'")
proof -
  have k: "keys_inv s" using inv by (simp add: slot_inv_def)
  have i: "xp_execution_id req = i" using k st by (auto simp: keys_inv_def)
  let ?m = "s_mgr s"
  have hold: "i \<in> prepare_holders s" using st by (simp add: in_live)
  note free = keys_holder [OF k hold]
  obtain q where m': "m' = ?m\<lparr>m_prepared := (m_prepared ?m)(i \<mapsto> q), m_next := m_next ?m + 1\<rparr>"
    using ins by (auto simp: Prepare_install_def i Let_def split: if_splits)
  have fin: "finite (dom (m_prepared ?m))" "i \<notin> dom (m_prepared ?m)" using k free by (auto simp: keys_inv_def)
  have "Suc (card (prepare_holders s - {i})) = card (prepare_holders s)"
    by (rule card_Suc_Diff1 [OF live_finite(1) [OF k] hold])
  then have "slots ?s' = slots s" using fin by (simp add: slots_def m' live_upd card_insert_if)
  moreover have "keys_inv ?s'"
    using k free st by (auto simp: keys_inv_def m' live_upd split: if_splits)
  ultimately show ?thesis using inv by (simp add: slot_inv_def)
qed

lemma exit_prepare_inv:
  assumes inv: "slot_inv s" and st: "s_preparing s i = Some st" "st = PInstalled \<or> st = PFailed"
  shows "slot_inv (s\<lparr>s_mgr := Prepare_exit i (s_mgr s), s_preparing := (s_preparing s)(i := None),
      s_owed := (if st = PInstalled then 0 else 1) + s_owed s\<rparr>)" (is "slot_inv ?s'")
proof -
  have k: "keys_inv s" using inv by (simp add: slot_inv_def)
  have "slots ?s' = slots s"
  proof (cases "st = PInstalled")
    case True
    then have "i \<notin> prepare_holders s" using st by (simp add: in_live)
    with True show ?thesis by (simp add: slots_def live_del Prepare_exit_def)
  next
    case False
    then have "i \<in> prepare_holders s" using st by (simp add: in_live)
    then have "Suc (card (prepare_holders s - {i})) = card (prepare_holders s)"
      by (rule card_Suc_Diff1 [OF live_finite(1) [OF k]])
    with False show ?thesis by (simp add: slots_def live_del Prepare_exit_def)
  qed
  moreover have "keys_inv ?s'"
    using k by (auto simp: keys_inv_def live_del Prepare_exit_def split: if_splits)
  ultimately show ?thesis using inv by (simp add: slot_inv_def)
qed

lemma begin_inv:
  assumes inv: "slot_inv s"
    and beg: "Start_begin env f now (Some st) (s_journal s) (s_mgr s) = (Inr p, m')"
  shows "slot_inv (s\<lparr>s_mgr := m', s_starting := (s_starting s)(eb_execution_id (p_binding p) \<mapsto> SBegun st)\<rparr>)"
    (is "slot_inv ?s'")
proof -
  have k: "keys_inv s" using inv by (simp add: slot_inv_def)
  let ?m = "s_mgr s" and ?i = "eb_execution_id (p_binding p)"
  from beg have p: "m_prepared ?m ?i = Some p"
    and m': "m' = ?m\<lparr>m_prepared := (m_prepared ?m)(?i := None), m_launching := (m_launching ?m)(?i \<mapsto> p)\<rparr>"
    by (auto simp: Start_begin_def split: option.splits if_splits)
  then have new: "?i \<notin> start_holders s" "?i \<notin> dom (m_launching ?m)" "?i \<notin> dom (m_runs ?m)" "?i \<notin> prepare_holders s"
    using k live_subset [of "\<lambda>st. st \<noteq> SLaunched" "s_starting s"] by (auto simp: keys_inv_def)
  have "Suc (card (dom (m_prepared ?m) - {?i})) = card (dom (m_prepared ?m))"
    using k p by (intro card_Suc_Diff1) (auto simp: keys_inv_def)
  then have "slots ?s' = slots s"
    using new live_finite(2) [OF k] by (simp add: slots_def m' live_upd card_insert_if)
  moreover have "keys_inv ?s'"
    using k new by (auto simp: keys_inv_def m' live_upd split: if_splits)
  ultimately show ?thesis using inv by (simp add: slot_inv_def)
qed

lemma publish_inv:
  assumes inv: "slot_inv s" and st: "s_starting s i = Some (SReady r)"
  shows "slot_inv (s\<lparr>s_mgr := Start_publish i r (s_mgr s), s_starting := (s_starting s)(i \<mapsto> SLaunched)\<rparr>)"
    (is "slot_inv ?s'")
proof -
  have k: "keys_inv s" using inv by (simp add: slot_inv_def)
  let ?m = "s_mgr s"
  have hold: "i \<in> start_holders s" using st by (simp add: in_live)
  have dl: "i \<in> dom (s_starting s)" using st by auto
  have new: "i \<notin> dom (m_runs ?m)" "i \<notin> dom (m_prepared ?m)" "i \<notin> prepare_holders s"
    using hold dl keys_invD(2,3,4) [OF k] by blast+
  have "Suc (card (start_holders s - {i})) = card (start_holders s)"
    by (rule card_Suc_Diff1 [OF live_finite(2) [OF k] hold])
  moreover have "finite (dom (m_runs ?m))" using k by (simp add: keys_inv_def)
  ultimately have "slots ?s' = slots s"
    using new by (simp add: slots_def Start_publish_def live_upd card_insert_if)
  moreover have "insert i (dom (s_starting s)) = dom (s_starting s)" using dl by blast
  with k new have "keys_inv ?s'" unfolding keys_inv_def by (simp add: Start_publish_def live_upd) blast
  ultimately show ?thesis using inv by (simp add: slot_inv_def)
qed

lemma exit_start_inv:
  assumes inv: "slot_inv s" and st: "s_starting s i = Some st" "st = SLaunched \<or> st = SFailed"
  shows "slot_inv (s\<lparr>s_mgr := Start_exit i (s_mgr s), s_starting := (s_starting s)(i := None),
      s_owed := (if st = SLaunched then 0 else 1) + s_owed s\<rparr>)" (is "slot_inv ?s'")
proof -
  have k: "keys_inv s" using inv by (simp add: slot_inv_def)
  have "slots ?s' = slots s"
  proof (cases "st = SLaunched")
    case True
    then have "i \<notin> start_holders s" using st by (simp add: in_live)
    with True show ?thesis by (simp add: slots_def live_del Start_exit_def)
  next
    case False
    then have "i \<in> start_holders s" using st by (simp add: in_live)
    then have "Suc (card (start_holders s - {i})) = card (start_holders s)"
      by (rule card_Suc_Diff1 [OF live_finite(2) [OF k]])
    with False show ?thesis by (simp add: slots_def live_del Start_exit_def)
  qed
  moreover have "keys_inv ?s'"
    using k by (auto simp: keys_inv_def live_del Start_exit_def split: if_splits)
  ultimately show ?thesis using inv by (simp add: slot_inv_def)
qed

lemma finish_inv:
  assumes inv: "slot_inv s" and r: "m_runs (s_mgr s) i \<noteq> None"
  shows "slot_inv (s\<lparr>s_mgr := finish i (s_mgr s), s_owed := Suc (s_owed s)\<rparr>)" (is "slot_inv ?s'")
proof -
  have k: "keys_inv s" using inv by (simp add: slot_inv_def)
  have "Suc (card (dom (m_runs (s_mgr s)) - {i})) = card (dom (m_runs (s_mgr s)))"
    using k r by (intro card_Suc_Diff1) (auto simp: keys_inv_def)
  then have "slots ?s' = slots s" by (simp add: slots_def finish_def)
  moreover have "keys_inv ?s'" using k by (auto simp: keys_inv_def finish_def split: if_splits)
  ultimately show ?thesis using inv by (simp add: slot_inv_def)
qed

lemma close_inv:
  assumes inv: "slot_inv s" and c: "Close_begin (s_mgr s) (s_budget s) = (m', b')"
  shows "slot_inv (s\<lparr>s_mgr := m', s_budget := b'\<rparr>)" (is "slot_inv ?s'")
proof (cases "m_closed (s_mgr s)")
  case True
  with c have "m' = s_mgr s" "b' = s_budget s" by (simp_all add: Close_begin_def)
  with inv show ?thesis by simp
next
  case False
  with c have b': "b' = (Release ^^ card (dom (m_prepared (s_mgr s)))) (s_budget s)"
    and m': "m_prepared m' = Map.empty" "dom (m_launching m') = dom (m_launching (s_mgr s))"
      "m_runs m' = m_runs (s_mgr s)" "m_pending m' = m_pending (s_mgr s)"
    by (auto simp: Close_begin_def dom_def)
  have "slots s = card (dom (m_prepared (s_mgr s))) + slots ?s'" by (simp add: slots_def m')
  then have "sb.accounts (slots ?s') b'"
    using inv unfolding slot_inv_def b' by (metis sb.accounts_releases)
  moreover have "keys_inv ?s'" using inv by (auto simp: slot_inv_def keys_inv_def m')
  ultimately show ?thesis by (simp add: slot_inv_def)
qed

lemma accounts_other_op:
  assumes "op \<noteq> OpAcquire" "op \<noteq> OpRelease" "sb.accounts n b"
  shows "sb.accounts n (snd (budget_step op b))"
  using assms
  by (cases op) (auto simp: sb.accounts_def AcquireActivity_def release_activity_def ObserveActivities_def
      stop_observing_def TryMaintenance_def EndMaintenance_def)

lemma boot_slot_inv:
  assumes "NewManager node ttl rnd = Inr m"
  shows "slot_inv (boot_sys m maximum j l)"
proof -
  from assms have "m_prepared m = Map.empty" "m_runs m = Map.empty" "m_launching m = Map.empty" "m_pending m = {}"
    by (auto simp: NewManager_def split: if_splits option.splits)
  then show ?thesis
    by (simp add: slot_inv_def keys_inv_def slots_def boot_sys_def New_budget_def sb.accounts_def)
qed

lemma exec_step_slot_inv:
  assumes "exec_step env s s'" "slot_inv s"
  shows "slot_inv s'"
  using assms
proof (cases rule: exec_step.cases)
  case (prepare_admit inp req limits m m' b')
  then show ?thesis using admit_inv assms(2) by simp
next
  case (prepare_unresolved i req limits inp e)
  then show ?thesis using prepare_stage_inv [OF assms(2)] by simp
next
  case (prepare_install i req limits inp ident pid m')
  then show ?thesis using install_inv [OF assms(2)] by simp
next
  case (prepare_refused i req limits inp ident pid e m')
  then have "m' = s_mgr s" by (auto simp: Prepare_install_def Let_def split: if_splits)
  then show ?thesis using prepare_refused prepare_stage_inv [OF assms(2)] by simp
next
  case (prepare_exit_installed i)
  then show ?thesis using exit_prepare_inv [OF assms(2)] by fastforce
next
  case (prepare_exit_failed i)
  then show ?thesis using exit_prepare_inv [OF assms(2) prepare_exit_failed(2)] by simp
next
  case (budget_release n)
  then have "slots s = Suc (slots s')" by (simp add: slots_def)
  with budget_release assms(2) show ?thesis
    by (auto simp: slot_inv_def keys_inv_def intro: sb.accounts_release)
next
  case (other_acquire b')
  then have "slots s' = Suc (slots s)" by (simp add: slots_def)
  with other_acquire assms(2) sb.accounts_acquire [OF other_acquire(2)] show ?thesis
    by (auto simp: slot_inv_def keys_inv_def)
next
  case (other_release n)
  then have "slots s = Suc (slots s')" by (simp add: slots_def)
  with other_release assms(2) show ?thesis
    by (auto simp: slot_inv_def keys_inv_def intro: sb.accounts_release)
next
  case (budget_other op)
  then have "slots s' = slots s" by (simp add: slots_def)
  with budget_other assms(2) show ?thesis
    using accounts_other_op by (auto simp: slot_inv_def keys_inv_def)
next
  case (timer_expire i ref m' b')
  then show ?thesis using slot_frame_inv [OF assms(2) expire_frame] by simp
next
  case (attach now bd res m')
  then show ?thesis
    using slot_frame_inv [OF assms(2) frame_keep [OF Attach_keys [OF attach(2)]]] by simp
next
  case (script_chunk now ok bd chunk res m' b')
  then show ?thesis using slot_frame_inv [OF assms(2) ScriptChunk_frame] by simp
next
  case (script_eof now ok bd eof res m' b')
  then show ?thesis using slot_frame_inv [OF assms(2) ScriptEOF_frame] by simp
next
  case (start_begin f now st p m')
  then show ?thesis using begin_inv [OF assms(2)] by simp
next
  case (start_unverified i st p inp e)
  then show ?thesis using start_stage_inv [OF assms(2)] by simp
next
  case (start_verified i st p inp)
  then show ?thesis using start_stage_inv [OF assms(2)] by simp
next
  case (start_claimed i st p inp r j')
  then show ?thesis
    using start_stage_journal_inv [OF assms(2) start_claimed(2), where st' = "SClaimed st" and j = j' and l = "s_spawned s"] by simp
next
  case (start_unclaimed i st p inp e j')
  then show ?thesis
    using start_stage_journal_inv [OF assms(2) start_unclaimed(2), where st' = SFailed and j = j' and l = "s_spawned s"] by simp
next
  case (start_launch i st p inp res j' sp)
  let ?st = "case res of Inl e \<Rightarrow> SFailed | Inr r \<Rightarrow> SReady r"
  have "?st \<noteq> SLaunched" by (simp split: sum.split)
  then show ?thesis
    unfolding start_launch(1) by (intro start_stage_journal_inv [OF assms(2) start_launch(2)]) simp
next
  case (start_publish i r)
  then show ?thesis using publish_inv [OF assms(2)] by simp
next
  case (start_exit_launched i)
  then show ?thesis using exit_start_inv [OF assms(2) start_exit_launched(2)] by simp
next
  case (start_exit_failed i)
  then show ?thesis using exit_start_inv [OF assms(2) start_exit_failed(2)] by simp
next
  case (cancel f request res m' b')
  then show ?thesis using slot_frame_inv [OF assms(2) Cancel_frame] by simp
next
  case (close_begin m' b')
  then show ?thesis using close_inv [OF assms(2)] by simp
next
  case close_runs
  have "same_keys (s_mgr s) (Close_runs (s_mgr s))" by (auto simp: same_keys_def Close_runs_def dom_def)
  from slot_frame_inv [OF assms(2) frame_keep [OF this]] close_runs show ?thesis by simp
next
  case (run_finish i)
  then show ?thesis using finish_inv [OF assms(2)] by simp
next
  case (run_result f r res j')
  then show ?thesis using assms(2) slot_inv_journal by simp
next
  case (agent_restart node ttl boot m maximum pick)
  then show ?thesis using boot_slot_inv by simp
qed

lemma reachable_slot_inv: "exec_reachable env s \<Longrightarrow> slot_inv s"
  by (induction rule: exec_reachable.induct) (auto intro: boot_slot_inv exec_step_slot_inv)

section \<open>Integrity of preparations\<close>

text \<open>What a preparation records of the request never drifts: the digests are those of the command and of
  the resolved identity, and the spool file holds exactly the bytes counted by the offset, within the
  announced length; a complete script has the announced length and hash.\<close>

definition script_ok :: "exec_env \<Rightarrow> preparation \<Rightarrow> bool" where
  "script_ok env p \<longleftrightarrow>
     (p_script p \<noteq> None \<longleftrightarrow> p_enhanced p \<and> ScriptInterpreter (p_command p) \<noteq> []) \<and>
     (\<forall>d. p_script p = Some d \<longrightarrow>
        length d = unat (p_script_offset p) \<and> p_script_offset p \<le> p_script_length p \<and>
        p_script_length p \<le> MaxScriptBytes \<and>
        (p_script_complete p \<longrightarrow> p_script_offset p = p_script_length p \<and> xe_sha env d = p_script_hash p))"

definition prep_ok :: "exec_env \<Rightarrow> string \<Rightarrow> preparation \<Rightarrow> bool" where
  "prep_ok env i p \<longleftrightarrow>
     eb_execution_id (p_binding p) = i \<and> p_command_sha p = xe_sha env (p_command p) \<and>
     p_identity_sha p = identity_Digest env (p_identity p) \<and> script_ok env p"

definition prep_inv :: "exec_env \<Rightarrow> Manager \<Rightarrow> bool" where
  "prep_inv env m \<longleftrightarrow>
     (\<forall>i p. m_prepared m i = Some p \<longrightarrow> prep_ok env i p) \<and> (\<forall>i p. m_launching m i = Some p \<longrightarrow> prep_ok env i p)"

lemma prep_ok_flags [simp]:
  "prep_ok env i (p\<lparr>p_attached := a\<rparr>) = prep_ok env i p"
  "prep_ok env i (p\<lparr>p_cancelled := c\<rparr>) = prep_ok env i p"
  by (simp_all add: prep_ok_def script_ok_def)

lemma prep_inv_remove: "prep_inv env m \<Longrightarrow> prep_inv env (remove_prepared i m)"
  by (auto simp: prep_inv_def remove_prepared_def)

lemma prep_inv_put:
  "prep_inv env m \<Longrightarrow> prep_ok env i q \<Longrightarrow> prep_inv env (m\<lparr>m_prepared := (m_prepared m)(i \<mapsto> q)\<rparr>)"
  by (auto simp: prep_inv_def)

lemma prep_invD: "prep_inv env m \<Longrightarrow> m_prepared m i = Some p \<Longrightarrow> prep_ok env i p"
  by (simp add: prep_inv_def)

lemma expire_prep_inv: "prep_inv env m \<Longrightarrow> expire i ref m b = (m', b') \<Longrightarrow> prep_inv env m'"
  by (auto simp: expire_def intro: prep_inv_remove split: option.splits if_splits)

lemma Attach_prep_inv: "prep_inv env m \<Longrightarrow> Attach now bd m = (res, m') \<Longrightarrow> prep_inv env m'"
  by (auto simp: Attach_def intro!: prep_inv_put dest: prep_invD split: option.splits if_splits)

lemma invalidate_prep_inv: "prep_inv env m \<Longrightarrow> invalidateScript bd m b = (m', b') \<Longrightarrow> prep_inv env m'"
  by (auto simp: invalidateScript_def intro: prep_inv_remove split: option.splits if_splits)

text \<open>The 64-bit arithmetic of the chunk check: an accepted chunk neither wraps nor passes the announced
  length.\<close>

lemma chunk_fits:
  fixes len off :: "64 word"
  assumes "off \<le> len" "n \<le> MaxFrameBytes" "\<not> len - off < of_nat n"
  shows "unat (off + of_nat n) = unat off + n" "off + of_nat n \<le> len"
proof -
  have n: "unat (of_nat n :: 64 word) = n"
    using assms(2) by (simp add: MaxFrameBytes_def unat_of_nat)
  have "n \<le> unat (len - off)"
    using assms(3) n by (simp add: word_less_nat_alt)
  then have le: "unat off + n \<le> unat len"
    using assms(1) by (simp add: unat_sub word_le_nat_alt)
  then have "unat off + unat (of_nat n :: 64 word) < 2 ^ LENGTH(64)"
    using n unsigned_less [of len, where 'a = nat] by linarith
  then have eq: "unat (off + of_nat n) = unat off + unat (of_nat n :: 64 word)"
    by (simp only: unat_add_lem)
  then show "unat (off + of_nat n) = unat off + n" using n by simp
  show "off + of_nat n \<le> len" unfolding word_le_nat_alt eq using le n by simp
qed

lemma chunk_prep_ok:
  assumes "prep_ok env i p" "p_script p \<noteq> None" "\<not> p_script_complete p" "length bytes \<le> MaxFrameBytes"
    "\<not> p_script_length p - p_script_offset p < of_nat (length bytes)"
  shows "prep_ok env i (chunk_append bytes p)"
proof -
  obtain d where d: "p_script p = Some d" using assms(2) by auto
  with assms(1) have ok: "length d = unat (p_script_offset p)" "p_script_offset p \<le> p_script_length p"
    "p_script_length p \<le> MaxScriptBytes" "p_enhanced p \<and> ScriptInterpreter (p_command p) \<noteq> []"
    by (auto simp: prep_ok_def script_ok_def)
  from chunk_fits [OF ok(2) assms(4,5)] assms(1,3) ok d show ?thesis
    by (auto simp: prep_ok_def script_ok_def chunk_append_def)
qed

lemma ScriptChunk_body_prep_inv:
  assumes "prep_inv env m" "ScriptChunk_body now ok bd chunk m = (res, m')"
  shows "prep_inv env m'"
proof (cases "res")
  case (Inl e)
  then show ?thesis using assms ScriptChunk_body_keys(2) [OF assms(2)] by simp
next
  case (Inr u)
  with assms(2) obtain p offset bytes where p: "scriptPreparation now bd m = Inr p"
    and c: "length bytes \<le> MaxFrameBytes" "of_nat (length bytes) \<le> p_script_length p - p_script_offset p"
    and m': "m' = m\<lparr>m_prepared := (m_prepared m)(eb_execution_id (the bd) \<mapsto> chunk_append bytes p)\<rparr>"
    by (auto simp: ScriptChunk_body_def not_less split: sum.splits option.splits if_splits)
  from scriptPreparation_Inr [OF p] obtain b where b: "bd = Some b" "m_prepared m (eb_execution_id b) = Some p"
    "p_script p \<noteq> None" "\<not> p_script_complete p" by blast
  have "prep_ok env (eb_execution_id b) (chunk_append bytes p)"
    using prep_invD [OF assms(1) b(2)] b(3,4) c by (intro chunk_prep_ok) (simp_all add: not_less)
  then show ?thesis using prep_inv_put [OF assms(1)] by (simp add: m' b(1))
qed

lemma ScriptEOF_body_prep_inv:
  assumes "prep_inv env m" "ScriptEOF_body env now ok bd eof m = (res, m')"
  shows "prep_inv env m'"
proof (cases "res")
  case (Inl e)
  then show ?thesis using assms ScriptEOF_body_keys(2) [OF assms(2)] by simp
next
  case (Inr u)
  with assms(2) obtain p where p: "scriptPreparation now bd m = Inr p"
    and c: "p_script_offset p = p_script_length p" "xe_sha env (the (p_script p)) = p_script_hash p"
    and m': "m' = m\<lparr>m_prepared := (m_prepared m)(eb_execution_id (the bd) \<mapsto> p\<lparr>p_script_complete := True\<rparr>)\<rparr>"
    by (auto simp: ScriptEOF_body_def split: sum.splits option.splits if_splits)
  from scriptPreparation_Inr [OF p] obtain b where b: "bd = Some b" "m_prepared m (eb_execution_id b) = Some p" by blast
  have "prep_ok env (eb_execution_id b) (p\<lparr>p_script_complete := True\<rparr>)"
    using prep_invD [OF assms(1) b(2)] c by (auto simp: prep_ok_def script_ok_def)
  then show ?thesis using prep_inv_put [OF assms(1)] by (simp add: m' b(1))
qed

lemma ScriptChunk_prep_inv:
  "prep_inv env m \<Longrightarrow> ScriptChunk now ok bd chunk m b = (res, m', b') \<Longrightarrow> prep_inv env m'"
  by (auto simp: ScriptChunk_def split: prod.splits sum.splits
      dest: ScriptChunk_body_prep_inv invalidate_prep_inv)

lemma ScriptEOF_prep_inv:
  "prep_inv env m \<Longrightarrow> ScriptEOF env now ok bd eof m b = (res, m', b') \<Longrightarrow> prep_inv env m'"
  by (auto simp: ScriptEOF_def split: prod.splits sum.splits
      dest: ScriptEOF_body_prep_inv invalidate_prep_inv)

definition request_ok :: "ExecutionPrepare \<Rightarrow> bool" where
  "request_ok req \<longleftrightarrow> (xp_enhanced req \<longrightarrow> xp_script_length req \<le> MaxScriptBytes)"

lemma Prepare_checks_request: "Prepare_checks env inp m j req = Inr limits \<Longrightarrow> request_ok req"
  by (auto simp: Prepare_checks_def request_ok_def Let_def split: if_splits)

lemma install_prep_inv:
  assumes "prep_inv env m" "request_ok req" "Prepare_install env inp req limits ident pid m = (res, m')"
  shows "prep_inv env m'"
proof (cases res)
  case (Inl e)
  with assms show ?thesis by (auto simp: Prepare_install_def Let_def split: if_splits)
next
  case (Inr u)
  with assms(3) have m': "m' = m\<lparr>m_prepared := (m_prepared m)(xp_execution_id req \<mapsto> new_preparation env inp m req limits ident pid),
      m_next := m_next m + 1\<rparr>"
    by (auto simp: Prepare_install_def Let_def split: if_splits)
  have "prep_ok env (xp_execution_id req) (new_preparation env inp m req limits ident pid)"
    using assms(2) by (auto simp: prep_ok_def script_ok_def new_preparation_def prepared_binding_def request_ok_def Let_def)
  from prep_inv_put [OF assms(1) this] show ?thesis
    by (simp add: m' prep_inv_def)
qed

lemma Cancel_prep_inv:
  assumes "prep_inv env m" "Cancel env f request j m b = (res, m', b')"
  shows "prep_inv env m'"
proof (cases "\<exists>bd reason. request = Some (Some bd, reason)")
  case False
  with assms show ?thesis by (auto simp: Cancel_def split: option.splits)
next
  case True
  then obtain bd reason where r: "request = Some (Some bd, reason)" by blast
  let ?i = "eb_execution_id bd"
  show ?thesis
  proof (cases "m_prepared m ?i")
    case (Some p)
    with assms r show ?thesis by (auto simp: Cancel_def Let_def intro: prep_inv_remove split: if_splits)
  next
    case np: None
    show ?thesis
    proof (cases "m_launching m ?i")
      case (Some p)
      with assms r np show ?thesis by (auto simp: Cancel_def Let_def prep_inv_def split: if_splits)
    next
      case nl: None
      then show ?thesis
        using assms r np
        by (cases "m_runs m ?i") (auto simp: Cancel_def Let_def prep_inv_def split: if_splits option.splits)
    qed
  qed
qed

section \<open>One spawn per execution\<close>

text \<open>The start message matches the preparation in everything it binds.\<close>

definition confirms :: "ExecutionStart \<Rightarrow> preparation \<Rightarrow> bool" where
  "confirms st p \<longleftrightarrow>
     xs_binding st = Some (p_binding p) \<and> xs_command_sha st = p_command_sha p \<and>
     xs_identity_sha st = p_identity_sha p \<and> xs_limits st = Some (p_limits p) \<and>
     (p_enhanced p \<longrightarrow> p_script_complete p \<and> xs_receipt st \<noteq> []) \<and> (\<not> p_enhanced p \<longrightarrow> xs_receipt st = [])"

fun stage_start :: "start_stage \<Rightarrow> ExecutionStart option" where
  "stage_start (SBegun st) = Some st"
| "stage_start (SVerified st) = Some st"
| "stage_start (SClaimed st) = Some st"
| "stage_start _ = None"

definition confirmed_inv :: "exec_sys \<Rightarrow> bool" where
  "confirmed_inv s \<longleftrightarrow>
     (\<forall>i stg st. s_starting s i = Some stg \<longrightarrow> stage_start stg = Some st \<longrightarrow>
        (\<forall>p. m_launching (s_mgr s) i = Some p \<longrightarrow> confirms st p))"

definition spawn_inv :: "exec_env \<Rightarrow> exec_sys \<Rightarrow> bool" where
  "spawn_inv env s \<longleftrightarrow>
     journal_inv (xe_journal env) (s_journal s) \<and>
     (\<forall>sp \<in> set (s_spawned s). j_settled (s_journal s) (journalName (xe_journal env) (sp_id sp)) \<noteq> None) \<and>
     distinct (map sp_id (s_spawned s)) \<and>
     (\<forall>i st. s_starting s i = Some (SClaimed st) \<longrightarrow>
        j_settled (s_journal s) (journalName (xe_journal env) i) \<noteq> None \<and> i \<notin> sp_id ` set (s_spawned s)) \<and>
     (\<forall>sp \<in> set (s_spawned s). \<exists>st p. sp = spawn_of p \<and> prep_ok env (sp_id sp) p \<and> confirms st p)"

definition launch_inv :: "exec_env \<Rightarrow> exec_sys \<Rightarrow> bool" where
  "launch_inv env s \<longleftrightarrow> prep_inv env (s_mgr s) \<and> confirmed_inv s \<and> spawn_inv env s \<and>
     (\<forall>i req limits. s_preparing s i = Some (PAdmitted req limits) \<longrightarrow> request_ok req)"

lemma confirms_flag [simp]: "confirms st (p\<lparr>p_cancelled := c\<rparr>) = confirms st p"
  by (simp add: confirms_def)

text \<open>What an operation may do to the launching preparations: leave them, or mark some cancelled.\<close>

definition launching_frame :: "Manager \<Rightarrow> Manager \<Rightarrow> bool" where
  "launching_frame m m' \<longleftrightarrow>
     (\<forall>i q. m_launching m' i = Some q \<longrightarrow> (\<exists>p c. m_launching m i = Some p \<and> q = p\<lparr>p_cancelled := c\<rparr>))"

lemma launching_frame_same: "m_launching m' = m_launching m \<Longrightarrow> launching_frame m m'"
proof -
  have "p = p\<lparr>p_cancelled := p_cancelled p\<rparr>" for p :: preparation by simp
  then show "m_launching m' = m_launching m \<Longrightarrow> launching_frame m m'"
    unfolding launching_frame_def by metis
qed

lemma manager_frame:
  assumes "launch_inv env s" "prep_inv env m'" "launching_frame (s_mgr s) m'"
  shows "launch_inv env (s\<lparr>s_mgr := m', s_budget := b'\<rparr>)"
proof -
  have "confirmed_inv (s\<lparr>s_mgr := m', s_budget := b'\<rparr>)"
    unfolding confirmed_inv_def
  proof (intro allI impI)
    fix i stg st q
    assume a: "s_starting (s\<lparr>s_mgr := m', s_budget := b'\<rparr>) i = Some stg" "stage_start stg = Some st"
      "m_launching (s_mgr (s\<lparr>s_mgr := m', s_budget := b'\<rparr>)) i = Some q"
    from a(3) have "m_launching m' i = Some q" by simp
    then obtain p c where p: "m_launching (s_mgr s) i = Some p" "q = p\<lparr>p_cancelled := c\<rparr>"
      using assms(3) unfolding launching_frame_def by blast
    with a assms(1) show "confirms st q" by (auto simp: launch_inv_def confirmed_inv_def)
  qed
  then show ?thesis using assms(1,2) by (simp add: launch_inv_def spawn_inv_def)
qed

lemma launching_unchanged:
  "expire i ref m b = (m1, b1) \<Longrightarrow> m_launching m1 = m_launching m"
  "Attach now bd m = (res, m1) \<Longrightarrow> m_launching m1 = m_launching m"
  "invalidateScript bd m b = (m1, b1) \<Longrightarrow> m_launching m1 = m_launching m"
  "ScriptChunk_body now ok bd chunk m = (res, m1) \<Longrightarrow> m_launching m1 = m_launching m"
  "ScriptEOF_body env now ok bd eof m = (res, m1) \<Longrightarrow> m_launching m1 = m_launching m"
  "Prepare_install env inp req limits ident pid m = (res, m1) \<Longrightarrow> m_launching m1 = m_launching m"
  by (auto simp: expire_def Attach_def invalidateScript_def ScriptChunk_body_def ScriptEOF_body_def
      Prepare_install_def remove_prepared_def Let_def split: option.splits if_splits sum.splits prod.splits)

lemma script_launching:
  "ScriptChunk now ok bd chunk m b = (res, m1, b1) \<Longrightarrow> m_launching m1 = m_launching m"
  "ScriptEOF env now ok bd eof m b = (res, m1, b1) \<Longrightarrow> m_launching m1 = m_launching m"
  by (auto simp: ScriptChunk_def ScriptEOF_def split: prod.splits sum.splits) (metis launching_unchanged(3,4,5))+

lemma Cancel_launching: "Cancel env f request j m b = (res, m1, b1) \<Longrightarrow> launching_frame m m1"
proof (cases "\<exists>bd reason. request = Some (Some bd, reason)")
  case False
  moreover assume "Cancel env f request j m b = (res, m1, b1)"
  ultimately show ?thesis by (auto simp: Cancel_def intro!: launching_frame_same split: option.splits)
next
  case True
  then obtain bd reason where r: "request = Some (Some bd, reason)" by blast
  assume c: "Cancel env f request j m b = (res, m1, b1)"
  let ?i = "eb_execution_id bd"
  show ?thesis
  proof (cases "m_prepared m ?i = None \<and> m_launching m ?i \<noteq> None")
    case False
    with c r show ?thesis
      by (auto simp: Cancel_def Let_def remove_prepared_def intro!: launching_frame_same split: if_splits option.splits)
  next
    case True
    then obtain p where p: "m_prepared m ?i = None" "m_launching m ?i = Some p" by auto
    show ?thesis
    proof (cases "p_binding p = bd")
      case False
      with c r p have "m1 = m" by (simp add: Cancel_def Let_def)
      then show ?thesis by (simp add: launching_frame_same)
    next
      case True
      with c r p have m1: "m_launching m1 = (m_launching m)(?i \<mapsto> p\<lparr>p_cancelled := True\<rparr>)" by (auto simp: Cancel_def Let_def)
      have "q = q\<lparr>p_cancelled := p_cancelled q\<rparr>" for q :: preparation by simp
      then show ?thesis unfolding launching_frame_def m1 using p(2) by (metis fun_upd_apply option.inject)
    qed
  qed
qed

lemma Close_launching: "Close_begin m b = (m1, b1) \<Longrightarrow> launching_frame m m1"
proof (cases "m_closed m")
  case False
  moreover assume "Close_begin m b = (m1, b1)"
  ultimately have "m_launching m1 = (\<lambda>i. map_option (\<lambda>p. p\<lparr>p_cancelled := True\<rparr>) (m_launching m i))"
    by (auto simp: Close_begin_def)
  then show ?thesis by (auto simp: launching_frame_def)
qed (simp add: Close_begin_def launching_frame_same)

lemma Close_prep_inv: "prep_inv env m \<Longrightarrow> Close_begin m b = (m1, b1) \<Longrightarrow> prep_inv env m1"
  by (auto simp: Close_begin_def prep_inv_def split: if_splits)

definition journal_grows :: "exec_env \<Rightarrow> Journal \<Rightarrow> Journal \<Rightarrow> bool" where
  "journal_grows env j j' \<longleftrightarrow> journal_inv (xe_journal env) j' \<and> (\<forall>n. j_settled j n \<noteq> None \<longrightarrow> j_settled j' n \<noteq> None)"

lemma grows_refl: "journal_inv (xe_journal env) j \<Longrightarrow> journal_grows env j j"
  by (simp add: journal_grows_def)

lemma update_journal_grows:
  "update (xe_journal env) f i st r j = (res, j') \<Longrightarrow> journal_inv (xe_journal env) j \<Longrightarrow> journal_grows env j j'"
  unfolding journal_grows_def using update_grows(1,3) by blast

lemma RecordResult_grows:
  "journal_inv (xe_journal env) j \<Longrightarrow> journal_grows env j (snd (RecordResult (xe_journal env) f r j))"
  unfolding RecordResult_def by (metis prod.collapse update_journal_grows)

lemma RecordRunning_grows:
  "RecordRunning (xe_journal env) f i j = (res, j') \<Longrightarrow> journal_inv (xe_journal env) j \<Longrightarrow> journal_grows env j j'"
  unfolding RecordRunning_def by (rule update_journal_grows)

lemma Start_launch_shape:
  assumes "Start_launch env inp st p j = (res, j', sp)" "journal_inv (xe_journal env) j"
  shows "journal_grows env j j'" "sp = None \<or> sp = Some (spawn_of p)"
  using assms grows_refl [OF assms(2)] RecordResult_grows [OF assms(2)]
  by (auto simp: Start_launch_def launchFailure_def dest: RecordRunning_grows
      split: if_splits prod.splits sum.splits)

lemma journal_frame:
  assumes "launch_inv env s" "journal_grows env (s_journal s) j'"
  shows "launch_inv env (s\<lparr>s_journal := j'\<rparr>)"
  using assms by (auto simp: launch_inv_def journal_grows_def spawn_inv_def confirmed_inv_def)

text \<open>A stage moves on with the same start message, or drops it.\<close>

lemma stage_frame:
  assumes "launch_inv env s" "s_starting s i = Some stg" "stage_start stg' = None \<or> stage_start stg' = stage_start stg"
    "\<And>st. stg' \<noteq> SClaimed st"
  shows "launch_inv env (s\<lparr>s_starting := (s_starting s)(i \<mapsto> stg')\<rparr>)"
  using assms by (auto simp: launch_inv_def spawn_inv_def confirmed_inv_def)

lemma claim_launch_inv:
  assumes inv: "launch_inv env s" and stg: "s_starting s i = Some (SVerified st)" and p: "m_launching (s_mgr s) i = Some p"
    and c: "Start_claim env inp st p (s_journal s) = (Inr r, j')"
  shows "launch_inv env (s\<lparr>s_journal := j', s_starting := (s_starting s)(i \<mapsto> SClaimed st)\<rparr>)"
proof -
  have ji: "journal_inv (xe_journal env) (s_journal s)" using inv by (simp add: launch_inv_def spawn_inv_def)
  have id: "eb_execution_id (p_binding p) = i" using inv p by (auto simp: launch_inv_def prep_inv_def prep_ok_def)
  let ?n = "journalName (xe_journal env) i"
  have call: "Claim (xe_journal env) (si_claim_faults inp) (p_binding p) (p_command_sha p) (p_identity_sha p) (xs_policy st) (s_journal s) = (Inr r, j')"
    using c by (simp add: Start_claim_def)
  have fresh: "j_files (s_journal s) ?n = None" and settled: "j_settled j' ?n \<noteq> None"
    using call by (cases rule: Claim_shape; simp add: id)+
  have "j_settled (s_journal s) ?n = None" using fresh ji by (auto simp: journal_inv_def)
  then have new: "i \<notin> sp_id ` set (s_spawned s)" using inv by (auto simp: launch_inv_def spawn_inv_def)
  have g: "journal_grows env (s_journal s) j'"
    unfolding journal_grows_def using Claim_grows(1,3) [OF call ji] by blast
  from journal_frame [OF inv g] have "launch_inv env (s\<lparr>s_journal := j'\<rparr>)" .
  with stg new settled show ?thesis
    by (auto simp: launch_inv_def spawn_inv_def confirmed_inv_def)
qed

lemma spawn_inv_append:
  assumes "spawn_inv env s" "j_settled (s_journal s) (journalName (xe_journal env) (sp_id x)) \<noteq> None"
    "sp_id x \<notin> sp_id ` set (s_spawned s)" "\<And>k st. s_starting s k = Some (SClaimed st) \<Longrightarrow> k \<noteq> sp_id x"
    "x = spawn_of p" "prep_ok env (sp_id x) p" "confirms st p"
  shows "spawn_inv env (s\<lparr>s_spawned := s_spawned s @ [x]\<rparr>)"
proof -
  have new: "\<exists>st p. x = spawn_of p \<and> prep_ok env (sp_id x) p \<and> confirms st p"
    using assms(5,6,7) by blast
  show ?thesis
    using assms(1-4) new unfolding spawn_inv_def by simp
qed

lemma spawn_launch_inv:
  assumes inv: "launch_inv env s" and stg: "s_starting s i = Some (SClaimed st)" and p: "m_launching (s_mgr s) i = Some p"
    and l: "Start_launch env inp st p (s_journal s) = (res, j', sp)"
  shows "launch_inv env (s\<lparr>s_journal := j',
        s_starting := (s_starting s)(i \<mapsto> (case res of Inl e \<Rightarrow> SFailed | Inr r \<Rightarrow> SReady r)),
        s_spawned := s_spawned s @ (case sp of None \<Rightarrow> [] | Some x \<Rightarrow> [x])\<rparr>)" (is "launch_inv env ?s'")
proof -
  have ji: "journal_inv (xe_journal env) (s_journal s)" using inv by (simp add: launch_inv_def spawn_inv_def)
  note sh = Start_launch_shape [OF l ji]
  let ?stg = "case res of Inl e \<Rightarrow> SFailed | Inr r \<Rightarrow> SReady r"
  have stg': "stage_start ?stg = None" "\<And>st. ?stg \<noteq> SClaimed st" by (simp_all split: sum.split)
  from journal_frame [OF inv sh(1)] have j: "launch_inv env (s\<lparr>s_journal := j'\<rparr>)" .
  have base: "launch_inv env (s\<lparr>s_journal := j', s_starting := (s_starting s)(i \<mapsto> ?stg)\<rparr>)"
    using stage_frame [OF j, of i "SClaimed st" ?stg] stg stg' by simp
  show ?thesis
  proof (cases sp)
    case None
    with base show ?thesis by (simp add: launch_inv_def spawn_inv_def confirmed_inv_def)
  next
    case (Some x)
    with sh(2) have x: "x = spawn_of p" by simp
    have ok: "prep_ok env i p" "confirms st p"
      using inv p stg by (auto simp: launch_inv_def prep_inv_def confirmed_inv_def)
    have id: "sp_id x = i" using ok(1) by (simp add: x spawn_of_def prep_ok_def)
    have claimed: "j_settled (s_journal s) (journalName (xe_journal env) i) \<noteq> None" "i \<notin> sp_id ` set (s_spawned s)"
      using inv stg by (auto simp: launch_inv_def spawn_inv_def)
    have settled: "j_settled j' (journalName (xe_journal env) i) \<noteq> None"
      using sh(1) claimed(1) by (auto simp: journal_grows_def)
    let ?t = "s\<lparr>s_journal := j', s_starting := (s_starting s)(i \<mapsto> ?stg)\<rparr>"
    have "spawn_inv env (?t\<lparr>s_spawned := s_spawned ?t @ [x]\<rparr>)"
    proof (rule spawn_inv_append [where p = p and st = st])
      show "spawn_inv env ?t" using base by (simp only: launch_inv_def)
      show "j_settled (s_journal ?t) (journalName (xe_journal env) (sp_id x)) \<noteq> None" using settled id by simp
      show "sp_id x \<notin> sp_id ` set (s_spawned ?t)" using claimed(2) id by simp
      show "k \<noteq> sp_id x" if "s_starting ?t k = Some (SClaimed st2)" for k st2
        using that stg'(2) id by (auto split: if_splits)
      show "x = spawn_of p" "prep_ok env (sp_id x) p" "confirms st p" using x ok id by simp_all
    qed
    then show ?thesis using base unfolding launch_inv_def confirmed_inv_def by (simp add: Some)
  qed
qed

lemma begin_launch_inv:
  assumes inv: "launch_inv env s" and k: "keys_inv s"
    and beg: "Start_begin env f now (Some st) (s_journal s) (s_mgr s) = (Inr p, m')"
  shows "launch_inv env (s\<lparr>s_mgr := m', s_starting := (s_starting s)(eb_execution_id (p_binding p) \<mapsto> SBegun st)\<rparr>)"
proof -
  let ?m = "s_mgr s" and ?i = "eb_execution_id (p_binding p)"
  from beg have p: "m_prepared ?m ?i = Some p" and cf: "confirms st p"
    and m': "m' = ?m\<lparr>m_prepared := (m_prepared ?m)(?i := None), m_launching := (m_launching ?m)(?i \<mapsto> p)\<rparr>"
    by (auto simp: Start_begin_def confirms_def split: option.splits if_splits)
  have "prep_ok env ?i p" using inv p by (auto simp: launch_inv_def prep_inv_def)
  then have "prep_inv env m'" using inv by (auto simp: launch_inv_def prep_inv_def m' split: if_splits)
  with inv cf show ?thesis
    by (auto simp: launch_inv_def spawn_inv_def confirmed_inv_def m' split: if_splits)
qed

lemma boot_launch_inv:
  assumes "NewManager node ttl rnd = Inr m" "journal_inv (xe_journal env) j"
    "\<forall>sp \<in> set l. j_settled j (journalName (xe_journal env) (sp_id sp)) \<noteq> None" "distinct (map sp_id l)"
    "\<forall>sp \<in> set l. \<exists>st p. sp = spawn_of p \<and> prep_ok env (sp_id sp) p \<and> confirms st p"
  shows "launch_inv env (boot_sys m maximum j l)"
proof -
  from assms(1) have "m_prepared m = Map.empty" "m_launching m = Map.empty"
    by (auto simp: NewManager_def split: if_splits option.splits)
  with assms(2-) show ?thesis
    by (simp add: launch_inv_def prep_inv_def confirmed_inv_def spawn_inv_def boot_sys_def)
qed

lemma preparing_frame:
  assumes "launch_inv env s" "\<And>req limits. st = PAdmitted req limits \<Longrightarrow> request_ok req"
  shows "launch_inv env (s\<lparr>s_preparing := (s_preparing s)(i \<mapsto> st)\<rparr>)"
  using assms by (auto simp: launch_inv_def spawn_inv_def confirmed_inv_def)

lemma exec_step_launch_inv:
  assumes "exec_step env s s'" "launch_inv env s" "keys_inv s"
  shows "launch_inv env s'"
proof -
  note inv = assms(2)
  have pi: "prep_inv env (s_mgr s)" and ji: "journal_inv (xe_journal env) (s_journal s)"
    using inv by (simp_all add: launch_inv_def spawn_inv_def)
  note same = launching_frame_same
  from assms(1) show ?thesis
  proof (cases rule: exec_step.cases)
    case (prepare_admit inp req limits m m' b')
    then have eq: "m_prepared m' = m_prepared (s_mgr s)" "m_launching m' = m_launching (s_mgr s)"
      by (auto simp: Prepare_admit_def split: if_splits prod.splits bool.splits)
    have "prep_inv env m'" using pi by (simp add: prep_inv_def eq)
    from manager_frame [OF inv this same [OF eq(2)]] have "launch_inv env (s\<lparr>s_mgr := m', s_budget := b'\<rparr>)" .
    from preparing_frame [OF this, of "PAdmitted req limits" "xp_execution_id req"]
      Prepare_checks_request [OF prepare_admit(2)]
    show ?thesis unfolding prepare_admit(1) by simp
  next
    case (prepare_install i req limits inp ident pid m')
    have "request_ok req" using prepare_install inv by (auto simp: launch_inv_def)
    from manager_frame [OF inv install_prep_inv [OF pi this prepare_install(4)]
        same [OF launching_unchanged(6) [OF prepare_install(4)]], where b' = "s_budget s"]
    have "launch_inv env (s\<lparr>s_mgr := m'\<rparr>)" by simp
    from preparing_frame [OF this, of PInstalled i] show ?thesis unfolding prepare_install(1) by simp
  next
    case (prepare_refused i req limits inp ident pid e m')
    then have "m' = s_mgr s" by (auto simp: Prepare_install_def Let_def split: if_splits)
    with preparing_frame [OF inv, of PFailed i] show ?thesis unfolding prepare_refused(1) by simp
  next
    case (timer_expire i ref m' b')
    then show ?thesis
      using manager_frame [OF inv expire_prep_inv [OF pi timer_expire(2)] same] launching_unchanged(1) by simp
  next
    case (attach now bd res m')
    then show ?thesis
      using manager_frame [OF inv Attach_prep_inv [OF pi attach(2)] same, of "s_budget s"] launching_unchanged(2) by simp
  next
    case (script_chunk now ok bd chunk res m' b')
    then show ?thesis
      using manager_frame [OF inv ScriptChunk_prep_inv [OF pi script_chunk(2)] same] script_launching(1) by simp
  next
    case (script_eof now ok bd eof res m' b')
    then show ?thesis
      using manager_frame [OF inv ScriptEOF_prep_inv [OF pi script_eof(2)] same] script_launching(2) by simp
  next
    case (start_begin f now st p m')
    then show ?thesis using begin_launch_inv [OF inv assms(3)] by simp
  next
    case (start_unverified i st p inp e)
    then show ?thesis using stage_frame [OF inv start_unverified(2), of SFailed] by simp
  next
    case (start_verified i st p inp)
    then show ?thesis using stage_frame [OF inv start_verified(2), of "SVerified st"] by simp
  next
    case (start_claimed i st p inp r j')
    then show ?thesis using claim_launch_inv [OF inv] by simp
  next
    case (start_unclaimed i st p inp e j')
    have "journal_grows env (s_journal s) j'"
      unfolding journal_grows_def
      using Claim_grows(1,3) [OF start_unclaimed(4) [unfolded Start_claim_def] ji] by blast
    from stage_frame [OF journal_frame [OF inv this], of i "SVerified st" SFailed] start_unclaimed(1,2)
    show ?thesis by simp
  next
    case (start_launch i st p inp res j' sp)
    then show ?thesis using spawn_launch_inv [OF inv] by simp
  next
    case (cancel f request res m' b')
    then show ?thesis
      using manager_frame [OF inv Cancel_prep_inv [OF pi cancel(2)] Cancel_launching [OF cancel(2)]] by simp
  next
    case (close_begin m' b')
    then show ?thesis
      using manager_frame [OF inv Close_prep_inv [OF pi close_begin(2)] Close_launching [OF close_begin(2)]] by simp
  next
    case (run_result f r res j')
    have "journal_grows env (s_journal s) j'"
      using RecordResult_grows [OF ji, of f r] run_result(2) by simp
    from journal_frame [OF inv this] run_result(1) show ?thesis by simp
  next
    case (agent_restart node ttl boot m maximum pick)
    have l: "\<forall>sp \<in> set (s_spawned s). j_settled (restart pick (s_journal s)) (journalName (xe_journal env) (sp_id sp)) \<noteq> None"
      using inv restart_grows(2) [OF ji] by (auto simp: launch_inv_def spawn_inv_def)
    show ?thesis unfolding agent_restart(1)
      by (rule boot_launch_inv [OF agent_restart(2) restart_grows(1) [OF ji] l])
        (use inv in \<open>simp_all add: launch_inv_def spawn_inv_def\<close>)
  next
    case (start_publish i r)
    then show ?thesis using inv
      by (auto simp: launch_inv_def Start_publish_def prep_inv_def spawn_inv_def confirmed_inv_def)
  next
    case (start_exit_launched i)
    then show ?thesis using inv
      by (auto simp: launch_inv_def Start_exit_def prep_inv_def spawn_inv_def confirmed_inv_def)
  next
    case (start_exit_failed i)
    then show ?thesis using inv
      by (auto simp: launch_inv_def Start_exit_def prep_inv_def spawn_inv_def confirmed_inv_def)
  qed (use inv in \<open>auto simp: launch_inv_def prep_inv_def spawn_inv_def confirmed_inv_def Prepare_exit_def
      Close_runs_def finish_def\<close>)
qed

lemma reachable_launch_inv: "exec_reachable env s \<Longrightarrow> launch_inv env s"
proof (induction rule: exec_reachable.induct)
  case (boot node ttl rnd m opn syn cls dir disk j maximum)
  have "journal_inv (xe_journal env) j" using opened_inv [OF boot(2)] by simp
  then show ?case by (intro boot_launch_inv [OF boot(1)]) simp_all
next
  case (step s s')
  from reachable_slot_inv [OF step(1)] have "keys_inv s" by (simp add: slot_inv_def)
  with step exec_step_launch_inv show ?case by blast
qed

end
