(* ===== verification/Exec_Props.thy ===== *)
theory Exec_Props
  imports Exec_Invariants
begin

text \<open>
  The properties of the agent's execution manager, with a concrete run (boot, prepare, start,
  claim, spawn) on which they are applied.
\<close>

section \<open>A concrete run\<close>

definition ex_xenv :: exec_env where
  "ex_xenv = \<lparr>xe_journal = example_env, xe_identity_json = id_username, xe_groups_json = (\<lambda>_. [])\<rparr>"

definition ex_identity :: Identity where
  "ex_identity = \<lparr>id_username = ''ops'', id_uid = 1000, id_gid = 1000, id_groups = [], id_home = ''/home/ops'',
     id_shell = ''/bin/bash'', id_cwd = ''/home/ops'', id_set_credential = True\<rparr>"

definition ex_prepare :: ExecutionPrepare where
  "ex_prepare = \<lparr>xp_execution_id = ''e1'', xp_node_id = ''n1'', xp_run_as = ''ops'', xp_command = ''id'', xp_cwd = [],
     xp_limits = None, xp_enhanced = False, xp_script_sha = [], xp_script_length = 0\<rparr>"

definition ex_inputs :: prepare_inputs where
  "ex_inputs = \<lparr>pi_spool_ready = False, pi_journal_faults = (\<lambda>_. False), pi_resolve = (\<lambda>_ _. Inr ex_identity),
     pi_executable = (\<lambda>_. True), pi_prep_id = Some ''p1'', pi_now = 0, pi_spool_create = False\<rparr>"

definition ex_manager :: Manager where
  "ex_manager = \<lparr>m_node_id = ''n1'', m_boot_id = ''b1'', m_ttl = minute, m_prepared = Map.empty, m_pending = {},
     m_launching = Map.empty, m_runs = Map.empty, m_closed = False, m_next = 0\<rparr>"

definition ex_journal :: Journal where
  "ex_journal = \<lparr>j_records = Map.empty, j_files = Map.empty, j_settled = Map.empty\<rparr>"

definition ex_prep :: preparation where
  "ex_prep = new_preparation ex_xenv ex_inputs ex_manager ex_prepare default_limits ex_identity ''p1''"

definition ex_start :: ExecutionStart where
  "ex_start = \<lparr>xs_binding = Some (p_binding ex_prep), xs_command_sha = p_command_sha ex_prep,
     xs_identity_sha = p_identity_sha ex_prep, xs_limits = Some default_limits, xs_policy = [], xs_receipt = [],
     xs_admission_expires = 0\<rparr>"

definition ex_start_inputs :: start_inputs where
  "ex_start_inputs = \<lparr>si_resolve = (\<lambda>_ _. Inr ex_identity), si_executable = (\<lambda>_. True), si_cancelled = (\<lambda>_. False),
     si_now = (\<lambda>_. 0), si_script_opens = True, si_pipe_fails = (\<lambda>_. False), si_spawns = True,
     si_claim_faults = (\<lambda>_. False), si_result_faults = (\<lambda>_. False), si_running_faults = (\<lambda>_. False)\<rparr>"

lemma ex_boot: "exec_reachable ex_xenv (boot_sys ex_manager 8 ex_journal [])"
proof (rule exec_reachable.boot)
  show "NewManager ''n1'' 0 (Some ''b1'') = Inr ex_manager" by (simp add: NewManager_def ex_manager_def)
  show "openJournal (\<lambda>_. False) (\<lambda>_. False) (\<lambda>_. False) [] Map.empty = Inr ex_journal"
    by (simp add: openJournal_def sync_path.simps ex_journal_def)
qed

lemma ex_checks: "Prepare_checks ex_xenv ex_inputs ex_manager ex_journal ex_prepare = Inr default_limits"
  by (simp add: Prepare_checks_def ex_prepare_def ex_inputs_def ex_manager_def ex_journal_def ex_xenv_def
      Journal_Status_def readRecord_def MaxCommandBytes_def normalizeLimits_def ScriptInterpreter_def Let_def
      valid_utf8.simps byte_in_def)

lemma ex_admit:
  "Prepare_admit ''e1'' ex_manager (New_budget 8) =
     (Inr (), ex_manager\<lparr>m_pending := {''e1''}\<rparr>, (New_budget 8)\<lparr>b_used := 1\<rparr>)"
  by (simp add: Prepare_admit_def ex_manager_def Acquire_def New_budget_def)

lemma ex_resolve: "Prepare_resolve ex_inputs ex_prepare = Inr (ex_identity, ''p1'')"
  by (simp add: Prepare_resolve_def ex_inputs_def ex_prepare_def Let_def)

lemma ex_admitted:
  "exec_reachable ex_xenv ((boot_sys ex_manager 8 ex_journal [])\<lparr>s_mgr := ex_manager\<lparr>m_pending := {''e1''}\<rparr>,
     s_budget := (New_budget 8)\<lparr>b_used := 1\<rparr>, s_preparing := [''e1'' \<mapsto> PAdmitted ex_prepare default_limits]\<rparr>)"
  using exec_reachable.step [OF ex_boot exec_step.prepare_admit [of ex_xenv ex_inputs "boot_sys ex_manager 8 ex_journal []" ex_prepare
      default_limits ex_manager]]
    ex_checks ex_admit by (simp add: boot_sys_def ex_prepare_def)

lemma ex_install:
  "Prepare_install ex_xenv ex_inputs ex_prepare default_limits ex_identity ''p1'' (ex_manager\<lparr>m_pending := {''e1''}\<rparr>) =
     (Inr (), ex_manager\<lparr>m_pending := {''e1''}, m_prepared := [''e1'' \<mapsto> ex_prep], m_next := 1\<rparr>)"
  by (simp add: Prepare_install_def ex_prep_def new_preparation_def prepared_binding_def ex_prepare_def ex_manager_def Let_def)

lemma ex_installed:
  "exec_reachable ex_xenv ((boot_sys ex_manager 8 ex_journal [])\<lparr>
     s_mgr := ex_manager\<lparr>m_pending := {''e1''}, m_prepared := [''e1'' \<mapsto> ex_prep], m_next := 1\<rparr>,
     s_budget := (New_budget 8)\<lparr>b_used := 1\<rparr>, s_preparing := [''e1'' \<mapsto> PInstalled]\<rparr>)"
  using exec_reachable.step [OF ex_admitted exec_step.prepare_install [OF _ ex_resolve, where i = "''e1''"]] ex_install
  by (simp add: boot_sys_def)

lemma ex_prep_facts:
  "eb_execution_id (p_binding ex_prep) = ''e1''" "eb_expires (p_binding ex_prep) = 60000"
  "p_limits ex_prep = default_limits" "p_enhanced ex_prep = False" "p_cancelled ex_prep = False"
  "p_identity ex_prep = ex_identity" "p_script ex_prep = None" "p_command ex_prep = ''id''"
  by (simp_all add: ex_prep_def new_preparation_def prepared_binding_def ex_prepare_def ex_inputs_def ex_manager_def
      unix_milli_def time_add_def minute_def Let_def)

lemma ex_begin:
  "Start_begin ex_xenv (\<lambda>_. False) 0 (Some ex_start) ex_journal
      (ex_manager\<lparr>m_pending := {''e1''}, m_prepared := [''e1'' \<mapsto> ex_prep], m_next := 1\<rparr>) =
     (Inr ex_prep, ex_manager\<lparr>m_pending := {''e1''}, m_prepared := Map.empty, m_launching := [''e1'' \<mapsto> ex_prep], m_next := 1\<rparr>)"
  by (simp add: Start_begin_def ex_start_def ex_prep_facts valid_utf8.simps ex_manager_def
      Journal_Status_def readRecord_def ex_journal_def ex_xenv_def unix_milli_def)

definition ex_sys :: "start_stage \<Rightarrow> Journal \<Rightarrow> spawn list \<Rightarrow> exec_sys" where
  "ex_sys stg j l = (boot_sys ex_manager 8 j [])\<lparr>
     s_mgr := ex_manager\<lparr>m_pending := {''e1''}, m_prepared := Map.empty, m_launching := [''e1'' \<mapsto> ex_prep], m_next := 1\<rparr>,
     s_budget := (New_budget 8)\<lparr>b_used := 1\<rparr>, s_preparing := [''e1'' \<mapsto> PInstalled], s_starting := [''e1'' \<mapsto> stg],
     s_spawned := l\<rparr>"

lemma ex_begun: "exec_reachable ex_xenv (ex_sys (SBegun ex_start) ex_journal [])"
  using exec_reachable.step [OF ex_installed exec_step.start_begin [of ex_xenv "\<lambda>_. False" 0 ex_start _ ex_prep]] ex_begin
  by (simp add: boot_sys_def ex_sys_def ex_prep_facts)

lemma ex_verified: "exec_reachable ex_xenv (ex_sys (SVerified ex_start) ex_journal [])"
proof -
  have "Start_verify ex_xenv ex_start_inputs ex_prep = Inr ()"
    by (simp add: Start_verify_def ex_start_inputs_def ex_prep_facts Let_def)
  from exec_reachable.step [OF ex_begun exec_step.start_verified [where i = "''e1''", OF _ _ this]]
  show ?thesis by (simp add: ex_sys_def boot_sys_def)
qed

lemma ex_spawned: "\<exists>j r. exec_reachable ex_xenv (ex_sys (SReady r) j [spawn_of ex_prep])"
proof -
  let ?r = "\<lparr>lr_binding = p_binding ex_prep, lr_command_sha = p_command_sha ex_prep, lr_identity_sha = p_identity_sha ex_prep,
               lr_policy = [], lr_state = ''claimed'', lr_result = None\<rparr> :: LaunchRecord"
  obtain j1 where c: "Start_claim ex_xenv ex_start_inputs ex_start ex_prep ex_journal = (Inr ?r, j1)"
    and rec: "j_records j1 ''e1'' = Some ?r"
    by (simp add: Start_claim_def Claim_def ex_start_inputs_def ex_start_def ex_journal_def ex_prep_facts Let_def)
  from exec_reachable.step [OF ex_verified exec_step.start_claimed [where i = "''e1''" and p = ex_prep]] c
  have r: "exec_reachable ex_xenv (ex_sys (SClaimed ex_start) j1 [])" by (simp add: ex_sys_def boot_sys_def)
  obtain j2 where l: "Start_launch ex_xenv ex_start_inputs ex_start ex_prep j1 = (Inr (new_run ex_prep), j2, Some (spawn_of ex_prep))"
    by (simp add: Start_launch_def launchAuthorityValid_def ex_start_inputs_def ex_prep_facts unix_milli_def
        RecordRunning_def update_def Journal_Status_def rec Let_def)
  from exec_reachable.step [OF r exec_step.start_launch [where i = "''e1''" and st = ex_start and p = ex_prep
        and inp = ex_start_inputs and j' = j2 and res = "Inr (new_run ex_prep)" and sp = "Some (spawn_of ex_prep)"]] l
  have "exec_reachable ex_xenv (ex_sys (SReady (new_run ex_prep)) j2 [spawn_of ex_prep])"
    by (simp add: ex_sys_def boot_sys_def)
  then show ?thesis by blast
qed

section \<open>Properties\<close>

text \<open>C30. Budget slots are neither leaked nor released twice. In every reachable interleaving of
  \<open>Prepare\<close>, \<open>Start\<close>, \<open>Cancel\<close>, timers, script uploads, run ends, \<open>Close\<close>, terminal
  sessions and restarts, the slots the budget counts are exactly the preparations, unfinished
  \<open>Prepare\<close> and \<open>Start\<close> calls, runs, pending releases and other sessions; they stay within the
  maximum, and while maintenance is held there is no preparation and no run.\<close>

theorem slots_accounted:
  assumes "exec_reachable env s"
  shows "b_used (s_budget s) = int (slots s) \<and>
    (0 \<le> b_maximum (s_budget s) \<longrightarrow> int (slots s) \<le> b_maximum (s_budget s)) \<and>
    (b_maintenance (s_budget s) \<longrightarrow>
       m_prepared (s_mgr s) = Map.empty \<and> m_runs (s_mgr s) = Map.empty \<and> start_holders s = {} \<and> s_owed s = 0)"
proof -
  from reachable_slot_inv [OF assms] have k: "keys_inv s" and a: "sb.accounts (slots s) (s_budget s)"
    by (simp_all add: slot_inv_def)
  have "m_prepared (s_mgr s) = Map.empty \<and> m_runs (s_mgr s) = Map.empty \<and> start_holders s = {} \<and> s_owed s = 0"
    if "b_maintenance (s_budget s)"
  proof -
    have "slots s = 0" using a that by (simp add: sb.accounts_def)
    moreover have "finite (dom (m_prepared (s_mgr s)))" "finite (dom (m_runs (s_mgr s)))" using k by (simp_all add: keys_inv_def)
    ultimately show ?thesis using live_finite(2) [OF k] by (simp add: slots_def)
  qed
  with a show ?thesis by (simp add: sb.accounts_def)
qed

theorem slots_accounted_witness:
  "let s = (boot_sys ex_manager 8 ex_journal [])\<lparr>s_mgr := ex_manager\<lparr>m_pending := {''e1''}, m_prepared := [''e1'' \<mapsto> ex_prep], m_next := 1\<rparr>,
     s_budget := (New_budget 8)\<lparr>b_used := 1\<rparr>, s_preparing := [''e1'' \<mapsto> PInstalled]\<rparr>
   in b_used (s_budget s) = int (slots s) \<and> slots s = 1"
  using slots_accounted [OF ex_installed] by (simp add: Let_def)

text \<open>C9. For the life of the node's disk at most one process is created per execution id: over every
  interleaving, I/O failure, cancellation and agent restart, no id appears twice among the spawned
  processes, and every spawned id is durably claimed in the journal.\<close>

theorem spawn_at_most_once:
  assumes "exec_reachable env s"
  shows "distinct (map sp_id (s_spawned s)) \<and>
    (\<forall>sp \<in> set (s_spawned s). j_settled (s_journal s) (journalName (xe_journal env) (sp_id sp)) \<noteq> None)"
  using reachable_launch_inv [OF assms] by (simp add: launch_inv_def spawn_inv_def)

theorem spawn_at_most_once_witness:
  "\<exists>s. exec_reachable ex_xenv s \<and> s_spawned s = [spawn_of ex_prep] \<and> distinct (map sp_id (s_spawned s)) \<and>
     j_settled (s_journal s) (journalName example_env ''e1'') \<noteq> None"
proof -
  obtain j r where s: "exec_reachable ex_xenv (ex_sys (SReady r) j [spawn_of ex_prep])" using ex_spawned by blast
  from spawn_at_most_once [OF this] s show ?thesis
    by (intro exI [of _ "ex_sys (SReady r) j [spawn_of ex_prep]"])
      (auto simp: ex_sys_def boot_sys_def spawn_of_def ex_prep_facts ex_xenv_def)
qed



end
