(* ===== verification/Exec_Run.thy ===== *)
theory Exec_Run
  imports Exec_Manager
begin

text \<open>
  A running execution (\<open>Run\<close> in \<open>agent/internal/execution/manager.go\<close>): the sequenced input
  stream, the copy of a protected script to the process, the framing of its output, and the final
  result. Blocking channel operations enter as the outcome of their \<open>select\<close>.
\<close>

section \<open>Input\<close>

text \<open>Which case of the second \<open>select\<close> of \<open>Input\<close> and \<open>InputEOF\<close> fired; when the context ended, what the
  inner \<open>select\<close> saw.\<close>

datatype input_select = SelEnqueued | SelCtxDone bool | SelDone | SelStopped

text \<open>A call returns an error, or accepts the frame; an accepted frame is queued for the process or, when
  the process no longer reads, discarded.\<close>

datatype accepted = Queued string | Discarded | QueuedEOF

definition select_input :: "bool \<Rightarrow> input_select \<Rightarrow> accepted \<Rightarrow> string + accepted" where
  "select_input stopped sel frame =
     (if stopped then Inr Discarded
      else case sel of SelEnqueued \<Rightarrow> Inr frame | SelDone \<Rightarrow> Inr Discarded | SelStopped \<Rightarrow> Inr Discarded
        | SelCtxDone ended \<Rightarrow> if ended then Inr Discarded else Inl ''context canceled'')"

definition Run_Input :: "bool \<Rightarrow> input_select \<Rightarrow> (64 word \<times> string) option \<Rightarrow> Run \<Rightarrow> (string + accepted) \<times> Run" where
  "Run_Input stopped sel data r =
     (case data of
        None \<Rightarrow> (Inl ''invalid execution input sequence or frame'', r)
      | Some (sq, bytes) \<Rightarrow>
          if r_enhanced r \<or> r_input_closed r \<or> sq \<noteq> r_input_sequence r \<or> MaxFrameBytes < length bytes
          then (Inl ''invalid execution input sequence or frame'', r)
          else case select_input stopped sel (Queued bytes) of
            Inl e \<Rightarrow> (Inl e, r)
          | Inr a \<Rightarrow> (Inr a, r\<lparr>r_input_sequence := r_input_sequence r + 1\<rparr>))"

definition Run_InputEOF :: "bool \<Rightarrow> input_select \<Rightarrow> 64 word option \<Rightarrow> Run \<Rightarrow> (string + accepted) \<times> Run" where
  "Run_InputEOF stopped sel eof r =
     (case eof of
        None \<Rightarrow> (Inl ''invalid execution input EOF'', r)
      | Some sq \<Rightarrow>
          if r_enhanced r \<or> r_input_closed r \<or> sq \<noteq> r_input_sequence r
          then (Inl ''invalid execution input EOF'', r)
          else case select_input stopped sel QueuedEOF of
            Inl e \<Rightarrow> (Inl e, r)
          | Inr a \<Rightarrow> (Inr a, r\<lparr>r_input_closed := True\<rparr>))"

datatype input_op = InData bool input_select "(64 word \<times> string) option" | InEOF bool input_select "64 word option"

fun input_step :: "input_op \<Rightarrow> Run \<Rightarrow> (string + accepted) \<times> Run" where
  "input_step (InData st sel d) r = Run_Input st sel d r"
| "input_step (InEOF st sel e) r = Run_InputEOF st sel e r"

text \<open>The sequence numbers of the data frames a run accepted, in order.\<close>

fun accepted_seqs :: "(input_op \<times> (string + accepted)) list \<Rightarrow> 64 word list" where
  "accepted_seqs [] = []"
| "accepted_seqs ((InData st sel (Some (sq, bytes)), Inr a) # log) = sq # accepted_seqs log"
| "accepted_seqs (_ # log) = accepted_seqs log"

section \<open>The protected script\<close>

text \<open>One iteration of \<open>copyProtectedInput\<close>: what the read returned, whether the context or the process
  had ended, and what the write to the process did: all bytes, an error after some bytes, or a
  short count without an error.\<close>

datatype read_error = NoError | EndOfFile | ClosedSource | OtherError
datatype write_result = WroteAll | WriteError nat | WroteShort nat

record copy_read =
  cr_bytes :: string
  cr_error :: read_error
  cr_ctx_done :: bool
  cr_exited :: bool
  cr_write :: write_result

datatype copy_end = CopyDone | CopyFailed | CopyCancelled | CopyExited | CopyPipeClosed | CopyReading

text \<open>State of the loop: bytes read (the digest is the hash of the same bytes), consecutive empty reads,
  bytes written. The byte count is a \<open>uint64\<close> that stops growing once it exceeds the script length
  (at most 16 MiB), so it is kept as a number.\<close>

fun copyProtectedInput :: "(string \<Rightarrow> string) \<Rightarrow> nat \<Rightarrow> string \<Rightarrow> string \<Rightarrow> nat \<Rightarrow> string \<Rightarrow> copy_read list \<Rightarrow>
    copy_end \<times> string" where
  "copyProtectedInput sha len hsh seen empties written [] = (CopyReading, written)"
| "copyProtectedInput sha len hsh seen empties written (c # cs) =
     (let seen' = seen @ cr_bytes c;
          empties' = (if cr_bytes c \<noteq> [] then 0 else if cr_error c = NoError then empties + 1 else empties);
          eof = (cr_error c = EndOfFile) in
      if cr_ctx_done c then (CopyCancelled, written)
      else if cr_error c = ClosedSource \<and> cr_exited c then (CopyExited, written)
      else if cr_error c = ClosedSource \<or> cr_error c = OtherError \<or> len < length seen' \<or> 100 \<le> empties' \<or>
          eof \<and> (length seen' \<noteq> len \<or> sha seen' \<noteq> hsh)
      then (CopyFailed, written)
      else case (if cr_bytes c = [] then WroteAll else cr_write c) of
        WriteError k \<Rightarrow> (CopyPipeClosed, written @ take k (cr_bytes c))
      | WroteShort k \<Rightarrow> (CopyFailed, written @ take k (cr_bytes c))
      | WroteAll \<Rightarrow>
        let written' = written @ cr_bytes c in
        if eof then (CopyDone, written')
        else copyProtectedInput sha len hsh seen' empties' written' cs)"

section \<open>Output\<close>

datatype output_kind = Stdout | Stderr
datatype agent_message = MData output_kind "64 word" string | MOutputEOF output_kind "64 word"

text \<open>\<open>emit\<close>: a free slot takes the message at once; otherwise the consumer has until the timer to make
  room, and a consumer that stays blocked cancels the run.\<close>

datatype emit_select = EmitSent | EmitTimedOut | EmitCtxDone

definition emit :: "bool \<Rightarrow> emit_select \<Rightarrow> Run \<Rightarrow> bool \<times> Run" where
  "emit room sel r =
     (if room then (True, r)
      else case sel of EmitSent \<Rightarrow> (True, r)
        | EmitTimedOut \<Rightarrow> (False, Run_Cancel ''blocked_output_consumer'' r)
        | EmitCtxDone \<Rightarrow> (False, r))"

text \<open>The loop of \<open>readOutput\<close>: each read's bytes and error, and whether \<open>emit\<close> delivered the frame.
  The result is the frames sent, the next sequence number and whether the stream was complete.\<close>

record output_read =
  or_bytes :: string
  or_error :: read_error
  or_emitted :: bool

fun read_loop :: "output_kind \<Rightarrow> 64 word \<Rightarrow> output_read list \<Rightarrow> agent_message list \<times> 64 word \<times> bool" where
  "read_loop kind sq [] = ([], sq, False)"
| "read_loop kind sq (c # cs) =
     (if or_bytes c \<noteq> [] \<and> \<not> or_emitted c then ([], sq, False)
      else let frame = (if or_bytes c \<noteq> [] then [MData kind sq (or_bytes c)] else []);
               sq' = (if or_bytes c \<noteq> [] then sq + 1 else sq) in
        if or_error c \<noteq> NoError then (frame, sq', or_error c = EndOfFile)
        else case read_loop kind sq' cs of (ms, s, ok) \<Rightarrow> (frame @ ms, s, ok))"

definition readOutput :: "output_kind \<Rightarrow> output_read list \<Rightarrow> bool \<Rightarrow> agent_message list \<times> bool" where
  "readOutput kind reads eof_sent =
     (case read_loop kind 0 reads of (ms, sq, complete) \<Rightarrow>
        (ms @ (if eof_sent then [MOutputEOF kind sq] else []), complete \<and> eof_sent))"

section \<open>Ending the process group\<close>

text \<open>\<open>terminate\<close>: which signals the process group gets, by whether the process had exited before the
  first check, at the check under the lock, within the grace period, and at the last check.\<close>

datatype signal = SIGTERM | SIGKILL

definition terminate :: "bool \<Rightarrow> bool \<Rightarrow> bool \<Rightarrow> bool \<Rightarrow> signal list" where
  "terminate before locked graced final =
     (if before \<or> locked then []
      else SIGTERM # (if graced \<or> final then [] else [SIGKILL]))"

text \<open>\<open>hasLiveGroupMembers\<close>: the directory listing of \<open>/proc\<close> (missing when it cannot be read) with the
  content of each \<open>stat\<close> file. The fields after the last closing parenthesis are state, parent and
  process group.\<close>

definition after_last_paren :: "string \<Rightarrow> string option" where
  "after_last_paren s =
     (if CHR '')'' \<in> set s then Some (rev (takeWhile (\<lambda>c. c \<noteq> CHR '')'') (rev s))) else None)"

definition live_member :: "int \<Rightarrow> string \<times> string option \<Rightarrow> bool" where
  "live_member grp entry =
     (case entry of (name, stat) \<Rightarrow>
        case atoi name of
          None \<Rightarrow> False
        | Some pid \<Rightarrow>
          if pid = grp then False
          else case stat of
            None \<Rightarrow> False
          | Some content \<Rightarrow>
            case after_last_paren content of
              None \<Rightarrow> False
            | Some rest \<Rightarrow>
              let fs = string_fields rest in
              if length fs < 3 \<or> fs ! 0 = ''Z'' \<or> fs ! 0 = ''X'' then False
              else atoi (fs ! 2) = Some grp)"

definition hasLiveGroupMembers :: "int \<Rightarrow> (string \<times> string option) list option \<Rightarrow> bool" where
  "hasLiveGroupMembers grp proc =
     (case proc of None \<Rightarrow> True | Some entries \<Rightarrow> list_ex (live_member grp) entries)"

section \<open>The result\<close>

datatype wait_error = WaitOK | ExitErr int "string option" | WaitLost

definition run_result :: "Run \<Rightarrow> bool \<Rightarrow> bool \<Rightarrow> bool \<Rightarrow> wait_error \<Rightarrow> bool \<Rightarrow> bool \<Rightarrow> ExecutionResult" where
  "run_result r out_ok err_ok background wait ctx_done input_failed =
     (let res0 = \<lparr>er_binding = r_binding r, er_state = ''exited'', er_exit_code = 0, er_signal = [],
                  er_reason = (if background then ''background_descendants_terminated'' else []),
                  er_stdout_complete = out_ok, er_stderr_complete = err_ok\<rparr>;
          res1 = (case wait of WaitOK \<Rightarrow> res0
             | ExitErr code sig \<Rightarrow> res0\<lparr>er_exit_code := code, er_signal := (case sig of None \<Rightarrow> [] | Some s \<Rightarrow> s)\<rparr>
             | WaitLost \<Rightarrow> res0\<lparr>er_state := ''outcome_unknown'', er_exit_code := - 1, er_reason := ''process result unavailable''\<rparr>);
          reason = (case r_reason r of None \<Rightarrow> [] | Some x \<Rightarrow> x);
          res2 = (if ctx_done then res1\<lparr>er_state := ''cancelled'',
                    er_reason := (if reason = [] then ''runtime_or_transport_expired'' else reason)\<rparr> else res1);
          res3 = (if input_failed then res2\<lparr>er_state := ''cancelled'', er_reason := ''protected_input_incomplete''\<rparr> else res2)
      in if (\<not> out_ok \<or> \<not> err_ok) \<and> er_state res3 = ''exited''
         then res3\<lparr>er_state := ''transport_lost'', er_reason := ''output integrity incomplete''\<rparr> else res3)"

text \<open>The end of \<open>lifecycle\<close>: the result is persisted, then sent; a failed write is reported in the sent
  copy.\<close>

definition record_completion :: "exec_env \<Rightarrow> db_faults \<Rightarrow> ExecutionResult \<Rightarrow> Journal \<Rightarrow> ExecutionResult \<times> Journal" where
  "record_completion env f result j =
     (case RecordResult (xe_journal env) f result j of
        (Inl _, j') \<Rightarrow> (result\<lparr>er_reason := ''completion not durable''\<rparr>, j')
      | (Inr _, j') \<Rightarrow> (result, j'))"

section \<open>Lemmas\<close>

lemma copy_prefix:
  "copyProtectedInput sha len hsh seen em written cs = (e, w) \<Longrightarrow>
   \<exists>rest. w @ rest = written @ concat (map cr_bytes cs)"
proof (induction cs arbitrary: seen em written)
  case Nil
  then show ?case by simp
next
  case (Cons c cs)
  show ?case
  proof (cases "\<exists>s' e'. copyProtectedInput sha len hsh s' e' (written @ cr_bytes c) cs = (e, w)")
    case True
    with Cons.IH obtain rest where "w @ rest = (written @ cr_bytes c) @ concat (map cr_bytes cs)" by blast
    then have "w @ rest = written @ concat (map cr_bytes (c # cs))" by simp
    then show ?thesis by blast
  next
    case False
    with Cons.prems obtain k where w: "w = written @ take k (cr_bytes c)"
      by (force simp: Let_def intro: that [of 0] that [of "length (cr_bytes c)"] split: if_splits write_result.splits)
    have "w @ (drop k (cr_bytes c) @ concat (map cr_bytes cs)) = written @ concat (map cr_bytes (c # cs))"
      unfolding w by (metis append_assoc append_take_drop_id concat.simps(2) list.simps(9))
    then show ?thesis by blast
  qed
qed

lemma copy_done:
  "copyProtectedInput sha len hsh seen em written cs = (CopyDone, w) \<Longrightarrow> written = seen \<Longrightarrow>
   length w = len \<and> sha w = hsh"
  by (induction cs arbitrary: seen em written) (auto simp: Let_def split: if_splits write_result.splits)

lemma copy_bound:
  "copyProtectedInput sha len hsh seen em written cs = (CopyReading, w) \<Longrightarrow> em < 100 \<Longrightarrow> length seen \<le> len \<Longrightarrow>
   length cs + em + 100 * length seen < 100 * (len + 1)"
proof (induction cs arbitrary: seen em written)
  case Nil
  then show ?case by simp
next
  case (Cons c cs)
  let ?seen = "seen @ cr_bytes c"
  let ?em = "if cr_bytes c \<noteq> [] then 0 else if cr_error c = NoError then em + 1 else em"
  from Cons.prems(1) have r: "copyProtectedInput sha len hsh ?seen ?em (written @ cr_bytes c) cs = (CopyReading, w)"
    and b: "length ?seen \<le> len" "?em < 100" and ne: "cr_error c = NoError"
    by (cases "cr_error c"; auto simp: Let_def not_less split: if_splits write_result.splits)+
  from Cons.IH [OF r b(2,1)] have "length cs + ?em + 100 * length ?seen < 100 * (len + 1)" .
  then show ?case
    using Cons.prems(2) ne by (cases "cr_bytes c") (auto split: if_splits)
qed

text \<open>A data frame is accepted only with the next sequence number, which it advances; nothing else moves
  it.\<close>

lemma input_step_shape:
  "(\<exists>e. input_step op r = (Inl e, r)) \<or>
   (\<exists>st sel bytes a. op = InData st sel (Some (r_input_sequence r, bytes)) \<and>
      input_step op r = (Inr a, r\<lparr>r_input_sequence := r_input_sequence r + 1\<rparr>)) \<or>
   (\<exists>st sel sq a. op = InEOF st sel sq \<and> input_step op r = (Inr a, r\<lparr>r_input_closed := True\<rparr>))"
proof (cases op)
  case (InData st sel d)
  then show ?thesis
    by (cases "select_input st sel (Queued (snd (the d)))") (auto simp: Run_Input_def split: option.split prod.split)
next
  case (InEOF st sel sq)
  then show ?thesis
    by (cases "select_input st sel QueuedEOF") (auto simp: Run_InputEOF_def split: option.split)
qed

lemma accepted_seqs_skip:
  "accepted_seqs ((op, Inl e) # log) = accepted_seqs log" "accepted_seqs ((InEOF st sel sq, res) # log) = accepted_seqs log"
  by (cases "(op, Inl e :: string + accepted) # log" rule: accepted_seqs.cases; simp) simp

lemma input_seq_step:
  "accepted_seqs (run_results input_step ops r) =
     map (\<lambda>k. r_input_sequence r + of_nat k) [0..<length (accepted_seqs (run_results input_step ops r))]"
proof (induction ops arbitrary: r)
  case Nil
  then show ?case by simp
next
  case (Cons op ops)
  note ih = Cons.IH [of "snd (input_step op r)"]
  consider (refused) e where "input_step op r = (Inl e, r)"
    | (data) st sel bytes a where "op = InData st sel (Some (r_input_sequence r, bytes))"
        "input_step op r = (Inr a, r\<lparr>r_input_sequence := r_input_sequence r + 1\<rparr>)"
    | (eof) st sel sq a where "op = InEOF st sel sq" "input_step op r = (Inr a, r\<lparr>r_input_closed := True\<rparr>)"
    using input_step_shape [of op r] by blast
  then show ?case
  proof cases
    case refused
    with ih show ?thesis by (simp add: accepted_seqs_skip)
  next
    case eof
    with ih show ?thesis by (simp add: accepted_seqs_skip del: input_step.simps)
  next
    case data
    have "map (\<lambda>k. r_input_sequence r + of_nat k) [0..<Suc n] =
        r_input_sequence r # map (\<lambda>k. r_input_sequence r + 1 + of_nat k) [0..<n]" for n
      by (simp add: upt_conv_Cons map_Suc_upt [symmetric] add.assoc del: upt_Suc)
    with ih data show ?thesis by (simp del: input_step.simps)
  qed
qed

lemma input_closed_step:
  "r_enhanced r \<or> r_input_closed r \<Longrightarrow> accepted_seqs (run_results input_step ops r) = []"
proof (induction ops arbitrary: r)
  case Nil
  then show ?case by simp
next
  case (Cons op ops)
  have "\<exists>e. input_step op r = (Inl e, r)"
    using Cons.prems by (cases op) (auto simp: Run_Input_def Run_InputEOF_def split: option.split)
  then obtain e where "input_step op r = (Inl e, r)" ..
  with Cons show ?case by (simp add: accepted_seqs_skip)
qed

text \<open>The data of a framed stream, in order.\<close>

fun frames_of :: "agent_message list \<Rightarrow> string" where
  "frames_of [] = []"
| "frames_of (MData k sq bytes # ms) = bytes @ frames_of ms"
| "frames_of (MOutputEOF k sq # ms) = frames_of ms"

lemma frames_of_append: "frames_of (xs @ ys) = frames_of xs @ frames_of ys"
  by (induction xs rule: frames_of.induct) simp_all

lemma read_loop_frames:
  "read_loop kind sq reads = (ms, s, ok) \<Longrightarrow>
   (\<exists>chunks. ms = map (\<lambda>(k, bytes). MData kind (sq + of_nat k) bytes) (zip [0..<length chunks] chunks) \<and>
      s = sq + of_nat (length chunks) \<and>
      (ok \<longrightarrow> concat chunks = concat (map or_bytes (takeWhile (\<lambda>c. or_error c = NoError) reads)) @
                or_bytes (hd (dropWhile (\<lambda>c. or_error c = NoError) reads)) \<and>
               (\<exists>c \<in> set reads. or_error c = EndOfFile)))"
proof (induction reads arbitrary: sq ms s ok)
  case Nil
  then show ?case by (intro exI [of _ "[]"]) auto
next
  case (Cons c cs)
  show ?case
  proof (cases "or_bytes c \<noteq> [] \<and> \<not> or_emitted c")
    case True
    with Cons.prems show ?thesis by (intro exI [of _ "[]"]) auto
  next
    case emitted: False
    let ?sq = "if or_bytes c \<noteq> [] then sq + 1 else sq"
    let ?fr = "if or_bytes c \<noteq> [] then [MData kind sq (or_bytes c)] else []"
    let ?ch = "if or_bytes c \<noteq> [] then [or_bytes c] else []"
    show ?thesis
    proof (cases "or_error c = NoError")
      case False
      with emitted Cons.prems have "ms = ?fr" "s = ?sq" "ok = (or_error c = EndOfFile)" by (auto simp: Let_def)
      with False show ?thesis by (intro exI [of _ ?ch]) auto
    next
      case True
      obtain ms' s' ok' where r: "read_loop kind ?sq cs = (ms', s', ok')" by (metis prod_cases3)
      with True emitted Cons.prems have eq: "ms = ?fr @ ms'" "s = s'" "ok = ok'" by (auto simp: Let_def)
      from Cons.IH [OF r] obtain chunks where ch: "ms' = map (\<lambda>(k, bytes). MData kind (?sq + of_nat k) bytes) (zip [0..<length chunks] chunks)"
        "s' = ?sq + of_nat (length chunks)"
        "ok' \<Longrightarrow> concat chunks = concat (map or_bytes (takeWhile (\<lambda>c. or_error c = NoError) cs)) @
            or_bytes (hd (dropWhile (\<lambda>c. or_error c = NoError) cs)) \<and> (\<exists>c \<in> set cs. or_error c = EndOfFile)" by blast
      have shift: "map (\<lambda>(k, bytes). MData kind (sq + of_nat k) bytes) (zip [0..<Suc n] (b # chunks)) =
          MData kind sq b # map (\<lambda>(k, bytes). MData kind (sq + 1 + of_nat k) bytes) (zip [0..<n] chunks)" for b n
        by (simp add: upt_conv_Cons map_Suc_upt [symmetric] zip_map1 split_beta comp_def add.assoc del: upt_Suc)
      have "ms = map (\<lambda>(k, bytes). MData kind (sq + of_nat k) bytes) (zip [0..<length (?ch @ chunks)] (?ch @ chunks))"
        using eq(1) ch(1) shift [of "length chunks" "or_bytes c"] by (cases "or_bytes c = []") simp_all
      with eq ch(2,3) True show ?thesis by (intro exI [of _ "?ch @ chunks"]) auto
    qed
  qed
qed

section \<open>Properties\<close>

text \<open>The input of an execution is delivered in order and without gaps: the sequence numbers a
  run accepts are 0, 1, 2, and so on, whatever frames arrive and however its channels block or
  close; a run fed by a protected script accepts no client input at all.\<close>

theorem input_sequenced:
  "let seqs = accepted_seqs (run_results input_step ops (new_run p)) in
     seqs = map of_nat [0..<length seqs] \<and> (p_enhanced p \<longrightarrow> seqs = [])"
  using input_seq_step [of ops "new_run p"] input_closed_step [of "new_run p" ops]
  by (simp add: new_run_def Let_def)

definition example_preparation :: preparation where
  "example_preparation = \<lparr>p_ref = 0, p_binding = example_binding, p_identity_sha = [], p_command_sha = [],
     p_limits = default_limits, p_identity = \<lparr>id_username = ''ops'', id_uid = 1000, id_gid = 1000, id_groups = [],
       id_home = ''/'', id_shell = ''/bin/sh'', id_cwd = ''/'', id_set_credential = True\<rparr>, p_command = ''sh -s'',
     p_run_as = ''ops'', p_attached = True, p_cancelled = False, p_enhanced = True, p_script_hash = [],
     p_script_length = 0, p_script_offset = 0, p_script_complete = True, p_script = Some []\<rparr>"

theorem input_sequenced_witness:
  "accepted_seqs (run_results input_step [InData False SelEnqueued (Some (0, ''x''))] (new_run example_preparation)) = []"
  using input_sequenced [of "[InData False SelEnqueued (Some (0, ''x''))]" example_preparation]
  by (simp add: Let_def example_preparation_def)

text \<open>C32. A protected script reaches the process intact or the run is failed. Whatever the reads and
  writes do, the bytes the process was given are a prefix of what was read; the copy ends as done
  only when they are exactly the announced length with the announced hash; and the loop ends
  within 100 reads per byte of the script plus 100, so a source that stalls cannot hold it.\<close>

theorem script_delivery:
  assumes "copyProtectedInput sha len hsh [] 0 [] reads = (e, w)"
  shows "(\<exists>rest. w @ rest = concat (map cr_bytes reads)) \<and>
    (e = CopyDone \<longrightarrow> length w = len \<and> sha w = hsh) \<and>
    (100 * (len + 1) \<le> length reads \<longrightarrow> e \<noteq> CopyReading)"
proof (intro conjI impI)
  show "\<exists>rest. w @ rest = concat (map cr_bytes reads)" using copy_prefix [OF assms] by simp
  show "length w = len" "sha w = hsh" if "e = CopyDone"
    using copy_done [of sha len hsh "[]" 0 "[]" reads w] assms that by simp_all
  show "e \<noteq> CopyReading" if "100 * (len + 1) \<le> length reads"
  proof
    assume "e = CopyReading"
    with assms have "copyProtectedInput sha len hsh [] 0 [] reads = (CopyReading, w)" by simp
    from copy_bound [OF this] that show False by simp
  qed
qed

theorem script_delivery_witness:
  "fst (copyProtectedInput (\<lambda>s. s) 2 ''ls'' [] 0 [] [\<lparr>cr_bytes = ''l'', cr_error = NoError, cr_ctx_done = False, cr_exited = False, cr_write = WroteAll\<rparr>,
      \<lparr>cr_bytes = ''s'', cr_error = EndOfFile, cr_ctx_done = False, cr_exited = False, cr_write = WroteAll\<rparr>]) = CopyDone \<and>
   length (snd (copyProtectedInput (\<lambda>s. s) 2 ''ls'' [] 0 [] [\<lparr>cr_bytes = ''l'', cr_error = NoError, cr_ctx_done = False, cr_exited = False, cr_write = WroteAll\<rparr>,
      \<lparr>cr_bytes = ''s'', cr_error = EndOfFile, cr_ctx_done = False, cr_exited = False, cr_write = WroteAll\<rparr>])) = 2"
proof -
  let ?c = "copyProtectedInput (\<lambda>s. s) 2 ''ls'' [] 0 [] [\<lparr>cr_bytes = ''l'', cr_error = NoError, cr_ctx_done = False, cr_exited = False, cr_write = WroteAll\<rparr>,
      \<lparr>cr_bytes = ''s'', cr_error = EndOfFile, cr_ctx_done = False, cr_exited = False, cr_write = WroteAll\<rparr>]"
  have "fst ?c = CopyDone" by simp
  moreover have "?c = (fst ?c, snd ?c)" by simp
  ultimately show ?thesis using script_delivery [of _ _ _ _ "fst ?c" "snd ?c"] by metis
qed

text \<open>Output frames are numbered from zero without gaps and can be put together again: the data
  frames of a stream carry 0, 1, and so on, the end-of-output frame carries their number, and when
  the stream is reported complete the frames hold exactly the bytes the process wrote before end
  of file.\<close>

theorem output_framing:
  "case readOutput kind reads eof_sent of (ms, complete) \<Rightarrow>
     \<exists>chunks. ms = map (\<lambda>(k, bytes). MData kind (of_nat k) bytes) (zip [0..<length chunks] chunks) @
                     (if eof_sent then [MOutputEOF kind (of_nat (length chunks))] else []) \<and>
       (complete \<longrightarrow> eof_sent \<and> (\<exists>c \<in> set reads. or_error c = EndOfFile) \<and>
          concat chunks = concat (map or_bytes (takeWhile (\<lambda>c. or_error c = NoError) reads)) @
            or_bytes (hd (dropWhile (\<lambda>c. or_error c = NoError) reads)))"
proof -
  obtain ms s ok where r: "read_loop kind 0 reads = (ms, s, ok)" by (metis prod_cases3)
  from read_loop_frames [OF r] show ?thesis
    unfolding readOutput_def r prod.case by auto
qed

theorem output_framing_witness:
  "readOutput Stdout [\<lparr>or_bytes = ''ab'', or_error = NoError, or_emitted = True\<rparr>, \<lparr>or_bytes = ''c'', or_error = EndOfFile, or_emitted = True\<rparr>] True
     = ([MData Stdout 0 ''ab'', MData Stdout 1 ''c'', MOutputEOF Stdout 2], True) \<and>
   (\<exists>chunks. [MData Stdout 0 ''ab'', MData Stdout 1 ''c'', MOutputEOF Stdout 2] =
       map (\<lambda>(k, bytes). MData Stdout (of_nat k) bytes) (zip [0..<length chunks] chunks) @ [MOutputEOF Stdout (of_nat (length chunks))] \<and>
     concat chunks = ''abc'')"
  using output_framing [where kind = Stdout and eof_sent = True and reads = "[\<lparr>or_bytes = ''ab'', or_error = NoError, or_emitted = True\<rparr>, \<lparr>or_bytes = ''c'', or_error = EndOfFile, or_emitted = True\<rparr>]"]
  by (auto simp: readOutput_def Let_def)

text \<open>C39. A result never overstates what happened: it says \<open>exited\<close> only when both output streams
  were delivered completely, the protected input did not fail, the run was not cancelled or expired
  and the process's own exit status was collected; every other ending has another state, and the
  first cancellation reason is the one reported.\<close>

theorem result_honest:
  "(er_state (run_result r out_ok err_ok background wait ctx_done input_failed) = ''exited'' \<longleftrightarrow>
     out_ok \<and> err_ok \<and> \<not> ctx_done \<and> \<not> input_failed \<and> wait \<noteq> WaitLost) \<and>
   (\<not> input_failed \<longrightarrow>
     er_reason (run_result (Run_Cancel second_reason (Run_Cancel reason (new_run p))) out_ok err_ok background wait True input_failed)
       = cancel_reason reason)"
  by (cases wait; cases out_ok; cases err_ok; cases ctx_done; cases input_failed)
    (auto simp: run_result_def Let_def Run_Cancel_def new_run_def cancel_reason_def)

theorem result_honest_witness:
  "er_reason (run_result (Run_Cancel ''late'' (Run_Cancel ''operator'' (new_run example_preparation))) True True False WaitOK True False) = ''operator''"
  using result_honest [where input_failed = False and second_reason = "''late''" and reason = "''operator''" and p = example_preparation
      and out_ok = True and err_ok = True and background = False and wait = WaitOK]
  by (simp add: cancel_reason_def valid_utf8.simps byte_in_def)

end
