(* ===== verification/Policy_Model.thy ===== *)
theory Policy_Model
  imports Account_Store
begin

text \<open>
  The data of two-person governance (\<open>hub/internal/model/security.go\<close>,
  \<open>hub/internal/model/audit_controls.go\<close>), the stored audit policy and its integrity check, the
  enrollment test and the execution-policy validator (\<open>hub/internal/store/security.go\<close>), and the
  audit settings (\<open>hub/internal/store/audit_controls.go\<close>). Versions are unbounded naturals.
\<close>

section \<open>Records\<close>

record AuditPolicy =
  Profile :: string
  Actors :: "string list"
  Nodes :: "string list"
  RuntimeSeconds :: go_int
  RetentionHours :: go_int
  Destination :: string
  CredentialRef :: string
  TrustKeyIDs :: "string list"
  QualificationSHA256 :: string

definition Covers :: "AuditPolicy \<Rightarrow> string \<Rightarrow> string \<Rightarrow> bool" where
  "Covers p actor node \<longleftrightarrow>
     Profile p = ''enhanced'' \<and>
     (Actors p = [] \<and> Nodes p = [] \<or> actor \<in> set (Actors p) \<or> node \<in> set (Nodes p))"

record ExecutionPolicy =
  ep_Version :: nat
  ep_SHA256 :: string
  ep_Enhanced :: bool
  ep_RuntimeSeconds :: go_int
  ep_RecoveryRequired :: bool

record PolicyVersion =
  pv_Version :: nat
  pv_Policy :: AuditPolicy
  pv_SHA256 :: string
  pv_RequestID :: string

record PolicyState =
  st_Active :: PolicyVersion
  st_Pending :: "PolicyVersion option"
  st_State :: string
  st_Previous :: "PolicyVersion option"
  st_PendingChange :: string

record SecurityNomination =
  sn_UserID :: string
  sn_PersonID :: string
  sn_Roles :: "string list"
  sn_Verification :: string

record SecurityRoleChange =
  rc_UserID :: string
  rc_Role :: string
  rc_Grant :: bool

record SecurityPersonChange =
  pc_UserID :: string
  pc_PersonID :: string
  pc_Verification :: string

record SecurityRecovery =
  rv_UserID :: string
  rv_Operation :: string
  rv_SecretRef :: string
  rv_PreparedPasswordHash :: string

record AuditThresholds =
  LoginFailuresPerHour :: go_int
  RegistrationFailuresPerHour :: go_int
  PrivilegedActionsPerHour :: go_int

record AuditSettings =
  RetentionDays :: go_int
  ReviewReminderDays :: go_int
  PasswordHistoryCount :: go_int
  TemporaryPasswordTTLHours :: go_int
  Thresholds :: AuditThresholds

record SecurityLDAPSettings =
  la_Enabled :: bool
  la_URL :: string
  la_BindDN :: string
  la_BindCredentialRef :: string
  la_ClearBindPassword :: bool
  la_UserBaseDN :: string
  la_GroupBaseDN :: string
  la_UserSearchFilter :: string
  la_GroupSearchFilter :: string
  la_UsernameAttribute :: string
  la_EmailAttribute :: string
  la_ExternalIDAttribute :: string
  la_GroupNameAttribute :: string
  la_StartTLS :: bool
  la_TLSServerName :: string
  la_CACertPEM :: string
  la_AdminGroups :: "string list"
  la_AuditorGroups :: "string list"
  la_ViewerGroups :: "string list"
  la_TerminalGroups :: "string list"

text \<open>Pointers are options; \<open>PreparedConfig\<close>, a Go map, is the list of its entries in the order a
  range over it takes them.\<close>

record SecurityChangePayload =
  pl_Kind :: string
  pl_Policy :: "AuditPolicy option"
  pl_Nominations :: "SecurityNomination list"
  pl_Role :: "SecurityRoleChange option"
  pl_Person :: "SecurityPersonChange option"
  pl_AuditSettings :: "AuditSettings option"
  pl_LDAP :: "SecurityLDAPSettings option"
  pl_PreparedConfig :: "(string \<times> string) list"
  pl_Recovery :: "SecurityRecovery option"

record SecurityApproval =
  va_UserID :: string
  va_PersonID :: string
  va_ProofSHA256 :: string
  va_ApprovedAt :: go_time
  va_TokenGeneration :: go_int
  va_InvalidatedAt :: "go_time option"

record SecurityChange =
  c_ID :: string
  c_Revision :: go_int
  c_RequesterID :: string
  c_RequesterPersonID :: string
  c_ApplierID :: string
  c_ApplierPersonID :: string
  c_ApplierRevision :: go_int
  c_RequesterGeneration :: go_int
  c_ExpectedVersion :: nat
  c_Digest :: string
  c_Reason :: string
  c_Payload :: string
  c_ApprovedBytes :: string
  c_State :: string
  c_CreatedAt :: go_time
  c_ExpiresAt :: go_time
  c_Approvals :: "SecurityApproval list"
  c_IntentRef :: string
  c_CommitRef :: string
  c_ResultRef :: string

record EffectiveCapabilities =
  ec_UserID :: string
  ec_PersonID :: string
  ec_Roles :: "string list"
  ec_Capabilities :: "string list"

fun list_has :: "string \<Rightarrow> string list \<Rightarrow> bool" where
  "list_has c [] = False"
| "list_has c (x # xs) = (if x = c then True else list_has c xs)"

lemma list_has_set [simp]: "list_has c xs \<longleftrightarrow> c \<in> set xs"
  by (induction xs) auto

definition Can :: "EffectiveCapabilities \<Rightarrow> string \<Rightarrow> bool" where
  "Can e capability = list_has capability (ec_Capabilities e)"

definition HasRole :: "EffectiveCapabilities \<Rightarrow> string \<Rightarrow> bool" where
  "HasRole e role = list_has role (ec_Roles e)"

definition IsAssignableRole :: "string \<Rightarrow> bool" where
  "IsAssignableRole role \<longleftrightarrow> IsValidRole role \<or> IsSecurityRole role"

section \<open>The environment of an operation\<close>

text \<open>
  What the surroundings decide during one governance operation. The functions outside the source:
  hexadecimal SHA-256, the JSON codec (the typed and the raw \<open>change\<close> member of approved bytes, a
  policy and its text) and the fresh random text. The rest: which statements of the transaction
  (\<open>g_tx\<close>) and of the \<open>j\<close>-th call in its body (\<open>g_db j\<close>, 0 for the body's own) fail, which
  configuration keys cannot be read there (\<open>g_cfg j\<close>), what the \<open>i\<close>-th reading of the clock in
  that call gives (\<open>g_clock j i\<close>), and the second that SQLite's \<open>unixepoch()\<close> gives.
\<close>

record gov_env =
  g_sha :: "string \<Rightarrow> string"
  g_change :: "string \<Rightarrow> SecurityChangePayload option"
  g_raw :: "string \<Rightarrow> string option"
  g_policy :: "string \<Rightarrow> AuditPolicy option"
  g_marshal :: "AuditPolicy \<Rightarrow> string option"
  g_fresh :: string
  g_tx :: db_faults
  g_db :: "nat \<Rightarrow> db_faults"
  g_cfg :: "nat \<Rightarrow> string \<Rightarrow> bool"
  g_clock :: "nat \<Rightarrow> nat \<Rightarrow> go_time"
  g_wall :: int

definition SecurityDigest :: "gov_env \<Rightarrow> string \<Rightarrow> string" where
  "SecurityDigest env raw = g_sha env raw"

text \<open>Unix seconds of a time and the time of Unix seconds.\<close>

definition time_unix :: "go_time \<Rightarrow> int" where "time_unix t = t div second"
definition from_unix :: "int \<Rightarrow> go_time" where "from_unix s = s * second"

section \<open>Roles and persons\<close>

definition UserRoles :: "bool \<Rightarrow> string \<Rightarrow> db \<Rightarrow> store_error + string list" where
  "UserRoles fault user d =
     (if fault then Inl DbError
      else Inr (sort (map r_role (filter (\<lambda>r. r_user_id r = user) (user_roles d)))))"

definition PersonForUser :: "bool \<Rightarrow> string \<Rightarrow> db \<Rightarrow> store_error + string" where
  "PersonForUser fault user d =
     (if fault then Inl DbError
      else case person_of d user of None \<Rightarrow> Inl NoRows | Some p \<Rightarrow> Inr p)"

definition IsProtectedUser :: "(string \<Rightarrow> string list) \<Rightarrow> bool \<Rightarrow> string \<Rightarrow> db \<Rightarrow> store_error + bool" where
  "IsProtectedUser jt fault user d = (if fault then Inl DbError else Inr (protectedPerson jt d user))"

definition GuardSecurityUserMutation ::
    "(string \<Rightarrow> string list) \<Rightarrow> bool \<Rightarrow> string \<Rightarrow> db \<Rightarrow> store_error option" where
  "GuardSecurityUserMutation jt fault user d =
     (case IsProtectedUser jt fault user d of
        Inl e \<Rightarrow> Some e | Inr p \<Rightarrow> if p then Some ErrProtectedChange else None)"

section \<open>Stored policy versions\<close>

definition decodePolicyVersion ::
    "gov_env \<Rightarrow> nat \<Rightarrow> string \<Rightarrow> string \<Rightarrow> string \<Rightarrow> store_error + PolicyVersion" where
  "decodePolicyVersion env version sha request raw =
     (let digest = SecurityDigest env raw in
      if sha = [] \<and> (version \<noteq> 1 \<or> request \<noteq> [] \<or> raw \<noteq> initialStandardPolicy)
      then Inl ErrPolicyIntegrity
      else if sha \<noteq> [] \<and> sha \<noteq> digest then Inl ErrPolicyIntegrity
      else case g_policy env raw of
             None \<Rightarrow> Inl ErrPolicyIntegrity
           | Some p \<Rightarrow> Inr \<lparr>pv_Version = version, pv_Policy = p, pv_SHA256 = digest, pv_RequestID = request\<rparr>)"

definition version_row :: "db \<Rightarrow> nat \<Rightarrow> policy_version_row option" where
  "version_row d v = sql_first (\<lambda>r. pv_version r = v) (policy_versions d)"

definition readPolicyVersion :: "gov_env \<Rightarrow> bool \<Rightarrow> db \<Rightarrow> nat \<Rightarrow> store_error + PolicyVersion" where
  "readPolicyVersion env fault d v =
     (if fault then Inl DbError
      else case version_row d v of
             None \<Rightarrow> Inl NoRows
           | Some r \<Rightarrow> decodePolicyVersion env v (pv_digest r) (pv_request_id r) (pv_payload r))"

definition enrolled_by :: "PolicyVersion \<Rightarrow> bool" where
  "enrolled_by p \<longleftrightarrow> 1 < pv_Version p \<or> pv_RequestID p \<noteq> [] \<or> Profile (pv_Policy p) = ''enhanced''"

fun scan_enrolled :: "gov_env \<Rightarrow> bool \<Rightarrow> policy_version_row list \<Rightarrow> store_error + bool" where
  "scan_enrolled env acc [] = Inr acc"
| "scan_enrolled env acc (r # rs) =
     (case decodePolicyVersion env (pv_version r) (pv_digest r) (pv_request_id r) (pv_payload r) of
        Inl e \<Rightarrow> Inl e
      | Inr p \<Rightarrow> scan_enrolled env (acc \<or> enrolled_by p) rs)"

definition governanceEnrolled :: "gov_env \<Rightarrow> bool \<Rightarrow> db \<Rightarrow> store_error + bool" where
  "governanceEnrolled env fault d =
     (if fault then Inl DbError
      else scan_enrolled env False (sort_key pv_version (policy_versions d)))"

text \<open>\<open>GetPolicyState\<close>: statement 0 reads the state, 1 the active version, 2 the pending one, 3 the
  change that is pending, 4 the version it replaces.\<close>

definition change_row_of :: "db \<Rightarrow> string \<Rightarrow> change_row option" where
  "change_row_of d i = sql_first (\<lambda>r. ch_id r = i) (changes d)"

definition GetPolicyState :: "gov_env \<Rightarrow> db_faults \<Rightarrow> db \<Rightarrow> store_error + PolicyState" where
  "GetPolicyState env f d =
     (let s = policy_state d in
      if f 0 then Inl DbError
      else case readPolicyVersion env (f 1) d (ps_active s) of
        Inl e \<Rightarrow> Inl e
      | Inr act \<Rightarrow>
         (case ps_pending s of
            None \<Rightarrow> Inr \<lparr>st_Active = act, st_Pending = None, st_State = ps_state s,
                      st_Previous = None, st_PendingChange = ps_pending_change s\<rparr>
          | Some v \<Rightarrow>
             (case readPolicyVersion env (f 2) d v of
                Inl e \<Rightarrow> Inl e
              | Inr pend \<Rightarrow>
                  if f 3 then Inl DbError
                  else case change_row_of d (ps_pending_change s) of
                    None \<Rightarrow> Inl NoRows
                  | Some c \<Rightarrow>
                     (case readPolicyVersion env (f 4) d (ch_expected_version c) of
                        Inl e \<Rightarrow> Inl e
                      | Inr old \<Rightarrow> Inr \<lparr>st_Active = act, st_Pending = Some pend, st_State = ps_state s,
                          st_Previous = Some old, st_PendingChange = ps_pending_change s\<rparr>))))"

section \<open>The execution-policy validator\<close>

text \<open>The store is bound once to a continuity authority; without one only the untouched initial
  Standard policy validates.\<close>

type_synonym policy_validator = "db \<Rightarrow> PolicyState \<Rightarrow> store_error option"

definition InstallExecutionPolicyValidator ::
    "string \<Rightarrow> policy_validator option \<Rightarrow> (string \<times> policy_validator) option \<Rightarrow>
     store_error option \<times> (string \<times> policy_validator) option" where
  "InstallExecutionPolicyValidator key validate bound =
     (case validate of
        None \<Rightarrow> (Some ErrPolicyIntegrity, bound)
      | Some v \<Rightarrow>
          if key = [] then (Some ErrPolicyIntegrity, bound)
          else case bound of
                 Some (k, w) \<Rightarrow> (if k \<noteq> key then Some ErrPolicyIntegrity else None, bound)
               | None \<Rightarrow> (None, Some (key, v)))"

definition ValidateExecutionPolicy ::
    "gov_env \<Rightarrow> bool \<Rightarrow> (string \<times> policy_validator) option \<Rightarrow> PolicyState \<Rightarrow> db \<Rightarrow> store_error option" where
  "ValidateExecutionPolicy env fault bound state d =
     (case bound of
        Some (k, v) \<Rightarrow> v d state
      | None \<Rightarrow>
         (let act = st_Active state in
          if g_marshal env (pv_Policy act) \<noteq> Some initialStandardPolicy \<or> pv_Version act \<noteq> 1 \<or>
             pv_RequestID act \<noteq> [] \<or> pv_SHA256 act \<noteq> SecurityDigest env initialStandardPolicy
          then Some ErrPolicyIntegrity
          else if st_Pending state \<noteq> None \<or> st_Previous state \<noteq> None \<or> st_PendingChange state \<noteq> [] \<or>
             st_State state \<notin> {''standard'', ''setup_pending'', ''recovery_required''}
          then Some ErrPolicyIntegrity
          else if governanceEnrolled env fault d \<noteq> Inr False then Some ErrPolicyIntegrity
          else None))"

text \<open>\<open>terminalPolicyLive\<close>: an established terminal stays only while no policy that may apply
  covers it; \<open>cancelled\<close> is the bounded context's error.\<close>

definition terminalPolicyLive ::
    "gov_env \<Rightarrow> (string \<times> policy_validator) option \<Rightarrow> bool \<Rightarrow> string \<Rightarrow> string \<Rightarrow> db \<Rightarrow> bool" where
  "terminalPolicyLive env bound cancelled actor node d =
     (case GetPolicyState env (g_db env 0) d of
        Inl e \<Rightarrow> False
      | Inr state \<Rightarrow>
          if st_State state = ''recovery_required'' \<or>
             ValidateExecutionPolicy env (g_db env 1 0) bound state d \<noteq> None then False
          else if Covers (pv_Policy (st_Active state)) actor node \<or>
             (\<exists>p \<in> set_option (st_Pending state). Covers (pv_Policy p) actor node) \<or>
             (\<exists>p \<in> set_option (st_Previous state). Covers (pv_Policy p) actor node) then False
          else \<not> cancelled)"

section \<open>Audit settings\<close>

definition show_int :: "int \<Rightarrow> string" where
  "show_int i = (if i < 0 then CHR ''-'' # show_nat (nat (- i)) else show_nat (nat i))"

definition configAuthPasswordHistoryCount :: string where
  "configAuthPasswordHistoryCount = ''auth.password_history_count''"
definition configAuthTemporaryPasswordTTLHours :: string where
  "configAuthTemporaryPasswordTTLHours = ''auth.temporary_password_ttl_hours''"
definition configAuditRetentionDays :: string where
  "configAuditRetentionDays = ''audit.retention_days''"
definition configAuditReviewReminderDays :: string where
  "configAuditReviewReminderDays = ''audit.review_reminder_days''"
definition configAuditLoginFailureThreshold :: string where
  "configAuditLoginFailureThreshold = ''audit.threshold.login_failures_per_hour''"
definition configAuditRegistrationFailureThreshold :: string where
  "configAuditRegistrationFailureThreshold = ''audit.threshold.registration_failures_per_hour''"
definition configAuditPrivilegedActionThreshold :: string where
  "configAuditPrivilegedActionThreshold = ''audit.threshold.privileged_actions_per_hour''"

definition defaultPasswordHistoryLimit :: int where "defaultPasswordHistoryLimit = 5"

definition AuditSettingsConfig :: "AuditSettings \<Rightarrow> (string \<times> string) list" where
  "AuditSettingsConfig a =
     [(configAuditRetentionDays, show_int (RetentionDays a)),
      (configAuditReviewReminderDays, show_int (ReviewReminderDays a)),
      (configAuthPasswordHistoryCount, show_int (PasswordHistoryCount a)),
      (configAuthTemporaryPasswordTTLHours, show_int (TemporaryPasswordTTLHours a)),
      (configAuditLoginFailureThreshold, show_int (LoginFailuresPerHour (Thresholds a))),
      (configAuditRegistrationFailureThreshold, show_int (RegistrationFailuresPerHour (Thresholds a))),
      (configAuditPrivilegedActionThreshold, show_int (PrivilegedActionsPerHour (Thresholds a)))]"

definition ValidateAuditSettings :: "AuditSettings \<Rightarrow> bool" where
  "ValidateAuditSettings a \<longleftrightarrow>
     1 \<le> RetentionDays a \<and> RetentionDays a \<le> 3650 \<and>
     1 \<le> ReviewReminderDays a \<and> ReviewReminderDays a \<le> 365 \<and>
     1 \<le> PasswordHistoryCount a \<and> PasswordHistoryCount a \<le> 24 \<and>
     1 \<le> TemporaryPasswordTTLHours a \<and> TemporaryPasswordTTLHours a \<le> 24 * 30 \<and>
     1 \<le> LoginFailuresPerHour (Thresholds a) \<and> LoginFailuresPerHour (Thresholds a) \<le> 10000 \<and>
     1 \<le> RegistrationFailuresPerHour (Thresholds a) \<and> RegistrationFailuresPerHour (Thresholds a) \<le> 10000 \<and>
     1 \<le> PrivilegedActionsPerHour (Thresholds a) \<and> PrivilegedActionsPerHour (Thresholds a) \<le> 10000"

text \<open>\<open>getConfigIntDefault\<close>: an unreadable, absent or non-numeric value is the default.\<close>

definition getConfigIntDefault :: "(string \<Rightarrow> bool) \<Rightarrow> db \<Rightarrow> string \<Rightarrow> int \<Rightarrow> int" where
  "getConfigIntDefault kf d key dflt =
     (case GetConfig (\<lambda>_. kf key) d key of
        None \<Rightarrow> dflt
      | Some v \<Rightarrow> (case atoi v of None \<Rightarrow> dflt | Some n \<Rightarrow> n))"

definition GetAuditSettings :: "(string \<Rightarrow> bool) \<Rightarrow> db \<Rightarrow> AuditSettings" where
  "GetAuditSettings kf d =
     \<lparr>RetentionDays = getConfigIntDefault kf d configAuditRetentionDays 90,
      ReviewReminderDays = getConfigIntDefault kf d configAuditReviewReminderDays 7,
      PasswordHistoryCount = getConfigIntDefault kf d configAuthPasswordHistoryCount defaultPasswordHistoryLimit,
      TemporaryPasswordTTLHours = getConfigIntDefault kf d configAuthTemporaryPasswordTTLHours 72,
      Thresholds = \<lparr>
        LoginFailuresPerHour = getConfigIntDefault kf d configAuditLoginFailureThreshold 10,
        RegistrationFailuresPerHour = getConfigIntDefault kf d configAuditRegistrationFailureThreshold 5,
        PrivilegedActionsPerHour = getConfigIntDefault kf d configAuditPrivilegedActionThreshold 20\<rparr>\<rparr>"

text \<open>Upserts into \<open>_config\<close>, one statement an entry.\<close>

fun put_configs :: "db_faults \<Rightarrow> nat \<Rightarrow> (string \<times> string) list \<Rightarrow> unit op" where
  "put_configs f i [] d = (Inr (), d)"
| "put_configs f i ((k, v) # kvs) d =
     (if f i then (Inl DbError, d)
      else put_configs f (Suc i) kvs (d\<lparr>config := (config d)(k \<mapsto> v)\<rparr>))"

definition UpdateAuditSettings :: "gov_env \<Rightarrow> AuditSettings \<Rightarrow> unit op" where
  "UpdateAuditSettings env a =
     withImmediateTx (g_tx env) (stmt (g_db env 0 0) (\<lambda>d.
       case governanceEnrolled env (g_db env 0 1) d of
         Inl e \<Rightarrow> (Inl e, d)
       | Inr enrolled \<Rightarrow>
           refuse_if (ps_state (policy_state d) \<noteq> ''standard'' \<or> ps_pending (policy_state d) \<noteq> None \<or> enrolled)
             ErrProtectedChange (put_configs (g_db env 1) 0 (AuditSettingsConfig a)) d))"

end
