(* ===== verification/Security_Store.thy ===== *)
theory Security_Store
  imports Policy_Model
begin

text \<open>
  The governance writes of \<open>hub/internal/store/security.go\<close>: step-up proofs, security changes and
  their approvals, the quorum check, the begin, commit, activate and finish of a policy transition
  and what an approved payload does to accounts, roles and configuration, with the triggers of
  migration 025. Each operation runs in an immediate transaction unless it is one statement.
\<close>

section \<open>Step-up proofs\<close>

text \<open>SQLite's \<open>length\<close> of a text: the characters before the first NUL.\<close>

definition sql_length :: "string \<Rightarrow> nat" where
  "sql_length s = length (filter (\<lambda>c. \<not> byte_in 128 191 c) (takeWhile (\<lambda>c. c \<noteq> CHR 0x00) s))"

definition stepupLifetime :: duration where "stepupLifetime = 5 * minute"

definition IssueStepup ::
    "gov_env \<Rightarrow> bool \<Rightarrow> string \<Rightarrow> string \<Rightarrow> string \<Rightarrow> string \<Rightarrow> go_time \<Rightarrow> string op" where
  "IssueStepup env randFails user session action digest now d =
     (if user = [] \<or> session = [] \<or> action = [] \<or> length digest \<noteq> 64 then (Inl ErrStepup, d)
      else if randFails then (Inl DbError, d)
      else if g_db env 0 0 \<or> sql_length digest \<noteq> 64 then (Inl DbError, d)
      else case sql_insert su_hash
             \<lparr>su_hash = SecurityDigest env (g_fresh env), su_user_id = user, su_session_id = session,
              su_action = action, su_digest = digest, su_created_at = time_unix now,
              su_expires_at = time_unix (time_add now stepupLifetime), su_consumed_at = None,
              su_generation = (case find_user d user of Some u \<Rightarrow> u_token_generation u | None \<Rightarrow> -1)\<rparr>
             (stepups d) of
           None \<Rightarrow> (Inl DbError, d)
         | Some rows \<Rightarrow> (Inr (g_fresh env), d\<lparr>stepups := rows\<rparr>))"

text \<open>The proof an action can spend at second \<open>now\<close>.\<close>

definition stepup_usable ::
    "gov_env \<Rightarrow> string \<Rightarrow> string \<Rightarrow> string \<Rightarrow> string \<Rightarrow> string \<Rightarrow> int \<Rightarrow> db \<Rightarrow> stepup_row \<Rightarrow> bool" where
  "stepup_usable env proof user session action digest now d s \<longleftrightarrow>
     su_hash s = SecurityDigest env proof \<and> su_user_id s = user \<and> su_session_id s = session \<and>
     su_action s = action \<and> su_digest s = digest \<and> su_consumed_at s = None \<and>
     su_created_at s \<le> now \<and> now < su_expires_at s \<and>
     map_option u_token_generation (find_user d (su_user_id s)) = Some (su_generation s)"

text \<open>\<open>consumeStepupWithClock\<close>, the \<open>j\<close>-th call of its transaction: statement 0 reads the session,
  1 spends the proof, 2 is its row count.\<close>

definition consumeStepupWithClock ::
    "gov_env \<Rightarrow> nat \<Rightarrow> Policy \<Rightarrow> string \<Rightarrow> string \<Rightarrow> string \<Rightarrow> string \<Rightarrow> string \<Rightarrow> unit op" where
  "consumeStepupWithClock env j pol proof user session action digest d =
     (if proof = [] \<or> session = [] then (Inl ErrStepup, d)
      else if guardLiveSession (g_db env j) d session user (g_clock env j 0) pol \<noteq> None then (Inl ErrStepup, d)
      else if g_db env j 1 then (Inl DbError, d)
      else let now = time_unix (g_clock env j 1);
               P = stepup_usable env proof user session action digest now d;
               d' = d\<lparr>stepups := sql_update P (\<lambda>s. s\<lparr>su_consumed_at := Some now\<rparr>) (stepups d)\<rparr> in
           if g_db env j 2 then (Inl DbError, d')
           else if sql_count P (stepups d) \<noteq> 1 then (Inl ErrStepup, d') else (Inr (), d'))"

definition recheckStepupSession ::
    "gov_env \<Rightarrow> nat \<Rightarrow> Policy \<Rightarrow> string \<Rightarrow> string \<Rightarrow> db \<Rightarrow> store_error option" where
  "recheckStepupSession env j pol user session d =
     (if guardLiveSession (g_db env j) d session user (g_clock env j 0) pol \<noteq> None
      then Some ErrStepup else None)"

definition with_policy :: "gov_env \<Rightarrow> nat \<Rightarrow> (Policy \<Rightarrow> 'a op) \<Rightarrow> 'a op" where
  "with_policy env j k d =
     (case accountManagementPolicyStrict (g_cfg env j) d of Inl e \<Rightarrow> (Inl e, d) | Inr p \<Rightarrow> k p d)"

definition op_ret :: "'a \<Rightarrow> ('a, 's) tx" where "op_ret v d = (Inr v, d)"

definition ConsumeStepup :: "gov_env \<Rightarrow> string \<Rightarrow> string \<Rightarrow> string \<Rightarrow> string \<Rightarrow> string \<Rightarrow> unit op" where
  "ConsumeStepup env proof user session action digest =
     withImmediateTx (g_tx env) (with_policy env 0 (\<lambda>pol.
       op_bind (consumeStepupWithClock env 2 pol proof user session action digest) (\<lambda>_.
       check (recheckStepupSession env 4 pol user session) (op_ret ()))))"

section \<open>Principals\<close>

text \<open>The captured dormancy authority of a principal: the account's activity and the limit.\<close>

type_synonym principal_guard_t = "Input \<times> go_int"

definition run_guard :: "principal_guard_t \<Rightarrow> go_time \<Rightarrow> store_error option" where
  "run_guard g now =
     (if in_CreatedAt (fst g) = zero_time \<or> IsDormant (fst g) now (snd g)
      then Some ErrSecurityConflict else None)"

definition dormancy_input :: "user_row \<Rightarrow> Input" where
  "dormancy_input u = \<lparr>in_DisabledAt = None, in_LockedUntil = None,
     in_LastActivityAt = parse_sqlite (u_last_activity u),
     in_ReactivatedAt = parse_sqlite (u_reactivated_at u),
     in_CreatedAt = parse_sqlite_value (u_created_at u),
     in_DormancyExempt = u_dormancy_exempt u\<rparr>"

definition checkSecurityPrincipalDormancy ::
    "(string \<Rightarrow> bool) \<Rightarrow> user_row \<Rightarrow> go_time \<Rightarrow> db \<Rightarrow> store_error + principal_guard_t" where
  "checkSecurityPrincipalDormancy kf u now d =
     (case accountManagementPolicyStrict kf d of
        Inl e \<Rightarrow> Inl e
      | Inr p \<Rightarrow> let g = (dormancy_input u, DormantDays p) in
                (case run_guard g now of Some e \<Rightarrow> Inl e | None \<Rightarrow> Inr g))"

definition role_count :: "db \<Rightarrow> string \<Rightarrow> string \<Rightarrow> nat" where
  "role_count d user role = sql_count (\<lambda>r. r_user_id r = user \<and> r_role r = role) (user_roles d)"

definition ActionRequest :: string where "ActionRequest = ''security.request''"
definition ActionApprove :: string where "ActionApprove = ''security.approve''"
definition ActionApply :: string where "ActionApply = ''security.apply''"

lemmas action_names = ActionRequest_def ActionApprove_def ActionApply_def

definition role_for :: "string \<Rightarrow> string" where
  "role_for action = (if action = ActionApprove then RoleSecurityApprover else RoleSecurityOfficer)"

definition nominated :: "SecurityChangePayload \<Rightarrow> string \<Rightarrow> string \<Rightarrow> string \<Rightarrow> bool" where
  "nominated p user person role \<longleftrightarrow>
     (\<exists>n \<in> set (pl_Nominations p). sn_UserID n = user \<and> sn_PersonID n = person \<and> role \<in> set (sn_Roles n))"

text \<open>\<open>checkSecurityPrincipal\<close>, the \<open>j\<close>-th call: statement 0 reads the account, 1 counts its
  administrator role, 2 reads its person, 3 counts the security role.\<close>

definition checkSecurityPrincipal ::
    "gov_env \<Rightarrow> nat \<Rightarrow> SecurityChange \<Rightarrow> string \<Rightarrow> string \<Rightarrow> go_int \<Rightarrow> string \<Rightarrow> db \<Rightarrow>
     store_error + principal_guard_t" where
  "checkSecurityPrincipal env j c user person generation action d =
     (if g_db env j 0 then Inl DbError
      else case find_user d user of
        None \<Rightarrow> Inl NoRows
      | Some u \<Rightarrow>
          if u_security_revision u \<noteq> generation \<or> \<not> u_totp_enabled u \<or> u_disabled_at u \<noteq> None \<or> u_must_change u
          then Inl ErrSecurityConflict
          else case g_change env (c_ApprovedBytes c) of
            None \<Rightarrow> Inl ErrJSON
          | Some p \<Rightarrow>
              if pl_Kind p = ''bootstrap'' then
                if \<not> nominated p user person (role_for action) then Inl ErrSecurityConflict
                else if action \<noteq> ActionApprove \<and> (g_db env j 1 \<or> role_count d user RoleAdmin \<noteq> 1)
                then Inl ErrSecurityConflict
                else checkSecurityPrincipalDormancy (g_cfg env j) u (g_clock env j 0) d
              else if g_db env j 2 \<or> person_of d user \<noteq> Some person then Inl ErrSecurityConflict
              else if g_db env j 3 then Inl DbError
              else if role_count d user (role_for action) \<noteq> 1 then Inl ErrSecurityConflict
              else checkSecurityPrincipalDormancy (g_cfg env j) u (g_clock env j 0) d)"

definition with_principal ::
    "gov_env \<Rightarrow> nat \<Rightarrow> SecurityChange \<Rightarrow> string \<Rightarrow> string \<Rightarrow> go_int \<Rightarrow> string \<Rightarrow>
     (principal_guard_t \<Rightarrow> 'a op) \<Rightarrow> 'a op" where
  "with_principal env j c user person generation action k d =
     (case checkSecurityPrincipal env j c user person generation action d of
        Inl e \<Rightarrow> (Inl e, d) | Inr g \<Rightarrow> k g d)"

definition recheckSecurityPrincipalGuards :: "go_time \<Rightarrow> principal_guard_t list \<Rightarrow> store_error option" where
  "recheckSecurityPrincipalGuards now guards =
     (if \<exists>g \<in> set guards. run_guard g now \<noteq> None then Some ErrSecurityConflict else None)"

section \<open>Creating and reading changes\<close>

definition validateSecurityRecoveryTarget ::
    "bool \<Rightarrow> SecurityChangePayload \<Rightarrow> db \<Rightarrow> store_error option" where
  "validateSecurityRecoveryTarget fault p d =
     (case pl_Recovery p of
        None \<Rightarrow> None
      | Some r \<Rightarrow>
          if pl_Kind p \<noteq> ''recovery'' \<or> rv_Operation r \<noteq> ''password-reset'' then None
          else if fault then Some DbError
          else case find_user d (rv_UserID r) of
                 None \<Rightarrow> Some NoRows
               | Some u \<Rightarrow> if u_auth_provider u \<noteq> AuthProviderLocal then Some ErrLocalPasswordOnly else None)"

definition new_change_row :: "SecurityChange \<Rightarrow> change_row" where
  "new_change_row c = \<lparr>ch_id = c_ID c, ch_revision = c_Revision c, ch_requester_id = c_RequesterID c,
     ch_requester_person = c_RequesterPersonID c, ch_requester_generation = c_RequesterGeneration c,
     ch_expected_version = c_ExpectedVersion c, ch_digest = c_Digest c, ch_reason = c_Reason c,
     ch_payload = c_ApprovedBytes c, ch_state = ''requested'', ch_created_at = time_unix (c_CreatedAt c),
     ch_expires_at = time_unix (c_ExpiresAt c), ch_intent_ref = [], ch_commit_ref = [], ch_result_ref = [],
     ch_applier_id = [], ch_applier_person = [], ch_applier_revision = 0\<rparr>"

definition insert_change :: "SecurityChange \<Rightarrow> unit op" where
  "insert_change c d =
     (if c_Revision c \<le> 0 \<or> sql_length (c_Digest c) \<noteq> 64 \<or> sql_length (c_Reason c) = 0 then (Inl DbError, d)
      else case sql_insert ch_id (new_change_row c) (changes d) of
             None \<Rightarrow> (Inl DbError, d) | Some rows \<Rightarrow> (Inr (), d\<lparr>changes := rows\<rparr>))"

definition mfa_complete :: "user_row \<Rightarrow> bool" where
  "mfa_complete u \<longleftrightarrow> u_totp_enabled u \<and> u_totp_secret u \<noteq> None \<and> u_disabled_at u = None \<and> \<not> u_must_change u"

text \<open>Each nomination is checked again and inserted, two statements each; the roles column keeps
  the list.\<close>

fun insert_nominations :: "db_faults \<Rightarrow> string \<Rightarrow> nat \<Rightarrow> SecurityNomination list \<Rightarrow> unit op" where
  "insert_nominations f req i [] d = (Inr (), d)"
| "insert_nominations f req i (n # ns) d =
     (if f i then (Inl DbError, d)
      else case (find_user d (sn_UserID n), person_of d (sn_UserID n)) of
        (Some u, Some linked) \<Rightarrow>
          if \<not> mfa_complete u \<or> (linked \<noteq> ''user:'' @ sn_UserID n \<and> linked \<noteq> sn_PersonID n)
          then (Inl ErrSecurityConflict, d)
          else if f (Suc i) then (Inl DbError, d)
          else (case sql_insert (\<lambda>r. (n_request_id r, n_user_id r))
                  \<lparr>n_request_id = req, n_user_id = sn_UserID n, n_person_id = sn_PersonID n,
                   n_roles = sn_Roles n, n_verification = sn_Verification n\<rparr> (nominations d) of
                  None \<Rightarrow> (Inl DbError, d)
                | Some rows \<Rightarrow> insert_nominations f req (i + 2) ns (d\<lparr>nominations := rows\<rparr>))
      | _ \<Rightarrow> (Inl NoRows, d))"

definition open_nominated :: "db \<Rightarrow> nat" where
  "open_nominated d = sql_count (\<lambda>c. ch_state c \<in> set open_change_states \<and>
     ch_id c \<in> n_request_id ` set (nominations d)) (changes d)"

definition setup_pending :: "db \<Rightarrow> db" where
  "setup_pending d = (if ps_state (policy_state d) = ''standard''
     then d\<lparr>policy_state := (policy_state d)\<lparr>ps_state := ''setup_pending''\<rparr>\<rparr> else d)"

text \<open>Calls of \<open>CreateSecurityChange\<close>: 0 its body (statement 0 the recovery target, 1 the policy
  state, 2 the open nominations, 3 the insert, 4 the setup mark), 1 the principal, 2 the proof,
  3 the nominations, 4 the session recheck; call 0 also reads the policy.\<close>

definition CreateSecurityChange ::
    "gov_env \<Rightarrow> SecurityChange \<Rightarrow> SecurityNomination list \<Rightarrow> string \<Rightarrow> string \<Rightarrow> unit op" where
  "CreateSecurityChange env c noms session proof =
     withImmediateTx (g_tx env) (refuse_if (c_ExpiresAt c \<le> g_clock env 0 0) ErrSecurityConflict (\<lambda>d.
       case g_change env (c_ApprovedBytes c) of
         None \<Rightarrow> (Inl ErrJSON, d)
       | Some p \<Rightarrow>
          (check (validateSecurityRecoveryTarget (g_db env 0 0) p)
          (with_principal env 1 c (c_RequesterID c) (c_RequesterPersonID c) (c_RequesterGeneration c) ActionRequest (\<lambda>guard.
           with_policy env 0 (\<lambda>pol.
           op_bind (consumeStepupWithClock env 2 pol proof (c_RequesterID c) session ActionRequest (c_Digest c)) (\<lambda>_.
           stmt (g_db env 0 1) (\<lambda>d.
             (refuse_if (ps_active (policy_state d) \<noteq> c_ExpectedVersion c \<or>
                 ps_state (policy_state d) \<in> {''applying'', ''recovery_required''}) ErrSecurityConflict
             (stmt (noms \<noteq> [] \<and> g_db env 0 2)
             (refuse_if (noms \<noteq> [] \<and> 0 < open_nominated d) ErrSecurityConflict
             (stmt (g_db env 0 3)
             (op_bind (insert_change c) (\<lambda>_.
              op_bind (insert_nominations (g_db env 3) (c_ID c) 0 noms) (\<lambda>_.
              stmt (noms \<noteq> [] \<and> g_db env 0 4)
             (refuse_if (c_ExpiresAt c \<le> g_clock env 0 1) ErrSecurityConflict (\<lambda>d.
               (check (recheckStepupSession env 4 pol (c_RequesterID c) session)
               (check (\<lambda>d. recheckSecurityPrincipalGuards (g_clock env 0 2) [guard])
               (refuse_if (c_ExpiresAt c \<le> g_clock env 0 3) ErrSecurityConflict (op_ret ()))))
               (if noms \<noteq> [] then setup_pending d else d)))))))))) d)))))) d))"

definition scanSecurityChange :: "gov_env \<Rightarrow> change_row \<Rightarrow> store_error + SecurityChange" where
  "scanSecurityChange env r =
     (case g_raw env (ch_payload r) of
        None \<Rightarrow> Inl ErrJSON
      | Some raw \<Rightarrow> Inr \<lparr>c_ID = ch_id r, c_Revision = ch_revision r, c_RequesterID = ch_requester_id r,
          c_RequesterPersonID = ch_requester_person r, c_ApplierID = ch_applier_id r,
          c_ApplierPersonID = ch_applier_person r, c_ApplierRevision = ch_applier_revision r,
          c_RequesterGeneration = ch_requester_generation r, c_ExpectedVersion = ch_expected_version r,
          c_Digest = ch_digest r, c_Reason = ch_reason r, c_Payload = raw, c_ApprovedBytes = ch_payload r,
          c_State = ch_state r, c_CreatedAt = from_unix (ch_created_at r),
          c_ExpiresAt = from_unix (ch_expires_at r), c_Approvals = [], c_IntentRef = ch_intent_ref r,
          c_CommitRef = ch_commit_ref r, c_ResultRef = ch_result_ref r\<rparr>)"

definition scan_approval :: "approval_row \<Rightarrow> SecurityApproval" where
  "scan_approval a = \<lparr>va_UserID = ap_user_id a, va_PersonID = ap_person_id a,
     va_ProofSHA256 = ap_proof_sha256 a, va_ApprovedAt = from_unix (ap_approved_at a),
     va_TokenGeneration = ap_generation a, va_InvalidatedAt = map_option from_unix (ap_invalidated_at a)\<rparr>"

definition GetSecurityChange :: "gov_env \<Rightarrow> db_faults \<Rightarrow> string \<Rightarrow> db \<Rightarrow> store_error + SecurityChange" where
  "GetSecurityChange env f i d =
     (if f 0 then Inl DbError
      else case change_row_of d i of
        None \<Rightarrow> Inl NoRows
      | Some r \<Rightarrow>
         (case scanSecurityChange env r of
            Inl e \<Rightarrow> Inl e
          | Inr c \<Rightarrow>
              if f 1 then Inl DbError
              else Inr (c\<lparr>c_Approvals := map scan_approval (sort_key (\<lambda>a. (ap_approved_at a, ap_user_id a))
                     (filter (\<lambda>a. ap_request_id a = i \<and> ap_revision a = c_Revision c \<and> ap_digest a = c_Digest c)
                        (approvals d)))\<rparr>)))"

fun scan_changes :: "gov_env \<Rightarrow> change_row list \<Rightarrow> store_error + SecurityChange list" where
  "scan_changes env [] = Inr []"
| "scan_changes env (r # rs) =
     (case scanSecurityChange env r of
        Inl e \<Rightarrow> Inl e
      | Inr c \<Rightarrow> (case scan_changes env rs of Inl e \<Rightarrow> Inl e | Inr cs \<Rightarrow> Inr (c # cs)))"

definition ListSecurityChanges ::
    "gov_env \<Rightarrow> bool \<Rightarrow> int \<Rightarrow> int \<Rightarrow> db \<Rightarrow> store_error + SecurityChange list" where
  "ListSecurityChanges env fault limit offset d =
     (let lim = (if limit < 1 \<or> 100 < limit then 50 else limit); off = (if offset < 0 then 0 else offset) in
      if fault then Inl DbError
      else scan_changes env (take (nat lim) (drop (nat off)
             (sort_key (\<lambda>r. (- ch_created_at r, ch_id r)) (changes d)))))"

section \<open>Approvals and expiry\<close>

definition live_votes :: "string \<Rightarrow> go_int \<Rightarrow> db \<Rightarrow> nat" where
  "live_votes i r d = sql_count (\<lambda>a. ap_request_id a = i \<and> ap_revision a = r \<and> ap_invalidated_at a = None)
     (approvals d)"

text \<open>The two keys of \<open>security_approvals\<close>: one vote a person and one a user for each revision.\<close>

definition insert_approval :: "approval_row \<Rightarrow> unit op" where
  "insert_approval a d =
     (if \<exists>b \<in> set (approvals d). ap_request_id b = ap_request_id a \<and> ap_revision b = ap_revision a \<and>
           (ap_person_id b = ap_person_id a \<or> ap_user_id b = ap_user_id a)
      then (Inl DbError, d) else (Inr (), d\<lparr>approvals := approvals d @ [a]\<rparr>))"

definition set_change :: "(change_row \<Rightarrow> bool) \<Rightarrow> (change_row \<Rightarrow> change_row) \<Rightarrow> db \<Rightarrow> db" where
  "set_change P f d = d\<lparr>changes := sql_update P f (changes d)\<rparr>"

definition set_policy_state :: "(policy_state_row \<Rightarrow> bool) \<Rightarrow> (policy_state_row \<Rightarrow> policy_state_row) \<Rightarrow> db \<Rightarrow> db" where
  "set_policy_state P f d = (if P (policy_state d) then d\<lparr>policy_state := f (policy_state d)\<rparr> else d)"

text \<open>Calls of \<open>AddSecurityApproval\<close>: 0 its body (statement 0 the change, 1 the active version,
  2 the vote, 3 the change's new state, 4 its row count), 1 the principal, 2 the proof, 4 the
  session recheck.\<close>

definition AddSecurityApproval ::
    "gov_env \<Rightarrow> SecurityChange \<Rightarrow> SecurityApproval \<Rightarrow> string \<Rightarrow> string \<Rightarrow> unit op" where
  "AddSecurityApproval env c a session proof =
     withImmediateTx (g_tx env)
      (with_principal env 1 c (va_UserID a) (va_PersonID a) (va_TokenGeneration a) ActionApprove (\<lambda>guard.
       with_policy env 0 (\<lambda>pol.
       op_bind (consumeStepupWithClock env 2 pol proof (va_UserID a) session ActionApprove (c_Digest c)) (\<lambda>_.
       stmt (g_db env 0 0) (\<lambda>d.
         case sql_first (\<lambda>r. ch_id r = c_ID c \<and> ch_revision r = c_Revision c) (changes d) of
           None \<Rightarrow> (Inl NoRows, d)
         | Some r \<Rightarrow>
            (refuse_if (ch_digest r \<noteq> c_Digest c \<or> ch_expires_at r \<le> time_unix (g_clock env 0 0) \<or>
                ch_state r \<notin> {''requested'', ''partially_approved''}) ErrSecurityConflict
            (stmt (g_db env 0 1)
            (refuse_if (ps_active (policy_state d) \<noteq> ch_expected_version r) ErrSecurityConflict
            (refuse_if (ch_expires_at r \<le> time_unix (g_clock env 0 1)) ErrSecurityConflict
            (stmt (g_db env 0 2)
            (op_bind (insert_approval \<lparr>ap_request_id = c_ID c, ap_revision = c_Revision c, ap_digest = c_Digest c,
                 ap_user_id = va_UserID a, ap_person_id = va_PersonID a,
                 ap_proof_sha256 = SecurityDigest env proof, ap_generation = va_TokenGeneration a,
                 ap_approved_at = time_unix (g_clock env 0 1), ap_invalidated_at = None\<rparr>) (\<lambda>_.
             stmt (g_db env 0 3) (\<lambda>d.
               let P = (\<lambda>r. ch_id r = c_ID c \<and> time_unix (g_clock env 0 2) < ch_expires_at r) in
               (refuse_if (g_db env 0 4 \<or> sql_count P (changes d) \<noteq> 1) ErrSecurityConflict (\<lambda>d.
                 (check (recheckStepupSession env 4 pol (va_UserID a) session)
                 (check (\<lambda>d. recheckSecurityPrincipalGuards (g_clock env 0 3) [guard])
                 (refuse_if (ch_expires_at r \<le> time_unix (g_clock env 0 4)) ErrSecurityConflict (op_ret ()))))
                 (set_change P (\<lambda>r. r\<lparr>ch_state := if 2 \<le> live_votes (c_ID c) (c_Revision c) d
                    then ''approved'' else ''partially_approved''\<rparr>) d))) d)))))))) d)))))"

definition InvalidateSecurityVotes :: "gov_env \<Rightarrow> string \<Rightarrow> unit op" where
  "InvalidateSecurityVotes env user = stmt (g_db env 0 0) (\<lambda>d. (Inr (),
     d\<lparr>approvals := sql_update (\<lambda>a. ap_user_id a = user) (\<lambda>a. a\<lparr>ap_invalidated_at := Some (g_wall env)\<rparr>) (approvals d)\<rparr>))"

definition ExpireSecurityChanges :: "gov_env \<Rightarrow> unit op" where
  "ExpireSecurityChanges env =
     withImmediateTx (g_tx env) (stmt (g_db env 0 0) (\<lambda>d.
       let d1 = set_change (\<lambda>r. ch_expires_at r \<le> time_unix (g_clock env 0 0) \<and>
                  ch_state r \<in> {''requested'', ''partially_approved'', ''approved''})
                  (\<lambda>r. r\<lparr>ch_state := ''expired''\<rparr>) d in
       stmt (g_db env 0 1) (\<lambda>d. (Inr (),
         set_policy_state (\<lambda>s. ps_state s = ''setup_pending'' \<and> open_nominated d = 0)
           (\<lambda>s. s\<lparr>ps_state := ''standard''\<rparr>) d)) d1))"

section \<open>Quorum\<close>

text \<open>The votes in force, each against the persons seen before it; call \<open>j\<close> and on check them.\<close>

fun check_people ::
    "gov_env \<Rightarrow> nat \<Rightarrow> SecurityChange \<Rightarrow> string list \<Rightarrow> approval_row list \<Rightarrow> db \<Rightarrow>
     store_error + principal_guard_t list" where
  "check_people env j c seen [] d = Inr []"
| "check_people env j c seen (p # ps) d =
     (if ap_person_id p \<in> set seen \<or> ap_user_id p = c_RequesterID c then Inl ErrSecurityConflict
      else case checkSecurityPrincipal env j c (ap_user_id p) (ap_person_id p) (ap_generation p) ActionApprove d of
        Inl e \<Rightarrow> Inl e
      | Inr g \<Rightarrow> (case check_people env (Suc j) c (ap_person_id p # seen) ps d of
                   Inl e \<Rightarrow> Inl e | Inr gs \<Rightarrow> Inr (g # gs)))"

definition votes_of :: "SecurityChange \<Rightarrow> db \<Rightarrow> approval_row list" where
  "votes_of c d = filter (\<lambda>a. ap_request_id a = c_ID c \<and> ap_revision a = c_Revision c \<and>
     ap_digest a = c_Digest c \<and> ap_invalidated_at a = None) (approvals d)"

text \<open>Call 5 is the requester, 6 the query and the final recheck, 7 and on the approvers.\<close>

definition validateSecurityQuorumConn ::
    "gov_env \<Rightarrow> SecurityChange \<Rightarrow> db \<Rightarrow> store_error + principal_guard_t list" where
  "validateSecurityQuorumConn env c d =
     (case checkSecurityPrincipal env 5 c (c_RequesterID c) (c_RequesterPersonID c) (c_RequesterGeneration c)
             ActionRequest d of
        Inl e \<Rightarrow> Inl e
      | Inr rg \<Rightarrow>
          if g_db env 6 0 then Inl DbError
          else let people = votes_of c d in
            if length people < 2 then Inl ErrSecurityConflict
            else case check_people env 7 c [c_RequesterPersonID c] people d of
                   Inl e \<Rightarrow> Inl e
                 | Inr gs \<Rightarrow> (case recheckSecurityPrincipalGuards (g_clock env 6 0) (rg # gs) of
                               Some e \<Rightarrow> Inl e | None \<Rightarrow> Inr (rg # gs)))"

text \<open>The applier (call 1) and then the quorum, with all their guards rechecked.\<close>

definition with_authority :: "gov_env \<Rightarrow> SecurityChange \<Rightarrow> (principal_guard_t list \<Rightarrow> 'a op) \<Rightarrow> 'a op" where
  "with_authority env c k =
     with_principal env 1 c (c_ApplierID c) (c_ApplierPersonID c) (c_ApplierRevision c) ActionApply (\<lambda>ag d.
       case validateSecurityQuorumConn env c d of
         Inl e \<Rightarrow> (Inl e, d)
       | Inr gs \<Rightarrow> check (\<lambda>d. recheckSecurityPrincipalGuards (g_clock env 1 1) (ag # gs)) (k (ag # gs)) d)"

section \<open>Transitions\<close>

text \<open>Calls of \<open>ClaimSecurityApplier\<close>: 0 its body (statement 0 the deadline, 1 the claim), 1 the
  principal, 2 the proof, 4 the session recheck.\<close>

definition ClaimSecurityApplier ::
    "gov_env \<Rightarrow> SecurityChange \<Rightarrow> string \<Rightarrow> string \<Rightarrow> go_int \<Rightarrow> string \<Rightarrow> string \<Rightarrow> unit op" where
  "ClaimSecurityApplier env c user person revision session proof =
     withImmediateTx (g_tx env)
      (with_principal env 1 c user person revision ActionApply (\<lambda>guard.
       with_policy env 0 (\<lambda>pol.
       stmt (g_db env 0 0) (\<lambda>d.
         case sql_first (\<lambda>r. ch_id r = c_ID c \<and> ch_state r = ''approved'') (changes d) of
           None \<Rightarrow> (Inl NoRows, d)
         | Some r \<Rightarrow>
            (op_bind (consumeStepupWithClock env 2 pol proof user session ActionApply (c_Digest c)) (\<lambda>_.
             stmt (g_db env 0 1) (\<lambda>d.
               let P = (\<lambda>r. ch_id r = c_ID c \<and> time_unix (g_clock env 0 0) < ch_expires_at r \<and>
                     ch_state r = ''approved'' \<and> (ch_applier_id r = [] \<or> ch_applier_id r = user \<and>
                       ch_applier_person r = person \<and> ch_applier_revision r = revision)) in
               (refuse_if (sql_count P (changes d) \<noteq> 1) ErrSecurityConflict (\<lambda>d.
                 (check (recheckStepupSession env 4 pol user session)
                 (check (\<lambda>d. recheckSecurityPrincipalGuards (g_clock env 0 1) [guard])
                 (refuse_if (ch_expires_at r \<le> time_unix (g_clock env 0 2)) ErrSecurityConflict (op_ret ()))))
                 (set_change P (\<lambda>r. r\<lparr>ch_applier_id := user, ch_applier_person := person,
                    ch_applier_revision := revision\<rparr>) d))) d))) d))))"

definition insert_version :: "policy_version_row \<Rightarrow> unit op" where
  "insert_version r d =
     (if pv_version r = 0 then (Inl DbError, d)
      else case sql_insert pv_version r (policy_versions d) of
             None \<Rightarrow> (Inl DbError, d) | Some rows \<Rightarrow> (Inr (), d\<lparr>policy_versions := rows\<rparr>))"

definition with_version :: "gov_env \<Rightarrow> bool \<Rightarrow> nat \<Rightarrow> (PolicyVersion \<Rightarrow> 'a op) \<Rightarrow> 'a op" where
  "with_version env fault v k d =
     (case readPolicyVersion env fault d v of Inl e \<Rightarrow> (Inl e, d) | Inr p \<Rightarrow> k p d)"

text \<open>Statements of \<open>beginSecurityApply\<close>: 0 the current version, 1 the change, 2 the state, 3 the
  new version, 4 the pending version, 5 the change's state, 6 its row count.\<close>

definition beginSecurityApply :: "gov_env \<Rightarrow> SecurityChange \<Rightarrow> AuditPolicy \<Rightarrow> string \<Rightarrow> unit op" where
  "beginSecurityApply env c newPolicy intentRef d0 =
     (case g_marshal env newPolicy of
        None \<Rightarrow> (Inl ErrJSON, d0)
      | Some raw \<Rightarrow>
         withImmediateTx (g_tx env) (with_version env (g_db env 0 0) (c_ExpectedVersion c) (\<lambda>_.
           stmt (g_db env 0 1) (\<lambda>d.
             case change_row_of d (c_ID c) of
               None \<Rightarrow> (Inl NoRows, d)
             | Some r \<Rightarrow>
                (refuse_if (ch_state r \<noteq> ''approved'' \<or> ch_digest r \<noteq> c_Digest c \<or>
                    SecurityDigest env (ch_payload r) \<noteq> c_Digest c \<or>
                    ch_expires_at r \<le> time_unix (g_clock env 0 0) \<or> intentRef = []) ErrSecurityConflict
                (with_authority env c (\<lambda>guards.
                 refuse_if (ch_expires_at r \<le> time_unix (g_clock env 0 1)) ErrSecurityConflict
                (stmt (g_db env 0 2) (\<lambda>d.
                   (refuse_if (\<not> (ps_active (policy_state d) = c_ExpectedVersion c \<and>
                       ps_state (policy_state d) \<in> {''standard'', ''enhanced'', ''setup_pending''} \<and>
                       ps_pending_change (policy_state d) = [])) ErrSecurityConflict
                   (stmt (g_db env 0 3)
                   (op_bind (insert_version \<lparr>pv_version = c_ExpectedVersion c + 1, pv_payload = raw,
                        pv_digest = SecurityDigest env raw, pv_request_id = c_ID c\<rparr>) (\<lambda>_.
                    stmt (g_db env 0 4) (stmt (g_db env 0 5) (\<lambda>d.
                      let P = (\<lambda>r. ch_id r = c_ID c \<and> ch_state r = ''approved'' \<and>
                            time_unix (g_clock env 0 2) < ch_expires_at r) in
                      (refuse_if (g_db env 0 6 \<or> sql_count P (changes d) \<noteq> 1) ErrSecurityConflict
                      (check (\<lambda>d. recheckSecurityPrincipalGuards (g_clock env 0 3) guards)
                      (refuse_if (ch_expires_at r \<le> time_unix (g_clock env 0 4)) ErrSecurityConflict (op_ret ()))))
                      (set_change P (\<lambda>r. r\<lparr>ch_state := ''applying'', ch_intent_ref := intentRef\<rparr>)
                         (d\<lparr>policy_state := (policy_state d)\<lparr>ps_state := ''applying'',
                            ps_pending := Some (c_ExpectedVersion c + 1), ps_pending_change := c_ID c\<rparr>\<rparr>))))))))
                   d))))) d))) d0)"

definition RecordSecurityCommit :: "gov_env \<Rightarrow> string \<Rightarrow> string \<Rightarrow> unit op" where
  "RecordSecurityCommit env i reference =
     refuse_if (reference = []) ErrSecurityConflict (stmt (g_db env 0 0) (\<lambda>d. (Inr (),
       set_change (\<lambda>r. ch_id r = i \<and> ch_state r = ''applying'') (\<lambda>r. r\<lparr>ch_commit_ref := reference\<rparr>) d)))"

section \<open>What an approved payload does\<close>

text \<open>The triggers on a granted or revoked security role and on a changed person: the account gets
  the next security revision and token generation, its proofs are spent and its votes void.\<close>

definition spend_stepups :: "int \<Rightarrow> string \<Rightarrow> db \<Rightarrow> db" where
  "spend_stepups now user d = d\<lparr>stepups := sql_update (\<lambda>p. su_user_id p = user)
     (\<lambda>p. p\<lparr>su_consumed_at := Some (case su_consumed_at p of Some c \<Rightarrow> c | None \<Rightarrow> now)\<rparr>) (stepups d)\<rparr>"

definition bump_principal :: "int \<Rightarrow> string \<Rightarrow> db \<Rightarrow> db" where
  "bump_principal wall user d =
     spend_stepups wall user (d\<lparr>
       users := sql_update (\<lambda>r. u_id r = user) (\<lambda>r. r\<lparr>u_security_revision := u_security_revision r + 1,
                  u_token_generation := u_token_generation r + 1\<rparr>) (users d),
       approvals := sql_update (\<lambda>a. ap_user_id a = user) (\<lambda>a. a\<lparr>ap_invalidated_at := Some wall\<rparr>) (approvals d)\<rparr>)"

definition has_role :: "db \<Rightarrow> string \<Rightarrow> string \<Rightarrow> bool" where
  "has_role d user role \<longleftrightarrow> (\<exists>r \<in> set (user_roles d). r_user_id r = user \<and> r_role r = role)"

text \<open>\<open>INSERT INTO user_roles\<close>; \<open>lenient\<close> is \<open>ON CONFLICT DO NOTHING\<close>. The table admits the six
  roles and existing accounts only.\<close>

definition insert_role :: "bool \<Rightarrow> int \<Rightarrow> string \<Rightarrow> string \<Rightarrow> string \<Rightarrow> unit op" where
  "insert_role lenient wall user role granting d =
     (if has_role d user role then (if lenient then Inr () else Inl DbError, d)
      else if \<not> IsAssignableRole role \<or> find_user d user = None then (Inl DbError, d)
      else let d' = d\<lparr>user_roles := user_roles d @ [\<lparr>r_user_id = user, r_role = role, r_granting = granting\<rparr>]\<rparr> in
           (Inr (), if IsSecurityRole role then bump_principal wall user d' else d'))"

definition delete_role :: "int \<Rightarrow> string \<Rightarrow> string \<Rightarrow> db \<Rightarrow> db" where
  "delete_role wall user role d =
     (let d' = d\<lparr>user_roles := sql_delete (\<lambda>r. r_user_id r = user \<and> r_role r = role) (user_roles d)\<rparr> in
      if has_role d user role \<and> IsSecurityRole role then bump_principal wall user d' else d')"

text \<open>The closures \<open>invalidate\<close> and \<open>link\<close> of \<open>applySecurityPayload\<close>.\<close>

definition bump_generation :: "int \<Rightarrow> string \<Rightarrow> db \<Rightarrow> db" where
  "bump_generation wall user = update_users wall (\<lambda>r. u_id r = user)
     (\<lambda>r. r\<lparr>u_token_generation := u_token_generation r + 1\<rparr>)"

definition stamp_tokens :: "int \<Rightarrow> string \<Rightarrow> db \<Rightarrow> db" where
  "stamp_tokens wall user d = d\<lparr>api_tokens := sql_update (\<lambda>t. tk_user_id t = user \<and> tk_revoked_at t = None)
     (\<lambda>t. t\<lparr>tk_revoked_at := Some wall\<rparr>) (api_tokens d)\<rparr>"

definition invalidate_user :: "gov_env \<Rightarrow> db_faults \<Rightarrow> string \<Rightarrow> unit op" where
  "invalidate_user env f user =
     stmt (f 0 \<or> f 1 \<or> f 2) (\<lambda>d. (Inr (),
       spend_stepups (g_wall env) user (stamp_tokens (g_wall env) user (bump_generation (g_wall env) user d))))"

definition insert_person :: "string \<Rightarrow> string \<Rightarrow> db \<Rightarrow> db" where
  "insert_person person verification d =
     (if person \<in> pe_id ` set (persons d) then d
      else d\<lparr>persons := persons d @ [\<lparr>pe_id = person, pe_verification = verification\<rparr>]\<rparr>)"

definition relink :: "int \<Rightarrow> string \<Rightarrow> string \<Rightarrow> string \<Rightarrow> db \<Rightarrow> db" where
  "relink wall request user person d =
     (let d' = d\<lparr>identity_links := sql_update (\<lambda>l. l_user_id l = user)
                 (\<lambda>l. l\<lparr>l_person_id := person, l_granting := request\<rparr>) (identity_links d)\<rparr> in
      if \<exists>l \<in> set (identity_links d). l_user_id l = user \<and> l_person_id l \<noteq> person
      then bump_principal wall user d' else d')"

definition link_user :: "gov_env \<Rightarrow> db_faults \<Rightarrow> string \<Rightarrow> string \<Rightarrow> string \<Rightarrow> string \<Rightarrow> unit op" where
  "link_user env f request user person verification =
     stmt (f 0) (\<lambda>d.
       (stmt (f 1) (\<lambda>d.
         (refuse_if (sql_count (\<lambda>l. l_user_id l = user) (identity_links d) \<noteq> 1) ErrSecurityConflict
           (invalidate_user env (\<lambda>k. f (k + 2)) user)) (relink (g_wall env) request user person d)))
       (insert_person person verification d))"

fun grant_roles :: "gov_env \<Rightarrow> db_faults \<Rightarrow> string \<Rightarrow> string \<Rightarrow> string list \<Rightarrow> unit op" where
  "grant_roles env f request user [] = op_ret ()"
| "grant_roles env f request user (r # rs) =
     stmt (f 0) (op_bind (insert_role False (g_wall env) user r request) (\<lambda>_.
       grant_roles env (\<lambda>k. f (Suc k)) request user rs))"

fun apply_nominations :: "gov_env \<Rightarrow> db_faults \<Rightarrow> string \<Rightarrow> SecurityNomination list \<Rightarrow> unit op" where
  "apply_nominations env f request [] = op_ret ()"
| "apply_nominations env f request (n # ns) =
     op_bind (link_user env f request (sn_UserID n) (sn_PersonID n) (sn_Verification n)) (\<lambda>_.
     op_bind (grant_roles env (\<lambda>k. f (k + 5)) request (sn_UserID n) (sn_Roles n)) (\<lambda>_.
       apply_nominations env (\<lambda>k. f (k + 5 + length (sn_Roles n))) request ns))"

text \<open>\<open>removeUserTOTPConn\<close> of \<open>mfa_removal.go\<close>: statement 0 clears the factor, 1 is its row count,
  2 to 6 revoke the credentials, 7 spends the proofs.\<close>

definition totp_removed :: "go_time \<Rightarrow> user_row \<Rightarrow> user_row" where
  "totp_removed now r = r\<lparr>u_totp_secret := None, u_totp_enabled := False,
     u_token_generation := u_token_generation r + 1, u_ssh_generation := u_ssh_generation r + 1,
     u_updated_at := format_sqlite now\<rparr>"

definition removeUserTOTPConn ::
    "db_faults \<Rightarrow> int \<Rightarrow> string \<Rightarrow> string option \<Rightarrow> go_time \<Rightarrow> unit op" where
  "removeUserTOTPConn f wall user actor now =
     stmt (f 0) (\<lambda>d.
       (stmt (f 1) (refuse_if (sql_count (\<lambda>r. u_id r = user) (users d) \<noteq> 1) ErrSecurityConflict
         (op_bind (revokeCredentialAuthorityConn (\<lambda>k. f (k + 2)) user actor now ''mfa_reset'') (\<lambda>_.
          stmt (f 7) (\<lambda>d. (Inr (), spend_stepups (time_unix now) user d))))))
       (update_users wall (\<lambda>r. u_id r = user) (totp_removed now) d))"

definition bcrypt_hash_ok :: "string \<Rightarrow> bool" where
  "bcrypt_hash_ok h \<longleftrightarrow> length h = 60 \<and> take 2 h = ''$2''"

definition history_limit :: "db \<Rightarrow> store_error + int" where
  "history_limit d =
     (case config d configAuthPasswordHistoryCount of
        None \<Rightarrow> Inr defaultPasswordHistoryLimit
      | Some v \<Rightarrow> (case atoi v of None \<Rightarrow> Inl DbError | Some n \<Rightarrow> Inr n))"

definition recovered_password :: "string \<Rightarrow> int \<Rightarrow> user_row \<Rightarrow> user_row" where
  "recovered_password hash wall r = r\<lparr>u_password_hash := hash, u_must_change := True,
     u_temp_expires := Some (wall + 24 * 3600), u_ssh_generation := u_ssh_generation r + 1\<rparr>"

definition generation_of :: "db \<Rightarrow> string \<Rightarrow> go_int option" where
  "generation_of d user = map_option u_token_generation (find_user d user)"

text \<open>The live MFA grant crosses exactly this reset; then the password grant is recorded.\<close>

definition carry_mfa :: "string \<Rightarrow> db \<Rightarrow> db" where
  "carry_mfa user d = d\<lparr>mfa_recoveries := sql_update
     (\<lambda>r. mr_user_id r = user \<and> generation_of d user = Some (mr_generation r))
     (\<lambda>r. r\<lparr>mr_generation := mr_generation r + 1\<rparr>) (mfa_recoveries d)\<rparr>"

definition put_password_recovery :: "string \<Rightarrow> string \<Rightarrow> string \<Rightarrow> db \<Rightarrow> db" where
  "put_password_recovery user request hash d = d\<lparr>password_recoveries :=
     sql_delete (\<lambda>r. pr_user_id r = user) (password_recoveries d) @
       [\<lparr>pr_user_id = user, pr_request_id = request, pr_password_hash = hash\<rparr>]\<rparr>"

definition put_mfa_recovery :: "string \<Rightarrow> string \<Rightarrow> db \<Rightarrow> db" where
  "put_mfa_recovery user request d =
     (case generation_of d user of
        None \<Rightarrow> d
      | Some g \<Rightarrow> d\<lparr>mfa_recoveries := sql_delete (\<lambda>r. mr_user_id r = user) (mfa_recoveries d) @
                   [\<lparr>mr_user_id = user, mr_request_id = request, mr_generation = g\<rparr>]\<rparr>)"

definition reenabled :: "int \<Rightarrow> user_row \<Rightarrow> user_row" where
  "reenabled wall r = r\<lparr>u_disabled_at := None, u_disabled_by := None, u_locked_until := None,
     u_failed_count := 0, u_reactivated_at := Some wall\<rparr>"

text \<open>The recovery case; statements of call 2: 0 the target, 1 the account, 2 the history limit, 3 the
  account update, 4 the carried grant, 5 to 7 the invalidation, 8 the recorded grant. Call 3 is
  the password history or the factor removal.\<close>

definition reset_password :: "gov_env \<Rightarrow> string \<Rightarrow> SecurityRecovery \<Rightarrow> unit op" where
  "reset_password env request r =
     (let f = g_db env 2; user = rv_UserID r; hash = rv_PreparedPasswordHash r in
      refuse_if (\<not> bcrypt_hash_ok hash) ErrSecurityConflict (stmt (f 1) (\<lambda>d.
        case find_user d user of
          None \<Rightarrow> (Inl NoRows, d)
        | Some u \<Rightarrow> stmt (f 2) (\<lambda>d.
           case history_limit d of
             Inl e \<Rightarrow> (Inl e, d)
           | Inr limit \<Rightarrow>
              op_bind (appendPasswordHistoryConn (g_db env 3) (g_fresh env) user (u_password_hash u)
                 (u_must_change u) limit (g_clock env 3 0)) (\<lambda>_.
              stmt (f 3 \<or> f 4) (\<lambda>d.
                op_bind (invalidate_user env (\<lambda>k. f (k + 5)) user) (\<lambda>_.
                stmt (f 8) (\<lambda>d. (Inr (), put_password_recovery user request hash d)))
                (carry_mfa user (update_users (g_wall env) (\<lambda>x. u_id x = user)
                   (recovered_password hash (g_wall env)) d)))) d) d)))"

definition apply_recovery :: "gov_env \<Rightarrow> SecurityChange \<Rightarrow> SecurityChangePayload \<Rightarrow> SecurityRecovery \<Rightarrow> unit op" where
  "apply_recovery env c p r =
     (let f = g_db env 2; user = rv_UserID r in
      if rv_Operation r = ''reenable'' then
        stmt (f 3) (\<lambda>d. invalidate_user env (\<lambda>k. f (k + 5)) user
          (update_users (g_wall env) (\<lambda>x. u_id x = user) (reenabled (g_wall env)) d))
      else if rv_Operation r = ''mfa-reset'' then
        op_bind (removeUserTOTPConn (g_db env 3) (g_wall env) user (Some (c_ApplierID c)) (g_clock env 3 0)) (\<lambda>_.
        stmt (f 8) (\<lambda>d. (Inr (), put_mfa_recovery user (c_ID c) d)))
      else if rv_Operation r = ''password-reset'' then
        check (validateSecurityRecoveryTarget (f 0) p) (reset_password env (c_ID c) r)
      else invalidate_user env (\<lambda>k. f (k + 5)) user)"

definition applySecurityPayload :: "gov_env \<Rightarrow> SecurityChange \<Rightarrow> SecurityChangePayload \<Rightarrow> unit op" where
  "applySecurityPayload env c p =
     (let f = g_db env 2 in
      if pl_Kind p = ''audit-settings'' \<or> pl_Kind p = ''ldap'' then
        (let configs = (case pl_AuditSettings p of Some a \<Rightarrow> AuditSettingsConfig a | None \<Rightarrow> pl_PreparedConfig p) in
         refuse_if (configs = []) ErrSecurityConflict (put_configs f 0 configs))
      else if pl_Kind p = ''bootstrap'' then apply_nominations env f (c_ID c) (pl_Nominations p)
      else if pl_Kind p = ''role'' then
        (case pl_Role p of
           None \<Rightarrow> (\<lambda>d. (Inl NilDereference, d))
         | Some r \<Rightarrow> stmt (f 0)
             (op_bind (if rc_Grant r then insert_role True (g_wall env) (rc_UserID r) (rc_Role r) (c_ID c)
                       else (\<lambda>d. (Inr (), delete_role (g_wall env) (rc_UserID r) (rc_Role r) d)))
                (\<lambda>_. invalidate_user env (\<lambda>k. f (k + 1)) (rc_UserID r))))
      else if pl_Kind p = ''person'' then
        (case pl_Person p of
           None \<Rightarrow> (\<lambda>d. (Inl NilDereference, d))
         | Some r \<Rightarrow> link_user env f (c_ID c) (pc_UserID r) (pc_PersonID r) (pc_Verification r))
      else if pl_Kind p = ''recovery'' then
        (case pl_Recovery p of None \<Rightarrow> (\<lambda>d. (Inl NilDereference, d)) | Some r \<Rightarrow> apply_recovery env c p r)
      else op_ret ())"

section \<open>Activation, completion and recovery\<close>

text \<open>Statements of \<open>activateSecurityChange\<close>: 0 the state, 1 and 2 the two versions, 3 the commit
  reference, 4 the new active version.\<close>

definition activateSecurityChange :: "gov_env \<Rightarrow> SecurityChange \<Rightarrow> SecurityChangePayload \<Rightarrow> unit op" where
  "activateSecurityChange env c p =
     withImmediateTx (g_tx env) (stmt (g_db env 0 0) (\<lambda>d.
       let s = policy_state d; v = c_ExpectedVersion c + 1 in
       (refuse_if (ps_state s \<noteq> ''applying'') NoRows
       (refuse_if (ps_pending_change s \<noteq> c_ID c \<or> ps_pending s \<noteq> Some v) ErrSecurityConflict
       (with_version env (g_db env 0 1) (ps_active s) (\<lambda>_.
        with_version env (g_db env 0 2) v (\<lambda>_.
        if ps_active s = v then op_ret ()
        else refuse_if (ps_active s \<noteq> c_ExpectedVersion c) ErrSecurityConflict
            (refuse_if (g_db env 0 3 \<or> \<not> (\<exists>r \<in> set (changes d).
                ch_id r = c_ID c \<and> ch_state r = ''applying'' \<and> ch_commit_ref r \<noteq> [])) ErrSecurityConflict
            (with_authority env c (\<lambda>guards.
             op_bind (applySecurityPayload env c p) (\<lambda>_.
             stmt (g_db env 0 4) (\<lambda>d.
               check (\<lambda>d. recheckSecurityPrincipalGuards (g_clock env 0 0) guards) (op_ret ())
                 (set_policy_state (\<lambda>s. ps_active s = c_ExpectedVersion c \<and> ps_pending_change s = c_ID c)
                    (\<lambda>s. s\<lparr>ps_active := v\<rparr>) d))))))))))) d))"

definition finishSecurityChange :: "gov_env \<Rightarrow> string \<Rightarrow> string \<Rightarrow> unit op" where
  "finishSecurityChange env i resultRef =
     refuse_if (resultRef = []) ErrSecurityConflict
       (withImmediateTx (g_tx env) (stmt (g_db env 0 0) (\<lambda>d.
         let s = policy_state d in
         (refuse_if (ps_pending_change s \<noteq> i \<or> ps_state s \<noteq> ''applying'') NoRows
         (refuse_if (ps_pending s = None) DbError
         (refuse_if (ps_pending s \<noteq> Some (ps_active s)) ErrSecurityConflict
         (with_version env (g_db env 0 1) (ps_active s) (\<lambda>policy.
          stmt (g_db env 0 2) (stmt (g_db env 0 3) (\<lambda>d. (Inr (),
            set_policy_state (\<lambda>s. ps_pending_change s = i)
              (\<lambda>s. s\<lparr>ps_state := if Profile (pv_Policy policy) = ''enhanced'' then ''enhanced'' else ''standard'',
                 ps_pending := None, ps_pending_change := []\<rparr>)
              (set_change (\<lambda>r. ch_id r = i \<and> ch_state r = ''applying'')
                 (\<lambda>r. r\<lparr>ch_state := ''applied'', ch_result_ref := resultRef\<rparr>) d))))))))) d)))"

definition requirePolicyRecovery :: "gov_env \<Rightarrow> unit op" where
  "requirePolicyRecovery env = stmt (g_db env 0 0) (\<lambda>d. (Inr (),
     set_policy_state (\<lambda>_. True) (\<lambda>s. s\<lparr>ps_state := ''recovery_required''\<rparr>) d))"

definition resumeSecurityApplying :: "gov_env \<Rightarrow> string \<Rightarrow> unit op" where
  "resumeSecurityApplying env i = stmt (g_db env 0 0) (\<lambda>d.
     let P = (\<lambda>s. ps_state s = ''recovery_required'' \<and> ps_pending_change s = i \<and> ps_pending s \<noteq> None \<and>
           (\<exists>r \<in> set (changes d). ch_id r = i \<and> ch_state r = ''applying'')) in
     (if P (policy_state d) then Inr () else Inl ErrSecurityConflict,
      set_policy_state P (\<lambda>s. s\<lparr>ps_state := ''applying''\<rparr>) d))"

section \<open>Secrets, evidence and directory settings\<close>

definition SaveSecuritySecret :: "gov_env \<Rightarrow> string \<Rightarrow> string \<Rightarrow> string \<Rightarrow> go_time \<Rightarrow> unit op" where
  "SaveSecuritySecret env ref encrypted user now = stmt (g_db env 0 0) (\<lambda>d.
     case sql_insert sc_ref \<lparr>sc_ref = ref, sc_encrypted = encrypted, sc_created_by = user,
            sc_created_at = time_unix now\<rparr> (secrets d) of
       None \<Rightarrow> (Inl DbError, d) | Some rows \<Rightarrow> (Inr (), d\<lparr>secrets := rows\<rparr>))"

definition SecuritySecret :: "bool \<Rightarrow> string \<Rightarrow> db \<Rightarrow> store_error + string" where
  "SecuritySecret fault ref d =
     (if fault then Inl DbError
      else case sql_first (\<lambda>r. sc_ref r = ref) (secrets d) of None \<Rightarrow> Inl NoRows | Some r \<Rightarrow> Inr (sc_encrypted r))"

definition evidence_of :: "db \<Rightarrow> string \<Rightarrow> string \<Rightarrow> evidence_row option" where
  "evidence_of d i kind = sql_first (\<lambda>e. ev_request_id e = i \<and> ev_event_type e = kind) (evidence d)"

text \<open>The first record of a kind is the one kept; later calls get it back.\<close>

definition SecurityEvidenceBytes :: "gov_env \<Rightarrow> string \<Rightarrow> string \<Rightarrow> string \<Rightarrow> (string \<times> string) op" where
  "SecurityEvidenceBytes env i kind raw = stmt (g_db env 0 0) (\<lambda>d.
     if evidence_of d i kind = None \<and> change_row_of d i = None then (Inl DbError, d)
     else let d' = (if evidence_of d i kind = None
                    then d\<lparr>evidence := evidence d @ [\<lparr>ev_request_id = i, ev_event_type = kind,
                           ev_record = raw, ev_reference = []\<rparr>]\<rparr> else d) in
          stmt (g_db env 0 1) (\<lambda>d. case evidence_of d i kind of
            None \<Rightarrow> (Inl NoRows, d) | Some e \<Rightarrow> (Inr (ev_record e, ev_reference e), d)) d')"

definition ConfirmSecurityEvidence :: "gov_env \<Rightarrow> string \<Rightarrow> string \<Rightarrow> string \<Rightarrow> unit op" where
  "ConfirmSecurityEvidence env i kind reference = stmt (g_db env 0 0) (\<lambda>d. (Inr (),
     d\<lparr>evidence := sql_update (\<lambda>e. ev_request_id e = i \<and> ev_event_type e = kind)
        (\<lambda>e. e\<lparr>ev_reference := reference\<rparr>) (evidence d)\<rparr>))"

definition protectedLDAPPrincipals :: "bool \<Rightarrow> db \<Rightarrow> store_error + bool" where
  "protectedLDAPPrincipals fault d =
     (if fault then Inl DbError
      else Inr (\<exists>u \<in> set (users d). u_auth_provider u = ''ldap'' \<and>
        ((\<exists>r \<in> set (user_roles d). IsSecurityRole (r_role r) \<and>
            (\<exists>l \<in> set (identity_links d). l_user_id l = r_user_id r \<and> person_of d (u_id u) = Some (l_person_id l))) \<or>
         (\<exists>n \<in> set (nominations d). n_user_id n = u_id u \<and>
            (\<exists>c \<in> set (changes d). ch_id c = n_request_id n \<and> ch_state c \<in> set open_change_states)))))"

fun put_ldap_configs :: "db_faults \<Rightarrow> nat \<Rightarrow> (string \<times> string) list \<Rightarrow> unit op" where
  "put_ldap_configs f i [] d = (Inr (), d)"
| "put_ldap_configs f i ((k, v) # kvs) d =
     (if take 5 k \<noteq> ''ldap.'' then (Inl ErrSecurityConflict, d)
      else if f i then (Inl DbError, d)
      else put_ldap_configs f (Suc i) kvs (d\<lparr>config := (config d)(k \<mapsto> v)\<rparr>))"

definition UpdateLegacyLDAPConfig :: "gov_env \<Rightarrow> (string \<times> string) list \<Rightarrow> unit op" where
  "UpdateLegacyLDAPConfig env kvs =
     withImmediateTx (g_tx env) (\<lambda>d.
       case protectedLDAPPrincipals (g_db env 0 0) d of
         Inl e \<Rightarrow> (Inl e, d)
       | Inr prot \<Rightarrow> refuse_if prot ErrProtectedChange (put_ldap_configs (g_db env 1) 0 kvs) d)"

end
