(* ===== verification/Governance.thy ===== *)
theory Governance
  imports Security_Store
begin

text \<open>
  The governance store as one system: every operation of \<open>Security_Store\<close> as a call, the account
  and session operations interleaved with them, and what holds of all of it: only an activation
  that two independent approvers of record still back moves the active policy or grants a security
  role, the versions and the one pending transition stay consistent, and a step-up proof is spent
  at most once.
\<close>

section \<open>What account operations leave alone\<close>

definition vote_key :: "approval_row \<Rightarrow> string \<times> go_int \<times> string \<times> string" where
  "vote_key a = (ap_request_id a, ap_revision a, ap_person_id a, ap_user_id a)"

definition vote_keys :: "db \<Rightarrow> (string \<times> go_int \<times> string \<times> string) list" where
  "vote_keys d = map vote_key (approvals d)"

definition sec_roles :: "db \<Rightarrow> (string \<times> string) set" where
  "sec_roles d = {(r_user_id r, r_role r) | r. r \<in> set (user_roles d) \<and> IsSecurityRole (r_role r)}"

text \<open>The step-up proofs only get spent.\<close>

definition proofs_only_spent :: "db \<Rightarrow> db \<Rightarrow> bool" where
  "proofs_only_spent d d' \<longleftrightarrow> map su_hash (stepups d') = map su_hash (stepups d) \<and>
     (\<forall>i < length (stepups d). su_consumed_at (stepups d ! i) \<noteq> None \<longrightarrow> su_consumed_at (stepups d' ! i) \<noteq> None)"

definition core_frame :: "db \<Rightarrow> db \<Rightarrow> bool" where
  "core_frame d d' \<longleftrightarrow> policy_state d' = policy_state d \<and> changes d' = changes d \<and>
     policy_versions d' = policy_versions d \<and> vote_keys d' = vote_keys d \<and> proofs_only_spent d d'"

definition gov_frame :: "db \<Rightarrow> db \<Rightarrow> bool" where
  "gov_frame d d' \<longleftrightarrow> core_frame d d' \<and> sec_roles d' \<subseteq> sec_roles d"

lemma proofs_refl [simp]: "proofs_only_spent d d"
  by (simp add: proofs_only_spent_def)

lemma proofs_trans: "proofs_only_spent d1 d2 \<Longrightarrow> proofs_only_spent d2 d3 \<Longrightarrow> proofs_only_spent d1 d3"
  unfolding proofs_only_spent_def by (metis length_map)

lemma proofs_update:
  "stepups d' = sql_update P f (stepups d) \<Longrightarrow> (\<And>s. su_hash (f s) = su_hash s) \<Longrightarrow>
   (\<And>s. su_consumed_at s \<noteq> None \<Longrightarrow> su_consumed_at (f s) \<noteq> None) \<Longrightarrow> proofs_only_spent d d'"
  by (auto simp: proofs_only_spent_def sql_update_def)

lemma proofs_same: "stepups d' = stepups d \<Longrightarrow> proofs_only_spent d d'"
  by (simp add: proofs_only_spent_def)

lemma core_frame_refl [simp]: "core_frame d d"
  by (simp add: core_frame_def)

lemma core_frame_trans: "core_frame d1 d2 \<Longrightarrow> core_frame d2 d3 \<Longrightarrow> core_frame d1 d3"
  unfolding core_frame_def by (metis proofs_trans)

lemma gov_frame_refl [simp]: "gov_frame d d"
  by (simp add: gov_frame_def)

lemma gov_frame_trans: "gov_frame d1 d2 \<Longrightarrow> gov_frame d2 d3 \<Longrightarrow> gov_frame d1 d3"
  unfolding gov_frame_def by (metis core_frame_trans subset_trans)

lemma gov_core: "gov_frame d d' \<Longrightarrow> core_frame d d'"
  by (simp add: gov_frame_def)

lemma gov_frame_same:
  "policy_state d' = policy_state d \<Longrightarrow> changes d' = changes d \<Longrightarrow> policy_versions d' = policy_versions d \<Longrightarrow>
   approvals d' = approvals d \<Longrightarrow> user_roles d' = user_roles d \<Longrightarrow> stepups d' = stepups d \<Longrightarrow> gov_frame d d'"
  by (simp add: gov_frame_def core_frame_def vote_keys_def sec_roles_def proofs_same)

lemma vote_keys_update:
  "(\<And>a. vote_key (f a) = vote_key a) \<Longrightarrow> map vote_key (sql_update P f as) = map vote_key as"
  by (simp add: sql_update_def)

lemma vote_keys_update_users [simp]: "vote_keys (update_users w P f d) = vote_keys d"
  by (simp add: vote_keys_def update_users_def Let_def vote_keys_update vote_key_def)

lemma sec_roles_update:
  assumes "\<And>r. P r \<Longrightarrow> u_role (f r) = u_role r \<or> IsValidRole (u_role (f r))"
  shows "sec_roles (update_users w P f d) \<subseteq> sec_roles d"
proof -
  have no: "\<not> (IsValidRole x \<and> IsSecurityRole x)" for x
    by (auto simp: IsValidRole_def IsSecurityRole_def role_names)
  show ?thesis using assms no
    by (fastforce simp: sec_roles_def update_users_def Let_def legacy_role_trigger_def)
qed

lemma gov_frame_update:
  assumes "\<And>r. P r \<Longrightarrow> u_role (f r) = u_role r \<or> IsValidRole (u_role (f r))"
  shows "gov_frame d (update_users w P f d)"
proof -
  have "proofs_only_spent d (update_users w P f d)"
    by (rule proofs_update [where P = "\<lambda>p. su_user_id p \<in> u_id ` set (filter (\<lambda>r. P r \<and> credentials_changed r (f r)) (users d))"
          and f = "\<lambda>p. p\<lparr>su_consumed_at := Some (case su_consumed_at p of Some c \<Rightarrow> c | None \<Rightarrow> w)\<rparr>"])
      (simp_all add: update_users_def Let_def)
  with sec_roles_update [of P f w d] assms show ?thesis by (simp add: gov_frame_def core_frame_def)
qed

lemma gov_frame_audit: "logAuditConn sha u a f e d = (r, d') \<Longrightarrow> gov_frame d d'"
  by (rule gov_frame_same) (auto simp: logAuditConn_def Let_def stmt_def split: if_splits option.splits)

lemma gov_frame_simps [simp]:
  "gov_frame d (revoke_tokens st user d') \<longleftrightarrow> gov_frame d d'"
  "gov_frame (revoke_tokens st user d) d' \<longleftrightarrow> gov_frame d d'"
  by (auto simp: gov_frame_def core_frame_def revoke_tokens_def vote_keys_def sec_roles_def proofs_only_spent_def)

lemma gov_frame_helpers:
  "appendPasswordHistoryConn f i user h t n now d = (r, d') \<Longrightarrow> gov_frame d d'"
  "revokeCredentialAuthorityConn f user act now re d = (r1, d') \<Longrightarrow> gov_frame d d'"
  "audit env e d = (r2, d') \<Longrightarrow> gov_frame d d'"
  by (rule gov_frame_same; auto simp: appendPasswordHistoryConn_def revokeCredentialAuthorityConn_def revoke_tokens_def
      stmt_def Let_def split: if_splits option.splits)+ (simp add: audit_def gov_frame_audit)

lemma gov_frame_end_ids: "end_ids f k st re b ids d = (r, d') \<Longrightarrow> gov_frame d d'"
proof (induction ids arbitrary: k d)
  case (Cons i ids)
  have "gov_frame d (d\<lparr>sessions := x\<rparr>)" for x by (rule gov_frame_same) simp_all
  with Cons show ?case by (auto split: if_splits intro: gov_frame_trans)
qed simp

lemma gov_frame_delete: "gov_frame d (delete_user_rows w user (delete_dependents user d))"
proof -
  let ?d = "delete_user_rows w user (delete_dependents user d)"
  have "proofs_only_spent d ?d"
    by (rule proofs_update [where P = "\<lambda>p. (\<exists>r \<in> set (user_roles d). r_user_id r = user \<and> IsSecurityRole (r_role r)) \<and> su_user_id p = user"
          and f = "\<lambda>p. p\<lparr>su_consumed_at := Some (case su_consumed_at p of Some c \<Rightarrow> c | None \<Rightarrow> w)\<rparr>"])
      (simp_all add: delete_user_rows_def delete_dependents_def Let_def)
  then show ?thesis
    by (auto simp: gov_frame_def core_frame_def delete_user_rows_def delete_dependents_def Let_def vote_keys_def
        vote_keys_update vote_key_def sec_roles_def sql_delete_def)
qed

lemma gov_frame_tx:
  assumes "withImmediateTx txf fn d = (r, d')" "\<And>v d'. fn d = (Inr v, d') \<Longrightarrow> gov_frame d d'"
  shows "gov_frame d d'"
  using assms by (cases r) (auto dest: tx_error_unchanged tx_success)

lemma gov_frame_write:
  assumes "accountManagementWrite env a fn d = (r, d')" "\<And>v d'. fn d = (Inr v, d') \<Longrightarrow> gov_frame d d'"
  shows "gov_frame d d'"
  using assms by (cases r) (auto dest: accountManagementWrite_err accountManagementWrite_ok(2))

text \<open>An update that keeps every role, followed by a step that frames.\<close>

lemma gov_frame_update_then:
  assumes "gov_frame (update_users w P f d) d'" "\<And>r. P r \<Longrightarrow> u_role (f r) = u_role r \<or> IsValidRole (u_role (f r))"
  shows "gov_frame d d'"
  using gov_frame_trans [OF gov_frame_update assms(1)] assms(2) by blast

lemmas gov_frame_then = gov_frame_update_then [OF gov_frame_helpers(3)]

lemma account_frame_tx:
  "RecordLoginFailure txf f w user now p d = (r, d') \<Longrightarrow> gov_frame d d'"
  "EnableUser jt txf f w user now d = (r1, d') \<Longrightarrow> gov_frame d d'"
  "UnlockUser txf f w user now d = (r2, d') \<Longrightarrow> gov_frame d d'"
  "DisableUser txf f w user by_id now d = (r3, d') \<Longrightarrow> gov_frame d d'"
  unfolding RecordLoginFailure_def EnableUser_def UnlockUser_def DisableUser_def
  by (erule gov_frame_tx; auto simp: op_ok Let_def split: option.splits prod.splits intro!: gov_frame_update)+

lemma account_frame_plain:
  "RecordLoginSuccess f w user now d = (r, d') \<Longrightarrow> gov_frame d d'"
  "SetDormancyExempt f w user b d = (r1, d') \<Longrightarrow> gov_frame d d'"
  "TouchUserActivity f w user now d = (r2, d') \<Longrightarrow> gov_frame d d'"
  "IncrementTokenGeneration f w user d = (r3, d') \<Longrightarrow> gov_frame d d'"
  by (auto simp: RecordLoginSuccess_def SetDormancyExempt_def TouchUserActivity_def
      IncrementTokenGeneration_def Let_def intro!: gov_frame_update split: if_splits option.splits)

lemma account_frame_tokens:
  "RevokeAllAPITokensByUserID f w user d = (r, d') \<Longrightarrow> gov_frame d d'"
  "RevokeAPIToken f w i d = (r1, d') \<Longrightarrow> gov_frame d d'"
  by (rule gov_frame_same; auto simp: RevokeAllAPITokensByUserID_def RevokeAPIToken_def revoke_tokens_def stmt_def Let_def
      split: if_splits)+

lemma account_frame_role:
  assumes "UpdateUserRoleAudited env user role e1 e2 a d = (r, d')" shows "gov_frame d d'"
proof (rule gov_frame_write [OF assms [unfolded UpdateUserRoleAudited_def]])
  fix v d2 assume "role_audited_body env user role e1 e2 d = (Inr v, d2)"
  then have "IsValidRole role"
    and fr: "gov_frame (update_users (e_wall env) (\<lambda>r. u_id r = user) (role_row_update (e_wall env) role) d) d2"
    by (auto simp: role_audited_body_def op_ok Let_def split: option.splits if_splits
        dest!: gov_frame_helpers(3) gov_frame_audit intro: gov_frame_trans)
  from fr show "gov_frame d d2"
    by (rule gov_frame_update_then) (use \<open>IsValidRole role\<close> in \<open>simp add: role_row_update_def\<close>)
qed

lemma account_frame_disable_audited:
  assumes "DisableUserAudited env user by_id e1 a d = (r, d')" shows "gov_frame d d'"
proof (rule gov_frame_write [OF assms [unfolded DisableUserAudited_def]])
  have upd: "gov_frame d (update_users (e_wall env) P (disable_row st by_id) d)" for P st
    by (rule gov_frame_update) simp
  fix v d2 assume "disable_audited_body env user by_id e1 d = (Inr v, d2)"
  then show "gov_frame d d2"
    by (auto simp: disable_audited_body_def op_ok Let_def split: option.splits if_splits
        dest!: disable_enabled_ok gov_frame_helpers(3) gov_frame_end_ids gov_frame_trans [OF upd])
      (meson gov_frame_trans upd)+
qed

lemma account_frame_audited:
  "EnableUserAudited env user e1 a d = (r, d') \<Longrightarrow> gov_frame d d'"
  "UnlockUserAudited env user e1 a d = (r1, d') \<Longrightarrow> gov_frame d d'"
  "SetDormancyExemptAudited env user b e1 a d = (r2, d') \<Longrightarrow> gov_frame d d'"
  unfolding EnableUserAudited_def UnlockUserAudited_def SetDormancyExemptAudited_def
  by (erule gov_frame_write; auto simp: op_ok Let_def split: option.splits if_splits dest!: gov_frame_then)+

lemma account_frame_delete:
  assumes "DeleteUserAudited env user e1 a d = (r, d')" shows "gov_frame d d'"
  by (rule gov_frame_write [OF assms [unfolded DeleteUserAudited_def]])
    (auto simp: op_ok dest!: gov_frame_helpers(3) intro: gov_frame_trans [OF gov_frame_delete])

lemma account_frame_reactivate:
  assumes "ReactivateUser env kf user e1 as d = (r, d')" shows "gov_frame d d'"
  by (rule gov_frame_tx [OF assms [unfolded ReactivateUser_def]])
    (auto simp: op_ok Let_def split: option.splits sum.splits if_splits dest!: gov_frame_then dest: gov_frame_helpers(3))

lemma account_frame_reset:
  assumes "ResetLocalPassword env hid user g h ex n e1 as d = (r, d')" shows "gov_frame d d'"
proof -
  have upd: "gov_frame d (update_users w P (password_row hash m x st) d)" for w P hash m x st d
    by (rule gov_frame_update) simp
  show ?thesis
    by (rule gov_frame_tx [OF assms [unfolded ResetLocalPassword_def]])
      (auto simp: op_ok split: option.splits dest!: gov_frame_helpers
        intro: gov_frame_trans gov_frame_trans [OF _ gov_frame_trans [OF upd]])
qed

lemma account_frame_end_user:
  assumes "EndUserSessions t f u ex re b now d = (r, d')" shows "gov_frame d d'"
  by (rule gov_frame_tx [OF assms [unfolded EndUserSessions_def]])
    (auto simp: Let_def split: prod.splits sum.splits if_splits dest: gov_frame_end_ids)

lemma account_frame_session: "session_step c d = (r, d') \<Longrightarrow> gov_frame d d'"
proof (cases c)
  case (CallEndUser t f u ex re b now)
  assume "session_step c d = (r, d')"
  with CallEndUser show ?thesis
    using account_frame_end_user [OF surjective_pairing] by (auto simp: reply_with_def)
qed (auto simp: reply_with_def CreateSession_def TouchSession_def EndSession_def MarkExpired_def
    endOne_def PruneEndedSessions_def RotateSessionRefresh_def Let_def split: option.splits if_splits prod.splits sum.splits
    intro!: gov_frame_same)

lemma account_step_frame: "account_step d d' \<Longrightarrow> gov_frame d d'"
  by (erule account_stepE) (blast intro: account_frame_tx account_frame_plain account_frame_tokens account_frame_role
    account_frame_disable_audited account_frame_audited account_frame_delete account_frame_reactivate
    account_frame_reset account_frame_session)+

section \<open>What an approved payload leaves alone\<close>

lemma core_frame_spend: "core_frame d (spend_stepups now user d)"
proof -
  have "proofs_only_spent d (spend_stepups now user d)"
    by (rule proofs_update [where P = "\<lambda>p. su_user_id p = user"
          and f = "\<lambda>p. p\<lparr>su_consumed_at := Some (case su_consumed_at p of Some c \<Rightarrow> c | None \<Rightarrow> now)\<rparr>"])
      (simp_all add: spend_stepups_def)
  then show ?thesis by (simp add: core_frame_def spend_stepups_def vote_keys_def)
qed

lemma core_frame_same:
  "policy_state d' = policy_state d \<Longrightarrow> changes d' = changes d \<Longrightarrow> policy_versions d' = policy_versions d \<Longrightarrow>
   vote_keys d' = vote_keys d \<Longrightarrow> stepups d' = stepups d \<Longrightarrow> core_frame d d'"
  by (simp add: core_frame_def proofs_same)

lemma core_frame_bump: "core_frame d (bump_principal w user d)"
  unfolding bump_principal_def
  by (rule core_frame_trans [OF core_frame_same core_frame_spend])
    (simp_all add: vote_keys_def vote_keys_update vote_key_def)

lemma core_frame_bump_after:
  "core_frame d d' \<Longrightarrow> core_frame d (bump_principal w user d')"
  using core_frame_trans core_frame_bump by blast

lemma core_frame_role: "insert_role l w user role g d = (r, d') \<Longrightarrow> core_frame d d'"
  by (auto simp: insert_role_def Let_def vote_keys_def split: if_splits intro!: core_frame_bump_after core_frame_same)

lemma core_frame_delete_role: "core_frame d (delete_role w user role d)"
  by (auto simp: delete_role_def Let_def vote_keys_def intro!: core_frame_bump_after core_frame_same)

lemma core_frame_relink: "core_frame d (relink w request user person d)"
  by (auto simp: relink_def Let_def vote_keys_def intro!: core_frame_bump_after core_frame_same)

lemma core_frame_person: "core_frame d (insert_person person v d)"
  by (auto simp: insert_person_def vote_keys_def intro!: core_frame_same)

lemma core_frame_invalidate:
  assumes "invalidate_user env f user d = (Inr v, d')" shows "core_frame d d'"
proof -
  have "core_frame d (bump_generation w user d)" for w
    unfolding bump_generation_def by (rule gov_core [OF gov_frame_update]) simp
  moreover have "core_frame x (stamp_tokens w user x)" for w x
    by (rule core_frame_same) (simp_all add: stamp_tokens_def vote_keys_def)
  ultimately have "core_frame d (spend_stepups w user (stamp_tokens w user (bump_generation w user d)))" for w
    using core_frame_trans core_frame_spend by blast
  with assms show ?thesis by (auto simp: invalidate_user_def op_ok)
qed

lemma core_frame_link:
  assumes "link_user env f request user person v d = (Inr u, d')" shows "core_frame d d'"
  using assms core_frame_trans [OF core_frame_person core_frame_trans [OF core_frame_relink core_frame_invalidate]]
  by (auto simp: link_user_def op_ok)

lemma core_frame_roles: "grant_roles env f request user rs d = (Inr v, d') \<Longrightarrow> core_frame d d'"
  by (induction rs arbitrary: f d) (auto simp: op_ret_def op_ok dest: core_frame_role intro: core_frame_trans)

lemma core_frame_nominations: "apply_nominations env f request ns d = (Inr v, d') \<Longrightarrow> core_frame d d'"
proof (induction ns arbitrary: f d)
  case (Cons n ns)
  then show ?case by (fastforce simp: op_ok dest!: core_frame_link core_frame_roles intro: core_frame_trans)
qed (simp add: op_ret_def)

lemma core_frame_configs: "put_configs f i kvs d = (r, d') \<Longrightarrow> gov_frame d d'"
proof (induction f i kvs d rule: put_configs.induct)
  case (2 f i k v kvs d)
  have "gov_frame d (d\<lparr>config := c\<rparr>)" for c by (rule gov_frame_same) simp_all
  with 2 show ?case by (auto split: if_splits intro: gov_frame_trans)
qed simp

lemma core_frame_remove_totp:
  assumes "removeUserTOTPConn f w user act now d = (Inr v, d')" shows "core_frame d d'"
proof -
  have upd: "core_frame d (update_users w P (totp_removed now) d)" for P
    by (rule gov_core [OF gov_frame_update]) (simp add: totp_removed_def)
  from assms obtain d1 where "core_frame (update_users w (\<lambda>r. u_id r = user) (totp_removed now) d) d1"
      "d' = spend_stepups (time_unix now) user d1"
    by (auto simp: removeUserTOTPConn_def op_ok dest!: gov_frame_helpers gov_core)
  with upd core_frame_spend core_frame_trans show ?thesis by metis
qed

lemma core_frame_update_keep: "(\<And>r. u_role (f r) = u_role r) \<Longrightarrow> core_frame d (update_users w P f d)"
  by (rule gov_core [OF gov_frame_update]) simp

lemma core_frame_reset:
  assumes "reset_password env request r d = (Inr v, d')" shows "core_frame d d'"
proof -
  have carry: "core_frame x (carry_mfa user x)" for user x
    by (rule core_frame_same) (simp_all add: carry_mfa_def vote_keys_def)
  have put: "core_frame x (put_password_recovery user q h x)" for user q h x
    by (rule core_frame_same) (simp_all add: put_password_recovery_def vote_keys_def)
  have upd: "core_frame x (update_users w P (recovered_password h w) x)" for x w P h
    by (rule core_frame_update_keep) (simp add: recovered_password_def)
  from assms obtain d1 d2 P where
    "core_frame d d1"
    "core_frame (carry_mfa (rv_UserID r) (update_users (g_wall env) P
        (recovered_password (rv_PreparedPasswordHash r) (g_wall env)) d1)) d2"
    "d' = put_password_recovery (rv_UserID r) request (rv_PreparedPasswordHash r) d2"
    by (auto simp: reset_password_def op_ok Let_def split: option.splits sum.splits
        dest!: gov_frame_helpers(1) gov_core core_frame_invalidate)
  with carry put upd core_frame_trans show ?thesis by metis
qed

lemma core_frame_recovery:
  assumes "apply_recovery env c p r d = (Inr v, d')" shows "core_frame d d'"
proof -
  have put: "core_frame x (put_mfa_recovery user q x)" for user q x
    by (rule core_frame_same) (auto simp: put_mfa_recovery_def vote_keys_def split: option.splits)
  have upd: "core_frame d (update_users w P (reenabled w) d)" for w P
    by (rule core_frame_update_keep) (simp add: reenabled_def)
  show ?thesis using assms core_frame_trans [OF upd core_frame_invalidate] core_frame_trans [OF core_frame_remove_totp put]
    by (auto simp: apply_recovery_def Let_def op_ok split: if_splits intro: core_frame_invalidate core_frame_reset)
qed

lemma core_frame_payload:
  assumes "applySecurityPayload env c p d = (Inr v, d')" shows "core_frame d d'"
  using assms core_frame_trans [OF core_frame_role core_frame_invalidate]
    core_frame_trans [OF core_frame_delete_role core_frame_invalidate]
  by (auto simp: applySecurityPayload_def Let_def op_ok op_ret_def split: if_splits option.splits
      intro: core_frame_nominations core_frame_link core_frame_recovery gov_core core_frame_configs)

section \<open>What a successful call has done\<close>

lemma with_ok:
  "with_policy env j k d = (Inr v, d') \<longleftrightarrow>
     (\<exists>p. accountManagementPolicyStrict (g_cfg env j) d = Inr p \<and> k p d = (Inr v, d'))"
  "with_version env fault ver kv d = (Inr v, d') \<longleftrightarrow>
     (\<exists>p. readPolicyVersion env fault d ver = Inr p \<and> kv p d = (Inr v, d'))"
  "with_principal env j c user person gen act kp d = (Inr v, d') \<longleftrightarrow>
     (\<exists>g. checkSecurityPrincipal env j c user person gen act d = Inr g \<and> kp g d = (Inr v, d'))"
  "op_ret w d = (Inr v, d') \<longleftrightarrow> w = v \<and> d = d'"
  by (auto simp: with_policy_def with_version_def with_principal_def op_ret_def split: sum.splits)

lemmas gov_ok = op_ok with_ok

lemma with_authority_ok:
  "with_authority env c k d = (Inr v, d') \<longleftrightarrow>
     (\<exists>ag gs. checkSecurityPrincipal env 1 c (c_ApplierID c) (c_ApplierPersonID c) (c_ApplierRevision c) ActionApply d = Inr ag \<and>
        validateSecurityQuorumConn env c d = Inr gs \<and>
        recheckSecurityPrincipalGuards (g_clock env 1 1) (ag # gs) = None \<and> k (ag # gs) d = (Inr v, d'))"
  by (cases "validateSecurityQuorumConn env c d") (auto simp: with_authority_def gov_ok)

text \<open>A proof that was spent was unspent before, is spent after, and nothing else moved.\<close>

definition spends :: "string \<Rightarrow> db \<Rightarrow> db \<Rightarrow> bool" where
  "spends h d d' \<longleftrightarrow> (\<exists>s \<in> set (stepups d). su_hash s = h \<and> su_consumed_at s = None) \<and>
     (\<exists>s \<in> set (stepups d'). su_hash s = h \<and> su_consumed_at s \<noteq> None) \<and> proofs_only_spent d d'"

lemma consume_ok:
  assumes "consumeStepupWithClock env j pol proof user session act digest d = (Inr u, d')"
  shows "spends (SecurityDigest env proof) d d'" and "\<exists>rows. d' = d\<lparr>stepups := rows\<rparr>"
proof -
  let ?now = "time_unix (g_clock env j 1)"
  let ?P = "stepup_usable env proof user session act digest ?now d"
  from assms have d': "d' = d\<lparr>stepups := sql_update ?P (\<lambda>s. s\<lparr>su_consumed_at := Some ?now\<rparr>) (stepups d)\<rparr>"
    and cnt: "sql_count ?P (stepups d) = 1"
    by (auto simp: consumeStepupWithClock_def Let_def split: if_splits)
  from cnt have "filter ?P (stepups d) \<noteq> []" by (auto simp: sql_count_def)
  then obtain s where s: "s \<in> set (stepups d)" "?P s" by (auto simp: filter_empty_conv)
  have "proofs_only_spent d d'"
    by (rule proofs_update [where P = ?P and f = "\<lambda>s. s\<lparr>su_consumed_at := Some ?now\<rparr>"]) (simp_all add: d')
  moreover have "s\<lparr>su_consumed_at := Some ?now\<rparr> \<in> set (stepups d')"
    using s by (force simp: d' sql_update_def)
  moreover have "su_hash s = SecurityDigest env proof" "su_consumed_at s = None"
    using s(2) by (simp_all add: stepup_usable_def)
  ultimately show "spends (SecurityDigest env proof) d d'"
    using s(1) unfolding spends_def by (metis option.distinct(1) stepup_row.select_convs(1,8) stepup_row.surjective stepup_row.update_convs(8))
  from d' show "\<exists>rows. d' = d\<lparr>stepups := rows\<rparr>" by blast
qed

lemma insert_nominations_frame:
  "insert_nominations f req i ns d = (r, d') \<Longrightarrow> \<exists>rows. d' = d\<lparr>nominations := rows\<rparr>"
proof (induction f req i ns d rule: insert_nominations.induct)
  case (1 f req i d)
  then show ?case by (intro exI [of _ "nominations d"]) simp
next
  case (2 f req i n ns d)
  have self: "\<exists>rows. d = d\<lparr>nominations := rows\<rparr>" by (intro exI [of _ "nominations d"]) simp
  from 2 self show ?case
    by (auto split: if_splits option.splits)
qed


lemma create_ok:
  assumes "CreateSecurityChange env c noms session proof d = (Inr u, d')"
  shows "changes d' = changes d @ [new_change_row c]" "c_ID c \<notin> ch_id ` set (changes d)"
    "policy_versions d' = policy_versions d" "approvals d' = approvals d" "user_roles d' = user_roles d"
    "policy_state d' = policy_state d \<or>
       ps_state (policy_state d) = ''standard'' \<and> policy_state d' = (policy_state d)\<lparr>ps_state := ''setup_pending''\<rparr>"
    "spends (SecurityDigest env proof) d d'"
proof -
  from tx_success [OF assms [unfolded CreateSecurityChange_def]] obtain pol d1 d2 d3 where
    con: "consumeStepupWithClock env 2 pol proof (c_RequesterID c) session ActionRequest (c_Digest c) d = (Inr (), d1)"
    and ins: "insert_change c d1 = (Inr (), d2)"
    and noms: "insert_nominations (g_db env 3) (c_ID c) 0 noms d2 = (Inr (), d3)"
    and d': "d' = (if noms \<noteq> [] then setup_pending d3 else d3)"
    by (auto simp: gov_ok split: option.splits)
  obtain rows where d1: "d1 = d\<lparr>stepups := rows\<rparr>" using consume_ok(2) [OF con] by blast
  obtain nr where d3: "d3 = d2\<lparr>nominations := nr\<rparr>" using insert_nominations_frame [OF noms] by blast
  from ins have d2: "d2 = d1\<lparr>changes := changes d1 @ [new_change_row c]\<rparr>" "c_ID c \<notin> ch_id ` set (changes d1)"
    by (auto simp: insert_change_def sql_insert_def new_change_row_def split: if_splits option.splits)
  show "changes d' = changes d @ [new_change_row c]" "c_ID c \<notin> ch_id ` set (changes d)"
    "policy_versions d' = policy_versions d" "approvals d' = approvals d" "user_roles d' = user_roles d"
    "policy_state d' = policy_state d \<or>
       ps_state (policy_state d) = ''standard'' \<and> policy_state d' = (policy_state d)\<lparr>ps_state := ''setup_pending''\<rparr>"
    using d2 by (auto simp: d' d3 d1 setup_pending_def)
  have "stepups d' = stepups d1" by (simp add: d' d3 d2 setup_pending_def)
  with consume_ok(1) [OF con] show "spends (SecurityDigest env proof) d d'"
    by (simp add: spends_def proofs_only_spent_def)
qed

text \<open>An update of the changes that leaves identities and expected versions.\<close>

definition changes_keep :: "db \<Rightarrow> db \<Rightarrow> bool" where
  "changes_keep d d' \<longleftrightarrow> map ch_id (changes d') = map ch_id (changes d) \<and>
     map ch_expected_version (changes d') = map ch_expected_version (changes d)"

lemma approve_ok:
  assumes "AddSecurityApproval env c a session proof d = (Inr u, d')"
  obtains r st P row where
    "r \<in> set (changes d)" "ch_id r = c_ID c" "ch_state r \<in> {''requested'', ''partially_approved''}"
    "st \<in> {''approved'', ''partially_approved''}" "\<And>x. P x \<Longrightarrow> ch_id x = c_ID c"
    "changes d' = sql_update P (\<lambda>r. r\<lparr>ch_state := st\<rparr>) (changes d)"
    "approvals d' = approvals d @ [row]"
    "\<not> (\<exists>b \<in> set (approvals d). ap_request_id b = ap_request_id row \<and> ap_revision b = ap_revision row \<and>
           (ap_person_id b = ap_person_id row \<or> ap_user_id b = ap_user_id row))"
    "policy_state d' = policy_state d" "policy_versions d' = policy_versions d" "user_roles d' = user_roles d"
    "spends (SecurityDigest env proof) d d'"
proof -
  let ?row = "\<lparr>ap_request_id = c_ID c, ap_revision = c_Revision c, ap_digest = c_Digest c,
                 ap_user_id = va_UserID a, ap_person_id = va_PersonID a,
                 ap_proof_sha256 = SecurityDigest env proof, ap_generation = va_TokenGeneration a,
                 ap_approved_at = time_unix (g_clock env 0 1), ap_invalidated_at = None\<rparr>"
  let ?P = "\<lambda>r. ch_id r = c_ID c \<and> time_unix (g_clock env 0 2) < ch_expires_at r"
  from tx_success [OF assms [unfolded AddSecurityApproval_def]] obtain pol d1 d2 r where
    con: "consumeStepupWithClock env 2 pol proof (va_UserID a) session ActionApprove (c_Digest c) d = (Inr (), d1)"
    and r: "sql_first (\<lambda>r. ch_id r = c_ID c \<and> ch_revision r = c_Revision c) (changes d1) = Some r"
      "ch_state r \<in> {''requested'', ''partially_approved''}"
    and ins: "insert_approval ?row d1 = (Inr (), d2)"
    and d': "d' = set_change ?P (\<lambda>r. r\<lparr>ch_state := if 2 \<le> live_votes (c_ID c) (c_Revision c) d2
                    then ''approved'' else ''partially_approved''\<rparr>) d2"
    by (auto simp: gov_ok Let_def split: option.splits)
  obtain rows where d1: "d1 = d\<lparr>stepups := rows\<rparr>" using consume_ok(2) [OF con] by blast
  from ins have d2: "d2 = d1\<lparr>approvals := approvals d1 @ [?row]\<rparr>"
    and fresh: "\<not> (\<exists>b \<in> set (approvals d1). ap_request_id b = ap_request_id ?row \<and> ap_revision b = ap_revision ?row \<and>
           (ap_person_id b = ap_person_id ?row \<or> ap_user_id b = ap_user_id ?row))"
    by (auto simp: insert_approval_def split: if_splits)
  have sp: "spends (SecurityDigest env proof) d d'"
    using consume_ok(1) [OF con] by (simp add: spends_def proofs_only_spent_def d' d2 set_change_def)
  from r(1) have "r \<in> set (changes d)" "ch_id r = c_ID c" by (auto simp: d1 dest: sql_first_Some)
  then show thesis
    by (rule that [OF _ _ r(2), where P = ?P and row = ?row and
          st = "if 2 \<le> live_votes (c_ID c) (c_Revision c) d2 then ''approved'' else ''partially_approved''"])
      (use fresh sp in \<open>auto simp: d' d2 d1 set_change_def\<close>)
qed


lemma claim_ok:
  assumes "ClaimSecurityApplier env c user person rv session proof d = (Inr u, d')"
  obtains P where
    "changes d' = sql_update P (\<lambda>r. r\<lparr>ch_applier_id := user, ch_applier_person := person, ch_applier_revision := rv\<rparr>) (changes d)"
    "policy_state d' = policy_state d" "policy_versions d' = policy_versions d" "approvals d' = approvals d"
    "user_roles d' = user_roles d" "spends (SecurityDigest env proof) d d'"
proof -
  let ?P = "\<lambda>r. ch_id r = c_ID c \<and> time_unix (g_clock env 0 0) < ch_expires_at r \<and>
      ch_state r = ''approved'' \<and> (ch_applier_id r = [] \<or> ch_applier_id r = user \<and>
      ch_applier_person r = person \<and> ch_applier_revision r = rv)"
  from tx_success [OF assms [unfolded ClaimSecurityApplier_def]] obtain pol d1 where
    con: "consumeStepupWithClock env 2 pol proof user session ActionApply (c_Digest c) d = (Inr (), d1)"
    and d': "d' = set_change ?P (\<lambda>r. r\<lparr>ch_applier_id := user, ch_applier_person := person, ch_applier_revision := rv\<rparr>) d1"
    by (auto simp: gov_ok Let_def split: option.splits)
  obtain rows where d1: "d1 = d\<lparr>stepups := rows\<rparr>" using consume_ok(2) [OF con] by blast
  have "spends (SecurityDigest env proof) d d'"
    using consume_ok(1) [OF con] by (simp add: spends_def proofs_only_spent_def d' set_change_def)
  then show thesis by (rule that [where P = ?P, rotated -1]) (simp_all add: d' d1 set_change_def)
qed

lemma begin_ok:
  assumes "beginSecurityApply env c pol intent d = (Inr u, d')"
  obtains raw P where
    "g_marshal env pol = Some raw"
    "ps_active (policy_state d) = c_ExpectedVersion c" "ps_pending_change (policy_state d) = []"
    "ps_state (policy_state d) \<in> {''standard'', ''enhanced'', ''setup_pending''}"
    "c_ExpectedVersion c + 1 \<notin> pv_version ` set (policy_versions d)"
    "\<exists>r \<in> set (changes d). P r" "\<And>x. P x \<Longrightarrow> ch_id x = c_ID c \<and> ch_state x = ''approved''"
    "d' = d\<lparr>policy_versions := policy_versions d @ [\<lparr>pv_version = c_ExpectedVersion c + 1, pv_payload = raw,
              pv_digest = SecurityDigest env raw, pv_request_id = c_ID c\<rparr>],
            policy_state := (policy_state d)\<lparr>ps_state := ''applying'',
              ps_pending := Some (c_ExpectedVersion c + 1), ps_pending_change := c_ID c\<rparr>,
            changes := sql_update P (\<lambda>r. r\<lparr>ch_state := ''applying'', ch_intent_ref := intent\<rparr>) (changes d)\<rparr>"
proof -
  from assms obtain raw where raw: "g_marshal env pol = Some raw"
    by (auto simp: beginSecurityApply_def split: option.splits)
  let ?P = "\<lambda>r. ch_id r = c_ID c \<and> ch_state r = ''approved'' \<and> time_unix (g_clock env 0 2) < ch_expires_at r"
  let ?row = "\<lparr>pv_version = c_ExpectedVersion c + 1, pv_payload = raw, pv_digest = SecurityDigest env raw, pv_request_id = c_ID c\<rparr>"
  from assms raw obtain d1 where
    st: "ps_active (policy_state d) = c_ExpectedVersion c" "ps_pending_change (policy_state d) = []"
      "ps_state (policy_state d) \<in> {''standard'', ''enhanced'', ''setup_pending''}"
    and ins: "insert_version ?row d = (Inr (), d1)"
    and cnt: "sql_count ?P (changes d1) = 1"
    and d': "d' = set_change ?P (\<lambda>r. r\<lparr>ch_state := ''applying'', ch_intent_ref := intent\<rparr>)
         (d1\<lparr>policy_state := (policy_state d1)\<lparr>ps_state := ''applying'',
            ps_pending := Some (c_ExpectedVersion c + 1), ps_pending_change := c_ID c\<rparr>\<rparr>)"
    by (auto simp: beginSecurityApply_def gov_ok with_authority_ok Let_def split: option.splits dest!: tx_success)
  from ins have d1: "d1 = d\<lparr>policy_versions := policy_versions d @ [?row]\<rparr>"
    "c_ExpectedVersion c + 1 \<notin> pv_version ` set (policy_versions d)"
    by (auto simp: insert_version_def sql_insert_def split: if_splits option.splits)
  from cnt have "filter ?P (changes d) \<noteq> []" by (auto simp: sql_count_def d1)
  then have "\<exists>r \<in> set (changes d). ?P r" by (auto simp: filter_empty_conv)
  then show thesis
    by (rule that [where P = ?P, OF raw st d1(2)]) (simp_all add: d' d1 set_change_def)
qed


section \<open>Two people\<close>

text \<open>What the code demands of a principal, without the order of its checks: the account as it was
  when it acted, with its second factor, and either the nominated person of a bootstrap or the
  linked person holding the role.\<close>

definition authorised :: "gov_env \<Rightarrow> SecurityChange \<Rightarrow> string \<Rightarrow> string \<Rightarrow> go_int \<Rightarrow> string \<Rightarrow> db \<Rightarrow> bool" where
  "authorised env c user person generation action d \<longleftrightarrow>
     (\<exists>u p. find_user d user = Some u \<and> u_security_revision u = generation \<and> u_totp_enabled u \<and>
        u_disabled_at u = None \<and> \<not> u_must_change u \<and> g_change env (c_ApprovedBytes c) = Some p \<and>
        (if pl_Kind p = ''bootstrap''
         then nominated p user person (role_for action) \<and> (action \<noteq> ActionApprove \<longrightarrow> has_role d user RoleAdmin)
         else person_of d user = Some person \<and> has_role d user (role_for action)))"

definition live_vote :: "SecurityChange \<Rightarrow> approval_row \<Rightarrow> bool" where
  "live_vote c a \<longleftrightarrow> ap_request_id a = c_ID c \<and> ap_revision a = c_Revision c \<and> ap_digest a = c_Digest c \<and>
     ap_invalidated_at a = None"

definition independent_votes :: "gov_env \<Rightarrow> SecurityChange \<Rightarrow> db \<Rightarrow> approval_row \<Rightarrow> approval_row \<Rightarrow> bool" where
  "independent_votes env c d a b \<longleftrightarrow>
     a \<in> set (approvals d) \<and> b \<in> set (approvals d) \<and> live_vote c a \<and> live_vote c b \<and>
     ap_person_id a \<noteq> ap_person_id b \<and> ap_user_id a \<noteq> ap_user_id b \<and>
     c_RequesterPersonID c \<notin> {ap_person_id a, ap_person_id b} \<and>
     c_RequesterID c \<notin> {ap_user_id a, ap_user_id b} \<and>
     authorised env c (ap_user_id a) (ap_person_id a) (ap_generation a) ActionApprove d \<and>
     authorised env c (ap_user_id b) (ap_person_id b) (ap_generation b) ActionApprove d"

definition two_person :: "gov_env \<Rightarrow> SecurityChange \<Rightarrow> db \<Rightarrow> bool" where
  "two_person env c d \<longleftrightarrow>
     authorised env c (c_RequesterID c) (c_RequesterPersonID c) (c_RequesterGeneration c) ActionRequest d \<and>
     authorised env c (c_ApplierID c) (c_ApplierPersonID c) (c_ApplierRevision c) ActionApply d \<and>
     (\<exists>a b. independent_votes env c d a b)"

lemma role_count_has: "role_count d user role = 1 \<Longrightarrow> has_role d user role"
proof -
  assume "role_count d user role = 1"
  then have "filter (\<lambda>r. r_user_id r = user \<and> r_role r = role) (user_roles d) \<noteq> []"
    by (auto simp: role_count_def sql_count_def)
  then show ?thesis by (auto simp: has_role_def filter_empty_conv)
qed

lemma principal_authorised:
  assumes "checkSecurityPrincipal env j c user person gen act d = Inr g"
  shows "authorised env c user person gen act d"
proof -
  from assms obtain u where u: "find_user d user = Some u"
    by (cases "find_user d user") (simp_all add: checkSecurityPrincipal_def split: if_splits)
  with assms have ok: "u_security_revision u = gen" "u_totp_enabled u" "u_disabled_at u = None" "\<not> u_must_change u"
    by (simp_all add: checkSecurityPrincipal_def split: if_split_asm)
  with assms u obtain p where p: "g_change env (c_ApprovedBytes c) = Some p"
    by (cases "g_change env (c_ApprovedBytes c)") (simp_all add: checkSecurityPrincipal_def split: if_split_asm)
  show ?thesis
  proof (cases "pl_Kind p = ''bootstrap''")
    case True
    with assms u ok p have "nominated p user person (role_for act)" "act \<noteq> ActionApprove \<Longrightarrow> role_count d user RoleAdmin = 1"
      by (simp_all add: checkSecurityPrincipal_def split: if_split_asm)
    with True u ok p role_count_has show ?thesis by (auto simp: authorised_def)
  next
    case False
    with assms u ok p have "person_of d user = Some person" "role_count d user (role_for act) = 1"
      by (simp_all add: checkSecurityPrincipal_def split: if_split_asm)
    with False u ok p role_count_has show ?thesis by (auto simp: authorised_def)
  qed
qed

lemma check_people_votes:
  "check_people env j c seen ps d = Inr gs \<Longrightarrow>
   distinct (map ap_person_id ps) \<and> set (map ap_person_id ps) \<inter> set seen = {} \<and>
   (\<forall>p \<in> set ps. ap_user_id p \<noteq> c_RequesterID c \<and>
      authorised env c (ap_user_id p) (ap_person_id p) (ap_generation p) ActionApprove d)"
proof (induction ps arbitrary: j seen gs)
  case (Cons p ps)
  from Cons.prems obtain g gs' where
    "ap_person_id p \<notin> set seen" "ap_user_id p \<noteq> c_RequesterID c"
    and g: "checkSecurityPrincipal env j c (ap_user_id p) (ap_person_id p) (ap_generation p) ActionApprove d = Inr g"
    and rest: "check_people env (Suc j) c (ap_person_id p # seen) ps d = Inr gs'"
    by (auto split: if_splits sum.splits)
  with Cons.IH [OF rest] principal_authorised [OF g] show ?case by auto
qed simp

definition votes_inv :: "db \<Rightarrow> bool" where
  "votes_inv d \<longleftrightarrow> distinct (map (\<lambda>(q, r, p, u). (q, r, u)) (vote_keys d)) \<and>
     distinct (map (\<lambda>(q, r, p, u). (q, r, p)) (vote_keys d))"

lemma votes_inv_user:
  assumes "votes_inv d" "a \<in> set (approvals d)" "b \<in> set (approvals d)" "live_vote c a" "live_vote c b"
    and "ap_user_id a = ap_user_id b"
  shows "a = b"
proof -
  have "inj_on (\<lambda>a. (ap_request_id a, ap_revision a, ap_user_id a)) (set (approvals d))"
    using assms(1) by (auto simp: votes_inv_def vote_keys_def vote_key_def distinct_map comp_def)
  with assms(2-6) show ?thesis by (auto simp: inj_on_def live_vote_def)
qed

lemma quorum_votes:
  assumes "validateSecurityQuorumConn env c d = Inr gs" "votes_inv d"
  shows "\<exists>a b. independent_votes env c d a b"
proof -
  from assms(1) obtain gs' where len: "2 \<le> length (votes_of c d)"
    and chk: "check_people env 7 c [c_RequesterPersonID c] (votes_of c d) d = Inr gs'"
    by (auto simp: validateSecurityQuorumConn_def Let_def split: sum.splits if_splits)
  then obtain a b rest where ab: "votes_of c d = a # b # rest"
    by (cases "votes_of c d"; cases "tl (votes_of c d)") auto
  have mem: "x \<in> set (votes_of c d) \<Longrightarrow> x \<in> set (approvals d) \<and> live_vote c x" for x
    by (simp add: votes_of_def live_vote_def)
  note props = check_people_votes [OF chk, unfolded ab]
  from props have "a \<noteq> b" by auto
  with votes_inv_user [OF assms(2)] mem ab have "ap_user_id a \<noteq> ap_user_id b" by (metis list.set_intros)
  with props mem ab show ?thesis unfolding independent_votes_def
    by (intro exI [of _ a] exI [of _ b]) auto
qed

lemma quorum_requester:
  "validateSecurityQuorumConn env c d = Inr gs \<Longrightarrow>
   authorised env c (c_RequesterID c) (c_RequesterPersonID c) (c_RequesterGeneration c) ActionRequest d"
  unfolding validateSecurityQuorumConn_def by (auto simp: Let_def split: sum.splits intro: principal_authorised)

text \<open>An activation either finds its work done or has the quorum, in the state it reads.\<close>

lemma activate_shape:
  assumes "activateSecurityChange env c p d = (Inr u, d')" "d' \<noteq> d"
  obtains ag gs d1 where
    "checkSecurityPrincipal env 1 c (c_ApplierID c) (c_ApplierPersonID c) (c_ApplierRevision c) ActionApply d = Inr ag"
    "validateSecurityQuorumConn env c d = Inr gs" "ps_state (policy_state d) = ''applying''"
    "ps_pending_change (policy_state d) = c_ID c"
    "ps_pending (policy_state d) = Some (Suc (ps_active (policy_state d)))"
    "applySecurityPayload env c p d = (Inr (), d1)"
    "d' = d1\<lparr>policy_state := (policy_state d)\<lparr>ps_active := Suc (ps_active (policy_state d))\<rparr>\<rparr>"
proof (cases "ps_active (policy_state d) = c_ExpectedVersion c + 1")
  case True
  with assms show ?thesis by (auto simp: activateSecurityChange_def gov_ok Let_def dest!: tx_success)
next
  case False
  with tx_success [OF assms(1) [unfolded activateSecurityChange_def]] obtain ag gs d1 where
    pa: "checkSecurityPrincipal env 1 c (c_ApplierID c) (c_ApplierPersonID c) (c_ApplierRevision c) ActionApply d = Inr ag"
    and q: "validateSecurityQuorumConn env c d = Inr gs"
    and st: "ps_state (policy_state d) = ''applying''" "ps_pending_change (policy_state d) = c_ID c"
      "ps_pending (policy_state d) = Some (Suc (ps_active (policy_state d)))"
      "ps_active (policy_state d) = c_ExpectedVersion c"
    and ap: "applySecurityPayload env c p d = (Inr (), d1)"
    and d': "d' = set_policy_state (\<lambda>s. ps_active s = c_ExpectedVersion c \<and> ps_pending_change s = c_ID c)
                    (\<lambda>s. s\<lparr>ps_active := c_ExpectedVersion c + 1\<rparr>) d1"
    by (auto simp: gov_ok with_authority_ok Let_def split: if_splits)
  have "policy_state d1 = policy_state d" using core_frame_payload [OF ap] by (simp add: core_frame_def)
  with st have "d' = d1\<lparr>policy_state := (policy_state d)\<lparr>ps_active := Suc (ps_active (policy_state d))\<rparr>\<rparr>"
    by (simp add: d' set_policy_state_def)
  with pa q st(1-3) ap show ?thesis by (rule that)
qed

lemma activate_frame:
  assumes "activateSecurityChange env c p d = (Inr u, d')"
  shows "changes d' = changes d \<and> policy_versions d' = policy_versions d \<and> vote_keys d' = vote_keys d \<and> proofs_only_spent d d'"
proof (cases "d' = d")
  case False
  with assms obtain d1 where "applySecurityPayload env c p d = (Inr (), d1)"
    "d' = d1\<lparr>policy_state := (policy_state d)\<lparr>ps_active := Suc (ps_active (policy_state d))\<rparr>\<rparr>"
    by (rule activate_shape)
  with core_frame_payload [of env c p d "()" d1] show ?thesis
    by (simp add: core_frame_def vote_keys_def proofs_only_spent_def)
qed simp

lemma activate_two_person:
  assumes "activateSecurityChange env c p d = (Inr u, d')" "d' \<noteq> d" "votes_inv d"
  shows "two_person env c d" "ps_pending_change (policy_state d) = c_ID c"
    "ps_pending (policy_state d) = Some (Suc (ps_active (policy_state d)))"
    "policy_state d' = (policy_state d)\<lparr>ps_active := Suc (ps_active (policy_state d))\<rparr>"
    "\<exists>d1. applySecurityPayload env c p d = (Inr (), d1) \<and> user_roles d' = user_roles d1"
proof -
  from assms(1,2) obtain ag gs d1 where *:
    "checkSecurityPrincipal env 1 c (c_ApplierID c) (c_ApplierPersonID c) (c_ApplierRevision c) ActionApply d = Inr ag"
    "validateSecurityQuorumConn env c d = Inr gs" "ps_pending_change (policy_state d) = c_ID c"
    "ps_pending (policy_state d) = Some (Suc (ps_active (policy_state d)))"
    "applySecurityPayload env c p d = (Inr (), d1)"
    "d' = d1\<lparr>policy_state := (policy_state d)\<lparr>ps_active := Suc (ps_active (policy_state d))\<rparr>\<rparr>"
    by (rule activate_shape)
  show "two_person env c d" unfolding two_person_def
    using principal_authorised [OF *(1)] quorum_requester [OF *(2)] quorum_votes [OF *(2) assms(3)] by blast
  show "ps_pending_change (policy_state d) = c_ID c"
    "ps_pending (policy_state d) = Some (Suc (ps_active (policy_state d)))"
    "policy_state d' = (policy_state d)\<lparr>ps_active := Suc (ps_active (policy_state d))\<rparr>" using * by simp_all
  show "\<exists>d1. applySecurityPayload env c p d = (Inr (), d1) \<and> user_roles d' = user_roles d1"
    using *(5,6) by (intro exI [of _ d1]) simp
qed

section \<open>The system\<close>

datatype gov_call =
    GIssue gov_env bool string string string string go_time
  | GConsume gov_env string string string string string
  | GCreate gov_env SecurityChange "SecurityNomination list" string string
  | GApprove gov_env SecurityChange SecurityApproval string string
  | GInvalidate gov_env string
  | GExpire gov_env
  | GClaim gov_env SecurityChange string string go_int string string
  | GBegin gov_env SecurityChange AuditPolicy string
  | GCommit gov_env string string
  | GActivate gov_env SecurityChange SecurityChangePayload
  | GFinish gov_env string string
  | GRecover gov_env
  | GResume gov_env string
  | GSettings gov_env AuditSettings
  | GLdap gov_env "(string \<times> string) list"
  | GSecret gov_env string string string go_time
  | GEvidence gov_env string string string
  | GConfirm gov_env string string string

definition unit_op :: "(store_error + 'a) \<times> db \<Rightarrow> (store_error + unit) \<times> db" where
  "unit_op x = (map_sum id (\<lambda>_. ()) (fst x), snd x)"

fun gov_run :: "gov_call \<Rightarrow> unit op" where
  "gov_run (GIssue env rf user session act dig now) d = unit_op (IssueStepup env rf user session act dig now d)"
| "gov_run (GConsume env proof user session act dig) d = ConsumeStepup env proof user session act dig d"
| "gov_run (GCreate env c noms session proof) d = CreateSecurityChange env c noms session proof d"
| "gov_run (GApprove env c a session proof) d = AddSecurityApproval env c a session proof d"
| "gov_run (GInvalidate env user) d = InvalidateSecurityVotes env user d"
| "gov_run (GExpire env) d = ExpireSecurityChanges env d"
| "gov_run (GClaim env c user person rv session proof) d = ClaimSecurityApplier env c user person rv session proof d"
| "gov_run (GBegin env c pol intent) d = beginSecurityApply env c pol intent d"
| "gov_run (GCommit env i ref) d = RecordSecurityCommit env i ref d"
| "gov_run (GActivate env c p) d = activateSecurityChange env c p d"
| "gov_run (GFinish env i ref) d = finishSecurityChange env i ref d"
| "gov_run (GRecover env) d = requirePolicyRecovery env d"
| "gov_run (GResume env i) d = resumeSecurityApplying env i d"
| "gov_run (GSettings env a) d = UpdateAuditSettings env a d"
| "gov_run (GLdap env kvs) d = UpdateLegacyLDAPConfig env kvs d"
| "gov_run (GSecret env ref enc user now) d = SaveSecuritySecret env ref enc user now d"
| "gov_run (GEvidence env i kind raw) d = unit_op (SecurityEvidenceBytes env i kind raw d)"
| "gov_run (GConfirm env i kind ref) d = ConfirmSecurityEvidence env i kind ref d"

text \<open>What the callers keep: a new change has a fresh identifier, and a transition is begun and
  activated with the change as it was read, whose columns below are never updated.\<close>

definition read_as :: "SecurityChange \<Rightarrow> change_row \<Rightarrow> bool" where
  "read_as c r \<longleftrightarrow> ch_id r = c_ID c \<and> ch_revision r = c_Revision c \<and> ch_requester_id r = c_RequesterID c \<and>
     ch_requester_person r = c_RequesterPersonID c \<and> ch_requester_generation r = c_RequesterGeneration c \<and>
     ch_expected_version r = c_ExpectedVersion c \<and> ch_digest r = c_Digest c \<and> ch_payload r = c_ApprovedBytes c"

fun gov_admits :: "gov_call \<Rightarrow> db \<Rightarrow> bool" where
  "gov_admits (GCreate env c noms session proof) d = (c_ID c \<noteq> [])"
| "gov_admits (GBegin env c pol intent) d = (\<forall>r \<in> set (changes d). ch_id r = c_ID c \<longrightarrow> read_as c r)"
| "gov_admits (GActivate env c p) d = (\<forall>r \<in> set (changes d). ch_id r = c_ID c \<longrightarrow> read_as c r)"
| "gov_admits _ d = True"

inductive gov_step :: "gov_call option \<Rightarrow> db \<Rightarrow> db \<Rightarrow> bool" where
  step_gov: "gov_admits x d \<Longrightarrow> gov_run x d = (r, d') \<Longrightarrow> gov_step (Some x) d d'"
| step_account: "account_step d d' \<Longrightarrow> gov_step None d d'"

inductive_cases gov_stepE: "gov_step l d d'"

text \<open>A hub starts with accounts and sessions, the initial policy and no governance records.\<close>

definition gov_initial :: "db \<Rightarrow> bool" where
  "gov_initial d \<longleftrightarrow> changes d = [] \<and> approvals d = [] \<and> stepups d = [] \<and>
     policy_versions d = policy_versions empty_db \<and> policy_state d = policy_state empty_db \<and> sec_roles d = {}"

inductive gov_reachable :: "db \<Rightarrow> bool" where
  reach_init: "gov_initial d \<Longrightarrow> gov_reachable d"
| reach_step: "gov_reachable d \<Longrightarrow> gov_step l d d' \<Longrightarrow> gov_reachable d'"

section \<open>Invariant\<close>

definition top_version :: "policy_state_row \<Rightarrow> nat" where
  "top_version s = (case ps_pending s of None \<Rightarrow> ps_active s | Some v \<Rightarrow> v)"

definition versions_inv :: "db \<Rightarrow> bool" where
  "versions_inv d \<longleftrightarrow> distinct (map pv_version (policy_versions d)) \<and>
     pv_version ` set (policy_versions d) = {1..top_version (policy_state d)} \<and> 1 \<le> ps_active (policy_state d)"

definition changes_inv :: "db \<Rightarrow> bool" where
  "changes_inv d \<longleftrightarrow> distinct (map ch_id (changes d)) \<and> [] \<notin> ch_id ` set (changes d)"

text \<open>At most one transition is in progress, and it is the pending one of the policy state.\<close>

definition stage_ok :: "policy_state_row \<Rightarrow> change_row list \<Rightarrow> bool" where
  "stage_ok s cs \<longleftrightarrow>
     (case ps_pending s of
        None \<Rightarrow> ps_pending_change s = [] \<and> ps_state s \<noteq> ''applying'' \<and> (\<forall>r \<in> set cs. ch_state r \<noteq> ''applying'')
      | Some v \<Rightarrow> ps_state s \<in> {''applying'', ''recovery_required''} \<and>
                (ps_active s = v \<or> Suc (ps_active s) = v) \<and>
                (\<exists>r \<in> set cs. ch_id r = ps_pending_change s \<and> ch_state r = ''applying'' \<and>
                   Suc (ch_expected_version r) = v) \<and>
                (\<forall>r \<in> set cs. ch_state r = ''applying'' \<longrightarrow> ch_id r = ps_pending_change s))"

definition stage_inv :: "db \<Rightarrow> bool" where
  "stage_inv d \<longleftrightarrow> stage_ok (policy_state d) (changes d)"

definition proofs_inv :: "db \<Rightarrow> bool" where
  "proofs_inv d \<longleftrightarrow> distinct (map su_hash (stepups d))"

definition gov_inv :: "db \<Rightarrow> bool" where
  "gov_inv d \<longleftrightarrow> versions_inv d \<and> changes_inv d \<and> stage_inv d \<and> votes_inv d \<and> proofs_inv d"

lemma gov_inv_initial: "gov_initial d \<Longrightarrow> gov_inv d"
  by (auto simp: gov_initial_def gov_inv_def versions_inv_def changes_inv_def stage_inv_def stage_ok_def
      votes_inv_def proofs_inv_def top_version_def vote_keys_def empty_db_def)

lemma gov_inv_frame:
  assumes "core_frame d d'" "gov_inv d" shows "gov_inv d'"
proof -
  from assms(1) have e: "policy_state d' = policy_state d" "changes d' = changes d"
    "policy_versions d' = policy_versions d" "vote_keys d' = vote_keys d" "map su_hash (stepups d') = map su_hash (stepups d)"
    by (simp_all add: core_frame_def proofs_only_spent_def)
  from assms(2) show ?thesis
    unfolding gov_inv_def versions_inv_def changes_inv_def stage_inv_def votes_inv_def proofs_inv_def
    by (simp add: e)
qed

text \<open>The parts follow from the columns they read.\<close>

lemma gov_invI:
  assumes "gov_inv d" "policy_state d' = policy_state d" "policy_versions d' = policy_versions d"
    and "changes_inv d'" "stage_inv d'" "votes_inv d'" "proofs_inv d'"
  shows "gov_inv d'"
  using assms by (simp add: gov_inv_def versions_inv_def)

lemma proofs_inv_spent: "proofs_only_spent d d' \<Longrightarrow> proofs_inv d \<Longrightarrow> proofs_inv d'"
  by (simp add: proofs_inv_def proofs_only_spent_def)

lemma changes_inv_update:
  assumes "changes_inv d" "changes d' = sql_update P f (changes d)" "\<And>r. ch_id (f r) = ch_id r"
  shows "changes_inv d'"
proof -
  have "map ch_id (changes d') = map ch_id (changes d)" using assms(2,3) by (simp add: sql_update_def)
  with assms(1) show ?thesis unfolding changes_inv_def by (metis list.set_map)
qed

text \<open>An update of changes that neither starts, ends nor re-targets a transition.\<close>

lemma quiet_changes:
  assumes "changes d' = sql_update P f (changes d)" "policy_state d' = policy_state d"
    and "\<And>r. ch_id (f r) = ch_id r" "\<And>r. ch_expected_version (f r) = ch_expected_version r"
    and "\<And>r. r \<in> set (changes d) \<Longrightarrow> P r \<Longrightarrow> (ch_state (f r) = ''applying'') = (ch_state r = ''applying'')"
  shows "changes_inv d \<Longrightarrow> changes_inv d'" "stage_inv d \<Longrightarrow> stage_inv d'"
proof -
  show "changes_inv d \<Longrightarrow> changes_inv d'" by (rule changes_inv_update [OF _ assms(1,3)])
  have fwd: "r \<in> set (changes d) \<Longrightarrow> ch_state r = ''applying'' \<Longrightarrow> \<exists>r' \<in> set (changes d'). ch_id r' = ch_id r \<and>
      ch_state r' = ''applying'' \<and> ch_expected_version r' = ch_expected_version r" for r
    by (rule bexI [of _ "if P r then f r else r"]) (use assms(3-5) in \<open>auto simp: assms(1) sql_update_def\<close>)
  have bwd: "r' \<in> set (changes d') \<Longrightarrow> ch_state r' = ''applying'' \<Longrightarrow>
      \<exists>r \<in> set (changes d). ch_id r = ch_id r' \<and> ch_state r = ''applying''" for r'
    using assms(3-5) by (auto simp: assms(1) sql_update_def split: if_splits)
  show "stage_inv d \<Longrightarrow> stage_inv d'"
    using fwd bwd unfolding stage_inv_def stage_ok_def assms(2)
    by (cases "ps_pending (policy_state d)") (simp, metis, simp, metis)
qed


lemma inv_parts:
  "gov_inv d \<Longrightarrow> versions_inv d" "gov_inv d \<Longrightarrow> changes_inv d" "gov_inv d \<Longrightarrow> stage_inv d"
  "gov_inv d \<Longrightarrow> votes_inv d" "gov_inv d \<Longrightarrow> proofs_inv d"
  by (simp_all add: gov_inv_def)

lemma spends_proofs: "spends h d d' \<Longrightarrow> proofs_inv d \<Longrightarrow> proofs_inv d'"
  using proofs_inv_spent by (auto simp: spends_def)

lemma votes_inv_same: "approvals d' = approvals d \<Longrightarrow> votes_inv d' = votes_inv d"
  by (simp add: votes_inv_def vote_keys_def)

lemma same_change:
  assumes "changes_inv d" "r \<in> set (changes d)" "r' \<in> set (changes d)" "ch_id r = ch_id r'" shows "r = r'"
  using assms by (auto simp: changes_inv_def distinct_map inj_on_def)

lemma create_inv:
  assumes "CreateSecurityChange env c noms session proof d = (Inr u, d')" "gov_inv d" "c_ID c \<noteq> []"
  shows "gov_inv d'"
proof -
  note ok = create_ok [OF assms(1)]
  have top: "top_version (policy_state d') = top_version (policy_state d)"
    "ps_active (policy_state d') = ps_active (policy_state d)"
    using ok(6) by (auto simp: top_version_def split: option.split)
  have "versions_inv d'" using inv_parts(1) [OF assms(2)] by (simp add: versions_inv_def ok(3) top)
  moreover have "changes_inv d'"
    using inv_parts(2) [OF assms(2)] ok(2) assms(3) by (auto simp: changes_inv_def ok(1) new_change_row_def)
  moreover have "stage_inv d'"
    using inv_parts(3) [OF assms(2)] ok(6)
    by (cases "ps_pending (policy_state d)") (auto simp: stage_inv_def stage_ok_def ok(1) new_change_row_def, blast+)
  ultimately show ?thesis
    using inv_parts(4,5) [OF assms(2)] votes_inv_same [OF ok(4)] spends_proofs [OF ok(7)] by (simp add: gov_inv_def)
qed

lemma approve_inv:
  assumes "AddSecurityApproval env c a session proof d = (Inr u, d')" "gov_inv d"
  shows "gov_inv d'"
proof -
  from assms(1) obtain r st P row where ok:
    "r \<in> set (changes d)" "ch_id r = c_ID c" "ch_state r \<in> {''requested'', ''partially_approved''}"
    "st \<in> {''approved'', ''partially_approved''}" "\<And>x. P x \<Longrightarrow> ch_id x = c_ID c"
    "changes d' = sql_update P (\<lambda>r. r\<lparr>ch_state := st\<rparr>) (changes d)"
    "approvals d' = approvals d @ [row]"
    "\<not> (\<exists>b \<in> set (approvals d). ap_request_id b = ap_request_id row \<and> ap_revision b = ap_revision row \<and>
           (ap_person_id b = ap_person_id row \<or> ap_user_id b = ap_user_id row))"
    "policy_state d' = policy_state d" "policy_versions d' = policy_versions d"
    "spends (SecurityDigest env proof) d d'"
    by (rule approve_ok) blast
  have quiet: "(ch_state (x\<lparr>ch_state := st\<rparr>) = ''applying'') = (ch_state x = ''applying'')"
    if "x \<in> set (changes d)" "P x" for x
  proof -
    from that ok(1,2,5) have "x = r" by (intro same_change [OF inv_parts(2) [OF assms(2)]]) auto
    with ok(3,4) show ?thesis by auto
  qed
  have "changes_inv d'" "stage_inv d'"
    using quiet_changes [where f = "\<lambda>r. r\<lparr>ch_state := st\<rparr>", OF ok(6,9) _ _ quiet] inv_parts(2,3) [OF assms(2)] by auto
  moreover have "votes_inv d'"
    using inv_parts(4) [OF assms(2)] ok(8) by (auto simp: votes_inv_def vote_keys_def vote_key_def ok(7))
  ultimately show ?thesis
    using gov_invI [OF assms(2) ok(9,10)] spends_proofs [OF ok(11) inv_parts(5) [OF assms(2)]] by blast
qed

lemma claim_inv:
  assumes "ClaimSecurityApplier env c user person rv session proof d = (Inr u, d')" "gov_inv d"
  shows "gov_inv d'"
proof -
  from assms(1) obtain P where ok:
    "changes d' = sql_update P (\<lambda>r. r\<lparr>ch_applier_id := user, ch_applier_person := person, ch_applier_revision := rv\<rparr>) (changes d)"
    "policy_state d' = policy_state d" "policy_versions d' = policy_versions d" "approvals d' = approvals d"
    "spends (SecurityDigest env proof) d d'"
    by (rule claim_ok) blast
  have "changes_inv d'" "stage_inv d'"
    using quiet_changes [OF ok(1,2)] inv_parts(2,3) [OF assms(2)] by auto
  then show ?thesis
    using gov_invI [OF assms(2) ok(2,3)] votes_inv_same [OF ok(4)] inv_parts(4) [OF assms(2)]
      spends_proofs [OF ok(5) inv_parts(5) [OF assms(2)]] by blast
qed

lemma gov_begin_inv:
  assumes "beginSecurityApply env c pol intent d = (Inr u, d')" "gov_inv d"
    and adm: "\<forall>r \<in> set (changes d). ch_id r = c_ID c \<longrightarrow> ch_expected_version r = c_ExpectedVersion c"
  shows "gov_inv d'"
proof -
  from assms(1) obtain raw P where ok:
    "ps_active (policy_state d) = c_ExpectedVersion c" "ps_pending_change (policy_state d) = []"
    "c_ExpectedVersion c + 1 \<notin> pv_version ` set (policy_versions d)"
    "\<exists>r \<in> set (changes d). P r" "\<And>x. P x \<Longrightarrow> ch_id x = c_ID c \<and> ch_state x = ''approved''"
    and d': "d' = d\<lparr>policy_versions := policy_versions d @ [\<lparr>pv_version = c_ExpectedVersion c + 1, pv_payload = raw,
              pv_digest = SecurityDigest env raw, pv_request_id = c_ID c\<rparr>],
            policy_state := (policy_state d)\<lparr>ps_state := ''applying'',
              ps_pending := Some (c_ExpectedVersion c + 1), ps_pending_change := c_ID c\<rparr>,
            changes := sql_update P (\<lambda>r. r\<lparr>ch_state := ''applying'', ch_intent_ref := intent\<rparr>) (changes d)\<rparr>"
    by (rule begin_ok) blast
  have none: "ps_pending (policy_state d) = None" "\<And>r. r \<in> set (changes d) \<Longrightarrow> ch_state r \<noteq> ''applying''"
  proof -
    have "ps_pending (policy_state d) \<noteq> Some v" for v
      using inv_parts(2,3) [OF assms(2)] ok(2) by (force simp: stage_inv_def stage_ok_def changes_inv_def)
    then show *: "ps_pending (policy_state d) = None" by (cases "ps_pending (policy_state d)") auto
    show "r \<in> set (changes d) \<Longrightarrow> ch_state r \<noteq> ''applying''" for r
      using inv_parts(3) [OF assms(2)] * by (simp add: stage_inv_def stage_ok_def)
  qed
  have "versions_inv d'"
    using inv_parts(1) [OF assms(2)] ok(1,3) none(1)
    by (auto simp: versions_inv_def d' top_version_def)
  moreover have "changes_inv d'"
    by (rule changes_inv_update [OF inv_parts(2) [OF assms(2)],
          where P = P and f = "\<lambda>r. r\<lparr>ch_state := ''applying'', ch_intent_ref := intent\<rparr>"]) (simp_all add: d')
  moreover have "stage_inv d'"
  proof -
    from ok(4,5) obtain r where r: "r \<in> set (changes d)" "P r" "ch_id r = c_ID c" by blast
    let ?f = "\<lambda>r. r\<lparr>ch_state := ''applying'', ch_intent_ref := intent\<rparr>"
    from r have "?f r \<in> set (changes d')" by (force simp: d' sql_update_def)
    moreover have "Suc (ch_expected_version (?f r)) = c_ExpectedVersion c + 1" using adm r by simp
    moreover have "ch_id x = c_ID c" if "x \<in> set (changes d')" "ch_state x = ''applying''" for x
      using that none(2) ok(5) by (auto simp: d' sql_update_def split: if_splits)
    ultimately have "\<exists>x \<in> set (changes d'). ch_id x = c_ID c \<and> ch_state x = ''applying'' \<and>
        Suc (ch_expected_version x) = c_ExpectedVersion c + 1"
      "\<forall>x \<in> set (changes d'). ch_state x = ''applying'' \<longrightarrow> ch_id x = c_ID c"
      using r(3) by (auto intro!: bexI [of _ "?f r"])
    moreover have "policy_state d' = (policy_state d)\<lparr>ps_state := ''applying'',
        ps_pending := Some (c_ExpectedVersion c + 1), ps_pending_change := c_ID c\<rparr>" by (simp add: d')
    ultimately show ?thesis using ok(1) by (simp add: stage_inv_def stage_ok_def)
  qed
  moreover have "votes_inv d'" "proofs_inv d'"
    using inv_parts(4,5) [OF assms(2)] by (simp_all add: votes_inv_def proofs_inv_def vote_keys_def d')
  ultimately show ?thesis by (simp add: gov_inv_def)
qed


lemma activate_inv:
  assumes "activateSecurityChange env c p d = (Inr u, d')" "gov_inv d"
  shows "gov_inv d'"
proof (cases "d' = d")
  case False
  note ok = activate_two_person [OF assms(1) False inv_parts(4) [OF assms(2)]]
  note same = activate_frame [OF assms(1)]
  have "versions_inv d'" using inv_parts(1) [OF assms(2)] ok(3,4) same by (simp add: versions_inv_def top_version_def)
  moreover have "stage_inv d'" using inv_parts(3) [OF assms(2)] ok(3,4) same by (simp add: stage_inv_def stage_ok_def)
  moreover have "proofs_inv d'" using proofs_inv_spent inv_parts(5) [OF assms(2)] same by blast
  ultimately show ?thesis
    using inv_parts(2,4) [OF assms(2)] same by (simp add: gov_inv_def changes_inv_def votes_inv_def)
qed (use assms(2) in simp)

lemma gov_finish_inv:
  assumes "finishSecurityChange env i ref d = (Inr u, d')" "gov_inv d"
  shows "gov_inv d'"
proof -
  let ?P = "\<lambda>r. ch_id r = i \<and> ch_state r = ''applying''"
  let ?f = "\<lambda>r. r\<lparr>ch_state := ''applied'', ch_result_ref := ref\<rparr>"
  from assms(1) obtain pol :: PolicyVersion where
    s: "ps_pending_change (policy_state d) = i" "ps_pending (policy_state d) = Some (ps_active (policy_state d))"
    and d': "d' = d\<lparr>changes := sql_update ?P ?f (changes d),
        policy_state := (policy_state d)\<lparr>ps_state := if Profile (pv_Policy pol) = ''enhanced'' then ''enhanced'' else ''standard'',
          ps_pending := None, ps_pending_change := []\<rparr>\<rparr>"
    by (auto simp: finishSecurityChange_def gov_ok Let_def set_policy_state_def set_change_def dest!: tx_success)
  have "versions_inv d'"
    using inv_parts(1) [OF assms(2)] s by (simp add: versions_inv_def d' top_version_def)
  moreover have "changes_inv d'"
    by (rule changes_inv_update [OF inv_parts(2) [OF assms(2)], where P = ?P and f = ?f]) (simp_all add: d')
  moreover have "stage_inv d'"
    using inv_parts(3) [OF assms(2)] s by (auto simp: stage_inv_def stage_ok_def d' sql_update_def)
  ultimately show ?thesis
    using inv_parts(4,5) [OF assms(2)] by (simp add: gov_inv_def votes_inv_def proofs_inv_def vote_keys_def d')
qed

lemma quiet_set:
  assumes "gov_inv d" "\<And>r. ch_id (f r) = ch_id r" "\<And>r. ch_expected_version (f r) = ch_expected_version r"
    and "\<And>r. P r \<Longrightarrow> (ch_state (f r) = ''applying'') = (ch_state r = ''applying'')"
  shows "gov_inv (set_change P f d)"
proof -
  have "changes_inv (set_change P f d)" "stage_inv (set_change P f d)"
    using inv_parts(2,3) [OF assms(1)] quiet_changes [where d = d and d' = "set_change P f d" and P = P and f = f] assms(2-4)
    by (simp_all add: set_change_def)
  then show ?thesis
    by (intro gov_invI [OF assms(1)]) (use inv_parts(4,5) [OF assms(1)] in
      \<open>simp_all add: set_change_def votes_inv_def vote_keys_def proofs_inv_def\<close>)
qed

lemma expire_inv:
  assumes "ExpireSecurityChanges env d = (Inr u, d')" "gov_inv d"
  shows "gov_inv d'"
proof -
  let ?P = "\<lambda>r. ch_expires_at r \<le> time_unix (g_clock env 0 0) \<and> ch_state r \<in> {''requested'', ''partially_approved'', ''approved''}"
  let ?f = "\<lambda>r. r\<lparr>ch_state := ''expired''\<rparr>"
  let ?d = "set_change ?P ?f d"
  from assms(1) have d': "d' = ?d \<or> ps_state (policy_state d) = ''setup_pending'' \<and>
      d' = ?d\<lparr>policy_state := (policy_state d)\<lparr>ps_state := ''standard''\<rparr>\<rparr>"
    by (auto simp: ExpireSecurityChanges_def gov_ok Let_def set_policy_state_def set_change_def split: if_splits dest!: tx_success)
  have inv: "gov_inv ?d" by (rule quiet_set [OF assms(2)]) auto
  show ?thesis using d'
  proof
    assume e: "ps_state (policy_state d) = ''setup_pending'' \<and> d' = ?d\<lparr>policy_state := (policy_state d)\<lparr>ps_state := ''standard''\<rparr>\<rparr>"
    have "ps_pending (policy_state d) = None"
      using inv_parts(3) [OF assms(2)] e by (cases "ps_pending (policy_state d)") (auto simp: stage_inv_def stage_ok_def)
    with inv e show ?thesis
      by (simp add: gov_inv_def versions_inv_def changes_inv_def stage_inv_def stage_ok_def votes_inv_def proofs_inv_def
          vote_keys_def top_version_def set_change_def)
  qed (use inv in simp)
qed

lemma mark_inv:
  assumes "gov_inv d" "ps_pending (policy_state d) = None \<longrightarrow> st \<noteq> ''applying''"
    and "ps_pending (policy_state d) \<noteq> None \<longrightarrow> st \<in> {''applying'', ''recovery_required''}"
  shows "gov_inv (d\<lparr>policy_state := (policy_state d)\<lparr>ps_state := st\<rparr>\<rparr>)"
  using assms by (cases "ps_pending (policy_state d)")
    (auto simp: gov_inv_def versions_inv_def changes_inv_def stage_inv_def stage_ok_def votes_inv_def proofs_inv_def
      vote_keys_def top_version_def)

lemma small_inv:
  assumes "gov_inv d"
  shows "InvalidateSecurityVotes env user d = (r1, d') \<Longrightarrow> gov_inv d'"
    and "RecordSecurityCommit env i ref d = (r2, d') \<Longrightarrow> gov_inv d'"
    and "requirePolicyRecovery env d = (r3, d') \<Longrightarrow> gov_inv d'"
    and "resumeSecurityApplying env i d = (r4, d') \<Longrightarrow> gov_inv d'"
    and "ConsumeStepup env proof user session act dig d = (r5, d') \<Longrightarrow> gov_inv d'"
    and "IssueStepup env rf user session act dig now d = (r6, d') \<Longrightarrow> gov_inv d'"
proof -
  have votes: "core_frame d (d\<lparr>approvals := sql_update (\<lambda>a. ap_user_id a = user) (\<lambda>a. a\<lparr>ap_invalidated_at := Some w\<rparr>) (approvals d)\<rparr>)" for w
    by (rule core_frame_same) (simp_all add: vote_keys_def vote_keys_update vote_key_def)
  show "InvalidateSecurityVotes env user d = (r1, d') \<Longrightarrow> gov_inv d'"
    using gov_inv_frame [OF votes assms] assms by (auto simp: InvalidateSecurityVotes_def stmt_def split: if_splits)
  let ?d = "set_change (\<lambda>r. ch_id r = i \<and> ch_state r = ''applying'') (\<lambda>r. r\<lparr>ch_commit_ref := ref\<rparr>) d"
  have "gov_inv ?d" by (rule quiet_set [OF assms]) auto
  then show "RecordSecurityCommit env i ref d = (r2, d') \<Longrightarrow> gov_inv d'"
    using assms by (auto simp: RecordSecurityCommit_def stmt_def refuse_if_def split: if_splits)
  show "requirePolicyRecovery env d = (r3, d') \<Longrightarrow> gov_inv d'"
    using assms mark_inv [OF assms, of "''recovery_required''"]
    by (auto simp: requirePolicyRecovery_def set_policy_state_def stmt_def split: if_splits)
  show "resumeSecurityApplying env i d = (r4, d') \<Longrightarrow> gov_inv d'"
    using assms mark_inv [OF assms, of "''applying''"]
    by (auto simp: resumeSecurityApplying_def set_policy_state_def stmt_def Let_def split: if_splits)
  have "core_frame d d'" if "ConsumeStepup env proof user session act dig d = (Inr (), d')"
  proof -
    from that obtain pol where "consumeStepupWithClock env 2 pol proof user session act dig d = (Inr (), d')"
      by (auto simp: ConsumeStepup_def gov_ok dest!: tx_success)
    from consume_ok [OF this] show ?thesis by (auto simp: core_frame_def spends_def vote_keys_def)
  qed
  then show "ConsumeStepup env proof user session act dig d = (r5, d') \<Longrightarrow> gov_inv d'"
    using gov_inv_frame assms by (cases r5) (auto simp: ConsumeStepup_def dest!: tx_error_unchanged)
  have "gov_inv (d\<lparr>stepups := stepups d @ [s]\<rparr>)" if "su_hash s \<notin> su_hash ` set (stepups d)" for s
    by (rule gov_invI [OF assms]) (use that inv_parts(2-5) [OF assms] in
      \<open>auto simp: changes_inv_def stage_inv_def votes_inv_def vote_keys_def proofs_inv_def\<close>)
  then show "IssueStepup env rf user session act dig now d = (r6, d') \<Longrightarrow> gov_inv d'"
    using assms by (auto simp: IssueStepup_def sql_insert_def split: if_splits option.splits)
qed


lemma side_frames:
  "UpdateAuditSettings env a d = (Inr u, d') \<Longrightarrow> gov_frame d d'"
  "UpdateLegacyLDAPConfig env kvs d = (Inr u, d') \<Longrightarrow> gov_frame d d'"
  "SaveSecuritySecret env ref enc user now d = (r1, d') \<Longrightarrow> gov_frame d d'"
  "SecurityEvidenceBytes env i kind raw d = (r2, d') \<Longrightarrow> gov_frame d d'"
  "ConfirmSecurityEvidence env i kind ref d = (r3, d') \<Longrightarrow> gov_frame d d'"
proof -
  show "UpdateAuditSettings env a d = (Inr u, d') \<Longrightarrow> gov_frame d d'"
    by (auto simp: UpdateAuditSettings_def gov_ok split: sum.splits dest!: tx_success core_frame_configs)
  have ldap: "put_ldap_configs f i kvs x = (r, x') \<Longrightarrow> gov_frame x x'" for f i kvs x r x'
  proof (induction f i kvs x rule: put_ldap_configs.induct)
    case (2 f i k v kvs d)
    have "gov_frame d (d\<lparr>config := c\<rparr>)" for c by (rule gov_frame_same) simp_all
    with 2 show ?case by (auto split: if_splits intro: gov_frame_trans)
  qed simp
  then show "UpdateLegacyLDAPConfig env kvs d = (Inr u, d') \<Longrightarrow> gov_frame d d'"
    by (auto simp: UpdateLegacyLDAPConfig_def gov_ok split: sum.splits dest!: tx_success)
  show "SaveSecuritySecret env ref enc user now d = (r1, d') \<Longrightarrow> gov_frame d d'"
    by (rule gov_frame_same) (auto simp: SaveSecuritySecret_def stmt_def split: if_splits option.splits)
  show "SecurityEvidenceBytes env i kind raw d = (r2, d') \<Longrightarrow> gov_frame d d'"
    by (rule gov_frame_same) (auto simp: SecurityEvidenceBytes_def stmt_def Let_def split: if_splits option.splits)
  show "ConfirmSecurityEvidence env i kind ref d = (r3, d') \<Longrightarrow> gov_frame d d'"
    by (rule gov_frame_same) (auto simp: ConfirmSecurityEvidence_def stmt_def split: if_splits)
qed

text \<open>A refused transaction changes nothing.\<close>

lemma refused_unchanged:
  "CreateSecurityChange env c noms session proof d = (Inl e, d') \<Longrightarrow> d' = d"
  "AddSecurityApproval env c a session proof d = (Inl e, d') \<Longrightarrow> d' = d"
  "ExpireSecurityChanges env d = (Inl e, d') \<Longrightarrow> d' = d"
  "ClaimSecurityApplier env c user person rv session proof d = (Inl e, d') \<Longrightarrow> d' = d"
  "beginSecurityApply env c pol intent d = (Inl e, d') \<Longrightarrow> d' = d"
  "activateSecurityChange env c p d = (Inl e, d') \<Longrightarrow> d' = d"
  "finishSecurityChange env i ref d = (Inl e, d') \<Longrightarrow> d' = d"
  "UpdateAuditSettings env st d = (Inl e, d') \<Longrightarrow> d' = d"
  "UpdateLegacyLDAPConfig env kvs d = (Inl e, d') \<Longrightarrow> d' = d"
  "ConsumeStepup env proof user session act dig d = (Inl e, d') \<Longrightarrow> d' = d"
  unfolding CreateSecurityChange_def AddSecurityApproval_def ExpireSecurityChanges_def ClaimSecurityApplier_def
    beginSecurityApply_def activateSecurityChange_def finishSecurityChange_def UpdateAuditSettings_def
    UpdateLegacyLDAPConfig_def ConsumeStepup_def refuse_if_def
  by (auto dest: tx_error_unchanged split: option.splits if_splits)

lemmas call_inv = create_inv approve_inv expire_inv claim_inv gov_begin_inv activate_inv gov_finish_inv

lemma gov_run_inv:
  assumes "gov_run x d = (r, d')" "gov_admits x d" "gov_inv d"
  shows "gov_inv d'"
proof (cases "\<exists>env c noms session proof. x = GCreate env c noms session proof")
  case True
  with assms show ?thesis by (cases r) (auto dest: create_inv refused_unchanged)
next
  case False
  then show ?thesis using assms
    by (cases x; cases r) (auto simp: unit_op_def read_as_def dest: call_inv refused_unchanged small_inv [OF assms(3)]
        gov_inv_frame [OF gov_core [OF side_frames(1)] assms(3)] gov_inv_frame [OF gov_core [OF side_frames(2)] assms(3)]
        gov_inv_frame [OF gov_core [OF side_frames(3)] assms(3)]
        gov_inv_frame [OF gov_core [OF side_frames(5)] assms(3)]
        intro: gov_inv_frame [OF gov_core [OF side_frames(4) [OF surjective_pairing]] assms(3)]
          small_inv(6) [OF assms(3) surjective_pairing])
qed


lemma gov_step_inv: "gov_step l d d' \<Longrightarrow> gov_inv d \<Longrightarrow> gov_inv d'"
  by (erule gov_stepE) (auto intro: gov_run_inv gov_inv_frame [OF gov_core [OF account_step_frame]])

lemma gov_reachable_inv: "gov_reachable d \<Longrightarrow> gov_inv d"
  by (induction rule: gov_reachable.induct) (auto intro: gov_inv_initial gov_step_inv)

end
