(* ===== verification/Governance_Props.thy ===== *)
theory Governance_Props
  imports Governance
begin

text \<open>
  The promises of two-person governance, over every interleaving of the governance calls with the
  account and session operations: who moves the active policy, who gains a security role, what the
  stored versions and the pending transition look like, and how often a step-up proof can be used.
\<close>

section \<open>Security roles come from approved payloads\<close>

definition payload_grants :: "SecurityChangePayload \<Rightarrow> (string \<times> string) set" where
  "payload_grants p =
     (if pl_Kind p = ''bootstrap'' then {(sn_UserID n, r) | n r. n \<in> set (pl_Nominations p) \<and> r \<in> set (sn_Roles n)}
      else if pl_Kind p = ''role'' then {(rc_UserID r, rc_Role r) | r. pl_Role p = Some r \<and> rc_Grant r}
      else {})"

lemma roles_same:
  "user_roles (spend_stepups now user d) = user_roles d"
  "user_roles (bump_principal w user d) = user_roles d"
  "user_roles (stamp_tokens w user d) = user_roles d"
  "user_roles (bump_generation w user d) = user_roles d"
  "user_roles (insert_person person v d) = user_roles d"
  "user_roles (relink w q user person d) = user_roles d"
  "user_roles (carry_mfa user d) = user_roles d"
  "user_roles (put_password_recovery user q h d) = user_roles d"
  "user_roles (put_mfa_recovery user q d) = user_roles d"
  by (simp_all add: spend_stepups_def bump_principal_def stamp_tokens_def bump_generation_def insert_person_def
      relink_def carry_mfa_def put_password_recovery_def put_mfa_recovery_def Let_def update_users_roles split: option.split)

lemma roles_invalidate: "invalidate_user env f user d = (Inr v, d') \<Longrightarrow> user_roles d' = user_roles d"
  by (auto simp: invalidate_user_def op_ok roles_same)

lemma roles_link: "link_user env f q user person v d = (Inr u, d') \<Longrightarrow> user_roles d' = user_roles d"
  by (auto simp: link_user_def op_ok roles_same dest!: roles_invalidate)

lemma sec_roles_cong: "user_roles d' = user_roles d \<Longrightarrow> sec_roles d' = sec_roles d"
  by (simp add: sec_roles_def)

lemma roles_insert: "insert_role l w user role g d = (r, d') \<Longrightarrow> sec_roles d' \<subseteq> insert (user, role) (sec_roles d)"
  by (auto simp: insert_role_def Let_def sec_roles_def roles_same split: if_splits)

lemma roles_grant: "grant_roles env f q user rs d = (Inr v, d') \<Longrightarrow> sec_roles d' \<subseteq> sec_roles d \<union> {user} \<times> set rs"
proof (induction rs arbitrary: f d)
  case (Cons r rs)
  from Cons.prems obtain d1 f' where "insert_role False (g_wall env) user r q d = (Inr (), d1)"
    "grant_roles env f' q user rs d1 = (Inr v, d')" by (auto simp: op_ok)
  with roles_insert [of False "g_wall env" user r q d "Inr ()" d1] Cons.IH [of f' d1] show ?case by auto
qed (simp add: op_ret_def)

lemma roles_nominations:
  "apply_nominations env f q ns d = (Inr v, d') \<Longrightarrow>
   sec_roles d' \<subseteq> sec_roles d \<union> {(sn_UserID n, r) | n r. n \<in> set ns \<and> r \<in> set (sn_Roles n)}"
proof (induction ns arbitrary: f d)
  case (Cons n ns)
  from Cons.prems obtain d1 d2 f' where
    "link_user env f q (sn_UserID n) (sn_PersonID n) (sn_Verification n) d = (Inr (), d1)"
    "grant_roles env (\<lambda>k. f (k + 5)) q (sn_UserID n) (sn_Roles n) d1 = (Inr (), d2)"
    "apply_nominations env f' q ns d2 = (Inr v, d')"
    by (auto simp: op_ok)
  with roles_grant [of env "\<lambda>k. f (k + 5)" q "sn_UserID n" "sn_Roles n" d1 "()" d2]
    sec_roles_cong [OF roles_link] Cons.IH [of f' d2] show ?case by auto blast
qed (simp add: op_ret_def)

lemma roles_recovery: "apply_recovery env c p r d = (Inr v, d') \<Longrightarrow> user_roles d' = user_roles d"
proof -
  assume "apply_recovery env c p r d = (Inr v, d')"
  then show ?thesis
    by (auto simp: apply_recovery_def reset_password_def removeUserTOTPConn_def op_ok Let_def roles_same update_users_roles
        recovered_password_def reenabled_def totp_removed_def split: if_splits option.splits sum.splits
        dest!: roles_invalidate appendPasswordHistory_frame revokeCredential_frame)
qed

lemma roles_payload:
  assumes "applySecurityPayload env c p d = (Inr v, d')"
  shows "sec_roles d' \<subseteq> sec_roles d \<union> payload_grants p"
proof -
  have del: "sec_roles (delete_role w user role x) \<subseteq> sec_roles x" for w user role x
    by (auto simp: delete_role_def Let_def sec_roles_def roles_same sql_delete_def)
  consider "pl_Kind p = ''audit-settings'' \<or> pl_Kind p = ''ldap''" | "pl_Kind p = ''bootstrap''" | "pl_Kind p = ''role''"
    | "pl_Kind p = ''person''" | "pl_Kind p = ''recovery''"
    | "pl_Kind p \<notin> {''audit-settings'', ''ldap'', ''bootstrap'', ''role'', ''person'', ''recovery''}" by blast
  then show ?thesis
  proof cases
    case 1
    with assms obtain kvs where "put_configs (g_db env 2) 0 kvs d = (Inr v, d')"
      by (auto simp: applySecurityPayload_def Let_def op_ok)
    from core_frame_configs [OF this] show ?thesis by (auto simp: gov_frame_def)
  next
    case 2
    with assms have "apply_nominations env (g_db env 2) (c_ID c) (pl_Nominations p) d = (Inr v, d')"
      by (simp add: applySecurityPayload_def Let_def)
    from roles_nominations [OF this] 2 show ?thesis by (simp add: payload_grants_def)
  next
    case 3
    with assms obtain r d1 where r: "pl_Role p = Some r"
      and d1: "(if rc_Grant r then insert_role True (g_wall env) (rc_UserID r) (rc_Role r) (c_ID c)
          else (\<lambda>d. (Inr (), delete_role (g_wall env) (rc_UserID r) (rc_Role r) d))) d = (Inr (), d1)"
      and inv: "invalidate_user env (\<lambda>k. g_db env 2 (k + 1)) (rc_UserID r) d1 = (Inr v, d')"
      by (cases "pl_Role p") (auto simp: applySecurityPayload_def Let_def op_ok)
    from sec_roles_cong [OF roles_invalidate [OF inv]] have "sec_roles d' = sec_roles d1" .
    moreover have "sec_roles d1 \<subseteq> sec_roles d \<union> {(rc_UserID r, rc_Role r) | x. rc_Grant r}"
      using d1 roles_insert [of True "g_wall env" "rc_UserID r" "rc_Role r" "c_ID c" d "Inr ()" d1]
        del [of "g_wall env" "rc_UserID r" "rc_Role r" d] by (cases "rc_Grant r") auto
    ultimately show ?thesis using 3 r by (auto simp: payload_grants_def)
  next
    case 4
    with assms obtain f a b e where "link_user env f (c_ID c) a b e d = (Inr v, d')"
      by (cases "pl_Person p") (auto simp: applySecurityPayload_def Let_def)
    from sec_roles_cong [OF roles_link [OF this]] show ?thesis by simp
  next
    case 5
    with assms obtain r where "apply_recovery env c p r d = (Inr v, d')"
      by (cases "pl_Recovery p") (auto simp: applySecurityPayload_def Let_def)
    from sec_roles_cong [OF roles_recovery [OF this]] show ?thesis by simp
  next
    case 6
    then show ?thesis using assms by (simp add: applySecurityPayload_def Let_def op_ret_def)
  qed
qed

text \<open>Only an activation touches the security roles or the active version.\<close>

definition unmoved :: "db \<Rightarrow> db \<Rightarrow> bool" where
  "unmoved d d' \<longleftrightarrow> sec_roles d' \<subseteq> sec_roles d \<and> ps_active (policy_state d') = ps_active (policy_state d)"

lemma quiet_refl [simp]: "unmoved d d"
  by (simp add: unmoved_def)

lemma gov_quiet: "gov_frame d d' \<Longrightarrow> unmoved d d'"
  by (simp add: unmoved_def gov_frame_def core_frame_def)

lemma quiet_same: "user_roles d' = user_roles d \<Longrightarrow> ps_active (policy_state d') = ps_active (policy_state d) \<Longrightarrow> unmoved d d'"
  by (simp add: unmoved_def sec_roles_def)

lemma quiet_calls:
  "CreateSecurityChange env c noms session proof d = (Inr u, d') \<Longrightarrow> unmoved d d'"
  "AddSecurityApproval env c a session proof d = (Inr u, d') \<Longrightarrow> unmoved d d'"
  "ClaimSecurityApplier env c user person rv session proof d = (Inr u, d') \<Longrightarrow> unmoved d d'"
  "beginSecurityApply env c pol intent d = (Inr u, d') \<Longrightarrow> unmoved d d'"
  "finishSecurityChange env i ref d = (Inr u, d') \<Longrightarrow> unmoved d d'"
  "ExpireSecurityChanges env d = (Inr u, d') \<Longrightarrow> unmoved d d'"
proof -
  assume "CreateSecurityChange env c noms session proof d = (Inr u, d')"
  from create_ok(5,6) [OF this] show "unmoved d d'" by (auto intro: quiet_same)
next
  assume "AddSecurityApproval env c a session proof d = (Inr u, d')"
  then show "unmoved d d'" by (rule approve_ok) (rule quiet_same; simp)
next
  assume "ClaimSecurityApplier env c user person rv session proof d = (Inr u, d')"
  then show "unmoved d d'" by (rule claim_ok) (rule quiet_same; simp)
next
  assume "beginSecurityApply env c pol intent d = (Inr u, d')"
  then show "unmoved d d'" by (rule begin_ok) (rule quiet_same; simp)
next
  assume "finishSecurityChange env i ref d = (Inr u, d')"
  then show "unmoved d d'"
    by (auto simp: finishSecurityChange_def gov_ok Let_def set_policy_state_def set_change_def dest!: tx_success intro!: quiet_same)
next
  assume "ExpireSecurityChanges env d = (Inr u, d')"
  then show "unmoved d d'"
    by (auto simp: ExpireSecurityChanges_def gov_ok Let_def set_policy_state_def set_change_def dest!: tx_success intro!: quiet_same)
qed

lemma quiet_small:
  "InvalidateSecurityVotes env user d = (r1, d') \<Longrightarrow> unmoved d d'"
  "RecordSecurityCommit env i ref d = (r2, d') \<Longrightarrow> unmoved d d'"
  "requirePolicyRecovery env d = (r3, d') \<Longrightarrow> unmoved d d'"
  "resumeSecurityApplying env i d = (r4, d') \<Longrightarrow> unmoved d d'"
  "ConsumeStepup env proof user session act dig d = (Inr u, d') \<Longrightarrow> unmoved d d'"
  "IssueStepup env rf user session act dig now d = (r6, d') \<Longrightarrow> unmoved d d'"
  by (rule quiet_same; auto simp: InvalidateSecurityVotes_def RecordSecurityCommit_def requirePolicyRecovery_def
      resumeSecurityApplying_def ConsumeStepup_def IssueStepup_def stmt_def refuse_if_def gov_ok Let_def set_policy_state_def
      set_change_def dest!: tx_success consume_ok(2) split: if_splits option.splits)+

lemma other_calls:
  assumes "gov_run x d = (r, d')" "\<And>env c p. x \<noteq> GActivate env c p"
  shows "unmoved d d'"
  using assms by (cases x; cases r) (auto simp: unit_op_def dest: quiet_calls quiet_small refused_unchanged
      gov_quiet [OF side_frames(1)] gov_quiet [OF side_frames(2)] gov_quiet [OF side_frames(3)]
      gov_quiet [OF side_frames(5)] intro: gov_quiet [OF side_frames(4) [OF surjective_pairing]]
      quiet_small(6) [OF surjective_pairing])


section \<open>Proofs are used once\<close>

text \<open>A call of the hub: a governance call, or an account or session operation as the change of the
  database it makes.\<close>

datatype sys_call = Gov gov_call | Account "db \<Rightarrow> db"

fun sys_run :: "sys_call \<Rightarrow> db \<Rightarrow> (store_error + unit) \<times> db" where
  "sys_run (Gov x) d = gov_run x d"
| "sys_run (Account f) d = (Inr (), f d)"

fun sys_ok :: "sys_call \<Rightarrow> bool" where
  "sys_ok (Gov x) = True"
| "sys_ok (Account f) = (\<forall>d. account_step d (f d))"

text \<open>The calls that demand a proof, with the digest of the one they were given.\<close>

fun uses_proof :: "gov_call \<Rightarrow> string option" where
  "uses_proof (GConsume env proof user session act dig) = Some (SecurityDigest env proof)"
| "uses_proof (GCreate env c noms session proof) = Some (SecurityDigest env proof)"
| "uses_proof (GApprove env c a session proof) = Some (SecurityDigest env proof)"
| "uses_proof (GClaim env c user person rv session proof) = Some (SecurityDigest env proof)"
| "uses_proof _ = None"

fun accepted_with :: "string \<Rightarrow> sys_call \<Rightarrow> store_error + unit \<Rightarrow> bool" where
  "accepted_with h (Gov x) r = (uses_proof x = Some h \<and> r = Inr ())"
| "accepted_with h (Account f) r = False"

definition proof_spent :: "string \<Rightarrow> db \<Rightarrow> bool" where
  "proof_spent h d \<longleftrightarrow> (\<exists>s \<in> set (stepups d). su_hash s = h \<and> su_consumed_at s \<noteq> None)"

definition proofs_grow :: "db \<Rightarrow> db \<Rightarrow> bool" where
  "proofs_grow d d' \<longleftrightarrow> proofs_only_spent d d' \<or>
     (\<exists>s. stepups d' = stepups d @ [s] \<and> su_hash s \<notin> su_hash ` set (stepups d))"

lemma grow_inv: "proofs_grow d d' \<Longrightarrow> proofs_inv d \<Longrightarrow> proofs_inv d'"
  unfolding proofs_grow_def using proofs_inv_spent by (auto simp: proofs_inv_def)

lemma proofs_only_spent_keeps:
  assumes "proofs_only_spent d d'" "proof_spent h d" shows "proof_spent h d'"
proof -
  from assms(2) obtain i where i: "i < length (stepups d)" "su_hash (stepups d ! i) = h" "su_consumed_at (stepups d ! i) \<noteq> None"
    by (auto simp: proof_spent_def in_set_conv_nth)
  from assms(1) have len: "length (stepups d') = length (stepups d)"
    unfolding proofs_only_spent_def by (metis length_map)
  have "map su_hash (stepups d') ! i = map su_hash (stepups d) ! i"
    using assms(1) by (simp add: proofs_only_spent_def)
  with i len have "su_hash (stepups d' ! i) = h" by simp
  moreover have "su_consumed_at (stepups d' ! i) \<noteq> None" using assms(1) i by (simp add: proofs_only_spent_def)
  ultimately show ?thesis unfolding proof_spent_def using i len by (metis nth_mem)
qed

lemma grow_spent: "proofs_grow d d' \<Longrightarrow> proof_spent h d \<Longrightarrow> proof_spent h d'"
  unfolding proofs_grow_def by (elim disjE) (rule proofs_only_spent_keeps, auto simp: proof_spent_def)

lemma grow_same: "stepups d' = stepups d \<Longrightarrow> proofs_grow d d'"
  by (simp add: proofs_grow_def proofs_same)

lemma spends_grow: "spends h d d' \<Longrightarrow> proofs_grow d d'"
  by (simp add: spends_def proofs_grow_def)

lemma core_grow: "core_frame d d' \<Longrightarrow> proofs_grow d d'"
  by (simp add: core_frame_def proofs_grow_def)

lemma consume_spends:
  assumes "ConsumeStepup env proof user session act dig d = (Inr u, d')"
  shows "spends (SecurityDigest env proof) d d'"
  using assms by (auto simp: ConsumeStepup_def gov_ok dest!: tx_success intro: consume_ok(1))

lemma proof_calls:
  "uses_proof x = Some h \<Longrightarrow> gov_run x d = (Inr u, d') \<Longrightarrow> spends h d d'"
  by (cases x) (auto dest: consume_spends create_ok(7) elim: approve_ok claim_ok)

lemma grow_small:
  "InvalidateSecurityVotes env user d = (r1, d') \<Longrightarrow> proofs_grow d d'"
  "RecordSecurityCommit env i ref d = (r2, d') \<Longrightarrow> proofs_grow d d'"
  "requirePolicyRecovery env d = (r3, d') \<Longrightarrow> proofs_grow d d'"
  "resumeSecurityApplying env i d = (r4, d') \<Longrightarrow> proofs_grow d d'"
  "finishSecurityChange env i ref d = (Inr u, d') \<Longrightarrow> proofs_grow d d'"
  "ExpireSecurityChanges env d = (Inr u, d') \<Longrightarrow> proofs_grow d d'"
  by (rule grow_same; auto simp: InvalidateSecurityVotes_def RecordSecurityCommit_def requirePolicyRecovery_def
      resumeSecurityApplying_def finishSecurityChange_def ExpireSecurityChanges_def stmt_def refuse_if_def gov_ok
      Let_def set_policy_state_def set_change_def dest!: tx_success split: if_splits option.splits)+

lemma grow_begin: "beginSecurityApply env c pol intent d = (Inr u, d') \<Longrightarrow> proofs_grow d d'"
  by (erule begin_ok) (rule grow_same, simp)

lemma grow_activate: "activateSecurityChange env c p d = (Inr u, d') \<Longrightarrow> proofs_grow d d'"
  using activate_frame by (auto simp: proofs_grow_def)

lemma grow_issue: "proofs_grow d (snd (IssueStepup env rf user session act dig now d))"
  by (auto simp: IssueStepup_def sql_insert_def proofs_grow_def split: option.splits)

lemma run_grows: "proofs_grow d (snd (gov_run x d))"
proof (cases "gov_run x d")
  case (Pair r d')
  show ?thesis
  proof (cases "uses_proof x")
    case None
    with Pair show ?thesis
      by (cases x; cases r) (auto simp: unit_op_def grow_issue core_grow dest: grow_small grow_begin grow_activate refused_unchanged
        core_grow [OF gov_core [OF side_frames(1)]] core_grow [OF gov_core [OF side_frames(2)]]
        core_grow [OF gov_core [OF side_frames(3)]] core_grow [OF gov_core [OF side_frames(5)]]
        intro: core_grow [OF gov_core [OF side_frames(4) [OF surjective_pairing]]])
  next
    case (Some h)
    show ?thesis
    proof (cases r)
      case (Inl e)
      with Some Pair show ?thesis by (cases x) (auto dest: refused_unchanged simp: core_grow)
    next
      case (Inr u)
      with Pair spends_grow [OF proof_calls [OF Some]] show ?thesis by simp
    qed
  qed
qed

interpretation stepup_use: one_shot sys_run proofs_inv "proof_spent h" "accepted_with h" sys_ok for h
proof
  fix x :: sys_call and s :: db
  assume ok: "sys_ok x" and inv: "proofs_inv s"
  have grow: "proofs_grow s (snd (sys_run x s))"
    using ok core_grow [OF gov_core [OF account_step_frame]] run_grows by (cases x) auto
  show "proofs_inv (snd (sys_run x s))" using grow_inv [OF grow inv] .
  show "proof_spent h s \<Longrightarrow> proof_spent h (snd (sys_run x s))" using grow_spent [OF grow] .
  assume "accepted_with h x (fst (sys_run x s))"
  then have sp: "spends h s (snd (sys_run x s))"
    using proof_calls [OF _ prod_eqI] by (cases x) fastforce+
  from sp inv show "\<not> proof_spent h s"
    by (auto simp: spends_def proof_spent_def proofs_inv_def distinct_map inj_on_def)
  from sp show "proof_spent h (snd (sys_run x s))" by (simp add: spends_def proof_spent_def)
qed


section \<open>A bootstrap, from request to activation\<close>

text \<open>Three accounts with live sessions; the administrator \<open>u1\<close> requests the bootstrap that makes it
  an officer and the other two approvers. Texts stand for their own digests, padded to the
  length of one.\<close>

definition pad64 :: "string \<Rightarrow> string" where
  "pad64 s = take 64 (s @ replicate 64 CHR ''.'')"

definition demo_policy :: "string \<Rightarrow> AuditPolicy" where
  "demo_policy profile = \<lparr>Profile = profile, Actors = [], Nodes = [], RuntimeSeconds = 3600, RetentionHours = 24,
     Destination = ''archive'', CredentialRef = ''ref'', TrustKeyIDs = [''k''], QualificationSHA256 = pad64 ''q''\<rparr>"

definition demo_nominations :: "SecurityNomination list" where
  "demo_nominations =
     [\<lparr>sn_UserID = ''u1'', sn_PersonID = ''p1'', sn_Roles = [RoleSecurityOfficer], sn_Verification = ''v''\<rparr>,
      \<lparr>sn_UserID = ''u2'', sn_PersonID = ''p2'', sn_Roles = [RoleSecurityApprover], sn_Verification = ''v''\<rparr>,
      \<lparr>sn_UserID = ''u3'', sn_PersonID = ''p3'', sn_Roles = [RoleSecurityApprover], sn_Verification = ''v''\<rparr>]"

definition demo_payload :: SecurityChangePayload where
  "demo_payload = \<lparr>pl_Kind = ''bootstrap'', pl_Policy = Some (demo_policy ''enhanced''),
     pl_Nominations = demo_nominations, pl_Role = None, pl_Person = None, pl_AuditSettings = None,
     pl_LDAP = None, pl_PreparedConfig = [], pl_Recovery = None\<rparr>"

definition demo_env :: "string \<Rightarrow> gov_env" where
  "demo_env fresh = \<lparr>g_sha = pad64, g_change = (\<lambda>_. Some demo_payload), g_raw = (\<lambda>s. Some s),
     g_policy = (\<lambda>s. Some (demo_policy (if s = ''new'' then ''enhanced'' else ''standard''))),
     g_marshal = (\<lambda>p. Some ''new''), g_fresh = fresh, g_tx = (\<lambda>_. False), g_db = (\<lambda>_ _. False),
     g_cfg = (\<lambda>_ _. False), g_clock = (\<lambda>_ _. 2100 * second), g_wall = 2100\<rparr>"

definition demo_user :: "string \<Rightarrow> string \<Rightarrow> user_row" where
  "demo_user i role = (example_user i role)\<lparr>u_totp_secret := Some ''s''\<rparr>"

definition demo_db :: db where
  "demo_db = empty_db\<lparr>
     users := [demo_user ''u1'' RoleAdmin, demo_user ''u2'' RoleViewer, demo_user ''u3'' RoleViewer],
     sessions := [example_session ''s1'' ''u1'', example_session ''s2'' ''u2'', example_session ''s3'' ''u3''],
     user_roles := [\<lparr>r_user_id = ''u1'', r_role = RoleAdmin, r_granting = []\<rparr>],
     identity_links := [\<lparr>l_user_id = ''u1'', l_person_id = ''user:u1'', l_granting = []\<rparr>,
       \<lparr>l_user_id = ''u2'', l_person_id = ''user:u2'', l_granting = []\<rparr>,
       \<lparr>l_user_id = ''u3'', l_person_id = ''user:u3'', l_granting = []\<rparr>]\<rparr>"

definition demo_change :: SecurityChange where
  "demo_change = \<lparr>c_ID = ''chg'', c_Revision = 1, c_RequesterID = ''u1'', c_RequesterPersonID = ''p1'',
     c_ApplierID = ''u1'', c_ApplierPersonID = ''p1'', c_ApplierRevision = 0, c_RequesterGeneration = 0,
     c_ExpectedVersion = 1, c_Digest = pad64 ''bytes'', c_Reason = ''why'', c_Payload = ''bytes'',
     c_ApprovedBytes = ''bytes'', c_State = ''requested'', c_CreatedAt = 2100 * second,
     c_ExpiresAt = 90000 * second, c_Approvals = [], c_IntentRef = [], c_CommitRef = [], c_ResultRef = []\<rparr>"

definition demo_vote :: "string \<Rightarrow> string \<Rightarrow> SecurityApproval" where
  "demo_vote user person = \<lparr>va_UserID = user, va_PersonID = person, va_ProofSHA256 = [], va_ApprovedAt = 0,
     va_TokenGeneration = 0, va_InvalidatedAt = None\<rparr>"

definition demo_issue :: "string \<Rightarrow> string \<Rightarrow> string \<Rightarrow> string \<Rightarrow> gov_call" where
  "demo_issue fresh user session act =
     GIssue (demo_env fresh) False user session act (pad64 ''bytes'') (2100 * second)"

definition demo_calls :: "gov_call list" where
  "demo_calls = [demo_issue ''a'' ''u1'' ''s1'' ActionRequest,
     GCreate (demo_env []) demo_change demo_nominations ''s1'' ''a'',
     demo_issue ''b'' ''u2'' ''s2'' ActionApprove,
     GApprove (demo_env []) demo_change (demo_vote ''u2'' ''p2'') ''s2'' ''b'',
     demo_issue ''c'' ''u3'' ''s3'' ActionApprove,
     GApprove (demo_env []) demo_change (demo_vote ''u3'' ''p3'') ''s3'' ''c'',
     demo_issue ''d'' ''u1'' ''s1'' ActionApply,
     GClaim (demo_env []) demo_change ''u1'' ''p1'' 0 ''s1'' ''d'',
     GBegin (demo_env []) demo_change (demo_policy ''enhanced'') ''intent'',
     GCommit (demo_env []) ''chg'' ''commit'']"

fun admitted :: "gov_call list \<Rightarrow> db \<Rightarrow> bool" where
  "admitted [] d = True"
| "admitted (x # xs) d = (gov_admits x d \<and> admitted xs (snd (gov_run x d)))"

lemma admitted_reachable:
  "gov_reachable d \<Longrightarrow> admitted xs d \<Longrightarrow> gov_reachable (run_state gov_run xs d)"
proof (induction xs arbitrary: d)
  case (Cons x xs)
  then have "gov_step (Some x) d (snd (gov_run x d))" by (intro step_gov [OF _ surjective_pairing]) simp
  with Cons show ?case by (simp add: reach_step)
qed simp

lemma demo_initial: "gov_initial demo_db"
  by (auto simp: gov_initial_def demo_db_def empty_db_def sec_roles_def IsSecurityRole_def role_names)

definition demo_activate :: gov_call where
  "demo_activate = GActivate (demo_env []) demo_change demo_payload"

definition demo_begun :: db where
  "demo_begun = run_state gov_run demo_calls demo_db"

lemma demo_run:
  "admitted demo_calls demo_db \<and>
   (let d = demo_begun; d' = snd (gov_run demo_activate d) in
    gov_admits demo_activate d \<and> ps_active (policy_state d) = 1 \<and> ps_active (policy_state d') = 2 \<and>
    map ch_state (changes d) = [''applying''] \<and>
    map (\<lambda>r. (r_user_id r, r_role r)) (user_roles d) = [(''u1'', RoleAdmin)] \<and>
    map (\<lambda>r. (r_user_id r, r_role r)) (user_roles d') = [(''u1'', RoleAdmin), (''u1'', RoleSecurityOfficer),
      (''u2'', RoleSecurityApprover), (''u3'', RoleSecurityApprover)])"
  by code_simp

lemma demo_begun_reachable: "gov_reachable demo_begun"
  unfolding demo_begun_def using demo_run
  by (intro admitted_reachable reach_init demo_initial) simp

lemma demo_activation: "gov_step (Some demo_activate) demo_begun (snd (gov_run demo_activate demo_begun))"
  using demo_run by (intro step_gov [OF _ surjective_pairing]) (simp add: Let_def)

section \<open>Properties\<close>

text \<open>C1. The two-person rule. Whatever operation of the hub's store runs in whatever reachable
  state, if the active policy version is different afterwards then the operation was the
  activation of the pending change, the version advanced by exactly one, and in that very state
  two votes on exactly this change are in force whose voters are different accounts and different
  people, neither of them the requester, both still holding the approver's authority (role, linked
  person, second factor, unchanged security revision), while the requester and the applier still
  hold the officer's.\<close>

theorem two_person_rule:
  assumes "gov_reachable d" "gov_step l d d'" "ps_active (policy_state d') \<noteq> ps_active (policy_state d)"
  shows "\<exists>env c p. l = Some (GActivate env c p) \<and> two_person env c d \<and>
     ps_active (policy_state d') = Suc (ps_active (policy_state d)) \<and>
     c_ID c = ps_pending_change (policy_state d) \<and>
     (\<exists>r \<in> set (changes d). read_as c r \<and> ch_state r = ''applying'')"
  using assms(2)
proof (cases rule: gov_step.cases)
  case (step_gov x r)
  then obtain env c p where x: "x = GActivate env c p"
    using other_calls assms(3) by (metis unmoved_def)
  from step_gov x assms(3) obtain u where act: "activateSecurityChange env c p d = (Inr u, d')"
    by (cases r) (auto dest: refused_unchanged(6))
  have "d' \<noteq> d" using assms(3) by auto
  note inv = gov_reachable_inv [OF assms(1)]
  note ok = activate_two_person [OF act \<open>d' \<noteq> d\<close> inv_parts(4) [OF inv]]
  from inv_parts(3) [OF inv] ok(3) obtain r where "r \<in> set (changes d)" "ch_id r = c_ID c" "ch_state r = ''applying''"
    by (auto simp: stage_inv_def stage_ok_def ok(2))
  with step_gov x have "\<exists>r \<in> set (changes d). read_as c r \<and> ch_state r = ''applying''" by auto
  with ok(1,2,4) step_gov x show ?thesis by auto
next
  case step_account
  then show ?thesis using account_step_frame assms(3) by (auto simp: gov_frame_def core_frame_def)
qed

theorem two_person_rule_witness:
  "ps_active (policy_state demo_begun) = 1 \<and>
   (\<exists>env c p. demo_activate = GActivate env c p \<and> two_person env c demo_begun \<and> c_ID c = ps_pending_change (policy_state demo_begun))"
proof -
  have ch: "ps_active (policy_state demo_begun) = 1" "ps_active (policy_state (snd (gov_run demo_activate demo_begun))) = 2"
    using demo_run by (simp_all add: Let_def)
  then have "ps_active (policy_state (snd (gov_run demo_activate demo_begun))) \<noteq> ps_active (policy_state demo_begun)" by simp
  from two_person_rule [OF demo_begun_reachable demo_activation this] ch(1) show ?thesis by auto
qed

text \<open>C2. A security role (officer, approver or reader of originals) appears on an account only
  through an activation that satisfies the two-person rule, and only if the activated payload
  grants that role to that account; no administrator operation and no other governance call can
  confer one.\<close>

theorem security_roles_governed:
  assumes "gov_reachable d" "gov_step l d d'" "(user, role) \<in> sec_roles d'" "(user, role) \<notin> sec_roles d"
  shows "\<exists>env c p. l = Some (GActivate env c p) \<and> two_person env c d \<and> (user, role) \<in> payload_grants p"
  using assms(2)
proof (cases rule: gov_step.cases)
  case (step_gov x r)
  then obtain env c p where x: "x = GActivate env c p"
    using other_calls assms(3,4) by (metis unmoved_def subsetD)
  from step_gov x assms(3,4) obtain u where act: "activateSecurityChange env c p d = (Inr u, d')"
    by (cases r) (auto dest: refused_unchanged(6))
  have "d' \<noteq> d" using assms(3,4) by auto
  note ok = activate_two_person [OF act \<open>d' \<noteq> d\<close> inv_parts(4) [OF gov_reachable_inv [OF assms(1)]]]
  from ok(5) roles_payload sec_roles_cong have "sec_roles d' \<subseteq> sec_roles d \<union> payload_grants p" by metis
  with ok(1) step_gov x assms(3,4) show ?thesis by auto
next
  case step_account
  then show ?thesis using account_step_frame assms(3,4) by (auto simp: gov_frame_def)
qed

theorem security_roles_governed_witness:
  "(''u2'', RoleSecurityApprover) \<notin> sec_roles demo_begun \<and>
   (\<exists>env c p. demo_activate = GActivate env c p \<and> two_person env c demo_begun \<and>
      (''u2'', RoleSecurityApprover) \<in> payload_grants p)"
proof -
  let ?d' = "snd (gov_run demo_activate demo_begun)"
  have roles: "map (\<lambda>r. (r_user_id r, r_role r)) (user_roles demo_begun) = [(''u1'', RoleAdmin)]"
    "map (\<lambda>r. (r_user_id r, r_role r)) (user_roles ?d') = [(''u1'', RoleAdmin), (''u1'', RoleSecurityOfficer),
      (''u2'', RoleSecurityApprover), (''u3'', RoleSecurityApprover)]"
    using demo_run by (simp_all add: Let_def)
  have sec: "sec_roles d = {x \<in> set (map (\<lambda>r. (r_user_id r, r_role r)) (user_roles d)). IsSecurityRole (snd x)}" for d
    by (auto simp: sec_roles_def)
  have "(''u2'', RoleSecurityApprover) \<in> sec_roles ?d'" "(''u2'', RoleSecurityApprover) \<notin> sec_roles demo_begun"
    unfolding sec roles by (simp_all add: IsSecurityRole_def)
  from security_roles_governed [OF demo_begun_reachable demo_activation this] this(2) show ?thesis by auto
qed

text \<open>C33. The stored policy history has no gaps and no forks: in every reachable state the versions
  are exactly 1 up to the active one, or up to the pending one while a change is being applied,
  each stored once; at most one change is being applied, it is the one the policy state names, and
  the version it installs follows the version it was approved against.\<close>

theorem policy_transition_inv:
  assumes "gov_reachable d"
  shows "distinct (map pv_version (policy_versions d)) \<and>
     pv_version ` set (policy_versions d) = {1..top_version (policy_state d)} \<and>
     length (filter (\<lambda>r. ch_state r = ''applying'') (changes d)) \<le> 1 \<and>
     (\<forall>r \<in> set (changes d). ch_state r = ''applying'' \<longrightarrow>
        ch_id r = ps_pending_change (policy_state d) \<and>
        ps_pending (policy_state d) = Some (Suc (ch_expected_version r)) \<and>
        ps_active (policy_state d) \<in> {ch_expected_version r, Suc (ch_expected_version r)})"
proof -
  note inv = gov_reachable_inv [OF assms]
  let ?A = "filter (\<lambda>r. ch_state r = ''applying'') (changes d)"
  have one: "ch_id r = ps_pending_change (policy_state d) \<and> ps_pending (policy_state d) = Some (Suc (ch_expected_version r)) \<and>
      ps_active (policy_state d) \<in> {ch_expected_version r, Suc (ch_expected_version r)}"
    if r: "r \<in> set (changes d)" "ch_state r = ''applying''" for r
  proof -
    from inv_parts(3) [OF inv] r obtain v where v: "ps_pending (policy_state d) = Some v"
      by (cases "ps_pending (policy_state d)") (simp_all add: stage_inv_def stage_ok_def)
    have st: "ps_active (policy_state d) = v \<or> Suc (ps_active (policy_state d)) = v"
      "\<exists>r' \<in> set (changes d). ch_id r' = ps_pending_change (policy_state d) \<and> ch_state r' = ''applying'' \<and>
         Suc (ch_expected_version r') = v"
      "\<forall>r \<in> set (changes d). ch_state r = ''applying'' \<longrightarrow> ch_id r = ps_pending_change (policy_state d)"
      using inv_parts(3) [OF inv] by (simp_all add: stage_inv_def stage_ok_def v)
    from st(2) obtain r' where r': "r' \<in> set (changes d)" "ch_id r' = ps_pending_change (policy_state d)"
      "Suc (ch_expected_version r') = v" by blast
    have "r' = r" using same_change [OF inv_parts(2) [OF inv] r'(1) r(1)] r'(2) st(3) r by simp
    with v st(1,3) r r'(3) show ?thesis by auto
  qed
  have "distinct (map ch_id ?A)"
    using inv_parts(2) [OF inv] by (simp add: changes_inv_def distinct_map_filter)
  then have "length ?A = card (set (map ch_id ?A))" by (simp only: distinct_card length_map)
  also have "\<dots> \<le> card {ps_pending_change (policy_state d)}" by (rule card_mono) (use one in auto)
  finally have "length ?A \<le> 1" by simp
  with inv_parts(1) [OF inv] one show ?thesis unfolding versions_inv_def by blast
qed

theorem policy_transition_inv_witness:
  "map ch_state (changes demo_begun) = [''applying''] \<and>
   pv_version ` set (policy_versions demo_begun) = {1..top_version (policy_state demo_begun)}"
  using demo_run policy_transition_inv [OF demo_begun_reachable] by (simp add: Let_def)

text \<open>C34. A step-up proof buys one action: over any sequence of governance calls, account and
  session operations, at most one call that presents a proof with a given digest is accepted, be
  it a request, a vote, a claim to apply or a plain consumption.\<close>

theorem stepup_single_use:
  assumes "\<forall>x \<in> set xs. sys_ok x" "proofs_inv d"
  shows "wins_of (accepted_with h) (run_results sys_run xs d) \<le> 1"
  using stepup_use.at_most_one_win [OF assms] .

theorem stepup_single_use_witness:
  "wins_of (accepted_with (pad64 ''a'')) (run_results sys_run (map Gov (take 2 demo_calls @ demo_calls)) demo_db) \<le> 1"
  by (rule stepup_single_use) (auto simp: proofs_inv_def demo_db_def empty_db_def demo_calls_def)

end
