(* ===== verification/Audit_Record.thy ===== *)
theory Audit_Record
  imports Session_Store
begin

text \<open>
  The protected archive's wire contract (\<open>hub/internal/auditrecord\<close>): the strict decoder of
  \<open>json.go\<close>, the records and the validation of \<open>record.go\<close>, and the expectation a receipt is
  verified against (\<open>receipt.go\<close>). The token reader and the typed decoder of \<open>encoding/json\<close>
  are parameters.
\<close>

section \<open>The strict decoder\<close>

text \<open>
  What \<open>json.Decoder.Token\<close> gives: delimiters, texts and other scalars; commas and colons are not
  tokens. A Go type is described as reflection shows it: \<open>GTime\<close> is \<open>time.Time\<close>, a field has its
  name, whether it is exported, its \<open>json\<close> tag, whether it is embedded, and its type.
\<close>

datatype json_token = Delim char | Str string | Atom

datatype go_type = GScalar | GTime | GPtr go_type | GSlice go_type | GArray go_type
  | GStruct "go_field list"
and go_field = Field string bool string bool go_type

fun strip_pointers :: "go_type \<Rightarrow> go_type" where
  "strip_pointers (GPtr t) = strip_pointers t"
| "strip_pointers t = t"

text \<open>\<open>collectFields\<close>; \<open>None\<close> is the panic of reflection on an embedded type that is no struct.\<close>

fun collectFields :: "go_type \<Rightarrow> (string \<rightharpoonup> go_type) \<Rightarrow> (string \<rightharpoonup> go_type) option"
and collect_field :: "go_field list \<Rightarrow> (string \<rightharpoonup> go_type) \<Rightarrow> (string \<rightharpoonup> go_type) option" where
  "collectFields (GStruct fs) out = collect_field fs out"
| "collectFields _ out = None"
| "collect_field [] out = Some out"
| "collect_field (Field name exported raw embedded t # fs) out =
     (let tag = takeWhile (\<lambda>c. c \<noteq> CHR '','') raw in
      if \<not> exported then collect_field fs out
      else if tag = ''-'' then collect_field fs out
      else if embedded \<and> tag = [] then
        (case collectFields t out of None \<Rightarrow> None | Some out' \<Rightarrow> collect_field fs out')
      else collect_field fs (out((if tag = [] then name else tag) \<mapsto> t)))"

text \<open>\<open>More\<close>: another element follows. \<open>close\<close> is the last \<open>Token\<close> of an object or array, which the
  decoder gives only for the matching delimiter.\<close>

definition more :: "json_token list \<Rightarrow> bool" where
  "more ts \<longleftrightarrow> ts \<noteq> [] \<and> hd ts \<noteq> Delim (CHR ''}'') \<and> hd ts \<noteq> Delim (CHR '']'')"

definition close_with :: "char \<Rightarrow> json_token list \<Rightarrow> json_token list option" where
  "close_with c ts = (case ts of t # rest \<Rightarrow> if t = Delim c then Some rest else None | [] \<Rightarrow> None)"

text \<open>The loops of \<open>scan\<close>, over the scan of one level down. Every round takes a token, so a bound
  above the number of tokens never ends them.\<close>

fun scan_fields ::
    "(go_type \<Rightarrow> json_token list \<Rightarrow> json_token list option) \<Rightarrow> nat \<Rightarrow> (string \<rightharpoonup> go_type) \<Rightarrow>
     string list \<Rightarrow> json_token list \<Rightarrow> json_token list option" where
  "scan_fields sc 0 m seen ts = None"
| "scan_fields sc (Suc n) m seen ts =
     (if \<not> more ts then close_with (CHR ''}'') ts
      else case hd ts of
        Str s \<Rightarrow>
          (case m s of
             None \<Rightarrow> None
           | Some ft \<Rightarrow>
               if s \<in> set seen then None
               else case sc ft (tl ts) of
                 None \<Rightarrow> None | Some rest \<Rightarrow> scan_fields sc n m (s # seen) rest)
      | _ \<Rightarrow> None)"

fun scan_items ::
    "(json_token list \<Rightarrow> json_token list option) \<Rightarrow> nat \<Rightarrow> json_token list \<Rightarrow> json_token list option" where
  "scan_items sc 0 ts = None"
| "scan_items sc (Suc n) ts =
     (if \<not> more ts then close_with (CHR '']'') ts
      else case sc ts of None \<Rightarrow> None | Some rest \<Rightarrow> scan_items sc n rest)"

text \<open>\<open>scan\<close> with the levels that remain: depth 0 has 33, depth 33 none.\<close>

primrec scan :: "nat \<Rightarrow> go_type \<Rightarrow> json_token list \<Rightarrow> json_token list option" where
  "scan 0 = (\<lambda>t ts. None)"
| "scan (Suc r) = (\<lambda>t ts.
     case ts of
       [] \<Rightarrow> None
     | Delim c # ts' \<Rightarrow>
         if c = CHR ''{'' then
           (case strip_pointers t of
              GStruct fs \<Rightarrow>
                (case collectFields (GStruct fs) Map.empty of
                   None \<Rightarrow> None | Some m \<Rightarrow> scan_fields (scan r) (Suc (length ts')) m [] ts')
            | _ \<Rightarrow> None)
         else if c = CHR ''['' then
           (case strip_pointers t of
              GSlice e \<Rightarrow> scan_items (scan r e) (Suc (length ts')) ts'
            | GArray e \<Rightarrow> scan_items (scan r e) (Suc (length ts')) ts'
            | _ \<Rightarrow> None)
         else None
     | _ # ts' \<Rightarrow> Some ts')"

text \<open>\<open>Decode\<close> into a value of type \<open>t\<close>: \<open>tokens\<close> gives the tokens of the text and whether the
  reader then reports the end of the input, \<open>typed\<close> is the typed decoder with unknown fields
  refused.\<close>

definition is_struct :: "go_type \<Rightarrow> bool" where
  "is_struct t = (case t of GStruct _ \<Rightarrow> True | GTime \<Rightarrow> True | _ \<Rightarrow> False)"

definition Decode ::
    "(string \<Rightarrow> json_token list \<times> bool) \<Rightarrow> (string \<Rightarrow> 'a option) \<Rightarrow> go_type \<Rightarrow> nat \<Rightarrow> string \<Rightarrow> 'a option" where
  "Decode tokens typed t limit data =
     (if data = [] \<or> limit < length data \<or> \<not> valid_utf8 data then None
      else if is_struct t \<and> take 1 (trim_space data) \<noteq> ''{'' then None
      else case scan 33 t (fst (tokens data)) of
             None \<Rightarrow> None
           | Some rest \<Rightarrow> if rest \<noteq> [] \<or> \<not> snd (tokens data) then None else typed data)"

subsection \<open>What the decoder accepts\<close>

text \<open>A document as a tree, its tokens, and when it fits a type within \<open>r\<close> levels: every object
  stands for a struct, its keys are distinct and each is a field of it.\<close>

datatype json = JStr string | JAtom | JObj "(string \<times> json) list" | JArr "json list"

fun flatten :: "json \<Rightarrow> json_token list" where
  "flatten (JStr s) = [Str s]"
| "flatten JAtom = [Atom]"
| "flatten (JObj kvs) = Delim (CHR ''{'') # concat (map (\<lambda>(k, v). Str k # flatten v) kvs) @ [Delim (CHR ''}'')]"
| "flatten (JArr js) = Delim (CHR ''['') # concat (map flatten js) @ [Delim (CHR '']'')]"

primrec conforms :: "nat \<Rightarrow> go_type \<Rightarrow> json \<Rightarrow> bool" where
  "conforms 0 = (\<lambda>t j. False)"
| "conforms (Suc r) = (\<lambda>t j.
     case j of
       JStr _ \<Rightarrow> True
     | JAtom \<Rightarrow> True
     | JObj kvs \<Rightarrow>
         (case strip_pointers t of
            GStruct fs \<Rightarrow>
              (case collectFields (GStruct fs) Map.empty of
                 None \<Rightarrow> False
               | Some m \<Rightarrow> distinct (map fst kvs) \<and>
                   list_all (\<lambda>(k, v). case m k of None \<Rightarrow> False | Some ft \<Rightarrow> conforms r ft v) kvs)
          | _ \<Rightarrow> False)
     | JArr js \<Rightarrow>
         (case strip_pointers t of
            GSlice e \<Rightarrow> list_all (conforms r e) js
          | GArray e \<Rightarrow> list_all (conforms r e) js
          | _ \<Rightarrow> False))"

lemma flatten_head:
  "\<exists>t ts. flatten j = t # ts \<and> t \<noteq> Delim (CHR ''}'') \<and> t \<noteq> Delim (CHR '']'')"
  by (cases j) auto

lemma more_flatten [simp]: "more (flatten j @ ts)"
  using flatten_head [of j] by (auto simp: more_def)

lemma more_simps [simp]: "\<not> more (Delim (CHR ''}'') # ts)" "\<not> more (Delim (CHR '']'') # ts)" "more (Str s # ts)" "\<not> more []"
  by (auto simp: more_def)

lemma close_with_Some [simp]: "close_with c ts = Some rest \<longleftrightarrow> ts = Delim c # rest"
  by (auto simp: close_with_def split: list.splits)

definition field_tokens :: "(string \<times> json) list \<Rightarrow> json_token list" where
  "field_tokens kvs = concat (map (\<lambda>(k, v). Str k # flatten v) kvs)"

lemma scan_items_sound:
  assumes "\<And>ts rest. sc ts = Some rest \<Longrightarrow> \<exists>j. ts = flatten j @ rest \<and> C j"
    and "scan_items sc n ts = Some rest"
  shows "\<exists>js. ts = concat (map flatten js) @ Delim (CHR '']'') # rest \<and> list_all C js"
  using assms(2)
proof (induction n arbitrary: ts)
  case (Suc n)
  show ?case
  proof (cases "more ts")
    case True
    with Suc.prems obtain mid where mid: "sc ts = Some mid" "scan_items sc n mid = Some rest"
      by (auto split: option.splits)
    obtain j where "ts = flatten j @ mid" "C j" using assms(1) [OF mid(1)] by blast
    moreover obtain js where "mid = concat (map flatten js) @ Delim (CHR '']'') # rest" "list_all C js"
      using Suc.IH [OF mid(2)] by blast
    ultimately show ?thesis by (intro exI [of _ "j # js"]) simp
  next
    case False
    then show ?thesis using Suc.prems by (intro exI [of _ "[]"]) simp
  qed
qed simp

lemma scan_items_complete:
  assumes "\<And>j rest. C j \<Longrightarrow> sc (flatten j @ rest) = Some rest" "list_all C js" "length js < n"
  shows "scan_items sc n (concat (map flatten js) @ Delim (CHR '']'') # rest) = Some rest"
  using assms(2,3)
proof (induction js arbitrary: n)
  case Nil
  then show ?case by (cases n) auto
next
  case (Cons j js)
  then show ?case using assms(1) by (cases n) auto
qed

lemma scan_fields_sound:
  assumes "\<And>ft ts rest. sc ft ts = Some rest \<Longrightarrow> \<exists>j. ts = flatten j @ rest \<and> C ft j"
    and "scan_fields sc n m seen ts = Some rest"
  shows "\<exists>kvs. ts = field_tokens kvs @ Delim (CHR ''}'') # rest \<and> distinct (map fst kvs) \<and>
    set (map fst kvs) \<inter> set seen = {} \<and>
    list_all (\<lambda>(k, v). case m k of None \<Rightarrow> False | Some ft \<Rightarrow> C ft v) kvs"
  using assms(2)
proof (induction n arbitrary: ts seen)
  case (Suc n)
  show ?case
  proof (cases "more ts")
    case True
    with Suc.prems obtain s ft mid where mid: "hd ts = Str s" "m s = Some ft" "s \<notin> set seen"
      "sc ft (tl ts) = Some mid" "scan_fields sc n m (s # seen) mid = Some rest"
      by (auto split: option.splits json_token.splits if_splits)
    obtain j where j: "tl ts = flatten j @ mid" "C ft j" using assms(1) [OF mid(4)] by blast
    obtain kvs where kvs: "mid = field_tokens kvs @ Delim (CHR ''}'') # rest" "distinct (map fst kvs)"
      "set (map fst kvs) \<inter> set (s # seen) = {}"
      "list_all (\<lambda>(k, v). case m k of None \<Rightarrow> False | Some ft \<Rightarrow> C ft v) kvs"
      using Suc.IH [OF mid(5)] by blast
    have "ts = Str s # tl ts" using True mid(1) by (cases ts) (auto simp: more_def)
    with j kvs mid(2,3) show ?thesis
      by (intro exI [of _ "(s, j) # kvs"]) (auto simp: field_tokens_def)
  next
    case False
    then show ?thesis using Suc.prems by (intro exI [of _ "[]"]) (simp add: field_tokens_def)
  qed
qed simp

lemma scan_fields_complete:
  assumes "\<And>ft j rest. C ft j \<Longrightarrow> sc ft (flatten j @ rest) = Some rest"
    and "list_all (\<lambda>(k, v). case m k of None \<Rightarrow> False | Some ft \<Rightarrow> C ft v) kvs"
    and "distinct (map fst kvs)" "set (map fst kvs) \<inter> set seen = {}" "length kvs < n"
  shows "scan_fields sc n m seen (field_tokens kvs @ Delim (CHR ''}'') # rest) = Some rest"
  using assms(2-)
proof (induction kvs arbitrary: n seen)
  case Nil
  then show ?case by (cases n) (auto simp: field_tokens_def)
next
  case (Cons kv kvs)
  obtain k v n' where kv: "kv = (k, v)" "n = Suc n'" using Cons.prems(4) by (cases kv; cases n) auto
  have "scan_fields sc n' m (k # seen) (field_tokens kvs @ Delim (CHR ''}'') # rest) = Some rest"
    using Cons.prems kv by (intro Cons.IH) auto
  then show ?case using Cons.prems assms(1) kv by (auto simp: field_tokens_def split: option.splits)
qed

lemma tokens_bound: "length js \<le> length (concat (map flatten js))" "length kvs \<le> length (field_tokens kvs)"
proof -
  show "length js \<le> length (concat (map flatten js))"
  proof (induction js)
    case (Cons j js)
    then show ?case using flatten_head [of j] by auto
  qed simp
  show "length kvs \<le> length (field_tokens kvs)" by (induction kvs) (auto simp: field_tokens_def)
qed

lemma scan_sound: "scan r t ts = Some rest \<Longrightarrow> \<exists>j. ts = flatten j @ rest \<and> conforms r t j"
proof (induction r arbitrary: t ts rest)
  case (Suc r)
  show ?case
  proof (cases ts)
    case (Cons tok ts')
    show ?thesis
    proof (cases tok)
      case (Delim c)
      consider (obj) fs m where "c = CHR ''{''" "strip_pointers t = GStruct fs"
          "collectFields (GStruct fs) Map.empty = Some m" "scan_fields (scan r) (Suc (length ts')) m [] ts' = Some rest"
        | (arr) e where "c = CHR ''[''" "strip_pointers t = GSlice e \<or> strip_pointers t = GArray e"
          "scan_items (scan r e) (Suc (length ts')) ts' = Some rest"
        using Suc.prems Cons Delim
        by (auto simp del: scan_fields.simps scan_items.simps collectFields.simps
            split: if_splits go_type.splits option.splits)
      then show ?thesis
      proof cases
        case obj
        obtain kvs where "ts' = field_tokens kvs @ Delim (CHR ''}'') # rest" "distinct (map fst kvs)"
          "list_all (\<lambda>(k, v). case m k of None \<Rightarrow> False | Some ft \<Rightarrow> conforms r ft v) kvs"
          using scan_fields_sound [where sc = "scan r" and C = "conforms r", OF Suc.IH obj(4)] by blast
        then show ?thesis using obj Cons Delim
          by (intro exI [of _ "JObj kvs"]) (simp add: field_tokens_def del: collectFields.simps)
      next
        case arr
        obtain js where "ts' = concat (map flatten js) @ Delim (CHR '']'') # rest" "list_all (conforms r e) js"
          using scan_items_sound [where sc = "scan r e" and C = "conforms r e", OF Suc.IH arr(3)] by blast
        then show ?thesis using arr Cons Delim by (intro exI [of _ "JArr js"]) auto
      qed
    next
      case (Str s)
      then show ?thesis using Suc.prems Cons by (intro exI [of _ "JStr s"]) auto
    next
      case Atom
      then show ?thesis using Suc.prems Cons by (intro exI [of _ JAtom]) auto
    qed
  qed (use Suc.prems in simp)
qed simp

lemma scan_complete: "conforms r t j \<Longrightarrow> scan r t (flatten j @ rest) = Some rest"
proof (induction r arbitrary: t j rest)
  case (Suc r)
  show ?case
  proof (cases j)
    case (JObj kvs)
    then obtain fs m where m: "strip_pointers t = GStruct fs" "collectFields (GStruct fs) Map.empty = Some m"
      "distinct (map fst kvs)" "list_all (\<lambda>(k, v). case m k of None \<Rightarrow> False | Some ft \<Rightarrow> conforms r ft v) kvs"
      using Suc.prems by (auto simp del: collectFields.simps split: go_type.splits option.splits)
    let ?ts = "field_tokens kvs @ Delim (CHR ''}'') # rest"
    have "scan_fields (scan r) (Suc (length ?ts)) m [] ?ts = Some rest"
      by (rule scan_fields_complete [where C = "conforms r", OF Suc.IH m(4,3)])
        (use tokens_bound(2) [of kvs] in auto)
    then show ?thesis using m(1,2) JObj by (simp add: field_tokens_def del: scan_fields.simps collectFields.simps)
  next
    case (JArr js)
    then obtain e where e: "strip_pointers t = GSlice e \<or> strip_pointers t = GArray e" "list_all (conforms r e) js"
      using Suc.prems by (auto split: go_type.splits)
    let ?ts = "concat (map flatten js) @ Delim (CHR '']'') # rest"
    have "scan_items (scan r e) (Suc (length ?ts)) ?ts = Some rest"
      by (rule scan_items_complete [where C = "conforms r e", OF Suc.IH e(2)])
        (use tokens_bound(1) [of js] in auto)
    then show ?thesis using e(1) JArr by (auto simp del: scan_items.simps)
  qed auto
qed simp

lemma scan_exact: "scan r t ts = Some rest \<longleftrightarrow> (\<exists>j. ts = flatten j @ rest \<and> conforms r t j)"
  using scan_sound scan_complete by blast

subsection \<open>Property\<close>

text \<open>C36. The strict decoder accepts exactly the unambiguous documents. Decoding into a type succeeds
  precisely on non-empty UTF-8 text within the size limit whose tokens, to the end of the input, are
  those of one tree of at most 33 levels in which every object stands for a struct, has no key
  twice at any level and only keys that are fields of that struct, every array stands for a slice
  or an array, a struct's text begins with a brace, and the typed decoder accepts it.\<close>

theorem Decode_exact:
  "Decode tokens typed t limit data = Some v \<longleftrightarrow>
     data \<noteq> [] \<and> length data \<le> limit \<and> valid_utf8 data \<and> (is_struct t \<longrightarrow> take 1 (trim_space data) = ''{'') \<and>
     (\<exists>j. tokens data = (flatten j, True) \<and> conforms 33 t j) \<and> typed data = Some v"
proof -
  have "(\<exists>j. tokens data = (flatten j, True) \<and> conforms 33 t j) \<longleftrightarrow>
      scan 33 t (fst (tokens data)) = Some [] \<and> snd (tokens data)"
    by (cases "tokens data") (auto simp del: scan.simps conforms.simps simp: scan_exact)
  then show ?thesis
    by (auto simp: Decode_def not_less simp del: scan.simps conforms.simps split: if_splits option.splits)
qed

definition demo_tokens :: "string \<Rightarrow> json_token list \<times> bool" where
  "demo_tokens s = (if s = ''{\"id\":1}'' then ([Delim (CHR ''{''), Str ''id'', Atom, Delim (CHR ''}'')], True)
     else ([Delim (CHR ''{''), Str ''id'', Atom, Str ''id'', Atom, Delim (CHR ''}'')], True))"

theorem Decode_exact_witness:
  "Decode demo_tokens (\<lambda>_. Some ()) (GStruct [Field ''ID'' True ''id'' False GScalar]) 100 ''{\"id\":1}'' = Some ()"
proof (subst Decode_exact, intro conjI)
  show "\<exists>j. demo_tokens ''{\"id\":1}'' = (flatten j, True) \<and>
      conforms 33 (GStruct [Field ''ID'' True ''id'' False GScalar]) j"
    by (intro exI [of _ "JObj [(''id'', JAtom)]"]) (simp add: demo_tokens_def numeral_eq_Suc)
  show "valid_utf8 ''{\"id\":1}''"
    and "is_struct (GStruct [Field ''ID'' True ''id'' False GScalar]) \<longrightarrow> take 1 (trim_space ''{\"id\":1}'') = ''{''"
    by code_simp+
qed simp_all

section \<open>Records\<close>

definition SchemaVersion :: int where "SchemaVersion = 1"
definition MaxEnvelopeBytes :: nat where "MaxEnvelopeBytes = 131072"
definition MaxRecordCommandBytes :: nat where "MaxRecordCommandBytes = 32768"
definition MaxAttachmentBytes :: int where "MaxAttachmentBytes = 16777216"
definition MaxAttachments :: nat where "MaxAttachments = 4"
definition MaxReceiptBytes :: nat where "MaxReceiptBytes = 16384"

definition ExecutionAdmission :: string where "ExecutionAdmission = ''execution.admission''"
definition ExecutionLifecycle :: string where "ExecutionLifecycle = ''execution.lifecycle''"
definition ExecutionDenial :: string where "ExecutionDenial = ''execution.denial''"
definition PolicyIntent :: string where "PolicyIntent = ''policy.intent''"
definition PolicyCommit :: string where "PolicyCommit = ''policy.commit''"
definition PolicyResult :: string where "PolicyResult = ''policy.result''"
definition OriginalReadIntent :: string where "OriginalReadIntent = ''original_read.intent''"
definition OriginalReadResult :: string where "OriginalReadResult = ''original_read.result''"
definition PolicyAnchorType :: string where "PolicyAnchorType = ''policy.anchor''"

lemmas event_types = ExecutionAdmission_def ExecutionLifecycle_def ExecutionDenial_def PolicyIntent_def
  PolicyCommit_def PolicyResult_def OriginalReadIntent_def OriginalReadResult_def PolicyAnchorType_def

text \<open>Unsigned values are naturals; a decoded one is below the bound of its width.\<close>

record Actor =
  ac_UserID :: string
  ac_PersonID :: string
  ac_Name :: string
  ac_Provider :: string
  ac_Subject :: string

record ActorIdentity =
  xi_Username :: string
  xi_UID :: nat
  xi_GID :: nat
  xi_Groups :: "nat list"
  xi_GroupsSHA256 :: string
  xi_IdentitySHA256 :: string
  xi_Home :: string
  xi_Shell :: string
  xi_CWD :: string

record Limits =
  xl_MaxFrameBytes :: nat
  xl_MaxBufferBytes :: nat
  xl_RuntimeSeconds :: nat
  xl_TermGraceSeconds :: nat
  xl_BlockedConsumerSeconds :: nat

record RecordBinding =
  xb_ExecutionID :: string
  xb_PreparationID :: string
  xb_BootID :: string
  xb_NodeID :: string
  xb_NodeName :: string
  xb_Identity :: ActorIdentity
  xb_CommandSHA256 :: string
  xb_CommandBytes :: int
  xb_ScriptSHA256 :: string
  xb_ScriptBytes :: int
  xb_PreparedUntil :: go_time
  xb_Limits :: Limits

record SubmissionBinding =
  sb_NodeID :: string
  sb_NodeName :: string
  sb_CommandSHA256 :: string
  sb_CommandBytes :: int
  sb_ScriptSHA256 :: string
  sb_ScriptBytes :: int

record Attachment =
  at_ID :: string
  at_SHA256 :: string
  at_Bytes :: int

record OriginalDelivery =
  od_BytesWritten :: "int option"
  od_Scope :: string

record ApprovalEvidence =
  av_UserID :: string
  av_PersonID :: string
  av_StepupProofSHA256 :: string
  av_ApprovedAt :: go_time

record ObjectRef =
  ob_Bucket :: string
  ob_Key :: string
  ob_VersionID :: string
  ob_SHA256 :: string
  ob_Bytes :: int
  ob_RetainUntil :: go_time

record Details =
  dt_Delivery :: "OriginalDelivery option"
  dt_Submission :: "SubmissionBinding option"
  dt_InstallationID :: string
  dt_Requester :: "Actor option"
  dt_CorrelationID :: string
  dt_RequestID :: string
  dt_RequestSHA256 :: string
  dt_ExpectedPolicyVersion :: nat
  dt_NewPolicyVersion :: nat
  dt_SessionSHA256 :: string
  dt_Reason :: string
  dt_State :: string
  dt_ExitCode :: "int option"
  dt_Originals :: "ObjectRef list"
  dt_ApproverPersonIDs :: "string list"
  dt_ApprovedChange :: string
  dt_Approvals :: "ApprovalEvidence list"

record Envelope =
  en_SchemaVersion :: int
  en_EventID :: string
  en_EventType :: string
  en_Actor :: Actor
  en_Execution :: "RecordBinding option"
  en_PolicyVersion :: nat
  en_PolicySHA256 :: string
  en_OccurredAt :: go_time
  en_Command :: string
  en_Attachments :: "Attachment list"
  en_Details :: "Details option"

record Expected =
  xp_EventID :: string
  xp_EventType :: string
  xp_RecordSHA256 :: string
  xp_ActorSHA256 :: string
  xp_BindingSHA256 :: string
  xp_PolicyVersion :: nat
  xp_PolicySHA256 :: string
  xp_Execution :: "RecordBinding option"
  xp_MinRetainUntil :: go_time
  xp_Nonce :: string

section \<open>Validation\<close>

definition id_char :: "char \<Rightarrow> bool" where
  "id_char c \<longleftrightarrow> byte_in 97 122 c \<or> byte_in 65 90 c \<or> is_digit c \<or> c \<in> set ''-_.:''"

definition ValidID :: "string \<Rightarrow> bool" where
  "ValidID s \<longleftrightarrow> \<not> (length s = 0 \<or> 128 < length s) \<and> list_all id_char s"

definition bounded :: "string \<Rightarrow> nat \<Rightarrow> bool" where
  "bounded s n \<longleftrightarrow> length s \<le> n \<and> valid_utf8 s \<and> CHR 0x00 \<notin> set s"

definition ObjectRef_Valid :: "ObjectRef \<Rightarrow> bool" where
  "ObjectRef_Valid r \<longleftrightarrow>
     0 < length (ob_Bucket r) \<and> length (ob_Bucket r) \<le> 128 \<and> 0 < length (ob_Key r) \<and>
     length (ob_Key r) \<le> 1024 \<and> 0 < length (ob_VersionID r) \<and> ob_VersionID r \<noteq> ''null'' \<and>
     length (ob_VersionID r) \<le> 1024 \<and> ValidHash (ob_SHA256 r) \<and> 0 \<le> ob_Bytes r \<and>
     ob_RetainUntil r \<noteq> zero_time"

definition Actor_Valid :: "Actor \<Rightarrow> bool" where
  "Actor_Valid a \<longleftrightarrow> ValidID (ac_UserID a) \<and> ValidID (ac_PersonID a) \<and> bounded (ac_Name a) 256 \<and>
     bounded (ac_Provider a) 128 \<and> bounded (ac_Subject a) 512"

text \<open>\<open>Envelope.Validate\<close> in the order of its parts; every refusal is \<open>ErrSchema\<close>. \<open>sha\<close> is
  hexadecimal SHA-256.\<close>

definition header_ok :: "Envelope \<Rightarrow> bool" where
  "header_ok e \<longleftrightarrow>
     en_SchemaVersion e = SchemaVersion \<and> ValidID (en_EventID e) \<and> Actor_Valid (en_Actor e) \<and>
     en_PolicyVersion e \<noteq> 0 \<and> ValidHash (en_PolicySHA256 e) \<and> en_OccurredAt e \<noteq> zero_time \<and>
     en_EventType e \<in> {ExecutionAdmission, ExecutionLifecycle, ExecutionDenial, PolicyIntent, PolicyCommit,
        PolicyResult, OriginalReadIntent, OriginalReadResult, PolicyAnchorType} \<and>
     length (en_Command e) \<le> MaxRecordCommandBytes \<and> valid_utf8 (en_Command e) \<and>
     CHR 0x00 \<notin> set (en_Command e) \<and> length (en_Attachments e) \<le> MaxAttachments"

fun attachments_ok :: "string list \<Rightarrow> int \<Rightarrow> Attachment list \<Rightarrow> bool" where
  "attachments_ok seen acc [] \<longleftrightarrow> acc \<le> MaxAttachmentBytes"
| "attachments_ok seen acc (a # as) \<longleftrightarrow>
     (if \<not> ValidID (at_ID a) \<or> \<not> ValidHash (at_SHA256 a) \<or> at_Bytes a < 0 \<or>
         MaxAttachmentBytes < at_Bytes a \<or> at_ID a \<in> set seen
      then False else attachments_ok (at_ID a # seen) (acc + at_Bytes a) as)"

definition script_field_ok :: "string \<Rightarrow> int \<Rightarrow> bool" where
  "script_field_ok sha256 n \<longleftrightarrow> 0 \<le> n \<and> n \<le> MaxAttachmentBytes \<and> (sha256 \<noteq> [] \<longrightarrow> ValidHash sha256) \<and>
     (sha256 = [] \<longrightarrow> n = 0)"

definition absolute_path :: "string \<Rightarrow> bool" where
  "absolute_path p \<longleftrightarrow> bounded p 4096 \<and> take 1 p = ''/''"

definition execution_ok :: "RecordBinding \<Rightarrow> bool" where
  "execution_ok x \<longleftrightarrow>
     (let i = xb_Identity x; l = xb_Limits x in
      ValidID (xb_ExecutionID x) \<and> ValidID (xb_PreparationID x) \<and> ValidID (xb_BootID x) \<and>
      ValidID (xb_NodeID x) \<and> bounded (xb_NodeName x) 256 \<and> bounded (xi_Username i) 128 \<and>
      xi_Username i \<noteq> [] \<and> ValidHash (xi_GroupsSHA256 i) \<and> ValidHash (xi_IdentitySHA256 i) \<and>
      length (xi_Groups i) \<le> 1024 \<and> absolute_path (xi_Home i) \<and> absolute_path (xi_Shell i) \<and>
      absolute_path (xi_CWD i) \<and> ValidHash (xb_CommandSHA256 x) \<and> 1 \<le> xb_CommandBytes x \<and>
      xb_CommandBytes x \<le> int MaxRecordCommandBytes \<and> xb_PreparedUntil x \<noteq> zero_time \<and>
      xl_MaxFrameBytes l \<noteq> 0 \<and> xl_MaxFrameBytes l \<le> 65536 \<and> xl_MaxFrameBytes l \<le> xl_MaxBufferBytes l \<and>
      xl_MaxBufferBytes l \<le> 2097152 \<and> xl_RuntimeSeconds l \<noteq> 0 \<and> xl_TermGraceSeconds l \<noteq> 0 \<and>
      xl_BlockedConsumerSeconds l \<noteq> 0 \<and> script_field_ok (xb_ScriptSHA256 x) (xb_ScriptBytes x))"

definition admission_ok :: "(string \<Rightarrow> string) \<Rightarrow> Envelope \<Rightarrow> bool" where
  "admission_ok sha e \<longleftrightarrow>
     (if en_EventType e = ExecutionAdmission then
        (case en_Execution e of
           None \<Rightarrow> False
         | Some x \<Rightarrow>
             en_Command e \<noteq> [] \<and> int (length (en_Command e)) = xb_CommandBytes x \<and>
             sha (en_Command e) = xb_CommandSHA256 x \<and>
             (if xb_ScriptSHA256 x \<noteq> [] then
                en_Attachments e = [\<lparr>at_ID = ''script'', at_SHA256 = xb_ScriptSHA256 x, at_Bytes = xb_ScriptBytes x\<rparr>]
              else en_Attachments e = []))
      else en_Command e = [] \<and> en_Attachments e = [])"

definition kind_ok :: "Envelope \<Rightarrow> bool" where
  "kind_ok e \<longleftrightarrow>
     (take 7 (en_EventType e) = ''policy.'' \<longrightarrow> en_Execution e = None) \<and>
     (en_EventType e = ExecutionDenial \<longrightarrow> en_Execution e = None \<and>
        (case en_Details e of None \<Rightarrow> False
         | Some d \<Rightarrow> dt_State d \<noteq> [] \<and> dt_Reason d = [] \<and> dt_Submission d \<noteq> None)) \<and>
     (en_EventType e = ExecutionLifecycle \<longrightarrow> en_Execution e \<noteq> None)"

definition delivery_ok :: "Envelope \<Rightarrow> Details \<Rightarrow> OriginalDelivery \<Rightarrow> bool" where
  "delivery_ok e d v \<longleftrightarrow>
     en_EventType e = OriginalReadResult \<and> en_Execution e = None \<and> od_Scope v = ''hub_response'' \<and>
     dt_State d \<in> {''started'', ''completed'', ''interrupted'', ''unconfirmed'', ''expired''} \<and>
     (case od_BytesWritten v of
        None \<Rightarrow> dt_State d = ''unconfirmed''
      | Some n \<Rightarrow> 0 \<le> n \<and> n \<le> MaxAttachmentBytes \<and> (dt_State d = ''started'' \<longrightarrow> n = 0))"

definition submission_ok :: "Envelope \<Rightarrow> SubmissionBinding \<Rightarrow> bool" where
  "submission_ok e x \<longleftrightarrow>
     en_EventType e = ExecutionDenial \<and> ValidID (sb_NodeID x) \<and> bounded (sb_NodeName x) 256 \<and>
     ValidHash (sb_CommandSHA256 x) \<and> 1 \<le> sb_CommandBytes x \<and> sb_CommandBytes x \<le> int MaxRecordCommandBytes \<and>
     script_field_ok (sb_ScriptSHA256 x) (sb_ScriptBytes x)"

definition approval_evidence_ok :: "ApprovalEvidence \<Rightarrow> bool" where
  "approval_evidence_ok a \<longleftrightarrow> ValidID (av_UserID a) \<and> ValidID (av_PersonID a) \<and>
     ValidHash (av_StepupProofSHA256 a) \<and> av_ApprovedAt a \<noteq> zero_time"

definition details_ok :: "Envelope \<Rightarrow> Details \<Rightarrow> bool" where
  "details_ok e d \<longleftrightarrow>
     (case dt_Delivery d of None \<Rightarrow> True | Some v \<Rightarrow> delivery_ok e d v) \<and>
     (case dt_Submission d of None \<Rightarrow> True | Some x \<Rightarrow> submission_ok e x) \<and>
     (case dt_Requester d of None \<Rightarrow> True | Some a \<Rightarrow> Actor_Valid a) \<and>
     ValidID (dt_CorrelationID d) \<and> bounded (dt_Reason d) 4096 \<and> bounded (dt_State d) 64 \<and>
     length (dt_Originals d) \<le> 16 \<and> length (dt_ApproverPersonIDs d) \<le> 16 \<and>
     length (dt_ApprovedChange d) \<le> 65536 \<and> length (dt_Approvals d) \<le> 16 \<and>
     (dt_RequestID d \<noteq> [] \<longrightarrow> ValidID (dt_RequestID d)) \<and>
     (dt_RequestSHA256 d \<noteq> [] \<longrightarrow> ValidHash (dt_RequestSHA256 d)) \<and>
     (dt_SessionSHA256 d \<noteq> [] \<longrightarrow> ValidHash (dt_SessionSHA256 d)) \<and>
     list_all ValidID (dt_ApproverPersonIDs d) \<and> list_all ObjectRef_Valid (dt_Originals d) \<and>
     list_all approval_evidence_ok (dt_Approvals d)"

definition max_uint64 :: nat where "max_uint64 = 18446744073709551615"

definition type_ok :: "(string \<Rightarrow> string) \<Rightarrow> Envelope \<Rightarrow> bool" where
  "type_ok sha e \<longleftrightarrow>
     (if en_EventType e \<in> {PolicyIntent, PolicyCommit, PolicyResult, PolicyAnchorType} then
        (case en_Details e of
           None \<Rightarrow> False
         | Some d \<Rightarrow>
             ValidID (dt_RequestID d) \<and> ValidHash (dt_RequestSHA256 d) \<and>
             (en_EventType e = PolicyIntent \<longrightarrow>
                dt_Requester d \<noteq> None \<and> dt_Reason d \<noteq> [] \<and> dt_ApprovedChange d \<noteq> [] \<and>
                sha (dt_ApprovedChange d) = dt_RequestSHA256 d \<and> 2 \<le> length (dt_Approvals d)) \<and>
             (en_EventType e = PolicyAnchorType \<longrightarrow>
                ValidID (dt_InstallationID d) \<and> dt_ExpectedPolicyVersion d \<noteq> 0 \<and>
                dt_ExpectedPolicyVersion d \<noteq> max_uint64 \<and>
                dt_NewPolicyVersion d = dt_ExpectedPolicyVersion d + 1 \<and>
                en_PolicyVersion e = dt_NewPolicyVersion d \<and> dt_ApprovedChange d = []))
      else if en_EventType e \<in> {OriginalReadIntent, OriginalReadResult} then
        (case en_Details e of
           None \<Rightarrow> False
         | Some d \<Rightarrow> ValidHash (dt_SessionSHA256 d) \<and> dt_Originals d \<noteq> [] \<and> dt_Reason d \<noteq> [])
      else True)"

definition Envelope_Validate :: "(string \<Rightarrow> string) \<Rightarrow> Envelope \<Rightarrow> bool" where
  "Envelope_Validate sha e \<longleftrightarrow>
     header_ok e \<and> attachments_ok [] 0 (en_Attachments e) \<and>
     (case en_Execution e of None \<Rightarrow> True | Some x \<Rightarrow> execution_ok x) \<and>
     admission_ok sha e \<and> kind_ok e \<and>
     (case en_Details e of None \<Rightarrow> True | Some d \<Rightarrow> details_ok e d) \<and> type_ok sha e"

section \<open>Types as the decoder sees them\<close>

definition tagged :: "string \<Rightarrow> go_type \<Rightarrow> go_field" where
  "tagged t ty = Field [] True t False ty"

definition actor_type :: go_type where
  "actor_type = GStruct (map (\<lambda>t. tagged t GScalar) [''user_id'', ''person_id'', ''name'', ''provider'', ''subject''])"

definition identity_type :: go_type where
  "identity_type = GStruct [tagged ''username'' GScalar, tagged ''uid'' GScalar, tagged ''gid'' GScalar,
     tagged ''groups'' (GSlice GScalar), tagged ''groups_sha256'' GScalar, tagged ''identity_sha256'' GScalar,
     tagged ''home'' GScalar, tagged ''shell'' GScalar, tagged ''cwd'' GScalar]"

definition limits_type :: go_type where
  "limits_type = GStruct (map (\<lambda>t. tagged t GScalar) [''max_frame_bytes'', ''max_buffer_bytes'',
     ''runtime_seconds'', ''term_grace_seconds'', ''blocked_consumer_seconds''])"

definition execution_type :: go_type where
  "execution_type = GStruct [tagged ''execution_id'' GScalar, tagged ''preparation_id'' GScalar,
     tagged ''boot_id'' GScalar, tagged ''node_id'' GScalar, tagged ''node_name'' GScalar,
     tagged ''identity'' identity_type, tagged ''command_sha256'' GScalar, tagged ''command_bytes'' GScalar,
     tagged ''script_sha256,omitempty'' GScalar, tagged ''script_bytes,omitempty'' GScalar,
     tagged ''prepared_until'' GTime, tagged ''limits'' limits_type]"

definition object_ref_type :: go_type where
  "object_ref_type = GStruct [tagged ''bucket'' GScalar, tagged ''key'' GScalar, tagged ''version_id'' GScalar,
     tagged ''sha256'' GScalar, tagged ''bytes'' GScalar, tagged ''retain_until'' GTime]"

definition details_type :: go_type where
  "details_type = GStruct
     [tagged ''delivery,omitempty'' (GPtr (GStruct [tagged ''bytes_written'' (GPtr GScalar), tagged ''scope'' GScalar])),
      tagged ''submission,omitempty'' (GPtr (GStruct (map (\<lambda>t. tagged t GScalar) [''node_id'', ''node_name'',
        ''command_sha256'', ''command_bytes'', ''script_sha256,omitempty'', ''script_bytes,omitempty'']))),
      tagged ''installation_id,omitempty'' GScalar, tagged ''requester,omitempty'' (GPtr actor_type),
      tagged ''correlation_id'' GScalar, tagged ''request_id,omitempty'' GScalar,
      tagged ''request_sha256,omitempty'' GScalar, tagged ''expected_policy_version,omitempty'' GScalar,
      tagged ''new_policy_version,omitempty'' GScalar, tagged ''session_sha256,omitempty'' GScalar,
      tagged ''reason,omitempty'' GScalar, tagged ''state,omitempty'' GScalar,
      tagged ''exit_code,omitempty'' (GPtr GScalar), tagged ''originals,omitempty'' (GSlice object_ref_type),
      tagged ''approver_person_ids,omitempty'' (GSlice GScalar), tagged ''approved_change,omitempty'' (GSlice GScalar),
      tagged ''approvals,omitempty'' (GSlice (GStruct [tagged ''user_id'' GScalar, tagged ''person_id'' GScalar,
        tagged ''stepup_proof_sha256'' GScalar, tagged ''approved_at'' GTime]))]"

definition envelope_type :: go_type where
  "envelope_type = GStruct [tagged ''schema_version'' GScalar, tagged ''event_id'' GScalar,
     tagged ''event_type'' GScalar, tagged ''actor'' actor_type, tagged ''execution,omitempty'' (GPtr execution_type),
     tagged ''policy_version'' GScalar, tagged ''policy_sha256'' GScalar, tagged ''occurred_at'' GTime,
     tagged ''command,omitempty'' (GSlice GScalar),
     tagged ''attachments,omitempty'' (GSlice (GStruct (map (\<lambda>t. tagged t GScalar) [''id'', ''sha256'', ''bytes'']))),
     tagged ''details,omitempty'' (GPtr details_type)]"

section \<open>Expectations\<close>

text \<open>
  The codec: hexadecimal SHA-256, the token reader, the typed decoder of an envelope, and the JSON
  texts whose hashes a receipt carries.
\<close>

record codec =
  k_sha :: "string \<Rightarrow> string"
  k_tokens :: "string \<Rightarrow> json_token list \<times> bool"
  k_envelope :: "string \<Rightarrow> Envelope option"
  k_actor_json :: "Actor \<Rightarrow> string"
  k_binding_json :: "RecordBinding option \<times> Details option \<Rightarrow> string"

definition ExpectedFor :: "codec \<Rightarrow> string \<Rightarrow> (Expected \<times> Envelope) option" where
  "ExpectedFor k data =
     (case Decode (k_tokens k) (k_envelope k) envelope_type MaxEnvelopeBytes data of
        None \<Rightarrow> None
      | Some e \<Rightarrow>
          if \<not> Envelope_Validate (k_sha k) e then None
          else Some (\<lparr>xp_EventID = en_EventID e, xp_EventType = en_EventType e,
            xp_RecordSHA256 = k_sha k data, xp_ActorSHA256 = k_sha k (k_actor_json k (en_Actor e)),
            xp_BindingSHA256 = k_sha k (k_binding_json k (en_Execution e, en_Details e)),
            xp_PolicyVersion = en_PolicyVersion e, xp_PolicySHA256 = en_PolicySHA256 e,
            xp_Execution = en_Execution e, xp_MinRetainUntil = zero_time, xp_Nonce = []\<rparr>, e))"

end
