(* ===== verification/Authorization.thy ===== *)
theory Authorization
  imports Governance Audit_Record
begin

text \<open>
  The authorization service (\<open>hub/internal/authorization/authorization.go\<close>): effective
  capabilities, the execution policy and the interactive guard, the validation of typed security
  changes, and requests, approvals and the quorum over the governance store.
\<close>

section \<open>Environment\<close>

text \<open>What the service reports; \<open>AInvalid\<close> carries the text of an error made on the spot,
  \<open>AExternal\<close> an error of the evidence service.\<close>

datatype auth_error = AStore store_error | ErrDenied | ErrIndependent | ErrInteractive | ErrTransition
  | ErrNotReady | AInvalid string | ErrNotExist | ErrOS | ErrAnchorNotFound | AExternal

abbreviation ErrRecovery :: auth_error where "ErrRecovery \<equiv> AStore ErrPolicyRecovery"

type_synonym 'a result = "auth_error + 'a"

definition lift_store :: "store_error + 'a \<Rightarrow> 'a result" where
  "lift_store r = (case r of Inl e \<Rightarrow> Inl (AStore e) | Inr v \<Rightarrow> Inr v)"

record Proposal =
  pp_Reason :: string
  pp_ExpectedVersion :: nat
  pp_Change :: string

record Preview =
  pw_Digest :: string
  pw_Proposal :: Proposal
  pw_Bytes :: string

text \<open>
  The surroundings of a call: the codec of the store (\<open>au_gov\<close>) and of records (\<open>au_codec\<close>), the
  typed JSON decoders and encoders, and for the \<open>j\<close>-th call which of its statements fail, which
  configuration keys cannot be read, the clock and, for a write, its whole environment
  (\<open>au_write\<close>; the codec is always that of \<open>au_gov\<close>).
\<close>

record auth_env =
  au_gov :: gov_env
  au_codec :: codec
  au_payload :: "string \<Rightarrow> SecurityChangePayload option"
  au_approved :: "string \<Rightarrow> (string \<times> nat \<times> SecurityChangePayload) option"
  au_payload_json :: "SecurityChangePayload \<Rightarrow> string option"
  au_proposal_json :: "Proposal \<Rightarrow> string option"
  au_db :: "nat \<Rightarrow> db_faults"
  au_cfg :: "nat \<Rightarrow> string \<Rightarrow> bool"
  au_now :: "nat \<Rightarrow> go_time"
  au_write :: "nat \<Rightarrow> gov_env"
  au_uuid :: string
  au_config_err :: "auth_error option"
  au_bound :: "(string \<times> policy_validator) option"

definition write_env :: "auth_env \<Rightarrow> nat \<Rightarrow> gov_env" where
  "write_env env j = (au_gov env)\<lparr>g_fresh := g_fresh (au_write env j), g_tx := g_tx (au_write env j),
     g_db := g_db (au_write env j), g_cfg := g_cfg (au_write env j), g_clock := g_clock (au_write env j),
     g_wall := g_wall (au_write env j)\<rparr>"

definition Digest :: "auth_env \<Rightarrow> string \<Rightarrow> string" where
  "Digest env raw = SecurityDigest (au_gov env) raw"

definition GetUserByID :: "bool \<Rightarrow> string \<Rightarrow> db \<Rightarrow> store_error + user_row" where
  "GetUserByID fault i d =
     (if fault then Inl DbError else case find_user d i of None \<Rightarrow> Inl UserNotFound | Some u \<Rightarrow> Inr u)"

section \<open>Effective capabilities\<close>

definition AuthProviderLDAP :: string where "AuthProviderLDAP = ''ldap''"

definition role_capabilities :: "string \<Rightarrow> string list" where
  "role_capabilities r =
     (if r = RoleAdmin then [''operations.admin'', ''audit.read'', ''security.bootstrap'']
      else if r = RoleAuditor then [''audit.read'']
      else if r = RoleSecurityOfficer then [''security.request'', ''security.read'', ''security.apply'', ''security.test'']
      else if r = RoleSecurityApprover then [''security.approve'', ''security.read'']
      else if r = RoleOriginalReader then [''audit.original.read'', ''audit.read'']
      else [])"

definition capability_order :: "string list" where
  "capability_order = [''nodes.read'', ''operations.admin'', ''audit.read'', ''terminal.execute'',
     ''security.bootstrap'', ''security.read'', ''security.request'', ''security.approve'',
     ''security.apply'', ''security.test'', ''audit.original.read'']"

definition capabilities :: "string list \<Rightarrow> user_row \<Rightarrow> string list" where
  "capabilities rs u =
     (let caps = ''nodes.read'' # concat (map role_capabilities rs);
          caps' = (if ''operations.admin'' \<in> set caps \<or> u_auth_provider u = AuthProviderLDAP \<and> u_terminal_access u
                   then ''terminal.execute'' # caps else caps) in
      filter (\<lambda>c. c \<in> set caps') capability_order)"

text \<open>Statements of the call: 0 the account, 1 its roles, 2 its person.\<close>

definition Effective :: "auth_env \<Rightarrow> nat \<Rightarrow> string \<Rightarrow> db \<Rightarrow> EffectiveCapabilities result" where
  "Effective env j user d =
     (case GetUserByID (au_db env j 0) user d of
        Inl _ \<Rightarrow> Inl ErrDenied
      | Inr u \<Rightarrow>
         (case AccountPolicy (au_cfg env j) d of
            Inl _ \<Rightarrow> Inl ErrDenied
          | Inr p \<Rightarrow>
              if Refusal (Evaluate_account (input_of_row u) (au_now env j) p) \<noteq> None then Inl ErrDenied
              else case UserRoles (au_db env j 1) user d of
                Inl e \<Rightarrow> Inl (AStore e)
              | Inr rs \<Rightarrow>
                 (case PersonForUser (au_db env j 2) user d of
                    Inl e \<Rightarrow> Inl (AStore e)
                  | Inr person \<Rightarrow> Inr \<lparr>ec_UserID = user, ec_PersonID = person, ec_Roles = rs,
                                   ec_Capabilities = capabilities rs u\<rparr>)))"

section \<open>Execution policy\<close>

definition covered_by :: "PolicyVersion option \<Rightarrow> string \<Rightarrow> string \<Rightarrow> bool" where
  "covered_by v actor node = (case v of None \<Rightarrow> False | Some p \<Rightarrow> Covers (pv_Policy p) actor node)"

definition effective_runtime :: "PolicyState \<Rightarrow> go_int" where
  "effective_runtime st =
     (let r = RuntimeSeconds (pv_Policy (st_Active st)) in
      case st_Pending st of
        None \<Rightarrow> r
      | Some p \<Rightarrow> (let q = RuntimeSeconds (pv_Policy p) in if 0 < q \<and> (r \<le> 0 \<or> q < r) then q else r))"

definition zero_execution_policy :: ExecutionPolicy where
  "zero_execution_policy = \<lparr>ep_Version = 0, ep_SHA256 = [], ep_Enhanced = False, ep_RuntimeSeconds = 0,
     ep_RecoveryRequired = False\<rparr>"

text \<open>The policy and the error that comes with it; call \<open>j\<close> reads the state and \<open>j + 1\<close>
  validates it.\<close>

definition PolicyForExecution ::
    "auth_env \<Rightarrow> nat \<Rightarrow> string \<Rightarrow> string \<Rightarrow> db \<Rightarrow> ExecutionPolicy \<times> auth_error option" where
  "PolicyForExecution env j actor node d =
     (case au_config_err env of
        Some e \<Rightarrow> (zero_execution_policy, Some e)
      | None \<Rightarrow>
         (case GetPolicyState (au_gov env) (au_db env j) d of
            Inl e \<Rightarrow> (zero_execution_policy, Some (AStore e))
          | Inr st \<Rightarrow>
             (let p0 = \<lparr>ep_Version = pv_Version (st_Active st), ep_SHA256 = pv_SHA256 (st_Active st),
                 ep_Enhanced = False, ep_RuntimeSeconds = RuntimeSeconds (pv_Policy (st_Active st)),
                 ep_RecoveryRequired = st_State st = ''recovery_required''\<rparr> in
              case ValidateExecutionPolicy (au_gov env) (au_db env (j + 1) 0) (au_bound env) st d of
                Some e \<Rightarrow> (p0, Some (AStore e))
              | None \<Rightarrow>
                 (let enhanced = Covers (pv_Policy (st_Active st)) actor node \<or>
                        covered_by (st_Pending st) actor node \<or> covered_by (st_Previous st) actor node;
                      p = p0\<lparr>ep_Enhanced := enhanced, ep_RuntimeSeconds := effective_runtime st\<rparr> in
                  (p, if enhanced \<and> st_Pending st \<noteq> None then Some ErrTransition
                      else if ep_RecoveryRequired p then Some ErrRecovery else None)))))"

definition GuardInteractive :: "auth_env \<Rightarrow> nat \<Rightarrow> string \<Rightarrow> string \<Rightarrow> db \<Rightarrow> auth_error option" where
  "GuardInteractive env j actor node d =
     (case PolicyForExecution env j actor node d of
        (_, Some e) \<Rightarrow> Some e
      | (p, None) \<Rightarrow> if ep_Enhanced p then Some ErrInteractive else None)"

section \<open>Typed changes\<close>

definition validKey :: "string \<Rightarrow> bool" where
  "validKey i \<longleftrightarrow> \<not> (length i < 1 \<or> 128 < length i) \<and>
     list_all (\<lambda>c. byte_in 97 122 c \<or> byte_in 65 90 c \<or> is_digit c \<or> c \<in> set ''-_:.'') i"

fun keys_ok :: "string list \<Rightarrow> string list \<Rightarrow> bool" where
  "keys_ok seen [] \<longleftrightarrow> True"
| "keys_ok seen (i # is) \<longleftrightarrow> (if \<not> validKey i \<or> i \<in> set seen then False else keys_ok (i # seen) is)"

definition validatePolicy :: "AuditPolicy \<Rightarrow> auth_error option" where
  "validatePolicy p =
     (if Profile p \<noteq> ''standard'' \<and> Profile p \<noteq> ''enhanced'' then Some (AInvalid ''unknown profile'')
      else if RuntimeSeconds p < 1 \<or> 3600 < RuntimeSeconds p \<or> RetentionHours p < 24 \<or>
         24 * 3650 < RetentionHours p \<or> 1000 < length (Actors p) \<or> 1000 < length (Nodes p) \<or>
         16 < length (TrustKeyIDs p) then Some (AInvalid ''policy limits exceeded'')
      else if \<not> list_all (keys_ok []) [Actors p, Nodes p, TrustKeyIDs p]
      then Some (AInvalid ''invalid or duplicate scope/key'')
      else if Profile p = ''enhanced'' \<and> (Destination p = [] \<or> CredentialRef p = [] \<or> TrustKeyIDs p = [] \<or>
         length (QualificationSHA256 p) \<noteq> 64) then Some ErrNotReady
      else None)"

definition present :: "'a option \<Rightarrow> nat" where "present x = (case x of None \<Rightarrow> 0 | Some _ \<Rightarrow> 1)"

definition reject :: "bool \<Rightarrow> string \<Rightarrow> auth_error option \<Rightarrow> auth_error option" where
  "reject c msg k = (if c then Some (AInvalid msg) else k)"

definition no_nominations :: "SecurityChangePayload \<Rightarrow> auth_error option" where
  "no_nominations p = reject (pl_Nominations p \<noteq> []) ''unexpected nominations'' None"

definition validatePayload :: "SecurityChangePayload \<Rightarrow> auth_error option" where
  "validatePayload p =
     reject (present (pl_Policy p) + present (pl_Role p) + present (pl_Person p) + present (pl_Recovery p) +
         present (pl_AuditSettings p) + present (pl_LDAP p) \<noteq> 1) ''exactly one typed security change required''
     (if pl_Kind p = ''bootstrap'' \<or> pl_Kind p = ''policy'' then
        (case pl_Policy p of
           None \<Rightarrow> Some (AInvalid ''policy required'')
         | Some pol \<Rightarrow>
             if pl_Kind p = ''bootstrap'' then
               if length (pl_Nominations p) < 3 \<or> 32 < length (pl_Nominations p) \<or> Profile pol \<noteq> ''enhanced''
               then Some ErrIndependent else validatePolicy pol
             else reject (pl_Nominations p \<noteq> []) ''nominations require bootstrap'' (validatePolicy pol))
      else if pl_Kind p = ''role'' then
        reject (case pl_Role p of None \<Rightarrow> True | Some r \<Rightarrow> rc_UserID r = [] \<or> \<not> IsSecurityRole (rc_Role r))
          ''security role assignment required'' (no_nominations p)
      else if pl_Kind p = ''person'' then
        reject (case pl_Person p of None \<Rightarrow> True
            | Some r \<Rightarrow> pc_UserID r = [] \<or> \<not> validKey (pc_PersonID r) \<or> trim_space (pc_Verification r) = [] \<or>
                2048 < length (pc_Verification r))
          ''verified person link required'' (no_nominations p)
      else if pl_Kind p = ''audit-settings'' then
        (case pl_AuditSettings p of
           None \<Rightarrow> Some (AInvalid ''audit settings required'')
         | Some a \<Rightarrow> reject (\<not> ValidateAuditSettings a) ''audit settings'' None)
      else if pl_Kind p = ''ldap'' then
        (case pl_LDAP p of
           None \<Rightarrow> Some (AInvalid ''bounded LDAP settings required'')
         | Some l \<Rightarrow>
             reject (4096 < length (la_URL l) \<or> 32768 < length (la_CACertPEM l)) ''bounded LDAP settings required''
             (reject (la_Enabled l \<and> take 8 (la_URL l) \<noteq> ''ldaps://'' \<and> \<not> la_StartTLS l) ''LDAP TLS required''
             (reject (la_ClearBindPassword l \<and> la_BindCredentialRef l \<noteq> []) ''ambiguous LDAP credential reference''
             (no_nominations p))))
      else if pl_Kind p = ''recovery'' then
        (case pl_Recovery p of
           None \<Rightarrow> Some (AInvalid ''recovery target required'')
         | Some r \<Rightarrow>
             reject (rv_UserID r = []) ''recovery target required''
             (reject (rv_Operation r \<notin> {''reenable'', ''mfa-reset'', ''password-reset''}) ''unsupported recovery operation''
             (reject (rv_Operation r = ''password-reset'' \<and> rv_SecretRef r = []) ''versioned credential reference required''
             (no_nominations p))))
      else Some (AInvalid ''unsupported security change''))"

definition scalars :: "string list \<Rightarrow> go_field list" where
  "scalars ts = map (\<lambda>t. tagged t GScalar) ts"

definition change_type :: go_type where
  "change_type = GStruct
     [tagged ''kind'' GScalar,
      tagged ''policy,omitempty'' (GPtr (GStruct [tagged ''profile'' GScalar, tagged ''actors'' (GSlice GScalar),
        tagged ''nodes'' (GSlice GScalar), tagged ''runtime_seconds'' GScalar, tagged ''retention_hours'' GScalar,
        tagged ''destination'' GScalar, tagged ''credential_ref'' GScalar, tagged ''trust_key_ids'' (GSlice GScalar),
        tagged ''qualification_sha256'' GScalar])),
      tagged ''nominations,omitempty'' (GSlice (GStruct [tagged ''user_id'' GScalar, tagged ''person_id'' GScalar,
        tagged ''roles'' (GSlice GScalar), tagged ''verification'' GScalar])),
      tagged ''role,omitempty'' (GPtr (GStruct (scalars [''user_id'', ''role'', ''grant'']))),
      tagged ''person,omitempty'' (GPtr (GStruct (scalars [''user_id'', ''person_id'', ''verification'']))),
      tagged ''audit_settings,omitempty'' (GPtr (GStruct (scalars [''retention_days'', ''review_reminder_days'',
        ''password_history_count'', ''temporary_password_ttl_hours''] @
        [tagged ''thresholds'' (GStruct (scalars [''login_failures_per_hour'', ''registration_failures_per_hour'',
          ''privileged_actions_per_hour'']))]))),
      tagged ''ldap,omitempty'' (GPtr (GStruct (scalars [''enabled'', ''url'', ''bind_dn'', ''bind_credential_ref'',
        ''clear_bind_password'', ''user_base_dn'', ''group_base_dn'', ''user_search_filter'', ''group_search_filter'',
        ''username_attribute'', ''email_attribute'', ''external_id_attribute'', ''group_name_attribute'',
        ''start_tls'', ''tls_server_name'', ''ca_cert_pem''] @
        map (\<lambda>t. tagged t (GSlice GScalar)) [''admin_groups'', ''auditor_groups'', ''viewer_groups'', ''terminal_groups'']))),
      tagged ''-'' GScalar,
      tagged ''recovery,omitempty'' (GPtr (GStruct (scalars [''user_id'', ''operation'', ''secret_ref,omitempty'', ''-''])))]"

text \<open>\<open>DecodeChange\<close>: the payload that was decoded, if any, and the error.\<close>

definition decode_change :: "auth_env \<Rightarrow> string \<Rightarrow> SecurityChangePayload option" where
  "decode_change env raw = Decode (k_tokens (au_codec env)) (au_payload env) change_type (48 * 1024) raw"

definition DecodeChange :: "auth_env \<Rightarrow> string \<Rightarrow> SecurityChangePayload result" where
  "DecodeChange env raw =
     (case decode_change env raw of
        None \<Rightarrow> Inl (AInvalid ''invalid or ambiguous typed change'')
      | Some p \<Rightarrow> (case validatePayload p of Some e \<Rightarrow> Inl e | None \<Rightarrow> Inr p))"

definition Normalize :: "auth_env \<Rightarrow> Proposal \<Rightarrow> Preview result" where
  "Normalize env p =
     (let p1 = p\<lparr>pp_Reason := trim_space (pp_Reason p)\<rparr> in
      if pp_Reason p1 = [] \<or> 2048 < length (pp_Reason p1) \<or> pp_ExpectedVersion p1 = 0
      then Inl (AInvalid ''reason and expected version required'')
      else case DecodeChange env (pp_Change p1) of
        Inl e \<Rightarrow> Inl e
      | Inr change \<Rightarrow>
         (case au_payload_json env change of
            None \<Rightarrow> Inl (AStore ErrJSON)
          | Some raw \<Rightarrow>
             (let p2 = p1\<lparr>pp_Change := raw\<rparr> in
              case au_proposal_json env p2 of
                None \<Rightarrow> Inl (AStore ErrJSON)
              | Some bytes \<Rightarrow> Inr \<lparr>pw_Digest = Digest env bytes, pw_Proposal = p2, pw_Bytes = bytes\<rparr>)))"

section \<open>Requests, approvals, quorum\<close>

fun nominationPerson :: "SecurityNomination list \<Rightarrow> string \<Rightarrow> string" where
  "nominationPerson [] user = []"
| "nominationPerson (n # ns) user = (if sn_UserID n = user then sn_PersonID n else nominationPerson ns user)"

fun roles_once :: "string list \<Rightarrow> string list \<Rightarrow> bool" where
  "roles_once seen [] \<longleftrightarrow> True"
| "roles_once seen (r # rs) \<longleftrightarrow> (if \<not> IsSecurityRole r \<or> r \<in> set seen then False else roles_once (r # seen) rs)"

text \<open>The loop of \<open>validateNominations\<close> with the people and users seen, whether the requester is an
  officer and the number of approvers; call \<open>j\<close> and on read the nominees.\<close>

fun check_nominations ::
    "auth_env \<Rightarrow> nat \<Rightarrow> string \<Rightarrow> string list \<Rightarrow> string list \<Rightarrow> bool \<Rightarrow> nat \<Rightarrow>
     SecurityNomination list \<Rightarrow> db \<Rightarrow> auth_error option" where
  "check_nominations env j requester people us officer approvers [] d =
     (if \<not> officer \<or> approvers < 2 then Some ErrIndependent else None)"
| "check_nominations env j requester people us officer approvers (n # ns) d =
     (if \<not> validKey (sn_PersonID n) \<or> trim_space (sn_Verification n) = [] \<or> 2048 < length (sn_Verification n) \<or>
         sn_PersonID n \<in> set people \<or> sn_UserID n \<in> set us then Some ErrIndependent
      else case GetUserByID (au_db env j 0) (sn_UserID n) d of
        Inl _ \<Rightarrow> Some (AInvalid ''nominees require their own completed MFA identities'')
      | Inr u \<Rightarrow>
          if \<not> u_totp_enabled u \<or> u_totp_secret u = None \<or> parse_sqlite (u_disabled_at u) \<noteq> None \<or> u_must_change u
          then Some (AInvalid ''nominees require their own completed MFA identities'')
          else case PersonForUser (au_db env j 1) (sn_UserID n) d of
            Inl e \<Rightarrow> Some (AStore e)
          | Inr linked \<Rightarrow>
              if linked \<noteq> ''user:'' @ sn_UserID n \<and> linked \<noteq> sn_PersonID n then Some (AStore ErrProtectedChange)
              else if \<not> roles_once [] (sn_Roles n) then Some (AInvalid ''invalid nomination roles'')
              else check_nominations env (Suc j) requester (sn_PersonID n # people) (sn_UserID n # us)
                     (officer \<or> sn_UserID n = requester \<and> RoleSecurityOfficer \<in> set (sn_Roles n))
                     (if sn_UserID n \<noteq> requester \<and> RoleSecurityApprover \<in> set (sn_Roles n)
                      then approvers + 1 else approvers) ns d)"

definition validateNominations ::
    "auth_env \<Rightarrow> nat \<Rightarrow> SecurityNomination list \<Rightarrow> string \<Rightarrow> db \<Rightarrow> auth_error option" where
  "validateNominations env j ns requester d = check_nominations env j requester [] [] False 0 ns d"

definition zero_payload :: SecurityChangePayload where
  "zero_payload = \<lparr>pl_Kind = [], pl_Policy = None, pl_Nominations = [], pl_Role = None, pl_Person = None,
     pl_AuditSettings = None, pl_LDAP = None, pl_PreparedConfig = [], pl_Recovery = None\<rparr>"

definition zero_change :: SecurityChange where
  "zero_change = \<lparr>c_ID = [], c_Revision = 0, c_RequesterID = [], c_RequesterPersonID = [], c_ApplierID = [],
     c_ApplierPersonID = [], c_ApplierRevision = 0, c_RequesterGeneration = 0, c_ExpectedVersion = 0,
     c_Digest = [], c_Reason = [], c_Payload = [], c_ApprovedBytes = [], c_State = [], c_CreatedAt = zero_time,
     c_ExpiresAt = zero_time, c_Approvals = [], c_IntentRef = [], c_CommitRef = [], c_ResultRef = []\<rparr>"

definition request_lifetime :: duration where "request_lifetime = 24 * hour"

text \<open>The requester's person: a bootstrap is open to an administrator nominated in it while nothing
  is enrolled, any other change to whoever may request. Calls: 0 the requester, 1 the policy state,
  2 the enrolment, 10 and on the nominees.\<close>

definition request_person ::
    "auth_env \<Rightarrow> string \<Rightarrow> SecurityChangePayload \<Rightarrow> db \<Rightarrow> string result" where
  "request_person env user p d =
     (case Effective env 0 user d of
        Inl e \<Rightarrow> Inl e
      | Inr e \<Rightarrow>
          if pl_Kind p = ''bootstrap'' then
            (case GetPolicyState (au_gov env) (au_db env 1) d of
               Inl x \<Rightarrow> Inl (AStore x)
             | Inr st \<Rightarrow>
                (case governanceEnrolled (au_gov env) (au_db env 2 0) d of
                   Inl x \<Rightarrow> Inl (AStore x)
                 | Inr enrolled \<Rightarrow>
                     if enrolled \<or> Profile (pv_Policy (st_Active st)) \<noteq> ''standard'' \<or> \<not> Can e ''security.bootstrap''
                     then Inl ErrDenied
                     else case validateNominations env 10 (pl_Nominations p) user d of
                       Some x \<Rightarrow> Inl x
                     | None \<Rightarrow> Inr (nominationPerson (pl_Nominations p) user)))
          else if \<not> Can e ActionRequest then Inl ErrDenied
          else Inr (ec_PersonID e))"

text \<open>Call 3 checks the recovery target, 4 reads the requester, 5 is the write. A decoded change is
  re-encoded by \<open>Normalize\<close>; were its text not decodable again, the zero payload would be used.\<close>

definition new_request ::
    "auth_env \<Rightarrow> string \<Rightarrow> string \<Rightarrow> go_int \<Rightarrow> Preview \<Rightarrow> SecurityChange" where
  "new_request env user person revision pw =
     zero_change\<lparr>c_ID := au_uuid env, c_Revision := 1, c_RequesterID := user, c_RequesterPersonID := person,
       c_RequesterGeneration := revision, c_ExpectedVersion := pp_ExpectedVersion (pw_Proposal pw),
       c_Digest := pw_Digest pw, c_Reason := pp_Reason (pw_Proposal pw), c_Payload := pp_Change (pw_Proposal pw),
       c_ApprovedBytes := pw_Bytes pw, c_State := ''requested'', c_CreatedAt := au_now env 5,
       c_ExpiresAt := time_add (au_now env 5) request_lifetime\<rparr>"

definition Request ::
    "auth_env \<Rightarrow> string \<Rightarrow> string \<Rightarrow> string \<Rightarrow> Proposal \<Rightarrow> db \<Rightarrow> SecurityChange result \<times> db" where
  "Request env user session proof proposal d =
     (case Normalize env proposal of
        Inl e \<Rightarrow> (Inl e, d)
      | Inr pw \<Rightarrow>
         (let p = (case decode_change env (pp_Change (pw_Proposal pw)) of Some p \<Rightarrow> p | None \<Rightarrow> zero_payload) in
          case request_person env user p d of
            Inl e \<Rightarrow> (Inl e, d)
          | Inr person \<Rightarrow>
             (case validateSecurityRecoveryTarget (au_db env 3 0) p d of
                Some e \<Rightarrow> (Inl (AStore e), d)
              | None \<Rightarrow>
                 (case GetUserByID (au_db env 4 0) user d of
                    Inl e \<Rightarrow> (Inl (AStore e), d)
                  | Inr u \<Rightarrow>
                     (let c = new_request env user person (u_security_revision u) pw in
                      case CreateSecurityChange (write_env env 5) c (pl_Nominations p) session proof d of
                        (Inl e, d') \<Rightarrow> (Inl (AStore e), d')
                      | (Inr _, d') \<Rightarrow> (Inr c, d'))))))"

definition bootstrap_authority ::
    "SecurityChangePayload \<Rightarrow> string \<Rightarrow> EffectiveCapabilities \<Rightarrow> string \<Rightarrow> string \<Rightarrow> bool" where
  "bootstrap_authority p requester e user action \<longleftrightarrow>
     (\<exists>n \<in> set (pl_Nominations p). sn_UserID n = user \<and>
        (\<exists>r \<in> set (sn_Roles n). action = ActionApprove \<and> r = RoleSecurityApprover \<or>
           action \<noteq> ActionApprove \<and> r = RoleSecurityOfficer \<and> user = requester \<and> Can e ''security.bootstrap''))"

definition AuthorityForChange ::
    "auth_env \<Rightarrow> nat \<Rightarrow> SecurityChange \<Rightarrow> string \<Rightarrow> string \<Rightarrow> db \<Rightarrow> EffectiveCapabilities result" where
  "AuthorityForChange env j c user action d =
     (case Effective env j user d of
        Inl e \<Rightarrow> Inl e
      | Inr e \<Rightarrow>
         (case DecodeChange env (c_Payload c) of
            Inl x \<Rightarrow> Inl x
          | Inr p \<Rightarrow>
              if pl_Kind p = ''bootstrap'' then
                (if bootstrap_authority p (c_RequesterID c) e user action
                 then Inr (e\<lparr>ec_PersonID := nominationPerson (pl_Nominations p) user\<rparr>) else Inl ErrDenied)
              else if \<not> Can e action then Inl ErrDenied
              else Inr e))"

text \<open>\<open>Approve\<close>: call 0 reads the change, 1 the authority, 2 the account, 3 writes, 4 reads back.\<close>

definition Approve ::
    "auth_env \<Rightarrow> string \<Rightarrow> string \<Rightarrow> string \<Rightarrow> string \<Rightarrow> db \<Rightarrow> SecurityChange result \<times> db" where
  "Approve env i user session proof d =
     (case GetSecurityChange (au_gov env) (au_db env 0) i d of
        Inl e \<Rightarrow> (Inl (AStore e), d)
      | Inr c \<Rightarrow>
         (case AuthorityForChange env 1 c user ActionApprove d of
            Inl e \<Rightarrow> (Inl e, d)
          | Inr e \<Rightarrow>
              if user = c_RequesterID c \<or> ec_PersonID e = c_RequesterPersonID c then (Inl ErrIndependent, d)
              else if \<exists>a \<in> set (c_Approvals c). va_PersonID a = ec_PersonID e then (Inl ErrIndependent, d)
              else if c_ExpiresAt c < au_now env 2 \<or> Digest env (c_ApprovedBytes c) \<noteq> c_Digest c
              then (Inl (AStore ErrSecurityConflict), d)
              else case GetUserByID (au_db env 2 0) user d of
                Inl x \<Rightarrow> (Inl (AStore x), d)
              | Inr u \<Rightarrow>
                 (case AddSecurityApproval (write_env env 3) c
                    \<lparr>va_UserID = user, va_PersonID = ec_PersonID e, va_ProofSHA256 = [], va_ApprovedAt = zero_time,
                     va_TokenGeneration = u_security_revision u, va_InvalidatedAt = None\<rparr> session proof d of
                    (Inl x, d') \<Rightarrow> (Inl (AStore x), d')
                  | (Inr _, d') \<Rightarrow> (lift_store (GetSecurityChange (au_gov env) (au_db env 4) i d'), d'))))"

text \<open>The approvers of \<open>ValidateQuorum\<close>, with the persons seen and the votes counted; calls \<open>j\<close> and
  on, two for each vote in force.\<close>

fun count_votes ::
    "auth_env \<Rightarrow> nat \<Rightarrow> SecurityChange \<Rightarrow> string list \<Rightarrow> nat \<Rightarrow> SecurityApproval list \<Rightarrow> db \<Rightarrow> auth_error option" where
  "count_votes env j c people valid [] d = (if valid < 2 then Some ErrIndependent else None)"
| "count_votes env j c people valid (a # as) d =
     (if va_InvalidatedAt a \<noteq> None then count_votes env j c people valid as d
      else case AuthorityForChange env j c (va_UserID a) ActionApprove d of
        Inl e \<Rightarrow> Some e
      | Inr e \<Rightarrow>
         (case GetUserByID (au_db env (j + 1) 0) (va_UserID a) d of
            Inl _ \<Rightarrow> Some ErrIndependent
          | Inr u \<Rightarrow>
              if u_security_revision u \<noteq> va_TokenGeneration a \<or> ec_PersonID e \<noteq> va_PersonID a \<or>
                 ec_PersonID e \<in> set people then Some ErrIndependent
              else count_votes env (j + 2) c (ec_PersonID e # people) (valid + 1) as d))"

definition ValidateQuorum :: "auth_env \<Rightarrow> nat \<Rightarrow> SecurityChange \<Rightarrow> db \<Rightarrow> auth_error option" where
  "ValidateQuorum env j c d =
     (if \<not> au_now env j < c_ExpiresAt c \<or> Digest env (c_ApprovedBytes c) \<noteq> c_Digest c \<or> length (c_Approvals c) < 2
      then Some (AStore ErrSecurityConflict)
      else case AuthorityForChange env j c (c_RequesterID c) ActionRequest d of
        Inl e \<Rightarrow> Some e
      | Inr e \<Rightarrow>
         (case GetUserByID (au_db env (j + 1) 0) (c_RequesterID c) d of
            Inl _ \<Rightarrow> Some ErrDenied
          | Inr u \<Rightarrow>
              if u_security_revision u \<noteq> c_RequesterGeneration c \<or> ec_PersonID e \<noteq> c_RequesterPersonID c
              then Some ErrDenied
              else count_votes env (j + 2) c [c_RequesterPersonID c] 0 (c_Approvals c) d))"

definition GuardMutation :: "(string \<Rightarrow> string list) \<Rightarrow> bool \<Rightarrow> string \<Rightarrow> db \<Rightarrow> auth_error option" where
  "GuardMutation jt fault user d = map_option AStore (GuardSecurityUserMutation jt fault user d)"

end
