(* ===== verification/Transition.thy ===== *)
theory Transition
  imports Authorization
begin

text \<open>
  The policy transition (\<open>hub/internal/authorization/transition.go\<close>,
  \<open>policy_continuity.go\<close>): the enrollment marker outside the database, the external anchor, the
  archived evidence, applying and reconciling an approved change, the start-up check, and the local
  continuity check that every execution policy passes.
\<close>

section \<open>State and environment\<close>

record EnrollmentMarker =
  em_InstallationID :: string
  em_Version :: nat
  em_SHA256 :: string

record PolicyAnchor =
  pa_InstallationID :: string
  pa_Version :: nat
  pa_SHA256 :: string
  pa_RequestID :: string
  pa_RequestSHA256 :: string

text \<open>The marker file: whether it is regular, whether its mode keeps others out, and its bytes.\<close>

record marker_file =
  mf_regular :: bool
  mf_private :: bool
  mf_raw :: string

record auth_state =
  as_db :: db
  as_marker :: "marker_file option"

text \<open>\<open>TransitionConfig\<close>; \<open>tc_Evidence\<close> says whether an evidence service is configured.\<close>

record TransitionConfig =
  tc_Evidence :: bool
  tc_EnrollmentPath :: string
  tc_InstallationID :: string
  tc_ResolveSecret :: "(string \<Rightarrow> (string \<times> string) option) option"
  tc_PrepareChange :: "(SecurityChangePayload \<Rightarrow> SecurityChangePayload result) option"

text \<open>
  The surroundings. For the \<open>j\<close>-th marker access: the error of looking up, opening and re-reading
  the directory, whether it is a private directory each time, and the error of the \<open>i\<close>-th file
  operation. The evidence service answers the \<open>j\<close>-th call of each kind. The JSON forms of a marker
  and an envelope are the codec's.
\<close>

record trans_env = auth_env +
  tr_lstat :: "nat \<Rightarrow> auth_error option"
  tr_dir_ok :: "nat \<Rightarrow> bool"
  tr_open :: "nat \<Rightarrow> auth_error option"
  tr_dot :: "nat \<Rightarrow> auth_error option"
  tr_dot_ok :: "nat \<Rightarrow> bool"
  tr_file :: "nat \<Rightarrow> nat \<Rightarrow> auth_error option"
  tr_marker :: "string \<Rightarrow> EnrollmentMarker option"
  tr_marker_json :: "EnrollmentMarker \<Rightarrow> string option"
  tr_envelope_json :: "Envelope \<Rightarrow> string option"
  tr_preserve :: "nat \<Rightarrow> string \<Rightarrow> string result"
  tr_anchor :: "nat \<Rightarrow> string \<Rightarrow> PolicyAnchor result"
  tr_ready :: "nat \<Rightarrow> AuditPolicy \<Rightarrow> auth_error option"
  tr_qualify :: "nat \<Rightarrow> AuditPolicy \<Rightarrow> auth_error option"

definition base_env :: "trans_env \<Rightarrow> auth_env" where
  "base_env env = auth_env.truncate env"

type_synonym 'a svc = "auth_state \<Rightarrow> 'a result \<times> auth_state"

definition svc_bind :: "'a svc \<Rightarrow> ('a \<Rightarrow> 'b svc) \<Rightarrow> 'b svc" where
  "svc_bind m f s = (case m s of (Inl e, s') \<Rightarrow> (Inl e, s') | (Inr v, s') \<Rightarrow> f v s')"

definition svc_get :: "(auth_state \<Rightarrow> 'a result) \<Rightarrow> 'a svc" where
  "svc_get f s = (f s, s)"

definition svc_read :: "(db \<Rightarrow> store_error + 'a) \<Rightarrow> 'a svc" where
  "svc_read f s = (lift_store (f (as_db s)), s)"

definition svc_check :: "(auth_state \<Rightarrow> auth_error option) \<Rightarrow> 'a svc \<Rightarrow> 'a svc" where
  "svc_check g k s = (case g s of Some e \<Rightarrow> (Inl e, s) | None \<Rightarrow> k s)"

definition svc_refuse :: "bool \<Rightarrow> auth_error \<Rightarrow> 'a svc \<Rightarrow> 'a svc" where
  "svc_refuse c e k s = (if c then (Inl e, s) else k s)"

definition svc_store :: "'a op \<Rightarrow> 'a svc" where
  "svc_store m s = (case m (as_db s) of (r, d) \<Rightarrow> (lift_store r, s\<lparr>as_db := d\<rparr>))"

definition svc_ret :: "'a \<Rightarrow> 'a svc" where "svc_ret v s = (Inr v, s)"

section \<open>The enrollment marker\<close>

definition openEnrollmentRoot :: "trans_env \<Rightarrow> nat \<Rightarrow> string \<Rightarrow> auth_error option" where
  "openEnrollmentRoot env j path =
     (if path = [] then Some ErrNotExist
      else case tr_lstat env j of
        Some e \<Rightarrow> Some e
      | None \<Rightarrow>
          if \<not> tr_dir_ok env j then Some ErrRecovery
          else case tr_open env j of
            Some e \<Rightarrow> Some e
          | None \<Rightarrow>
             (case tr_dot env j of
                Some e \<Rightarrow> Some e
              | None \<Rightarrow> if \<not> tr_dot_ok env j then Some ErrRecovery else None))"

text \<open>File operations of \<open>readMarker\<close>: 0 opens, 1 is the status, 2 reads.\<close>

definition readMarker :: "trans_env \<Rightarrow> nat \<Rightarrow> string \<Rightarrow> marker_file option \<Rightarrow> EnrollmentMarker result" where
  "readMarker env j path file =
     (case openEnrollmentRoot env j path of
        Some e \<Rightarrow> Inl e
      | None \<Rightarrow>
         (case tr_file env j 0 of
            Some e \<Rightarrow> Inl e
          | None \<Rightarrow>
             (case file of
                None \<Rightarrow> Inl ErrNotExist
              | Some f \<Rightarrow>
                 (case tr_file env j 1 of
                    Some e \<Rightarrow> Inl e
                  | None \<Rightarrow>
                      if \<not> mf_regular f \<or> \<not> mf_private f then Inl ErrRecovery
                      else case tr_file env j 2 of
                        Some e \<Rightarrow> Inl e
                      | None \<Rightarrow>
                          if 4096 < length (mf_raw f) then Inl ErrRecovery
                          else case tr_marker env (mf_raw f) of
                            None \<Rightarrow> Inl ErrRecovery
                          | Some m \<Rightarrow>
                              if \<not> ValidID (em_InstallationID m) \<or> em_Version m = 0 \<or> \<not> ValidHash (em_SHA256 m)
                              then Inl ErrRecovery else Inr m))))"

text \<open>A marker may replace another of the same installation with a lower version, or itself.\<close>

definition marker_conflict :: "EnrollmentMarker \<Rightarrow> EnrollmentMarker \<Rightarrow> bool" where
  "marker_conflict old m \<longleftrightarrow> em_InstallationID old \<noteq> em_InstallationID m \<or> em_Version m < em_Version old \<or>
     em_Version old = em_Version m \<and> em_SHA256 old \<noteq> em_SHA256 m"

text \<open>File operations of \<open>writeMarker\<close>, which opens the directory as access \<open>j\<close> and reads the marker
  as access \<open>j + 1\<close>: 3 creates the new file, 4 writes and syncs it, 5 closes it, 6 renames it, 7 opens
  the directory and 8 syncs it. The rename replaces the marker in one step.\<close>

definition marker_refused ::
    "trans_env \<Rightarrow> nat \<Rightarrow> string \<Rightarrow> EnrollmentMarker \<Rightarrow> marker_file option \<Rightarrow> auth_error option" where
  "marker_refused env j path m file =
     (case readMarker env j path file of
        Inr old \<Rightarrow> if marker_conflict old m then Some ErrRecovery else None
      | Inl e \<Rightarrow> if e \<noteq> ErrNotExist then Some e else None)"

fun first_error :: "(nat \<Rightarrow> auth_error option) \<Rightarrow> nat list \<Rightarrow> auth_error option" where
  "first_error f [] = None"
| "first_error f (i # is) = (case f i of Some e \<Rightarrow> Some e | None \<Rightarrow> first_error f is)"

definition writeMarker :: "trans_env \<Rightarrow> nat \<Rightarrow> string \<Rightarrow> EnrollmentMarker \<Rightarrow> unit svc" where
  "writeMarker env j path m s =
     (if path = [] then (Inl ErrNotReady, s)
      else case openEnrollmentRoot env j path of
        Some e \<Rightarrow> (Inl e, s)
      | None \<Rightarrow>
         (case marker_refused env (j + 1) path m (as_marker s) of
            Some e \<Rightarrow> (Inl e, s)
          | None \<Rightarrow>
             (case tr_marker_json env m of
                None \<Rightarrow> (Inl (AStore ErrJSON), s)
              | Some raw \<Rightarrow>
                 (case first_error (tr_file env j) [3, 4, 5, 6] of
                    Some e \<Rightarrow> (Inl e, s)
                  | None \<Rightarrow>
                     (let s' = s\<lparr>as_marker := Some \<lparr>mf_regular = True, mf_private = True, mf_raw = raw\<rparr>\<rparr> in
                      case first_error (tr_file env j) [7, 8] of Some e \<Rightarrow> (Inl e, s') | None \<Rightarrow> (Inr (), s'))))))"

text \<open>\<open>EnrollmentMarkerMatches\<close>.\<close>

definition EnrollmentMarkerMatches ::
    "trans_env \<Rightarrow> nat \<Rightarrow> TransitionConfig \<Rightarrow> PolicyState \<Rightarrow> marker_file option \<Rightarrow> bool" where
  "EnrollmentMarkerMatches env j cfg st file =
     (case readMarker env j (tc_EnrollmentPath cfg) file of
        Inl _ \<Rightarrow> False
      | Inr m \<Rightarrow>
          if em_InstallationID m \<noteq> tc_InstallationID cfg then False
          else if em_Version m = pv_Version (st_Active st) \<and> em_SHA256 m = pv_SHA256 (st_Active st) then True
          else case st_Pending st of
                 None \<Rightarrow> False
               | Some p \<Rightarrow> em_Version m = pv_Version p \<and> em_SHA256 m = pv_SHA256 p)"

section \<open>Continuity with the external anchor\<close>

definition GetPolicyVersion :: "auth_env \<Rightarrow> nat \<Rightarrow> nat \<Rightarrow> db \<Rightarrow> store_error + PolicyVersion" where
  "GetPolicyVersion env j v d = readPolicyVersion (au_gov env) (au_db env j 0) d v"

definition is_version :: "nat \<Rightarrow> string \<Rightarrow> PolicyVersion \<Rightarrow> bool" where
  "is_version v sha p \<longleftrightarrow> v = pv_Version p \<and> sha = pv_SHA256 p"

text \<open>\<open>checkPendingRecovery\<close>: a recorded transition may only go on when the marker and the external
  anchor are both at its old or its new policy; \<open>Some\<close> is the refusal. Call \<open>j\<close> reads the marker and
  the anchor, \<open>j + 1\<close> the change behind the old policy.\<close>

definition anchor_resumes ::
    "trans_env \<Rightarrow> nat \<Rightarrow> SecurityChange \<Rightarrow> PolicyVersion \<Rightarrow> PolicyVersion \<Rightarrow> bool \<Rightarrow> PolicyAnchor \<Rightarrow> db \<Rightarrow> bool" where
  "anchor_resumes env j c pend old activated a d \<longleftrightarrow>
     is_version (pa_Version a) (pa_SHA256 a) pend \<and> pa_RequestID a = c_ID c \<and> pa_RequestSHA256 a = c_Digest c \<or>
     \<not> activated \<and> is_version (pa_Version a) (pa_SHA256 a) old \<and> pa_RequestID a = pv_RequestID old \<and>
     pv_RequestID old \<noteq> [] \<and>
     (case GetSecurityChange (au_gov env) (au_db env j) (pv_RequestID old) d of
        Inl _ \<Rightarrow> False | Inr prev \<Rightarrow> pa_RequestSHA256 a = c_Digest prev)"

definition checkPendingRecovery ::
    "trans_env \<Rightarrow> nat \<Rightarrow> SecurityChange \<Rightarrow> PolicyState \<Rightarrow> PolicyVersion \<Rightarrow> TransitionConfig \<Rightarrow>
     auth_state \<Rightarrow> auth_error option" where
  "checkPendingRecovery env j c st old cfg s =
     (case st_Pending st of
        None \<Rightarrow> Some ErrRecovery
      | Some pend \<Rightarrow>
          if \<not> ValidID (tc_InstallationID cfg) \<or> pv_Version pend \<noteq> c_ExpectedVersion c + 1 \<or>
             pv_RequestID pend \<noteq> c_ID c \<or> Digest (base_env env) (c_ApprovedBytes c) \<noteq> c_Digest c \<or>
             (pv_Version (st_Active st) \<noteq> pv_Version old \<and> pv_Version (st_Active st) \<noteq> pv_Version pend)
          then Some ErrRecovery
          else case DecodeChange (base_env env) (c_Payload c) of
            Inl _ \<Rightarrow> Some ErrRecovery
          | Inr p \<Rightarrow>
             (let initial = pl_Kind p = ''bootstrap'' \<and> c_ExpectedVersion c = 1 \<and> Profile (pv_Policy old) = ''standard'';
                  activated = pv_Version (st_Active st) = pv_Version pend;
                  marker = readMarker env j (tc_EnrollmentPath cfg) (as_marker s) in
              if (case marker of
                    Inl e \<Rightarrow> \<not> initial \<or> activated \<or> e \<noteq> ErrNotExist
                  | Inr m \<Rightarrow> em_InstallationID m \<noteq> tc_InstallationID cfg \<or>
                      \<not> (is_version (em_Version m) (em_SHA256 m) old \<or> is_version (em_Version m) (em_SHA256 m) pend) \<or>
                      activated \<and> em_Version m \<noteq> pv_Version pend)
              then Some ErrRecovery
              else case tr_anchor env j (tc_InstallationID cfg) of
                Inl e \<Rightarrow> if initial \<and> \<not> activated \<and> e = ErrAnchorNotFound then None else Some ErrRecovery
              | Inr a \<Rightarrow>
                  if pa_InstallationID a \<noteq> tc_InstallationID cfg then Some ErrRecovery
                  else if anchor_resumes env (j + 1) c pend old activated a (as_db s) then None
                  else Some ErrRecovery))"

text \<open>\<open>ValidateAnchor\<close>: call \<open>j\<close> reads the state, \<open>j + 1\<close> the pending change, \<open>j + 2\<close> and \<open>j + 3\<close> check a
  pending transition, \<open>j + 4\<close> reads the enrolment, the marker and the anchor, \<open>j + 5\<close> the change behind
  the active policy.\<close>

definition committed_ok :: "trans_env \<Rightarrow> SecurityChange \<Rightarrow> PolicyVersion \<Rightarrow> PolicyAnchor \<Rightarrow> bool" where
  "committed_ok env c act a \<longleftrightarrow>
     c_State c = ''applied'' \<and> c_ExpectedVersion c + 1 = pv_Version act \<and>
     Digest (base_env env) (c_ApprovedBytes c) = c_Digest c \<and>
     is_version (pa_Version a) (pa_SHA256 a) act \<and> pa_RequestID a = c_ID c \<and> pa_RequestSHA256 a = c_Digest c"

definition ValidateAnchor :: "trans_env \<Rightarrow> nat \<Rightarrow> TransitionConfig \<Rightarrow> auth_state \<Rightarrow> auth_error option" where
  "ValidateAnchor env j cfg s =
     (let gov = au_gov env; d = as_db s in
      case GetPolicyState gov (au_db env j) d of
        Inl e \<Rightarrow> Some (AStore e)
      | Inr st \<Rightarrow>
         (let act = st_Active st in
          if st_Pending st \<noteq> None \<and> st_PendingChange st \<noteq> [] then
            (case GetSecurityChange gov (au_db env (j + 1)) (st_PendingChange st) d of
               Inl _ \<Rightarrow> Some ErrRecovery
             | Inr c \<Rightarrow>
                (case st_Previous st of
                   None \<Rightarrow> Some ErrRecovery
                 | Some old \<Rightarrow>
                     if \<not> tc_Evidence cfg then Some ErrRecovery
                     else map_option (\<lambda>_. ErrRecovery) (checkPendingRecovery env (j + 2) c st old cfg s)))
          else
            (case governanceEnrolled gov (au_db env (j + 4) 0) d of
               Inl e \<Rightarrow> Some (AStore e)
             | Inr enrolled \<Rightarrow>
                (let marker = readMarker env (j + 4) (tc_EnrollmentPath cfg) (as_marker s) in
                 if marker = Inl ErrNotExist \<and> \<not> enrolled then
                   (if pv_Version act \<noteq> 1 \<or> Profile (pv_Policy act) \<noteq> ''standard'' then Some ErrRecovery
                    else if \<not> tc_Evidence cfg then None
                    else if \<not> ValidID (tc_InstallationID cfg) then Some ErrRecovery
                    else if tr_anchor env (j + 4) (tc_InstallationID cfg) = Inl ErrAnchorNotFound then None
                    else Some ErrRecovery)
                 else case marker of
                   Inl _ \<Rightarrow> Some ErrRecovery
                 | Inr m \<Rightarrow>
                     if \<not> tc_Evidence cfg \<or> em_InstallationID m \<noteq> tc_InstallationID cfg \<or>
                        \<not> is_version (em_Version m) (em_SHA256 m) act then Some ErrRecovery
                     else case tr_anchor env (j + 4) (em_InstallationID m) of
                       Inl _ \<Rightarrow> Some ErrRecovery
                     | Inr a \<Rightarrow>
                         if pa_InstallationID a \<noteq> em_InstallationID m \<or> pa_Version a < em_Version m \<or>
                            pa_Version a < pv_Version act then Some ErrRecovery
                         else case GetSecurityChange gov (au_db env (j + 5)) (pv_RequestID act) d of
                           Inl _ \<Rightarrow> Some ErrRecovery
                         | Inr c \<Rightarrow> if committed_ok env c act a then None else Some ErrRecovery))))"

definition require_recovery :: "trans_env \<Rightarrow> nat \<Rightarrow> auth_state \<Rightarrow> auth_state" where
  "require_recovery env j s =
     s\<lparr>as_db := snd (requirePolicyRecovery (write_env (base_env env) j) (as_db s))\<rparr>"

definition CheckAnchor :: "trans_env \<Rightarrow> nat \<Rightarrow> TransitionConfig \<Rightarrow> unit svc" where
  "CheckAnchor env j cfg s =
     (case ValidateAnchor env j cfg s of
        None \<Rightarrow> (Inr (), s) | Some e \<Rightarrow> (Inl e, require_recovery env (j + 6) s))"

section \<open>Evidence\<close>

definition subject_of :: "user_row \<Rightarrow> string" where
  "subject_of u = (if u_external_id u = [] then u_id u else u_external_id u)"

definition actor_of :: "user_row \<Rightarrow> string \<Rightarrow> Actor" where
  "actor_of u person = \<lparr>ac_UserID = u_id u, ac_PersonID = person, ac_Name = u_username u,
     ac_Provider = u_auth_provider u, ac_Subject = subject_of u\<rparr>"

definition change_details ::
    "SecurityChange \<Rightarrow> string \<Rightarrow> user_row \<Rightarrow> TransitionConfig \<Rightarrow> Details" where
  "change_details c kind requester cfg =
     (let anchor = kind = PolicyAnchorType in
      \<lparr>dt_Delivery = None, dt_Submission = None,
       dt_InstallationID = (if anchor then tc_InstallationID cfg else []),
       dt_Requester = Some (actor_of requester (c_RequesterPersonID c)),
       dt_CorrelationID = (if anchor then tc_InstallationID cfg else c_ID c), dt_RequestID = c_ID c,
       dt_RequestSHA256 = c_Digest c, dt_ExpectedPolicyVersion = c_ExpectedVersion c,
       dt_NewPolicyVersion = c_ExpectedVersion c + 1, dt_SessionSHA256 = [], dt_Reason = c_Reason c,
       dt_State = kind, dt_ExitCode = None, dt_Originals = [], dt_ApproverPersonIDs = [],
       dt_ApprovedChange = (if anchor then [] else c_ApprovedBytes c),
       dt_Approvals = map (\<lambda>a. \<lparr>av_UserID = va_UserID a, av_PersonID = va_PersonID a,
         av_StepupProofSHA256 = va_ProofSHA256 a, av_ApprovedAt = va_ApprovedAt a\<rparr>) (c_Approvals c)\<rparr>)"

definition change_envelope ::
    "SecurityChange \<Rightarrow> string \<Rightarrow> PolicyVersion \<Rightarrow> user_row \<Rightarrow> user_row \<Rightarrow> TransitionConfig \<Rightarrow> go_time \<Rightarrow> Envelope" where
  "change_envelope c kind policy applier requester cfg now =
     \<lparr>en_SchemaVersion = 1, en_EventID = c_ID c @ ''-'' @ kind, en_EventType = kind,
      en_Actor = actor_of applier (c_ApplierPersonID c), en_Execution = None,
      en_PolicyVersion = pv_Version policy, en_PolicySHA256 = pv_SHA256 policy, en_OccurredAt = now,
      en_Command = [], en_Attachments = [], en_Details = Some (change_details c kind requester cfg)\<rparr>"

definition record_codec :: "trans_env \<Rightarrow> codec" where
  "record_codec env = (au_codec env)\<lparr>k_sha := g_sha (au_gov env)\<rparr>"

text \<open>\<open>archive\<close>: call \<open>j\<close> reads the accounts, keeps the record and preserves it, \<open>j + 1\<close> confirms it.\<close>

definition archive ::
    "trans_env \<Rightarrow> nat \<Rightarrow> SecurityChange \<Rightarrow> string \<Rightarrow> PolicyVersion \<Rightarrow> TransitionConfig \<Rightarrow> string svc" where
  "archive env j c kind policy cfg =
     svc_bind (svc_read (GetUserByID (au_db env j 0) (c_ApplierID c))) (\<lambda>u.
     svc_bind (svc_read (GetUserByID (au_db env j 1) (c_RequesterID c))) (\<lambda>r.
     case tr_envelope_json env (change_envelope c kind policy u r cfg (au_now env j)) of
       None \<Rightarrow> svc_get (\<lambda>_. Inl (AStore ErrJSON))
     | Some raw \<Rightarrow>
        svc_bind (svc_store (SecurityEvidenceBytes (write_env (base_env env) j) (c_ID c) kind raw)) (\<lambda>(kept, _).
        svc_refuse (ExpectedFor (record_codec env) kept = None) (AInvalid ''governance record'')
        (svc_bind (svc_get (\<lambda>_. tr_preserve env j kept)) (\<lambda>reference.
         svc_refuse (reference = []) ErrRecovery
        (svc_bind (svc_store (ConfirmSecurityEvidence (write_env (base_env env) (j + 1)) (c_ID c) kind reference)) (\<lambda>_.
         svc_ret reference)))))))"

section \<open>Applying and reconciling\<close>

definition prepareTransitionPayload ::
    "TransitionConfig \<Rightarrow> SecurityChangePayload \<Rightarrow> SecurityChangePayload result" where
  "prepareTransitionPayload cfg p =
     (let secret = (case pl_Recovery p of
           None \<Rightarrow> Inr p
         | Some r \<Rightarrow>
             if rv_Operation r \<noteq> ''password-reset'' then Inr p
             else case tc_ResolveSecret cfg of
               None \<Rightarrow> Inl ErrNotReady
             | Some resolve \<Rightarrow>
                (case resolve (rv_SecretRef r) of
                   None \<Rightarrow> Inl ErrNotReady
                 | Some (kind, v) \<Rightarrow>
                     if kind \<noteq> ''password'' then Inl ErrNotReady
                     else Inr (p\<lparr>pl_Recovery := Some (r\<lparr>rv_PreparedPasswordHash := v\<rparr>)\<rparr>))) in
      case secret of
        Inl e \<Rightarrow> Inl e
      | Inr p' \<Rightarrow>
          if pl_LDAP p' = None then Inr p'
          else case tc_PrepareChange cfg of None \<Rightarrow> Inl ErrNotReady | Some prepare \<Rightarrow> prepare p')"

definition opt_result :: "auth_error option \<Rightarrow> unit result" where
  "opt_result x = (case x of Some e \<Rightarrow> Inl e | None \<Rightarrow> Inr ())"

text \<open>The part of \<open>ReconcileChange\<close> that runs only while the old policy is active: evidence of the
  intent and the commit, the marker, the anchor, then the activation. Calls \<open>j\<close> to \<open>j + 10\<close>.\<close>

definition activate_transition ::
    "trans_env \<Rightarrow> nat \<Rightarrow> SecurityChange \<Rightarrow> SecurityChangePayload \<Rightarrow> PolicyVersion \<Rightarrow> PolicyVersion \<Rightarrow>
     TransitionConfig \<Rightarrow> unit svc" where
  "activate_transition env j c p old pend cfg =
     svc_bind (archive env j c PolicyIntent old cfg) (\<lambda>_.
     svc_bind (svc_get (\<lambda>_. if Profile (pv_Policy pend) = ''enhanced'' then opt_result (tr_ready env j (pv_Policy pend)) else Inr ())) (\<lambda>_.
     svc_bind (archive env (j + 2) c PolicyCommit old cfg) (\<lambda>commit.
     svc_bind (svc_store (RecordSecurityCommit (write_env (base_env env) (j + 4)) (c_ID c) commit)) (\<lambda>_.
     svc_bind (writeMarker env (j + 5) (tc_EnrollmentPath cfg)
        \<lparr>em_InstallationID = tc_InstallationID cfg, em_Version = pv_Version pend, em_SHA256 = pv_SHA256 pend\<rparr>) (\<lambda>_.
     svc_bind (archive env (j + 7) c PolicyAnchorType pend cfg) (\<lambda>_.
     svc_store (activateSecurityChange (write_env (base_env env) (j + 9)) c p)))))))"

text \<open>\<open>ReconcileChange\<close> as calls \<open>j\<close> and on: \<open>j\<close> reads the change, \<open>j + 1\<close> the state, \<open>j + 2\<close> the old
  version, \<open>j + 3\<close> and \<open>j + 4\<close> check continuity, \<open>j + 5\<close> marks or resumes, \<open>j + 10\<close> and on activate,
  \<open>j + 30\<close> archives the result, \<open>j + 32\<close> finishes, \<open>j + 33\<close> reads back.\<close>

definition complete_transition ::
    "trans_env \<Rightarrow> nat \<Rightarrow> string \<Rightarrow> TransitionConfig \<Rightarrow> SecurityChange \<Rightarrow> PolicyState \<Rightarrow> PolicyVersion \<Rightarrow>
     PolicyVersion \<Rightarrow> SecurityChange svc" where
  "complete_transition env j i cfg c st pend old =
     svc_bind (if st_State st = ''recovery_required''
         then svc_store (resumeSecurityApplying (write_env (base_env env) (j + 5)) i) else svc_ret ()) (\<lambda>_.
     svc_bind (svc_get (\<lambda>_. DecodeChange (base_env env) (c_Payload c))) (\<lambda>p0.
     svc_bind (svc_get (\<lambda>_. prepareTransitionPayload cfg p0)) (\<lambda>p.
     svc_bind (if pv_Version (st_Active st) = c_ExpectedVersion c
         then activate_transition env (j + 10) c p old pend cfg else svc_ret ()) (\<lambda>_.
     svc_bind (archive env (j + 30) c PolicyResult pend cfg) (\<lambda>result.
     svc_bind (svc_store (finishSecurityChange (write_env (base_env env) (j + 32)) i result)) (\<lambda>_.
     svc_read (GetSecurityChange (au_gov env) (au_db env (j + 33)) i)))))))"

definition reconcile_pending ::
    "trans_env \<Rightarrow> nat \<Rightarrow> string \<Rightarrow> TransitionConfig \<Rightarrow> SecurityChange \<Rightarrow> PolicyState \<Rightarrow> PolicyVersion \<Rightarrow>
     SecurityChange svc" where
  "reconcile_pending env j i cfg c st pend =
     svc_bind (svc_read (GetPolicyVersion (base_env env) (j + 2) (c_ExpectedVersion c))) (\<lambda>old s.
       case checkPendingRecovery env (j + 3) c st old cfg s of
         Some e \<Rightarrow> (Inl e, require_recovery env (j + 5) s)
       | None \<Rightarrow> complete_transition env j i cfg c st pend old s)"

definition ReconcileChange :: "trans_env \<Rightarrow> nat \<Rightarrow> string \<Rightarrow> TransitionConfig \<Rightarrow> SecurityChange svc" where
  "ReconcileChange env j i cfg =
     svc_bind (svc_read (GetSecurityChange (au_gov env) (au_db env j) i)) (\<lambda>c.
     if c_State c = ''applied'' then svc_ret c
     else svc_refuse (c_State c \<noteq> ''applying'' \<or> \<not> tc_Evidence cfg) ErrRecovery (\<lambda>s.
       case GetPolicyState (au_gov env) (au_db env (j + 1)) (as_db s) of
         Inl _ \<Rightarrow> (Inl ErrRecovery, s)
       | Inr st \<Rightarrow>
          (case st_Pending st of
             None \<Rightarrow> (Inl ErrRecovery, s)
           | Some pend \<Rightarrow>
              svc_refuse (st_PendingChange st \<noteq> i) ErrRecovery (reconcile_pending env j i cfg c st pend) s)))"

definition may_transition :: "PolicyState \<Rightarrow> SecurityChange \<Rightarrow> bool" where
  "may_transition st c \<longleftrightarrow> pv_Version (st_Active st) = c_ExpectedVersion c \<and> st_Pending st = None \<and>
     st_State st \<in> {''standard'', ''enhanced'', ''setup_pending''}"

definition candidate_policy :: "PolicyState \<Rightarrow> SecurityChangePayload \<Rightarrow> AuditPolicy" where
  "candidate_policy st p = (case pl_Policy p of Some pol \<Rightarrow> pol | None \<Rightarrow> pv_Policy (st_Active st))"

text \<open>The second half of \<open>Apply\<close>, after the applier is claimed: calls 6 to 40, then the
  reconciliation from 50.\<close>

definition start_transition ::
    "trans_env \<Rightarrow> string \<Rightarrow> TransitionConfig \<Rightarrow> SecurityChange svc" where
  "start_transition env i cfg =
     (let gov = au_gov env in
      svc_bind (svc_read (GetSecurityChange gov (au_db env 6) i)) (\<lambda>c.
      svc_bind (svc_read (GetPolicyState gov (au_db env 7))) (\<lambda>st.
      svc_refuse (\<not> may_transition st c) (AStore ErrSecurityConflict)
      (svc_bind (svc_get (\<lambda>_. DecodeChange (base_env env) (c_Payload c))) (\<lambda>p.
       svc_bind (svc_get (\<lambda>_. prepareTransitionPayload cfg p)) (\<lambda>_.
       let cand = candidate_policy st p in
       svc_refuse (\<not> tc_Evidence cfg \<or> tc_EnrollmentPath cfg = [] \<or> \<not> ValidID (tc_InstallationID cfg)) ErrNotReady
       (svc_bind (svc_get (\<lambda>_. if Profile cand = ''enhanced'' then opt_result (tr_ready env 8 cand) else Inr ())) (\<lambda>_.
        svc_bind (svc_get (\<lambda>_. if Profile cand = ''enhanced'' then opt_result (tr_qualify env 8 cand) else Inr ())) (\<lambda>_.
        svc_bind (if Profile (pv_Policy (st_Active st)) = ''enhanced'' then CheckAnchor env 20 cfg else svc_ret ()) (\<lambda>_.
        svc_bind (archive env 30 c PolicyIntent (st_Active st) cfg) (\<lambda>intent.
        svc_bind (svc_store (beginSecurityApply (write_env (base_env env) 40) c cand intent)) (\<lambda>_.
        ReconcileChange env 50 i cfg))))))))))))"

definition Apply ::
    "trans_env \<Rightarrow> string \<Rightarrow> string \<Rightarrow> string \<Rightarrow> string \<Rightarrow> TransitionConfig \<Rightarrow> SecurityChange svc" where
  "Apply env i user session proof cfg =
     (let b = base_env env in
      svc_bind (svc_read (GetSecurityChange (au_gov env) (au_db env 0) i)) (\<lambda>c.
      svc_bind (svc_get (\<lambda>s. AuthorityForChange b 1 c user ActionApply (as_db s))) (\<lambda>_.
      if c_State c = ''applied'' then svc_ret c
      else svc_refuse (c_State c = ''applying'') (AInvalid ''transition applying; reconciliation required'')
      (svc_bind (svc_get (\<lambda>s. AuthorityForChange b 2 c user ActionApply (as_db s))) (\<lambda>_.
       svc_check (\<lambda>s. ValidateQuorum b 1000 c (as_db s))
       (svc_bind (svc_get (\<lambda>s. AuthorityForChange b 3 c user ActionApply (as_db s))) (\<lambda>applier.
        svc_bind (svc_read (GetUserByID (au_db env 4 0) user)) (\<lambda>u.
        svc_bind (svc_store (ClaimSecurityApplier (write_env b 5) c user (ec_PersonID applier)
            (u_security_revision u) session proof)) (\<lambda>_.
        start_transition env i cfg))))))))) "

section \<open>Local continuity\<close>

text \<open>\<open>validateApprovedPolicy\<close>: the policy is the one its applied change approved, or the one before it
  when that change carries no policy, down to the initial record. Call \<open>2 v\<close> reads the change behind
  version \<open>v\<close> and call \<open>2 v + 1\<close> the version before it. \<open>Some\<close> is the refusal.\<close>

definition approved_type :: go_type where
  "approved_type = GStruct [tagged ''reason'' GScalar, tagged ''expected_version'' GScalar, tagged ''change'' change_type]"

definition initial_standard :: AuditPolicy where
  "initial_standard = \<lparr>Profile = ''standard'', Actors = [], Nodes = [], RuntimeSeconds = 3600, RetentionHours = 24,
     Destination = [], CredentialRef = [], TrustKeyIDs = [], QualificationSHA256 = []\<rparr>"

definition approved_change :: "auth_env \<Rightarrow> SecurityChange \<Rightarrow> SecurityChangePayload option" where
  "approved_change env c =
     (case Decode (k_tokens (au_codec env)) (au_approved env) approved_type (64 * 1024) (c_ApprovedBytes c) of
        None \<Rightarrow> None
      | Some (reason, expected, p) \<Rightarrow>
          if expected \<noteq> c_ExpectedVersion c \<or> reason \<noteq> c_Reason c \<or> validatePayload p \<noteq> None then None else Some p)"

definition change_matches :: "auth_env \<Rightarrow> SecurityChange \<Rightarrow> nat \<Rightarrow> bool \<Rightarrow> bool" where
  "change_matches env c v applying \<longleftrightarrow> c_ExpectedVersion c + 1 = v \<and> Digest env (c_ApprovedBytes c) = c_Digest c \<and>
     (c_State c = ''applied'' \<or> applying \<and> c_State c = ''applying'')"

lemma decode_version: "decodePolicyVersion env v sha req raw = Inr p \<Longrightarrow> pv_Version p = v"
  by (auto simp: decodePolicyVersion_def Let_def split: if_splits option.splits)

lemma read_version: "readPolicyVersion env f d v = Inr p \<Longrightarrow> pv_Version p = v"
  by (auto simp: readPolicyVersion_def decode_version split: if_splits option.splits)

function validateApprovedPolicy :: "auth_env \<Rightarrow> PolicyVersion \<Rightarrow> bool \<Rightarrow> db \<Rightarrow> auth_error option" where
  "validateApprovedPolicy env policy applying d =
     (let v = pv_Version policy in
      if 1 < v then
        (case GetSecurityChange (au_gov env) (au_db env (2 * v)) (pv_RequestID policy) d of
           Inl _ \<Rightarrow> Some ErrRecovery
         | Inr c \<Rightarrow>
             if \<not> change_matches env c v applying then Some ErrRecovery
             else case approved_change env c of
               None \<Rightarrow> Some ErrRecovery
             | Some p \<Rightarrow>
                (case pl_Policy p of
                   Some pol \<Rightarrow>
                     (case g_marshal (au_gov env) pol of
                        None \<Rightarrow> Some ErrRecovery
                      | Some raw \<Rightarrow> if Digest env raw \<noteq> pv_SHA256 policy then Some ErrRecovery else None)
                 | None \<Rightarrow>
                     (case GetPolicyVersion env (2 * v + 1) (c_ExpectedVersion c) d of
                        Inl _ \<Rightarrow> Some ErrRecovery
                      | Inr previous \<Rightarrow>
                          if pv_SHA256 previous \<noteq> pv_SHA256 policy then Some ErrRecovery
                          else validateApprovedPolicy env previous False d)))
      else if v \<noteq> 1 \<or> pv_RequestID policy \<noteq> [] then Some ErrRecovery
      else case g_marshal (au_gov env) initial_standard of
             None \<Rightarrow> Some ErrRecovery
           | Some raw \<Rightarrow> if pv_SHA256 policy \<noteq> Digest env raw then Some ErrRecovery else None)"
  by pat_completeness auto
termination
proof (relation "measure (\<lambda>(env, policy, applying, d). pv_Version policy)", goal_cases)
  case (2 env policy applying d v c p previous)
  then show ?case by (auto simp: change_matches_def GetPolicyVersion_def dest!: read_version)
qed simp

declare validateApprovedPolicy.simps [simp del]

text \<open>\<open>validateLocalExecutionPolicy\<close>: calls 0 and 1 are the marker, the enrolment and the pending change;
  the policies are checked as above.\<close>

definition settled_state :: "PolicyState \<Rightarrow> bool" where
  "settled_state st \<longleftrightarrow>
     (if st_State st = ''standard'' then Profile (pv_Policy (st_Active st)) = ''standard''
      else if st_State st = ''enhanced'' then Profile (pv_Policy (st_Active st)) = ''enhanced''
      else if st_State st = ''setup_pending'' then pv_Version (st_Active st) = 1 \<and>
        pv_RequestID (st_Active st) = [] \<and> Profile (pv_Policy (st_Active st)) = ''standard''
      else st_State st = ''recovery_required'')"

definition local_settled ::
    "trans_env \<Rightarrow> TransitionConfig \<Rightarrow> marker_file option \<Rightarrow> db \<Rightarrow> PolicyState \<Rightarrow> auth_error option" where
  "local_settled env cfg file d st =
     (let marker = readMarker env 0 (tc_EnrollmentPath cfg) file; act = st_Active st in
      if st_PendingChange st \<noteq> [] \<or> st_Previous st \<noteq> None then Some ErrRecovery
      else if \<not> settled_state st then Some ErrRecovery
      else case validateApprovedPolicy (base_env env) act False d of
        Some e \<Rightarrow> Some e
      | None \<Rightarrow>
          if pv_Version act = 1 \<and> marker = Inl ErrNotExist then
            (if governanceEnrolled (au_gov env) (au_db env 0 0) d = Inr False then None else Some ErrRecovery)
          else case marker of
            Inl _ \<Rightarrow> Some ErrRecovery
          | Inr m \<Rightarrow> if em_InstallationID m \<noteq> tc_InstallationID cfg \<or> \<not> is_version (em_Version m) (em_SHA256 m) act
                     then Some ErrRecovery else None)"

definition local_pending ::
    "trans_env \<Rightarrow> TransitionConfig \<Rightarrow> marker_file option \<Rightarrow> db \<Rightarrow> PolicyState \<Rightarrow> PolicyVersion \<Rightarrow> PolicyVersion \<Rightarrow>
     auth_error option" where
  "local_pending env cfg file d st pend prev =
     (let b = base_env env; activated = pv_Version (st_Active st) = pv_Version pend in
      if st_State st \<notin> {''applying'', ''recovery_required''} \<or> st_PendingChange st = [] \<or>
         pv_RequestID pend \<noteq> st_PendingChange st \<or> pv_Version pend \<noteq> pv_Version prev + 1 \<or>
         (pv_Version (st_Active st) \<noteq> pv_Version prev \<and> \<not> activated) then Some ErrRecovery
      else case validateApprovedPolicy b prev False d of
        Some e \<Rightarrow> Some e
      | None \<Rightarrow>
         (case validateApprovedPolicy b pend True d of
            Some e \<Rightarrow> Some e
          | None \<Rightarrow>
             (case GetSecurityChange (au_gov env) (au_db env 1) (st_PendingChange st) d of
                Inl _ \<Rightarrow> Some ErrRecovery
              | Inr c \<Rightarrow>
                  if c_State c \<noteq> ''applying'' \<or> c_ExpectedVersion c \<noteq> pv_Version prev \<or>
                     c_ExpectedVersion c + 1 \<noteq> pv_Version pend then Some ErrRecovery
                  else case readMarker env 0 (tc_EnrollmentPath cfg) file of
                    Inl e \<Rightarrow>
                      if \<not> activated \<and> e = ErrNotExist \<and> pv_Version prev = 1 \<and>
                         (case DecodeChange b (c_Payload c) of Inl _ \<Rightarrow> False | Inr p \<Rightarrow> pl_Kind p = ''bootstrap'')
                      then None else Some ErrRecovery
                  | Inr m \<Rightarrow>
                      if em_InstallationID m \<noteq> tc_InstallationID cfg then Some ErrRecovery
                      else if is_version (em_Version m) (em_SHA256 m) pend then None
                      else if \<not> activated \<and> is_version (em_Version m) (em_SHA256 m) prev then None
                      else Some ErrRecovery)))"

definition validateLocalExecutionPolicy ::
    "trans_env \<Rightarrow> TransitionConfig \<Rightarrow> marker_file option \<Rightarrow> db \<Rightarrow> PolicyState \<Rightarrow> auth_error option" where
  "validateLocalExecutionPolicy env cfg file d st =
     (case st_Pending st of
        None \<Rightarrow> local_settled env cfg file d st
      | Some pend \<Rightarrow>
         (case st_Previous st of None \<Rightarrow> Some ErrRecovery | Some prev \<Rightarrow> local_pending env cfg file d st pend prev))"

text \<open>\<open>ConfigureExecutionPolicy\<close>: the error it leaves in the service and the store's binding. \<open>clean\<close> is
  \<open>filepath.Clean\<close>; \<open>file\<close> is the marker file that the validator finds when it runs.\<close>

definition store_part :: "auth_error \<Rightarrow> store_error" where
  "store_part e = (case e of AStore x \<Rightarrow> x | _ \<Rightarrow> ErrPolicyRecovery)"

definition ConfigureExecutionPolicy ::
    "trans_env \<Rightarrow> (string \<Rightarrow> string) \<Rightarrow> TransitionConfig \<Rightarrow> marker_file option \<Rightarrow>
     (string \<times> policy_validator) option \<Rightarrow> auth_error option \<times> (string \<times> policy_validator) option" where
  "ConfigureExecutionPolicy env clean cfg file bound =
     (if tc_InstallationID cfg = [] \<and> tc_EnrollmentPath cfg = [] then (None, bound)
      else if \<not> ValidID (tc_InstallationID cfg) \<or> tc_EnrollmentPath cfg = [] then (Some ErrRecovery, bound)
      else let loc = cfg\<lparr>tc_EnrollmentPath := clean (tc_EnrollmentPath cfg), tc_Evidence := False,
                        tc_ResolveSecret := None, tc_PrepareChange := None\<rparr>;
               key = tc_InstallationID loc @ CHR 0x00 # tc_EnrollmentPath loc in
           case InstallExecutionPolicyValidator key
                  (Some (\<lambda>d st. map_option store_part (validateLocalExecutionPolicy env loc file d st))) bound of
             (e, bound') \<Rightarrow> (map_option AStore e, bound'))"

text \<open>\<open>Startup\<close> after the configuration: one attempt to reconcile a recorded transition, then the anchor.
  Calls 100 and on.\<close>

definition Startup :: "trans_env \<Rightarrow> TransitionConfig \<Rightarrow> unit svc" where
  "Startup env cfg =
     svc_refuse (au_config_err env \<noteq> None) (case au_config_err env of Some e \<Rightarrow> e | None \<Rightarrow> ErrRecovery)
     (svc_bind (svc_read (GetPolicyState (au_gov env) (au_db env 100))) (\<lambda>st.
      svc_bind (if st_Pending st \<noteq> None \<and> st_PendingChange st \<noteq> []
          then svc_bind (ReconcileChange env 110 (st_PendingChange st) cfg) (\<lambda>_. svc_ret ()) else svc_ret ()) (\<lambda>_.
      CheckAnchor env 200 cfg)))"

end
