(* ===== verification/Authorization_Props.thy ===== *)
theory Authorization_Props
  imports Transition Governance_Props
begin

text \<open>
  The authorization service over the governed store: the service only makes calls that the
  governance theorems cover, a policy binds from the moment its transition begins, a rolled-back
  database is refused, and capabilities come from roles.
\<close>

section \<open>What never goes back\<close>

text \<open>The columns of a change that no operation updates.\<close>

definition change_key :: "change_row \<Rightarrow> string \<times> int \<times> string \<times> string \<times> int \<times> nat \<times> string \<times> string" where
  "change_key r = (ch_id r, ch_revision r, ch_requester_id r, ch_requester_person r,
     ch_requester_generation r, ch_expected_version r, ch_digest r, ch_payload r)"

definition change_keys :: "db \<Rightarrow> (string \<times> int \<times> string \<times> string \<times> int \<times> nat \<times> string \<times> string) list" where
  "change_keys d = map change_key (changes d)"

text \<open>Versions and changes are only added, the active version does not fall, and a pending version
  stays pending until it is active.\<close>

definition moves_on :: "db \<Rightarrow> db \<Rightarrow> bool" where
  "moves_on d d' \<longleftrightarrow> (\<exists>vs. policy_versions d' = policy_versions d @ vs) \<and> (\<exists>ks. change_keys d' = change_keys d @ ks) \<and>
     ps_active (policy_state d) \<le> ps_active (policy_state d') \<and>
     (\<forall>v. ps_pending (policy_state d) = Some v \<longrightarrow>
        ps_pending (policy_state d') = Some v \<or> v \<le> ps_active (policy_state d'))"

lemma moves_on_refl [simp]: "moves_on d d"
  by (simp add: moves_on_def)

lemma moves_on_trans: "moves_on d1 d2 \<Longrightarrow> moves_on d2 d3 \<Longrightarrow> moves_on d1 d3"
  unfolding moves_on_def by (smt (verit) append.assoc order_trans)

lemma moves_on_same:
  assumes "policy_versions d' = policy_versions d" "change_keys d' = change_keys d"
    "ps_active (policy_state d') = ps_active (policy_state d)" "ps_pending (policy_state d') = ps_pending (policy_state d)"
  shows "moves_on d d'"
  using assms by (simp add: moves_on_def)

lemma change_keys_cong: "changes d' = changes d \<Longrightarrow> change_keys d' = change_keys d"
  by (simp add: change_keys_def)

lemma change_keys_update:
  assumes "changes d' = sql_update P f (changes d)" "\<And>r. change_key (f r) = change_key r"
  shows "change_keys d' = change_keys d"
  using assms by (auto simp: change_keys_def sql_update_def)

lemma core_moves_on: "core_frame d d' \<Longrightarrow> moves_on d d'"
  by (rule moves_on_same) (auto simp: core_frame_def intro: change_keys_cong)

lemma create_moves_on:
  assumes "CreateSecurityChange env c noms session proof d = (Inr u, d')" shows "moves_on d d'"
  using create_ok(1,3,6) [OF assms] by (auto simp: moves_on_def change_keys_def)

lemma approve_moves_on:
  assumes "AddSecurityApproval env c a session proof d = (Inr u, d')" shows "moves_on d d'"
  using assms by (rule approve_ok) (auto intro!: moves_on_same change_keys_update simp: change_key_def)

lemma claim_moves_on:
  assumes "ClaimSecurityApplier env c user person rv session proof d = (Inr u, d')" shows "moves_on d d'"
  using assms by (rule claim_ok) (auto intro!: moves_on_same change_keys_update simp: change_key_def)

lemma begin_moves_on:
  assumes "beginSecurityApply env c pol intent d = (Inr u, d')" "gov_inv d" shows "moves_on d d'"
proof (rule begin_ok [OF assms(1)])
  fix raw P
  assume a: "ps_pending_change (policy_state d) = []"
    and d': "d' = d\<lparr>policy_versions := policy_versions d @ [\<lparr>pv_version = c_ExpectedVersion c + 1, pv_payload = raw,
              pv_digest = SecurityDigest env raw, pv_request_id = c_ID c\<rparr>],
            policy_state := (policy_state d)\<lparr>ps_state := ''applying'',
              ps_pending := Some (c_ExpectedVersion c + 1), ps_pending_change := c_ID c\<rparr>,
            changes := sql_update P (\<lambda>r. r\<lparr>ch_state := ''applying'', ch_intent_ref := intent\<rparr>) (changes d)\<rparr>"
  have "ps_pending (policy_state d) = None"
    using inv_parts(2,3) [OF assms(2)] a
    by (cases "ps_pending (policy_state d)") (auto simp: stage_inv_def stage_ok_def changes_inv_def image_iff)
  moreover have "change_keys d' = change_keys d"
    by (rule change_keys_update [where P = P and f = "\<lambda>r. r\<lparr>ch_state := ''applying'', ch_intent_ref := intent\<rparr>"])
      (simp_all add: d' change_key_def)
  ultimately show ?thesis by (simp add: moves_on_def d')
qed

lemma activate_moves_on:
  assumes "activateSecurityChange env c p d = (Inr u, d')" "gov_inv d" shows "moves_on d d'"
proof (cases "d' = d")
  case False
  note ok = activate_two_person [OF assms(1) False inv_parts(4) [OF assms(2)]] activate_frame [OF assms(1)]
  then show ?thesis by (auto simp: moves_on_def change_keys_def)
qed simp

lemma finish_moves_on:
  assumes "finishSecurityChange env i ref d = (Inr u, d')" shows "moves_on d d'"
proof -
  from assms obtain pol :: PolicyVersion where
    s: "ps_pending (policy_state d) = Some (ps_active (policy_state d))"
    and d': "d' = d\<lparr>changes := sql_update (\<lambda>r. ch_id r = i \<and> ch_state r = ''applying'')
          (\<lambda>r. r\<lparr>ch_state := ''applied'', ch_result_ref := ref\<rparr>) (changes d),
        policy_state := (policy_state d)\<lparr>ps_state := if Profile (pv_Policy pol) = ''enhanced'' then ''enhanced'' else ''standard'',
          ps_pending := None, ps_pending_change := []\<rparr>\<rparr>"
    by (auto simp: finishSecurityChange_def gov_ok Let_def set_policy_state_def set_change_def dest!: tx_success)
  have "change_keys d' = change_keys d"
    by (rule change_keys_update [where P = "\<lambda>r. ch_id r = i \<and> ch_state r = ''applying''" and
        f = "\<lambda>r. r\<lparr>ch_state := ''applied'', ch_result_ref := ref\<rparr>"]) (simp_all add: d' change_key_def)
  with s show ?thesis by (simp add: moves_on_def d')
qed

lemma expire_moves_on:
  assumes "ExpireSecurityChanges env d = (Inr u, d')" shows "moves_on d d'"
  using assms
  by (auto simp: ExpireSecurityChanges_def gov_ok Let_def set_policy_state_def set_change_def change_keys_def
      sql_update_def change_key_def dest!: tx_success intro!: moves_on_same)

lemma small_moves_on:
  "InvalidateSecurityVotes env user d = (r1, d') \<Longrightarrow> moves_on d d'"
  "RecordSecurityCommit env i ref d = (r2, d') \<Longrightarrow> moves_on d d'"
  "requirePolicyRecovery env d = (r3, d') \<Longrightarrow> moves_on d d'"
  "resumeSecurityApplying env i d = (r4, d') \<Longrightarrow> moves_on d d'"
  "ConsumeStepup env proof user session act dig d = (Inr u, d') \<Longrightarrow> moves_on d d'"
  "IssueStepup env rf user session act dig now d = (r6, d') \<Longrightarrow> moves_on d d'"
  by (rule moves_on_same; auto simp: InvalidateSecurityVotes_def RecordSecurityCommit_def requirePolicyRecovery_def
      resumeSecurityApplying_def ConsumeStepup_def IssueStepup_def stmt_def refuse_if_def gov_ok Let_def set_policy_state_def
      set_change_def change_keys_def sql_update_def change_key_def
      dest!: tx_success consume_ok(2) split: if_splits option.splits)+

lemma run_moves_on:
  assumes "gov_run x d = (r, d')" "gov_inv d"
  shows "moves_on d d'"
  using assms by (cases x; cases r) (auto simp: unit_op_def
      dest: create_moves_on approve_moves_on claim_moves_on begin_moves_on activate_moves_on finish_moves_on
        expire_moves_on small_moves_on refused_unchanged
        core_moves_on [OF gov_core [OF side_frames(1)]] core_moves_on [OF gov_core [OF side_frames(2)]]
        core_moves_on [OF gov_core [OF side_frames(3)]] core_moves_on [OF gov_core [OF side_frames(5)]]
      intro: core_moves_on [OF gov_core [OF side_frames(4) [OF surjective_pairing]]]
        small_moves_on(6) [OF surjective_pairing])

lemma step_moves_on: "gov_step l d d' \<Longrightarrow> gov_inv d \<Longrightarrow> moves_on d d'"
  by (erule gov_stepE) (auto intro: run_moves_on core_moves_on [OF gov_core [OF account_step_frame]])

text \<open>The steps of the hub after a given state.\<close>

inductive gov_after :: "db \<Rightarrow> db \<Rightarrow> bool" where
  after_refl: "gov_after d d"
| after_step: "gov_after d d1 \<Longrightarrow> gov_step l d1 d2 \<Longrightarrow> gov_after d d2"

lemma after_reachable: "gov_after d d' \<Longrightarrow> gov_reachable d \<Longrightarrow> gov_reachable d'"
  by (induction rule: gov_after.induct) (auto intro: reach_step)

lemma after_moves_on: "gov_after d d' \<Longrightarrow> gov_reachable d \<Longrightarrow> moves_on d d'"
  by (induction rule: gov_after.induct)
    (blast intro: moves_on_refl moves_on_trans step_moves_on gov_reachable_inv after_reachable)+

section \<open>Interactive access during and after a transition\<close>

lemma version_row_kept:
  assumes "moves_on d d'" "version_row d v = Some r"
  shows "version_row d' v = Some r"
  using assms by (auto simp: moves_on_def version_row_def sql_first_def find_append)

lemma read_policy:
  assumes "readPolicyVersion env f d v = Inr p" "version_row d v = Some r" "g_policy env (pv_payload r) = Some pol"
  shows "pv_Policy p = pol"
  using assms by (auto simp: readPolicyVersion_def decodePolicyVersion_def Let_def split: if_splits option.splits)

lemma policy_state_parts:
  assumes "GetPolicyState env f d = Inr st"
  shows "readPolicyVersion env (f 1) d (ps_active (policy_state d)) = Inr (st_Active st)"
    "st_State st = ps_state (policy_state d)" "st_PendingChange st = ps_pending_change (policy_state d)"
    "ps_pending (policy_state d) = None \<Longrightarrow> st_Pending st = None \<and> st_Previous st = None"
    "ps_pending (policy_state d) = Some v \<Longrightarrow> \<exists>pend old r. st_Pending st = Some pend \<and> st_Previous st = Some old \<and>
       readPolicyVersion env (f 2) d v = Inr pend \<and> change_row_of d (ps_pending_change (policy_state d)) = Some r \<and>
       readPolicyVersion env (f 4) d (ch_expected_version r) = Inr old"
  using assms by (auto simp: GetPolicyState_def Let_def split: if_splits option.splits sum.splits)

text \<open>Whoever a policy that may apply covers is refused, and everybody while recovery is required.\<close>

lemma guard_covered:
  assumes "\<And>st. GetPolicyState (au_gov env) (au_db env j) d = Inr st \<Longrightarrow>
     Covers (pv_Policy (st_Active st)) actor node \<or> covered_by (st_Pending st) actor node"
  shows "GuardInteractive env j actor node d \<noteq> None"
  using assms by (auto simp: GuardInteractive_def PolicyForExecution_def Let_def split: option.splits sum.splits if_splits)

lemma guard_recovery:
  assumes "ps_state (policy_state d) = ''recovery_required''"
  shows "GuardInteractive env j actor node d \<noteq> None"
  using assms policy_state_parts(2) [of "au_gov env" "au_db env j" d]
  by (auto simp: GuardInteractive_def PolicyForExecution_def Let_def split: option.splits sum.splits if_splits)

text \<open>C4. A policy binds from the moment its transition begins. Once \<open>beginSecurityApply\<close> has
  installed a policy that covers an actor on a node, the interactive guard refuses that actor there
  in every later state of the hub, through every interleaving, failure, recovery and restart of the
  transition and after its completion, until a still newer policy version is active; whatever read
  of the guard fails. The hypothesis on the codec is that the stored text of the policy decodes to
  it.\<close>

theorem policy_binds_from_begin:
  assumes "gov_reachable d" "gov_admits (GBegin env c pol intent) d"
    and "beginSecurityApply env c pol intent d = (Inr (), d0)"
    and "gov_after d0 d'" "ps_active (policy_state d') \<le> c_ExpectedVersion c + 1"
    and "\<And>raw. g_marshal env pol = Some raw \<Longrightarrow> g_policy (au_gov a) raw = Some pol"
    and "Covers pol actor node"
  shows "GuardInteractive a j actor node d' \<noteq> None"
proof (rule begin_ok [OF assms(3)], rule guard_covered)
  fix raw P st
  let ?v = "c_ExpectedVersion c + 1"
  let ?row = "\<lparr>pv_version = ?v, pv_payload = raw, pv_digest = SecurityDigest env raw, pv_request_id = c_ID c\<rparr>"
  assume raw: "g_marshal env pol = Some raw" and fresh: "?v \<notin> pv_version ` set (policy_versions d)"
    and d0: "d0 = d\<lparr>policy_versions := policy_versions d @ [?row],
      policy_state := (policy_state d)\<lparr>ps_state := ''applying'', ps_pending := Some ?v, ps_pending_change := c_ID c\<rparr>,
      changes := sql_update P (\<lambda>r. r\<lparr>ch_state := ''applying'', ch_intent_ref := intent\<rparr>) (changes d)\<rparr>"
    and st: "GetPolicyState (au_gov a) (au_db a j) d' = Inr st"
  have "gov_reachable d0" using reach_step [OF assms(1) step_gov [OF assms(2)]] assms(3) by simp
  then have on: "moves_on d0 d'" by (rule after_moves_on [OF assms(4)])
  have "find (\<lambda>r. pv_version r = ?v) (policy_versions d) = None" using fresh by (force simp: find_None_iff)
  then have "version_row d0 ?v = Some ?row" by (simp add: d0 version_row_def sql_first_def find_append)
  note row = version_row_kept [OF on this] and pol = assms(6) [OF raw]
  have "ps_pending (policy_state d') = Some ?v \<or> ps_active (policy_state d') = ?v"
    using on assms(5) by (auto simp: moves_on_def d0)
  then show "Covers (pv_Policy (st_Active st)) actor node \<or> covered_by (st_Pending st) actor node"
  proof
    assume "ps_pending (policy_state d') = Some ?v"
    from policy_state_parts(5) [OF st this] obtain pend where "st_Pending st = Some pend"
      "readPolicyVersion (au_gov a) (au_db a j 2) d' ?v = Inr pend" by blast
    with read_policy [OF _ row] pol assms(7) show ?thesis by (auto simp: covered_by_def)
  next
    assume "ps_active (policy_state d') = ?v"
    with policy_state_parts(1) [OF st] read_policy [OF _ row] pol assms(7) show ?thesis by auto
  qed
qed

definition demo_auth :: auth_env where
  "demo_auth = \<lparr>au_gov = demo_env [],
     au_codec = \<lparr>k_sha = pad64, k_tokens = (\<lambda>_. ([], True)), k_envelope = (\<lambda>_. None), k_actor_json = (\<lambda>_. []),
       k_binding_json = (\<lambda>_. [])\<rparr>,
     au_payload = (\<lambda>_. None), au_approved = (\<lambda>_. None), au_payload_json = (\<lambda>_. None), au_proposal_json = (\<lambda>_. None),
     au_db = (\<lambda>_ _. False), au_cfg = (\<lambda>_ _. False), au_now = (\<lambda>_. 2100 * second), au_write = (\<lambda>_. demo_env []),
     au_uuid = ''chg'', au_config_err = None, au_bound = Some (''k'', \<lambda>d st. None)\<rparr>"

definition demo_claimed :: db where
  "demo_claimed = run_state gov_run (take 8 demo_calls) demo_db"

definition demo_begin :: gov_call where
  "demo_begin = GBegin (demo_env []) demo_change (demo_policy ''enhanced'') ''intent''"

lemma admitted_append: "admitted (xs @ ys) d \<longleftrightarrow> admitted xs d \<and> admitted ys (run_state gov_run xs d)"
  by (induction xs arbitrary: d) auto

lemma demo_claimed_admitted: "admitted (take 8 demo_calls) demo_db" "gov_admits demo_begin demo_claimed"
proof -
  have "demo_calls = take 8 demo_calls @ [demo_begin, GCommit (demo_env []) ''chg'' ''commit'']"
    by (simp add: demo_calls_def demo_begin_def)
  with demo_run have "admitted (take 8 demo_calls @ [demo_begin, GCommit (demo_env []) ''chg'' ''commit'']) demo_db" by simp
  then show "admitted (take 8 demo_calls) demo_db" "gov_admits demo_begin demo_claimed"
    by (simp_all only: admitted_append admitted.simps demo_claimed_def simp_thms)
qed

lemma demo_claimed_begun: "map_prod id (\<lambda>d. ps_active (policy_state d)) (gov_run demo_begin demo_claimed) = (Inr (), 1)"
  by code_simp

lemma demo_claimed_open: "GuardInteractive demo_auth 0 ''u1'' ''node'' demo_claimed = None"
  by code_simp

lemmas demo_claimed_run = demo_claimed_admitted demo_claimed_begun demo_claimed_open

theorem policy_binds_from_begin_witness:
  "GuardInteractive demo_auth 0 ''u1'' ''node'' demo_claimed = None \<and>
   GuardInteractive demo_auth 0 ''u1'' ''node'' (snd (gov_run demo_begin demo_claimed)) \<noteq> None"
proof -
  have reach: "gov_reachable demo_claimed"
    unfolding demo_claimed_def using demo_claimed_run by (intro admitted_reachable reach_init demo_initial) simp
  have beg: "beginSecurityApply (demo_env []) demo_change (demo_policy ''enhanced'') ''intent'' demo_claimed =
      (Inr (), snd (gov_run demo_begin demo_claimed))"
    using demo_claimed_begun by (auto simp: demo_begin_def map_prod_def split: prod.splits)
  have "GuardInteractive demo_auth 0 ''u1'' ''node'' (snd (gov_run demo_begin demo_claimed)) \<noteq> None"
    by (rule policy_binds_from_begin [OF reach _ beg after_refl])
      (use demo_claimed_run in \<open>auto simp: demo_begin_def map_prod_def split_beta demo_change_def demo_auth_def demo_env_def Covers_def demo_policy_def\<close>)
  with demo_claimed_run show ?thesis by simp
qed

section \<open>Rollback\<close>

text \<open>An accepted anchor is that of the active policy, of the pending one or of the one it replaces.\<close>

lemma pending_anchor:
  assumes "checkPendingRecovery env j c st old cfg s = None" "st_Pending st = Some pend"
    and "tr_anchor env j (tc_InstallationID cfg) = Inr a"
  shows "pa_Version a = pv_Version pend \<or> pa_Version a = pv_Version old"
  using assms by (auto simp: checkPendingRecovery_def anchor_resumes_def is_version_def Let_def split: if_splits sum.splits)

text \<open>The version a transition replaces is the one below the pending version.\<close>

lemma previous_version:
  assumes "gov_inv d" "GetPolicyState env f d = Inr st" "ps_pending (policy_state d) = Some v"
  obtains pend old where "st_Pending st = Some pend" "st_Previous st = Some old" "pv_Version pend = v"
    "Suc (pv_Version old) = v" "st_PendingChange st \<noteq> []"
proof -
  from policy_state_parts(5) [OF assms(2,3)] obtain pend old r where p: "st_Pending st = Some pend" "st_Previous st = Some old"
    "readPolicyVersion env (f 2) d v = Inr pend" "change_row_of d (ps_pending_change (policy_state d)) = Some r"
    "readPolicyVersion env (f 4) d (ch_expected_version r) = Inr old" by blast
  from inv_parts(3) [OF assms(1)] assms(3) obtain r' where r': "r' \<in> set (changes d)"
    "ch_id r' = ps_pending_change (policy_state d)" "Suc (ch_expected_version r') = v"
    by (auto simp: stage_inv_def stage_ok_def)
  from p(4) have r: "r \<in> set (changes d)" "ch_id r = ps_pending_change (policy_state d)"
    by (auto simp: change_row_of_def dest: sql_first_Some)
  from inv_parts(2) [OF assms(1)] r r' have "r' = r" "ps_pending_change (policy_state d) \<noteq> []"
    by (auto simp: changes_inv_def distinct_map inj_on_def image_iff)
  with p r' policy_state_parts(3) [OF assms(2)] read_version show thesis by (intro that) auto
qed

lemma anchor_not_ahead:
  assumes "gov_inv (as_db s)" "tc_Evidence cfg" "\<And>k. tr_anchor env k (tc_InstallationID cfg) = Inr a"
    and "ValidateAnchor env j cfg s = None"
  shows "pa_Version a \<le> top_version (policy_state (as_db s))"
proof -
  let ?d = "as_db s"
  from assms(4) obtain st where st: "GetPolicyState (au_gov env) (au_db env j) ?d = Inr st"
    by (auto simp: ValidateAnchor_def Let_def split: sum.splits)
  show ?thesis
  proof (cases "ps_pending (policy_state ?d)")
    case (Some v)
    then obtain pend old where p: "st_Pending st = Some pend" "st_Previous st = Some old" "pv_Version pend = v"
      "Suc (pv_Version old) = v" "st_PendingChange st \<noteq> []" by (rule previous_version [OF assms(1) st])
    with assms(2,4) st obtain c where "checkPendingRecovery env (j + 2) c st old cfg s = None"
      by (auto simp: ValidateAnchor_def Let_def split: sum.splits)
    from pending_anchor [OF this p(1) assms(3)] p(3,4) Some show ?thesis by (auto simp: top_version_def)
  next
    case None
    with policy_state_parts(4) [OF st] have "st_Pending st = None" by simp
    with assms(2-4) st have "pa_Version a = pv_Version (st_Active st)"
      by (auto simp: ValidateAnchor_def committed_ok_def is_version_def Let_def split: sum.splits if_splits)
    moreover have "pv_Version (st_Active st) = ps_active (policy_state ?d)"
      using policy_state_parts(1) [OF st] by (rule read_version)
    ultimately show ?thesis using None by (simp add: top_version_def)
  qed
qed

text \<open>C5. A rolled-back database is refused and frozen. When the external authority's latest anchor is
  newer than any policy version the database knows, active or pending, the start-up check fails,
  whatever the enrollment marker says, and if the store takes the write it leaves the hub in
  \<open>recovery_required\<close>, where the interactive guard refuses every actor on every node.\<close>

theorem rollback_frozen:
  assumes "gov_reachable (as_db s)" "tc_Evidence cfg" "\<And>k. tr_anchor env k (tc_InstallationID cfg) = Inr a"
    and "top_version (policy_state (as_db s)) < pa_Version a" "\<not> g_db (au_write env (j + 6)) 0 0"
  shows "(\<exists>e. fst (CheckAnchor env j cfg s) = Inl e) \<and>
     GuardInteractive b k actor node (as_db (snd (CheckAnchor env j cfg s))) \<noteq> None"
proof -
  from anchor_not_ahead [OF gov_reachable_inv [OF assms(1)] assms(2,3)] assms(4)
  obtain e where e: "ValidateAnchor env j cfg s = Some e" by fastforce
  have "ps_state (policy_state (as_db (snd (CheckAnchor env j cfg s)))) = ''recovery_required''"
    using assms(5) by (simp add: CheckAnchor_def e require_recovery_def requirePolicyRecovery_def stmt_def
        set_policy_state_def write_env_def base_env_def auth_env.truncate_def)
  from guard_recovery [OF this] e show ?thesis by (simp add: CheckAnchor_def)
qed

definition demo_trans :: trans_env where
  "demo_trans = auth_env.extend demo_auth
     \<lparr>tr_lstat = (\<lambda>_. None), tr_dir_ok = (\<lambda>_. True), tr_open = (\<lambda>_. None), tr_dot = (\<lambda>_. None), tr_dot_ok = (\<lambda>_. True),
      tr_file = (\<lambda>_ _. None), tr_marker = (\<lambda>_. None), tr_marker_json = (\<lambda>_. Some []), tr_envelope_json = (\<lambda>_. None),
      tr_preserve = (\<lambda>_ _. Inl AExternal),
      tr_anchor = (\<lambda>_ i. Inr \<lparr>pa_InstallationID = i, pa_Version = 2, pa_SHA256 = [], pa_RequestID = [], pa_RequestSHA256 = []\<rparr>),
      tr_ready = (\<lambda>_ _. None), tr_qualify = (\<lambda>_ _. None)\<rparr>"

definition demo_config :: TransitionConfig where
  "demo_config = \<lparr>tc_Evidence = True, tc_EnrollmentPath = ''/p'', tc_InstallationID = ''i'', tc_ResolveSecret = None,
     tc_PrepareChange = None\<rparr>"

theorem rollback_frozen_witness:
  "\<exists>e. fst (CheckAnchor demo_trans 0 demo_config \<lparr>as_db = demo_db, as_marker = None\<rparr>) = Inl e"
  using rollback_frozen [of "\<lparr>as_db = demo_db, as_marker = None\<rparr>" demo_config demo_trans
      "\<lparr>pa_InstallationID = ''i'', pa_Version = 2, pa_SHA256 = [], pa_RequestID = [], pa_RequestSHA256 = []\<rparr>" 0 demo_auth 0 "[]" "[]"]
    reach_init [OF demo_initial]
  by (simp add: demo_trans_def demo_config_def auth_env.extend_def demo_auth_def demo_env_def top_version_def demo_db_def empty_db_def)

section \<open>Capabilities\<close>

lemma capability_mem:
  "c \<in> set (capabilities rs u) \<longleftrightarrow> c \<in> set capability_order \<and>
     (c = ''nodes.read'' \<or> (\<exists>r \<in> set rs. c \<in> set (role_capabilities r)) \<or>
      c = ''terminal.execute'' \<and> ((\<exists>r \<in> set rs. ''operations.admin'' \<in> set (role_capabilities r)) \<or>
        u_auth_provider u = AuthProviderLDAP \<and> u_terminal_access u))"
  by (auto simp: capabilities_def Let_def)

lemma governed_capability:
  "c \<in> {ActionRequest, ActionApprove, ActionApply, ''audit.original.read''} \<Longrightarrow> c \<in> set (role_capabilities r) \<Longrightarrow> IsSecurityRole r"
  "''security.bootstrap'' \<in> set (role_capabilities r) \<longleftrightarrow> r = RoleAdmin"
  "''terminal.execute'' \<notin> set (role_capabilities r)"
  by (auto simp: role_capabilities_def action_names IsSecurityRole_def role_names split: if_splits)

lemma capability_order_distinct: "distinct capability_order"
  by code_simp

lemma user_roles_read: "UserRoles f user d = Inr rs \<Longrightarrow> set rs = {r. has_role d user r}"
  by (auto simp: UserRoles_def has_role_def split: if_splits)

lemma effective_parts:
  assumes "Effective env j user d = Inr e"
  obtains u p where "find_user d user = Some u" "AccountPolicy (au_cfg env j) d = Inr p"
    "Refusal (Evaluate_account (input_of_row u) (au_now env j) p) = None"
    "set (ec_Roles e) = {r. has_role d user r}" "ec_Capabilities e = capabilities (ec_Roles e) u"
  using assms
  by (auto simp: Effective_def GetUserByID_def user_roles_read split: sum.splits if_splits option.splits)

text \<open>C37. Effective capabilities are well formed and come from roles. They are reported only for an
  account that exists and is neither disabled nor dormant; they are distinct values of the closed
  list; the right to request, approve or apply a security change or to read originals is exactly
  the one a governed security role of the account gives, so that no legacy role and no directory
  attribute confers it; and bootstrapping is exactly the administrator's.\<close>

theorem capabilities_from_roles:
  assumes "Effective env j user d = Inr e"
  shows "distinct (ec_Capabilities e) \<and> set (ec_Capabilities e) \<subseteq> set capability_order \<and>
     (\<forall>c \<in> {ActionRequest, ActionApprove, ActionApply, ''audit.original.read''}.
        Can e c \<longleftrightarrow> (\<exists>r. IsSecurityRole r \<and> has_role d user r \<and> c \<in> set (role_capabilities r))) \<and>
     (Can e ''security.bootstrap'' \<longleftrightarrow> has_role d user RoleAdmin) \<and>
     (\<exists>u p. find_user d user = Some u \<and> AccountPolicy (au_cfg env j) d = Inr p \<and>
        Evaluate_account (input_of_row u) (au_now env j) p \<in> {StatusActive, StatusLocked})"
proof (rule effective_parts [OF assms], intro conjI)
  fix u p
  assume u: "find_user d user = Some u" "AccountPolicy (au_cfg env j) d = Inr p"
    "Refusal (Evaluate_account (input_of_row u) (au_now env j) p) = None"
    and roles: "set (ec_Roles e) = {r. has_role d user r}" and caps: "ec_Capabilities e = capabilities (ec_Roles e) u"
  show "distinct (ec_Capabilities e)" "set (ec_Capabilities e) \<subseteq> set capability_order"
    unfolding caps capabilities_def Let_def using capability_order_distinct by simp_all
  show "\<forall>c \<in> {ActionRequest, ActionApprove, ActionApply, ''audit.original.read''}.
        Can e c \<longleftrightarrow> (\<exists>r. IsSecurityRole r \<and> has_role d user r \<and> c \<in> set (role_capabilities r))"
  proof
    fix c assume c: "c \<in> {ActionRequest, ActionApprove, ActionApply, ''audit.original.read''}"
    then have "c \<in> set capability_order" "c \<noteq> ''nodes.read''" "c \<noteq> ''terminal.execute''"
      by (auto simp: capability_order_def action_names)
    then show "Can e c \<longleftrightarrow> (\<exists>r. IsSecurityRole r \<and> has_role d user r \<and> c \<in> set (role_capabilities r))"
      using governed_capability(1) [OF c] by (auto simp: Can_def caps capability_mem roles)
  qed
  show "Can e ''security.bootstrap'' \<longleftrightarrow> has_role d user RoleAdmin"
    by (auto simp: Can_def caps capability_mem roles governed_capability(2) capability_order_def)
  show "\<exists>u p. find_user d user = Some u \<and> AccountPolicy (au_cfg env j) d = Inr p \<and>
        Evaluate_account (input_of_row u) (au_now env j) p \<in> {StatusActive, StatusLocked}"
    using u by (intro exI [of _ u] exI [of _ p]) (cases "Evaluate_account (input_of_row u) (au_now env j) p"; simp)
qed

lemma demo_effective:
  "Effective demo_auth 0 ''u1'' demo_db = Inr \<lparr>ec_UserID = ''u1'', ec_PersonID = ''user:u1'', ec_Roles = [RoleAdmin],
     ec_Capabilities = [''nodes.read'', ''operations.admin'', ''audit.read'', ''terminal.execute'', ''security.bootstrap'']\<rparr>"
  by code_simp

theorem capabilities_from_roles_witness:
  "\<exists>e. Effective demo_auth 0 ''u1'' demo_db = Inr e \<and> Can e ''security.bootstrap'' \<and> \<not> Can e ActionApply \<and>
     has_role demo_db ''u1'' RoleAdmin"
  using capabilities_from_roles [OF demo_effective] demo_effective by (auto simp: Can_def action_names)

text \<open>Finding: the kind \<open>audit-settings\<close> is validated without the check that the other kinds have
  for stray nominations.\<close>

lemma settings_with_nominations:
  "\<exists>p. validatePayload p = None \<and> pl_Kind p = ''audit-settings'' \<and> pl_Nominations p \<noteq> []"
  by (rule exI [of _ "zero_payload\<lparr>pl_Kind := ''audit-settings'', pl_Nominations := demo_nominations,
      pl_AuditSettings := Some \<lparr>RetentionDays = 90, ReviewReminderDays = 7, PasswordHistoryCount = 5,
        TemporaryPasswordTTLHours = 72, Thresholds = \<lparr>LoginFailuresPerHour = 10, RegistrationFailuresPerHour = 5,
        PrivilegedActionsPerHour = 20\<rparr>\<rparr>\<rparr>"])
    (simp add: validatePayload_def zero_payload_def reject_def present_def ValidateAuditSettings_def demo_nominations_def)

end
