(* ===== verification/Service_Props.thy ===== *)
theory Service_Props
  imports Authorization_Props
begin

text \<open>
  Every call of the authorization service takes the governed store through steps of
  \<open>Governance\<close> only: what the governance theorems ask of their callers holds of this one.
\<close>

section \<open>Service calls as steps of the store\<close>

lemma after_trans: "gov_after d2 d3 \<Longrightarrow> gov_after d1 d2 \<Longrightarrow> gov_after d1 d3"
  by (induction rule: gov_after.induct) (auto intro: after_step)

lemma after_run: "gov_admits x d \<Longrightarrow> gov_after d (snd (gov_run x d))"
  by (rule after_step [OF after_refl step_gov [OF _ surjective_pairing]])

text \<open>A service computation from states with \<open>I\<close>.\<close>

definition governed :: "(db \<Rightarrow> bool) \<Rightarrow> 'a svc \<Rightarrow> bool" where
  "governed I m \<longleftrightarrow>
     (\<forall>s. gov_reachable (as_db s) \<longrightarrow> I (as_db s) \<longrightarrow> gov_after (as_db s) (as_db (snd (m s))))"

lemma governedI:
  "(\<And>s. gov_reachable (as_db s) \<Longrightarrow> I (as_db s) \<Longrightarrow> gov_after (as_db s) (as_db (snd (m s)))) \<Longrightarrow> governed I m"
  by (simp add: governed_def)

lemma governed_weaken: "governed (\<lambda>_. True) m \<Longrightarrow> governed I m"
  by (simp add: governed_def)

lemma svc_store_db [simp]: "as_db (snd (svc_store m s)) = snd (m (as_db s))"
  by (simp add: svc_store_def split: prod.splits)

text \<open>What holds of the store and is never lost.\<close>

locale lasting =
  fixes I :: "db \<Rightarrow> bool"
  assumes lasts: "gov_reachable d \<Longrightarrow> gov_after d d' \<Longrightarrow> I d \<Longrightarrow> I d'"
begin

lemma governed_bind:
  assumes "governed I m" "\<And>v. governed I (f v)"
  shows "governed I (svc_bind m f)"
proof (rule governedI)
  fix s :: auth_state assume s: "gov_reachable (as_db s)" "I (as_db s)"
  obtain r s1 where m: "m s = (r, s1)" by fastforce
  from assms(1) s have a: "gov_after (as_db s) (as_db s1)" by (metis governed_def m snd_conv)
  have "gov_after (as_db s1) (as_db (snd (f v s1)))" for v
    using assms(2) lasts [OF s(1) a s(2)] after_reachable [OF a s(1)] by (simp add: governed_def)
  with a show "gov_after (as_db s) (as_db (snd (svc_bind m f s)))"
    by (cases r) (auto simp: svc_bind_def m intro: after_trans)
qed

lemma governed_pure:
  "governed I (svc_get g)" "governed I (svc_read h)" "governed I (svc_ret v)"
  "governed I k \<Longrightarrow> governed I (svc_refuse c e k)" "governed I k \<Longrightarrow> governed I (svc_check chk k)"
  by (auto simp: governed_def svc_get_def svc_read_def svc_ret_def svc_refuse_def svc_check_def after_refl split: option.splits)

lemma governed_store:
  assumes "\<And>d. snd (m d) = snd (gov_run x d)" "\<And>d. gov_reachable d \<Longrightarrow> I d \<Longrightarrow> gov_admits x d"
  shows "governed I (svc_store m)"
  by (rule governedI) (simp add: assms after_run)

lemma governed_recover: "gov_reachable (as_db s) \<Longrightarrow> gov_after (as_db s) (as_db (require_recovery env j s))"
  using after_run [of "GRecover (write_env (base_env env) j)" "as_db s"] by (simp add: require_recovery_def)

lemma governed_calls:
  "governed I (svc_store (SecurityEvidenceBytes e i kind raw))" "governed I (svc_store (ConfirmSecurityEvidence e i kind ref))"
  "governed I (svc_store (RecordSecurityCommit e i ref))" "governed I (svc_store (finishSecurityChange e i ref))"
  "governed I (svc_store (resumeSecurityApplying e i))"
  "governed I (svc_store (ClaimSecurityApplier e c user person rv session proof))"
  by (rule governed_store [where x = "GEvidence e i kind raw"] governed_store [where x = "GConfirm e i kind ref"]
      governed_store [where x = "GCommit e i ref"] governed_store [where x = "GFinish e i ref"]
      governed_store [where x = "GResume e i"] governed_store [where x = "GClaim e c user person rv session proof"];
      simp add: unit_op_def; fail)+

lemma governed_archive: "governed I (archive env j c kind policy cfg)"
  unfolding archive_def
  by (intro governed_bind governed_pure) (auto split: option.splits intro!: governed_bind governed_pure governed_calls)

lemma governed_marker: "governed I (writeMarker env j path m)"
  by (rule governedI) (auto simp: writeMarker_def Let_def after_refl split: option.splits)

lemma governed_anchor: "governed I (CheckAnchor env j cfg)"
  by (rule governedI) (auto simp: CheckAnchor_def after_refl governed_recover split: option.splits)

lemmas governed_intros = governed_bind governed_pure governed_calls governed_archive governed_marker governed_anchor

end

text \<open>Nothing, and that a change is the one that was read.\<close>

interpretation anything: lasting "\<lambda>_. True"
  by unfold_locales

definition known :: "SecurityChange \<Rightarrow> db \<Rightarrow> bool" where
  "known c d \<longleftrightarrow> (\<exists>r \<in> set (changes d). read_as c r)"

lemma read_as_key:
  "read_as c r \<longleftrightarrow> change_key r = (c_ID c, c_Revision c, c_RequesterID c, c_RequesterPersonID c,
     c_RequesterGeneration c, c_ExpectedVersion c, c_Digest c, c_ApprovedBytes c)"
  by (auto simp: read_as_def change_key_def)

lemma known_lasts:
  assumes "gov_reachable d" "gov_after d d'" "known c d"
  shows "known c d'"
proof -
  from after_moves_on [OF assms(2,1)] have "set (change_keys d) \<subseteq> set (change_keys d')"
    by (auto simp: moves_on_def)
  with assms(3) show ?thesis by (force simp: known_def read_as_key change_keys_def)
qed

interpretation read_change: lasting "known c" for c
  by unfold_locales (rule known_lasts)

lemma known_admits:
  assumes "gov_reachable d" "known c d"
  shows "gov_admits (GBegin env c pol intent) d" "gov_admits (GActivate env c p) d"
proof -
  obtain r where r: "r \<in> set (changes d)" "read_as c r" using assms(2) by (auto simp: known_def)
  have "read_as c r'" if "r' \<in> set (changes d)" "ch_id r' = c_ID c" for r'
    using same_change [OF inv_parts(2) [OF gov_reachable_inv [OF assms(1)]] r(1) that(1)] r(2) that(2)
    by (simp add: read_as_def)
  then show "gov_admits (GBegin env c pol intent) d" "gov_admits (GActivate env c p) d" by auto
qed

lemma get_change_known: "GetSecurityChange env f i d = Inr c \<Longrightarrow> known c d"
  by (auto simp: GetSecurityChange_def scanSecurityChange_def change_row_of_def known_def read_as_def
      split: if_splits option.splits sum.splits dest!: sql_first_Some intro!: bexI)

lemma governed_read_change:
  assumes "\<And>c. governed (known c) (f c)"
  shows "governed I (svc_bind (svc_read (GetSecurityChange env fl i)) f)"
proof (rule governedI)
  fix s :: auth_state assume "gov_reachable (as_db s)"
  then show "gov_after (as_db s) (as_db (snd (svc_bind (svc_read (GetSecurityChange env fl i)) f s)))"
    using assms by (cases "GetSecurityChange env fl i (as_db s)")
      (auto simp: svc_bind_def svc_read_def lift_store_def after_refl governed_def get_change_known)
qed

section \<open>The operations\<close>

lemma governed_writes:
  "governed (known c) (svc_store (beginSecurityApply e c pol intent))"
  "governed (known c) (svc_store (activateSecurityChange e c p))"
  by (rule read_change.governed_store [where x = "GBegin e c pol intent"]
      read_change.governed_store [where x = "GActivate e c p"]; simp add: known_admits del: gov_admits.simps; fail)+

lemma governed_activate: "governed (known c) (activate_transition env j c p old pend cfg)"
  unfolding activate_transition_def by (intro read_change.governed_intros governed_writes)

lemma governed_if: "governed I m \<Longrightarrow> governed I k \<Longrightarrow> governed I (if b then m else k)"
  by simp

lemma governed_complete: "governed (known c) (complete_transition env j i cfg c st pend old)"
  unfolding complete_transition_def by (intro read_change.governed_intros governed_if governed_activate)

lemma governed_reconcile_pending: "governed (known c) (reconcile_pending env j i cfg c st pend)"
proof -
  have "governed (known c) (\<lambda>s. case checkPendingRecovery env (j + 3) c st old cfg s of
      Some e \<Rightarrow> (Inl e, require_recovery env (j + 5) s) | None \<Rightarrow> complete_transition env j i cfg c st pend old s)" for old
    using governed_complete [of c env j i cfg st pend old]
    by (auto simp: governed_def read_change.governed_recover split: option.splits)
  then show ?thesis unfolding reconcile_pending_def by (intro read_change.governed_intros)
qed

lemma governed_reconcile: "governed I (ReconcileChange env j i cfg)"
proof -
  have "governed (known c) (\<lambda>s. case GetPolicyState (au_gov env) (au_db env (j + 1)) (as_db s) of
         Inl _ \<Rightarrow> (Inl ErrRecovery, s)
       | Inr st \<Rightarrow>
          (case st_Pending st of
             None \<Rightarrow> (Inl ErrRecovery, s)
           | Some pend \<Rightarrow>
              svc_refuse (st_PendingChange st \<noteq> i) ErrRecovery (reconcile_pending env j i cfg c st pend) s))" for c
    using governed_reconcile_pending [of c env j i cfg]
    by (auto simp: governed_def svc_refuse_def after_refl split: sum.splits option.splits)
  then show ?thesis unfolding ReconcileChange_def
    by (intro governed_read_change governed_if read_change.governed_intros)
qed

lemma governed_start: "governed I (start_transition env i cfg)"
  unfolding start_transition_def Let_def
  by (intro governed_read_change read_change.governed_intros governed_if governed_writes governed_reconcile)

lemma governed_apply: "governed I (Apply env i user session proof cfg)"
  unfolding Apply_def Let_def
  by (intro governed_read_change governed_if read_change.governed_intros governed_start)

lemma governed_startup: "governed (\<lambda>_. True) (Startup env cfg)"
  unfolding Startup_def by (intro anything.governed_intros governed_if governed_reconcile)

lemma request_governed:
  assumes "au_uuid env \<noteq> []"
  shows "gov_after d (snd (Request env user session proof proposal d))"
proof -
  have "gov_after d (snd (CreateSecurityChange e (new_request env user person rv pw) noms session proof d))" for e person rv pw noms
    using after_run [of "GCreate e (new_request env user person rv pw) noms session proof" d] assms
    by (simp add: new_request_def)
  then show ?thesis
    by (auto simp: Request_def Let_def after_refl split: sum.splits option.splits prod.splits) (metis snd_conv)+
qed

lemma approve_governed: "gov_after d (snd (Approve env i user session proof d))"
proof -
  have "gov_after d (snd (AddSecurityApproval e c a session proof d))" for e c a
    using after_run [of "GApprove e c a session proof" d] by simp
  then show ?thesis
    by (auto simp: Approve_def Let_def after_refl split: sum.splits option.splits prod.splits) (metis snd_conv)+
qed



end
