(* ===== verification/Execution_Store.thy ===== *)
theory Execution_Store
  imports Audit_Record Security_Store
begin

text \<open>
  The durable record of command executions (\<open>store/executions.go\<close>,
  \<open>store/protected_executions.go\<close>, \<open>store/protected_reservation.go\<close>, \<open>model/execution.go\<close>,
  migrations 024 and 026): an execution row with its state, the event log that spells the states it
  went through, the dispatch claim that is made before anything is sent to an agent, and the bounded
  queue of redacted evidence for enhanced executions. The lemmas at the end show what a single
  operation does to these tables; \<open>Execution_Props\<close> has the properties of whole histories.
\<close>

section \<open>Tables\<close>

record ExecutionPreparation =
  ep_PreparationID :: string
  ep_BootID :: string
  ep_ExpiresUnixMilli :: int
  ep_Limits :: Limits
  ep_Identity :: ActorIdentity

text \<open>A row of \<open>executions\<close>; \<open>er_preparation\<close> is the column's JSON text.\<close>

record execution_row =
  er_id :: string
  er_actor_id :: string
  er_actor_name :: string
  er_actor_provider :: string
  er_node_id :: string
  er_node_name :: string
  er_requested_user :: string
  er_command_sha256 :: string
  er_command_length :: int
  er_policy_version :: string
  er_preparation :: string
  er_state :: string
  er_evidence_state :: string
  er_exit_code :: "int option"
  er_signal :: string
  er_reason :: string
  er_created_at :: sql_time
  er_updated_at :: sql_time
  er_finished_at :: "sql_time option"
  er_enhanced :: bool
  er_actor_person_id :: string
  er_actor_subject :: string
  er_policy_sha256 :: string
  er_script_sha256 :: string
  er_script_length :: int
  er_admission_event_id :: string
  er_admission_record_sha256 :: string
  er_admission_receipt :: string
  er_admission_disposition :: string

record execution_event_row =
  ev_id :: string
  ev_execution_id :: string
  ev_sequence :: nat
  ev_event_type :: string
  ev_created_at :: sql_time

record dispatch_row =
  di_execution_id :: string
  di_preparation_id :: string
  di_receipt_sha256 :: string
  di_claimed_at :: sql_time

text \<open>A queued envelope; \<open>rv_min_retain_until\<close> is kept to the nanosecond.\<close>

record recovery_row =
  rv_event_id :: string
  rv_execution_id :: string
  rv_policy_version :: nat
  rv_record_sha256 :: string
  rv_envelope :: string
  rv_min_retain_until :: go_time
  rv_created_at :: sql_time
  rv_attempts :: int
  rv_next_attempt_at :: sql_time
  rv_last_error :: string

record confirmation_row =
  cf_event_id :: string
  cf_execution_id :: string
  cf_record_sha256 :: string
  cf_confirmed_at :: sql_time

record exec_db =
  executions :: "execution_row list"
  execution_events :: "execution_event_row list"
  execution_dispatches :: "dispatch_row list"
  evidence_recovery :: "recovery_row list"
  evidence_confirmations :: "confirmation_row list"

definition empty_exec_db :: exec_db where
  "empty_exec_db = \<lparr>executions = [], execution_events = [], execution_dispatches = [],
     evidence_recovery = [], evidence_confirmations = []\<rparr>"

text \<open>
  What an operation takes from its surroundings: which step of opening and committing its
  transaction fails, which statement fails, the clock at each reading, the fresh identifiers, and
  the codecs: JSON of a preparation as \<open>encoding/json\<close> writes and reads it, SQLite's
  \<open>json_extract\<close> on it, the lenient reader of an envelope and the codec of strict records.
\<close>

record exec_env =
  x_tx :: db_faults
  x_db :: db_faults
  x_clock :: "nat \<Rightarrow> go_time"
  x_uuid :: "nat \<Rightarrow> string"
  x_marshal :: "ExecutionPreparation \<Rightarrow> string option"
  x_unmarshal :: "string \<Rightarrow> ExecutionPreparation option"
  x_extract_id :: "string \<Rightarrow> string option"
  x_extract_expiry :: "string \<Rightarrow> int option"
  x_envelope :: "string \<Rightarrow> Envelope option"
  x_codec :: codec

type_synonym 'a xop = "('a, exec_db) tx"

section \<open>Transactions\<close>

text \<open>\<open>db.Begin\<close> and \<open>Commit\<close> (steps 0 and 1): any failure leaves the tables as they were.\<close>

definition sql_tx :: "db_faults \<Rightarrow> ('a, 's) tx \<Rightarrow> ('a, 's) tx" where
  "sql_tx f fn d =
     (if f 0 then (Inl DbError, d)
      else case fn d of
             (Inl e, _) \<Rightarrow> (Inl e, d)
           | (Inr v, d') \<Rightarrow> if f 1 then (Inl DbError, d) else (Inr v, d'))"

text \<open>\<open>protectedTransaction\<close>: the connection, the durability pragma, the begin and the commit.\<close>

definition protectedTransaction :: "db_faults \<Rightarrow> ('a, 's) tx \<Rightarrow> ('a, 's) tx" where
  "protectedTransaction f fn d =
     (if f 0 \<or> f 1 then (Inl DbError, d) else sql_tx (\<lambda>n. f (n + 2)) fn d)"

text \<open>The reservation changes no row; it may fail (step 4).\<close>

definition protectedWriteTransaction :: "db_faults \<Rightarrow> ('a, 's) tx \<Rightarrow> ('a, 's) tx" where
  "protectedWriteTransaction f fn = protectedTransaction f (stmt (f 4) fn)"

text \<open>\<open>executionUpdated\<close> after an \<open>UPDATE executions\<close>: statement \<open>j\<close>, its row count \<open>j + 1\<close>.\<close>

definition update_executions :: "bool \<Rightarrow> (execution_row \<Rightarrow> bool) \<Rightarrow> (execution_row \<Rightarrow> execution_row) \<Rightarrow> unit xop" where
  "update_executions fault P f d =
     (if fault then (Inl DbError, d) else (Inr (), d\<lparr>executions := sql_update P f (executions d)\<rparr>))"

definition executionUpdated ::
    "db_faults \<Rightarrow> nat \<Rightarrow> (execution_row \<Rightarrow> bool) \<Rightarrow> (execution_row \<Rightarrow> execution_row) \<Rightarrow> unit xop" where
  "executionUpdated f j P g d =
     op_bind (update_executions (f j) P g) (\<lambda>_.
       stmt (f (j + 1)) (refuse_if (sql_count P (executions d) \<noteq> 1) ErrExecutionState (op_ret ()))) d"

section \<open>Executions\<close>

definition executionPolicyVersion :: "string \<Rightarrow> string" where
  "executionPolicyVersion v = (if v = [] then ''standard-v1'' else v)"

text \<open>The number of characters SQLite counts in a text: those before a NUL, continuation bytes of
  UTF-8 not counted.\<close>

definition sql_length :: "string \<Rightarrow> nat" where
  "sql_length s = length (filter (\<lambda>c. of_char c div (64 :: nat) \<noteq> 2) (takeWhile (\<lambda>c. c \<noteq> CHR 0x00) s))"

definition known_execution :: "exec_db \<Rightarrow> string \<Rightarrow> bool" where
  "known_execution d i \<longleftrightarrow> i \<in> set (map er_id (executions d))"

definition next_sequence :: "execution_event_row list \<Rightarrow> string \<Rightarrow> nat" where
  "next_sequence evs i =
     (let hits = filter (\<lambda>v. ev_execution_id v = i) evs in
      if hits = [] then 0 else Max (set (map ev_sequence hits)) + 1)"

text \<open>The keys of \<open>execution_events\<close>: its id, and a sequence number within an execution.\<close>

definition events_ok :: "exec_db \<Rightarrow> execution_event_row list \<Rightarrow> bool" where
  "events_ok d evs \<longleftrightarrow> distinct (map ev_id evs) \<and>
     distinct (map (\<lambda>v. (ev_execution_id v, ev_sequence v)) evs) \<and>
     (\<forall>v \<in> set evs. known_execution d (ev_execution_id v))"

text \<open>\<open>executionEvent\<close> with statement \<open>j\<close> and identifier \<open>n\<close>; a key or reference that does not
  hold fails the statement.\<close>

definition executionEvent :: "exec_env \<Rightarrow> nat \<Rightarrow> nat \<Rightarrow> string \<Rightarrow> string \<Rightarrow> sql_time \<Rightarrow> unit xop" where
  "executionEvent env j n i state now d =
     (let evs = execution_events d @
            [\<lparr>ev_id = x_uuid env n, ev_execution_id = i, ev_sequence = next_sequence (execution_events d) i,
              ev_event_type = state, ev_created_at = now\<rparr>] in
      if x_db env j \<or> \<not> events_ok d evs then (Inl DbError, d)
      else (Inr (), d\<lparr>execution_events := evs\<rparr>))"

text \<open>The columns \<open>CreateExecution\<close> takes from its argument.\<close>

record NewExecution =
  ne_ID :: string
  ne_ActorID :: string
  ne_ActorName :: string
  ne_ActorProvider :: string
  ne_NodeID :: string
  ne_NodeName :: string
  ne_RequestedUser :: string
  ne_CommandSHA256 :: string
  ne_CommandLength :: int
  ne_PolicyVersion :: string
  ne_Enhanced :: bool
  ne_ActorPersonID :: string
  ne_ActorSubject :: string
  ne_PolicySHA256 :: string

definition new_row :: "NewExecution \<Rightarrow> sql_time \<Rightarrow> execution_row" where
  "new_row e now = \<lparr>er_id = ne_ID e, er_actor_id = ne_ActorID e, er_actor_name = ne_ActorName e,
     er_actor_provider = ne_ActorProvider e, er_node_id = ne_NodeID e, er_node_name = ne_NodeName e,
     er_requested_user = ne_RequestedUser e, er_command_sha256 = ne_CommandSHA256 e,
     er_command_length = ne_CommandLength e, er_policy_version = executionPolicyVersion (ne_PolicyVersion e),
     er_preparation = ''{}'', er_state = ''submitted'', er_evidence_state = ''local'', er_exit_code = None,
     er_signal = [], er_reason = [], er_created_at = now, er_updated_at = now, er_finished_at = None,
     er_enhanced = ne_Enhanced e, er_actor_person_id = ne_ActorPersonID e,
     er_actor_subject = ne_ActorSubject e, er_policy_sha256 = ne_PolicySHA256 e, er_script_sha256 = [],
     er_script_length = 0, er_admission_event_id = [], er_admission_record_sha256 = [],
     er_admission_receipt = [], er_admission_disposition = []\<rparr>"

definition insert_execution :: "bool \<Rightarrow> execution_row \<Rightarrow> unit xop" where
  "insert_execution fault r d =
     (if fault \<or> known_execution d (er_id r) \<or> sql_length (er_command_sha256 r) \<noteq> 64 \<or>
         er_command_length r < 1 \<or> 32768 < er_command_length r
      then (Inl DbError, d) else (Inr (), d\<lparr>executions := executions d @ [r]\<rparr>))"

definition CreateExecution :: "exec_env \<Rightarrow> NewExecution \<Rightarrow> unit xop" where
  "CreateExecution env e =
     (let now = format_sqlite (x_clock env 0) in
      sql_tx (x_tx env)
        (op_bind (insert_execution (x_db env 0) (new_row e now)) (\<lambda>_.
         executionEvent env 1 0 (ne_ID e) ''submitted'' now)))"

definition PrepareExecution :: "exec_env \<Rightarrow> string \<Rightarrow> ExecutionPreparation \<Rightarrow> unit xop" where
  "PrepareExecution env i p d =
     (if ep_PreparationID p = [] \<or> ep_BootID p = [] \<or> xi_Username (ep_Identity p) = []
      then (Inl ErrPreparationMissing, d)
      else case x_marshal env p of
             None \<Rightarrow> (Inl ErrJSON, d)
           | Some data \<Rightarrow>
               let now = format_sqlite (x_clock env 0) in
               sql_tx (x_tx env)
                 (op_bind (executionUpdated (x_db env) 0 (\<lambda>r. er_id r = i \<and> er_state r = ''submitted'')
                    (\<lambda>r. r\<lparr>er_preparation := data, er_state := ''prepared'', er_updated_at := now\<rparr>)) (\<lambda>_.
                  executionEvent env 2 0 i ''prepared'' now)) d)"

text \<open>The insert into \<open>execution_dispatches\<close>: one claim per execution, one use of a receipt.\<close>

definition insert_dispatch :: "bool \<Rightarrow> dispatch_row \<Rightarrow> unit xop" where
  "insert_dispatch fault r d =
     (if fault \<or> \<not> known_execution d (di_execution_id r) \<or>
         di_execution_id r \<in> set (map di_execution_id (execution_dispatches d)) \<or>
         (di_receipt_sha256 r \<noteq> [] \<and> di_receipt_sha256 r \<in> set (map di_receipt_sha256 (execution_dispatches d)))
      then (Inl DbError, d) else (Inr (), d\<lparr>execution_dispatches := execution_dispatches d @ [r]\<rparr>))"

definition ClaimExecutionDispatch :: "exec_env \<Rightarrow> string \<Rightarrow> string \<Rightarrow> unit xop" where
  "ClaimExecutionDispatch env i preparation =
     (let now = format_sqlite (x_clock env 0) in
      sql_tx (x_tx env)
        (op_bind (executionUpdated (x_db env) 0
            (\<lambda>r. er_id r = i \<and> \<not> er_enhanced r \<and> er_state r = ''prepared'' \<and>
                 x_extract_id env (er_preparation r) = Some preparation)
            (\<lambda>r. r\<lparr>er_state := ''dispatching'', er_updated_at := now\<rparr>)) (\<lambda>_.
         op_bind (insert_dispatch (x_db env 2) \<lparr>di_execution_id = i, di_preparation_id = preparation,
            di_receipt_sha256 = [], di_claimed_at = now\<rparr>) (\<lambda>_.
         executionEvent env 3 0 i ''dispatching'' now))))"

definition MarkExecutionRunning :: "exec_env \<Rightarrow> string \<Rightarrow> unit xop" where
  "MarkExecutionRunning env i =
     (let now = format_sqlite (x_clock env 0) in
      sql_tx (x_tx env)
        (op_bind (executionUpdated (x_db env) 0 (\<lambda>r. er_id r = i \<and> er_state r = ''dispatching'')
            (\<lambda>r. r\<lparr>er_state := ''running'', er_updated_at := now\<rparr>)) (\<lambda>_.
         executionEvent env 2 0 i ''running'' now)))"

definition outcomes :: "string list" where
  "outcomes = [''exited'', ''denied'', ''admission_failed'', ''launch_failed'', ''cancelled'',
     ''transport_lost'', ''outcome_unknown'']"

definition finished_evidence :: "string \<Rightarrow> execution_row \<Rightarrow> string" where
  "finished_evidence state r =
     (if er_evidence_state r = ''permanently_incomplete'' then er_evidence_state r
      else if er_enhanced r then ''completion_unconfirmed''
      else if state = ''transport_lost'' \<or> state = ''outcome_unknown'' then ''completion_unconfirmed''
      else ''local'')"

definition FinishExecution ::
    "exec_env \<Rightarrow> string \<Rightarrow> string \<Rightarrow> int option \<Rightarrow> string \<Rightarrow> string \<Rightarrow> unit xop" where
  "FinishExecution env i state exitCode signal reason d =
     (if state \<notin> set outcomes then (Inl ErrInvalidOutcome, d)
      else let now = format_sqlite (x_clock env 0) in
        sql_tx (x_tx env)
          (op_bind (executionUpdated (x_db env) 0 (\<lambda>r. er_id r = i \<and> er_finished_at r = None)
              (\<lambda>r. r\<lparr>er_state := state, er_evidence_state := finished_evidence state r,
                     er_exit_code := exitCode, er_signal := signal, er_reason := reason,
                     er_updated_at := now, er_finished_at := Some now\<rparr>)) (\<lambda>_.
           executionEvent env 2 0 i state now)) d)"

text \<open>\<open>ReconcileExecutions\<close>: one event per open execution (numbered as the open rows come), then
  one update of all of them; both statements read the states before the update.\<close>

definition interrupted :: "execution_row \<Rightarrow> bool" where
  "interrupted r \<longleftrightarrow> er_state r = ''dispatching'' \<or> er_state r = ''running''"

definition restart_state :: "execution_row \<Rightarrow> string" where
  "restart_state r = (if interrupted r then ''outcome_unknown'' else ''cancelled'')"

definition restart_row :: "sql_time \<Rightarrow> execution_row \<Rightarrow> execution_row" where
  "restart_row now r = r\<lparr>er_state := restart_state r,
     er_evidence_state := (if er_evidence_state r = ''permanently_incomplete'' then er_evidence_state r
       else if interrupted r \<or> er_enhanced r then ''completion_unconfirmed'' else er_evidence_state r),
     er_reason := ''hub restarted'', er_updated_at := now, er_finished_at := Some now\<rparr>"

definition restart_events :: "exec_env \<Rightarrow> sql_time \<Rightarrow> exec_db \<Rightarrow> execution_event_row list" where
  "restart_events env now d =
     map (\<lambda>(n, r). \<lparr>ev_id = x_uuid env n, ev_execution_id = er_id r,
            ev_sequence = next_sequence (execution_events d) (er_id r),
            ev_event_type = restart_state r, ev_created_at = now\<rparr>)
       (enumerate 0 (filter (\<lambda>r. er_finished_at r = None) (executions d)))"

definition insert_restart_events :: "exec_env \<Rightarrow> sql_time \<Rightarrow> unit xop" where
  "insert_restart_events env now d =
     (let evs = execution_events d @ restart_events env now d in
      if x_db env 0 \<or> \<not> events_ok d evs then (Inl DbError, d)
      else (Inr (), d\<lparr>execution_events := evs\<rparr>))"

definition ReconcileExecutions :: "exec_env \<Rightarrow> unit xop" where
  "ReconcileExecutions env =
     (let now = format_sqlite (x_clock env 0) in
      sql_tx (x_tx env)
        (op_bind (insert_restart_events env now) (\<lambda>_.
         update_executions (x_db env 1) (\<lambda>r. er_finished_at r = None) (restart_row now))))"

definition MarkExecutionEvidenceIncomplete :: "exec_env \<Rightarrow> string \<Rightarrow> unit xop" where
  "MarkExecutionEvidenceIncomplete env i =
     update_executions (x_db env 0) (\<lambda>r. er_id r = i \<and> er_evidence_state r \<noteq> ''permanently_incomplete'')
       (\<lambda>r. r\<lparr>er_evidence_state := ''completion_unconfirmed''\<rparr>)"

section \<open>Reading executions\<close>

record Execution =
  ex_Enhanced :: bool
  ex_ActorPersonID :: string
  ex_ActorSubject :: string
  ex_PolicySHA256 :: string
  ex_ScriptSHA256 :: string
  ex_ScriptLength :: int
  ex_AdmissionEventID :: string
  ex_AdmissionRecordSHA256 :: string
  ex_AdmissionReceipt :: string
  ex_AdmissionDisposition :: string
  ex_ID :: string
  ex_ActorID :: string
  ex_ActorName :: string
  ex_ActorProvider :: string
  ex_NodeID :: string
  ex_NodeName :: string
  ex_RequestedUser :: string
  ex_CommandSHA256 :: string
  ex_CommandLength :: int
  ex_PolicyVersion :: string
  ex_Preparation :: ExecutionPreparation
  ex_State :: string
  ex_EvidenceState :: string
  ex_ExitCode :: "int option"
  ex_Signal :: string
  ex_Reason :: string
  ex_CreatedAt :: go_time
  ex_UpdatedAt :: go_time
  ex_FinishedAt :: "go_time option"

definition scanExecution :: "exec_env \<Rightarrow> execution_row \<Rightarrow> store_error + Execution" where
  "scanExecution env r =
     (case x_unmarshal env (er_preparation r) of
        None \<Rightarrow> Inl ErrJSON
      | Some p \<Rightarrow> Inr \<lparr>ex_Enhanced = er_enhanced r, ex_ActorPersonID = er_actor_person_id r,
          ex_ActorSubject = er_actor_subject r, ex_PolicySHA256 = er_policy_sha256 r,
          ex_ScriptSHA256 = er_script_sha256 r, ex_ScriptLength = er_script_length r,
          ex_AdmissionEventID = er_admission_event_id r,
          ex_AdmissionRecordSHA256 = er_admission_record_sha256 r,
          ex_AdmissionReceipt = er_admission_receipt r,
          ex_AdmissionDisposition = er_admission_disposition r, ex_ID = er_id r,
          ex_ActorID = er_actor_id r, ex_ActorName = er_actor_name r,
          ex_ActorProvider = er_actor_provider r, ex_NodeID = er_node_id r, ex_NodeName = er_node_name r,
          ex_RequestedUser = er_requested_user r, ex_CommandSHA256 = er_command_sha256 r,
          ex_CommandLength = er_command_length r, ex_PolicyVersion = er_policy_version r,
          ex_Preparation = p, ex_State = er_state r, ex_EvidenceState = er_evidence_state r,
          ex_ExitCode = er_exit_code r, ex_Signal = er_signal r, ex_Reason = er_reason r,
          ex_CreatedAt = parse_sqlite_value (er_created_at r),
          ex_UpdatedAt = parse_sqlite_value (er_updated_at r),
          ex_FinishedAt = parse_sqlite (er_finished_at r)\<rparr>)"

definition GetExecution :: "exec_env \<Rightarrow> bool \<Rightarrow> string \<Rightarrow> exec_db \<Rightarrow> store_error + Execution" where
  "GetExecution env fault i d =
     (if fault then Inl DbError
      else case sql_first (\<lambda>r. er_id r = i) (executions d) of
             None \<Rightarrow> Inl NoRows
           | Some r \<Rightarrow> scanExecution env r)"

section \<open>Admission and evidence\<close>

definition SetExecutionSubmission ::
    "exec_env \<Rightarrow> string \<Rightarrow> string \<Rightarrow> int \<Rightarrow> string \<Rightarrow> string \<Rightarrow> unit xop" where
  "SetExecutionSubmission env i scriptHash len eventID recordHash =
     executionUpdated (x_db env) 0
       (\<lambda>r. er_id r = i \<and> (er_state r = ''submitted'' \<or> er_state r = ''prepared'') \<and> er_enhanced r)
       (\<lambda>r. r\<lparr>er_script_sha256 := scriptHash, er_script_length := len, er_admission_event_id := eventID,
              er_admission_record_sha256 := recordHash\<rparr>)"

text \<open>\<open>Claim\<close> reads the clock twice: for the row and for the expiry of the preparation. Every
  failure of the update is joined with \<open>ErrReplay\<close>.\<close>

definition replay_on_error :: "'a xop \<Rightarrow> 'a xop" where
  "replay_on_error m d = (case m d of (Inl e, d') \<Rightarrow> (Inl (ErrReplay e), d') | (Inr v, d') \<Rightarrow> (Inr v, d'))"

definition claimable :: "exec_env \<Rightarrow> string \<Rightarrow> string \<Rightarrow> int \<Rightarrow> execution_row \<Rightarrow> bool" where
  "claimable env i preparation millis r \<longleftrightarrow> er_id r = i \<and> er_enhanced r \<and> er_state r = ''prepared'' \<and>
     x_extract_id env (er_preparation r) = Some preparation \<and>
     (case x_extract_expiry env (er_preparation r) of None \<Rightarrow> False | Some t \<Rightarrow> millis < t)"

definition unix_milli :: "go_time \<Rightarrow> int" where "unix_milli t = t div 1000000"

definition ClaimProtected :: "exec_env \<Rightarrow> string \<Rightarrow> string \<Rightarrow> string \<Rightarrow> unit xop" where
  "ClaimProtected env i preparation receiptHash d =
     (if \<not> ValidHash receiptHash then (Inl ErrReceipt, d)
      else let now = format_sqlite (x_clock env 0) in
        protectedTransaction (x_tx env)
          (op_bind (replay_on_error (executionUpdated (x_db env) 0
              (claimable env i preparation (unix_milli (x_clock env 1)))
              (\<lambda>r. r\<lparr>er_state := ''dispatching'', er_evidence_state := ''pending'',
                     er_admission_disposition := ''consumed_dispatch'', er_updated_at := now\<rparr>))) (\<lambda>_.
           op_bind (insert_dispatch (x_db env 2) \<lparr>di_execution_id = i, di_preparation_id = preparation,
              di_receipt_sha256 = receiptHash, di_claimed_at = now\<rparr>) (\<lambda>_.
           op_bind (executionEvent env 3 0 i ''admitted'' now) (\<lambda>_.
           executionEvent env 4 1 i ''dispatching'' now)))) d)"

definition SaveExecutionReceipt :: "exec_env \<Rightarrow> string \<Rightarrow> string \<Rightarrow> unit xop" where
  "SaveExecutionReceipt env i token d =
     (if token = [] \<or> length token > MaxReceiptBytes then (Inl ErrReceipt, d)
      else update_executions (x_db env 0) (\<lambda>r. er_id r = i \<and> er_enhanced r)
             (\<lambda>r. r\<lparr>er_admission_receipt := token\<rparr>) d)"

definition SaveUnusedExecutionReceipt :: "exec_env \<Rightarrow> string \<Rightarrow> string \<Rightarrow> unit xop" where
  "SaveUnusedExecutionReceipt env i token d =
     (if token = [] \<or> length token > MaxReceiptBytes then (Inl ErrReceipt, d)
      else update_executions (x_db env 0) (\<lambda>r. er_id r = i \<and> er_enhanced r \<and> er_state r = ''prepared'')
             (\<lambda>r. r\<lparr>er_admission_receipt := token, er_admission_disposition := ''archived_unused''\<rparr>) d)"

definition MarkExecutionAdmissionUnused :: "exec_env \<Rightarrow> string \<Rightarrow> unit xop" where
  "MarkExecutionAdmissionUnused env i =
     update_executions (x_db env 0) (\<lambda>r. er_id r = i \<and> er_enhanced r \<and> er_admission_record_sha256 r \<noteq> [])
       (\<lambda>r. r\<lparr>er_admission_disposition :=
          (if er_admission_disposition r = ''consumed_dispatch'' then ''consumed_unused''
           else if er_admission_disposition r = ''archived_unused'' then ''archived_unused''
           else ''unconfirmed_unused'')\<rparr>)"

definition mark_permanent :: "bool \<Rightarrow> string \<Rightarrow> unit xop" where
  "mark_permanent fault i =
     update_executions fault (\<lambda>r. er_id r = i) (\<lambda>r. r\<lparr>er_evidence_state := ''permanently_incomplete''\<rparr>)"

definition MarkExecutionEvidencePermanent :: "exec_env \<Rightarrow> string \<Rightarrow> unit xop" where
  "MarkExecutionEvidencePermanent env i = protectedTransaction (x_tx env) (mark_permanent (x_db env 0) i)"

definition MaxRecoveryEvents :: nat where "MaxRecoveryEvents = 1024"
definition MaxRecoveryBytes :: nat where "MaxRecoveryBytes = 16777216"
definition MaxRecoveryAge :: duration where "MaxRecoveryAge = 24 * 3600 * second"

text \<open>\<open>DecodeExecutionEvidence\<close>: what the queue may hold is a lifecycle or denial record without a
  command, an attachment, a reason or an approved change.\<close>

definition lifecycle_type :: "Envelope \<Rightarrow> bool" where
  "lifecycle_type e \<longleftrightarrow> en_EventType e = ExecutionLifecycle \<or> en_EventType e = ExecutionDenial"

definition DecodeExecutionEvidence :: "exec_env \<Rightarrow> string \<Rightarrow> store_error + Envelope" where
  "DecodeExecutionEvidence env raw =
     (case x_envelope env raw of
        None \<Rightarrow> Inl ErrJSON
      | Some e \<Rightarrow>
          if \<not> lifecycle_type e \<or> en_Command e \<noteq> [] \<or> en_Attachments e \<noteq> [] \<or>
             (case en_Details e of None \<Rightarrow> True | Some t \<Rightarrow> dt_Reason t \<noteq> [] \<or> dt_ApprovedChange t \<noteq> [])
          then Inl ErrSchema
          else if Envelope_Validate (k_sha (x_codec env)) e then Inr e else Inl ErrSchema)"

definition recovery_bytes :: "exec_db \<Rightarrow> nat" where
  "recovery_bytes d = sum_list (map (\<lambda>r. length (rv_envelope r)) (evidence_recovery d))"

text \<open>The body of \<open>QueueExecutionEvidence\<close>: statements 0 and 1 look for the event among the
  confirmed and the queued ones, 2 reads the queue's size, 3 inserts or marks, 4 updates the
  execution. The two early returns commit nothing, and have changed nothing.\<close>

definition queue_insert :: "bool \<Rightarrow> recovery_row \<Rightarrow> unit xop" where
  "queue_insert fault r d =
     (if fault then (Inl DbError, d)
      else if rv_event_id r \<in> set (map rv_event_id (evidence_recovery d)) then (Inr (), d)
      else if \<not> known_execution d (rv_execution_id r) \<or> 16384 < length (rv_envelope r) then (Inl DbError, d)
      else (Inr (), d\<lparr>evidence_recovery := evidence_recovery d @ [r]\<rparr>))"

definition same_record :: "string \<Rightarrow> string \<Rightarrow> unit xop" where
  "same_record stored expected = refuse_if (stored \<noteq> expected) ErrSchema (op_ret ())"

definition queue_body :: "exec_env \<Rightarrow> recovery_row \<Rightarrow> unit xop" where
  "queue_body env r =
     stmt (x_db env 0) (\<lambda>d. case sql_first (\<lambda>c. cf_event_id c = rv_event_id r) (evidence_confirmations d) of
       Some c \<Rightarrow> same_record (cf_record_sha256 c) (rv_record_sha256 r) d
     | None \<Rightarrow> stmt (x_db env 1) (\<lambda>d. case sql_first (\<lambda>q. rv_event_id q = rv_event_id r) (evidence_recovery d) of
         Some q \<Rightarrow> same_record (rv_record_sha256 q) (rv_record_sha256 r) d
       | None \<Rightarrow> stmt (x_db env 2)
           (if length (evidence_recovery d) \<ge> MaxRecoveryEvents \<or>
               recovery_bytes d + length (rv_envelope r) > MaxRecoveryBytes
            then mark_permanent (x_db env 3) (rv_execution_id r)
            else op_bind (queue_insert (x_db env 3) r) (\<lambda>_.
              update_executions (x_db env 4)
                (\<lambda>e. er_id e = rv_execution_id r \<and> er_evidence_state e \<noteq> ''permanently_incomplete'')
                (\<lambda>e. e\<lparr>er_evidence_state := (if er_finished_at e = None then ''pending''
                          else ''completion_unconfirmed'')\<rparr>))) d) d)"

definition QueueExecutionEvidence :: "exec_env \<Rightarrow> string \<Rightarrow> go_time \<Rightarrow> unit xop" where
  "QueueExecutionEvidence env raw minRetain d =
     (case ExpectedFor (x_codec env) raw of
        None \<Rightarrow> (Inl ErrSchema, d)
      | Some (expected, e) \<Rightarrow>
          if \<not> lifecycle_type e \<or> length raw > 16384 \<or> en_Command e \<noteq> [] \<or> en_Attachments e \<noteq> []
          then (Inl ErrSchema, d)
          else case DecodeExecutionEvidence env raw of
            Inl err \<Rightarrow> (Inl err, d)
          | Inr _ \<Rightarrow>
              (case en_Details e of
                 None \<Rightarrow> (Inl NilDereference, d)
               | Some t \<Rightarrow>
                   let now = format_sqlite (x_clock env 0) in
                   protectedWriteTransaction (x_tx env)
                     (queue_body env \<lparr>rv_event_id = en_EventID e, rv_execution_id = dt_CorrelationID t,
                        rv_policy_version = en_PolicyVersion e, rv_record_sha256 = xp_RecordSHA256 expected,
                        rv_envelope = raw, rv_min_retain_until = minRetain, rv_created_at = now,
                        rv_attempts = 0, rv_next_attempt_at = now, rv_last_error = []\<rparr>) d))"

text \<open>What a reader of the queue gets; a retention time outside the years of RFC 3339 does not parse.\<close>

record ExecutionEvidence =
  ee_EventID :: string
  ee_ExecutionID :: string
  ee_RecordSHA256 :: string
  ee_PolicyVersion :: nat
  ee_Envelope :: string
  ee_MinRetainUntil :: go_time
  ee_CreatedAt :: go_time
  ee_Attempts :: int

definition scan_evidence :: "recovery_row \<Rightarrow> ExecutionEvidence option" where
  "scan_evidence r =
     (if sqlite_representable (format_sqlite (rv_min_retain_until r))
      then Some \<lparr>ee_EventID = rv_event_id r, ee_ExecutionID = rv_execution_id r,
        ee_RecordSHA256 = rv_record_sha256 r, ee_PolicyVersion = rv_policy_version r,
        ee_Envelope = rv_envelope r, ee_MinRetainUntil = rv_min_retain_until r,
        ee_CreatedAt = parse_sqlite_value (rv_created_at r), ee_Attempts = rv_attempts r\<rparr>
      else None)"

definition bounded_limit :: "go_int \<Rightarrow> nat" where
  "bounded_limit limit = (if limit < 1 \<or> limit > 32 then 32 else nat limit)"

text \<open>\<open>DueExecutionEvidence\<close>; rows created in one second keep the table's order.\<close>

definition DueExecutionEvidence :: "bool \<Rightarrow> go_time \<Rightarrow> go_int \<Rightarrow> exec_db \<Rightarrow> store_error + ExecutionEvidence list" where
  "DueExecutionEvidence fault now limit d =
     (if fault then Inl DbError
      else let due = take (bounded_limit limit) (sort_key rv_created_at
             (filter (\<lambda>r. rv_next_attempt_at r \<le> format_sqlite now) (evidence_recovery d))) in
        if \<exists>r \<in> set due. scan_evidence r = None then Inl ErrJSON
        else Inr (map (\<lambda>r. the (scan_evidence r)) due))"

definition confirmed_update :: "bool \<Rightarrow> string \<Rightarrow> unit xop" where
  "confirmed_update fault i d =
     update_executions fault
       (\<lambda>r. er_id r = i \<and> er_finished_at r \<noteq> None \<and> er_evidence_state r \<noteq> ''permanently_incomplete'' \<and>
            er_id r @ ''.completion'' \<in> set (map cf_event_id (evidence_confirmations d)) \<and>
            i \<notin> set (map rv_execution_id (evidence_recovery d)))
       (\<lambda>r. r\<lparr>er_evidence_state := ''confirmed''\<rparr>) d"

definition insert_confirmation :: "bool \<Rightarrow> confirmation_row \<Rightarrow> unit xop" where
  "insert_confirmation fault c d =
     (if fault then (Inl DbError, d)
      else if cf_event_id c \<in> set (map cf_event_id (evidence_confirmations d)) then (Inr (), d)
      else if \<not> known_execution d (cf_execution_id c) then (Inl DbError, d)
      else (Inr (), d\<lparr>evidence_confirmations := evidence_confirmations d @ [c]\<rparr>))"

definition delete_recovery :: "bool \<Rightarrow> string \<Rightarrow> unit xop" where
  "delete_recovery fault eventID d =
     (if fault then (Inl DbError, d)
      else (Inr (), d\<lparr>evidence_recovery := sql_delete (\<lambda>r. rv_event_id r = eventID) (evidence_recovery d)\<rparr>))"

definition ConfirmExecutionEvidence :: "exec_env \<Rightarrow> string \<Rightarrow> unit xop" where
  "ConfirmExecutionEvidence env eventID =
     protectedWriteTransaction (x_tx env) (stmt (x_db env 0) (\<lambda>d.
       case sql_first (\<lambda>r. rv_event_id r = eventID) (evidence_recovery d) of
         None \<Rightarrow> (Inl NoRows, d)
       | Some r \<Rightarrow>
           op_bind (insert_confirmation (x_db env 1) \<lparr>cf_event_id = eventID, cf_execution_id = rv_execution_id r,
              cf_record_sha256 = rv_record_sha256 r, cf_confirmed_at = format_sqlite (x_clock env 0)\<rparr>) (\<lambda>_.
           op_bind (delete_recovery (x_db env 2) eventID) (\<lambda>_.
           confirmed_update (x_db env 3) (rv_execution_id r))) d))"

definition RetryExecutionEvidence :: "exec_env \<Rightarrow> ExecutionEvidence \<Rightarrow> go_time \<Rightarrow> unit xop" where
  "RetryExecutionEvidence env e now d =
     (if time_sub now (ee_CreatedAt e) \<ge> MaxRecoveryAge
      then protectedTransaction (x_tx env)
             (op_bind (mark_permanent (x_db env 0) (ee_ExecutionID e)) (\<lambda>_.
              delete_recovery (x_db env 1) (ee_EventID e))) d
      else if x_db env 0 then (Inl DbError, d)
      else (Inr (), d\<lparr>evidence_recovery := sql_update (\<lambda>r. rv_event_id r = ee_EventID e)
              (\<lambda>r. r\<lparr>rv_attempts := rv_attempts r + 1,
                     rv_next_attempt_at := format_sqlite (time_add now (60 * second)),
                     rv_last_error := ''external evidence unavailable''\<rparr>) (evidence_recovery d)\<rparr>))"

fun scan_all :: "exec_env \<Rightarrow> execution_row list \<Rightarrow> store_error + Execution list" where
  "scan_all env [] = Inr []"
| "scan_all env (r # rs) =
     (case scanExecution env r of
        Inl e \<Rightarrow> Inl e
      | Inr x \<Rightarrow> (case scan_all env rs of Inl e \<Rightarrow> Inl e | Inr xs \<Rightarrow> Inr (x # xs)))"

definition unqueued :: "exec_db \<Rightarrow> execution_row \<Rightarrow> bool" where
  "unqueued d r \<longleftrightarrow> er_enhanced r \<and> er_finished_at r \<noteq> None \<and> er_evidence_state r = ''completion_unconfirmed'' \<and>
     er_id r \<notin> set (map rv_execution_id (evidence_recovery d)) \<and>
     er_id r @ ''.completion'' \<notin> set (map cf_event_id (evidence_confirmations d))"

definition UnqueuedEnhancedExecutions ::
    "exec_env \<Rightarrow> bool \<Rightarrow> go_int \<Rightarrow> exec_db \<Rightarrow> store_error + Execution list" where
  "UnqueuedEnhancedExecutions env fault limit d =
     (if fault then Inl DbError
      else scan_all env (take (bounded_limit limit)
             (sort_key er_created_at (filter (unqueued d) (executions d)))))"

end
