(* ===== verification/Execution_Props.thy ===== *)
theory Execution_Props
  imports Execution_Store
begin

text \<open>
  Whole histories of the execution store. \<open>exec_run\<close> is one call with its faults and clock;
  \<open>exec_move\<close> is the specification of what a call may do to the tables, as a step relation whose
  rules are the moves of an execution's life; \<open>exec_run_moves\<close> is the refinement. The properties
  follow by cases over the moves: the event log of an execution spells a legal history, a dispatch
  and a receipt are used at most once, an outcome is final, and the evidence of a finished enhanced
  execution is accounted for.
\<close>

section \<open>Calls\<close>

datatype exec_call =
    XCreate exec_env NewExecution
  | XPrepare exec_env string ExecutionPreparation
  | XClaimStandard exec_env string string
  | XClaim exec_env string string string
  | XRunning exec_env string
  | XFinish exec_env string string "int option" string string
  | XReconcile exec_env
  | XIncomplete exec_env string
  | XSubmission exec_env string string int string string
  | XSaveReceipt exec_env string string
  | XSaveUnused exec_env string string
  | XUnused exec_env string
  | XPermanent exec_env string
  | XQueue exec_env string go_time
  | XConfirm exec_env string
  | XRetry exec_env ExecutionEvidence go_time

fun exec_run :: "exec_call \<Rightarrow> unit xop" where
  "exec_run (XCreate env e) = CreateExecution env e"
| "exec_run (XPrepare env i p) = PrepareExecution env i p"
| "exec_run (XClaimStandard env i p) = ClaimExecutionDispatch env i p"
| "exec_run (XClaim env i p h) = ClaimProtected env i p h"
| "exec_run (XRunning env i) = MarkExecutionRunning env i"
| "exec_run (XFinish env i state code sig reason) = FinishExecution env i state code sig reason"
| "exec_run (XReconcile env) = ReconcileExecutions env"
| "exec_run (XIncomplete env i) = MarkExecutionEvidenceIncomplete env i"
| "exec_run (XSubmission env i h n ev rec) = SetExecutionSubmission env i h n ev rec"
| "exec_run (XSaveReceipt env i t) = SaveExecutionReceipt env i t"
| "exec_run (XSaveUnused env i t) = SaveUnusedExecutionReceipt env i t"
| "exec_run (XUnused env i) = MarkExecutionAdmissionUnused env i"
| "exec_run (XPermanent env i) = MarkExecutionEvidencePermanent env i"
| "exec_run (XQueue env raw t) = QueueExecutionEvidence env raw t"
| "exec_run (XConfirm env ev) = ConfirmExecutionEvidence env ev"
| "exec_run (XRetry env e now) = RetryExecutionEvidence env e now"

section \<open>Moves\<close>

text \<open>The life of an execution: \<open>submitted\<close>, \<open>prepared\<close>, then for an enhanced one \<open>admitted\<close>,
  then \<open>dispatching\<close>, \<open>running\<close> and an outcome, which may come from any state but \<open>admitted\<close>.\<close>

definition legal_step :: "bool \<Rightarrow> string \<Rightarrow> string \<Rightarrow> bool" where
  "legal_step enhanced a b \<longleftrightarrow>
     (a = ''submitted'' \<and> b = ''prepared'') \<or>
     (a = ''prepared'' \<and> b = (if enhanced then ''admitted'' else ''dispatching'')) \<or>
     (enhanced \<and> a = ''admitted'' \<and> b = ''dispatching'') \<or>
     (a = ''dispatching'' \<and> b = ''running'') \<or>
     (a \<in> set [''submitted'', ''prepared'', ''dispatching'', ''running''] \<and> b \<in> set outcomes)"

fun legal_path :: "bool \<Rightarrow> string \<Rightarrow> string list \<Rightarrow> bool" where
  "legal_path enhanced a [] \<longleftrightarrow> True"
| "legal_path enhanced a (b # bs) \<longleftrightarrow> legal_step enhanced a b \<and> legal_path enhanced b bs"

definition legal_history :: "bool \<Rightarrow> string list \<Rightarrow> bool" where
  "legal_history enhanced ts \<longleftrightarrow> ts \<noteq> [] \<and> hd ts = ''submitted'' \<and> legal_path enhanced (hd ts) (tl ts)"

definition events_of :: "exec_db \<Rightarrow> string \<Rightarrow> execution_event_row list" where
  "events_of d i = filter (\<lambda>v. ev_execution_id v = i) (execution_events d)"

definition history :: "exec_db \<Rightarrow> string \<Rightarrow> string list" where
  "history d i = map ev_event_type (events_of d i)"

text \<open>The events a move appends for one execution, numbered from the next free number.\<close>

definition numbered :: "execution_event_row list \<Rightarrow> string \<Rightarrow> string list \<Rightarrow> execution_event_row list \<Rightarrow> bool" where
  "numbered old i ts evs \<longleftrightarrow>
     map ev_execution_id evs = replicate (length ts) i \<and> map ev_event_type evs = ts \<and>
     map ev_sequence evs = [next_sequence old i..<next_sequence old i + length ts]"

text \<open>The columns written at submission, and those that are the outcome.\<close>

definition submission :: "execution_row \<Rightarrow> string list \<times> int \<times> bool \<times> sql_time" where
  "submission r =
     ([er_id r, er_actor_id r, er_actor_name r, er_actor_provider r, er_node_id r, er_node_name r,
       er_requested_user r, er_command_sha256 r, er_policy_version r, er_actor_person_id r,
       er_actor_subject r, er_policy_sha256 r], er_command_length r, er_enhanced r, er_created_at r)"

definition outcome :: "execution_row \<Rightarrow> string \<times> int option \<times> string \<times> string \<times> sql_time option" where
  "outcome r = (er_state r, er_exit_code r, er_signal r, er_reason r, er_finished_at r)"

text \<open>What a change of annotations may do to the evidence state.\<close>

definition evidence_step :: "string \<Rightarrow> string \<Rightarrow> bool" where
  "evidence_step a b \<longleftrightarrow> b = a \<or> b = ''permanently_incomplete'' \<or>
     (a \<noteq> ''permanently_incomplete'' \<and> b = ''completion_unconfirmed'')"

definition dispatch_fits :: "execution_row \<Rightarrow> dispatch_row \<Rightarrow> bool" where
  "dispatch_fits r x \<longleftrightarrow> di_execution_id x = er_id r \<and>
     (if er_enhanced r then ValidHash (di_receipt_sha256 x) else di_receipt_sha256 x = [])"

definition queued_state :: "execution_row \<Rightarrow> execution_row" where
  "queued_state e = e\<lparr>er_evidence_state := (if er_finished_at e = None then ''pending'' else ''completion_unconfirmed'')\<rparr>"

inductive exec_move :: "exec_db \<Rightarrow> exec_db \<Rightarrow> bool" where
  same: "exec_move d d"
| submit: "\<lbrakk>\<not> known_execution d (er_id r); er_state r = ''submitted''; er_finished_at r = None;
     er_evidence_state r = ''local''; numbered (execution_events d) (er_id r) [''submitted''] evs\<rbrakk> \<Longrightarrow>
   exec_move d (d\<lparr>executions := executions d @ [r], execution_events := execution_events d @ evs\<rparr>)"
| advance: "\<lbrakk>sql_count P (executions d) = 1; numbered (execution_events d) i [s] evs;
     s \<noteq> ''admitted''; s \<noteq> ''dispatching'';
     \<And>r. r \<in> set (executions d) \<Longrightarrow> P r \<Longrightarrow>
        er_id r = i \<and> (legal_step (er_enhanced r) (er_state r) s \<or> er_finished_at r = None \<and> s \<in> set outcomes) \<and>
        submission (g r) = submission r \<and> er_state (g r) = s \<and>
        (if s \<in> set outcomes then er_finished_at (g r) \<noteq> None else er_finished_at (g r) = er_finished_at r) \<and>
        er_evidence_state (g r) =
          (if s \<in> set outcomes then finished_evidence s r else er_evidence_state r)\<rbrakk> \<Longrightarrow>
   exec_move d (d\<lparr>executions := sql_update P g (executions d), execution_events := execution_events d @ evs\<rparr>)"
| claim: "\<lbrakk>sql_count P (executions d) = 1;
     numbered (execution_events d) i (if enhanced then [''admitted'', ''dispatching''] else [''dispatching'']) evs;
     di_execution_id x = i; i \<notin> set (map di_execution_id (execution_dispatches d));
     di_receipt_sha256 x \<noteq> [] \<longrightarrow> di_receipt_sha256 x \<notin> set (map di_receipt_sha256 (execution_dispatches d));
     \<And>r. r \<in> set (executions d) \<Longrightarrow> P r \<Longrightarrow>
        er_id r = i \<and> er_state r = ''prepared'' \<and> er_enhanced r = enhanced \<and> dispatch_fits r x \<and>
        submission (g r) = submission r \<and> er_state (g r) = ''dispatching'' \<and>
        er_finished_at (g r) = er_finished_at r \<and>
        er_evidence_state (g r) = (if enhanced then ''pending'' else er_evidence_state r)\<rbrakk> \<Longrightarrow>
   exec_move d (d\<lparr>executions := sql_update P g (executions d), execution_events := execution_events d @ evs,
     execution_dispatches := execution_dispatches d @ [x]\<rparr>)"
| restart: "\<lbrakk>map ev_execution_id evs = map er_id (filter (\<lambda>r. er_finished_at r = None) (executions d));
     map ev_event_type evs = map restart_state (filter (\<lambda>r. er_finished_at r = None) (executions d));
     map ev_sequence evs = map (next_sequence (execution_events d) \<circ> ev_execution_id) evs\<rbrakk> \<Longrightarrow>
   exec_move d (d\<lparr>executions := sql_update (\<lambda>r. er_finished_at r = None) (restart_row now) (executions d),
     execution_events := execution_events d @ evs\<rparr>)"
| annotate: "\<lbrakk>\<And>r. r \<in> set (executions d) \<Longrightarrow> P r \<Longrightarrow>
        submission (g r) = submission r \<and> outcome (g r) = outcome r \<and>
        evidence_step (er_evidence_state r) (er_evidence_state (g r))\<rbrakk> \<Longrightarrow>
   exec_move d (d\<lparr>executions := sql_update P g (executions d)\<rparr>)"
| queue: "\<lbrakk>rv_event_id q \<notin> set (map rv_event_id (evidence_recovery d));
     rv_event_id q \<notin> set (map cf_event_id (evidence_confirmations d));
     length (evidence_recovery d) < MaxRecoveryEvents; length (rv_envelope q) \<le> 16384;
     recovery_bytes d + length (rv_envelope q) \<le> MaxRecoveryBytes; known_execution d (rv_execution_id q)\<rbrakk> \<Longrightarrow>
   exec_move d (d\<lparr>executions := sql_update
       (\<lambda>e. er_id e = rv_execution_id q \<and> er_evidence_state e \<noteq> ''permanently_incomplete'') queued_state (executions d),
     evidence_recovery := evidence_recovery d @ [q]\<rparr>)"
| confirm: "\<lbrakk>q \<in> set (evidence_recovery d); cf_event_id c = rv_event_id q; cf_execution_id c = rv_execution_id q;
     cf_record_sha256 c = rv_record_sha256 q; cf_event_id c \<notin> set (map cf_event_id (evidence_confirmations d));
     rest = sql_delete (\<lambda>r. rv_event_id r = rv_event_id q) (evidence_recovery d);
     cs = evidence_confirmations d @ [c]\<rbrakk> \<Longrightarrow>
   exec_move d (d\<lparr>executions := sql_update
       (\<lambda>r. er_id r = rv_execution_id q \<and> er_finished_at r \<noteq> None \<and> er_evidence_state r \<noteq> ''permanently_incomplete'' \<and>
            er_id r @ ''.completion'' \<in> set (map cf_event_id cs) \<and> rv_execution_id q \<notin> set (map rv_execution_id rest))
       (\<lambda>r. r\<lparr>er_evidence_state := ''confirmed''\<rparr>) (executions d),
     evidence_recovery := rest, evidence_confirmations := cs\<rparr>)"
| expire: "exec_move d (d\<lparr>executions := sql_update (\<lambda>r. er_id r = i) (\<lambda>r. r\<lparr>er_evidence_state := ''permanently_incomplete''\<rparr>) (executions d),
     evidence_recovery := sql_delete (\<lambda>r. rv_event_id r = ev) (evidence_recovery d)\<rparr>)"
| postpone: "\<lbrakk>\<And>r. rv_event_id (g r) = rv_event_id r \<and> rv_execution_id (g r) = rv_execution_id r \<and>
       rv_envelope (g r) = rv_envelope r \<and> rv_record_sha256 (g r) = rv_record_sha256 r\<rbrakk> \<Longrightarrow>
   exec_move d (d\<lparr>evidence_recovery := sql_update P g (evidence_recovery d)\<rparr>)"

section \<open>Refinement\<close>

lemma sql_tx_cases: "snd (sql_tx f fn d) = d \<or> (\<exists>v d'. fn d = (Inr v, d') \<and> snd (sql_tx f fn d) = d' \<and> fst (sql_tx f fn d) = Inr v)"
  by (auto simp: sql_tx_def split: prod.splits sum.splits)

lemma protected_cases:
  "snd (protectedTransaction f fn d) = d \<or>
   (\<exists>v d'. fn d = (Inr v, d') \<and> snd (protectedTransaction f fn d) = d' \<and> fst (protectedTransaction f fn d) = Inr v)"
  by (auto simp: protectedTransaction_def sql_tx_def split: prod.splits sum.splits)

lemma tx_move:
  assumes "\<And>v d'. fn d = (Inr v, d') \<Longrightarrow> exec_move d d'"
  shows "exec_move d (snd (sql_tx f fn d))" "exec_move d (snd (protectedTransaction f fn d))"
  using sql_tx_cases [of f fn d] protected_cases [of f fn d] assms same by metis+

lemma write_tx_move:
  "(\<And>v d'. fn d = (Inr v, d') \<Longrightarrow> exec_move d d') \<Longrightarrow> exec_move d (snd (protectedWriteTransaction f fn d))"
  unfolding protectedWriteTransaction_def by (rule tx_move) (simp add: stmt_ok)

lemma updated_ok:
  "executionUpdated f j P g d = (Inr v, d') \<longleftrightarrow>
     \<not> f j \<and> \<not> f (j + 1) \<and> sql_count P (executions d) = 1 \<and> d' = d\<lparr>executions := sql_update P g (executions d)\<rparr>"
  by (auto simp: executionUpdated_def op_ok update_executions_def op_ret_def)

lemma update_ok:
  "update_executions b P g d = (Inr v, d') \<longleftrightarrow> \<not> b \<and> d' = d\<lparr>executions := sql_update P g (executions d)\<rparr>"
  by (auto simp: update_executions_def)

lemma event_ok:
  "executionEvent env j n i s now d = (Inr v, d') \<Longrightarrow>
     \<exists>e. d' = d\<lparr>execution_events := execution_events d @ [e]\<rparr> \<and> ev_execution_id e = i \<and> ev_event_type e = s \<and>
         ev_sequence e = next_sequence (execution_events d) i"
  by (auto simp: executionEvent_def Let_def split: if_splits)

lemma replay_ok: "replay_on_error m d = (Inr v, d') \<longleftrightarrow> m d = (Inr v, d')"
  by (auto simp: replay_on_error_def split: prod.splits sum.splits)

lemma dispatch_ok:
  "insert_dispatch b x d = (Inr v, d') \<longleftrightarrow> \<not> b \<and> known_execution d (di_execution_id x) \<and>
     di_execution_id x \<notin> set (map di_execution_id (execution_dispatches d)) \<and>
     (di_receipt_sha256 x \<noteq> [] \<longrightarrow> di_receipt_sha256 x \<notin> set (map di_receipt_sha256 (execution_dispatches d))) \<and>
     d' = d\<lparr>execution_dispatches := execution_dispatches d @ [x]\<rparr>"
  by (auto simp: insert_dispatch_def)

lemma numbered_1:
  "\<lbrakk>ev_execution_id e = i; ev_event_type e = s; ev_sequence e = next_sequence old i\<rbrakk> \<Longrightarrow> numbered old i [s] [e]"
  by (simp add: numbered_def)

lemma known_update [simp]:
  "known_execution (d\<lparr>execution_events := evs\<rparr>) = known_execution d"
  "known_execution (d\<lparr>execution_dispatches := xs\<rparr>) = known_execution d"
  by (simp_all add: known_execution_def fun_eq_iff)

lemma create_moves: "exec_move d (snd (CreateExecution env e d))"
  unfolding CreateExecution_def Let_def
proof (rule tx_move(1))
  fix v d'
  let ?r = "new_row e (format_sqlite (x_clock env 0))"
  assume "op_bind (insert_execution (x_db env 0) ?r)
     (\<lambda>_. executionEvent env 1 0 (ne_ID e) ''submitted'' (format_sqlite (x_clock env 0))) d = (Inr v, d')"
  then obtain ev where "\<not> known_execution d (er_id ?r)" "ev_execution_id ev = ne_ID e"
      "ev_event_type ev = ''submitted''" "ev_sequence ev = next_sequence (execution_events d) (ne_ID e)"
      "d' = d\<lparr>executions := executions d @ [?r], execution_events := execution_events d @ [ev]\<rparr>"
    by (auto simp: op_ok insert_execution_def split: if_splits dest!: event_ok)
  then show "exec_move d d'"
    by (simp only:) (rule submit, auto simp: new_row_def intro: numbered_1)
qed

text \<open>An update of one execution followed by its event is an advance.\<close>

lemma advance_moves:
  assumes "\<And>r. P r \<Longrightarrow>
        er_id r = i \<and> (legal_step (er_enhanced r) (er_state r) s \<or> er_finished_at r = None \<and> s \<in> set outcomes) \<and>
        submission (g r) = submission r \<and> er_state (g r) = s \<and>
        (if s \<in> set outcomes then er_finished_at (g r) \<noteq> None else er_finished_at (g r) = er_finished_at r) \<and>
        er_evidence_state (g r) = (if s \<in> set outcomes then finished_evidence s r else er_evidence_state r)"
    and "s \<noteq> ''admitted'' \<and> s \<noteq> ''dispatching''"
    and "op_bind (executionUpdated f j P g) (\<lambda>_. executionEvent env k n i s now) d = (Inr v, d')"
  shows "exec_move d d'"
proof -
  from assms(3) obtain e where "sql_count P (executions d) = 1" "numbered (execution_events d) i [s] [e]"
      "d' = d\<lparr>executions := sql_update P g (executions d), execution_events := execution_events d @ [e]\<rparr>"
    by (auto simp: op_ok updated_ok numbered_def dest!: event_ok)
  then show ?thesis using assms(1,2) by (simp only:) (rule advance, auto)
qed

lemma outcome_names [simp]:
  "''prepared'' \<notin> set outcomes" "''running'' \<notin> set outcomes" "''submitted'' \<notin> set outcomes"
  "''dispatching'' \<notin> set outcomes" "''admitted'' \<notin> set outcomes"
  "''outcome_unknown'' \<in> set outcomes" "''cancelled'' \<in> set outcomes"
  by (simp_all add: outcomes_def)

lemma prepare_moves: "exec_move d (snd (PrepareExecution env i p d))"
  unfolding PrepareExecution_def Let_def
  by (auto split: option.splits simp: submission_def legal_step_def intro!: same tx_move(1) elim!: advance_moves [rotated 2])

lemma running_moves: "exec_move d (snd (MarkExecutionRunning env i d))"
  unfolding MarkExecutionRunning_def Let_def
  by (auto simp: submission_def legal_step_def intro!: tx_move(1) elim!: advance_moves [rotated 2])

lemma finish_moves: "exec_move d (snd (FinishExecution env i s code sig reason d))"
  unfolding FinishExecution_def Let_def
  by (auto simp: submission_def legal_step_def intro!: same tx_move(1) elim!: advance_moves [rotated 2])

lemma numbered_2:
  assumes "numbered old i [s] [e]" "numbered (old @ [e]) i [t] [e']"
  shows "numbered old i [s, t] [e, e']"
proof -
  let ?hits = "filter (\<lambda>v. ev_execution_id v = i) old"
  have "Max (set (map ev_sequence (?hits @ [e]))) = max (Max (set (map ev_sequence ?hits))) (ev_sequence e)" if "?hits \<noteq> []"
    using that by (simp only: map_append set_append) (subst Max_Un, auto simp: filter_empty_conv)
  then have "next_sequence (old @ [e]) i = max (next_sequence old i) (ev_sequence e + 1)"
    using assms(1) by (cases "?hits = []") (auto simp: numbered_def next_sequence_def Let_def)
  then show ?thesis using assms by (simp add: numbered_def)
qed

lemma claim_moves: "exec_move d (snd (ClaimExecutionDispatch env i p d))"
  unfolding ClaimExecutionDispatch_def Let_def
proof (rule tx_move(1), goal_cases)
  case (1 v d')
  let ?now = "format_sqlite (x_clock env 0)"
  from 1 obtain e where "numbered (execution_events d) i [''dispatching''] [e]"
    and rest: "sql_count (\<lambda>r. er_id r = i \<and> \<not> er_enhanced r \<and> er_state r = ''prepared'' \<and>
        x_extract_id env (er_preparation r) = Some p) (executions d) = 1"
      "i \<notin> set (map di_execution_id (execution_dispatches d))"
      "d' = d\<lparr>executions := sql_update (\<lambda>r. er_id r = i \<and> \<not> er_enhanced r \<and> er_state r = ''prepared'' \<and>
          x_extract_id env (er_preparation r) = Some p) (\<lambda>r. r\<lparr>er_state := ''dispatching'', er_updated_at := ?now\<rparr>)
          (executions d), execution_events := execution_events d @ [e],
        execution_dispatches := execution_dispatches d @ [\<lparr>di_execution_id = i, di_preparation_id = p,
          di_receipt_sha256 = [], di_claimed_at = ?now\<rparr>]\<rparr>"
    by (auto simp: op_ok updated_ok dispatch_ok numbered_def dest!: event_ok)
  then have "numbered (execution_events d) i (if False then [''admitted'', ''dispatching''] else [''dispatching'']) [e]"
    by simp
  with rest show ?case by (simp only:) (rule claim [where enhanced = False], auto simp: submission_def dispatch_fits_def)
qed

lemma protected_claim_moves: "exec_move d (snd (ClaimProtected env i p h d))"
proof (cases "ValidHash h")
  case True
  then have "h \<noteq> []" by (auto simp: ValidHash_def)
  show ?thesis unfolding ClaimProtected_def Let_def
  proof (simp only: True not_True_eq_False if_False, rule tx_move(2), goal_cases)
    case (1 v d')
    let ?now = "format_sqlite (x_clock env 0)"
    let ?P = "claimable env i p (unix_milli (x_clock env 1))"
    from 1 obtain e e' where "numbered (execution_events d) i [''admitted''] [e]"
        "numbered (execution_events d @ [e]) i [''dispatching''] [e']"
      and rest: "sql_count ?P (executions d) = 1" "i \<notin> set (map di_execution_id (execution_dispatches d))"
        "h \<noteq> [] \<longrightarrow> h \<notin> set (map di_receipt_sha256 (execution_dispatches d))"
        "d' = d\<lparr>executions := sql_update ?P (\<lambda>r. r\<lparr>er_state := ''dispatching'', er_evidence_state := ''pending'',
            er_admission_disposition := ''consumed_dispatch'', er_updated_at := ?now\<rparr>)
            (executions d), execution_events := execution_events d @ [e, e'],
          execution_dispatches := execution_dispatches d @ [\<lparr>di_execution_id = i, di_preparation_id = p,
            di_receipt_sha256 = h, di_claimed_at = ?now\<rparr>]\<rparr>"
      using \<open>h \<noteq> []\<close> by (auto simp: op_ok updated_ok dispatch_ok replay_ok numbered_def dest!: event_ok)
    then have "numbered (execution_events d) i (if True then [''admitted'', ''dispatching''] else [''dispatching'']) [e, e']"
      by (simp add: numbered_2)
    with rest True show ?case
      by (simp only:) (rule claim [where enhanced = True], auto simp: submission_def dispatch_fits_def claimable_def)
  qed
qed (simp add: ClaimProtected_def same)

lemma reconcile_moves: "exec_move d (snd (ReconcileExecutions env d))"
  unfolding ReconcileExecutions_def Let_def
proof (rule tx_move(1), goal_cases)
  case (1 v d')
  let ?now = "format_sqlite (x_clock env 0)"
  let ?open = "filter (\<lambda>r. er_finished_at r = None) (executions d)"
  from 1 have d': "d' = d\<lparr>executions := sql_update (\<lambda>r. er_finished_at r = None) (restart_row ?now) (executions d),
      execution_events := execution_events d @ restart_events env ?now d\<rparr>"
    by (auto simp: op_ok insert_restart_events_def update_ok Let_def split: if_splits)
  have "map (f \<circ> snd) (enumerate 0 xs) = map f xs" for f :: "execution_row \<Rightarrow> 'z" and xs
    by (metis map_map map_snd_enumerate)
  note enum = this [unfolded comp_def]
  show ?case unfolding d'
    by (rule restart) (simp_all add: restart_events_def comp_def case_prod_beta enum)
qed

lemma annotate_moves:
  assumes "\<And>r. P r \<Longrightarrow> submission (g r) = submission r \<and> outcome (g r) = outcome r \<and>
        evidence_step (er_evidence_state r) (er_evidence_state (g r))"
  shows "exec_move d (snd (update_executions b P g d))" "exec_move d (snd (executionUpdated f j P g d))"
    "exec_move d (snd (protectedTransaction tf (update_executions b P g) d))"
proof -
  have *: "exec_move d (d\<lparr>executions := sql_update P g (executions d)\<rparr>)" by (rule annotate) (simp add: assms)
  then show "exec_move d (snd (update_executions b P g d))" by (simp add: update_executions_def same)
  from * show "exec_move d (snd (executionUpdated f j P g d))"
    by (simp add: executionUpdated_def op_bind_def update_executions_def stmt_def refuse_if_def op_ret_def same)
  from * show "exec_move d (snd (protectedTransaction tf (update_executions b P g) d))"
    by (auto simp: update_ok intro: tx_move)
qed

lemmas annotation = submission_def outcome_def evidence_step_def

lemma simple_annotations:
  "exec_move d (snd (MarkExecutionEvidenceIncomplete env i d))"
  "exec_move d (snd (SetExecutionSubmission env i h n ev rec d))"
  "exec_move d (snd (MarkExecutionAdmissionUnused env i d))"
  "exec_move d (snd (MarkExecutionEvidencePermanent env i d))"
  "exec_move d (snd (SaveExecutionReceipt env i t d))"
  "exec_move d (snd (SaveUnusedExecutionReceipt env i t d))"
  unfolding MarkExecutionEvidenceIncomplete_def SetExecutionSubmission_def MarkExecutionAdmissionUnused_def
    MarkExecutionEvidencePermanent_def SaveExecutionReceipt_def SaveUnusedExecutionReceipt_def mark_permanent_def
  by (auto intro!: annotate_moves same simp: annotation)

lemma queue_body_moves:
  assumes "queue_body env q d = (Inr v, d')" shows "exec_move d d'"
proof (cases "\<exists>c. sql_first (\<lambda>c. cf_event_id c = rv_event_id q) (evidence_confirmations d) = Some c \<or>
    (\<exists>r. sql_first (\<lambda>r. rv_event_id r = rv_event_id q) (evidence_recovery d) = Some r)")
  case True
  with assms have "d' = d"
    by (auto simp: queue_body_def op_ok same_record_def op_ret_def split: option.splits)
  then show ?thesis by (simp add: same)
next
  case False
  then have none: "sql_first (\<lambda>c. cf_event_id c = rv_event_id q) (evidence_confirmations d) = None"
      "sql_first (\<lambda>r. rv_event_id r = rv_event_id q) (evidence_recovery d) = None"
    by auto
  let ?full = "length (evidence_recovery d) \<ge> MaxRecoveryEvents \<or> recovery_bytes d + length (rv_envelope q) > MaxRecoveryBytes"
  show ?thesis
  proof (cases ?full)
    case True
    with assms none have "d' = d\<lparr>executions := sql_update (\<lambda>r. er_id r = rv_execution_id q)
        (\<lambda>r. r\<lparr>er_evidence_state := ''permanently_incomplete''\<rparr>) (executions d)\<rparr>"
      by (simp add: queue_body_def op_ok mark_permanent_def update_ok)
    then show ?thesis by (simp only:) (rule annotate, simp add: annotation)
  next
    case False
    with assms none have "\<exists>v d1. queue_insert (x_db env 3) q d = (Inr v, d1) \<and> d' = d1\<lparr>executions := sql_update
       (\<lambda>e. er_id e = rv_execution_id q \<and> er_evidence_state e \<noteq> ''permanently_incomplete'') queued_state (executions d1)\<rparr>"
      by (auto simp: queue_body_def op_ok update_ok queued_state_def [abs_def])
    with none False have "d' = d\<lparr>executions := sql_update
       (\<lambda>e. er_id e = rv_execution_id q \<and> er_evidence_state e \<noteq> ''permanently_incomplete'') queued_state (executions d),
     evidence_recovery := evidence_recovery d @ [q]\<rparr>"
        "known_execution d (rv_execution_id q)" "length (rv_envelope q) \<le> 16384"
      by (auto simp: queue_insert_def sql_first_None split: if_splits)
    with none False show ?thesis by (simp only:) (rule queue, auto simp: sql_first_None)
  qed
qed

lemma queue_moves: "exec_move d (snd (QueueExecutionEvidence env raw t d))"
  by (auto simp: QueueExecutionEvidence_def Let_def same intro: write_tx_move [OF queue_body_moves]
      split: option.splits sum.splits)

lemma retry_moves: "exec_move d (snd (RetryExecutionEvidence env e now d))"
proof -
  have "exec_move d (snd (protectedTransaction (x_tx env)
             (op_bind (mark_permanent (x_db env 0) (ee_ExecutionID e)) (\<lambda>_.
              delete_recovery (x_db env 1) (ee_EventID e))) d))"
    by (rule tx_move(2))
      (auto simp: op_ok mark_permanent_def update_ok delete_recovery_def split: if_splits intro: expire)
  then show ?thesis by (auto simp: RetryExecutionEvidence_def same intro: postpone)
qed

text \<open>A queued event is not a confirmed one.\<close>

definition evidence_apart :: "exec_db \<Rightarrow> bool" where
  "evidence_apart d \<longleftrightarrow> distinct (map rv_event_id (evidence_recovery d)) \<and>
     distinct (map cf_event_id (evidence_confirmations d)) \<and>
     set (map rv_event_id (evidence_recovery d)) \<inter> set (map cf_event_id (evidence_confirmations d)) = {}"

lemma confirm_moves:
  assumes "evidence_apart d" shows "exec_move d (snd (ConfirmExecutionEvidence env ev d))"
  unfolding ConfirmExecutionEvidence_def
proof (rule write_tx_move, goal_cases)
  case (1 v d')
  then obtain q where q: "sql_first (\<lambda>r. rv_event_id r = ev) (evidence_recovery d) = Some q"
    by (auto simp: op_ok split: option.splits)
  then have mem: "q \<in> set (evidence_recovery d)" "rv_event_id q = ev" using sql_first_Some by fast+
  with assms have fresh: "ev \<notin> set (map cf_event_id (evidence_confirmations d))"
    by (auto simp: evidence_apart_def)
  let ?c = "\<lparr>cf_event_id = ev, cf_execution_id = rv_execution_id q, cf_record_sha256 = rv_record_sha256 q,
    cf_confirmed_at = format_sqlite (x_clock env 0)\<rparr>"
  let ?cs = "evidence_confirmations d @ [?c]"
  let ?rest = "sql_delete (\<lambda>r. rv_event_id r = rv_event_id q) (evidence_recovery d)"
  have "d' = d\<lparr>executions := sql_update
       (\<lambda>r. er_id r = rv_execution_id q \<and> er_finished_at r \<noteq> None \<and> er_evidence_state r \<noteq> ''permanently_incomplete'' \<and>
            er_id r @ ''.completion'' \<in> set (map cf_event_id ?cs) \<and> rv_execution_id q \<notin> set (map rv_execution_id ?rest))
       (\<lambda>r. r\<lparr>er_evidence_state := ''confirmed''\<rparr>) (executions d),
     evidence_recovery := ?rest, evidence_confirmations := ?cs\<rparr>"
    using 1 q fresh mem(2)
    by (auto simp: op_ok insert_confirmation_def delete_recovery_def confirmed_update_def update_ok split: if_splits)
  moreover have "exec_move d \<dots>" using mem fresh by (intro confirm) auto
  ultimately show ?case by simp
qed

theorem exec_run_moves: "evidence_apart d \<Longrightarrow> exec_move d (snd (exec_run x d))"
  by (cases x) (simp_all add: create_moves prepare_moves claim_moves protected_claim_moves running_moves finish_moves
      reconcile_moves simple_annotations queue_moves confirm_moves retry_moves)

section \<open>Invariants\<close>

text \<open>Each execution's events are numbered from 0 without a gap and spell a legal history that ends
  in its state; it has a dispatch claim exactly when the history has a dispatch; it is finished
  exactly when its state is an outcome.\<close>

definition row_logged :: "exec_db \<Rightarrow> execution_row \<Rightarrow> bool" where
  "row_logged d r \<longleftrightarrow>
     map ev_sequence (events_of d (er_id r)) = [0..<length (events_of d (er_id r))] \<and>
     legal_history (er_enhanced r) (history d (er_id r)) \<and> last (history d (er_id r)) = er_state r \<and>
     er_state r \<noteq> ''admitted'' \<and>
     (er_finished_at r \<noteq> None \<longleftrightarrow> er_state r \<in> set outcomes) \<and>
     (er_id r \<in> set (map di_execution_id (execution_dispatches d)) \<longleftrightarrow> ''dispatching'' \<in> set (history d (er_id r)))"

text \<open>A claim belongs to an execution; an enhanced one has spent a receipt, a standard one none.\<close>

definition claims_fit :: "exec_db \<Rightarrow> bool" where
  "claims_fit d \<longleftrightarrow>
     distinct (map di_execution_id (execution_dispatches d)) \<and>
     distinct (filter (\<lambda>h. h \<noteq> []) (map di_receipt_sha256 (execution_dispatches d))) \<and>
     (\<forall>x \<in> set (execution_dispatches d). \<exists>r \<in> set (executions d). dispatch_fits r x)"

definition logged :: "exec_db \<Rightarrow> bool" where
  "logged d \<longleftrightarrow> pk_ok er_id (executions d) \<and> (\<forall>r \<in> set (executions d). row_logged d r) \<and>
     (\<forall>v \<in> set (execution_events d). known_execution d (ev_execution_id v)) \<and> claims_fit d"

text \<open>The queue stays within its bounds; confirmed evidence is the completion's, with nothing of the
  execution still queued; a finished enhanced execution is unconfirmed, confirmed or marked
  permanently incomplete, never passed over.\<close>

definition accounted :: "exec_db \<Rightarrow> bool" where
  "accounted d \<longleftrightarrow>
     evidence_apart d \<and>
     length (evidence_recovery d) \<le> MaxRecoveryEvents \<and> recovery_bytes d \<le> MaxRecoveryBytes \<and>
     (\<forall>q \<in> set (evidence_recovery d). length (rv_envelope q) \<le> 16384) \<and>
     (\<forall>r \<in> set (executions d).
        (er_evidence_state r = ''confirmed'' \<longrightarrow> er_finished_at r \<noteq> None \<and>
           er_id r @ ''.completion'' \<in> set (map cf_event_id (evidence_confirmations d)) \<and>
           er_id r \<notin> set (map rv_execution_id (evidence_recovery d))) \<and>
        (er_enhanced r \<and> er_finished_at r \<noteq> None \<longrightarrow>
           er_evidence_state r \<in> set [''completion_unconfirmed'', ''confirmed'', ''permanently_incomplete'']))"

lemma submission_eq:
  "submission r' = submission r \<Longrightarrow> er_id r' = er_id r \<and> er_enhanced r' = er_enhanced r"
  by (simp add: submission_def)

lemma legal_path_append:
  "legal_path e a (xs @ ys) \<longleftrightarrow> legal_path e a xs \<and> legal_path e (last (a # xs)) ys"
  by (induction xs arbitrary: a) auto

lemma legal_history_append:
  assumes "legal_history e ts" "legal_path e (last ts) us" shows "legal_history e (ts @ us)"
  using assms by (cases ts) (auto simp: legal_history_def legal_path_append)

lemma next_sequence_length:
  assumes "map ev_sequence (events_of d i) = [0..<n]"
  shows "next_sequence (execution_events d) i = n"
proof (cases n)
  case 0
  then show ?thesis using assms by (simp add: next_sequence_def events_of_def)
next
  case (Suc m)
  have "Max (set [0..<Suc m]) = m" by (rule Max_eqI) auto
  moreover have "events_of d i \<noteq> []" using assms Suc by auto
  ultimately show ?thesis
    using assms Suc unfolding next_sequence_def Let_def events_of_def [symmetric] by (simp del: upt_Suc)
qed

text \<open>What a move does to one execution \<open>r\<close>: its row becomes \<open>g r\<close>, its log grows by \<open>evs\<close>.\<close>

lemma row_logged_step:
  assumes "row_logged d r" "submission (g r) = submission r"
    and "events_of d' (er_id r) = events_of d (er_id r) @ evs"
    and "numbered (execution_events d) (er_id r) (map ev_event_type evs) evs"
    and "legal_path (er_enhanced r) (er_state r) (map ev_event_type evs)"
    and "er_state (g r) = last (er_state r # map ev_event_type evs) \<and> er_state (g r) \<noteq> ''admitted''"
    and "er_finished_at (g r) \<noteq> None \<longleftrightarrow> er_state (g r) \<in> set outcomes"
    and "er_id r \<in> set (map di_execution_id (execution_dispatches d')) \<longleftrightarrow>
       er_id r \<in> set (map di_execution_id (execution_dispatches d)) \<or> ''dispatching'' \<in> set (map ev_event_type evs)"
  shows "row_logged d' (g r)"
proof -
  note eq = submission_eq [OF assms(2)]
  have n: "next_sequence (execution_events d) (er_id r) = length (events_of d (er_id r))"
    using assms(1) by (intro next_sequence_length) (simp add: row_logged_def)
  have hist: "history d' (er_id r) = history d (er_id r) @ map ev_event_type evs" by (simp add: history_def assms(3))
  moreover have "legal_history (er_enhanced r) (history d' (er_id r))"
    using assms(1,5) by (simp add: hist row_logged_def legal_history_append)
  moreover have "last (history d' (er_id r)) = er_state (g r)"
    using assms(1,6) by (auto simp: hist row_logged_def)
  moreover have "map ev_sequence (events_of d' (er_id r)) = [0..<length (events_of d' (er_id r))]"
  proof -
    have "map ev_sequence (events_of d (er_id r)) = [0..<length (events_of d (er_id r))]"
      using assms(1) by (simp only: row_logged_def)
    moreover have "map ev_sequence evs =
        [length (events_of d (er_id r))..<length (events_of d (er_id r)) + length evs]"
      using assms(4) by (simp only: numbered_def n length_map)
    ultimately show ?thesis by (simp only: assms(3) map_append length_append) (simp only: upt_add_eq_append [OF le0])
  qed
  moreover have "er_id r \<in> set (map di_execution_id (execution_dispatches d')) \<longleftrightarrow> ''dispatching'' \<in> set (history d' (er_id r))"
    using assms(1,8) by (simp only: hist row_logged_def set_append Un_iff)
  moreover have "er_state (g r) \<noteq> ''admitted''" using assms(6) by (rule conjunct2)
  ultimately show ?thesis using assms(7) by (simp only: row_logged_def eq simp_thms)
qed

lemma row_logged_frame:
  assumes "row_logged d r" "submission (g r) = submission r" "er_state (g r) = er_state r"
    "er_finished_at (g r) = er_finished_at r" "events_of d' (er_id r) = events_of d (er_id r)"
    "execution_dispatches d' = execution_dispatches d"
  shows "row_logged d' (g r)"
  using assms submission_eq [OF assms(2)] by (simp add: row_logged_def history_def)

lemma events_of_append:
  "events_of (d\<lparr>execution_events := execution_events d @ evs\<rparr>) j = events_of d j @ filter (\<lambda>v. ev_execution_id v = j) evs"
  by (simp add: events_of_def)

lemma numbered_filter:
  assumes "numbered old i ts evs"
  shows "filter (\<lambda>v. ev_execution_id v = j) evs = (if i = j then evs else [])"
proof -
  from assms have "\<forall>v \<in> set evs. ev_execution_id v = i"
    unfolding numbered_def by (metis in_set_replicate list.set_map imageI)
  then show ?thesis by (auto simp: filter_empty_conv)
qed

lemma filter_key_nth:
  assumes "distinct (map key xs)" "k < length xs" shows "filter (\<lambda>x. key x = key (xs ! k)) xs = [xs ! k]"
  using assms
proof (induction xs arbitrary: k)
  case (Cons x xs)
  then show ?case
    by (cases k) (auto simp: filter_empty_conv image_iff dest: nth_mem)
qed simp

lemma count_1_unique:
  assumes "sql_count P rows = 1" "r \<in> set rows" "r' \<in> set rows" "P r" "P r'" shows "r = r'"
proof -
  from assms(1) obtain x where "filter P rows = [x]" unfolding sql_count_def by (metis One_nat_def length_0_conv length_Suc_conv)
  then have "{y \<in> set rows. P y} = {x}" by (metis set_filter list.set(1,2))
  moreover have "r \<in> {y \<in> set rows. P y}" "r' \<in> {y \<in> set rows. P y}" using assms by simp_all
  ultimately show ?thesis by simp
qed

definition state_names :: "string set" where
  "state_names = set [''submitted'', ''prepared'', ''admitted'', ''dispatching'', ''running''] \<union> set outcomes"

lemma legal_step_names: "legal_step e a b \<Longrightarrow> b \<in> state_names"
  by (auto simp: legal_step_def state_names_def split: if_splits)

lemma legal_path_names: "legal_path e a ts \<Longrightarrow> a \<in> state_names \<Longrightarrow> last (a # ts) \<in> state_names"
  by (induction ts arbitrary: a) (auto dest: legal_step_names)

lemma open_state:
  assumes "row_logged d r" "er_finished_at r = None"
  shows "er_state r \<in> set [''submitted'', ''prepared'', ''dispatching'', ''running'']"
proof -
  have "''submitted'' \<in> state_names" by (simp add: state_names_def)
  then have "last (history d (er_id r)) \<in> state_names"
    using assms(1) legal_path_names [of "er_enhanced r" "hd (history d (er_id r))" "tl (history d (er_id r))"]
    unfolding row_logged_def legal_history_def by (metis list.collapse)
  with assms show ?thesis by (auto simp: row_logged_def state_names_def)
qed

lemma outcome_steps: "row_logged d r \<Longrightarrow> er_finished_at r = None \<Longrightarrow> s \<in> set outcomes \<Longrightarrow> legal_step e (er_state r) s"
  using open_state by (auto simp: legal_step_def)

lemma claims_fit_frame:
  assumes "claims_fit d" "executions d' = sql_update P g (executions d)"
    "\<And>r. r \<in> set (executions d) \<Longrightarrow> P r \<Longrightarrow> submission (g r) = submission r"
    "execution_dispatches d' = execution_dispatches d"
  shows "claims_fit d'"
proof -
  have "\<exists>r' \<in> set (executions d'). dispatch_fits r' x" if "r \<in> set (executions d)" "dispatch_fits r x" for r x
  proof
    show "(if P r then g r else r) \<in> set (executions d')" using that by (simp add: assms(2) sql_update_def)
    show "dispatch_fits (if P r then g r else r) x"
      using that submission_eq [OF assms(3) [OF that(1)]] by (simp add: dispatch_fits_def)
  qed
  with assms(1,4) show ?thesis unfolding claims_fit_def by metis
qed

lemma logged_update:
  assumes "logged d" "executions d' = sql_update P g (executions d)"
    and sub: "\<And>r. r \<in> set (executions d) \<Longrightarrow> P r \<Longrightarrow> submission (g r) = submission r"
    and rows: "\<And>r. r \<in> set (executions d) \<Longrightarrow> row_logged d' (if P r then g r else r)"
    and evs: "\<And>v. v \<in> set (execution_events d') \<Longrightarrow> known_execution d (ev_execution_id v)"
    and "claims_fit d'"
  shows "logged d'"
proof -
  have ids: "map er_id (executions d') = map er_id (executions d)"
    using submission_eq [OF sub] by (simp add: assms(2) sql_update_def)
  then have "known_execution d' = known_execution d" by (simp add: known_execution_def fun_eq_iff)
  moreover have "\<forall>r' \<in> set (executions d'). row_logged d' r'"
    using rows by (force simp: assms(2) sql_update_def)
  ultimately show ?thesis using assms(1,6) ids evs by (simp add: logged_def pk_ok_def)
qed

lemma logged_frame:
  assumes "logged d" "executions d' = sql_update P g (executions d)"
    "\<And>r. r \<in> set (executions d) \<Longrightarrow> P r \<Longrightarrow> submission (g r) = submission r \<and> outcome (g r) = outcome r"
    "execution_events d' = execution_events d" "execution_dispatches d' = execution_dispatches d"
  shows "logged d'"
proof (rule logged_update [OF assms(1,2)])
  show "row_logged d' (if P r then g r else r)" if "r \<in> set (executions d)" for r
  proof -
    have "row_logged d r" using assms(1) that by (simp add: logged_def)
    moreover have "events_of d' (er_id r) = events_of d (er_id r)" by (simp add: events_of_def assms(4))
    ultimately show ?thesis
      using row_logged_frame [of d r g d'] row_logged_frame [of d r id d'] assms(3) [OF that] assms(5)
      by (auto simp: outcome_def)
  qed
  show "claims_fit d'" using assms by (intro claims_fit_frame [OF _ assms(2)]) (auto simp: logged_def)
qed (use assms in \<open>auto simp: logged_def\<close>)

lemma logged_evidence [simp]:
  "logged (d\<lparr>evidence_recovery := qs\<rparr>) = logged d" "logged (d\<lparr>evidence_confirmations := cs\<rparr>) = logged d"
  by (simp_all add: logged_def row_logged_def claims_fit_def events_of_def history_def known_execution_def)

lemma logged_annotated:
  assumes "logged d" "\<And>r. r \<in> set (executions d) \<Longrightarrow> P r \<Longrightarrow> submission (g r) = submission r \<and> outcome (g r) = outcome r"
  shows "logged (d\<lparr>executions := sql_update P g (executions d)\<rparr>)"
  by (rule logged_frame [OF assms(1), of _ P g]) (use assms(2) in auto)

text \<open>One execution advances; the rows the update does not match have other ids.\<close>

lemma logged_one:
  assumes "logged d" "sql_count P (executions d) = 1"
    and upd: "executions d' = sql_update P g (executions d)" "execution_events d' = execution_events d @ evs"
    and ids: "\<And>r. r \<in> set (executions d) \<Longrightarrow> P r \<Longrightarrow> er_id r = i \<and> submission (g r) = submission r"
    and evs: "numbered (execution_events d) i ts evs"
    and disp: "\<And>j. j \<in> set (map di_execution_id (execution_dispatches d')) \<longleftrightarrow>
        j \<in> set (map di_execution_id (execution_dispatches d)) \<or> (j = i \<and> ''dispatching'' \<in> set ts)"
    and row: "\<And>r. r \<in> set (executions d) \<Longrightarrow> P r \<Longrightarrow> row_logged d r \<Longrightarrow>
        legal_path (er_enhanced r) (er_state r) ts \<and> er_state (g r) = last (er_state r # ts) \<and>
        er_state (g r) \<noteq> ''admitted'' \<and> (er_finished_at (g r) \<noteq> None \<longleftrightarrow> er_state (g r) \<in> set outcomes)"
    and "claims_fit d'"
  shows "logged d'"
proof -
  from assms(2) obtain r0 where r0: "r0 \<in> set (executions d)" "P r0"
    using sql_count_pos_iff [of P "executions d"] by auto
  have other: "er_id r \<noteq> i" if "r \<in> set (executions d)" "\<not> P r" for r
    using that r0 ids [OF r0] assms(1) pk_unique [of er_id "executions d" r r0] by (auto simp: logged_def)
  have ev': "events_of d' j = events_of d j @ (if i = j then evs else [])" for j
    using numbered_filter [OF evs, of j] by (simp add: events_of_def upd)
  have ts: "map ev_event_type evs = ts" using evs by (simp add: numbered_def)
  have rows: "row_logged d' (if P r then g r else r)" if "r \<in> set (executions d)" for r
  proof (cases "P r")
    case True
    have l: "row_logged d r" using assms(1) that by (simp add: logged_def)
    show ?thesis
      using row_logged_step [OF l, of g d' evs] ids [OF that True] row [OF that True l] ev' evs disp ts True by auto
  next
    case False
    then have "row_logged d' (id r)"
      using assms(1) that ev' other [OF that False] disp
      by (intro row_logged_step [of d r id d' "[]"]) (auto simp: logged_def numbered_def row_logged_def)
    with False show ?thesis by simp
  qed
  have "known_execution d i" using r0 ids [OF r0] by (auto simp: known_execution_def)
  moreover have "\<forall>v \<in> set evs. ev_execution_id v = i"
    using numbered_filter [OF evs, of i] by (simp add: filter_id_conv)
  ultimately have known: "known_execution d (ev_execution_id v)" if "v \<in> set (execution_events d')" for v
    using that assms(1) by (auto simp: upd logged_def)
  show ?thesis by (rule logged_update [OF assms(1) upd(1)]) (use rows known ids assms in auto)
qed

lemma logged_submit:
  assumes "logged d" "\<not> known_execution d (er_id r)" "er_state r = ''submitted''" "er_finished_at r = None"
    "numbered (execution_events d) (er_id r) [''submitted''] evs"
  shows "logged (d\<lparr>executions := executions d @ [r], execution_events := execution_events d @ evs\<rparr>)" (is "logged ?d")
proof -
  have none: "events_of d (er_id r) = []"
    using assms(1,2) by (auto simp: logged_def events_of_def filter_empty_conv)
  then have zero: "next_sequence (execution_events d) (er_id r) = 0" by (simp add: next_sequence_def events_of_def)
  have ev': "events_of ?d j = events_of d j @ (if er_id r = j then evs else [])" for j
    using numbered_filter [OF assms(5), of j] by (simp add: events_of_def)
  have nodisp: "er_id r \<notin> set (map di_execution_id (execution_dispatches d))"
    using assms(1,2) by (auto simp: logged_def claims_fit_def dispatch_fits_def known_execution_def)
  have "row_logged ?d r"
    using assms(3-5) none nodisp zero
    by (auto simp: row_logged_def ev' history_def numbered_def legal_history_def upt_rec)
  moreover have "row_logged ?d r'" if "r' \<in> set (executions d)" for r'
  proof -
    have "er_id r' \<noteq> er_id r" using that assms(2) by (auto simp: known_execution_def image_iff)
    with assms(1) that show ?thesis using row_logged_frame [of d r' id ?d] by (simp add: ev' logged_def)
  qed
  moreover have "\<forall>v \<in> set evs. ev_execution_id v = er_id r"
    using numbered_filter [OF assms(5), of "er_id r"] by (simp add: filter_id_conv)
  ultimately show ?thesis
    using assms(1,2) by (auto simp: logged_def known_execution_def pk_ok_def claims_fit_def)
qed

lemma distinct_filter_snoc:
  "distinct (filter Q (xs @ [x])) \<longleftrightarrow> distinct (filter Q xs) \<and> (Q x \<longrightarrow> x \<notin> set xs)"
  by auto

lemma claims_fit_snoc:
  assumes "claims_fit d" "executions d' = sql_update P g (executions d)"
    and sub: "\<And>r. r \<in> set (executions d) \<Longrightarrow> P r \<Longrightarrow> submission (g r) = submission r"
    and "execution_dispatches d' = execution_dispatches d @ [x]"
    and "r0 \<in> set (executions d)" "dispatch_fits r0 x"
    and "di_execution_id x \<notin> set (map di_execution_id (execution_dispatches d))"
    and "di_receipt_sha256 x \<noteq> [] \<longrightarrow> di_receipt_sha256 x \<notin> set (map di_receipt_sha256 (execution_dispatches d))"
  shows "claims_fit d'"
proof -
  let ?d = "d\<lparr>execution_dispatches := execution_dispatches d @ [x]\<rparr>"
  have "claims_fit ?d"
    using assms(1,5-8) by (auto simp: claims_fit_def distinct_filter_snoc)
  then show ?thesis by (rule claims_fit_frame [where P = P and g = g]) (simp_all add: assms(2,4) sub)
qed

lemma logged_restart:
  assumes "logged d"
    and evs: "map ev_execution_id evs = map er_id (filter (\<lambda>r. er_finished_at r = None) (executions d))"
     "map ev_event_type evs = map restart_state (filter (\<lambda>r. er_finished_at r = None) (executions d))"
     "map ev_sequence evs = map (next_sequence (execution_events d) \<circ> ev_execution_id) evs"
    and upd: "executions d' = sql_update (\<lambda>r. er_finished_at r = None) (restart_row now) (executions d)"
      "execution_events d' = execution_events d @ evs" "execution_dispatches d' = execution_dispatches d"
  shows "logged d'"
proof -
  let ?open = "filter (\<lambda>r. er_finished_at r = None) (executions d)"
  have dist: "distinct (map er_id ?open)" using assms(1) by (simp add: logged_def pk_ok_def distinct_map_filter)
  have len: "length evs = length ?open" using evs(1) map_eq_imp_length_eq by blast
  have pick: "filter (\<lambda>v. ev_execution_id v = er_id r) evs = [evs ! k] \<and> ev_execution_id (evs ! k) = er_id r \<and>
      ev_event_type (evs ! k) = restart_state r \<and>
      ev_sequence (evs ! k) = next_sequence (execution_events d) (er_id r)"
    if k: "k < length ?open" "?open ! k = r" for r k
  proof -
    have ids: "ev_execution_id (evs ! k) = er_id r"
      using k evs(1) len by (metis nth_map)
    have "distinct (map ev_execution_id evs)" using dist evs(1) by simp
    then have "filter (\<lambda>v. ev_execution_id v = ev_execution_id (evs ! k)) evs = [evs ! k]"
      using k len by (intro filter_key_nth) auto
    moreover have "ev_event_type (evs ! k) = restart_state r" using k evs(2) len by (metis nth_map)
    moreover have "ev_sequence (evs ! k) = next_sequence (execution_events d) (ev_execution_id (evs ! k))"
      using k len arg_cong [OF evs(3), of "\<lambda>l. l ! k"] by simp
    ultimately show ?thesis using ids by simp
  qed
  have rows: "row_logged d' (if er_finished_at r = None then restart_row now r else r)" if r: "r \<in> set (executions d)" for r
  proof (cases "er_finished_at r = None")
    case True
    with r obtain k where "k < length ?open" "?open ! k = r" by (metis (mono_tags, lifting) filter_set in_set_conv_nth mem_Collect_eq set_filter)
    note p = pick [OF this]
    have l: "row_logged d r" using assms(1) r by (simp add: logged_def)
    have s: "restart_state r \<in> set outcomes" "restart_state r \<noteq> ''dispatching''" by (simp_all add: restart_state_def)
    have "row_logged d' (restart_row now r)"
    proof (rule row_logged_step [OF l, where evs = "[evs ! k]"])
      show "events_of d' (er_id r) = events_of d (er_id r) @ [evs ! k]"
        using p by (simp add: events_of_def upd)
    qed (use p s outcome_steps [OF l True] in \<open>auto simp: restart_row_def submission_def numbered_def upd restart_state_def\<close>)
    with True show ?thesis by simp
  next
    case False
    have "er_id r \<notin> set (map er_id ?open)"
    proof
      assume "er_id r \<in> set (map er_id ?open)"
      then obtain r' where "r' \<in> set (executions d)" "er_finished_at r' = None" "er_id r' = er_id r" by auto
      with r False assms(1) pk_unique [of er_id "executions d" r' r] show False by (auto simp: logged_def)
    qed
    then have "er_id r \<notin> set (map ev_execution_id evs)" by (simp only: evs(1) simp_thms)
    then have "filter (\<lambda>v. ev_execution_id v = er_id r) evs = []"
      unfolding filter_empty_conv by (metis imageI list.set_map)
    then have same_log: "events_of d' (er_id r) = events_of d (er_id r)" by (simp add: events_of_def upd)
    have "row_logged d' (id r)"
      by (rule row_logged_frame [of d r, OF _ _ _ _ same_log]) (use assms(1) r in \<open>simp_all add: logged_def events_of_def upd\<close>)
    with False show ?thesis by (simp only: if_False id_apply)
  qed
  have "known_execution d (ev_execution_id v)" if "v \<in> set evs" for v
    using that arg_cong [OF evs(1), of set] by (auto simp: known_execution_def)
  with assms(1) have known: "known_execution d (ev_execution_id v)" if "v \<in> set (execution_events d')" for v
    using that by (auto simp: upd logged_def)
  have sub: "submission (restart_row now r) = submission r" for r by (simp add: restart_row_def submission_def)
  moreover have "claims_fit d'" using assms(1) sub by (intro claims_fit_frame [OF _ upd(1) _ upd(3)]) (auto simp: logged_def)
  ultimately show ?thesis using rows known by (intro logged_update [OF assms(1) upd(1)])
qed

lemma logged_moves: "exec_move d d' \<Longrightarrow> logged d \<Longrightarrow> logged d'"
proof (induction rule: exec_move.induct)
  case (submit d r evs)
  then show ?case by (simp add: logged_submit)
next
  case (advance P d i s evs g)
  have step: "r \<in> set (executions d) \<Longrightarrow> P r \<Longrightarrow> row_logged d r \<Longrightarrow> legal_step (er_enhanced r) (er_state r) s" for r
    using advance.hyps(5) outcome_steps by blast
  have fin: "er_finished_at (g r) \<noteq> None \<longleftrightarrow> er_state (g r) \<in> set outcomes"
    if "r \<in> set (executions d)" "P r" "row_logged d r" for r
  proof (cases "s \<in> set outcomes")
    case False
    have "er_state r \<notin> set outcomes" using step [OF that] by (auto simp: legal_step_def)
    with False advance.hyps(5) [OF that(1,2)] that(3) show ?thesis by (simp add: row_logged_def)
  qed (use advance.hyps(5) [OF that(1,2)] in simp)
  show ?case
  proof (rule logged_one [OF advance.prems advance.hyps(1), of _ g evs i "[s]"])
    show "claims_fit (d\<lparr>executions := sql_update P g (executions d), execution_events := execution_events d @ evs\<rparr>)"
      by (rule claims_fit_frame [of d _ P g]) (use advance.prems advance.hyps(5) in \<open>simp_all add: logged_def\<close>)
  qed (use advance.hyps step fin in simp_all)
next
  case (claim P d i enhanced evs x g)
  from claim.hyps(1) obtain r0 where r0: "r0 \<in> set (executions d)" "P r0"
    using sql_count_pos_iff [of P "executions d"] by auto
  show ?case
  proof (rule logged_one [OF claim.prems claim.hyps(1) _ _ _ claim.hyps(2), where g = g])
    show "claims_fit (d\<lparr>executions := sql_update P g (executions d), execution_events := execution_events d @ evs,
        execution_dispatches := execution_dispatches d @ [x]\<rparr>)"
      by (rule claims_fit_snoc [of d _ P g x r0]) (use claim.prems claim.hyps r0 in \<open>simp_all add: logged_def\<close>)
  qed (use claim.hyps in \<open>auto simp: legal_step_def row_logged_def\<close>)
next
  case (restart evs d now)
  show ?case by (rule logged_restart [OF restart.prems restart.hyps]) simp_all
next
  case (annotate d P g)
  then show ?case by (simp add: logged_annotated)
next
  case (queue q d)
  then show ?case by (simp add: logged_annotated queued_state_def submission_def outcome_def)
next
  case (confirm q d c rest cs)
  then show ?case by (simp add: logged_annotated submission_def outcome_def)
next
  case (expire d i ev)
  then show ?case by (simp add: logged_annotated submission_def outcome_def)
next
  case (postpone g d P)
  then show ?case by simp
qed simp

section \<open>Evidence\<close>

text \<open>What \<open>accounted\<close> asks of one execution, given the queued and confirmed evidence.\<close>

definition row_accounted :: "recovery_row list \<Rightarrow> confirmation_row list \<Rightarrow> execution_row \<Rightarrow> bool" where
  "row_accounted qs cs r \<longleftrightarrow>
     (er_evidence_state r = ''confirmed'' \<longrightarrow> er_finished_at r \<noteq> None \<and>
        er_id r @ ''.completion'' \<in> set (map cf_event_id cs) \<and> er_id r \<notin> set (map rv_execution_id qs)) \<and>
     (er_enhanced r \<and> er_finished_at r \<noteq> None \<longrightarrow>
        er_evidence_state r \<in> set [''completion_unconfirmed'', ''confirmed'', ''permanently_incomplete''])"

definition queue_bounded :: "exec_db \<Rightarrow> bool" where
  "queue_bounded d \<longleftrightarrow> evidence_apart d \<and>
     length (evidence_recovery d) \<le> MaxRecoveryEvents \<and> recovery_bytes d \<le> MaxRecoveryBytes \<and>
     (\<forall>q \<in> set (evidence_recovery d). length (rv_envelope q) \<le> 16384)"

lemma accounted_split:
  "accounted d \<longleftrightarrow> queue_bounded d \<and>
     (\<forall>r \<in> set (executions d). row_accounted (evidence_recovery d) (evidence_confirmations d) r)"
  by (simp only: accounted_def row_accounted_def queue_bounded_def conj_assoc)

lemma accounted_by_rows:
  assumes "queue_bounded d'" "executions d' = sql_update P g (executions d)"
    "evidence_recovery d' = qs" "evidence_confirmations d' = cs" "accounted d"
    "\<And>r. row_accounted (evidence_recovery d) (evidence_confirmations d) r \<Longrightarrow> row_accounted qs cs (if P r then g r else r)"
  shows "accounted d'"
  using assms(1,5,6) by (force simp: accounted_split assms(2-4) sql_update_def)

lemma queue_bounded_frame [simp]:
  "queue_bounded (d\<lparr>executions := rs\<rparr>) = queue_bounded d" "queue_bounded (d\<lparr>execution_events := evs\<rparr>) = queue_bounded d"
  "queue_bounded (d\<lparr>execution_dispatches := xs\<rparr>) = queue_bounded d"
  by (simp_all add: queue_bounded_def evidence_apart_def recovery_bytes_def)

lemma delete_le:
  "length (sql_delete P qs) \<le> length qs" "sum_list (map f (sql_delete P qs)) \<le> (sum_list (map f qs) :: nat)"
proof -
  show "length (sql_delete P qs) \<le> length qs" by (simp add: sql_delete_def)
  show "sum_list (map f (sql_delete P qs)) \<le> sum_list (map f qs)" by (induction qs) (auto simp: sql_delete_def)
qed

lemma queue_bounded_delete:
  assumes "queue_bounded d" shows "queue_bounded (d\<lparr>evidence_recovery := sql_delete P (evidence_recovery d)\<rparr>)"
proof -
  have "evidence_apart (d\<lparr>evidence_recovery := sql_delete P (evidence_recovery d)\<rparr>)"
    using assms by (auto simp: queue_bounded_def evidence_apart_def sql_delete_def distinct_map_filter)
  moreover have "length (sql_delete P (evidence_recovery d)) \<le> MaxRecoveryEvents"
    using assms delete_le(1) [of P "evidence_recovery d"] by (simp add: queue_bounded_def)
  moreover have "sum_list (map (\<lambda>r. length (rv_envelope r)) (sql_delete P (evidence_recovery d))) \<le> MaxRecoveryBytes"
    using assms delete_le(2) [of "\<lambda>r. length (rv_envelope r)" P "evidence_recovery d"]
    by (simp add: queue_bounded_def recovery_bytes_def)
  ultimately show ?thesis using assms by (simp add: queue_bounded_def recovery_bytes_def set_sql_delete)
qed

lemma row_accounted_evidence:
  assumes "row_accounted qs cs r" "submission r' = submission r" "er_finished_at r' = er_finished_at r"
    "evidence_step (er_evidence_state r) (er_evidence_state r')"
  shows "row_accounted qs cs r'"
  using assms submission_eq [OF assms(2)] by (auto simp: row_accounted_def evidence_step_def)

lemma accounted_moves: "exec_move d d' \<Longrightarrow> logged d \<Longrightarrow> accounted d \<Longrightarrow> accounted d'"
proof (induction rule: exec_move.induct)
  case (submit d r evs)
  then show ?case by (simp add: accounted_split row_accounted_def)
next
  case (advance P d i s evs g)
  have "row_accounted (evidence_recovery d) (evidence_confirmations d) (g r)" if r: "r \<in> set (executions d)" "P r" for r
  proof -
    have old: "row_accounted (evidence_recovery d) (evidence_confirmations d) r" "row_logged d r"
      using advance.prems r by (simp_all add: accounted_split logged_def)
    note new = advance.hyps(5) [OF r]
    show ?thesis
    proof (cases "s \<in> set outcomes")
      case True
      with new have "er_evidence_state (g r) \<noteq> ''confirmed''" by (auto simp: finished_evidence_def)
      moreover have "er_enhanced (g r) \<Longrightarrow> er_evidence_state (g r) \<in> set [''completion_unconfirmed'', ''confirmed'', ''permanently_incomplete'']"
        using new True submission_eq [of "g r" r] by (auto simp: finished_evidence_def)
      ultimately show ?thesis by (simp add: row_accounted_def)
    next
      case False
      then show ?thesis using new old(1) by (intro row_accounted_evidence [OF old(1)]) (auto simp: evidence_step_def)
    qed
  qed
  with advance.prems show ?case by (auto simp: accounted_split sql_update_def)
next
  case (claim P d i enhanced evs x g)
  have "row_accounted (evidence_recovery d) (evidence_confirmations d) (g r)" if r: "r \<in> set (executions d)" "P r" for r
  proof -
    have old: "row_accounted (evidence_recovery d) (evidence_confirmations d) r" "row_logged d r"
      using claim.prems r by (simp_all add: accounted_split logged_def)
    note new = claim.hyps(6) [OF r]
    then have "er_finished_at (g r) = None" using old(2) by (auto simp: row_logged_def)
    then show ?thesis using new old(1) submission_eq [of "g r" r] by (auto simp: row_accounted_def)
  qed
  with claim.prems show ?case by (auto simp: accounted_split sql_update_def)
next
  case (restart evs d now)
  have "row_accounted qs cs (restart_row now r)" if "row_accounted qs cs r" "er_finished_at r = None" for qs cs r
    using that by (auto simp: row_accounted_def restart_row_def)
  with restart.prems show ?case by (auto simp: accounted_split sql_update_def)
next
  case (annotate d P g)
  have "row_accounted (evidence_recovery d) (evidence_confirmations d) (g r)" if "r \<in> set (executions d)" "P r" for r
    by (rule row_accounted_evidence [of _ _ r])
      (use annotate.hyps [OF that] annotate.prems that in \<open>auto simp: accounted_split outcome_def\<close>)
  with annotate.prems show ?case by (auto simp: accounted_split sql_update_def)
next
  case (queue q d)
  have rows: "row_accounted (evidence_recovery d @ [q]) (evidence_confirmations d)
      (if er_id r = rv_execution_id q \<and> er_evidence_state r \<noteq> ''permanently_incomplete'' then queued_state r else r)"
    if "row_accounted (evidence_recovery d) (evidence_confirmations d) r" for r
    using that by (auto simp: row_accounted_def queued_state_def)
  have "queue_bounded (d\<lparr>evidence_recovery := evidence_recovery d @ [q]\<rparr>)"
    using queue by (auto simp: accounted_split queue_bounded_def evidence_apart_def recovery_bytes_def)
  then have "queue_bounded (d\<lparr>executions := rs, evidence_recovery := evidence_recovery d @ [q]\<rparr>)" for rs
    by (simp add: queue_bounded_def evidence_apart_def recovery_bytes_def)
  from accounted_by_rows [OF this _ _ _ queue.prems(2) rows] show ?case by simp
next
  case (confirm q d c rest cs)
  have rows: "row_accounted rest cs (if er_id r = rv_execution_id q \<and> er_finished_at r \<noteq> None \<and>
        er_evidence_state r \<noteq> ''permanently_incomplete'' \<and> er_id r @ ''.completion'' \<in> set (map cf_event_id cs) \<and>
        rv_execution_id q \<notin> set (map rv_execution_id rest) then r\<lparr>er_evidence_state := ''confirmed''\<rparr> else r)"
    if "row_accounted (evidence_recovery d) (evidence_confirmations d) r" for r
    using that confirm.hyps(6,7) by (auto simp: row_accounted_def set_sql_delete)
  have "queue_bounded (d\<lparr>evidence_recovery := rest\<rparr>)"
    using confirm.prems by (simp add: confirm.hyps(6) accounted_split queue_bounded_delete)
  then have "queue_bounded (d\<lparr>evidence_recovery := rest, evidence_confirmations := cs\<rparr>)"
    using confirm.hyps by (auto simp: queue_bounded_def evidence_apart_def recovery_bytes_def set_sql_delete)
  then have "queue_bounded (d\<lparr>executions := rs, evidence_recovery := rest, evidence_confirmations := cs\<rparr>)" for rs
    by (simp add: queue_bounded_def evidence_apart_def recovery_bytes_def)
  from accounted_by_rows [OF this _ _ _ confirm.prems(2) rows] show ?case by simp
next
  case (expire d i ev)
  let ?qs = "sql_delete (\<lambda>r. rv_event_id r = i) (evidence_recovery d)"
  have rows: "row_accounted ?qs (evidence_confirmations d)
      (if er_id r = ev then r\<lparr>er_evidence_state := ''permanently_incomplete''\<rparr> else r)"
    if "row_accounted (evidence_recovery d) (evidence_confirmations d) r" for r
    using that by (auto simp: row_accounted_def set_sql_delete)
  have "queue_bounded (d\<lparr>evidence_recovery := ?qs\<rparr>)" using expire by (simp add: accounted_split queue_bounded_delete)
  then have "queue_bounded (d\<lparr>executions := rs, evidence_recovery := ?qs\<rparr>)" for rs
    by (simp add: queue_bounded_def evidence_apart_def recovery_bytes_def)
  from accounted_by_rows [OF this _ _ _ expire.prems(2) rows] show ?case by simp
next
  case (postpone g d P)
  have k: "map rv_event_id (sql_update P g qs) = map rv_event_id qs"
      "map rv_execution_id (sql_update P g qs) = map rv_execution_id qs" for qs
    using postpone.hyps by (simp_all add: sql_update_def)
  have len: "map (\<lambda>r. length (rv_envelope r)) (sql_update P g qs) = map (\<lambda>r. length (rv_envelope r)) qs" for qs
    using postpone.hyps by (simp add: sql_update_def)
  have "(\<forall>q \<in> set (sql_update P g qs). length (rv_envelope q) \<le> n) \<longleftrightarrow> (\<forall>q \<in> set qs. length (rv_envelope q) \<le> n)" for qs n
    using arg_cong [OF len [of qs], of "\<lambda>l. \<forall>m \<in> set l. m \<le> n"] by simp
  then have "queue_bounded (d\<lparr>evidence_recovery := sql_update P g (evidence_recovery d)\<rparr>) = queue_bounded d"
    by (simp add: queue_bounded_def evidence_apart_def recovery_bytes_def k len del: set_map list.set_map)
  with postpone.prems show ?case by (simp add: accounted_split row_accounted_def k)
qed simp

section \<open>Finished executions\<close>

definition find_execution :: "exec_db \<Rightarrow> string \<Rightarrow> execution_row option" where
  "find_execution d i = sql_first (\<lambda>r. er_id r = i) (executions d)"

lemma find_executionD: "find_execution d i = Some r \<Longrightarrow> r \<in> set (executions d) \<and> er_id r = i"
  unfolding find_execution_def by (rule sql_first_Some)

text \<open>Where an execution has come to: its submission, its outcome and its log, and that its
  evidence is permanently incomplete.\<close>

definition settled_as :: "exec_db \<Rightarrow> string \<Rightarrow> execution_row \<Rightarrow> string list \<Rightarrow> bool \<Rightarrow> bool" where
  "settled_as d i r h lost \<longleftrightarrow> er_finished_at r \<noteq> None \<and> history d i = h \<and>
     (\<exists>r'. find_execution d i = Some r' \<and> submission r' = submission r \<and> outcome r' = outcome r \<and>
        (lost \<longrightarrow> er_evidence_state r' = ''permanently_incomplete''))"

text \<open>A move that keeps the ids keeps a settled execution, given what it does to that row.\<close>

lemma settled_update:
  assumes "settled_as d i r h lost" "executions d' = sql_update P g (executions d)" "history d' i = history d i"
    and "\<And>r'. find_execution d i = Some r' \<Longrightarrow> er_finished_at r' \<noteq> None \<Longrightarrow> P r' \<Longrightarrow>
        outcome (g r') = outcome r' \<and>
        (er_evidence_state r' = ''permanently_incomplete'' \<longrightarrow> er_evidence_state (g r') = ''permanently_incomplete'')"
    and sub: "\<And>r'. r' \<in> set (executions d) \<Longrightarrow> P r' \<Longrightarrow> submission (g r') = submission r'"
  shows "settled_as d' i r h lost"
proof -
  from assms(1) obtain r' where r': "find_execution d i = Some r'" "submission r' = submission r" "outcome r' = outcome r"
      "lost \<longrightarrow> er_evidence_state r' = ''permanently_incomplete''" and r: "er_finished_at r \<noteq> None" "history d i = h"
    by (auto simp: settled_as_def)
  have mem: "r' \<in> set (executions d)" using find_executionD [OF r'(1)] by simp
  have "find (\<lambda>x. er_id x = i) (map f rows) = map_option f (find (\<lambda>x. er_id x = i) rows)"
    if "\<And>x. x \<in> set rows \<Longrightarrow> er_id (f x) = er_id x" for f rows
    using that by (induction rows) auto
  from this [of "executions d" "\<lambda>r. if P r then g r else r"]
  have "find_execution d' i = map_option (\<lambda>r. if P r then g r else r) (find_execution d i)"
    using submission_eq [OF sub] by (simp add: find_execution_def sql_first_def assms(2) sql_update_def)
  moreover have "er_finished_at r' \<noteq> None" using r'(3) r(1) by (simp add: outcome_def)
  ultimately show ?thesis
    using r' r assms(3) assms(4) [OF r'(1)] sub [OF mem] by (auto simp: settled_as_def)
qed

lemma settled_other:
  assumes "logged d" "settled_as d i r h lost" "sql_count P (executions d) = 1"
    and "\<And>x. x \<in> set (executions d) \<Longrightarrow> P x \<Longrightarrow> er_id x = j \<and> er_state x \<notin> set outcomes"
  shows "j \<noteq> i"
proof
  assume "j = i"
  from assms(3) obtain x where x: "x \<in> set (executions d)" "P x" using sql_count_pos_iff [of P "executions d"] by auto
  from assms(2) obtain y where y: "find_execution d i = Some y" "er_finished_at y \<noteq> None"
    by (auto simp: settled_as_def outcome_def)
  then have "y \<in> set (executions d)" "er_id y = i" unfolding find_execution_def by (auto dest: sql_first_Some)
  with x assms(1) assms(4) [OF x] \<open>j = i\<close> pk_unique [of er_id "executions d" x y] y(2)
  show False by (auto simp: logged_def row_logged_def)
qed

lemma settled_moves:
  "exec_move d d' \<Longrightarrow> logged d \<Longrightarrow> settled_as d i r h lost \<Longrightarrow> settled_as d' i r h lost"
proof (induction rule: exec_move.induct)
  case (submit d r' evs)
  then obtain x where x: "find_execution d i = Some x" by (auto simp: settled_as_def)
  then have mem: "x \<in> set (executions d)" "er_id x = i" unfolding find_execution_def by (auto dest: sql_first_Some)
  then have other: "er_id r' \<noteq> i" using submit.hyps(1) by (auto simp: known_execution_def image_iff)
  then have "history (d\<lparr>executions := executions d @ [r'], execution_events := execution_events d @ evs\<rparr>) i = history d i"
    using numbered_filter [OF submit.hyps(5), of i] by (simp add: history_def events_of_def)
  moreover have "find_execution (d\<lparr>executions := executions d @ [r'], execution_events := execution_events d @ evs\<rparr>) i = find_execution d i"
    using x by (simp add: find_execution_def sql_first_def find_append)
  ultimately show ?case using submit.prems by (simp add: settled_as_def)
next
  case (advance P d j s evs g)
  have "er_state x \<notin> set outcomes" if "x \<in> set (executions d)" "P x" for x
    using advance.hyps(5) [OF that] advance.prems(1) that by (auto simp: legal_step_def logged_def row_logged_def)
  with settled_other [OF advance.prems advance.hyps(1), of j] advance.hyps(5) have j: "j \<noteq> i" by blast
  then have "history (d\<lparr>executions := sql_update P g (executions d), execution_events := execution_events d @ evs\<rparr>) i = history d i"
    using numbered_filter [OF advance.hyps(2), of i] by (simp add: history_def events_of_def)
  then show ?case
    by - (rule settled_update [OF advance.prems(2), of _ P g], simp, simp, use advance.hyps(5) j find_executionD in blast, use advance.hyps(5) in blast)
next
  case (claim P d j enhanced evs x g)
  have j: "j \<noteq> i" by (rule settled_other [OF claim.prems claim.hyps(1)]) (use claim.hyps(6) in auto)
  then have "history (d\<lparr>executions := sql_update P g (executions d), execution_events := execution_events d @ evs,
      execution_dispatches := execution_dispatches d @ [x]\<rparr>) i = history d i"
    using numbered_filter [OF claim.hyps(2), of i] by (simp add: history_def events_of_def)
  then show ?case
    by - (rule settled_update [OF claim.prems(2), of _ P g], simp, simp, use claim.hyps(6) j find_executionD in blast, use claim.hyps(6) in blast)
next
  case (restart evs d now)
  from restart.prems(2) obtain y where y: "find_execution d i = Some y" "er_finished_at y \<noteq> None"
    by (auto simp: settled_as_def outcome_def)
  then have mem: "y \<in> set (executions d)" "er_id y = i" unfolding find_execution_def by (auto dest: sql_first_Some)
  have "i \<notin> set (map ev_execution_id evs)"
  proof
    assume "i \<in> set (map ev_execution_id evs)"
    then have "i \<in> set (map er_id (filter (\<lambda>r. er_finished_at r = None) (executions d)))" by (simp only: restart.hyps(1))
    then obtain z where "z \<in> set (executions d)" "er_finished_at z = None" "er_id z = i" by auto
    with mem y(2) restart.prems(1) pk_unique [of er_id "executions d" y z] show False by (auto simp: logged_def)
  qed
  then have "filter (\<lambda>v. ev_execution_id v = i) evs = []" unfolding filter_empty_conv by (metis imageI list.set_map)
  then have "history (d\<lparr>executions := sql_update (\<lambda>r. er_finished_at r = None) (restart_row now) (executions d),
     execution_events := execution_events d @ evs\<rparr>) i = history d i"
    by (simp add: history_def events_of_def)
  then show ?case by (rule settled_update [OF restart.prems(2), of _ "\<lambda>r. er_finished_at r = None" "restart_row now", rotated])
    (simp_all add: restart_row_def submission_def)
next
  case (annotate d P g)
  have "history (d\<lparr>executions := sql_update P g (executions d)\<rparr>) i = history d i" by (simp add: history_def events_of_def)
  then show ?case
  proof (rule settled_update [OF annotate.prems(2), of _ P g, rotated])
    fix r' assume "find_execution d i = Some r'" "P r'"
    then show "outcome (g r') = outcome r' \<and>
        (er_evidence_state r' = ''permanently_incomplete'' \<longrightarrow> er_evidence_state (g r') = ''permanently_incomplete'')"
      using annotate.hyps [of r'] by (auto simp: evidence_step_def dest: find_executionD)
  qed (use annotate.hyps in simp_all)
next
  case (queue q d)
  show ?case
    by (rule settled_update [OF queue.prems(2), where P = "\<lambda>e. er_id e = rv_execution_id q \<and>
      er_evidence_state e \<noteq> ''permanently_incomplete''" and g = queued_state])
     (simp_all add: history_def events_of_def queued_state_def outcome_def submission_def)
next
  case (confirm q d c rest cs)
  show ?case
    by (rule settled_update [OF confirm.prems(2), where P = "\<lambda>r. er_id r = rv_execution_id q \<and> er_finished_at r \<noteq> None \<and> er_evidence_state r \<noteq> ''permanently_incomplete'' \<and>
            er_id r @ ''.completion'' \<in> set (map cf_event_id cs) \<and> rv_execution_id q \<notin> set (map rv_execution_id rest)" and
       g = "\<lambda>r. r\<lparr>er_evidence_state := ''confirmed''\<rparr>"])
     (simp_all add: history_def events_of_def outcome_def submission_def)
next
  case (expire d ev k)
  show ?case
    by (rule settled_update [OF expire.prems(2), where P = "\<lambda>r. er_id r = k" and
       g = "\<lambda>r. r\<lparr>er_evidence_state := ''permanently_incomplete''\<rparr>"])
     (simp_all add: history_def events_of_def outcome_def submission_def)
next
  case (postpone g d P)
  then show ?case by (simp add: settled_as_def find_execution_def history_def events_of_def)
qed simp

section \<open>Runs\<close>

definition store_inv :: "exec_db \<Rightarrow> bool" where
  "store_inv d \<longleftrightarrow> logged d \<and> accounted d"

lemma store_inv_empty: "store_inv empty_exec_db"
  by (simp add: store_inv_def logged_def accounted_def claims_fit_def evidence_apart_def recovery_bytes_def
      empty_exec_db_def pk_ok_def)

lemma run_moves: "store_inv d \<Longrightarrow> exec_move d (snd (exec_run x d))"
  by (rule exec_run_moves) (simp add: store_inv_def accounted_def)

lemma store_inv_step: "store_inv d \<Longrightarrow> store_inv (snd (exec_run x d))"
  using run_moves logged_moves accounted_moves unfolding store_inv_def by blast

lemma store_inv_run: "store_inv d \<Longrightarrow> store_inv (run_state exec_run xs d)"
  by (rule run_state_invariant [where ok = "\<lambda>_. True"]) (simp_all add: store_inv_step)

lemma settled_run:
  "store_inv d \<Longrightarrow> settled_as d i r h lost \<Longrightarrow> settled_as (run_state exec_run xs d) i r h lost"
proof (induction xs arbitrary: d)
  case (Cons x xs)
  then have "settled_as (snd (exec_run x d)) i r h lost"
    using settled_moves [OF run_moves] by (simp add: store_inv_def)
  with Cons store_inv_step show ?case by simp
qed simp

section \<open>Single use\<close>

text \<open>A call that dispatches execution \<open>i\<close>, and one that spends receipt \<open>h\<close>.\<close>

fun dispatches :: "string \<Rightarrow> exec_call \<Rightarrow> store_error + unit \<Rightarrow> bool" where
  "dispatches i (XClaimStandard _ j _) (Inr _) \<longleftrightarrow> j = i"
| "dispatches i (XClaim _ j _ _) (Inr _) \<longleftrightarrow> j = i"
| "dispatches i _ _ \<longleftrightarrow> False"

fun spends :: "string \<Rightarrow> exec_call \<Rightarrow> store_error + unit \<Rightarrow> bool" where
  "spends h (XClaim _ _ _ h') (Inr _) \<longleftrightarrow> h' = h"
| "spends h _ _ \<longleftrightarrow> False"

definition claimed :: "string \<Rightarrow> exec_db \<Rightarrow> bool" where
  "claimed i d \<longleftrightarrow> i \<in> set (map di_execution_id (execution_dispatches d))"

definition receipt_spent :: "string \<Rightarrow> exec_db \<Rightarrow> bool" where
  "receipt_spent h d \<longleftrightarrow> h \<in> set (map di_receipt_sha256 (execution_dispatches d))"

lemma claims_stay: "exec_move d d' \<Longrightarrow> set (execution_dispatches d) \<subseteq> set (execution_dispatches d')"
  by (induction rule: exec_move.induct) auto

lemma tx_ok: "sql_tx f fn d = (Inr v, d') \<Longrightarrow> fn d = (Inr v, d')" "protectedTransaction f fn d = (Inr v, d') \<Longrightarrow> fn d = (Inr v, d')"
  by (auto simp: sql_tx_def protectedTransaction_def split: prod.splits sum.splits if_splits)

lemma event_frame:
  "executionEvent env j n i s now d = (Inr v, d') \<Longrightarrow> execution_dispatches d' = execution_dispatches d"
  by (auto dest: event_ok)

lemma dispatch_claim_ok:
  assumes "exec_run x d = (Inr v, d')" "dispatches i x (Inr v)"
  shows "\<not> claimed i d \<and> claimed i d'"
  using assms
  by (cases x)
    (auto simp: claimed_def ClaimExecutionDispatch_def ClaimProtected_def Let_def op_ok updated_ok dispatch_ok replay_ok
      dest!: tx_ok event_frame split: if_splits)

lemma spend_ok:
  assumes "exec_run x d = (Inr v, d')" "spends h x (Inr v)"
  shows "\<not> receipt_spent h d \<and> receipt_spent h d'"
  using assms
  by (cases x)
    (auto simp: receipt_spent_def ClaimProtected_def ValidHash_def Let_def op_ok updated_ok dispatch_ok replay_ok
      dest!: tx_ok event_frame split: if_splits)

lemma dispatches_ok: "dispatches i x r \<Longrightarrow> \<exists>v. r = Inr v" "spends h x r \<Longrightarrow> \<exists>v. r = Inr v"
  by (auto elim: dispatches.elims spends.elims)

interpretation dispatch_once: one_shot exec_run store_inv "claimed i" "dispatches i" "\<lambda>_. True" for i
proof unfold_locales
  fix x d assume "store_inv d"
  then show "store_inv (snd (exec_run x d))" by (rule store_inv_step)
  assume "claimed i d"
  then show "claimed i (snd (exec_run x d))"
    using claims_stay [OF run_moves [OF \<open>store_inv d\<close>]] by (fastforce simp: claimed_def)
next
  fix x d assume "dispatches i x (fst (exec_run x d))"
  then show "\<not> claimed i d" "claimed i (snd (exec_run x d))"
    using dispatch_claim_ok [of x d _ "snd (exec_run x d)" i] dispatches_ok(1) by (metis prod.collapse)+
qed

interpretation receipt_once: one_shot exec_run store_inv "receipt_spent h" "spends h" "\<lambda>_. True" for h
proof unfold_locales
  fix x d assume "store_inv d"
  then show "store_inv (snd (exec_run x d))" by (rule store_inv_step)
  assume "receipt_spent h d"
  then show "receipt_spent h (snd (exec_run x d))"
    using claims_stay [OF run_moves [OF \<open>store_inv d\<close>]] by (fastforce simp: receipt_spent_def)
next
  fix x d assume "spends h x (fst (exec_run x d))"
  then show "\<not> receipt_spent h d" "receipt_spent h (snd (exec_run x d))"
    using spend_ok [of x d _ "snd (exec_run x d)" h] dispatches_ok(2) by (metis prod.collapse)+
qed

section \<open>Properties\<close>

text \<open>C10. Whatever calls are made, in whatever order and with whatever faults and clock readings, the
  event log of every execution is numbered 0, 1, 2, ... without a gap and spells a legal history:
  submitted, prepared, admitted for an enhanced execution and only for one, dispatching, running, an
  outcome; the execution's state is the last of it, it has a dispatch claim exactly when the history
  has a dispatch, and it is finished exactly when its state is an outcome.\<close>

theorem execution_history_legal:
  "logged (run_state exec_run calls empty_exec_db)"
  using store_inv_run [OF store_inv_empty] by (simp add: store_inv_def)

text \<open>C11. A dispatch is claimed at most once per execution and a receipt is spent at most once over
  all executions: in every run from the empty store, among the calls that return success at most one
  dispatches execution \<open>i\<close> and at most one spends receipt \<open>h\<close>.\<close>

theorem dispatch_single_use:
  "wins_of (dispatches i) (run_results exec_run calls empty_exec_db) \<le> 1 \<and>
   wins_of (spends h) (run_results exec_run calls empty_exec_db) \<le> 1"
  using dispatch_once.at_most_one_win [OF _ store_inv_empty] receipt_once.at_most_one_win [OF _ store_inv_empty] by simp

text \<open>C12. An outcome is final: once an execution of a run is finished, no later call changes its
  submission columns, its state, exit code, signal, reason or finishing time, or adds to its log; and
  evidence that is permanently incomplete stays so.\<close>

theorem outcome_final:
  assumes "find_execution (run_state exec_run before empty_exec_db) i = Some r" "er_finished_at r \<noteq> None"
  shows "\<exists>r'. find_execution (run_state exec_run (before @ after) empty_exec_db) i = Some r' \<and>
     submission r' = submission r \<and> outcome r' = outcome r \<and>
     history (run_state exec_run (before @ after) empty_exec_db) i = history (run_state exec_run before empty_exec_db) i \<and>
     (er_evidence_state r = ''permanently_incomplete'' \<longrightarrow> er_evidence_state r' = ''permanently_incomplete'')"
proof -
  let ?d = "run_state exec_run before empty_exec_db"
  have "settled_as ?d i r (history ?d i) (er_evidence_state r = ''permanently_incomplete'')"
    using assms by (simp add: settled_as_def)
  from settled_run [OF store_inv_run [OF store_inv_empty] this, of after] show ?thesis
    by (auto simp: settled_as_def run_state_append)
qed

text \<open>C13. Evidence is accounted for in every reachable state: the recovery queue holds at most 1024
  envelopes, 16 MiB together and 16 KiB each; an event is queued or confirmed, not both, and once;
  evidence counts as confirmed only for a finished execution whose completion record is confirmed and
  which has nothing left in the queue; and a finished enhanced execution is unconfirmed, confirmed or
  permanently incomplete, never silently local or pending.\<close>

theorem evidence_accounted:
  "accounted (run_state exec_run calls empty_exec_db)"
  using store_inv_run [OF store_inv_empty] by (simp add: store_inv_def)

text \<open>A run with two executions: one is submitted and finished as denied, then the hub restarts and a
  second finish, a marking and another submission are tried.\<close>

definition demo_codec :: codec where
  "demo_codec = \<lparr>k_sha = id, k_tokens = (\<lambda>_. ([], False)), k_envelope = (\<lambda>_. None), k_actor_json = (\<lambda>_. []),
     k_binding_json = (\<lambda>_. [])\<rparr>"

definition demo_xenv :: "string \<Rightarrow> exec_env" where
  "demo_xenv u = \<lparr>x_tx = (\<lambda>_. False), x_db = (\<lambda>_. False), x_clock = (\<lambda>_. 0), x_uuid = (\<lambda>n. u), x_marshal = (\<lambda>_. Some []),
     x_unmarshal = (\<lambda>_. None), x_extract_id = (\<lambda>_. Some ''p''), x_extract_expiry = (\<lambda>_. Some 1), x_envelope = (\<lambda>_. None),
     x_codec = demo_codec\<rparr>"

definition demo_new :: "string \<Rightarrow> NewExecution" where
  "demo_new i = \<lparr>ne_ID = i, ne_ActorID = ''u'', ne_ActorName = ''n'', ne_ActorProvider = ''local'', ne_NodeID = ''s'',
     ne_NodeName = ''s'', ne_RequestedUser = ''root'', ne_CommandSHA256 = replicate 64 CHR ''a'', ne_CommandLength = 4,
     ne_PolicyVersion = [], ne_Enhanced = True, ne_ActorPersonID = [], ne_ActorSubject = [], ne_PolicySHA256 = []\<rparr>"

definition demo_before :: "exec_call list" where
  "demo_before = [XCreate (demo_xenv ''a'') (demo_new ''x''), XFinish (demo_xenv ''b'') ''x'' ''denied'' None [] ''no'',
     XPermanent (demo_xenv ''c'') ''x'']"

definition demo_after :: "exec_call list" where
  "demo_after = [XFinish (demo_xenv ''d'') ''x'' ''exited'' (Some 0) [] [], XReconcile (demo_xenv ''e''),
     XIncomplete (demo_xenv ''f'') ''x'', XCreate (demo_xenv ''g'') (demo_new ''y'')]"

lemma demo_denied:
  "map_option (\<lambda>r. (er_state r, er_finished_at r, er_evidence_state r))
     (find_execution (run_state exec_run demo_before empty_exec_db) ''x'') =
   Some (''denied'', Some 0, ''permanently_incomplete'')"
  by code_simp

theorem outcome_final_witness:
  "map_option (\<lambda>r. (er_state r, er_evidence_state r))
     (find_execution (run_state exec_run (demo_before @ demo_after) empty_exec_db) ''x'') =
   Some (''denied'', ''permanently_incomplete'')"
proof -
  obtain r where r: "find_execution (run_state exec_run demo_before empty_exec_db) ''x'' = Some r"
      "er_state r = ''denied''" "er_finished_at r = Some 0" "er_evidence_state r = ''permanently_incomplete''"
    using demo_denied by auto
  from outcome_final [OF r(1), of demo_after] r show ?thesis by (auto simp: outcome_def)
qed

end
