(* ===== verification/Terminal_Sessions.thy ===== *)
theory Terminal_Sessions
  imports Conn_Manager "HOL-Library.List_Lexorder" "HOL-Library.Char_ord" "HOL-Library.Product_Lexorder"
begin

text \<open>
  The hub's registry of shells (\<open>hub/internal/grpcserver/terminalsessions.go\<close>,
  \<open>interactive_terminal.go\<close>). A registration is an object with an identity: delayed work keeps a
  pointer and must not touch a later registration under the same key. Objects live in a heap
  \<open>objs\<close>; the map from keys to pointers is an association list. Every critical section under
  \<open>ts.mu\<close> is one function; \<open>None\<close> is a run-time panic (closing a closed channel, sending on one,
  following a nil admission or epoch).
  A call that leaves the lock keeps a pointer as work in flight, and the step relation interleaves the
  sections of all callers. The admission lock \<open>controlMu\<close> of an interactive shell is a flag of its
  object. The clock, the store's answers and the agent stream's answers are parameters.
\<close>

section \<open>Registrations\<close>

definition TerminalKindWeb :: string where "TerminalKindWeb = ''web''"
definition TerminalKindSSH :: string where "TerminalKindSSH = ''ssh''"
definition TerminalKindExec :: string where "TerminalKindExec = ''exec''"

datatype TerminalEvent = EventData string | EventExit int string bool

text \<open>\<open>interactiveAdmission\<close>: the captured connection, the user the shell runs as, whether the open
  request went out, whether the close was sent, and who may hold \<open>controlMu\<close>.\<close>

record interactiveAdmission =
  ia_conn :: nat
  ia_executionUser :: string
  ia_admitted :: bool
  ia_closed :: bool
  ia_locked :: bool

text \<open>A channel that may be nil or carries only its closing is \<open>None\<close> or \<open>Some closed\<close>; the event
  channel is its buffer and a flag. \<open>t_exit\<close> is the revocation of \<open>terminalOutput\<close>.\<close>

record terminalSession =
  t_serverID :: string
  t_sessionID :: string
  t_userID :: string
  t_executionUser :: string
  t_kind :: string
  t_sid :: string
  t_startedAt :: go_time
  t_lastActivity :: go_time
  t_ch :: "TerminalEvent list"
  t_chClosed :: bool
  t_done :: bool
  t_removed :: bool
  t_streaming :: bool
  t_closed :: bool
  t_interactive :: "interactiveAdmission option"
  t_generation :: "int option"
  t_watchDone :: "bool option"
  t_invalidated :: "bool option"
  t_watchStopped :: bool
  t_revoked :: bool
  t_sshGeneration :: bool
  t_exit :: "TerminalEvent option"

text \<open>The registry, with the messages sent through it as a ghost log: registration, connection,
  whether it was the open request.\<close>

record TerminalSessions =
  objs :: "nat \<Rightarrow> terminalSession"
  next_obj :: nat
  registry :: "(string \<times> nat) list"
  tmaintenance :: "string \<Rightarrow> string"
  watchers :: nat
  sent :: "(nat \<times> nat \<times> bool) list"

type_synonym 'a ts_op = "TerminalSessions \<Rightarrow> ('a \<times> TerminalSessions) option"

definition makeKey :: "string \<Rightarrow> string \<Rightarrow> string" where
  "makeKey node session = node @ '':'' @ session"

definition key_of :: "terminalSession \<Rightarrow> string" where
  "key_of s = makeKey (t_serverID s) (t_sessionID s)"

definition obj :: "nat \<Rightarrow> TerminalSessions \<Rightarrow> terminalSession" where
  "obj p ts = objs ts p"

definition set_obj :: "nat \<Rightarrow> terminalSession \<Rightarrow> TerminalSessions \<Rightarrow> TerminalSessions" where
  "set_obj p s ts = ts\<lparr>objs := (objs ts)(p := s)\<rparr>"

definition registered :: "TerminalSessions \<Rightarrow> terminalSession list" where
  "registered ts = map (\<lambda>(_, p). objs ts p) (registry ts)"

text \<open>The options of a registration: kind, owning session, credential epoch, admission.\<close>

record register_options =
  ro_kind :: string
  ro_sid :: string
  ro_generation :: "int option"
  ro_ssh :: bool
  ro_interactive :: "interactiveAdmission option"

definition default_options :: register_options where
  "default_options = \<lparr>ro_kind = TerminalKindWeb, ro_sid = [], ro_generation = None, ro_ssh = False, ro_interactive = None\<rparr>"

definition WithKind :: "string \<Rightarrow> register_options \<Rightarrow> register_options" where
  "WithKind k opts = opts\<lparr>ro_kind := k\<rparr>"
definition WithSessionID :: "string \<Rightarrow> register_options \<Rightarrow> register_options" where
  "WithSessionID sid opts = opts\<lparr>ro_sid := sid\<rparr>"
definition WithCredentialGeneration :: "int \<Rightarrow> bool \<Rightarrow> register_options \<Rightarrow> register_options" where
  "WithCredentialGeneration g ssh opts = opts\<lparr>ro_generation := Some g, ro_ssh := ssh\<rparr>"

definition count_where :: "('a \<Rightarrow> bool) \<Rightarrow> 'a list \<Rightarrow> nat" where
  "count_where P xs = length (filter P xs)"

definition live_shell :: "terminalSession \<Rightarrow> bool" where
  "live_shell s \<longleftrightarrow> \<not> t_closed s \<and> t_kind s \<noteq> TerminalKindExec"
definition live_exec :: "terminalSession \<Rightarrow> bool" where
  "live_exec s \<longleftrightarrow> \<not> t_closed s \<and> t_kind s = TerminalKindExec"
definition live_exec_of :: "string \<Rightarrow> terminalSession \<Rightarrow> bool" where
  "live_exec_of user s \<longleftrightarrow> live_exec s \<and> t_userID s = user"
definition live_on :: "string \<Rightarrow> terminalSession \<Rightarrow> bool" where
  "live_on node s \<longleftrightarrow> \<not> t_closed s \<and> t_serverID s = node"

definition watched :: "register_options \<Rightarrow> bool" where
  "watched opts \<longleftrightarrow> ro_generation opts \<noteq> None \<and> ro_kind opts \<noteq> TerminalKindExec"

definition full :: "TerminalSessions \<Rightarrow> string \<Rightarrow> string \<Rightarrow> register_options \<Rightarrow> bool" where
  "full ts node user opts \<longleftrightarrow>
     (watched opts \<and> watchers ts \<ge> 256) \<or>
     (ro_kind opts \<noteq> TerminalKindExec \<and> count_where live_shell (registered ts) \<ge> 256) \<or>
     count_where (live_on node) (registered ts) \<ge> 8 \<or>
     (ro_kind opts = TerminalKindExec \<and>
        (count_where (live_exec_of user) (registered ts) \<ge> 4 \<or> count_where live_exec (registered ts) \<ge> 32))"

definition new_terminal :: "string \<Rightarrow> string \<Rightarrow> string \<Rightarrow> string \<Rightarrow> register_options \<Rightarrow> go_time \<Rightarrow> terminalSession" where
  "new_terminal node session user runAs opts now =
     \<lparr>t_serverID = node, t_sessionID = session, t_userID = user, t_executionUser = runAs, t_kind = ro_kind opts,
      t_sid = ro_sid opts, t_startedAt = now, t_lastActivity = now, t_ch = [], t_chClosed = False, t_done = False,
      t_removed = False, t_streaming = False, t_closed = False, t_interactive = ro_interactive opts,
      t_generation = ro_generation opts, t_watchDone = (if watched opts then Some False else None),
      t_invalidated = (if watched opts then Some False else None), t_watchStopped = False, t_revoked = False,
      t_sshGeneration = ro_ssh opts, t_exit = None\<rparr>"

definition Terminal_Register ::
    "string \<Rightarrow> string \<Rightarrow> string \<Rightarrow> string \<Rightarrow> register_options \<Rightarrow> go_time \<Rightarrow> nat option ts_op" where
  "Terminal_Register node session user runAs opts now ts =
     (let key = makeKey node session in
      if tmaintenance ts node \<noteq> [] then Some (None, ts)
      else if map_of (registry ts) key \<noteq> None then Some (None, ts)
      else if full ts node user opts then Some (None, ts)
      else let p = next_obj ts in
        Some (Some p, ts\<lparr>objs := (objs ts)(p := new_terminal node session user runAs opts now), next_obj := p + 1,
          registry := (key, p) # registry ts, watchers := watchers ts + (if watched opts then 1 else 0)\<rparr>))"

section \<open>Maintenance\<close>

definition Terminal_ReserveMaintenance :: "string \<Rightarrow> string \<Rightarrow> bool ts_op" where
  "Terminal_ReserveMaintenance node i ts =
     (if tmaintenance ts node \<noteq> [] then Some (False, ts)
      else if \<exists>s \<in> set (registered ts). t_serverID s = node \<and> \<not> t_closed s then Some (False, ts)
      else Some (True, ts\<lparr>tmaintenance := (tmaintenance ts)(node := i)\<rparr>))"

definition Terminal_SetMaintenance :: "string \<Rightarrow> string \<Rightarrow> unit ts_op" where
  "Terminal_SetMaintenance node i ts = Some ((), ts\<lparr>tmaintenance := (tmaintenance ts)(node := i)\<rparr>)"

definition Terminal_ReleaseMaintenance :: "string \<Rightarrow> string \<Rightarrow> unit ts_op" where
  "Terminal_ReleaseMaintenance node i ts =
     Some ((), if tmaintenance ts node = i then ts\<lparr>tmaintenance := (tmaintenance ts)(node := [])\<rparr> else ts)"

definition MaintenanceIdle :: "string \<Rightarrow> string \<Rightarrow> TerminalSessions \<Rightarrow> bool" where
  "MaintenanceIdle node i ts \<longleftrightarrow> tmaintenance ts node = i \<and>
     \<not> (\<exists>s \<in> set (registered ts). t_serverID s = node \<and> \<not> t_closed s)"

section \<open>Reading the registry\<close>

record TerminalSessionInfo =
  ti_ServerID :: string
  ti_SessionID :: string
  ti_UserID :: string
  ti_ExecutionUser :: string
  ti_Kind :: string
  ti_SID :: string
  ti_StartedAt :: go_time
  ti_LastActivity :: go_time
  ti_Closed :: bool
  ti_AgentDone :: "nat option"

definition infoOf :: "terminalSession \<Rightarrow> TerminalSessionInfo" where
  "infoOf s = \<lparr>ti_ServerID = t_serverID s, ti_SessionID = t_sessionID s, ti_UserID = t_userID s,
     ti_ExecutionUser = t_executionUser s, ti_Kind = t_kind s, ti_SID = t_sid s, ti_StartedAt = t_startedAt s,
     ti_LastActivity = t_lastActivity s, ti_Closed = t_closed s, ti_AgentDone = map_option ia_conn (t_interactive s)\<rparr>"

definition info_order :: "TerminalSessionInfo \<Rightarrow> go_time \<times> string" where
  "info_order i = (ti_StartedAt i, makeKey (ti_ServerID i) (ti_SessionID i))"

definition ListByUser :: "string \<Rightarrow> TerminalSessions \<Rightarrow> TerminalSessionInfo list" where
  "ListByUser user ts =
     sort_key info_order (map infoOf (filter (\<lambda>s. \<not> (t_closed s \<or> t_userID s \<noteq> user)) (registered ts)))"

section \<open>Delivery and ending\<close>

definition find_terminal :: "TerminalSessions \<Rightarrow> string \<Rightarrow> string \<Rightarrow> nat option" where
  "find_terminal ts node session = map_of (registry ts) (makeKey node session)"

definition Terminal_Get :: "string \<Rightarrow> string \<Rightarrow> TerminalSessions \<Rightarrow> TerminalSessionInfo option" where
  "Terminal_Get node session ts = map_option (\<lambda>p. infoOf (objs ts p)) (find_terminal ts node session)"

definition AttachStream :: "string \<Rightarrow> string \<Rightarrow> string \<Rightarrow> (bool \<times> bool) ts_op" where
  "AttachStream node session user ts =
     (case find_terminal ts node session of
        None \<Rightarrow> Some ((False, False), ts)
      | Some p \<Rightarrow>
          if t_userID (objs ts p) \<noteq> user then Some ((False, False), ts)
          else if t_streaming (objs ts p) then Some ((True, False), ts)
          else Some ((True, True), set_obj p ((objs ts p)\<lparr>t_streaming := True\<rparr>) ts))"

definition channel_capacity :: nat where "channel_capacity = 256"

definition terminal_throttle :: duration where "terminal_throttle = second"

definition deliverDataLocked :: "nat \<Rightarrow> string \<Rightarrow> go_time \<Rightarrow> bool ts_op" where
  "deliverDataLocked p data now ts =
     (let s = objs ts p in
      if t_chClosed s then None
      else if length (t_ch s) \<ge> channel_capacity then Some (False, ts)
      else Some (True, set_obj p (s\<lparr>t_ch := t_ch s @ [EventData data],
             t_lastActivity := (if time_sub now (t_lastActivity s) \<ge> terminal_throttle then now else t_lastActivity s)\<rparr>) ts))"

definition DeliverData :: "string \<Rightarrow> string \<Rightarrow> string \<Rightarrow> go_time \<Rightarrow> bool ts_op" where
  "DeliverData node session data now ts =
     (case find_terminal ts node session of
        None \<Rightarrow> Some (False, ts)
      | Some p \<Rightarrow> if t_closed (objs ts p) then Some (False, ts) else deliverDataLocked p data now ts)"

definition from_connection :: "nat \<Rightarrow> terminalSession \<Rightarrow> bool" where
  "from_connection conn s \<longleftrightarrow> \<not> t_closed s \<and> (case t_interactive s of None \<Rightarrow> False | Some a \<Rightarrow> ia_conn a = conn)"

definition AcceptAgentConnection :: "string \<Rightarrow> string \<Rightarrow> nat \<Rightarrow> TerminalSessions \<Rightarrow> bool" where
  "AcceptAgentConnection node session conn ts =
     (case find_terminal ts node session of None \<Rightarrow> False | Some p \<Rightarrow> from_connection conn (objs ts p))"

definition DeliverDataFrom :: "nat \<Rightarrow> string \<Rightarrow> string \<Rightarrow> string \<Rightarrow> go_time \<Rightarrow> bool ts_op" where
  "DeliverDataFrom conn node session data now ts =
     (case find_terminal ts node session of
        None \<Rightarrow> Some (False, ts)
      | Some p \<Rightarrow> if \<not> from_connection conn (objs ts p) then Some (False, ts) else deliverDataLocked p data now ts)"

text \<open>\<open>deliverExit\<close> makes room by dropping the oldest events; closing a channel twice panics.\<close>

definition deliverExit :: "TerminalEvent \<Rightarrow> terminalSession \<Rightarrow> terminalSession option" where
  "deliverExit e s =
     (if t_chClosed s then None
      else Some (s\<lparr>t_ch := drop (length (t_ch s) + 1 - channel_capacity) (t_ch s) @ [e]\<rparr>))"

definition close_terminal :: "terminalSession \<Rightarrow> terminalSession option" where
  "close_terminal s =
     (if t_chClosed s \<or> t_done s then None else Some (s\<lparr>t_chClosed := True, t_done := True, t_closed := True\<rparr>))"

definition stopCredentialWatchLocked :: "terminalSession \<Rightarrow> terminalSession option" where
  "stopCredentialWatchLocked s =
     (if t_invalidated s = None \<or> t_watchStopped s then Some s
      else if t_invalidated s = Some True then None
      else Some (s\<lparr>t_watchStopped := True, t_invalidated := Some True\<rparr>))"

definition revoke_output :: "TerminalEvent \<Rightarrow> terminalSession \<Rightarrow> terminalSession" where
  "revoke_output e s = s\<lparr>t_exit := Some e, t_ch := []\<rparr>"

definition endLocked :: "nat \<Rightarrow> int \<Rightarrow> string \<Rightarrow> bool \<Rightarrow> bool ts_op" where
  "endLocked p code msg forced ts =
     (let s = objs ts p; exit = EventExit code msg forced in
      if t_closed s \<and> (\<not> forced \<or> t_exit s \<noteq> None) then Some (False, ts)
      else case (if forced then map_option (revoke_output exit) (stopCredentialWatchLocked s) else Some s) of
             None \<Rightarrow> None
           | Some s1 \<Rightarrow>
               if t_closed s1 then Some (False, set_obj p s1 ts)
               else (case Option.bind (deliverExit exit s1) close_terminal of
                       None \<Rightarrow> None
                     | Some s2 \<Rightarrow> Some (True, set_obj p s2 ts)))"

definition EndFrom :: "nat \<Rightarrow> string \<Rightarrow> string \<Rightarrow> int \<Rightarrow> string \<Rightarrow> bool ts_op" where
  "EndFrom conn node session code msg ts =
     (case find_terminal ts node session of
        None \<Rightarrow> Some (False, ts)
      | Some p \<Rightarrow> if \<not> from_connection conn (objs ts p) then Some (False, ts) else endLocked p code msg False ts)"

text \<open>The second section of the calls that looked a registration up: it must still be the one.\<close>

definition current :: "nat \<Rightarrow> TerminalSessions \<Rightarrow> bool" where
  "current p ts \<longleftrightarrow> map_of (registry ts) (key_of (objs ts p)) = Some p"

definition end_if_current :: "nat \<Rightarrow> int \<Rightarrow> string \<Rightarrow> bool \<Rightarrow> bool ts_op" where
  "end_if_current p code msg forced ts =
     (if current p ts then endLocked p code msg forced ts else Some (False, ts))"

definition removal_exit :: TerminalEvent where
  "removal_exit = EventExit (- 1) ''Terminal closed by the hub.'' True"

definition removeLocked :: "terminalSession \<Rightarrow> terminalSession option" where
  "removeLocked s =
     (let s1 = revoke_output removal_exit s in if t_closed s1 then Some s1 else close_terminal s1)"

definition remove_if_current :: "nat \<Rightarrow> bool \<Rightarrow> (bool \<times> bool) ts_op" where
  "remove_if_current p keep_streaming ts =
     (let s = objs ts p in
      if \<not> current p ts \<or> (keep_streaming \<and> t_streaming s) then Some ((False, False), ts)
      else case removeLocked s of
             None \<Rightarrow> None
           | Some s1 \<Rightarrow>
               if t_removed s1 then None
               else Some ((t_closed s, True),
                 (set_obj p (s1\<lparr>t_removed := True\<rparr>) ts)\<lparr>registry := filter (\<lambda>(k, _). k \<noteq> key_of s) (registry ts)\<rparr>))"

definition captured_all :: "string \<Rightarrow> TerminalSessions \<Rightarrow> nat list" where
  "captured_all node ts = map snd (filter (\<lambda>(k, _). take (length node + 1) k = node @ '':'') (registry ts))"

fun end_captured :: "nat list \<Rightarrow> int \<Rightarrow> string \<Rightarrow> unit ts_op" where
  "end_captured [] code msg ts = Some ((), ts)"
| "end_captured (p # ps) code msg ts =
     (case endLocked p code msg False ts of None \<Rightarrow> None | Some (_, ts1) \<Rightarrow> end_captured ps code msg ts1)"

section \<open>Work in flight\<close>

text \<open>What a goroutine still has to do after it left \<open>ts.mu\<close>, with the pointer it captured:
  \<open>WEnd\<close> and \<open>WExact\<close> the second section of an end (the latter under \<open>controlMu\<close>; its flag says
  that the agent's side is closed even when the shell had ended), \<open>WLookup\<close> an end that starts from
  the key again, \<open>WRemove\<close> of a removal, \<open>WEndAll\<close> of a disconnect, \<open>WSend\<close>, \<open>WSendLocked\<close>,
  \<open>WSendChecked\<close> the sections of \<open>SendInteractive\<close> (the last two hold \<open>controlMu\<close>), \<open>WCheck\<close> and
  \<open>WStale\<close> those of a credential check (the flag says that the watcher made it), \<open>WPolicy\<close> the policy
  observer's visit, \<open>WWatch\<close> the watcher, \<open>WUnwatch\<close>, \<open>WCloseSlot\<close> and \<open>WSlot\<close> its deferred
  end, \<open>WClose\<close> the close of the agent's side.\<close>

datatype ts_work =
    WEnd nat int string bool
  | WExact nat int string bool
  | WLookup string string int string
  | WRemove nat bool
  | WEndAll "nat list" int string
  | WSend nat bool
  | WSendLocked nat bool
  | WSendChecked nat bool
  | WCheck nat
  | WStale nat bool
  | WPolicy nat
  | WWatch nat
  | WUnwatch nat
  | WCloseSlot nat
  | WSlot nat
  | WClose nat

text \<open>Which case of the watcher's \<open>select\<close> fires.\<close>

datatype watch_event = Removed | Invalidated | ConnectionDone | Tick

record ts_answers =
  an_conn :: "nat option"
  an_valid :: "string option"
  an_ok :: bool
  an_live :: bool
  an_event :: watch_event

definition end_work :: "nat \<Rightarrow> int \<Rightarrow> string \<Rightarrow> bool \<Rightarrow> TerminalSessions \<Rightarrow> ts_work" where
  "end_work p code msg forced ts =
     (if forced \<and> t_interactive (objs ts p) \<noteq> None then WExact p code msg False else WEnd p code msg forced)"

text \<open>A sweep ends a shell with an admission by its pointer, any other by its key.\<close>

definition sweep_work :: "int \<Rightarrow> string \<Rightarrow> TerminalSessions \<Rightarrow> nat \<Rightarrow> ts_work" where
  "sweep_work code msg ts p =
     (if t_interactive (objs ts p) \<noteq> None then WExact p code msg False
      else WLookup (t_serverID (objs ts p)) (t_sessionID (objs ts p)) code msg)"

definition captured :: "(terminalSession \<Rightarrow> bool) \<Rightarrow> TerminalSessions \<Rightarrow> nat list" where
  "captured P ts = filter (\<lambda>p. P (objs ts p)) (map snd (registry ts))"

text \<open>The first sections: each answers at once or leaves work.\<close>

definition endSession :: "string \<Rightarrow> string \<Rightarrow> int \<Rightarrow> string \<Rightarrow> bool \<Rightarrow> TerminalSessions \<Rightarrow> ts_work list" where
  "endSession node session code msg forced ts =
     (case find_terminal ts node session of None \<Rightarrow> [] | Some p \<Rightarrow> [end_work p code msg forced ts])"

definition EndByUser :: "string \<Rightarrow> int \<Rightarrow> string \<Rightarrow> TerminalSessions \<Rightarrow> ts_work list" where
  "EndByUser user code msg ts = map (sweep_work code msg ts) (captured (\<lambda>s. t_userID s = user) ts)"

definition EndBySession :: "string \<Rightarrow> int \<Rightarrow> string \<Rightarrow> TerminalSessions \<Rightarrow> ts_work list" where
  "EndBySession sid code msg ts =
     (if sid = [] then [] else map (sweep_work code msg ts) (captured (\<lambda>s. t_sid s = sid) ts))"

definition Terminal_Remove :: "string \<Rightarrow> string \<Rightarrow> TerminalSessions \<Rightarrow> ts_work list" where
  "Terminal_Remove node session ts =
     (case find_terminal ts node session of None \<Rightarrow> [] | Some p \<Rightarrow> [WRemove p False])"

definition RemoveUnattachedWithClose :: "string \<Rightarrow> string \<Rightarrow> TerminalSessions \<Rightarrow> ts_work list" where
  "RemoveUnattachedWithClose node session ts =
     (case find_terminal ts node session of
        None \<Rightarrow> [] | Some p \<Rightarrow> if t_streaming (objs ts p) then [] else [WRemove p True])"

definition prepareEndAll :: "string \<Rightarrow> int \<Rightarrow> string \<Rightarrow> TerminalSessions \<Rightarrow> ts_work list" where
  "prepareEndAll node code msg ts = [WEndAll (captured_all node ts) code msg]"

definition SendInteractive :: "string \<Rightarrow> string \<Rightarrow> bool \<Rightarrow> TerminalSessions \<Rightarrow> ts_work list" where
  "SendInteractive node session open_request ts =
     (case find_terminal ts node session of
        None \<Rightarrow> []
      | Some p \<Rightarrow> if t_closed (objs ts p) \<or> t_interactive (objs ts p) = None then [] else [WSend p open_request])"

definition CloseInteractive :: "string \<Rightarrow> string \<Rightarrow> TerminalSessions \<Rightarrow> ts_work list" where
  "CloseInteractive node session ts =
     (case find_terminal ts node session of
        None \<Rightarrow> []
      | Some p \<Rightarrow> if t_interactive (objs ts p) = None then []
                 else [WExact p 0 ''Terminal closed by the hub.'' True])"

definition EndStaleCredentials :: "string \<Rightarrow> TerminalSessions \<Rightarrow> ts_work list" where
  "EndStaleCredentials user ts =
     map WCheck (captured (\<lambda>s. t_userID s = user \<and> \<not> t_revoked s \<and> t_generation s \<noteq> None) ts)"

definition observeInteractivePolicy :: "TerminalSessions \<Rightarrow> ts_work list" where
  "observeInteractivePolicy ts = map WPolicy (captured (\<lambda>s. t_interactive s \<noteq> None) ts)"

text \<open>\<open>RegisterInteractive\<close>: the validator's answer, the current connection of the node, the
  registration, and the watcher of a credential-bound shell. It runs under the policy lock.\<close>

definition RegisterInteractive ::
    "ConnManager \<Rightarrow> string option \<Rightarrow> string \<Rightarrow> string \<Rightarrow> string \<Rightarrow> register_options \<Rightarrow> go_time \<Rightarrow> ts_work list ts_op" where
  "RegisterInteractive cm valid node session user opts now ts =
     (case valid of
        None \<Rightarrow> Some ([], ts)
      | Some runAs \<Rightarrow>
          (case GetConn cm node of
             None \<Rightarrow> Some ([], ts)
           | Some c \<Rightarrow>
               (case Terminal_Register node session user runAs (opts\<lparr>ro_interactive := Some \<lparr>ia_conn = c,
                        ia_executionUser = runAs, ia_admitted = False, ia_closed = False, ia_locked = False\<rparr>\<rparr>) now ts of
                  None \<Rightarrow> None
                | Some (None, ts1) \<Rightarrow> Some ([], ts1)
                | Some (Some p, ts1) \<Rightarrow> Some (if watched opts then [WWatch p] else [], ts1))))"

section \<open>Sections of the work\<close>

definition locked :: "nat \<Rightarrow> TerminalSessions \<Rightarrow> bool" where
  "locked p ts \<longleftrightarrow> (case t_interactive (objs ts p) of None \<Rightarrow> False | Some a \<Rightarrow> ia_locked a)"

definition set_admission :: "nat \<Rightarrow> (interactiveAdmission \<Rightarrow> interactiveAdmission) \<Rightarrow> TerminalSessions \<Rightarrow> TerminalSessions" where
  "set_admission p f ts = set_obj p ((objs ts p)\<lparr>t_interactive := map_option f (t_interactive (objs ts p))\<rparr>) ts"

definition send_failed :: "nat \<Rightarrow> ts_work" where
  "send_failed p = WExact p 1 ''Terminal authorization or agent connection changed.'' False"

text \<open>\<open>endInteractiveExact\<close> is \<open>end_if_current\<close>, forced, under \<open>controlMu\<close>; what follows it closes the
  agent's side.\<close>

definition endInteractiveAndClose :: "nat \<Rightarrow> int \<Rightarrow> string \<Rightarrow> bool \<Rightarrow> ts_work list ts_op" where
  "endInteractiveAndClose p code msg always ts =
     (case end_if_current p code msg True ts of
        None \<Rightarrow> None
      | Some (ended, ts1) \<Rightarrow>
          if \<not> ended \<and> \<not> always then Some ([], ts1)
          else if t_interactive (objs ts1 p) = None then None
          else Some ([WClose p], ts1))"

definition send_lock :: "nat \<Rightarrow> bool \<Rightarrow> ts_answers \<Rightarrow> ts_work list ts_op" where
  "send_lock p open_request ans ts =
     (case t_interactive (objs ts p) of
        None \<Rightarrow> None
      | Some a \<Rightarrow>
          if \<not> an_ok ans \<or> (\<not> ia_admitted a \<and> \<not> open_request) then Some ([send_failed p], ts)
          else Some ([WSendLocked p open_request], set_admission p (\<lambda>a. a\<lparr>ia_locked := True\<rparr>) ts))"

definition unlock_failed :: "nat \<Rightarrow> ts_work list ts_op" where
  "unlock_failed p ts = Some ([send_failed p], set_admission p (\<lambda>a. a\<lparr>ia_locked := False\<rparr>) ts)"

definition send_check :: "nat \<Rightarrow> bool \<Rightarrow> ts_answers \<Rightarrow> ts_work list ts_op" where
  "send_check p open_request ans ts =
     (case t_interactive (objs ts p) of
        None \<Rightarrow> None
      | Some a \<Rightarrow>
          if \<not> an_ok ans \<or> \<not> current p ts \<or> t_closed (objs ts p) \<or> an_conn ans \<noteq> Some (ia_conn a)
          then unlock_failed p ts
          else Some ([WSendChecked p open_request], ts))"

definition send_commit :: "nat \<Rightarrow> bool \<Rightarrow> ts_answers \<Rightarrow> ts_work list ts_op" where
  "send_commit p open_request ans ts =
     (case t_interactive (objs ts p) of
        None \<Rightarrow> None
      | Some a \<Rightarrow>
          if an_valid ans \<noteq> Some (ia_executionUser a) \<or> \<not> an_ok ans then unlock_failed p ts
          else Some ([], (set_admission p (\<lambda>a. a\<lparr>ia_locked := False, ia_admitted := ia_admitted a \<or> open_request\<rparr>) ts)
                  \<lparr>sent := sent ts @ [(p, ia_conn a, open_request)]\<rparr>))"

definition endStaleCredential :: "nat \<Rightarrow> unit ts_op" where
  "endStaleCredential p ts =
     (if \<not> current p ts \<or> t_revoked (objs ts p) then Some ((), ts)
      else case endLocked p 1 ''Terminal credentials or authorization revoked.'' True
                  (set_obj p ((objs ts p)\<lparr>t_revoked := True\<rparr>) ts) of
             None \<Rightarrow> None | Some (_, ts1) \<Rightarrow> Some ((), ts1))"

text \<open>\<open>credentialLive\<close> answers no when no place in the check queue came free, when the connection of
  an interactive shell was replaced, and otherwise what the store says of the credential epoch.\<close>

definition credentialLive :: "nat \<Rightarrow> ts_answers \<Rightarrow> TerminalSessions \<Rightarrow> bool option" where
  "credentialLive p ans ts =
     (if \<not> an_ok ans then Some False
      else if (case t_interactive (objs ts p) of None \<Rightarrow> False | Some a \<Rightarrow> an_conn ans \<noteq> Some (ia_conn a)) then Some False
      else if t_generation (objs ts p) = None then None
      else Some (an_live ans))"

definition check_credential :: "nat \<Rightarrow> bool \<Rightarrow> ts_work list \<Rightarrow> ts_answers \<Rightarrow> ts_work list ts_op" where
  "check_credential p by_watcher live ans ts =
     (case credentialLive p ans ts of
        None \<Rightarrow> None
      | Some ok \<Rightarrow> Some (if ok then live else [WStale p by_watcher], ts))"

definition policy_visit :: "nat \<Rightarrow> ts_answers \<Rightarrow> ts_work list ts_op" where
  "policy_visit p ans ts =
     (if t_interactive (objs ts p) = None then None
      else if an_valid ans = Some (t_executionUser (objs ts p)) then Some ([], ts)
      else endInteractiveAndClose p 1 ''Security policy or terminal authorization changed.'' False ts)"

definition watchCredential :: "nat \<Rightarrow> ts_answers \<Rightarrow> ts_work list ts_op" where
  "watchCredential p ans ts =
     (if t_interactive (objs ts p) = None then None
      else case an_event ans of
        Removed \<Rightarrow> Some (if t_removed (objs ts p) then [WUnwatch p] else [WWatch p], ts)
      | Invalidated \<Rightarrow> Some (if t_invalidated (objs ts p) = Some True then [WUnwatch p] else [WWatch p], ts)
      | ConnectionDone \<Rightarrow> Some ([WStale p True], ts)
      | Tick \<Rightarrow> check_credential p True [WWatch p] ans ts)"

text \<open>The deferred end of the watcher: the slot is given back after the agent's side was closed.\<close>

definition watch_exit :: "nat \<Rightarrow> ts_work list ts_op" where
  "watch_exit p ts = Some ([if t_revoked (objs ts p) then WCloseSlot p else WSlot p], ts)"

definition close_agent :: "nat \<Rightarrow> ts_work list \<Rightarrow> ts_work list ts_op" where
  "close_agent p next ts =
     (if t_interactive (objs ts p) = None then None
      else Some (next, set_admission p (\<lambda>a. a\<lparr>ia_closed := True\<rparr>) ts))"

definition end_watch :: "nat \<Rightarrow> ts_work list ts_op" where
  "end_watch p ts =
     (if t_watchDone (objs ts p) \<noteq> Some False then None
      else Some ([], (set_obj p ((objs ts p)\<lparr>t_watchDone := Some True\<rparr>) ts)\<lparr>watchers := watchers ts - 1\<rparr>))"

text \<open>\<open>RemoveUnattachedWithClose\<close> hands the close of the agent's side to its caller.\<close>

definition run_remove :: "nat \<Rightarrow> bool \<Rightarrow> ts_work list ts_op" where
  "run_remove p keep_streaming ts =
     (case remove_if_current p keep_streaming ts of
        None \<Rightarrow> None
      | Some ((_, removed), ts1) \<Rightarrow>
          Some (if removed \<and> keep_streaming \<and> t_interactive (objs ts p) \<noteq> None then [WClose p] else [], ts1))"

fun run_work :: "ts_answers \<Rightarrow> ts_work \<Rightarrow> ts_work list ts_op" where
  "run_work ans (WEnd p code msg forced) ts = map_option (\<lambda>(_, ts1). ([], ts1)) (end_if_current p code msg forced ts)"
| "run_work ans (WExact p code msg always) ts = endInteractiveAndClose p code msg always ts"
| "run_work ans (WLookup node session code msg) ts = Some (endSession node session code msg True ts, ts)"
| "run_work ans (WRemove p keep) ts = run_remove p keep ts"
| "run_work ans (WEndAll ps code msg) ts = map_option (\<lambda>(_, ts1). ([], ts1)) (end_captured ps code msg ts)"
| "run_work ans (WSend p open_request) ts = send_lock p open_request ans ts"
| "run_work ans (WSendLocked p open_request) ts = send_check p open_request ans ts"
| "run_work ans (WSendChecked p open_request) ts = send_commit p open_request ans ts"
| "run_work ans (WCheck p) ts = check_credential p False [] ans ts"
| "run_work ans (WStale p watching) ts =
     map_option (\<lambda>(_, ts1). (if watching then [WUnwatch p] else [], ts1)) (endStaleCredential p ts)"
| "run_work ans (WPolicy p) ts = policy_visit p ans ts"
| "run_work ans (WWatch p) ts = watchCredential p ans ts"
| "run_work ans (WUnwatch p) ts = watch_exit p ts"
| "run_work ans (WCloseSlot p) ts = close_agent p [WSlot p] ts"
| "run_work ans (WSlot p) ts = end_watch p ts"
| "run_work ans (WClose p) ts = close_agent p [] ts"

text \<open>The sections that take \<open>controlMu\<close> wait for it.\<close>

fun ready :: "ts_work \<Rightarrow> TerminalSessions \<Rightarrow> bool" where
  "ready (WExact p _ _ _) ts \<longleftrightarrow> \<not> locked p ts"
| "ready (WRemove p _) ts \<longleftrightarrow> \<not> locked p ts"
| "ready (WSend p _) ts \<longleftrightarrow> \<not> locked p ts"
| "ready (WStale p _) ts \<longleftrightarrow> \<not> locked p ts"
| "ready (WPolicy p) ts \<longleftrightarrow> \<not> locked p ts"
| "ready _ ts \<longleftrightarrow> True"

text \<open>A call of the registry, as its first section. \<open>CRead\<close> is a transport taking an event.\<close>

datatype ts_call =
    CRegister string string string string register_options go_time
  | CRegisterInteractive ConnManager "string option" string string string register_options go_time
  | CReserve string string
  | CSetMaintenance string string
  | CRelease string string
  | CAttach string string string
  | CDeliver string string string go_time
  | CDeliverFrom nat string string string go_time
  | CEndFrom nat string string int string
  | CEnd string string int string bool
  | CEndByUser string int string
  | CEndBySession string int string
  | CRemove string string
  | CRemoveUnattached string string
  | CEndAll string int string
  | CSend string string bool
  | CClose string string
  | CStale string
  | CPolicy
  | CRead nat

definition lift_op :: "('a \<times> TerminalSessions) option \<Rightarrow> (ts_work list \<times> TerminalSessions) option" where
  "lift_op = map_option (\<lambda>(_, ts). ([], ts))"

fun run_call :: "ts_call \<Rightarrow> ts_work list ts_op" where
  "run_call (CRegister node session user runAs opts now) ts =
     lift_op (Terminal_Register node session user runAs (opts\<lparr>ro_interactive := None\<rparr>) now ts)"
| "run_call (CRegisterInteractive cm valid node session user opts now) ts =
     RegisterInteractive cm valid node session user opts now ts"
| "run_call (CReserve node i) ts = lift_op (Terminal_ReserveMaintenance node i ts)"
| "run_call (CSetMaintenance node i) ts = lift_op (Terminal_SetMaintenance node i ts)"
| "run_call (CRelease node i) ts = lift_op (Terminal_ReleaseMaintenance node i ts)"
| "run_call (CAttach node session user) ts = lift_op (AttachStream node session user ts)"
| "run_call (CDeliver node session data now) ts = lift_op (DeliverData node session data now ts)"
| "run_call (CDeliverFrom c node session data now) ts = lift_op (DeliverDataFrom c node session data now ts)"
| "run_call (CEndFrom c node session code msg) ts = lift_op (EndFrom c node session code msg ts)"
| "run_call (CEnd node session code msg forced) ts = Some (endSession node session code msg forced ts, ts)"
| "run_call (CEndByUser user code msg) ts = Some (EndByUser user code msg ts, ts)"
| "run_call (CEndBySession sid code msg) ts = Some (EndBySession sid code msg ts, ts)"
| "run_call (CRemove node session) ts = Some (Terminal_Remove node session ts, ts)"
| "run_call (CRemoveUnattached node session) ts = Some (RemoveUnattachedWithClose node session ts, ts)"
| "run_call (CEndAll node code msg) ts = Some (prepareEndAll node code msg ts, ts)"
| "run_call (CSend node session open_request) ts = Some (SendInteractive node session open_request ts, ts)"
| "run_call (CClose node session) ts = Some (CloseInteractive node session ts, ts)"
| "run_call (CStale user) ts = Some (EndStaleCredentials user ts, ts)"
| "run_call CPolicy ts = Some (observeInteractivePolicy ts, ts)"
| "run_call (CRead p) ts = Some ([], set_obj p ((objs ts p)\<lparr>t_ch := tl (t_ch (objs ts p))\<rparr>) ts)"

definition NewTerminalSessions :: TerminalSessions where
  "NewTerminalSessions = \<lparr>objs = (\<lambda>_. new_terminal [] [] [] [] default_options 0), next_obj = 0, registry = [],
     tmaintenance = (\<lambda>_. []), watchers = 0, sent = []\<rparr>"

type_synonym ts_sys = "TerminalSessions \<times> ts_work list"

inductive ts_step :: "ts_sys \<Rightarrow> ts_sys \<Rightarrow> bool" where
  call: "run_call c ts = Some (ws, ts') \<Longrightarrow> (\<And>p. c = CRead p \<Longrightarrow> p < next_obj ts) \<Longrightarrow> ts_step (ts, work) (ts', ws @ work)"
| work: "\<lbrakk>w \<in> set work; ready w ts; run_work ans w ts = Some (ws, ts')\<rbrakk> \<Longrightarrow> ts_step (ts, work) (ts', ws @ remove1 w work)"

definition ts_reachable :: "ts_sys \<Rightarrow> bool" where
  "ts_reachable \<sigma> \<longleftrightarrow> ts_step\<^sup>*\<^sup>* (NewTerminalSessions, []) \<sigma>"

end
