(* ===== verification/Terminal_Props.thy ===== *)
theory Terminal_Props
  imports Terminal_Sessions
begin

text \<open>
  Properties of the shell registry over every interleaving of its callers: no section panics, the
  capacities hold, a revoked shell gets no further message, and a node under maintenance stays idle.
  A section that does not register, remove, lock or end a watch only lets objects evolve
  (\<open>ts_evolves\<close>), so most cases of the invariant are one lemma.
\<close>

section \<open>Objects\<close>

definition obj_ok :: "terminalSession \<Rightarrow> bool" where
  "obj_ok s \<longleftrightarrow> t_chClosed s = t_closed s \<and> t_done s = t_closed s \<and> length (t_ch s) \<le> channel_capacity \<and>
     (t_exit s \<noteq> None \<longrightarrow> t_closed s) \<and> (t_removed s \<longrightarrow> t_closed s) \<and>
     (t_watchDone s = None \<longleftrightarrow> t_invalidated s = None) \<and>
     (case t_invalidated s of None \<Rightarrow> \<not> t_watchStopped s | Some b \<Rightarrow> b = t_watchStopped s)"

text \<open>What a section may do to a registration without the rest of the registry noticing.\<close>

definition evolves :: "terminalSession \<Rightarrow> terminalSession \<Rightarrow> bool" where
  "evolves s s' \<longleftrightarrow> (obj_ok s \<longrightarrow> obj_ok s') \<and>
     t_serverID s' = t_serverID s \<and> t_sessionID s' = t_sessionID s \<and> t_userID s' = t_userID s \<and> t_kind s' = t_kind s \<and>
     t_removed s' = t_removed s \<and> t_watchDone s' = t_watchDone s \<and> t_generation s' = t_generation s \<and>
     (t_closed s \<longrightarrow> t_closed s')"

lemma evolves_refl [simp]: "evolves s s" by (simp add: evolves_def)

lemma evolves_trans: "evolves s s' \<Longrightarrow> evolves s' s'' \<Longrightarrow> evolves s s''" by (simp add: evolves_def)

lemma channel_room: "length xs \<le> channel_capacity \<Longrightarrow> length (drop (length xs + 1 - channel_capacity) xs @ [e]) \<le> channel_capacity"
  by (simp add: channel_capacity_def)

lemma stop_watch_ok:
  assumes "obj_ok s"
  shows "\<exists>s'. stopCredentialWatchLocked s = Some s' \<and> evolves s s' \<and> t_closed s' = t_closed s \<and> t_exit s' = t_exit s \<and>
    t_interactive s' = t_interactive s"
  using assms by (cases "t_invalidated s") (auto simp: stopCredentialWatchLocked_def evolves_def obj_ok_def)

lemma close_terminal_ok:
  assumes "t_chClosed s = t_closed s" "t_done s = t_closed s" "\<not> t_closed s"
  shows "close_terminal s = Some (s\<lparr>t_chClosed := True, t_done := True, t_closed := True\<rparr>)"
  using assms by (simp add: close_terminal_def)

lemma endLocked_ok:
  assumes "obj_ok (objs ts p)"
  shows "\<exists>ended s'. endLocked p code msg forced ts = Some (ended, set_obj p s' ts) \<and> evolves (objs ts p) s' \<and> t_closed s' \<and>
     t_interactive s' = t_interactive (objs ts p) \<and> (\<not> forced \<longrightarrow> t_exit s' = t_exit (objs ts p)) \<and> (forced \<longrightarrow> t_exit s' \<noteq> None)"
proof -
  let ?s = "objs ts p" and ?e = "EventExit code msg forced"
  have noop: "set_obj p ?s ts = ts" by (simp add: set_obj_def)
  obtain s1 where s1: "(if forced then map_option (revoke_output ?e) (stopCredentialWatchLocked ?s) else Some ?s) = Some s1"
      "t_closed s1 = t_closed ?s" "t_chClosed s1 = t_closed ?s" "t_done s1 = t_closed ?s" "length (t_ch s1) \<le> channel_capacity"
      "t_serverID s1 = t_serverID ?s" "t_sessionID s1 = t_sessionID ?s" "t_userID s1 = t_userID ?s" "t_kind s1 = t_kind ?s"
      "t_removed s1 = t_removed ?s" "t_watchDone s1 = t_watchDone ?s" "t_interactive s1 = t_interactive ?s"
      "t_generation s1 = t_generation ?s"
      "t_exit s1 = (if forced then Some ?e else t_exit ?s)"
      "t_watchDone s1 = None \<longleftrightarrow> t_invalidated s1 = None"
      "case t_invalidated s1 of None \<Rightarrow> \<not> t_watchStopped s1 | Some b \<Rightarrow> b = t_watchStopped s1"
  proof (cases forced)
    case True
    with stop_watch_ok [OF assms] assms that show ?thesis
      by (fastforce simp: revoke_output_def evolves_def obj_ok_def)
  next
    case False
    with assms that show ?thesis by (fastforce simp: obj_ok_def)
  qed
  show ?thesis
  proof (cases "t_closed ?s")
    case True
    then show ?thesis
    proof (cases "\<not> forced \<or> t_exit ?s \<noteq> None")
      case skip: True
      with True have "endLocked p code msg forced ts = Some (False, set_obj p ?s ts)"
        by (simp add: endLocked_def Let_def noop)
      with skip True show ?thesis by (intro exI [of _ False] exI [of _ ?s]) auto
    next
      case False
      with True s1 have "endLocked p code msg forced ts = Some (False, set_obj p s1 ts)"
        by (auto simp: endLocked_def Let_def)
      moreover have "evolves ?s s1" using s1 True assms False by (auto simp: evolves_def obj_ok_def split: option.splits)
      ultimately show ?thesis using s1 True False by (intro exI [of _ False] exI [of _ s1]) auto
    qed
  next
    case False
    let ?s2 = "s1\<lparr>t_ch := drop (length (t_ch s1) + 1 - channel_capacity) (t_ch s1) @ [?e]\<rparr>"
    let ?s3 = "?s2\<lparr>t_chClosed := True, t_done := True, t_closed := True\<rparr>"
    have "Option.bind (deliverExit ?e s1) close_terminal = Some ?s3"
      using s1 False by (simp add: deliverExit_def close_terminal_ok)
    with s1 False have "endLocked p code msg forced ts = Some (True, set_obj p ?s3 ts)"
      by (simp add: endLocked_def Let_def)
    moreover have "evolves ?s ?s3"
      using s1 False channel_room [OF s1(5), of ?e] by (auto simp: evolves_def obj_ok_def)
    ultimately show ?thesis using s1 by (intro exI [of _ True] exI [of _ ?s3]) auto
  qed
qed

section \<open>Registry\<close>

definition reg_ok :: "TerminalSessions \<Rightarrow> bool" where
  "reg_ok ts \<longleftrightarrow> distinct (map fst (registry ts)) \<and>
     (\<forall>(k, p) \<in> set (registry ts). p < next_obj ts \<and> k = key_of (objs ts p) \<and> \<not> t_removed (objs ts p)) \<and>
     (\<forall>p < next_obj ts. obj_ok (objs ts p) \<and> (t_removed (objs ts p) \<or> (key_of (objs ts p), p) \<in> set (registry ts)))"

definition cap_ok :: "TerminalSessions \<Rightarrow> bool" where
  "cap_ok ts \<longleftrightarrow> count_where live_shell (registered ts) \<le> 256 \<and> count_where live_exec (registered ts) \<le> 32 \<and>
     (\<forall>node. count_where (live_on node) (registered ts) \<le> 8) \<and>
     (\<forall>user. count_where (live_exec_of user) (registered ts) \<le> 4)"

definition ts_close :: "TerminalSessions \<Rightarrow> TerminalSessions \<Rightarrow> bool" where
  "ts_close ts ts' \<longleftrightarrow> next_obj ts' = next_obj ts \<and> registry ts' = registry ts \<and> watchers ts' = watchers ts \<and>
     tmaintenance ts' = tmaintenance ts \<and> (\<forall>p. evolves (objs ts p) (objs ts' p))"

text \<open>Most sections also leave the admissions, the log of messages and the output of locked shells.\<close>

definition ts_evolves :: "TerminalSessions \<Rightarrow> TerminalSessions \<Rightarrow> bool" where
  "ts_evolves ts ts' \<longleftrightarrow> ts_close ts ts' \<and> sent ts' = sent ts \<and>
     (\<forall>p. t_interactive (objs ts' p) = t_interactive (objs ts p)) \<and>
     (\<forall>p. locked p ts \<longrightarrow> t_exit (objs ts' p) = t_exit (objs ts p))"

lemma ts_close_refl [simp]: "ts_close ts ts" by (simp add: ts_close_def)

lemma ts_evolves_refl [simp]: "ts_evolves ts ts" by (simp add: ts_evolves_def)

lemma ts_evolves_trans: "ts_evolves ts ts' \<Longrightarrow> ts_evolves ts' ts'' \<Longrightarrow> ts_evolves ts ts''"
  by (auto simp: ts_evolves_def ts_close_def locked_def intro: evolves_trans)

lemma ts_evolves_obj:
  "evolves (objs ts p) s' \<Longrightarrow> t_interactive s' = t_interactive (objs ts p) \<Longrightarrow>
   \<not> locked p ts \<or> t_exit s' = t_exit (objs ts p) \<Longrightarrow> ts_evolves ts (set_obj p s' ts)"
  by (auto simp: ts_evolves_def ts_close_def set_obj_def)

lemma count_where_mono:
  assumes "\<And>x. x \<in> set xs \<Longrightarrow> P (f x) \<Longrightarrow> Q x" shows "count_where P (map f xs) \<le> count_where Q xs"
  using assms by (induction xs) (auto simp: count_where_def le_SucI)

lemma count_registered:
  assumes "ts_close ts ts'" "\<And>s s'. evolves s s' \<Longrightarrow> P s' \<Longrightarrow> P s"
  shows "count_where P (registered ts') \<le> count_where P (registered ts)"
proof -
  have *: "count_where P (map (\<lambda>(_, p). f p) xs) \<le> count_where P (map (\<lambda>(_, p). g p) xs)"
    if "\<And>p. P (f p) \<Longrightarrow> P (g p)" for f g :: "nat \<Rightarrow> terminalSession" and xs :: "(string \<times> nat) list"
    using that by (induction xs) (auto simp: count_where_def le_SucI)
  have "P (objs ts' p) \<Longrightarrow> P (objs ts p)" for p using assms by (auto simp: ts_close_def)
  from * [of "objs ts'" "objs ts", OF this] show ?thesis using assms(1) by (simp add: registered_def ts_close_def)
qed

lemma reg_ok_evolves: "ts_close ts ts' \<Longrightarrow> reg_ok ts \<Longrightarrow> reg_ok ts'"
  unfolding reg_ok_def ts_close_def evolves_def key_of_def by auto

lemma live_evolves:
  "evolves s s' \<Longrightarrow> live_shell s' \<Longrightarrow> live_shell s" "evolves s s' \<Longrightarrow> live_exec s' \<Longrightarrow> live_exec s"
  "evolves s s' \<Longrightarrow> live_on node s' \<Longrightarrow> live_on node s" "evolves s s' \<Longrightarrow> live_exec_of user s' \<Longrightarrow> live_exec_of user s"
  by (auto simp: live_shell_def live_exec_def live_on_def live_exec_of_def evolves_def)

lemma cap_ok_evolves:
  assumes "ts_close ts ts'" "cap_ok ts" shows "cap_ok ts'"
proof -
  have "count_where live_shell (registered ts') \<le> count_where live_shell (registered ts)"
    "count_where live_exec (registered ts') \<le> count_where live_exec (registered ts)"
    "count_where (live_on node) (registered ts') \<le> count_where (live_on node) (registered ts)"
    "count_where (live_exec_of user) (registered ts') \<le> count_where (live_exec_of user) (registered ts)" for node user
    by (rule count_registered [OF assms(1)], erule (1) live_evolves)+
  with assms(2) show ?thesis unfolding cap_ok_def by (meson order_trans)
qed

lemma reg_okD: "reg_ok ts \<Longrightarrow> p < next_obj ts \<Longrightarrow> obj_ok (objs ts p)" by (simp add: reg_ok_def)

lemma find_terminal_ok:
  assumes "reg_ok ts" "find_terminal ts node session = Some p"
  shows "p < next_obj ts" "obj_ok (objs ts p)" "current p ts" "\<not> t_removed (objs ts p)"
proof -
  have m: "(makeKey node session, p) \<in> set (registry ts)"
    using assms(2) unfolding find_terminal_def by (rule map_of_SomeD)
  with assms show "p < next_obj ts" "obj_ok (objs ts p)" "current p ts" "\<not> t_removed (objs ts p)"
    by (auto simp: reg_ok_def current_def find_terminal_def)
qed

lemma captured_ok:
  "reg_ok ts \<Longrightarrow> p \<in> set (captured P ts) \<Longrightarrow> p < next_obj ts \<and> P (objs ts p)"
  "reg_ok ts \<Longrightarrow> p \<in> set (captured_all node ts) \<Longrightarrow> p < next_obj ts"
  by (auto simp: captured_def captured_all_def reg_ok_def)

lemma endLocked_evolves:
  assumes "reg_ok ts" "p < next_obj ts" "forced \<longrightarrow> \<not> locked p ts"
  shows "\<exists>ended ts'. endLocked p code msg forced ts = Some (ended, ts') \<and> ts_evolves ts ts'"
  using endLocked_ok [OF reg_okD [OF assms(1,2)], of code msg forced] assms(3) ts_evolves_obj by blast

lemma end_if_current_evolves:
  assumes "reg_ok ts" "p < next_obj ts" "forced \<longrightarrow> \<not> locked p ts"
  shows "\<exists>ended ts'. end_if_current p code msg forced ts = Some (ended, ts') \<and> ts_evolves ts ts'"
  using endLocked_evolves [OF assms] by (auto simp: end_if_current_def)

lemma end_captured_evolves:
  "reg_ok ts \<Longrightarrow> \<forall>p \<in> set ps. p < next_obj ts \<Longrightarrow> \<exists>ts'. end_captured ps code msg ts = Some ((), ts') \<and> ts_evolves ts ts'"
proof (induction ps arbitrary: ts)
  case (Cons p ps)
  obtain ended ts1 where 1: "endLocked p code msg False ts = Some (ended, ts1)" "ts_evolves ts ts1"
    using endLocked_evolves [of ts p False code msg] Cons.prems by auto
  moreover have "reg_ok ts1" "\<forall>p \<in> set ps. p < next_obj ts1"
    using reg_ok_evolves [of ts ts1] Cons.prems 1(2) by (auto simp: ts_evolves_def ts_close_def)
  ultimately obtain ts2 where "end_captured ps code msg ts1 = Some ((), ts2)" "ts_evolves ts1 ts2" using Cons.IH by blast
  with 1 ts_evolves_trans [OF 1(2)] show ?case by auto
qed simp

lemma deliver_evolves:
  assumes "obj_ok (objs ts p)" "\<not> t_closed (objs ts p)"
  shows "\<exists>ok ts'. deliverDataLocked p data now ts = Some (ok, ts') \<and> ts_evolves ts ts'"
  using assms by (auto simp: deliverDataLocked_def Let_def obj_ok_def evolves_def channel_capacity_def intro!: ts_evolves_obj)

lemma stale_evolves:
  assumes "reg_ok ts" "p < next_obj ts" "\<not> locked p ts"
  shows "\<exists>ts'. endStaleCredential p ts = Some ((), ts') \<and> ts_evolves ts ts'"
proof -
  let ?ts = "set_obj p ((objs ts p)\<lparr>t_revoked := True\<rparr>) ts"
  have ev: "ts_evolves ts ?ts" by (rule ts_evolves_obj) (auto simp: evolves_def obj_ok_def)
  then have "reg_ok ?ts" using assms(1) reg_ok_evolves by (auto simp: ts_evolves_def)
  then obtain e ts' where "endLocked p 1 ''Terminal credentials or authorization revoked.'' True ?ts = Some (e, ts')" "ts_evolves ?ts ts'"
    using endLocked_evolves [of ?ts p True 1 "''Terminal credentials or authorization revoked.''"] assms
    by (auto simp: set_obj_def locked_def)
  with ts_evolves_trans [OF ev] show ?thesis by (auto simp: endStaleCredential_def)
qed

section \<open>Work in flight\<close>

fun work_ptrs :: "ts_work \<Rightarrow> nat list" where
  "work_ptrs (WEnd p _ _ _) = [p]"
| "work_ptrs (WExact p _ _ _) = [p]"
| "work_ptrs (WLookup _ _ _ _) = []"
| "work_ptrs (WRemove p _) = [p]"
| "work_ptrs (WEndAll ps _ _) = ps"
| "work_ptrs (WSend p _) = [p]"
| "work_ptrs (WSendLocked p _) = [p]"
| "work_ptrs (WSendChecked p _) = [p]"
| "work_ptrs (WCheck p) = [p]"
| "work_ptrs (WStale p _) = [p]"
| "work_ptrs (WPolicy p) = [p]"
| "work_ptrs (WWatch p) = [p]"
| "work_ptrs (WUnwatch p) = [p]"
| "work_ptrs (WCloseSlot p) = [p]"
| "work_ptrs (WSlot p) = [p]"
| "work_ptrs (WClose p) = [p]"

text \<open>Who holds \<open>controlMu\<close> of \<open>p\<close>, and who is its watcher.\<close>

fun holds :: "nat \<Rightarrow> ts_work \<Rightarrow> bool" where
  "holds p (WSendLocked q _) \<longleftrightarrow> q = p"
| "holds p (WSendChecked q _) \<longleftrightarrow> q = p"
| "holds p _ \<longleftrightarrow> False"

fun watches :: "nat \<Rightarrow> ts_work \<Rightarrow> bool" where
  "watches p (WWatch q) \<longleftrightarrow> q = p"
| "watches p (WUnwatch q) \<longleftrightarrow> q = p"
| "watches p (WCloseSlot q) \<longleftrightarrow> q = p"
| "watches p (WSlot q) \<longleftrightarrow> q = p"
| "watches p (WStale q w) \<longleftrightarrow> w \<and> q = p"
| "watches p _ \<longleftrightarrow> False"

text \<open>A forced end that does not take \<open>controlMu\<close> is of a shell without one; a checked send is of a
  shell that is not revoked; the rest of the work on an admission or an epoch has one.\<close>

fun work_fits :: "TerminalSessions \<Rightarrow> ts_work \<Rightarrow> bool" where
  "work_fits ts (WEnd p _ _ forced) \<longleftrightarrow> (forced \<longrightarrow> t_interactive (objs ts p) = None)"
| "work_fits ts (WSendChecked p open_request) \<longleftrightarrow> t_exit (objs ts p) = None \<and>
     (case t_interactive (objs ts p) of None \<Rightarrow> False | Some a \<Rightarrow> ia_admitted a \<or> open_request)"
| "work_fits ts (WSendLocked p open_request) \<longleftrightarrow>
     (case t_interactive (objs ts p) of None \<Rightarrow> False | Some a \<Rightarrow> ia_admitted a \<or> open_request)"
| "work_fits ts (WLookup _ _ _ _) \<longleftrightarrow> True"
| "work_fits ts (WRemove _ _) \<longleftrightarrow> True"
| "work_fits ts (WEndAll _ _ _) \<longleftrightarrow> True"
| "work_fits ts (WSlot _) \<longleftrightarrow> True"
| "work_fits ts (WCheck p) \<longleftrightarrow> t_generation (objs ts p) \<noteq> None"
| "work_fits ts (WStale p watching) \<longleftrightarrow> (watching \<longrightarrow> t_interactive (objs ts p) \<noteq> None)"
| "work_fits ts (WWatch p) \<longleftrightarrow> t_interactive (objs ts p) \<noteq> None \<and> t_generation (objs ts p) \<noteq> None"
| "work_fits ts (WExact p _ _ _) \<longleftrightarrow> t_interactive (objs ts p) \<noteq> None"
| "work_fits ts (WSend p _) \<longleftrightarrow> t_interactive (objs ts p) \<noteq> None"
| "work_fits ts (WPolicy p) \<longleftrightarrow> t_interactive (objs ts p) \<noteq> None"
| "work_fits ts (WUnwatch p) \<longleftrightarrow> t_interactive (objs ts p) \<noteq> None"
| "work_fits ts (WCloseSlot p) \<longleftrightarrow> t_interactive (objs ts p) \<noteq> None"
| "work_fits ts (WClose p) \<longleftrightarrow> t_interactive (objs ts p) \<noteq> None"

definition work_ok :: "ts_sys \<Rightarrow> bool" where
  "work_ok \<sigma> \<longleftrightarrow> (case \<sigma> of (ts, work) \<Rightarrow>
     (\<forall>w \<in> set work. (\<forall>p \<in> set (work_ptrs w). p < next_obj ts) \<and> work_fits ts w) \<and>
     (\<forall>p. count_where (holds p) work = (if p < next_obj ts \<and> locked p ts then 1 else 0)) \<and>
     (\<forall>p. count_where (watches p) work \<le> 1) \<and>
     (\<forall>p. count_where (watches p) work = 1 \<longrightarrow> p < next_obj ts \<and> t_watchDone (objs ts p) = Some False))"

lemma work_okI:
  assumes "\<And>w p. w \<in> set work \<Longrightarrow> p \<in> set (work_ptrs w) \<Longrightarrow> p < next_obj ts" "\<And>w. w \<in> set work \<Longrightarrow> work_fits ts w"
    "\<And>p. count_where (holds p) work = (if p < next_obj ts \<and> locked p ts then 1 else 0)"
    "\<And>p. count_where (watches p) work \<le> 1"
    "\<And>p. count_where (watches p) work = 1 \<Longrightarrow> p < next_obj ts \<and> t_watchDone (objs ts p) = Some False"
  shows "work_ok (ts, work)"
  using assms by (simp add: work_ok_def)

lemma work_okD:
  assumes "work_ok (ts, work)"
  shows "w \<in> set work \<Longrightarrow> p \<in> set (work_ptrs w) \<Longrightarrow> p < next_obj ts" "w \<in> set work \<Longrightarrow> work_fits ts w"
    "count_where (holds p) work = (if p < next_obj ts \<and> locked p ts then 1 else 0)"
    "count_where (watches p) work \<le> 1"
    "count_where (watches p) work = 1 \<Longrightarrow> p < next_obj ts \<and> t_watchDone (objs ts p) = Some False"
  using assms by (auto simp: work_ok_def)

definition watching :: "TerminalSessions \<Rightarrow> nat \<Rightarrow> bool" where
  "watching ts p \<longleftrightarrow> t_watchDone (objs ts p) = Some False"

definition watch_ok :: "TerminalSessions \<Rightarrow> bool" where
  "watch_ok ts \<longleftrightarrow> watchers ts = count_where (watching ts) [0..<next_obj ts] \<and> watchers ts \<le> 256"

definition ts_inv :: "ts_sys \<Rightarrow> bool" where
  "ts_inv \<sigma> \<longleftrightarrow> reg_ok (fst \<sigma>) \<and> cap_ok (fst \<sigma>) \<and> watch_ok (fst \<sigma>) \<and> work_ok \<sigma>"

lemma count_where_simps [simp]:
  "count_where P [] = 0" "count_where P (x # xs) = (if P x then 1 else 0) + count_where P xs"
  "count_where P (xs @ ys) = count_where P xs + count_where P ys"
  by (simp_all add: count_where_def)

lemma count_where_remove1: "w \<in> set work \<Longrightarrow> count_where P (remove1 w work) + (if P w then 1 else 0) = count_where P work"
  by (induction work) auto

lemma count_where_0: "(\<And>x. x \<in> set xs \<Longrightarrow> \<not> P x) \<Longrightarrow> count_where P xs = 0"
  by (induction xs) auto

text \<open>New work that holds no lock and watches nothing.\<close>

definition plain :: "ts_work list \<Rightarrow> bool" where
  "plain ws \<longleftrightarrow> (\<forall>w \<in> set ws. \<forall>p. \<not> holds p w \<and> \<not> watches p w)"

lemma fits_evolves:
  assumes "ts_evolves ts ts'" "work_fits ts w" "\<And>p. holds p w \<Longrightarrow> locked p ts" shows "work_fits ts' w"
proof -
  have "t_interactive (objs ts' p) = t_interactive (objs ts p)" "locked p ts \<Longrightarrow> t_exit (objs ts' p) = t_exit (objs ts p)" for p
    using assms(1) by (auto simp: ts_evolves_def)
  moreover have "t_generation (objs ts' p) = t_generation (objs ts p)" for p
    using assms(1) by (auto simp: ts_evolves_def ts_close_def evolves_def)
  ultimately show ?thesis using assms(2,3) by (cases w) auto
qed

lemma locked_evolves: "ts_evolves ts ts' \<Longrightarrow> locked p ts' = locked p ts"
  by (simp add: ts_evolves_def locked_def)

lemma holds_locked:
  assumes "work_ok (ts, work)" "w \<in> set work" "holds p w" shows "locked p ts" "p < next_obj ts"
proof -
  have "count_where (holds p) work \<noteq> 0"
    using assms(2,3) by (induction work) auto
  then show "locked p ts" "p < next_obj ts" using assms(1) by (auto simp: work_ok_def split: if_splits)
qed

lemma count_where_cong: "(\<And>x. x \<in> set xs \<Longrightarrow> P x = Q x) \<Longrightarrow> count_where P xs = count_where Q xs"
  by (induction xs) auto

lemma watch_ok_evolves:
  assumes "ts_close ts ts'" "watch_ok ts" shows "watch_ok ts'"
proof -
  have "watching ts' = watching ts" using assms(1) by (auto simp: ts_close_def evolves_def watching_def)
  with assms show ?thesis by (simp add: ts_close_def watch_ok_def)
qed

text \<open>A section that lets objects evolve, takes \<open>old\<close> of the work and leaves \<open>ws\<close>.\<close>

lemma inv_evolves:
  assumes "ts_inv (ts, work)" "ts_evolves ts ts'"
    and sub: "set work' \<subseteq> set work" and holds: "\<And>p. count_where (holds p) (ws @ work') = count_where (holds p) work"
    and watches: "\<And>p. count_where (watches p) (ws @ work') \<le> count_where (watches p) work"
    and new: "\<And>w. w \<in> set ws \<Longrightarrow> (\<forall>p \<in> set (work_ptrs w). p < next_obj ts) \<and> work_fits ts' w"
  shows "ts_inv (ts', ws @ work')"
proof -
  have w: "work_ok (ts, work)" using assms(1) by (simp add: ts_inv_def)
  have c: "ts_close ts ts'" using assms(2) by (simp add: ts_evolves_def)
  then have n: "next_obj ts' = next_obj ts" by (simp add: ts_close_def)
  have wd: "t_watchDone (objs ts' p) = t_watchDone (objs ts p)" for p using c by (simp add: ts_close_def evolves_def)
  have old: "\<forall>p \<in> set (work_ptrs x). p < next_obj ts" "work_fits ts' x" if "x \<in> set work'" for x
  proof -
    have x: "x \<in> set work" using that sub by auto
    then show "\<forall>p \<in> set (work_ptrs x). p < next_obj ts" using w by (simp add: work_ok_def)
    show "work_fits ts' x"
      by (rule fits_evolves [OF assms(2)]) (use x w holds_locked [OF w x] in \<open>auto simp: work_ok_def\<close>)
  qed
  have "work_ok (ts', ws @ work')"
    using w holds watches new old n wd locked_evolves [OF assms(2)] unfolding work_ok_def
    by (auto simp del: count_where_simps) (metis le_antisym le_trans le_zero_eq less_one linorder_not_le)+
  then show ?thesis
    using assms(1) reg_ok_evolves [OF c] cap_ok_evolves [OF c] watch_ok_evolves [OF c] by (simp add: ts_inv_def)
qed

lemma inv_plain_call:
  assumes "ts_inv (ts, work)" "ts_evolves ts ts'" "plain ws"
    and "\<And>w. w \<in> set ws \<Longrightarrow> (\<forall>p \<in> set (work_ptrs w). p < next_obj ts) \<and> work_fits ts' w"
  shows "ts_inv (ts', ws @ work)"
  by (rule inv_evolves [OF assms(1,2)]) (use assms(3,4) in \<open>auto simp: plain_def count_where_0\<close>)

lemma inv_plain_work:
  assumes "ts_inv (ts, work)" "w \<in> set work" "ts_evolves ts ts'" "plain ws" "\<And>q. \<not> holds q w"
    and "\<And>w. w \<in> set ws \<Longrightarrow> (\<forall>p \<in> set (work_ptrs w). p < next_obj ts) \<and> work_fits ts' w"
  shows "ts_inv (ts', ws @ remove1 w work)"
proof (rule inv_evolves [OF assms(1,3)])
  show "set (remove1 w work) \<subseteq> set work" by (rule set_remove1_subset)
  show "count_where (holds q) (ws @ remove1 w work) = count_where (holds q) work" for q
    using count_where_remove1 [OF assms(2), of "holds q"] assms(4,5) by (auto simp: plain_def count_where_0)
  show "count_where (watches q) (ws @ remove1 w work) \<le> count_where (watches q) work" for q
    using count_where_remove1 [OF assms(2), of "watches q"] assms(4) by (auto simp: plain_def count_where_0)
qed (rule assms(6))

section \<open>Sections that change locks, watchers or the map\<close>

lemma admission_close: "ts_close ts (set_admission p f ts)"
  by (auto simp: ts_close_def set_admission_def set_obj_def evolves_def obj_ok_def)

lemma admission_obj:
  "t_exit (objs (set_admission p f ts) q) = t_exit (objs ts q)" "t_generation (objs (set_admission p f ts) q) = t_generation (objs ts q)"
  "t_watchDone (objs (set_admission p f ts) q) = t_watchDone (objs ts q)"
  "next_obj (set_admission p f ts) = next_obj ts"
  "t_interactive (objs (set_admission p f ts) q) = (if q = p then map_option f (t_interactive (objs ts q)) else t_interactive (objs ts q))"
  by (simp_all add: set_admission_def set_obj_def)

text \<open>Changing an admission: what must hold of the work that stays and of the new work.\<close>

lemma inv_admission:
  assumes "ts_inv (ts, work)" "w \<in> set work" "p < next_obj ts"
    and c: "ts_close (set_admission p f ts) ts'" "objs ts' = objs (set_admission p f ts)"
    and holds: "\<And>q. count_where (holds q) (ws @ remove1 w work) = (if q < next_obj ts \<and> locked q ts' then 1 else 0)"
    and watches: "\<And>q. count_where (watches q) (ws @ remove1 w work) = count_where (watches q) work"
    and old: "\<And>x. x \<in> set (remove1 w work) \<Longrightarrow> work_fits ts x \<Longrightarrow> work_fits ts' x"
    and new: "\<And>x. x \<in> set ws \<Longrightarrow> work_ptrs x = [p] \<and> work_fits ts' x"
  shows "ts_inv (ts', ws @ remove1 w work)"
proof -
  have inv: "reg_ok ts" "cap_ok ts" "watch_ok ts" "work_ok (ts, work)" using assms(1) by (simp_all add: ts_inv_def)
  have n: "next_obj ts' = next_obj ts" using c(1) by (simp add: ts_close_def admission_obj)
  have "reg_ok ts'" "cap_ok ts'" "watch_ok ts'"
    using inv reg_ok_evolves [OF admission_close, of ts p f] cap_ok_evolves [OF admission_close, of ts p f]
      watch_ok_evolves [OF admission_close, of ts p f] reg_ok_evolves [OF c(1)] cap_ok_evolves [OF c(1)] watch_ok_evolves [OF c(1)]
    by simp_all
  moreover have "set (remove1 w work) \<subseteq> set work" by (rule set_remove1_subset)
  ultimately show ?thesis
    using inv(4) holds watches old new n assms(3)
    unfolding ts_inv_def work_ok_def by (auto simp: c(2) admission_obj simp del: count_where_simps dest!: subsetD)
qed

lemma unwatched_count:
  "w \<in> set work \<Longrightarrow> \<not> watches q w \<Longrightarrow> (\<And>x. x \<in> set ws \<Longrightarrow> \<not> watches q x) \<Longrightarrow>
   count_where (watches q) (ws @ remove1 w work) = count_where (watches q) work"
  using count_where_remove1 [of w work "watches q"] count_where_0 [of ws "watches q"] by simp

lemma fits_admission:
  assumes "work_fits ts x" "objs ts' = objs (set_admission p f ts)" "\<And>a. ia_admitted a \<Longrightarrow> ia_admitted (f a)"
  shows "work_fits ts' x"
  using assms by (cases x) (auto simp: admission_obj split: option.splits if_splits)

lemma remove1_holds:
  assumes "ts_inv (ts, work)" "w \<in> set work"
  shows "count_where (holds q) (remove1 w work) = (if q < next_obj ts \<and> locked q ts then 1 else 0) - (if holds q w then 1 else 0)"
proof -
  have "count_where (holds q) work = (if q < next_obj ts \<and> locked q ts then 1 else 0)"
    using assms(1) by (simp add: ts_inv_def work_ok_def)
  with count_where_remove1 [OF assms(2), of "holds q"] show ?thesis by (auto split: if_splits)
qed

lemma locked_admission:
  "objs ts' = objs (set_admission p f ts) \<Longrightarrow> locked q ts' =
     (if q = p then (case t_interactive (objs ts p) of None \<Rightarrow> False | Some a \<Rightarrow> ia_locked (f a)) else locked q ts)"
  by (auto simp: locked_def admission_obj split: option.splits)

lemma send_lock_inv:
  assumes "ts_inv (ts, work)" "WSend p o1 \<in> set work" "\<not> locked p ts" "send_lock p o1 ans ts = Some (ws, ts')"
  shows "ts_inv (ts', ws @ remove1 (WSend p o1) work)"
proof -
  have p: "p < next_obj ts" using assms(1,2) by (force simp: ts_inv_def work_ok_def)
  show ?thesis
  proof (cases "ts' = ts \<and> plain ws")
    case True
    then have "\<forall>x \<in> set ws. work_ptrs x = [p] \<and> work_fits ts x"
      using assms(4) by (auto simp: send_lock_def send_failed_def split: option.splits if_splits)
    with True p show ?thesis by (intro inv_plain_work [OF assms(1,2)]) auto
  next
    case False
    then obtain a where a: "t_interactive (objs ts p) = Some a" "ia_admitted a \<or> o1"
        "ws = [WSendLocked p o1]" "ts' = set_admission p (\<lambda>a. a\<lparr>ia_locked := True\<rparr>) ts"
      using assms(4) by (auto simp: send_lock_def send_failed_def plain_def split: option.splits if_splits)
    show ?thesis
    proof (rule inv_admission [OF assms(1,2) p, of "\<lambda>a. a\<lparr>ia_locked := True\<rparr>"])
      show "count_where (holds q) (ws @ remove1 (WSend p o1) work) = (if q < next_obj ts \<and> locked q ts' then 1 else 0)" for q
        using a assms(3) p remove1_holds [OF assms(1,2), of q] locked_admission [of ts' p "\<lambda>a. a\<lparr>ia_locked := True\<rparr>" ts q]
        by auto
      show "count_where (watches q) (ws @ remove1 (WSend p o1) work) = count_where (watches q) work" for q
        by (rule unwatched_count [OF assms(2)]) (auto simp: a)
    qed (use a in \<open>auto simp: admission_obj intro: fits_admission\<close>)
  qed
qed

lemma unlock_inv:
  assumes "ts_inv (ts, work)" "w \<in> set work" "holds p w" "\<And>q. \<not> watches q w"
    and f: "\<And>a. ia_admitted a \<Longrightarrow> ia_admitted (f a)" "\<And>a. \<not> ia_locked (f a)"
    and ts': "objs ts' = objs (set_admission p f ts)" "ts_close (set_admission p f ts) ts'"
    and ws: "plain ws" "\<And>x. x \<in> set ws \<Longrightarrow> work_ptrs x = [p] \<and> work_fits ts' x"
  shows "ts_inv (ts', ws @ remove1 w work)"
proof -
  have l: "locked p ts" "p < next_obj ts" using holds_locked [of ts work w p] assms(1-3) by (simp_all add: ts_inv_def)
  have hq: "holds q w \<longleftrightarrow> q = p" for q using assms(3) by (cases w) auto
  show ?thesis
  proof (rule inv_admission [OF assms(1,2) l(2) ts'(2,1)])
    show "count_where (holds q) (ws @ remove1 w work) = (if q < next_obj ts \<and> locked q ts' then 1 else 0)" for q
      using l hq remove1_holds [OF assms(1,2), of q] locked_admission [OF ts'(1), of q] f(2) ws(1)
      by (auto simp: plain_def count_where_0 split: option.splits)
    show "count_where (watches q) (ws @ remove1 w work) = count_where (watches q) work" for q
      by (rule unwatched_count [OF assms(2)]) (use ws(1) assms(4) in \<open>auto simp: plain_def\<close>)
  qed (use ws f(1) ts'(1) in \<open>auto simp: plain_def intro: fits_admission\<close>)
qed

lemma unlock_failed_inv:
  assumes "ts_inv (ts, work)" "w \<in> set work" "holds p w" "\<And>q. \<not> watches q w" "unlock_failed p ts = Some (ws, ts')"
  shows "ts_inv (ts', ws @ remove1 w work)"
proof -
  have "locked p ts" using holds_locked [of ts work w p] assms(1-3) by (simp add: ts_inv_def)
  then have "t_interactive (objs ts p) \<noteq> None" by (auto simp: locked_def split: option.splits)
  then show ?thesis using assms(5)
    by (intro unlock_inv [OF assms(1-4), of "\<lambda>a. a\<lparr>ia_locked := False\<rparr>"])
      (auto simp: unlock_failed_def send_failed_def plain_def admission_obj)
qed

lemma send_check_inv:
  assumes "ts_inv (ts, work)" "WSendLocked p o1 \<in> set work" "send_check p o1 ans ts = Some (ws, ts')"
  shows "ts_inv (ts', ws @ remove1 (WSendLocked p o1) work)"
proof -
  have fits: "work_fits ts (WSendLocked p o1)" "p < next_obj ts" using assms(1,2) by (force simp: ts_inv_def work_ok_def)+
  then obtain a where a: "t_interactive (objs ts p) = Some a" "ia_admitted a \<or> o1" by (auto split: option.splits)
  show ?thesis
  proof (cases "unlock_failed p ts = Some (ws, ts')")
    case True
    then show ?thesis by (intro unlock_failed_inv [OF assms(1,2)]) auto
  next
    case False
    with assms(3) a have c: "ws = [WSendChecked p o1]" "ts' = ts" "\<not> t_closed (objs ts p)"
      by (auto simp: send_check_def split: if_splits)
    moreover have "t_exit (objs ts p) = None"
      using c(3) fits(2) assms(1) by (auto simp: ts_inv_def reg_ok_def obj_ok_def)
    ultimately show ?thesis using a fits(2)
      count_where_remove1 [OF assms(2), of "holds q" for q] count_where_remove1 [OF assms(2), of "watches q" for q]
      by (intro inv_evolves [OF assms(1)]) (auto simp: set_remove1_subset add.commute)
  qed
qed

lemma send_commit_inv:
  assumes "ts_inv (ts, work)" "WSendChecked p o1 \<in> set work" "send_commit p o1 ans ts = Some (ws, ts')"
  shows "ts_inv (ts', ws @ remove1 (WSendChecked p o1) work)"
proof -
  have "work_fits ts (WSendChecked p o1)" using assms(1,2) by (force simp: ts_inv_def work_ok_def)
  then obtain a where a: "t_interactive (objs ts p) = Some a" by (auto split: option.splits)
  show ?thesis
  proof (cases "unlock_failed p ts = Some (ws, ts')")
    case True
    then show ?thesis by (intro unlock_failed_inv [OF assms(1,2)]) auto
  next
    case False
    let ?f = "\<lambda>a. a\<lparr>ia_locked := False, ia_admitted := ia_admitted a \<or> o1\<rparr>"
    from False assms(3) a have "ws = []" "ts' = (set_admission p ?f ts)\<lparr>sent := sent ts @ [(p, ia_conn a, o1)]\<rparr>"
      by (auto simp: send_commit_def split: if_splits)
    then show ?thesis
      by (intro unlock_inv [OF assms(1,2), of p ?f]) (auto simp: ts_close_def plain_def)
  qed
qed

lemma terminal_close_inv:
  assumes "ts_inv (ts, work)" "w \<in> set work" "w = WClose p \<and> ws = [] \<or> w = WCloseSlot p \<and> ws = [WSlot p]"
  shows "\<exists>ts'. close_agent p ws ts = Some (ws, ts') \<and> ts_inv (ts', ws @ remove1 w work)"
proof -
  have "work_ok (ts, work)" using assms(1) by (simp add: ts_inv_def)
  from work_okD(1,2) [OF this assms(2)] assms(3)
  have p: "p < next_obj ts" "t_interactive (objs ts p) \<noteq> None" by auto
  let ?f = "\<lambda>a. a\<lparr>ia_closed := True\<rparr>"
  let ?ts = "set_admission p ?f ts"
  have "ts_inv (?ts, ws @ remove1 w work)"
  proof (rule inv_admission [OF assms(1,2) p(1), of ?f])
    have "locked q ?ts = locked q ts" for q
      using locked_admission [of ?ts p ?f ts q] by (auto simp: locked_def split: option.splits)
    then show "count_where (holds q) (ws @ remove1 w work) = (if q < next_obj ts \<and> locked q ?ts then 1 else 0)" for q
      using remove1_holds [OF assms(1,2), of q] assms(3) by auto
    show "count_where (watches q) (ws @ remove1 w work) = count_where (watches q) work" for q
      using count_where_remove1 [OF assms(2), of "watches q"] assms(3) by auto
  qed (use assms(3) in \<open>auto intro: fits_admission\<close>)
  with p(2) show ?thesis by (simp add: close_agent_def)
qed

text \<open>Work that passes the watch on.\<close>

lemma inv_watch:
  assumes "ts_inv (ts, work)" "w \<in> set work" "ts_evolves ts ts'" "\<And>q. \<not> holds q w"
    and "ws = [] \<or> (\<exists>x. ws = [x] \<and> (\<forall>q. \<not> holds q x \<and> (watches q x \<longrightarrow> watches q w)) \<and>
        (\<forall>p \<in> set (work_ptrs x). p < next_obj ts) \<and> work_fits ts' x)"
  shows "ts_inv (ts', ws @ remove1 w work)"
proof (rule inv_evolves [OF assms(1,3)])
  show "set (remove1 w work) \<subseteq> set work" by (rule set_remove1_subset)
  show "count_where (holds q) (ws @ remove1 w work) = count_where (holds q) work" for q
    using count_where_remove1 [OF assms(2), of "holds q"] assms(4,5) by auto
  show "count_where (watches q) (ws @ remove1 w work) \<le> count_where (watches q) work" for q
    using count_where_remove1 [OF assms(2), of "watches q"] assms(5) by (auto split: if_splits)
qed (use assms(5) in auto)

lemma end_watch_inv:
  assumes "ts_inv (ts, work)" "WSlot p \<in> set work"
  shows "\<exists>ts'. end_watch p ts = Some ([], ts') \<and> ts_inv (ts', remove1 (WSlot p) work)"
proof -
  have w: "work_ok (ts, work)" "reg_ok ts" "cap_ok ts" "watch_ok ts" using assms(1) by (simp_all add: ts_inv_def)
  have "count_where (watches p) work \<noteq> 0" using assms(2) by (induction work) auto
  then have one: "count_where (watches p) work = 1" using work_okD(4) [OF w(1), of p] by linarith
  then have p: "p < next_obj ts" "t_watchDone (objs ts p) = Some False" using work_okD(5) [OF w(1), of p] by simp_all
  define ts' where "ts' = (set_obj p ((objs ts p)\<lparr>t_watchDone := Some True\<rparr>) ts)\<lparr>watchers := watchers ts - 1\<rparr>"
  have ended: "end_watch p ts = Some ([], ts')" using p by (simp add: end_watch_def ts'_def)
  have o: "objs ts' q = (if q = p then (objs ts p)\<lparr>t_watchDone := Some True\<rparr> else objs ts q)" for q
    by (simp add: ts'_def set_obj_def)
  have r: "registry ts' = registry ts" "next_obj ts' = next_obj ts" "sent ts' = sent ts" "watchers ts' = watchers ts - 1"
    by (simp_all add: ts'_def set_obj_def)
  have k: "key_of (objs ts' q) = key_of (objs ts q)" "t_removed (objs ts' q) = t_removed (objs ts q)"
      "obj_ok (objs ts q) \<Longrightarrow> obj_ok (objs ts' q)" for q
    using p(2) by (auto simp: o key_of_def obj_ok_def)
  have "reg_ok ts'" using w(2) unfolding reg_ok_def r k using k(3) by auto
  moreover have "cap_ok ts'"
  proof -
    have "count_where P (registered ts') = count_where P (registered ts)"
      if "\<And>s. P (s\<lparr>t_watchDone := Some True\<rparr>) = P s" for P
    proof -
      have "P (objs ts' q) = P (objs ts q)" for q using that by (simp add: o)
      then have "count_where P (map (\<lambda>(_, p). objs ts' p) xs) = count_where P (map (\<lambda>(_, p). objs ts p) xs)"
        for xs :: "(string \<times> nat) list" by (induction xs) auto
      then show ?thesis by (simp add: registered_def r)
    qed
    with w(3) show ?thesis by (simp add: cap_ok_def live_shell_def live_exec_def live_on_def live_exec_of_def)
  qed
  moreover have "watch_ok ts'"
  proof -
    have P: "watching ts' q \<longleftrightarrow> q \<noteq> p \<and> watching ts q" "watching ts p" for q by (simp_all add: watching_def o p(2))
    have "count_where (watching ts') xs + (if p \<in> set xs then 1 else 0) = count_where (watching ts) xs" if "distinct xs" for xs
      using that by (induction xs) (auto simp: P)
    from this [of "[0..<next_obj ts]"] show ?thesis using w(4) p(1) by (auto simp: watch_ok_def r)
  qed
  moreover have "work_ok (ts', remove1 (WSlot p) work)"
  proof (rule work_okI)
    have mem: "x \<in> set (remove1 (WSlot p) work) \<Longrightarrow> x \<in> set work" for x
      by (rule set_remove1_subset [THEN subsetD])
    have wq: "count_where (watches q) (remove1 (WSlot p) work) = (if q = p then 0 else count_where (watches q) work)" for q
      using count_where_remove1 [OF assms(2), of "watches q"] one by auto
    show "q < next_obj ts'" if "x \<in> set (remove1 (WSlot p) work)" "q \<in> set (work_ptrs x)" for x q
      using mem [OF that(1)] that(2) p(1) work_okD(1) [OF w(1)] by (auto simp: r)
    have "work_fits ts' x" if "work_fits ts x" for x using that by (cases x) (auto simp: o split: option.splits)
    then show "work_fits ts' x" if "x \<in> set (remove1 (WSlot p) work)" for x
      using mem [OF that] work_okD(2) [OF w(1)] by auto
    have "locked q ts' = locked q ts" for q by (simp add: locked_def o)
    then show "count_where (holds q) (remove1 (WSlot p) work) = (if q < next_obj ts' \<and> locked q ts' then 1 else 0)" for q
      using count_where_remove1 [OF assms(2), of "holds q"] work_okD(3) [OF w(1), of q] by (auto simp: r)
    show "count_where (watches q) (remove1 (WSlot p) work) \<le> 1" for q
      unfolding wq using work_okD(4) [OF w(1), of q] by simp
    show "q < next_obj ts' \<and> t_watchDone (objs ts' q) = Some False"
      if "count_where (watches q) (remove1 (WSlot p) work) = 1" for q
      using that work_okD(5) [OF w(1), of q] unfolding wq by (cases "q = p") (simp_all add: r o)
  qed
  ultimately have "ts_inv (ts', remove1 (WSlot p) work)" by (simp add: ts_inv_def)
  with ended show ?thesis by blast
qed

lemma register_inv:
  assumes "ts_inv (ts, work)" "Terminal_Register node session user runAs opts now ts = Some (r, ts')"
    and adm: "\<And>a. ro_interactive opts = Some a \<Longrightarrow> \<not> ia_locked a"
    and ws: "ws = [] \<or> (watched opts \<and> ro_interactive opts \<noteq> None \<and> (\<exists>p. r = Some p \<and> ws = [WWatch p]))"
  shows "ts_inv (ts', ws @ work)"
proof (cases r)
  case None
  then have "ts' = ts" using assms(2) by (auto simp: Terminal_Register_def Let_def split: if_splits)
  with None ws assms(1) show ?thesis by simp
next
  case (Some p)
  let ?key = "makeKey node session" and ?s = "new_terminal node session user runAs opts now"
  have p: "p = next_obj ts" and new: "?key \<notin> fst ` set (registry ts)" and room: "\<not> full ts node user opts"
    and ts': "ts' = ts\<lparr>objs := (objs ts)(p := ?s), next_obj := p + 1, registry := (?key, p) # registry ts,
       watchers := watchers ts + (if watched opts then 1 else 0)\<rparr>"
    using assms(2) Some by (auto simp: Terminal_Register_def Let_def map_of_eq_None_iff split: if_splits)
  have w: "work_ok (ts, work)" "reg_ok ts" "cap_ok ts" "watch_ok ts" using assms(1) by (simp_all add: ts_inv_def)
  have s: "obj_ok ?s" "key_of ?s = ?key" "\<not> t_removed ?s" "\<not> t_closed ?s" "t_exit ?s = None" "t_kind ?s = ro_kind opts"
      "t_serverID ?s = node" "t_userID ?s = user" "t_interactive ?s = ro_interactive opts"
      "t_watchDone ?s = (if watched opts then Some False else None)"
    by (simp_all add: obj_ok_def new_terminal_def key_of_def)
  have o: "q < p \<Longrightarrow> objs ts' q = objs ts q" "objs ts' p = ?s" for q by (simp_all add: ts')
  have old: "(k, q) \<in> set (registry ts) \<Longrightarrow> q < p" for k q using w(2) by (auto simp: reg_ok_def p)
  have reg': "registry ts' = (?key, p) # registry ts" by (simp add: ts')
  have n': "next_obj ts' = Suc p" "watchers ts' = watchers ts + (if watched opts then 1 else 0)" by (simp_all add: ts')
  have regd: "registered ts' = ?s # registered ts"
  proof -
    have "map (\<lambda>(_, q). objs ts' q) xs = map (\<lambda>(_, q). objs ts q) xs" if "set xs \<subseteq> set (registry ts)" for xs
      using that old o(1) by (induction xs) auto
    from this [OF subset_refl] show ?thesis by (simp only: registered_def reg' list.map prod.case o)
  qed
  have "reg_ok ts'"
    using w(2) new s old by (auto simp: reg_ok_def ts' p less_Suc_eq)
  moreover have "cap_ok ts'"
    using w(3) room s unfolding cap_ok_def regd full_def
    by (auto simp: live_shell_def live_exec_def live_on_def live_exec_of_def)
  moreover have "watch_ok ts'"
  proof -
    have "count_where (watching ts') [0..<p] = count_where (watching ts) [0..<p]"
      by (rule count_where_cong) (simp add: watching_def o(1))
    moreover have "watching ts' p = watched opts" by (simp add: watching_def o(2) s(10))
    ultimately show ?thesis using w(4) room by (auto simp: watch_ok_def n' p [symmetric] full_def not_le)
  qed
  moreover have "work_ok (ts', ws @ work)"
  proof (rule work_okI)
    have lt: "q < p" if "x \<in> set work" "q \<in> set (work_ptrs x)" for x q using work_okD(1) [OF w(1) that] by (simp add: p)
    show "q < next_obj ts'" if "x \<in> set (ws @ work)" "q \<in> set (work_ptrs x)" for x q
      using that ws Some lt [of x q] by (auto simp: ts')
    have "work_fits ts' x" if "x \<in> set work" for x
      using work_okD(2) [OF w(1) that] lt [OF that] o(1) by (cases x) auto
    then show "work_fits ts' x" if "x \<in> set (ws @ work)" for x
      using that ws Some o(2) s(9) by (auto simp: new_terminal_def watched_def)
    have lk: "locked q ts' = (q < p \<and> locked q ts)" if "q < next_obj ts'" for q
      using that o s(9) adm by (auto simp: locked_def ts' less_Suc_eq split: option.splits)
    show "count_where (holds q) (ws @ work) = (if q < next_obj ts' \<and> locked q ts' then 1 else 0)" for q
      using work_okD(3) [OF w(1), of q] ws lk [of q] p by (auto simp: ts')
    have none: "count_where (watches p) work = 0"
      using work_okD(4,5) [OF w(1), of p] p by (metis less_irrefl less_one linorder_neqE_nat not_le)
    show "count_where (watches q) (ws @ work) \<le> 1" for q
      using work_okD(4) [OF w(1), of q] ws Some none by auto
    show "q < next_obj ts' \<and> t_watchDone (objs ts' q) = Some False" if "count_where (watches q) (ws @ work) = 1" for q
      using that work_okD(5) [OF w(1), of q] ws Some none s(10) o p by (auto simp: ts' split: if_splits)
  qed
  ultimately show ?thesis by (simp add: ts_inv_def)
qed

lemma count_where_filter: "count_where P (map f (filter Q xs)) \<le> count_where P (map f xs)"
  by (induction xs) auto

lemma removeLocked_ok:
  assumes "obj_ok s"
  obtains s1 where "removeLocked s = Some s1" "t_removed s1 = t_removed s" "obj_ok (s1\<lparr>t_removed := True\<rparr>)"
    "t_closed s1" "t_interactive s1 = t_interactive s" "t_watchDone s1 = t_watchDone s" "t_generation s1 = t_generation s"
    "key_of s1 = key_of s"
  using assms by (cases "t_closed s")
    (auto simp: removeLocked_def revoke_output_def close_terminal_def obj_ok_def key_of_def channel_capacity_def)

lemma remove_inv:
  assumes "ts_inv (ts, work)" "WRemove p keep \<in> set work" "\<not> locked p ts"
  shows "\<exists>r ts'. remove_if_current p keep ts = Some (r, ts') \<and> ts_inv (ts', remove1 (WRemove p keep) work) \<and>
    t_interactive (objs ts' p) = t_interactive (objs ts p) \<and> p < next_obj ts'"
proof -
  have p: "p < next_obj ts" using work_okD(1) [of ts work "WRemove p keep" p] assms(1,2) by (simp add: ts_inv_def)
  show ?thesis
  proof (cases "\<not> current p ts \<or> (keep \<and> t_streaming (objs ts p))")
    case True
    then have "remove_if_current p keep ts = Some ((False, False), ts)" by (auto simp: remove_if_current_def Let_def)
    moreover have "ts_inv (ts, [] @ remove1 (WRemove p keep) work)"
      by (rule inv_plain_work [OF assms(1,2)]) (auto simp: plain_def)
    ultimately show ?thesis using p by auto
  next
    case False
    have w: "work_ok (ts, work)" "reg_ok ts" "cap_ok ts" "watch_ok ts" using assms(1) by (simp_all add: ts_inv_def)
    have cur: "map_of (registry ts) (key_of (objs ts p)) = Some p" using False by (simp add: current_def)
    then have live: "\<not> t_removed (objs ts p)" using w(2) map_of_SomeD [OF cur] by (auto simp: reg_ok_def)
    obtain s1 where s1: "removeLocked (objs ts p) = Some s1" "t_removed s1 = t_removed (objs ts p)"
        "obj_ok (s1\<lparr>t_removed := True\<rparr>)" "t_closed s1" "t_interactive s1 = t_interactive (objs ts p)"
        "t_watchDone s1 = t_watchDone (objs ts p)" "t_generation s1 = t_generation (objs ts p)" "key_of s1 = key_of (objs ts p)"
      using removeLocked_ok [OF reg_okD [OF w(2) p]] by metis
    define ts' where "ts' = (set_obj p (s1\<lparr>t_removed := True\<rparr>) ts)\<lparr>registry := filter (\<lambda>(k, _). k \<noteq> key_of (objs ts p)) (registry ts)\<rparr>"
    have run: "remove_if_current p keep ts = Some ((t_closed (objs ts p), True), ts')"
      using False s1 live by (simp add: remove_if_current_def Let_def ts'_def)
    have o: "objs ts' p = s1\<lparr>t_removed := True\<rparr>" "q \<noteq> p \<Longrightarrow> objs ts' q = objs ts q" for q by (simp_all add: ts'_def set_obj_def)
    have r: "registry ts' = filter (\<lambda>(k, _). k \<noteq> key_of (objs ts p)) (registry ts)" "next_obj ts' = next_obj ts"
        "watchers ts' = watchers ts" "sent ts' = sent ts"
      by (simp_all add: ts'_def set_obj_def)
    have other: "q \<noteq> p" if "(k, q) \<in> set (registry ts')" for k q
      using that w(2) by (auto simp: r reg_ok_def)
    have key: "key_of (objs ts' q) = key_of (objs ts q)" for q
      using o s1(8) by (cases "q = p") (simp_all add: key_of_def)
    have "reg_ok ts'"
      unfolding reg_ok_def key
    proof (intro conjI ballI allI impI)
      show "distinct (map fst (registry ts'))" using w(2) by (auto simp: r reg_ok_def intro: distinct_map_filter)
      show "case x of (k, q) \<Rightarrow> q < next_obj ts' \<and> k = key_of (objs ts q) \<and> \<not> t_removed (objs ts' q)" if "x \<in> set (registry ts')" for x
        using that other [of "fst x" "snd x"] o(2) w(2) by (auto simp: r reg_ok_def split: prod.splits)
      show "obj_ok (objs ts' q)" if "q < next_obj ts'" for q
        using that s1(3) o w(2) r(2) by (cases "q = p") (auto simp: reg_ok_def)
      show "t_removed (objs ts' q) \<or> (key_of (objs ts q), q) \<in> set (registry ts')" if "q < next_obj ts'" for q
      proof (cases "q = p \<or> t_removed (objs ts q)")
        case True
        with o show ?thesis by (cases "q = p") auto
      next
        case False
        with that w(2) have m: "(key_of (objs ts q), q) \<in> set (registry ts)" by (auto simp: reg_ok_def r)
        moreover have "key_of (objs ts q) \<noteq> key_of (objs ts p)"
        proof
          assume "key_of (objs ts q) = key_of (objs ts p)"
          with m w(2) have "map_of (registry ts) (key_of (objs ts p)) = Some q" by (simp add: reg_ok_def)
          with cur False show False by simp
        qed
        ultimately show ?thesis by (simp add: r)
      qed
    qed
    moreover have "cap_ok ts'"
    proof -
      have "registered ts' = map (\<lambda>(_, q). objs ts q) (registry ts')"
        unfolding registered_def by (rule map_cong) (use other o(2) in auto)
      then have "count_where P (registered ts') \<le> count_where P (registered ts)" for P
        unfolding r by (simp only: registered_def count_where_filter)
      with w(3) show ?thesis unfolding cap_ok_def by (meson order_trans)
    qed
    moreover have "watch_ok ts'"
    proof -
      have "watching ts' q = watching ts q" for q using o s1(6) by (cases "q = p") (simp_all add: watching_def)
      then have "watching ts' = watching ts" by (rule ext)
      with w(4) show ?thesis by (simp add: watch_ok_def r)
    qed
    moreover have "work_ok (ts', remove1 (WRemove p keep) work)"
    proof (rule work_okI)
      have sub: "x \<in> set (remove1 (WRemove p keep) work) \<Longrightarrow> x \<in> set work" for x by (rule set_remove1_subset [THEN subsetD])
      show "q < next_obj ts'" if "x \<in> set (remove1 (WRemove p keep) work)" "q \<in> set (work_ptrs x)" for x q
        using work_okD(1) [OF w(1) sub [OF that(1)] that(2)] by (simp add: r)
      have inter: "t_interactive (objs ts' q) = t_interactive (objs ts q)" "t_watchDone (objs ts' q) = t_watchDone (objs ts q)"
          "t_generation (objs ts' q) = t_generation (objs ts q)" for q
        using o s1 by (cases "q = p", auto)+
      have unlocked: "\<not> holds p x" if "x \<in> set work" for x using holds_locked(1) [OF w(1) that] assms(3) by blast
      show "work_fits ts' x" if "x \<in> set (remove1 (WRemove p keep) work)" for x
        using work_okD(2) [OF w(1) sub [OF that]] unlocked [OF sub [OF that]] by (cases x) (auto simp: inter o(2))
      have "locked q ts' = locked q ts" for q by (simp add: locked_def inter)
      then show "count_where (holds q) (remove1 (WRemove p keep) work) = (if q < next_obj ts' \<and> locked q ts' then 1 else 0)" for q
        using remove1_holds [OF assms(1,2), of q] by (simp add: r)
      have wq: "count_where (watches q) (remove1 (WRemove p keep) work) = count_where (watches q) work" for q
        using count_where_remove1 [OF assms(2), of "watches q"] by simp
      show "count_where (watches q) (remove1 (WRemove p keep) work) \<le> 1" for q unfolding wq by (rule work_okD(4) [OF w(1)])
      show "q < next_obj ts' \<and> t_watchDone (objs ts' q) = Some False"
        if "count_where (watches q) (remove1 (WRemove p keep) work) = 1" for q
        using that work_okD(5) [OF w(1), of q] unfolding wq by (simp add: r inter)
    qed
    ultimately have "ts_inv (ts', remove1 (WRemove p keep) work)" by (simp add: ts_inv_def)
    moreover have "t_interactive (objs ts' p) = t_interactive (objs ts p)" "p < next_obj ts'" using o s1(5) p r by simp_all
    ultimately show ?thesis using run by blast
  qed
qed


section \<open>Every section\<close>

text \<open>The work a first section leaves behind without touching the registry.\<close>

definition fresh_work :: "TerminalSessions \<Rightarrow> ts_work list \<Rightarrow> bool" where
  "fresh_work ts ws \<longleftrightarrow> plain ws \<and> (\<forall>x \<in> set ws. (\<forall>p \<in> set (work_ptrs x). p < next_obj ts) \<and> work_fits ts x)"

lemma fresh_call:
  assumes "reg_ok ts"
  shows "fresh_work ts (endSession node session code msg forced ts)" "fresh_work ts (EndByUser user code msg ts)"
    "fresh_work ts (EndBySession sid code msg ts)" "fresh_work ts (Terminal_Remove node session ts)"
    "fresh_work ts (RemoveUnattachedWithClose node session ts)" "fresh_work ts (prepareEndAll node code msg ts)"
    "fresh_work ts (SendInteractive node session open_request ts)" "fresh_work ts (CloseInteractive node session ts)"
    "fresh_work ts (EndStaleCredentials user ts)" "fresh_work ts (observeInteractivePolicy ts)"
  using captured_ok [OF assms] find_terminal_ok(1) [OF assms]
  by (auto simp: fresh_work_def plain_def endSession_def end_work_def sweep_work_def EndByUser_def EndBySession_def Terminal_Remove_def
      RemoveUnattachedWithClose_def prepareEndAll_def SendInteractive_def CloseInteractive_def EndStaleCredentials_def
      observeInteractivePolicy_def split: option.split)

lemma end_close_evolves:
  assumes "reg_ok ts" "p < next_obj ts" "\<not> locked p ts" "t_interactive (objs ts p) \<noteq> None"
  shows "\<exists>ws ts'. endInteractiveAndClose p code msg always ts = Some (ws, ts') \<and> ts_evolves ts ts' \<and> set ws \<subseteq> {WClose p} \<and>
    t_interactive (objs ts' p) \<noteq> None"
proof -
  obtain ended ts' where e: "end_if_current p code msg True ts = Some (ended, ts')" "ts_evolves ts ts'"
    using end_if_current_evolves [OF assms(1,2), of True code msg] assms(3) by auto
  moreover from e(2) assms(4) have "t_interactive (objs ts' p) \<noteq> None" by (simp add: ts_evolves_def)
  ultimately show ?thesis by (auto simp: endInteractiveAndClose_def)
qed

lemma send_total:
  assumes "t_interactive (objs ts p) \<noteq> None"
  shows "send_lock p o1 ans ts \<noteq> None" "send_check p o1 ans ts \<noteq> None" "send_commit p o1 ans ts \<noteq> None"
  using assms by (auto simp: send_lock_def send_check_def send_commit_def unlock_failed_def)

lemma run_work_ok:
  assumes inv: "ts_inv (ts, work)" and w: "w \<in> set work" and rdy: "ready w ts"
  shows "\<exists>ws ts'. run_work ans w ts = Some (ws, ts') \<and> ts_inv (ts', ws @ remove1 w work)"
proof -
  have ok: "reg_ok ts" "work_ok (ts, work)" using inv by (simp_all add: ts_inv_def)
  note ptr = work_okD(1) [OF ok(2) w] and fits = work_okD(2) [OF ok(2) w]
  have plain: ?thesis
    if "run_work ans w ts = Some (ws, ts')" "ts_evolves ts ts'" "plain ws" "\<And>q. \<not> holds q w"
      "\<And>x. x \<in> set ws \<Longrightarrow> (\<forall>p \<in> set (work_ptrs x). p < next_obj ts) \<and> work_fits ts' x" for ws ts'
    using that(1) inv_plain_work [OF inv w that(2,3,4,5)] by blast
  have watch: ?thesis
    if "run_work ans w ts = Some ([x], ts')" "ts_evolves ts ts'" "\<And>q. \<not> holds q w" "\<And>q. \<not> holds q x"
      "\<And>q. watches q x \<Longrightarrow> watches q w" "\<And>p. p \<in> set (work_ptrs x) \<Longrightarrow> p < next_obj ts" "work_fits ts' x" for x ts'
    using that(1) inv_watch [OF inv w that(2,3), of "[x]"] that(4-7) by auto
  show ?thesis
  proof (cases w)
    case (WEnd p code msg forced)
    have "forced \<longrightarrow> \<not> locked p ts" using fits WEnd by (auto simp: locked_def)
    then obtain e ts' where "end_if_current p code msg forced ts = Some (e, ts')" "ts_evolves ts ts'"
      using end_if_current_evolves [OF ok(1) ptr, of p forced code msg] WEnd by auto
    then show ?thesis by (intro plain [of "[]" ts']) (auto simp: WEnd plain_def)
  next
    case (WExact p code msg always)
    then obtain ws ts' where "endInteractiveAndClose p code msg always ts = Some (ws, ts')" "ts_evolves ts ts'"
        "set ws \<subseteq> {WClose p}" "t_interactive (objs ts' p) \<noteq> None"
      using end_close_evolves [OF ok(1) ptr, of p code msg always] rdy fits by auto
    then show ?thesis by (intro plain [of ws ts']) (use ptr in \<open>auto simp: WExact plain_def\<close>)
  next
    case (WLookup node session code msg)
    then show ?thesis
      by (intro plain [of "endSession node session code msg True ts" ts]) (use fresh_call(1) [OF ok(1)] in \<open>auto simp: fresh_work_def\<close>)
  next
    case (WRemove p keep)
    then obtain r ts' where r: "remove_if_current p keep ts = Some (r, ts')" "ts_inv (ts', remove1 w work)"
        "t_interactive (objs ts' p) = t_interactive (objs ts p)" "p < next_obj ts'"
      using remove_inv [of ts work p keep] inv w rdy by auto
    let ?ws = "if snd r \<and> keep \<and> t_interactive (objs ts p) \<noteq> None then [WClose p] else []"
    have "ts_inv (ts', ?ws @ remove1 w work)"
      by (rule inv_plain_call [OF r(2)]) (use r(3,4) in \<open>auto simp: plain_def split: if_splits\<close>)
    then show ?thesis using r(1) by (auto simp: WRemove run_remove_def split: prod.splits)
  next
    case (WEndAll ps code msg)
    then obtain ts' where "end_captured ps code msg ts = Some ((), ts')" "ts_evolves ts ts'"
      using end_captured_evolves [OF ok(1), of ps code msg] ptr by auto
    then show ?thesis by (intro plain [of "[]" ts']) (auto simp: WEndAll plain_def)
  next
    case (WSend p o1)
    moreover from this obtain ws ts' where "send_lock p o1 ans ts = Some (ws, ts')"
      using send_total(1) [of ts p o1 ans] fits \<open>w = _\<close> by (auto split: option.splits)
    ultimately show ?thesis using send_lock_inv [of ts work p o1 ans ws ts'] inv w rdy by auto
  next
    case (WSendLocked p o1)
    moreover from this obtain ws ts' where "send_check p o1 ans ts = Some (ws, ts')"
      using send_total(2) [of ts p o1 ans] fits \<open>w = _\<close> by (auto split: option.splits)
    ultimately show ?thesis using send_check_inv [of ts work p o1 ans ws ts'] inv w by auto
  next
    case (WSendChecked p o1)
    moreover from this obtain ws ts' where "send_commit p o1 ans ts = Some (ws, ts')"
      using send_total(3) [of ts p o1 ans] fits \<open>w = _\<close> by (auto split: option.splits)
    ultimately show ?thesis using send_commit_inv [of ts work p o1 ans ws ts'] inv w by auto
  next
    case (WCheck p)
    then have "credentialLive p ans ts \<noteq> None" using fits by (auto simp: credentialLive_def)
    then obtain live where "credentialLive p ans ts = Some live" by blast
    with WCheck show ?thesis
      by (intro plain [of "if live then [] else [WStale p False]" ts])
        (use ptr in \<open>auto simp: plain_def check_credential_def split: if_splits\<close>)
  next
    case (WStale p watching)
    then obtain ts' where ts': "endStaleCredential p ts = Some ((), ts')" "ts_evolves ts ts'"
      using stale_evolves [OF ok(1) ptr, of p] rdy by auto
    show ?thesis
    proof (cases watching)
      case True
      moreover have "t_interactive (objs ts' p) \<noteq> None" using True fits WStale ts'(2) by (simp add: ts_evolves_def)
      ultimately show ?thesis using ts' WStale ptr by (intro watch [of "WUnwatch p" ts']) auto
    next
      case False
      with ts' WStale show ?thesis by (intro plain [of "[]" ts']) (auto simp: plain_def)
    qed
  next
    case (WPolicy p)
    let ?msg = "''Security policy or terminal authorization changed.''"
    obtain ws ts' where e: "endInteractiveAndClose p 1 ?msg False ts = Some (ws, ts')"
        "ts_evolves ts ts'" "set ws \<subseteq> {WClose p}" "t_interactive (objs ts' p) \<noteq> None"
      using end_close_evolves [OF ok(1) ptr, of p 1 ?msg False] rdy fits WPolicy by auto
    show ?thesis
    proof (cases "an_valid ans = Some (t_executionUser (objs ts p))")
      case True
      with WPolicy fits show ?thesis by (intro plain [of "[]" ts]) (auto simp: plain_def policy_visit_def)
    next
      case False
      with WPolicy e ptr fits show ?thesis by (intro plain [of ws ts']) (auto simp: plain_def policy_visit_def)
    qed
  next
    case (WWatch p)
    then have "credentialLive p ans ts \<noteq> None" "t_interactive (objs ts p) \<noteq> None" using fits by (auto simp: credentialLive_def)
    then obtain x where x: "run_work ans w ts = Some ([x], ts)" "x = WUnwatch p \<or> x = WWatch p \<or> x = WStale p True"
      using WWatch by (cases "an_event ans") (fastforce simp: watchCredential_def check_credential_def split: if_splits)+
    show ?thesis by (rule watch [OF x(1)]) (use WWatch ptr fits x(2) in auto)
  next
    case (WUnwatch p)
    then show ?thesis using ptr fits
      by (intro watch [of "if t_revoked (objs ts p) then WCloseSlot p else WSlot p" ts]) (auto simp: watch_exit_def split: if_splits)
  next
    case (WCloseSlot p)
    then show ?thesis using terminal_close_inv [of ts work w p "[WSlot p]"] inv w by auto
  next
    case (WSlot p)
    then show ?thesis using end_watch_inv [of ts work p] inv w by auto
  next
    case (WClose p)
    then show ?thesis using terminal_close_inv [of ts work w p "[]"] inv w by auto
  qed
qed


lemma register_call:
  assumes "ts_inv (ts, work)" "ro_interactive opts = None"
  shows "\<exists>r ts'. Terminal_Register node session user runAs opts now ts = Some (r, ts') \<and> ts_inv (ts', work)"
proof -
  obtain r ts' where r: "Terminal_Register node session user runAs opts now ts = Some (r, ts')"
    by (cases "Terminal_Register node session user runAs opts now ts")
      (auto simp: Terminal_Register_def Let_def split: if_splits)
  from register_inv [OF assms(1) this, of "[]"] assms(2) r show ?thesis by auto
qed

lemma register_interactive_call:
  assumes "ts_inv (ts, work)"
  shows "\<exists>ws ts'. RegisterInteractive cm valid node session user opts now ts = Some (ws, ts') \<and> ts_inv (ts', ws @ work)"
proof (cases "valid = None \<or> GetConn cm node = None")
  case True
  with assms show ?thesis by (auto simp: RegisterInteractive_def split: option.split)
next
  case False
  then obtain runAs c where v: "valid = Some runAs" "GetConn cm node = Some c" by auto
  let ?opts = "opts\<lparr>ro_interactive := Some \<lparr>ia_conn = c, ia_executionUser = runAs, ia_admitted = False, ia_closed = False, ia_locked = False\<rparr>\<rparr>"
  obtain r ts' where r: "Terminal_Register node session user runAs ?opts now ts = Some (r, ts')"
    by (cases "Terminal_Register node session user runAs ?opts now ts")
      (auto simp: Terminal_Register_def Let_def split: if_splits)
  let ?ws = "case r of None \<Rightarrow> [] | Some p \<Rightarrow> if watched opts then [WWatch p] else []"
  have "ts_inv (ts', ?ws @ work)"
    by (rule register_inv [OF assms r]) (auto simp: watched_def split: option.split)
  moreover have "RegisterInteractive cm valid node session user opts now ts = Some (?ws, ts')"
    using r v by (simp add: RegisterInteractive_def split: option.split)
  ultimately show ?thesis by blast
qed

lemma maintenance_inv: "ts_inv (ts, work) \<Longrightarrow> ts_inv (ts\<lparr>tmaintenance := f\<rparr>, work)"
proof -
  let ?ts = "ts\<lparr>tmaintenance := f\<rparr>"
  assume inv: "ts_inv (ts, work)"
  have "registered ?ts = registered ts" "watching ?ts = watching ts" "locked p ?ts = locked p ts" for p
    by (auto simp: registered_def watching_def locked_def)
  moreover have "work_fits ?ts w = work_fits ts w" for w by (cases w) simp_all
  ultimately show "ts_inv (?ts, work)"
    using inv by (simp add: ts_inv_def reg_ok_def cap_ok_def watch_ok_def work_ok_def)
qed

lemma lift_call_ok:
  assumes "ts_inv (ts, work)" "\<exists>r ts'. x = Some (r, ts') \<and> ts_evolves ts ts'"
  shows "\<exists>ws ts'. lift_op x = Some (ws, ts') \<and> ts_inv (ts', ws @ work)"
  using assms inv_plain_call [OF assms(1), of _ "[]"] by (auto simp: lift_op_def plain_def)

lemma run_call_ok:
  assumes inv: "ts_inv (ts, work)" and rd: "\<And>p. c = CRead p \<Longrightarrow> p < next_obj ts"
  shows "\<exists>ws ts'. run_call c ts = Some (ws, ts') \<and> ts_inv (ts', ws @ work)"
proof -
  have ok: "reg_ok ts" using inv by (simp_all add: ts_inv_def)
  have plain: ?thesis
    if "run_call c ts = Some (ws, ts')" "ts_evolves ts ts'" "plain ws"
      "\<And>x. x \<in> set ws \<Longrightarrow> (\<forall>p \<in> set (work_ptrs x). p < next_obj ts) \<and> work_fits ts' x" for ws ts'
    using that(1) inv_plain_call [OF inv that(2,3,4)] by blast
  note found = find_terminal_ok [OF ok]
  have read: ?thesis if "run_call c ts = Some (ws, ts)" "fresh_work ts ws" for ws
    using plain [OF that(1) ts_evolves_refl] that(2) by (simp add: fresh_work_def)
  show ?thesis
  proof (cases c)
    case (CRegister node session user runAs opts now)
    then show ?thesis using register_call [OF inv, of "opts\<lparr>ro_interactive := None\<rparr>" node session user runAs now]
      by (auto simp: lift_op_def)
  next
    case (CRegisterInteractive cm valid node session user opts now)
    then show ?thesis using register_interactive_call [OF inv] by simp
  next
    case (CReserve node i)
    then show ?thesis using inv maintenance_inv [OF inv] by (auto simp: lift_op_def Terminal_ReserveMaintenance_def)
  next
    case (CSetMaintenance node i)
    then show ?thesis using maintenance_inv [OF inv] by (simp add: lift_op_def Terminal_SetMaintenance_def)
  next
    case (CRelease node i)
    then show ?thesis using inv maintenance_inv [OF inv] by (simp add: lift_op_def Terminal_ReleaseMaintenance_def)
  next
    case (CAttach node session user)
    have "\<exists>r ts'. AttachStream node session user ts = Some (r, ts') \<and> ts_evolves ts ts'"
      by (auto simp: AttachStream_def evolves_def obj_ok_def intro!: ts_evolves_obj split: option.split)
    from lift_call_ok [OF inv this] CAttach show ?thesis by simp
  next
    case (CDeliver node session data now)
    have "\<exists>r ts'. DeliverData node session data now ts = Some (r, ts') \<and> ts_evolves ts ts'"
      using found(2) deliver_evolves by (auto simp: DeliverData_def split: option.split)
    from lift_call_ok [OF inv this] CDeliver show ?thesis by simp
  next
    case (CDeliverFrom con node session data now)
    have "\<exists>r ts'. DeliverDataFrom con node session data now ts = Some (r, ts') \<and> ts_evolves ts ts'"
      using found(2) deliver_evolves by (auto simp: DeliverDataFrom_def from_connection_def split: option.split)
    from lift_call_ok [OF inv this] CDeliverFrom show ?thesis by simp
  next
    case (CEndFrom con node session code msg)
    have "\<exists>r ts'. EndFrom con node session code msg ts = Some (r, ts') \<and> ts_evolves ts ts'"
      using found(1) endLocked_evolves [OF ok, of _ False code msg] by (auto simp: EndFrom_def split: option.split)
    from lift_call_ok [OF inv this] CEndFrom show ?thesis by simp
  next
    case (CRead p)
    let ?s = "(objs ts p)\<lparr>t_ch := tl (t_ch (objs ts p))\<rparr>"
    have "ts_evolves ts (set_obj p ?s ts)" by (rule ts_evolves_obj) (auto simp: evolves_def obj_ok_def)
    with CRead show ?thesis by (intro plain [of "[]"]) (auto simp: plain_def)
  qed (rule read, simp, rule fresh_call [OF ok])+
qed


section \<open>Reachable states\<close>

lemma registered_new [simp]: "registered NewTerminalSessions = []" "registry NewTerminalSessions = []"
  "next_obj NewTerminalSessions = 0" "watchers NewTerminalSessions = 0" "sent NewTerminalSessions = []"
  by (simp_all add: registered_def NewTerminalSessions_def)

lemma init_inv: "ts_inv (NewTerminalSessions, [])"
  by (simp add: ts_inv_def reg_ok_def cap_ok_def watch_ok_def work_ok_def)

lemma step_inv: "ts_step \<sigma> \<sigma>' \<Longrightarrow> ts_inv \<sigma> \<Longrightarrow> ts_inv \<sigma>'"
proof (induction rule: ts_step.induct)
  case (call c ts ws ts' work)
  then show ?case using run_call_ok [of ts work c] by auto
next
  case (work w work ts ans ws ts')
  then show ?case using run_work_ok [of ts work w ans] by auto
qed

lemma terminal_reachable_inv:
  assumes "ts_reachable \<sigma>" shows "ts_inv \<sigma>"
  using assms unfolding ts_reachable_def by (induction rule: rtranclp_induct) (auto intro: init_inv step_inv)

lemma reach_call:
  "ts_reachable (ts, work) \<Longrightarrow> run_call c ts = Some (ws, ts') \<Longrightarrow> (\<And>p. c = CRead p \<Longrightarrow> p < next_obj ts) \<Longrightarrow>
   ts_reachable (ts', ws @ work)"
  unfolding ts_reachable_def by (rule rtranclp.rtrancl_into_rtrancl) (auto intro: ts_step.call)

lemma reach_work:
  "ts_reachable (ts, work) \<Longrightarrow> w \<in> set work \<Longrightarrow> ready w ts \<Longrightarrow> run_work ans w ts = Some (ws, ts') \<Longrightarrow>
   ts_reachable (ts', ws @ remove1 w work)"
  unfolding ts_reachable_def by (rule rtranclp.rtrancl_into_rtrancl) (auto intro: ts_step.work)

lemma reach_new: "ts_reachable (NewTerminalSessions, [])" by (simp add: ts_reachable_def)

text \<open>Whoever holds \<open>controlMu\<close> can go on, so whoever waits for it is not stuck.\<close>

lemma some_work_ready:
  assumes "ts_inv (ts, work)" "work \<noteq> []" shows "\<exists>w \<in> set work. ready w ts"
proof (rule ccontr)
  assume none: "\<not> ?thesis"
  obtain w where w: "w \<in> set work" using assms(2) by (cases work) auto
  with none have "\<not> ready w ts" by blast
  then obtain p where p: "locked p ts" "p \<in> set (work_ptrs w)" by (cases w) auto
  then have "count_where (holds p) work = 1"
    using assms(1) work_okD(1,3) [of ts work] w by (auto simp: ts_inv_def)
  then have "\<exists>x \<in> set work. holds p x" using count_where_0 [of work "holds p"] by fastforce
  then obtain x where "x \<in> set work" "holds p x" by blast
  moreover from this(2) have "ready x ts" by (cases x) auto
  ultimately show False using none by blast
qed

section \<open>Revocation\<close>

text \<open>What every section does to the registrations there are: it undoes no revocation and no close and
  moves none to another node; and a new one is on a node that is not under maintenance. Every section
  but the commit of a send also leaves the log of messages.\<close>

definition keeps_exit :: "TerminalSessions \<Rightarrow> TerminalSessions \<Rightarrow> bool" where
  "keeps_exit ts ts' \<longleftrightarrow> next_obj ts \<le> next_obj ts' \<and>
     (\<forall>p < next_obj ts. (t_exit (objs ts p) \<noteq> None \<longrightarrow> t_exit (objs ts' p) \<noteq> None) \<and>
        (t_closed (objs ts p) \<longrightarrow> t_closed (objs ts' p)) \<and> t_serverID (objs ts' p) = t_serverID (objs ts p)) \<and>
     (\<forall>p. next_obj ts \<le> p \<and> p < next_obj ts' \<longrightarrow> tmaintenance ts (t_serverID (objs ts' p)) = [])"

definition quiet :: "TerminalSessions \<Rightarrow> TerminalSessions \<Rightarrow> bool" where
  "quiet ts ts' \<longleftrightarrow> keeps_exit ts ts' \<and> sent ts' = sent ts"

lemma terminal_quiet_refl [simp]: "quiet ts ts" by (auto simp: quiet_def keeps_exit_def)

lemma quiet_trans: "quiet ts ts' \<Longrightarrow> quiet ts' ts'' \<Longrightarrow> next_obj ts' = next_obj ts \<Longrightarrow> tmaintenance ts' = tmaintenance ts \<Longrightarrow> quiet ts ts''"
  unfolding quiet_def keeps_exit_def by auto

lemma quiet_obj:
  "(t_exit (objs ts p) \<noteq> None \<Longrightarrow> t_exit s \<noteq> None) \<Longrightarrow> (t_closed (objs ts p) \<Longrightarrow> t_closed s) \<Longrightarrow>
   t_serverID s = t_serverID (objs ts p) \<Longrightarrow> quiet ts (set_obj p s ts)"
  by (auto simp: quiet_def keeps_exit_def set_obj_def)

lemma quiet_admission: "quiet ts (set_admission p f ts)"
  unfolding set_admission_def by (rule quiet_obj) simp_all

lemma stop_watch_exit:
  "stopCredentialWatchLocked s = Some s1 \<Longrightarrow> t_exit s1 = t_exit s \<and> t_closed s1 = t_closed s \<and> t_serverID s1 = t_serverID s"
  by (auto simp: stopCredentialWatchLocked_def split: if_splits)

lemma quiet_endLocked:
  assumes "endLocked p code msg forced ts = Some (r, ts')" shows "quiet ts ts'"
proof -
  let ?s = "objs ts p" and ?e = "EventExit code msg forced"
  show ?thesis
  proof (cases "t_closed ?s \<and> (\<not> forced \<or> t_exit ?s \<noteq> None)")
    case True
    with assms show ?thesis by (auto simp: endLocked_def Let_def)
  next
    case False
    then obtain s1 where s1: "(if forced then map_option (revoke_output ?e) (stopCredentialWatchLocked ?s) else Some ?s) = Some s1"
        and ts': "ts' = set_obj p s1 ts \<or> (\<exists>s2. Option.bind (deliverExit ?e s1) close_terminal = Some s2 \<and> ts' = set_obj p s2 ts)"
      using assms by (auto simp: endLocked_def Let_def split: option.splits if_splits)
    have 1: "t_exit ?s \<noteq> None \<Longrightarrow> t_exit s1 \<noteq> None" "t_closed s1 = t_closed ?s" "t_serverID s1 = t_serverID ?s"
    proof -
      have "\<exists>s0. s1 = revoke_output ?e s0 \<and> t_closed s0 = t_closed ?s \<and> t_serverID s0 = t_serverID ?s" if forced
        using s1 that stop_watch_exit [of ?s] by auto
      then show "t_exit ?s \<noteq> None \<Longrightarrow> t_exit s1 \<noteq> None" "t_closed s1 = t_closed ?s" "t_serverID s1 = t_serverID ?s"
        using s1 by (cases forced, force simp: revoke_output_def, simp)+
    qed
    have 2: "t_exit s2 = t_exit s1 \<and> t_closed s2 \<and> t_serverID s2 = t_serverID s1"
      if "Option.bind (deliverExit ?e s1) close_terminal = Some s2" for s2
      using that by (auto simp: deliverExit_def close_terminal_def bind_eq_Some_conv split: if_splits)
    have "quiet ts (set_obj p s1 ts)" by (rule quiet_obj) (use 1 in simp_all)
    moreover have "quiet ts (set_obj p s2 ts)" if "Option.bind (deliverExit ?e s1) close_terminal = Some s2" for s2
      by (rule quiet_obj) (use 1 2 [OF that] in simp_all)
    ultimately show ?thesis using ts' by blast
  qed
qed

lemma endLocked_frame:
  "endLocked p code msg forced ts = Some (r, ts') \<Longrightarrow> next_obj ts' = next_obj ts \<and> tmaintenance ts' = tmaintenance ts"
  by (auto simp: endLocked_def Let_def set_obj_def split: option.splits if_splits)

lemma quiet_end_if_current: "end_if_current p code msg forced ts = Some (r, ts') \<Longrightarrow> quiet ts ts'"
  by (auto simp: end_if_current_def quiet_endLocked split: if_splits)

lemma quiet_end_captured: "end_captured ps code msg ts = Some (r, ts') \<Longrightarrow> quiet ts ts'"
  by (induction ps arbitrary: ts) (auto split: option.splits intro: quiet_trans quiet_endLocked dest: endLocked_frame)

lemma quiet_end_close: "endInteractiveAndClose p code msg always ts = Some (ws, ts') \<Longrightarrow> quiet ts ts'"
  by (auto simp: endInteractiveAndClose_def quiet_end_if_current split: option.splits if_splits)

lemma quiet_deliver: "deliverDataLocked p data now ts = Some (r, ts') \<Longrightarrow> quiet ts ts'"
  by (auto simp: deliverDataLocked_def Let_def split: if_splits intro!: quiet_obj)

lemma terminal_quiet_remove:
  assumes "remove_if_current p keep ts = Some (r, ts')" shows "quiet ts ts'"
proof -
  have "t_exit s1 \<noteq> None \<and> t_closed s1 \<and> t_serverID s1 = t_serverID s" if "removeLocked s = Some s1" for s s1
    using that by (auto simp: removeLocked_def revoke_output_def close_terminal_def Let_def split: if_splits)
  then have "quiet ts (set_obj p (s1\<lparr>t_removed := True\<rparr>) ts)" if "removeLocked (objs ts p) = Some s1" for s1
    using that by (intro quiet_obj) auto
  with assms show ?thesis
    by (auto simp: remove_if_current_def Let_def quiet_def keeps_exit_def split: if_splits option.splits)
qed

lemma quiet_stale:
  assumes "endStaleCredential p ts = Some (r, ts')" shows "quiet ts ts'"
proof -
  let ?ts = "set_obj p ((objs ts p)\<lparr>t_revoked := True\<rparr>) ts"
  have "quiet ts ?ts" by (rule quiet_obj) simp_all
  moreover have "next_obj ?ts = next_obj ts" "tmaintenance ?ts = tmaintenance ts" by (simp_all add: set_obj_def)
  ultimately show ?thesis using assms
    by (auto simp: endStaleCredential_def split: if_splits option.splits dest!: quiet_endLocked intro: quiet_trans)
qed

lemma quiet_register: "Terminal_Register node session user runAs opts now ts = Some (r, ts') \<Longrightarrow> quiet ts ts'"
  by (auto simp: Terminal_Register_def Let_def quiet_def keeps_exit_def new_terminal_def le_less_Suc_eq split: if_splits)

lemma quiet_end_watch: "end_watch p ts = Some (ws, ts') \<Longrightarrow> quiet ts ts'"
  by (auto simp: end_watch_def quiet_def keeps_exit_def set_obj_def split: if_splits)

lemma terminal_quiet_send:
  "send_lock p o1 ans ts = Some (ws, ts') \<Longrightarrow> quiet ts ts'" "send_check p o1 ans ts = Some (ws, ts') \<Longrightarrow> quiet ts ts'"
  by (auto simp: send_lock_def send_check_def unlock_failed_def quiet_admission split: option.splits if_splits)

lemma quiet_watch: "watchCredential p ans ts = Some (ws, ts') \<Longrightarrow> quiet ts ts'"
  by (auto simp: watchCredential_def check_credential_def split: watch_event.splits if_splits option.splits)

lemma quiet_check: "check_credential p by_watcher live ans ts = Some (ws, ts') \<Longrightarrow> quiet ts ts'"
  by (auto simp: check_credential_def split: option.splits)

lemma quiet_run_remove: "run_remove p keep ts = Some (ws, ts') \<Longrightarrow> quiet ts ts'"
  by (auto simp: run_remove_def terminal_quiet_remove split: option.splits)

lemma quiet_close: "close_agent p next ts = Some (ws, ts') \<Longrightarrow> quiet ts ts'" "watch_exit p ts = Some (ws, ts') \<Longrightarrow> quiet ts ts'"
  by (auto simp: close_agent_def watch_exit_def quiet_admission split: if_splits)

lemma quiet_policy: "policy_visit p ans ts = Some (ws, ts') \<Longrightarrow> quiet ts ts'"
  by (auto simp: policy_visit_def quiet_end_close split: if_splits)

lemmas quiet_sections = quiet_endLocked quiet_end_if_current quiet_end_captured quiet_end_close quiet_deliver
  terminal_quiet_remove quiet_stale quiet_register quiet_end_watch terminal_quiet_send quiet_watch quiet_policy
  quiet_check quiet_run_remove quiet_close


lemma quiet_maintenance: "quiet ts (ts\<lparr>tmaintenance := f\<rparr>)"
  by (auto simp: quiet_def keeps_exit_def)

lemma quiet_work:
  assumes "run_work ans w ts = Some (ws, ts')" "\<And>p o1. w \<noteq> WSendChecked p o1" shows "quiet ts ts'"
  using assms by (cases w) (auto simp: quiet_admission dest: quiet_sections)

lemma quiet_call:
  assumes "run_call c ts = Some (ws, ts')" shows "quiet ts ts'"
proof (cases c)
  case (CRegisterInteractive cm valid node session user opts now)
  then show ?thesis using assms by (auto simp: RegisterInteractive_def split: option.splits dest: quiet_register)
next
  case (CAttach node session user)
  then show ?thesis using assms
    by (auto simp: lift_op_def AttachStream_def split: option.splits if_splits intro!: quiet_obj)
next
  case (CRead p)
  then show ?thesis using assms by (auto intro!: quiet_obj)
next
  case (CDeliver node session data now)
  then show ?thesis using assms
    by (auto simp: lift_op_def DeliverData_def split: option.splits if_splits dest: quiet_deliver)
next
  case (CDeliverFrom con node session data now)
  then show ?thesis using assms
    by (auto simp: lift_op_def DeliverDataFrom_def split: option.splits if_splits dest: quiet_deliver)
next
  case (CEndFrom con node session code msg)
  then show ?thesis using assms
    by (auto simp: lift_op_def EndFrom_def split: option.splits if_splits dest: quiet_endLocked)
qed (use assms in \<open>auto simp: lift_op_def Terminal_ReserveMaintenance_def Terminal_SetMaintenance_def
      Terminal_ReleaseMaintenance_def quiet_maintenance split: if_splits dest: quiet_register\<close>)

text \<open>The log of messages grows by the commit of a checked send to a shell that is not revoked, on the
  connection the shell was admitted with.\<close>

lemma step_sends:
  assumes "ts_inv (ts, work)" "ts_step (ts, work) (ts', work')"
  shows "keeps_exit ts ts'" "sent ts' = sent ts \<or> (\<exists>p o1 a. sent ts' = sent ts @ [(p, ia_conn a, o1)] \<and> p < next_obj ts \<and>
     t_interactive (objs ts p) = Some a \<and> t_exit (objs ts p) = None \<and> (ia_admitted a \<or> o1))"
proof -
  have "keeps_exit ts ts' \<and> (sent ts' = sent ts \<or> (\<exists>p o1 a. sent ts' = sent ts @ [(p, ia_conn a, o1)] \<and> p < next_obj ts \<and>
     t_interactive (objs ts p) = Some a \<and> t_exit (objs ts p) = None \<and> (ia_admitted a \<or> o1)))"
    using assms(2)
  proof (cases rule: ts_step.cases)
    case (call c ws)
    then show ?thesis using quiet_call by (auto simp: quiet_def)
  next
    case (work w ans ws)
    show ?thesis
    proof (cases "\<exists>p o1. w = WSendChecked p o1")
      case False
      then show ?thesis using quiet_work [OF work(4)] by (auto simp: quiet_def)
    next
      case True
      then obtain p o1 where w: "w = WSendChecked p o1" by blast
      have fits: "work_fits ts w" "p < next_obj ts"
        using assms(1) work(2) w work_okD(1,2) [of ts work w] by (auto simp: ts_inv_def)
      then obtain a where a: "t_interactive (objs ts p) = Some a" "t_exit (objs ts p) = None" "ia_admitted a \<or> o1"
        using w by (auto split: option.splits)
      have q: "quiet ts (set_admission p f ts)" for f by (rule quiet_admission)
      have "keeps_exit ts (set_admission p f ts\<lparr>sent := l\<rparr>)" for f l
        using q [of f] by (simp add: quiet_def keeps_exit_def)
      with q work(4) w a fits show ?thesis
        by (auto simp: send_commit_def unlock_failed_def quiet_def split: if_splits)
    qed
  qed
  then show "keeps_exit ts ts'" "sent ts' = sent ts \<or> (\<exists>p o1 a. sent ts' = sent ts @ [(p, ia_conn a, o1)] \<and> p < next_obj ts \<and>
     t_interactive (objs ts p) = Some a \<and> t_exit (objs ts p) = None \<and> (ia_admitted a \<or> o1))" by blast+
qed

definition sent_to :: "nat \<Rightarrow> TerminalSessions \<Rightarrow> (nat \<times> nat \<times> bool) list" where
  "sent_to p ts = filter (\<lambda>(q, _). q = p) (sent ts)"

lemma revoked_run:
  assumes "ts_step\<^sup>*\<^sup>* \<sigma> \<sigma>'" "ts_inv \<sigma>" "p < next_obj (fst \<sigma>)" "t_exit (objs (fst \<sigma>) p) \<noteq> None"
  shows "ts_inv \<sigma>' \<and> p < next_obj (fst \<sigma>') \<and> t_exit (objs (fst \<sigma>') p) \<noteq> None \<and> sent_to p (fst \<sigma>') = sent_to p (fst \<sigma>)"
  using assms(1)
proof (induction rule: rtranclp_induct)
  case base
  then show ?case using assms by simp
next
  case (step \<tau> \<tau>')
  obtain ts work ts' work' where \<tau>: "\<tau> = (ts, work)" "\<tau>' = (ts', work')" by (cases \<tau>, cases \<tau>')
  have st: "ts_step (ts, work) (ts', work')" "ts_inv (ts, work)" "p < next_obj ts" "t_exit (objs ts p) \<noteq> None"
    using step \<tau> by simp_all
  moreover have "keeps_exit ts ts'" "sent_to p ts' = sent_to p ts"
    using step_sends [OF st(2,1)] st(4) by (auto simp: sent_to_def)
  ultimately show ?case using step.IH step_inv [OF st(1,2)] by (auto simp: \<tau> keeps_exit_def)
qed

section \<open>Maintenance\<close>

definition node_idle :: "string \<Rightarrow> TerminalSessions \<Rightarrow> bool" where
  "node_idle node ts \<longleftrightarrow> (\<forall>p < next_obj ts. \<not> live_on node (objs ts p))"

lemma idle_count: "ts_inv (ts, work) \<Longrightarrow> node_idle node ts \<Longrightarrow> count_where (live_on node) (registered ts) = 0"
  by (rule count_where_0) (auto simp: ts_inv_def reg_ok_def node_idle_def registered_def)

lemma idle_step:
  assumes "ts_step (ts, work) (ts', work')" "ts_inv (ts, work)" "node_idle node ts" "tmaintenance ts node \<noteq> []"
  shows "node_idle node ts'"
  unfolding node_idle_def
proof (intro allI impI)
  fix p assume "p < next_obj ts'"
  then show "\<not> live_on node (objs ts' p)"
    using step_sends(1) [OF assms(2,1)] assms(3,4)
    by (cases "p < next_obj ts") (auto simp: keeps_exit_def node_idle_def live_on_def)
qed

lemma reserved_idle:
  assumes "Terminal_ReserveMaintenance node i ts = Some (True, ts1)" "ts_inv (ts, work)"
  shows "node_idle node ts1"
proof -
  have ts1: "ts1 = ts\<lparr>tmaintenance := (tmaintenance ts)(node := i)\<rparr>"
      and none: "\<forall>s \<in> set (registered ts). t_serverID s = node \<longrightarrow> t_closed s"
    using assms(1) by (auto simp: Terminal_ReserveMaintenance_def split: if_splits)
  have "\<not> live_on node (objs ts p)" if "p < next_obj ts" for p
    using that none assms(2) by (fastforce simp: ts_inv_def reg_ok_def obj_ok_def registered_def live_on_def)
  then show ?thesis by (simp add: node_idle_def ts1)
qed

section \<open>Properties\<close>


text \<open>A shell that is registered and then ended by its user's account being locked.\<close>

definition demo_shell :: TerminalSessions where
  "demo_shell = NewTerminalSessions\<lparr>objs := (objs NewTerminalSessions)(0 := new_terminal ''n1'' ''s1'' ''u1'' ''root'' default_options 5),
     next_obj := 1, registry := [(''n1:s1'', 0)]\<rparr>"

lemma demo_reachable: "ts_reachable (demo_shell, [WLookup ''n1'' ''s1'' 1 ''locked''])"
proof -
  have "run_call (CRegister ''n1'' ''s1'' ''u1'' ''root'' default_options 5) NewTerminalSessions = Some ([], demo_shell)"
    by (simp add: Terminal_Register_def lift_op_def demo_shell_def NewTerminalSessions_def full_def registered_def
        watched_def default_options_def makeKey_def)
  from reach_call [OF reach_new this] have 1: "ts_reachable (demo_shell, [])" by simp
  have "run_call (CEndByUser ''u1'' 1 ''locked'') demo_shell = Some ([WLookup ''n1'' ''s1'' 1 ''locked''], demo_shell)"
    by (simp add: EndByUser_def captured_def sweep_work_def demo_shell_def new_terminal_def default_options_def)
  from reach_call [OF 1 this] show ?thesis by simp
qed

definition demo_answers :: ts_answers where
  "demo_answers = \<lparr>an_conn = Some 7, an_valid = Some ''root'', an_ok = True, an_live = False, an_event = Tick\<rparr>"


text \<open>The capacities of the shell registry hold in every reachable state: at most 256 live shells
  and 32 live executions on the hub, 8 live registrations on one node, 4 live executions of one user,
  and 256 credential watchers, a watcher counting until its last section ran even when its shell is
  long gone.\<close>

theorem terminal_capacity:
  assumes "ts_reachable (ts, work)"
  shows "count_where live_shell (registered ts) \<le> 256 \<and> count_where live_exec (registered ts) \<le> 32 \<and>
    count_where (live_on node) (registered ts) \<le> 8 \<and> count_where (live_exec_of user) (registered ts) \<le> 4 \<and>
    watchers ts \<le> 256 \<and> watchers ts = count_where (\<lambda>p. t_watchDone (objs ts p) = Some False) [0..<next_obj ts]"
  using terminal_reachable_inv [OF assms] unfolding ts_inv_def cap_ok_def watch_ok_def watching_def [abs_def] by simp

theorem terminal_capacity_witness:
  "count_where (live_on ''n1'') (registered demo_shell) \<le> 8 \<and> count_where (live_exec_of ''u1'') (registered demo_shell) \<le> 4"
  using terminal_capacity [OF demo_reachable, of "''n1''" "''u1''"] by simp


definition demo_ended :: TerminalSessions where
  "demo_ended = set_obj 0 ((objs demo_shell 0)\<lparr>t_exit := Some (EventExit 1 ''locked'' True),
     t_ch := [EventExit 1 ''locked'' True], t_chClosed := True, t_done := True, t_closed := True\<rparr>) demo_shell"

lemma demo_ends: "run_work demo_answers (WEnd 0 1 ''locked'' True) demo_shell = Some ([], demo_ended)"
  by (simp add: end_if_current_def current_def endLocked_def demo_shell_def key_of_def makeKey_def new_terminal_def
      default_options_def watched_def Let_def stopCredentialWatchLocked_def revoke_output_def deliverExit_def
      close_terminal_def channel_capacity_def demo_ended_def set_obj_def)


text \<open>A node under maintenance stays idle. When a reservation was granted (the node had no live
  registration), no interleaving of later sections, also of callers that began before, brings a live
  shell or execution onto the node as long as the reservation stands.\<close>

theorem maintenance_stays_idle:
  assumes "ts_reachable (ts, work)" "Terminal_ReserveMaintenance node i ts = Some (True, ts1)"
    and "(\<lambda>\<sigma> \<sigma>'. ts_step \<sigma> \<sigma>' \<and> tmaintenance (fst \<sigma>) node \<noteq> [])\<^sup>*\<^sup>* (ts1, work) (ts', work')"
  shows "count_where (live_on node) (registered ts') = 0"
proof -
  have inv: "ts_inv (ts1, work)"
    using run_call_ok [OF terminal_reachable_inv [OF assms(1)], of "CReserve node i"] assms(2) by (auto simp: lift_op_def)
  have "ts_inv \<sigma> \<and> node_idle node (fst \<sigma>)"
    if "(\<lambda>\<sigma> \<sigma>'. ts_step \<sigma> \<sigma>' \<and> tmaintenance (fst \<sigma>) node \<noteq> [])\<^sup>*\<^sup>* (ts1, work) \<sigma>" for \<sigma>
    using that
  proof (induction rule: rtranclp_induct)
    case base
    then show ?case using inv reserved_idle [OF assms(2) terminal_reachable_inv [OF assms(1)]] by simp
  next
    case (step \<sigma> \<sigma>')
    then have st: "ts_step \<sigma> \<sigma>'" "ts_inv \<sigma>" by simp_all
    show ?case using step step_inv [OF st] idle_step [of "fst \<sigma>" "snd \<sigma>" "fst \<sigma>'" "snd \<sigma>'" node] by auto
  qed
  from this [OF assms(3)] show ?thesis using idle_count [of ts' work' node] by simp
qed

theorem maintenance_stays_idle_witness:
  "count_where (live_on ''n2'') (registered (demo_shell\<lparr>tmaintenance := (\<lambda>_. [])(''n2'' := ''up'')\<rparr>)) = 0"
proof -
  have "Terminal_ReserveMaintenance ''n2'' ''up'' demo_shell =
      Some (True, demo_shell\<lparr>tmaintenance := (\<lambda>_. [])(''n2'' := ''up'')\<rparr>)"
    by (simp add: Terminal_ReserveMaintenance_def demo_shell_def registered_def new_terminal_def NewTerminalSessions_def)
  from maintenance_stays_idle [OF demo_reachable this] show ?thesis by blast
qed

lemma distinct_sort_key: "distinct (map f (sort_key f xs)) = distinct (map f xs)"
  by (simp add: distinct_map)

text \<open>C23. The list of a user's shells is exact: in every reachable state it is sorted by start and key,
  has no entry twice, and holds exactly the registered shells of that user that have not ended.\<close>

theorem ListByUser_exact:
  assumes "ts_reachable (ts, work)"
  shows "sorted (map info_order (ListByUser user ts)) \<and> distinct (map info_order (ListByUser user ts)) \<and>
    set (ListByUser user ts) = {infoOf (objs ts p) | p. p < next_obj ts \<and> \<not> t_closed (objs ts p) \<and> t_userID (objs ts p) = user}"
proof (intro conjI)
  have ok: "reg_ok ts" using terminal_reachable_inv [OF assms] by (simp add: ts_inv_def)
  let ?live = "filter (\<lambda>s. \<not> (t_closed s \<or> t_userID s \<noteq> user)) (registered ts)"
  show "sorted (map info_order (ListByUser user ts))" by (simp add: ListByUser_def)
  have "map key_of (registered ts) = map fst (registry ts)"
    using ok by (auto simp: registered_def reg_ok_def)
  then have "distinct (map key_of (registered ts))" using ok by (simp add: reg_ok_def)
  then have "distinct (map key_of ?live)" by (rule distinct_map_filter)
  moreover have "map key_of ?live = map snd (map info_order (map infoOf ?live))"
    by (simp add: info_order_def infoOf_def key_of_def)
  ultimately have "distinct (map snd (map info_order (map infoOf ?live)))" by (simp only:)
  then have "distinct (map info_order (map infoOf ?live))" by (metis distinct_map)
  then show "distinct (map info_order (ListByUser user ts))"
    unfolding ListByUser_def distinct_sort_key .
  show "set (ListByUser user ts) = {infoOf (objs ts p) | p. p < next_obj ts \<and> \<not> t_closed (objs ts p) \<and> t_userID (objs ts p) = user}"
    using ok by (fastforce simp: ListByUser_def registered_def reg_ok_def obj_ok_def)
qed

theorem ListByUser_exact_witness:
  "sorted (map info_order (ListByUser ''u1'' demo_shell)) \<and> distinct (map info_order (ListByUser ''u1'' demo_shell))"
  using ListByUser_exact [OF demo_reachable, of "''u1''"] by simp

end
