(* ===== verification/Terminal_Output.thy ===== *)
theory Terminal_Output
  imports Terminal_Sessions
begin

text \<open>
  The output gate of one shell (\<open>terminalOutput\<close> of \<open>hub/internal/grpcserver/terminalsessions.go\<close>):
  transports forward data, the hub revokes. Every call is a thread of its own; \<open>writeMu\<close> is held across
  sections, a section under \<open>stateMu\<close> is one step. \<open>revoke\<close> leaves \<open>stateMu\<close> before it waits for
  \<open>writeMu\<close>, and aborts a write that is under way.
\<close>

section \<open>Threads and state\<close>

text \<open>A forward waits for \<open>writeMu\<close> (\<open>FWait\<close>), checks under it (\<open>FHold\<close>), writes, clears \<open>writing\<close>,
  unlocks, and is done with its answer. A revoke stored the exit and saw a write and an abort function
  or not (\<open>RAbort\<close>), waits for \<open>writeMu\<close> (\<open>RWait\<close>), holds it, and
  returned (\<open>RDone\<close>).\<close>

datatype out_phase =
    Absent
  | FWait | FHold | FWrite | FClear bool | FUnlock bool | FDone bool
  | RBegin TerminalEvent | RAbort "nat option" bool | RWait "nat option" bool | RHold | RDone

record terminalOutput =
  o_writeMu :: "nat option"
  o_exit :: "TerminalEvent option"
  o_writing :: bool
  o_abort :: "nat option"
  o_phase :: "nat \<Rightarrow> out_phase"
  o_begun :: "nat list"
  o_aborted :: bool

definition to_phase :: "nat \<Rightarrow> out_phase \<Rightarrow> terminalOutput \<Rightarrow> terminalOutput" where
  "to_phase t ph o1 = o1\<lparr>o_phase := (o_phase o1)(t := ph)\<rparr>"

definition new_output :: terminalOutput where
  "new_output = \<lparr>o_writeMu = None, o_exit = None, o_writing = False, o_abort = None, o_phase = (\<lambda>_. Absent), o_begun = [], o_aborted = False\<rparr>"

section \<open>Sections\<close>

text \<open>\<open>forward\<close>: the check under \<open>stateMu\<close>, and the two deferred unlocks.\<close>

definition forward_check :: "nat \<Rightarrow> terminalOutput \<Rightarrow> terminalOutput" where
  "forward_check t o1 =
     (if o_exit o1 \<noteq> None then to_phase t (FUnlock False) o1
      else to_phase t FWrite (o1\<lparr>o_writing := True, o_begun := o_begun o1 @ [t]\<rparr>))"

definition forward_clear :: "nat \<Rightarrow> bool \<Rightarrow> terminalOutput \<Rightarrow> terminalOutput" where
  "forward_clear t ok o1 = to_phase t (FUnlock ok) (o1\<lparr>o_writing := False\<rparr>)"

definition forward_unlock :: "nat \<Rightarrow> bool \<Rightarrow> terminalOutput \<Rightarrow> terminalOutput" where
  "forward_unlock t ok o1 = to_phase t (FDone ok) (o1\<lparr>o_writeMu := None\<rparr>)"

definition lock_output :: "nat \<Rightarrow> out_phase \<Rightarrow> terminalOutput \<Rightarrow> terminalOutput" where
  "lock_output t ph o1 = to_phase t ph (o1\<lparr>o_writeMu := Some t\<rparr>)"

text \<open>\<open>revoke\<close>: store the exit, look at \<open>writing\<close> and \<open>abort\<close>; abort; wait.\<close>

definition revoke_store :: "nat \<Rightarrow> TerminalEvent \<Rightarrow> terminalOutput \<Rightarrow> terminalOutput" where
  "revoke_store t e o1 = to_phase t (RAbort (o_abort o1) (o_writing o1)) (o1\<lparr>o_exit := Some e\<rparr>)"

definition revoke_abort :: "nat \<Rightarrow> nat option \<Rightarrow> bool \<Rightarrow> terminalOutput \<Rightarrow> terminalOutput" where
  "revoke_abort t ab w o1 =
     to_phase t (RWait ab w) (if w \<and> ab \<noteq> None then o1\<lparr>o_aborted := True\<rparr> else o1)"

definition revoke_unlock :: "nat \<Rightarrow> terminalOutput \<Rightarrow> terminalOutput" where
  "revoke_unlock t o1 = to_phase t RDone (o1\<lparr>o_writeMu := None\<rparr>)"

definition SetOutputAbort :: "nat option \<Rightarrow> terminalOutput \<Rightarrow> terminalOutput" where
  "SetOutputAbort ab o1 = o1\<lparr>o_abort := ab\<rparr>"

definition ForcedExit :: "terminalOutput \<Rightarrow> TerminalEvent option" where
  "ForcedExit o1 = o_exit o1"

inductive out_step :: "terminalOutput \<Rightarrow> terminalOutput \<Rightarrow> bool" where
  call_forward: "o_phase o1 t = Absent \<Longrightarrow> out_step o1 (to_phase t FWait o1)"
| call_revoke: "o_phase o1 t = Absent \<Longrightarrow> out_step o1 (to_phase t (RBegin e) o1)"
| set_abort: "out_step o1 (SetOutputAbort ab o1)"
| lock_forward: "o_phase o1 t = FWait \<Longrightarrow> o_writeMu o1 = None \<Longrightarrow> out_step o1 (lock_output t FHold o1)"
| check_forward: "o_phase o1 t = FHold \<Longrightarrow> out_step o1 (forward_check t o1)"
| written: "o_phase o1 t = FWrite \<Longrightarrow> out_step o1 (to_phase t (FClear ok) o1)"
| clear: "o_phase o1 t = FClear ok \<Longrightarrow> out_step o1 (forward_clear t ok o1)"
| unlock_forward: "o_phase o1 t = FUnlock ok \<Longrightarrow> out_step o1 (forward_unlock t ok o1)"
| store: "o_phase o1 t = RBegin e \<Longrightarrow> out_step o1 (revoke_store t e o1)"
| abort: "o_phase o1 t = RAbort ab w \<Longrightarrow> out_step o1 (revoke_abort t ab w o1)"
| lock_revoke: "o_phase o1 t = RWait ab w \<Longrightarrow> o_writeMu o1 = None \<Longrightarrow> out_step o1 (lock_output t RHold o1)"
| unlock_revoke: "o_phase o1 t = RHold \<Longrightarrow> out_step o1 (revoke_unlock t o1)"

section \<open>Invariant\<close>

fun holds_write :: "out_phase \<Rightarrow> bool" where
  "holds_write FHold \<longleftrightarrow> True" | "holds_write FWrite \<longleftrightarrow> True" | "holds_write (FClear _) \<longleftrightarrow> True"
| "holds_write (FUnlock _) \<longleftrightarrow> True" | "holds_write RHold \<longleftrightarrow> True" | "holds_write _ \<longleftrightarrow> False"

fun stored :: "out_phase \<Rightarrow> bool" where
  "stored (RAbort _ _) \<longleftrightarrow> True" | "stored (RWait _ _) \<longleftrightarrow> True" | "stored RHold \<longleftrightarrow> True" | "stored RDone \<longleftrightarrow> True"
| "stored _ \<longleftrightarrow> False"

fun in_write :: "out_phase \<Rightarrow> bool" where
  "in_write FWrite \<longleftrightarrow> True" | "in_write (FClear _) \<longleftrightarrow> True" | "in_write _ \<longleftrightarrow> False"

text \<open>A revoke that saw no write, or got \<open>writeMu\<close>.\<close>

fun saw_none :: "out_phase \<Rightarrow> bool" where
  "saw_none (RAbort _ w) \<longleftrightarrow> \<not> w" | "saw_none (RWait _ w) \<longleftrightarrow> \<not> w" | "saw_none RHold \<longleftrightarrow> True" | "saw_none RDone \<longleftrightarrow> True"
| "saw_none _ \<longleftrightarrow> False"

fun must_abort :: "out_phase \<Rightarrow> bool" where
  "must_abort (RWait (Some _) True) \<longleftrightarrow> True" | "must_abort _ \<longleftrightarrow> False"

definition out_inv :: "terminalOutput \<Rightarrow> bool" where
  "out_inv o1 \<longleftrightarrow>
     (\<forall>t. holds_write (o_phase o1 t) \<longleftrightarrow> o_writeMu o1 = Some t) \<and>
     (o_writing o1 \<longleftrightarrow> (\<exists>t. in_write (o_phase o1 t))) \<and>
     (\<forall>t. stored (o_phase o1 t) \<longrightarrow> o_exit o1 \<noteq> None) \<and>
     (\<forall>r. saw_none (o_phase o1 r) \<longrightarrow> (\<forall>t. \<not> in_write (o_phase o1 t))) \<and>
     (\<forall>r. must_abort (o_phase o1 r) \<longrightarrow> o_aborted o1)"

lemma in_write_holds: "in_write ph \<Longrightarrow> holds_write ph" by (cases ph) auto
lemma saw_none_stored: "saw_none ph \<Longrightarrow> stored ph" by (cases ph) auto

text \<open>One thread moves: what the invariant asks of its old and new phase.\<close>

lemma out_inv_move:
  assumes "out_inv o1" "o_phase o2 = (o_phase o1)(t := ph)"
    and "o_writeMu o2 = (if holds_write ph then Some t else if o_writeMu o1 = Some t then None else o_writeMu o1)"
    and "holds_write ph \<Longrightarrow> o_writeMu o1 = None \<or> o_writeMu o1 = Some t"
    and "o_writing o2 = (if in_write ph then True else if in_write (o_phase o1 t) then False else o_writing o1)"
    and "o_exit o1 \<noteq> None \<Longrightarrow> o_exit o2 \<noteq> None" "stored ph \<Longrightarrow> o_exit o2 \<noteq> None"
    and "in_write ph \<Longrightarrow> in_write (o_phase o1 t) \<or> o_exit o1 = None"
    and "saw_none ph \<Longrightarrow> saw_none (o_phase o1 t) \<or> \<not> o_writing o1 \<or> holds_write ph"
    and "o_aborted o1 \<Longrightarrow> o_aborted o2" "must_abort ph \<Longrightarrow> o_aborted o2"
  shows "out_inv o2"
proof -
  have i: "\<And>q. holds_write (o_phase o1 q) \<longleftrightarrow> o_writeMu o1 = Some q" "o_writing o1 \<longleftrightarrow> (\<exists>q. in_write (o_phase o1 q))"
      "\<And>q. stored (o_phase o1 q) \<Longrightarrow> o_exit o1 \<noteq> None" "\<And>r q. saw_none (o_phase o1 r) \<Longrightarrow> \<not> in_write (o_phase o1 q)"
      "\<And>r. must_abort (o_phase o1 r) \<Longrightarrow> o_aborted o1"
    using assms(1) unfolding out_inv_def by blast+
  have p: "o_phase o2 t = ph" "q \<noteq> t \<Longrightarrow> o_phase o2 q = o_phase o1 q" for q using assms(2) by simp_all
  have unique: "q = r" if "in_write (o_phase o1 q)" "in_write (o_phase o1 r)" for q r
    using that in_write_holds i(1) by (metis option.inject)
  show ?thesis
    unfolding out_inv_def
  proof (intro conjI allI impI)
    show "holds_write (o_phase o2 q) \<longleftrightarrow> o_writeMu o2 = Some q" for q
      using i(1) [of q] i(1) [of t] assms(3,4) p by (cases "q = t") auto
    show "o_writing o2 \<longleftrightarrow> (\<exists>q. in_write (o_phase o2 q))"
    proof (cases "in_write ph \<or> in_write (o_phase o1 t)")
      case True
      then have "\<not> in_write (o_phase o2 q)" if "q \<noteq> t" "\<not> in_write ph" for q using that p unique by metis
      with True assms(5) p(1) show ?thesis by (metis p(2))
    next
      case False
      with assms(5) i(2) p show ?thesis by metis
    qed
    show "o_exit o2 \<noteq> None" if "stored (o_phase o2 q)" for q
      using that i(3) assms(6,7) p by (cases "q = t") auto
    show "o_aborted o2" if "must_abort (o_phase o2 q)" for q
      using that i(5) assms(10,11) p by (cases "q = t") auto
    show "\<not> in_write (o_phase o2 q)" if "saw_none (o_phase o2 r)" for r q
    proof
      assume w: "in_write (o_phase o2 q)"
      show False
      proof (cases "r = t")
        case True
        then have "q \<noteq> t" using that w p(1) by (cases ph) auto
        then have wq: "in_write (o_phase o1 q)" using w p(2) by simp
        then have "o_writeMu o1 = Some q" "o_writing o1" using i(1,2) in_write_holds by blast+
        then show False using assms(4,9) that True p(1) i(4) wq \<open>q \<noteq> t\<close> by auto
      next
        case False
        then have r: "saw_none (o_phase o1 r)" using that p(2) by simp
        then have "\<not> in_write (o_phase o1 q)" "o_exit o1 \<noteq> None" using i(3,4) saw_none_stored by blast+
        then show False using w p assms(8) i(4) [OF r] by (cases "q = t") auto
      qed
    qed
  qed
qed

lemma out_inv_new: "out_inv new_output"
  by (simp add: out_inv_def new_output_def)

lemma out_inv_step:
  assumes "out_step o1 o2" "out_inv o1" shows "out_inv o2"
proof -
  have w: "o_writing o1 \<longleftrightarrow> (\<exists>t. in_write (o_phase o1 t))" and h: "holds_write (o_phase o1 t) \<longleftrightarrow> o_writeMu o1 = Some t"
      and x: "stored (o_phase o1 t) \<Longrightarrow> o_exit o1 \<noteq> None" and m: "must_abort (o_phase o1 t) \<Longrightarrow> o_aborted o1" for t
    using assms(2) unfolding out_inv_def by blast+
  note defs = to_phase_def forward_check_def forward_clear_def forward_unlock_def lock_output_def revoke_store_def
    revoke_abort_def revoke_unlock_def
  from assms(1) show ?thesis
  proof cases
    case (set_abort ab)
    then show ?thesis using assms(2) by (simp add: SetOutputAbort_def out_inv_def)
  next
    case (call_forward t)
    then show ?thesis using h [of t] by (intro out_inv_move [OF assms(2), of o2 t FWait]) (auto simp: defs)
  next
    case (call_revoke t e)
    then show ?thesis using h [of t] by (intro out_inv_move [OF assms(2), of o2 t "RBegin e"]) (auto simp: defs)
  next
    case (lock_forward t)
    then show ?thesis by (intro out_inv_move [OF assms(2), of o2 t FHold]) (auto simp: defs)
  next
    case (check_forward t)
    then show ?thesis using h [of t]
      by (intro out_inv_move [OF assms(2), of o2 t "if o_exit o1 \<noteq> None then FUnlock False else FWrite"])
        (auto simp: defs split: if_splits)
  next
    case (written t ok)
    then have "o_writing o1" using w by (metis in_write.simps(1))
    then show ?thesis using written h [of t] by (intro out_inv_move [OF assms(2), of o2 t "FClear ok"]) (auto simp: defs)
  next
    case (clear t ok)
    then show ?thesis using h [of t] by (intro out_inv_move [OF assms(2), of o2 t "FUnlock ok"]) (auto simp: defs)
  next
    case (unlock_forward t ok)
    then show ?thesis using h [of t] by (intro out_inv_move [OF assms(2), of o2 t "FDone ok"]) (auto simp: defs)
  next
    case (store t e)
    then show ?thesis using h [of t] by (intro out_inv_move [OF assms(2), of o2 t "RAbort (o_abort o1) (o_writing o1)"]) (auto simp: defs)
  next
    case (abort t ab w)
    then show ?thesis using h [of t] x [of t]
      by (intro out_inv_move [OF assms(2), of o2 t "RWait ab w"]) (auto simp: defs split: option.splits)
  next
    case (lock_revoke t ab w)
    then show ?thesis using x [of t] by (intro out_inv_move [OF assms(2), of o2 t RHold]) (auto simp: defs)
  next
    case (unlock_revoke t)
    then show ?thesis using h [of t] x [of t] by (intro out_inv_move [OF assms(2), of o2 t RDone]) (auto simp: defs)
  qed
qed

definition out_reachable :: "terminalOutput \<Rightarrow> bool" where
  "out_reachable o1 \<longleftrightarrow> out_step\<^sup>*\<^sup>* new_output o1"

lemma out_reachable_inv: "out_reachable o1 \<Longrightarrow> out_inv o1"
  unfolding out_reachable_def by (induction rule: rtranclp_induct) (auto intro: out_inv_new out_inv_step)

text \<open>A revoke that returned stays that way, and no write begins once the exit is stored.\<close>

lemma exit_step:
  assumes "out_step o1 o2"
  shows "o_exit o1 \<noteq> None \<Longrightarrow> o_exit o2 \<noteq> None \<and> o_begun o2 = o_begun o1" "o_phase o1 t = RDone \<Longrightarrow> o_phase o2 t = RDone"
  using assms by (auto elim!: out_step.cases simp: to_phase_def forward_check_def forward_clear_def forward_unlock_def
      lock_output_def revoke_store_def revoke_abort_def revoke_unlock_def SetOutputAbort_def)

text \<open>C22. After a revocation returned, the transport of the shell is silent: no write is under way, and
  none begins in any later state, however many forwards and revocations interleave. While a revocation
  still waits, a write it waits for began before the revocation was stored and was aborted if the
  transport had installed an abort function.\<close>

theorem revoked_output_silent:
  assumes "out_reachable o1" "out_step\<^sup>*\<^sup>* o1 o2"
  shows "(o_phase o1 r = RDone \<longrightarrow> o_phase o2 t \<noteq> FWrite \<and> o_begun o2 = o_begun o1) \<and>
    (o_phase o1 r = RWait ab w \<and> o_phase o1 t = FWrite \<longrightarrow> w \<and> (ab \<noteq> None \<longrightarrow> o_aborted o1) \<and> o_begun o2 = o_begun o1)"
proof -
  have i1: "out_inv o1" by (rule out_reachable_inv [OF assms(1)])
  have later: "o_exit o2 \<noteq> None \<and> o_begun o2 = o_begun o1 \<and> (o_phase o1 r = RDone \<longrightarrow> o_phase o2 r = RDone)" if "o_exit o1 \<noteq> None"
    using assms(2) by (induction rule: rtranclp_induct) (use that exit_step in \<open>auto\<close>)
  have "out_reachable o2" using assms unfolding out_reachable_def by auto
  then have i2: "out_inv o2" by (rule out_reachable_inv)
  have "stored (o_phase o1 r) \<Longrightarrow> o_exit o1 \<noteq> None" using i1 unfolding out_inv_def by blast
  moreover have "saw_none (o_phase o2 r) \<Longrightarrow> \<not> in_write (o_phase o2 t)" "saw_none (o_phase o1 r) \<Longrightarrow> \<not> in_write (o_phase o1 t)"
      "must_abort (o_phase o1 r) \<Longrightarrow> o_aborted o1"
    using i1 i2 unfolding out_inv_def by blast+
  ultimately show ?thesis using later by (cases w) auto
qed

text \<open>A transport is writing when the account is locked: the write is aborted, then the revocation returns.\<close>

definition demo_revoked :: terminalOutput where
  "demo_revoked = \<lparr>o_writeMu = None, o_exit = Some (EventExit 1 ''locked'' True), o_writing = False, o_abort = Some 7,
     o_phase = (\<lambda>_. Absent)(0 := FDone False, 1 := RDone), o_begun = [0], o_aborted = True\<rparr>"

lemma demo_revoked_reachable: "out_reachable demo_revoked"
proof -
  note d = to_phase_def forward_check_def forward_clear_def forward_unlock_def lock_output_def revoke_store_def
    revoke_abort_def revoke_unlock_def SetOutputAbort_def new_output_def
  let ?e = "EventExit 1 ''locked'' True"
  let ?s = "SetOutputAbort (Some 7) new_output"
  let ?w = "forward_check 0 (lock_output 0 FHold (to_phase 0 FWait ?s))"
  let ?r = "revoke_abort 1 (Some 7) True (revoke_store 1 ?e (to_phase 1 (RBegin ?e) ?w))"
  let ?u = "forward_unlock 0 False (forward_clear 0 False (to_phase 0 (FClear False) ?r))"
  note go = rtranclp.rtrancl_into_rtrancl [where r = out_step and a = new_output]
  have "out_step\<^sup>*\<^sup>* new_output ?s" by (rule go [OF rtranclp.rtrancl_refl set_abort])
  then have "out_step\<^sup>*\<^sup>* new_output (to_phase 0 FWait ?s)" by (rule go) (rule call_forward, simp add: d)
  then have "out_step\<^sup>*\<^sup>* new_output (lock_output 0 FHold (to_phase 0 FWait ?s))" by (rule go) (rule lock_forward, simp_all add: d)
  then have "out_step\<^sup>*\<^sup>* new_output ?w" by (rule go) (rule check_forward, simp add: d)
  then have "out_step\<^sup>*\<^sup>* new_output (to_phase 1 (RBegin ?e) ?w)" by (rule go) (rule call_revoke, simp add: d)
  then have "out_step\<^sup>*\<^sup>* new_output (revoke_store 1 ?e (to_phase 1 (RBegin ?e) ?w))" by (rule go) (rule store, simp add: d)
  then have "out_step\<^sup>*\<^sup>* new_output ?r" by (rule go) (rule abort, simp add: d)
  then have "out_step\<^sup>*\<^sup>* new_output (to_phase 0 (FClear False) ?r)" by (rule go) (rule written, simp add: d)
  then have "out_step\<^sup>*\<^sup>* new_output (forward_clear 0 False (to_phase 0 (FClear False) ?r))" by (rule go) (rule clear, simp add: d)
  then have "out_step\<^sup>*\<^sup>* new_output ?u" by (rule go) (rule unlock_forward, simp add: d)
  then have "out_step\<^sup>*\<^sup>* new_output (lock_output 1 RHold ?u)"
    by (rule go) (rule lock_revoke [of _ _ "Some 7" True], simp_all add: d)
  then have "out_step\<^sup>*\<^sup>* new_output (revoke_unlock 1 (lock_output 1 RHold ?u))" by (rule go) (rule unlock_revoke, simp add: d)
  moreover have "revoke_unlock 1 (lock_output 1 RHold ?u) = demo_revoked"
    by (simp add: d demo_revoked_def fun_eq_iff)
  ultimately show ?thesis by (simp add: out_reachable_def)
qed

theorem revoked_output_silent_witness: "o_phase demo_revoked 0 \<noteq> FWrite \<and> o_begun demo_revoked = [0]"
  using revoked_output_silent [OF demo_revoked_reachable rtranclp.rtrancl_refl, of 1 0] by (simp add: demo_revoked_def)

end
