(* ===== verification/Execution_Sessions.thy ===== *)
theory Execution_Sessions
  imports Terminal_Sessions Exec_Run
begin

text \<open>
  The hub's side of an execution (\<open>hub/internal/grpcserver/exec_sessions.go\<close>, \<open>exec_stream.go\<close>): the
  registry of sessions, the preparation an agent reports, the one-use attachment, the dispatch, and the
  stream to the agent with its one sender and one receiver. A session is an object in a heap, as in the
  shell registry it shares capacity with. A section under \<open>es.mu\<close> or \<open>s.mu\<close> is one function; \<open>None\<close> is
  a panic or a send that would block for ever while a lock is held. The protobuf messages are the ones
  the agent's model uses. The connection registry, the clocks, the stream's outcomes and which case of a
  \<open>select\<close> fired are parameters of each section.
\<close>

section \<open>Sessions\<close>

definition MaxExecutionCommandBytes :: nat where "MaxExecutionCommandBytes = 32 * 1024"
definition MaxExecutionFrameBytes :: nat where "MaxExecutionFrameBytes = 64 * 1024"
definition ExecutionAttachTimeout :: duration where "ExecutionAttachTimeout = 60 * second"
definition executionPreparationClockSkew :: duration where "executionPreparationClockSkew = 5 * second"
definition executionQueueFrames :: nat where "executionQueueFrames = 8"

definition DefaultExecutionLimits :: ExecutionLimits where
  "DefaultExecutionLimits = \<lparr>xl_max_frame = 65536, xl_max_buffer = 2097152, xl_runtime = 3600, xl_term_grace = 5, xl_blocked = 60\<rparr>"

record ExecutionCapabilities =
  xc_protocol :: "32 word"
  xc_standard :: bool
  xc_boot :: string
  xc_protected :: bool

record ExecutionAttachRequest =
  xa_binding :: "ExecutionBinding option"
  xa_ticket :: string

text \<open>The start message with, present or not, the protected script's source and the check before the
  start.\<close>

record executionDispatch =
  xd_start :: ExecutionStart
  xd_script :: bool
  xd_before :: bool

text \<open>What the hub sends on the stream.\<close>

datatype hub_frame =
    HAttached ExecutionBinding
  | HScriptChunk "64 word" string
  | HScriptEof "64 word" string
  | HStart ExecutionStart
  | HInput "64 word" string
  | HInputEof "64 word"

text \<open>A reading of the clock: Go's \<open>time.Now\<close> carries a monotonic and a wall time.\<close>

record hub_clock =
  hc_mono :: go_time
  hc_wall :: go_time

text \<open>A channel that is only closed is a flag. The output channels keep every frame delivered to them;
  \<open>x_log\<close> holds the frames sent on the session's stream.\<close>

record ExecutionSession =
  x_ID :: string
  x_NodeID :: string
  x_ActorID :: string
  x_RequestedUser :: string
  x_connection :: nat
  x_bootID :: string
  x_commandHash :: string
  x_prepared :: "ExecutionPrepared option"
  x_preparationDeadline :: "go_time option"
  x_preparedReady :: bool
  x_prepareErr :: "string option"
  x_ticket :: string
  x_ticketIssued :: bool
  x_ticketUsed :: bool
  x_dispatch :: bool
  x_attached :: bool
  x_started :: bool
  x_start :: "executionDispatch list"
  x_stdin :: "hub_frame list"
  x_stdout :: "string list"
  x_stdoutClosed :: bool
  x_stderr :: "string list"
  x_stderrClosed :: bool
  x_result :: "ExecutionResult list"
  x_done :: bool
  x_transportDone :: bool
  x_reason :: string
  x_inputSequence :: "64 word"
  x_inputClosed :: bool
  x_startAttempted :: bool
  x_enhanced :: bool
  x_scriptHash :: string
  x_scriptLength :: "64 word"
  x_limits :: ExecutionLimits
  x_log :: "hub_frame list"

definition new_execution :: "string \<Rightarrow> string \<Rightarrow> string \<Rightarrow> string \<Rightarrow> nat \<Rightarrow> string \<Rightarrow> string \<Rightarrow> ExecutionSession" where
  "new_execution i node actor runAs c boot hash =
     \<lparr>x_ID = i, x_NodeID = node, x_ActorID = actor, x_RequestedUser = runAs, x_connection = c, x_bootID = boot,
      x_commandHash = hash, x_prepared = None, x_preparationDeadline = None, x_preparedReady = False,
      x_prepareErr = None, x_ticket = replicate 32 (CHR 0x00), x_ticketIssued = False, x_ticketUsed = False,
      x_dispatch = False, x_attached = False, x_started = False, x_start = [], x_stdin = [], x_stdout = [],
      x_stdoutClosed = False, x_stderr = [], x_stderrClosed = False, x_result = [], x_done = False,
      x_transportDone = False, x_reason = [], x_inputSequence = 0, x_inputClosed = False, x_startAttempted = False,
      x_enhanced = False, x_scriptHash = [], x_scriptLength = 0, x_limits = DefaultExecutionLimits, x_log = []\<rparr>"

record ExecutionSessions =
  es_objs :: "nat \<Rightarrow> ExecutionSession"
  es_next :: nat
  es_sessions :: "(string \<times> nat) list"
  es_capabilities :: "string \<rightharpoonup> nat \<times> ExecutionCapabilities"
  es_rpcSlots :: nat

definition NewExecutionSessions :: ExecutionSessions where
  "NewExecutionSessions = \<lparr>es_objs = (\<lambda>_. new_execution [] [] [] [] 0 [] []), es_next = 0, es_sessions = [],
     es_capabilities = Map.empty, es_rpcSlots = 0\<rparr>"

definition set_session :: "nat \<Rightarrow> ExecutionSession \<Rightarrow> ExecutionSessions \<Rightarrow> ExecutionSessions" where
  "set_session p s es = es\<lparr>es_objs := (es_objs es)(p := s)\<rparr>"

section \<open>Capabilities\<close>

definition executionConnectionOpen :: "ConnManager \<Rightarrow> nat option \<Rightarrow> bool" where
  "executionConnectionOpen cm c = (case c of None \<Rightarrow> False | Some c \<Rightarrow> \<not> c_closed (conns cm c))"

definition capability_valid :: "ExecutionCapabilities option \<Rightarrow> bool" where
  "capability_valid caps = (case caps of None \<Rightarrow> False | Some k \<Rightarrow>
     xc_protocol k = 1 \<and> xc_standard k \<and> xc_boot k \<noteq> [] \<and> length (xc_boot k) \<le> 128)"

text \<open>The sessions to cancel are captured under the lock and cancelled after it.\<close>

definition SetCapabilities ::
    "ConnManager \<Rightarrow> string \<Rightarrow> nat \<Rightarrow> ExecutionCapabilities option \<Rightarrow> ExecutionSessions \<Rightarrow> nat list \<times> ExecutionSessions" where
  "SetCapabilities cm node stream caps es =
     (case GetConn cm node of
        None \<Rightarrow> ([], es)
      | Some c \<Rightarrow>
          if c_closed (conns cm c) \<or> c_Stream (conns cm c) \<noteq> stream then ([], es)
          else let cancel = \<not> capability_valid caps \<or>
                     (case es_capabilities es node of None \<Rightarrow> False | Some (_, prev) \<Rightarrow> xc_boot prev \<noteq> xc_boot (the caps)) in
            (if cancel then filter (\<lambda>p. x_NodeID (es_objs es p) = node) (map snd (es_sessions es)) else [],
             es\<lparr>es_capabilities := (es_capabilities es)(node := (if capability_valid caps then Some (c, the caps) else None))\<rparr>))"

definition capability_live :: "ConnManager \<Rightarrow> string \<Rightarrow> nat \<Rightarrow> bool" where
  "capability_live cm node c \<longleftrightarrow> GetConn cm node = Some c \<and> \<not> c_closed (conns cm c)"

definition Supports :: "ConnManager \<Rightarrow> string \<Rightarrow> ExecutionSessions \<Rightarrow> bool" where
  "Supports cm node es = (case es_capabilities es node of None \<Rightarrow> False | Some (c, _) \<Rightarrow> capability_live cm node c)"

definition SupportsProtected :: "ConnManager \<Rightarrow> string \<Rightarrow> ExecutionSessions \<Rightarrow> bool" where
  "SupportsProtected cm node es =
     (case es_capabilities es node of None \<Rightarrow> False | Some (c, k) \<Rightarrow> xc_protected k \<and> capability_live cm node c)"

section \<open>Registration\<close>

definition valid_submission :: "string \<Rightarrow> string \<Rightarrow> string \<Rightarrow> string \<Rightarrow> bool" where
  "valid_submission node i actor command \<longleftrightarrow>
     node \<noteq> [] \<and> i \<noteq> [] \<and> actor \<noteq> [] \<and> length i \<le> 128 \<and> command \<noteq> [] \<and>
     length command \<le> MaxExecutionCommandBytes \<and> valid_utf8 command \<and> CHR 0x00 \<notin> set command"

text \<open>\<open>Register\<close> registers a marker in the shell registry and attaches to it at once, under \<open>es.mu\<close>.\<close>

definition Execution_Register ::
    "(string \<Rightarrow> string) \<Rightarrow> ConnManager \<Rightarrow> string \<Rightarrow> string \<Rightarrow> string \<Rightarrow> string \<Rightarrow> string \<Rightarrow> register_options \<Rightarrow> go_time \<Rightarrow>
     ExecutionSessions \<times> TerminalSessions \<Rightarrow> ((string + nat) \<times> ExecutionSessions \<times> TerminalSessions) option" where
  "Execution_Register sha cm node i actor runAs command opts now = (\<lambda>(es, ts).
     if \<not> valid_submission node i actor command then Some (Inl ''invalid execution submission'', es, ts)
     else case es_capabilities es node of
       None \<Rightarrow> Some (Inl ''unsupported'', es, ts)
     | Some (c, k) \<Rightarrow>
         if \<not> capability_live cm node c then Some (Inl ''unsupported'', es, ts)
         else if map_of (es_sessions es) (makeKey node i) \<noteq> None then Some (Inl ''execution already registered'', es, ts)
         else (case Terminal_Register node i actor runAs (WithKind TerminalKindExec (opts\<lparr>ro_interactive := None\<rparr>)) now ts of
                 None \<Rightarrow> None
               | Some (None, ts1) \<Rightarrow> Some (Inl ''shared terminal and execution capacity reached'', es, ts1)
               | Some (Some _, ts1) \<Rightarrow>
                  (case AttachStream node i actor ts1 of
                     None \<Rightarrow> None
                   | Some (_, ts2) \<Rightarrow>
                       let p = es_next es in
                       Some (Inr p, es\<lparr>es_objs := (es_objs es)(p := new_execution i node actor runAs c (xc_boot k) (sha command)),
                          es_next := p + 1, es_sessions := (makeKey node i, p) # es_sessions es\<rparr>, ts2))))"

definition Execution_Remove :: "string \<Rightarrow> string \<Rightarrow> ExecutionSessions \<Rightarrow> nat option \<times> ExecutionSessions" where
  "Execution_Remove node i es =
     (map_of (es_sessions es) (makeKey node i),
      es\<lparr>es_sessions := filter (\<lambda>(k, _). k \<noteq> makeKey node i) (es_sessions es)\<rparr>)"

text \<open>\<open>endConnection\<close>: no stream means every generation of the node.\<close>

definition of_stream :: "ConnManager \<Rightarrow> nat option \<Rightarrow> nat \<Rightarrow> bool" where
  "of_stream cm stream c = (case stream of None \<Rightarrow> True | Some st \<Rightarrow> c_Stream (conns cm c) = st)"

definition endConnection :: "ConnManager \<Rightarrow> string \<Rightarrow> nat option \<Rightarrow> ExecutionSessions \<Rightarrow> nat list \<times> ExecutionSessions" where
  "endConnection cm node stream es =
     (filter (\<lambda>p. x_NodeID (es_objs es p) = node \<and> of_stream cm stream (x_connection (es_objs es p))) (map snd (es_sessions es)),
      (case es_capabilities es node of
         None \<Rightarrow> es
       | Some (c, _) \<Rightarrow> if of_stream cm stream c then es\<lparr>es_capabilities := (es_capabilities es)(node := None)\<rparr> else es))"

section \<open>Preparation\<close>

definition validatePrepared :: "ExecutionSession \<Rightarrow> ExecutionPrepared \<Rightarrow> go_time \<Rightarrow> string option" where
  "validatePrepared s p now =
     (if pr_error p \<noteq> [] then Some ''agent could not prepare execution''
      else case pr_binding p of
        None \<Rightarrow> Some ''invalid execution preparation binding''
      | Some b \<Rightarrow>
          if eb_execution_id b \<noteq> x_ID s \<or> eb_node_id b \<noteq> x_NodeID s \<or> eb_preparation_id b = [] \<or>
             128 < length (eb_preparation_id b) \<or> eb_boot_id b \<noteq> x_bootID s
          then Some ''invalid execution preparation binding''
          else if eb_expires b \<le> unix_milli now then Some ''execution preparation expired''
          else if eb_expires b > unix_milli (time_add now (ExecutionAttachTimeout + executionPreparationClockSkew))
          then Some ''execution preparation expiry exceeds allowed clock skew''
          else if pr_command_sha p \<noteq> x_commandHash s \<or> pr_limits p \<noteq> Some (x_limits s)
          then Some ''execution preparation content or limits changed''
          else case pr_identity p of
            None \<Rightarrow> Some ''invalid prepared execution identity''
          | Some i \<Rightarrow>
              if xi_username i = [] \<or> 256 < length (xi_username i) \<or> xi_shell i = [] \<or> 4096 < length (xi_shell i) \<or>
                 xi_cwd i = [] \<or> 4096 < length (xi_cwd i) \<or> 4096 < length (xi_home i) \<or> 1024 < length (xi_groups i) \<or>
                 length (xi_identity_sha i) \<noteq> 32 \<or> length (xi_groups_sha i) \<noteq> 32 \<or>
                 (x_RequestedUser s \<noteq> [] \<and> xi_username i \<noteq> x_RequestedUser s)
              then Some ''invalid prepared execution identity'' else None)"

definition preparationExpiredLocked :: "hub_clock \<Rightarrow> ExecutionSession \<Rightarrow> bool" where
  "preparationExpiredLocked t s =
     (case Option.bind (x_prepared s) pr_binding of
        None \<Rightarrow> True
      | Some b \<Rightarrow>
         (case x_preparationDeadline s of
            None \<Rightarrow> True
          | Some d \<Rightarrow> \<not> hc_mono t < d \<or> eb_expires b \<le> unix_milli (hc_wall t)))"

text \<open>The deadline is at most a minute away and follows the monotonic clock.\<close>

definition preparation_deadline :: "hub_clock \<Rightarrow> ExecutionBinding \<Rightarrow> go_time" where
  "preparation_deadline t b =
     min (time_add (hc_mono t) ExecutionAttachTimeout) (time_add (hc_mono t) (time_sub (eb_expires b * 1000000) (hc_wall t)))"

text \<open>\<open>DeliverPrepared\<close> looks the session up and compares the connection, then takes \<open>s.mu\<close>.\<close>

definition connection_current :: "ConnManager \<Rightarrow> ExecutionSession \<Rightarrow> bool" where
  "connection_current cm s \<longleftrightarrow> GetConn cm (x_NodeID s) = Some (x_connection s) \<and> \<not> c_closed (conns cm (x_connection s))"

definition find_execution_session :: "string \<Rightarrow> string \<Rightarrow> ExecutionSessions \<Rightarrow> nat option" where
  "find_execution_session node i es = map_of (es_sessions es) (makeKey node i)"

definition prepared_target :: "ConnManager \<Rightarrow> string \<Rightarrow> nat \<Rightarrow> ExecutionPrepared option \<Rightarrow> ExecutionSessions \<Rightarrow> nat option" where
  "prepared_target cm node stream msg es =
     (case msg of
        None \<Rightarrow> None
      | Some p \<Rightarrow>
         (case find_execution_session node (pr_execution_id p) es of
            None \<Rightarrow> None
          | Some q \<Rightarrow>
              let s = es_objs es q in
              if c_Stream (conns cm (x_connection s)) \<noteq> stream \<or> GetConn cm node \<noteq> Some (x_connection s) \<or>
                 c_closed (conns cm (x_connection s)) then None else Some q))"

definition DeliverPrepared :: "hub_clock \<Rightarrow> ExecutionPrepared \<Rightarrow> ExecutionSession \<Rightarrow> (bool \<times> ExecutionSession) option" where
  "DeliverPrepared t p s =
     (if x_prepared s \<noteq> None \<or> x_prepareErr s \<noteq> None then Some (False, s)
      else if x_preparedReady s then None
      else case validatePrepared s p (hc_wall t) of
        Some e \<Rightarrow> Some (False, s\<lparr>x_prepareErr := Some e, x_preparedReady := True\<rparr>)
      | None \<Rightarrow> Some (True, s\<lparr>x_prepared := Some p, x_preparationDeadline := Some (preparation_deadline t (the (pr_binding p))),
                  x_preparedReady := True\<rparr>))"

definition WaitPrepared :: "ExecutionSession \<Rightarrow> string + ExecutionPrepared option" where
  "WaitPrepared s = (case x_prepareErr s of Some e \<Rightarrow> Inl e | None \<Rightarrow> Inr (x_prepared s))"

definition Configure :: "bool \<Rightarrow> string \<Rightarrow> 64 word \<Rightarrow> ExecutionLimits option \<Rightarrow> ExecutionSession \<Rightarrow> (string + unit) \<times> ExecutionSession" where
  "Configure enhanced hash len limits s =
     (case limits of
        None \<Rightarrow> (Inl ''invalid execution configuration'', s)
      | Some l \<Rightarrow>
          if x_prepared s \<noteq> None \<or> x_prepareErr s \<noteq> None \<or> len > 0x1000000 \<or> (length hash \<noteq> 0 \<and> length hash \<noteq> 32)
          then (Inl ''invalid execution configuration'', s)
          else (Inr (), s\<lparr>x_enhanced := enhanced, x_scriptHash := hash, x_scriptLength := len, x_limits := l\<rparr>))"

section \<open>Attachment and dispatch\<close>

definition IssueAttach :: "hub_clock \<Rightarrow> string option \<Rightarrow> ExecutionSession \<Rightarrow> (string + ExecutionAttachRequest) \<times> ExecutionSession" where
  "IssueAttach t random s =
     (if x_ticketIssued s \<or> preparationExpiredLocked t s then (Inl ''preparation not available for attachment'', s)
      else case random of
        None \<Rightarrow> (Inl ''random source unavailable'', s)
      | Some tk \<Rightarrow> (Inr \<lparr>xa_binding = pr_binding (the (x_prepared s)), xa_ticket = tk\<rparr>,
                    s\<lparr>x_ticket := tk, x_ticketIssued := True\<rparr>))"

definition attach_locked :: "hub_clock \<Rightarrow> ExecutionBinding \<Rightarrow> string \<Rightarrow> ExecutionSession \<Rightarrow> (string + unit) \<times> ExecutionSession" where
  "attach_locked t b ticket s =
     (if x_done s then (Inl ''execution cancelled'', s)
      else if preparationExpiredLocked t s \<or> \<not> x_ticketIssued s \<or> x_ticketUsed s \<or>
         Option.bind (x_prepared s) pr_binding \<noteq> Some b \<or> ticket \<noteq> x_ticket s
      then (Inl ''invalid or consumed execution attachment'', s)
      else (Inr (), s\<lparr>x_ticketUsed := True, x_ticket := replicate 32 (CHR 0x00)\<rparr>))"

definition Execution_Attach ::
    "ConnManager \<Rightarrow> hub_clock \<Rightarrow> string \<Rightarrow> ExecutionAttachRequest option \<Rightarrow> ExecutionSessions \<Rightarrow> (string + nat) \<times> ExecutionSessions" where
  "Execution_Attach cm t node req es =
     (case req of
        None \<Rightarrow> (Inl ''invalid execution attachment'', es)
      | Some a \<Rightarrow>
         (case xa_binding a of
            None \<Rightarrow> (Inl ''invalid execution attachment'', es)
          | Some b \<Rightarrow>
              if eb_node_id b \<noteq> node \<or> length (xa_ticket a) \<noteq> 32 then (Inl ''invalid execution attachment'', es)
              else case find_execution_session node (eb_execution_id b) es of
                None \<Rightarrow> (Inl ''execution preparation unavailable'', es)
              | Some p \<Rightarrow>
                  let s = es_objs es p in
                  if GetConn cm node \<noteq> Some (x_connection s) \<or> c_closed (conns cm (x_connection s))
                  then (Inl ''execution preparation unavailable'', es)
                  else case attach_locked t b (xa_ticket a) s of
                    (Inl e, _) \<Rightarrow> (Inl e, es)
                  | (Inr _, s1) \<Rightarrow> (Inr p, set_session p s1 es)))"

definition start_message :: "ExecutionPrepared \<Rightarrow> string \<Rightarrow> string \<Rightarrow> int \<Rightarrow> ExecutionStart" where
  "start_message p policy receipt expiry =
     \<lparr>xs_binding = pr_binding p, xs_command_sha = pr_command_sha p,
      xs_identity_sha = (case pr_identity p of None \<Rightarrow> [] | Some i \<Rightarrow> xi_identity_sha i), xs_limits = pr_limits p,
      xs_policy = policy, xs_receipt = receipt, xs_admission_expires = expiry\<rparr>"

text \<open>The dispatch channel has room for one; a second would block with \<open>s.mu\<close> held.\<close>

definition enqueue_dispatch :: "executionDispatch \<Rightarrow> ExecutionSession \<Rightarrow> ((string + unit) \<times> ExecutionSession) option" where
  "enqueue_dispatch d s =
     (if x_start s \<noteq> [] then None else Some (Inr (), s\<lparr>x_dispatch := True, x_start := [d]\<rparr>))"

definition dispatchStandard :: "ConnManager \<Rightarrow> hub_clock \<Rightarrow> bool \<Rightarrow> ExecutionSession \<Rightarrow> ((string + unit) \<times> ExecutionSession) option" where
  "dispatchStandard cm t before_start s =
     (if x_enhanced s \<or> preparationExpiredLocked t s \<or> \<not> x_ticketUsed s \<or> x_dispatch s \<or> \<not> connection_current cm s
      then Some (Inl ''execution is not dispatchable'', s)
      else if x_done s then Some (Inl (x_reason s), s)
      else enqueue_dispatch \<lparr>xd_start = start_message (the (x_prepared s)) ''standard-v1'' [] 0, xd_script = False,
             xd_before = before_start\<rparr> s)"

definition DispatchProtected ::
    "ConnManager \<Rightarrow> hub_clock \<Rightarrow> string \<Rightarrow> int \<Rightarrow> string \<Rightarrow> bool \<Rightarrow> bool \<Rightarrow> ExecutionSession \<Rightarrow> ((string + unit) \<times> ExecutionSession) option" where
  "DispatchProtected cm t receipt expiry policy script before_start s =
     (if \<not> x_enhanced s \<or> preparationExpiredLocked t s \<or> \<not> x_ticketUsed s \<or> x_dispatch s \<or> receipt = [] \<or>
         16384 < length receipt \<or> expiry \<le> unix_milli (hc_wall t) \<or>
         (case Option.bind (x_prepared s) pr_binding of None \<Rightarrow> True | Some b \<Rightarrow> expiry > eb_expires b) \<or> \<not> before_start \<or>
         (x_scriptHash s \<noteq> [] \<and> \<not> script) \<or> \<not> connection_current cm s
      then Some (Inl ''protected execution is not dispatchable'', s)
      else if x_done s then Some (Inl (x_reason s), s)
      else enqueue_dispatch \<lparr>xd_start = start_message (the (x_prepared s)) policy receipt expiry, xd_script = script,
             xd_before = before_start\<rparr> s)"

definition Execution_Cancel :: "string \<Rightarrow> ExecutionSession \<Rightarrow> ExecutionSession" where
  "Execution_Cancel reason s = (if x_done s then s else s\<lparr>x_reason := reason, x_done := True\<rparr>)"

definition Session_Binding :: "ExecutionSession \<Rightarrow> ExecutionBinding" where
  "Session_Binding s =
     (case Option.bind (x_prepared s) pr_binding of
        None \<Rightarrow> \<lparr>eb_execution_id = x_ID s, eb_node_id = x_NodeID s, eb_preparation_id = [], eb_boot_id = x_bootID s, eb_expires = 0\<rparr>
      | Some b \<Rightarrow> b)"

section \<open>Input\<close>

datatype enqueue_select = EnqSent | EnqContext | EnqCancelled | EnqFinished | EnqStalled

definition enqueueInput :: "enqueue_select \<Rightarrow> hub_frame \<Rightarrow> ExecutionSession \<Rightarrow> (string + unit) \<times> ExecutionSession" where
  "enqueueInput sel msg s =
     (case sel of
        EnqSent \<Rightarrow> if length (x_stdin s) < executionQueueFrames then (Inr (), s\<lparr>x_stdin := x_stdin s @ [msg]\<rparr>)
                  else (Inl ''execution input consumer stalled'', s)
      | EnqContext \<Rightarrow> (Inl ''context canceled'', s)
      | EnqCancelled \<Rightarrow> (Inl ''execution cancelled'', s)
      | EnqFinished \<Rightarrow> (Inl ''execution no longer accepts stdin'', s)
      | EnqStalled \<Rightarrow> (Inl ''execution input consumer stalled'', s))"

definition SendInput :: "enqueue_select \<Rightarrow> string \<Rightarrow> ExecutionSession \<Rightarrow> (string + unit) \<times> ExecutionSession" where
  "SendInput sel data s =
     (if MaxExecutionFrameBytes < length data then (Inl ''execution input frame too large'', s)
      else if x_inputClosed s then (Inl ''execution stdin already closed'', s)
      else case enqueueInput sel (HInput (x_inputSequence s) data) s of
        (Inl e, s1) \<Rightarrow> (Inl e, s1)
      | (Inr _, s1) \<Rightarrow> (Inr (), s1\<lparr>x_inputSequence := x_inputSequence s1 + 1\<rparr>))"

definition CloseInput :: "enqueue_select \<Rightarrow> ExecutionSession \<Rightarrow> (string + unit) \<times> ExecutionSession" where
  "CloseInput sel s =
     (if x_inputClosed s then (Inr (), s)
      else case enqueueInput sel (HInputEof (x_inputSequence s)) s of
        (Inl e, s1) \<Rightarrow> (Inl e, s1)
      | (Inr _, s1) \<Rightarrow> (Inr (), s1\<lparr>x_inputClosed := True\<rparr>))"

end
