(* ===== verification/Execution_Stream.thy ===== *)
theory Execution_Stream
  imports Execution_Sessions
begin

text \<open>
  The execution stream (\<open>hub/internal/grpcserver/exec_stream.go\<close>): who may open it, the sections of its
  sender and its receiver, the transfer of a protected script; and the system of all callers, goroutines
  and the shared shell registry as one step relation.
\<close>

section \<open>Opening\<close>

text \<open>What the TLS layer says of the peer: the leaf it presented and whether it heads a verified chain;
  and the row of the server it names.\<close>

record peer_cert =
  pc_verified :: bool
  pc_leaf_matches :: bool
  pc_CommonName :: string
  pc_NotBefore :: go_time
  pc_NotAfter :: go_time

record server_status =
  sv_registration_token :: "string option"
  sv_status :: string

definition executionNode :: "ConnManager \<Rightarrow> go_time \<Rightarrow> peer_cert option \<Rightarrow> (string \<Rightarrow> server_status option) \<Rightarrow> string + string" where
  "executionNode cm now peer lookup =
     (case peer of
        None \<Rightarrow> Inl ''execution requires an enrolled node certificate''
      | Some c \<Rightarrow>
          if \<not> pc_verified c then Inl ''execution requires a verified node certificate''
          else if \<not> pc_leaf_matches c \<or> pc_CommonName c = [] \<or> now < pc_NotBefore c \<or> \<not> now < pc_NotAfter c
          then Inl ''execution certificate identity is invalid''
          else case lookup (pc_CommonName c) of
            None \<Rightarrow> Inl ''execution node is not currently enrolled and connected''
          | Some sv \<Rightarrow>
              if sv_registration_token sv \<noteq> None \<or> sv_status sv \<noteq> ''online'' \<or>
                 \<not> executionConnectionOpen cm (GetConn cm (pc_CommonName c))
              then Inl ''execution node is not currently enrolled and connected''
              else Inr (pc_CommonName c))"

definition rpc_slots :: nat where "rpc_slots = 32"

section \<open>Sending\<close>

definition validateLaunchLocked :: "ConnManager \<Rightarrow> hub_clock \<Rightarrow> bool \<Rightarrow> ExecutionSession \<Rightarrow> string option" where
  "validateLaunchLocked cm t ctx_done s =
     (if ctx_done then Some ''context canceled''
      else if x_done s then Some ''execution cancelled before launch''
      else if x_transportDone s then Some ''execution transport completed before launch''
      else if \<not> connection_current cm s then Some ''execution control connection changed before launch''
      else if preparationExpiredLocked t s then Some ''execution authority expired before launch''
      else None)"

text \<open>One turn of the script transfer: whether the preparation had expired before and after the read,
  what it read, whether the chunk went out, and whether the session or the stream had ended.\<close>

record script_read =
  sr_expired :: bool
  sr_bytes :: string
  sr_error :: read_error
  sr_expired_after :: bool
  sr_sent :: bool
  sr_stopped :: bool

text \<open>The frames sent, and whether the transfer succeeded; a list that runs out is a transfer still
  under way.\<close>

fun script_loop :: "(string \<Rightarrow> string) \<Rightarrow> 64 word \<Rightarrow> string \<Rightarrow> 64 word \<Rightarrow> string \<Rightarrow> script_read list \<Rightarrow> hub_frame list \<times> bool" where
  "script_loop sha len hash offset seen [] = ([], False)"
| "script_loop sha len hash offset seen (c # cs) =
     (if sr_expired c \<or> sr_expired_after c then ([], False)
      else if sr_bytes c \<noteq> [] \<and> (offset + of_nat (length (sr_bytes c)) > len \<or> \<not> sr_sent c) then ([], False)
      else let frame = (if sr_bytes c \<noteq> [] then [HScriptChunk offset (sr_bytes c)] else []);
               offset' = offset + of_nat (length (sr_bytes c)); seen' = seen @ sr_bytes c in
        if sr_error c = EndOfFile then (frame, offset' = len \<and> sha seen' = hash)
        else if sr_error c \<noteq> NoError \<or> sr_stopped c then (frame, False)
        else case script_loop sha len hash offset' seen' cs of (fs, ok) \<Rightarrow> (frame @ fs, ok))"

definition sendProtectedScript :: "(string \<Rightarrow> string) \<Rightarrow> script_read list \<Rightarrow> bool \<Rightarrow> ExecutionSession \<Rightarrow> hub_frame list \<times> bool" where
  "sendProtectedScript sha reads eof_sent s =
     (case script_loop sha (x_scriptLength s) (x_scriptHash s) 0 [] reads of
        (fs, ok) \<Rightarrow> if ok \<and> eof_sent then (fs @ [HScriptEof (x_scriptLength s) (x_scriptHash s)], True) else (fs, False))"

section \<open>Receiving\<close>

datatype exec_agent_message =
    AStarted "ExecutionBinding option"
  | AStartFailed "(ExecutionBinding option \<times> string) option"
  | AStdout "(64 word \<times> string) option"
  | AStderr "(64 word \<times> string) option"
  | AOutputEof "(output_kind option \<times> 64 word) option"
  | AResult "ExecutionResult option"
  | AOther

record recv_state =
  rv_stdoutSeq :: "64 word"
  rv_stderrSeq :: "64 word"
  rv_stdoutEOF :: bool
  rv_stderrEOF :: bool
  rv_started :: bool

definition recv_start :: recv_state where
  "recv_start = \<lparr>rv_stdoutSeq = 0, rv_stderrSeq = 0, rv_stdoutEOF = False, rv_stderrEOF = False, rv_started = False\<rparr>"

text \<open>\<open>syscall.Signal.String\<close> on Linux.\<close>

definition signal_names :: "string list" where
  "signal_names = [''hangup'', ''interrupt'', ''quit'', ''illegal instruction'', ''trace/breakpoint trap'', ''aborted'',
     ''bus error'', ''floating point exception'', ''killed'', ''user defined signal 1'', ''segmentation fault'',
     ''user defined signal 2'', ''broken pipe'', ''alarm clock'', ''terminated'']"

definition signal_String :: "nat \<Rightarrow> string" where
  "signal_String n = (if 1 \<le> n \<and> n \<le> 15 then signal_names ! (n - 1) else ''signal '' @ show_nat n)"

definition redactedExecutionSignal :: "string \<Rightarrow> string" where
  "redactedExecutionSignal v = (if v \<in> set (map signal_String [1..<65]) then v else [])"

text \<open>The loop goes on with the next state, or \<open>receiveExecution\<close> returns nil or an error.\<close>

datatype recv_outcome = RGoOn recv_state | RReturn "string option"

definition deliverExecutionOutput :: "bool \<Rightarrow> string \<Rightarrow> string + unit" where
  "deliverExecutionOutput delivered data =
     (if MaxExecutionFrameBytes < length data then Inl ''execution output frame too large''
      else if delivered then Inr () else Inl ''execution output not taken'')"

definition send_result :: "ExecutionResult \<Rightarrow> ExecutionSession \<Rightarrow> ExecutionSession option" where
  "send_result r s = (if x_result s \<noteq> [] then None else Some (s\<lparr>x_result := [r]\<rparr>))"

definition receive_started :: "ExecutionBinding option \<Rightarrow> recv_state \<Rightarrow> ExecutionSession \<Rightarrow> (recv_outcome \<times> ExecutionSession) option" where
  "receive_started b st s =
     (if rv_started st \<or> b \<noteq> Some (Session_Binding s) \<or> \<not> x_dispatch s
      then Some (RReturn (Some ''invalid execution Started''), s)
      else if x_started s then None
      else Some (RGoOn (st\<lparr>rv_started := True\<rparr>), s\<lparr>x_started := True\<rparr>))"

definition receive_start_failed :: "(ExecutionBinding option \<times> string) option \<Rightarrow> recv_state \<Rightarrow> ExecutionSession \<Rightarrow> (recv_outcome \<times> ExecutionSession) option" where
  "receive_start_failed m st s =
     (case m of
        None \<Rightarrow> Some (RReturn (Some ''invalid execution StartFailed''), s)
      | Some (b, state) \<Rightarrow>
          if rv_started st \<or> b \<noteq> Some (Session_Binding s) \<or> \<not> x_dispatch s
          then Some (RReturn (Some ''invalid execution StartFailed''), s)
          else let known = (if state = ''launch_failed'' \<or> state = ''cancelled'' then state else ''outcome_unknown'') in
            case send_result \<lparr>er_binding = Session_Binding s, er_state = known, er_exit_code = 1, er_signal = [],
                   er_reason = ''agent reported '' @ known, er_stdout_complete = False, er_stderr_complete = False\<rparr> s of
              None \<Rightarrow> None
            | Some s1 \<Rightarrow> if x_stdoutClosed s1 \<or> x_stderrClosed s1 then None
                          else Some (RReturn None, s1\<lparr>x_stdoutClosed := True, x_stderrClosed := True\<rparr>))"

definition receive_stdout :: "bool \<Rightarrow> (64 word \<times> string) option \<Rightarrow> recv_state \<Rightarrow> ExecutionSession \<Rightarrow> (recv_outcome \<times> ExecutionSession) option" where
  "receive_stdout delivered m st s =
     (case m of
        None \<Rightarrow> Some (RReturn (Some ''invalid stdout sequence''), s)
      | Some (sq, data) \<Rightarrow>
          if \<not> rv_started st \<or> rv_stdoutEOF st \<or> sq \<noteq> rv_stdoutSeq st then Some (RReturn (Some ''invalid stdout sequence''), s)
          else case deliverExecutionOutput delivered data of
            Inl e \<Rightarrow> Some (RReturn (Some e), s)
          | Inr _ \<Rightarrow> if x_stdoutClosed s then None
                     else Some (RGoOn (st\<lparr>rv_stdoutSeq := rv_stdoutSeq st + 1\<rparr>), s\<lparr>x_stdout := x_stdout s @ [data]\<rparr>))"

definition receive_stderr :: "bool \<Rightarrow> (64 word \<times> string) option \<Rightarrow> recv_state \<Rightarrow> ExecutionSession \<Rightarrow> (recv_outcome \<times> ExecutionSession) option" where
  "receive_stderr delivered m st s =
     (case m of
        None \<Rightarrow> Some (RReturn (Some ''invalid stderr sequence''), s)
      | Some (sq, data) \<Rightarrow>
          if \<not> rv_started st \<or> rv_stderrEOF st \<or> sq \<noteq> rv_stderrSeq st then Some (RReturn (Some ''invalid stderr sequence''), s)
          else case deliverExecutionOutput delivered data of
            Inl e \<Rightarrow> Some (RReturn (Some e), s)
          | Inr _ \<Rightarrow> if x_stderrClosed s then None
                     else Some (RGoOn (st\<lparr>rv_stderrSeq := rv_stderrSeq st + 1\<rparr>), s\<lparr>x_stderr := x_stderr s @ [data]\<rparr>))"

definition receive_eof :: "(output_kind option \<times> 64 word) option \<Rightarrow> recv_state \<Rightarrow> ExecutionSession \<Rightarrow> (recv_outcome \<times> ExecutionSession) option" where
  "receive_eof m st s =
     (case m of
        None \<Rightarrow> Some (RReturn (Some ''unexpected execution output EOF''), s)
      | Some (kind, sq) \<Rightarrow>
          if \<not> rv_started st then Some (RReturn (Some ''unexpected execution output EOF''), s)
          else case kind of
            None \<Rightarrow> Some (RReturn (Some ''unknown execution output''), s)
          | Some Stdout \<Rightarrow>
              if rv_stdoutEOF st \<or> sq \<noteq> rv_stdoutSeq st then Some (RReturn (Some ''invalid stdout EOF''), s)
              else if x_stdoutClosed s then None
              else Some (RGoOn (st\<lparr>rv_stdoutEOF := True\<rparr>), s\<lparr>x_stdoutClosed := True\<rparr>)
          | Some Stderr \<Rightarrow>
              if rv_stderrEOF st \<or> sq \<noteq> rv_stderrSeq st then Some (RReturn (Some ''invalid stderr EOF''), s)
              else if x_stderrClosed s then None
              else Some (RGoOn (st\<lparr>rv_stderrEOF := True\<rparr>), s\<lparr>x_stderrClosed := True\<rparr>))"

definition valid_exit :: "ExecutionResult \<Rightarrow> bool" where
  "valid_exit r \<longleftrightarrow> (0 \<le> er_exit_code r \<and> er_exit_code r \<le> 255 \<and> er_signal r = []) \<or>
     (er_exit_code r = - 1 \<and> redactedExecutionSignal (er_signal r) \<noteq> [])"

definition redacted :: "ExecutionResult \<Rightarrow> ExecutionResult" where
  "redacted r = r\<lparr>er_signal := redactedExecutionSignal (er_signal r),
     er_reason := (if er_reason r = ''completion not durable'' then ''completion metadata unconfirmed''
                   else if er_reason r \<noteq> [] then ''agent reported '' @ er_state r else [])\<rparr>"

definition receive_result :: "ExecutionResult option \<Rightarrow> recv_state \<Rightarrow> ExecutionSession \<Rightarrow> (recv_outcome \<times> ExecutionSession) option" where
  "receive_result m st s =
     (case m of
        None \<Rightarrow> Some (RReturn (Some ''execution result is incomplete or invalid''), s)
      | Some r \<Rightarrow>
          if \<not> rv_started st \<or> \<not> rv_stdoutEOF st \<or> \<not> rv_stderrEOF st \<or> er_binding r \<noteq> Session_Binding s \<or>
             (er_state r = ''exited'' \<and> (\<not> er_stdout_complete r \<or> \<not> er_stderr_complete r))
          then Some (RReturn (Some ''execution result is incomplete or invalid''), s)
          else if er_state r \<notin> {''exited'', ''cancelled'', ''transport_lost'', ''outcome_unknown''}
          then Some (RReturn (Some ''unknown execution result state''), s)
          else if er_state r = ''exited'' \<and> \<not> valid_exit r then Some (RReturn (Some ''invalid execution process exit''), s)
          else case send_result (redacted r) s of None \<Rightarrow> None | Some s1 \<Rightarrow> Some (RReturn None, s1))"

fun receive_message :: "bool \<Rightarrow> exec_agent_message \<Rightarrow> recv_state \<Rightarrow> ExecutionSession \<Rightarrow> (recv_outcome \<times> ExecutionSession) option" where
  "receive_message delivered (AStarted b) st s = receive_started b st s"
| "receive_message delivered (AStartFailed m) st s = receive_start_failed m st s"
| "receive_message delivered (AStdout m) st s = receive_stdout delivered m st s"
| "receive_message delivered (AStderr m) st s = receive_stderr delivered m st s"
| "receive_message delivered (AOutputEof m) st s = receive_eof m st s"
| "receive_message delivered (AResult r) st s = receive_result r st s"
| "receive_message delivered AOther st s = Some (RReturn (Some ''unexpected execution message''), s)"

text \<open>The loop over a stream of messages, every frame taken: whether it returned nil, and the session.\<close>

fun receiveExecution :: "exec_agent_message list \<Rightarrow> recv_state \<Rightarrow> ExecutionSession \<Rightarrow> (string option \<times> ExecutionSession) option" where
  "receiveExecution [] st s = Some (Some ''execution ended without a final result'', s)"
| "receiveExecution (m # ms) st s =
     (case receive_message True m st s of
        None \<Rightarrow> None
      | Some (RReturn e, s1) \<Rightarrow> Some (e, s1)
      | Some (RGoOn st1, s1) \<Rightarrow> receiveExecution ms st1 s1)"


section \<open>The system\<close>

text \<open>What a goroutine still has to do: cancel a captured session, remove its marker from the shell
  registry, take a reported preparation; \<open>Execute\<close> waiting for the first message with its slot, waiting
  for its goroutines, and in its deferred end; the sender in each of its phases; the receiver.\<close>

datatype x_work =
    XCancel nat string
  | XTerminalRemove string string
  | XPrepared nat ExecutionPrepared
  | XFirst string
  | XMain nat
  | XMainEnd nat bool
  | XAttached nat
  | XWait nat
  | XCheck nat executionDispatch
  | XScript nat executionDispatch
  | XBefore nat executionDispatch
  | XCommit nat executionDispatch
  | XStart nat executionDispatch
  | XInput nat
  | XReceive nat recv_state

text \<open>The answers of the surroundings to one section: the connection registry, the clock, whether a
  stream operation or a callback succeeded, whether a \<open>select\<close> saw an end, what arrived.\<close>

record x_answers =
  xn_cm :: ConnManager
  xn_clock :: hub_clock
  xn_ok :: bool
  xn_stop :: bool
  xn_first :: "ExecutionAttachRequest option option"
  xn_msg :: "exec_agent_message option"
  xn_reads :: "script_read list"
  xn_sha :: "string \<Rightarrow> string"

definition log_frames :: "hub_frame list \<Rightarrow> ExecutionSession \<Rightarrow> ExecutionSession" where
  "log_frames fs s = s\<lparr>x_log := x_log s @ fs\<rparr>"

type_synonym session_op = "ExecutionSession \<Rightarrow> (x_work list \<times> ExecutionSession) option"

definition send_attached :: "nat \<Rightarrow> x_answers \<Rightarrow> session_op" where
  "send_attached p ans s =
     (if \<not> xn_ok ans then Some ([], s)
      else if x_attached s then None
      else Some ([XWait p], log_frames [HAttached (Session_Binding s)] (s\<lparr>x_attached := True\<rparr>)))"

definition await_dispatch :: "nat \<Rightarrow> x_answers \<Rightarrow> session_op" where
  "await_dispatch p ans s =
     (if xn_stop ans then Some ([], s)
      else case x_start s of [] \<Rightarrow> Some ([XWait p], s) | d # ds \<Rightarrow> Some ([XCheck p d], s\<lparr>x_start := ds\<rparr>))"

definition check_launch :: "nat \<Rightarrow> executionDispatch \<Rightarrow> x_answers \<Rightarrow> session_op" where
  "check_launch p d ans s =
     (case validateLaunchLocked (xn_cm ans) (xn_clock ans) (xn_stop ans) s of
        Some _ \<Rightarrow> Some ([], s)
      | None \<Rightarrow> Some ([if xd_script d then XScript p d else XBefore p d], s))"

definition transfer_script :: "nat \<Rightarrow> executionDispatch \<Rightarrow> x_answers \<Rightarrow> session_op" where
  "transfer_script p d ans s =
     (case sendProtectedScript (xn_sha ans) (xn_reads ans) (xn_ok ans) s of
        (fs, ok) \<Rightarrow> Some (if ok then [XBefore p d] else [], log_frames fs s))"

definition before_start :: "nat \<Rightarrow> executionDispatch \<Rightarrow> x_answers \<Rightarrow> session_op" where
  "before_start p d ans s = Some (if xd_before d \<and> \<not> xn_ok ans then [] else [XCommit p d], s)"

definition commit_start :: "nat \<Rightarrow> executionDispatch \<Rightarrow> x_answers \<Rightarrow> session_op" where
  "commit_start p d ans s =
     (case validateLaunchLocked (xn_cm ans) (xn_clock ans) (xn_stop ans) s of
        Some _ \<Rightarrow> Some ([], s)
      | None \<Rightarrow>
          if xs_admission_expires (xd_start d) \<noteq> 0 \<and> xs_admission_expires (xd_start d) \<le> unix_milli (hc_wall (xn_clock ans))
          then Some ([], s)
          else Some ([XStart p d], s\<lparr>x_startAttempted := True\<rparr>))"

definition send_start :: "nat \<Rightarrow> executionDispatch \<Rightarrow> x_answers \<Rightarrow> session_op" where
  "send_start p d ans s = Some (if xn_ok ans then ([XInput p], log_frames [HStart (xd_start d)] s) else ([], s))"

definition forward_input :: "nat \<Rightarrow> x_answers \<Rightarrow> session_op" where
  "forward_input p ans s =
     (if xn_stop ans then Some ([], s)
      else case x_stdin s of
        [] \<Rightarrow> Some ([XInput p], s)
      | m # ms \<Rightarrow> Some (if xn_ok ans then ([XInput p], log_frames [m] (s\<lparr>x_stdin := ms\<rparr>)) else ([], s\<lparr>x_stdin := ms\<rparr>)))"

definition receive_turn :: "nat \<Rightarrow> recv_state \<Rightarrow> x_answers \<Rightarrow> session_op" where
  "receive_turn p st ans s =
     (case xn_msg ans of
        None \<Rightarrow> Some ([], s)
      | Some m \<Rightarrow>
         (case receive_message (xn_ok ans) m st s of
            None \<Rightarrow> None
          | Some (RGoOn st1, s1) \<Rightarrow> Some ([XReceive p st1], s1)
          | Some (RReturn _, s1) \<Rightarrow> Some ([], s1)))"

definition end_transport :: "nat \<Rightarrow> x_answers \<Rightarrow> session_op" where
  "end_transport p ans s =
     (if x_transportDone s then None else Some ([XMainEnd p (\<not> xn_ok ans)], s\<lparr>x_transportDone := True\<rparr>))"

definition take_prepared :: "ExecutionPrepared \<Rightarrow> x_answers \<Rightarrow> session_op" where
  "take_prepared msg ans s = map_option (\<lambda>(_, s1). ([], s1)) (DeliverPrepared (xn_clock ans) msg s)"

text \<open>The work on one session, with the session it is on.\<close>

fun session_work :: "x_work \<Rightarrow> (nat \<times> (x_answers \<Rightarrow> session_op)) option" where
  "session_work (XCancel p reason) = Some (p, \<lambda>ans s. Some ([], Execution_Cancel reason s))"
| "session_work (XPrepared p msg) = Some (p, take_prepared msg)"
| "session_work (XMain p) = Some (p, end_transport p)"
| "session_work (XMainEnd p failed) = Some (p, \<lambda>ans s. Some ([], if failed then Execution_Cancel ''execution transport lost'' s else s))"
| "session_work (XAttached p) = Some (p, send_attached p)"
| "session_work (XWait p) = Some (p, await_dispatch p)"
| "session_work (XCheck p d) = Some (p, check_launch p d)"
| "session_work (XScript p d) = Some (p, transfer_script p d)"
| "session_work (XBefore p d) = Some (p, before_start p d)"
| "session_work (XCommit p d) = Some (p, commit_start p d)"
| "session_work (XStart p d) = Some (p, send_start p d)"
| "session_work (XInput p) = Some (p, forward_input p)"
| "session_work (XReceive p st) = Some (p, receive_turn p st)"
| "session_work (XTerminalRemove _ _) = None"
| "session_work (XFirst _) = None"

definition on_session :: "nat \<Rightarrow> session_op \<Rightarrow> ExecutionSessions \<Rightarrow> (x_work list \<times> ExecutionSessions) option" where
  "on_session p f es = map_option (\<lambda>(ws, s). (ws, set_session p s es)) (f (es_objs es p))"

text \<open>\<open>Execute\<close> gives its slot back when it returns.\<close>

definition release_slot :: "ExecutionSessions \<Rightarrow> ExecutionSessions" where
  "release_slot es = es\<lparr>es_rpcSlots := es_rpcSlots es - 1\<rparr>"

definition Execute_open :: "ConnManager \<Rightarrow> go_time \<Rightarrow> peer_cert option \<Rightarrow> (string \<Rightarrow> server_status option) \<Rightarrow> ExecutionSessions \<Rightarrow>
    x_work list \<times> ExecutionSessions" where
  "Execute_open cm now peer lookup es =
     (case executionNode cm now peer lookup of
        Inl _ \<Rightarrow> ([], es)
      | Inr node \<Rightarrow> if es_rpcSlots es \<ge> rpc_slots then ([], es) else ([XFirst node], es\<lparr>es_rpcSlots := es_rpcSlots es + 1\<rparr>))"

definition Execute_first :: "string \<Rightarrow> x_answers \<Rightarrow> ExecutionSessions \<Rightarrow> x_work list \<times> ExecutionSessions" where
  "Execute_first node ans es =
     (case xn_first ans of
        None \<Rightarrow> ([], release_slot es)
      | Some req \<Rightarrow>
         (case Execution_Attach (xn_cm ans) (xn_clock ans) node req es of
            (Inl _, es1) \<Rightarrow> ([], release_slot es1)
          | (Inr p, es1) \<Rightarrow> ([XMain p, XAttached p, XReceive p recv_start], es1)))"

fun run_xwork :: "x_answers \<Rightarrow> x_work \<Rightarrow> ExecutionSessions \<Rightarrow> (x_work list \<times> ExecutionSessions) option" where
  "run_xwork ans (XFirst node) es = Some (Execute_first node ans es)"
| "run_xwork ans (XTerminalRemove node i) es = Some ([], es)"
| "run_xwork ans (XMainEnd p failed) es =
     map_option (\<lambda>(ws, es1). (ws, release_slot es1)) (on_session p (snd (the (session_work (XMainEnd p failed))) ans) es)"
| "run_xwork ans w es = (case session_work w of None \<Rightarrow> None | Some (p, f) \<Rightarrow> on_session p (f ans) es)"

text \<open>The calls: on a session the caller holds, or on the registry.\<close>

datatype session_call =
    SIssueAttach hub_clock "string option"
  | SConfigure bool string "64 word" "ExecutionLimits option"
  | SDispatch ConnManager hub_clock bool
  | SDispatchProtected ConnManager hub_clock string int string bool bool
  | SSendInput enqueue_select string
  | SCloseInput enqueue_select
  | SCancel string

fun session_calls :: "session_call \<Rightarrow> ExecutionSession \<Rightarrow> ExecutionSession option" where
  "session_calls (SIssueAttach t random) s = Some (snd (IssueAttach t random s))"
| "session_calls (SConfigure enhanced hash len limits) s = Some (snd (Configure enhanced hash len limits s))"
| "session_calls (SDispatch cm t checked) s = map_option snd (dispatchStandard cm t checked s)"
| "session_calls (SDispatchProtected cm t receipt expiry policy script checked) s =
     map_option snd (DispatchProtected cm t receipt expiry policy script checked s)"
| "session_calls (SSendInput sel data) s = Some (snd (SendInput sel data s))"
| "session_calls (SCloseInput sel) s = Some (snd (CloseInput sel s))"
| "session_calls (SCancel reason) s = Some (Execution_Cancel reason s)"

datatype x_call =
    XCSession nat session_call
  | XCSetCapabilities ConnManager string nat "ExecutionCapabilities option"
  | XCRemove string string
  | XCEnd ConnManager string "nat option" string
  | XCDeliver ConnManager string nat "ExecutionPrepared option"
  | XCExecute ConnManager go_time "peer_cert option" "string \<Rightarrow> server_status option"

fun run_xcall :: "x_call \<Rightarrow> ExecutionSessions \<Rightarrow> (x_work list \<times> ExecutionSessions) option" where
  "run_xcall (XCSession p c) es = map_option (\<lambda>s. ([], set_session p s es)) (session_calls c (es_objs es p))"
| "run_xcall (XCSetCapabilities cm node stream caps) es =
     (case SetCapabilities cm node stream caps es of (ps, es1) \<Rightarrow>
        Some (map (\<lambda>p. XCancel p ''agent execution capability or boot changed'') ps, es1))"
| "run_xcall (XCRemove node i) es =
     (case Execution_Remove node i es of (found, es1) \<Rightarrow>
        Some (case found of None \<Rightarrow> [] | Some p \<Rightarrow> [XCancel p ''execution closed'', XTerminalRemove node i], es1))"
| "run_xcall (XCEnd cm node stream reason) es =
     (case endConnection cm node stream es of (ps, es1) \<Rightarrow> Some (map (\<lambda>p. XCancel p reason) ps, es1))"
| "run_xcall (XCDeliver cm node stream msg) es =
     Some (case prepared_target cm node stream msg es of None \<Rightarrow> [] | Some p \<Rightarrow> [XPrepared p (the msg)], es)"
| "run_xcall (XCExecute cm now peer lookup) es = Some (Execute_open cm now peer lookup es)"

type_synonym hub_sys = "ExecutionSessions \<times> x_work list \<times> ts_sys"

inductive hub_step :: "hub_sys \<Rightarrow> hub_sys \<Rightarrow> bool" where
  call: "run_xcall c es = Some (ws, es') \<Longrightarrow> (\<And>p k. c = XCSession p k \<Longrightarrow> p < es_next es) \<Longrightarrow>
    hub_step (es, work, T) (es', ws @ work, T)"
| register: "Execution_Register sha cm node i actor runAs command opts now (es, ts) = Some (r, es', ts') \<Longrightarrow>
    hub_step (es, work, (ts, tw)) (es', work, (ts', tw))"
| work: "w \<in> set work \<Longrightarrow> run_xwork ans w es = Some (ws, es') \<Longrightarrow> (\<And>node i. w \<noteq> XTerminalRemove node i) \<Longrightarrow>
    hub_step (es, work, T) (es', ws @ remove1 w work, T)"
| terminal_remove: "XTerminalRemove node i \<in> set work \<Longrightarrow> run_call (CRemove node i) ts = Some (tws, ts') \<Longrightarrow>
    hub_step (es, work, (ts, tw)) (es, remove1 (XTerminalRemove node i) work, (ts', tws @ tw))"
| terminal: "ts_step T T' \<Longrightarrow> hub_step (es, work, T) (es, work, T')"

definition hub_reachable :: "hub_sys \<Rightarrow> bool" where
  "hub_reachable \<sigma> \<longleftrightarrow> hub_step\<^sup>*\<^sup>* (NewExecutionSessions, [], (NewTerminalSessions, [])) \<sigma>"

end
