(* ===== verification/Execution_Session_Props.thy ===== *)
theory Execution_Session_Props
  imports Execution_Stream Terminal_Props
begin

text \<open>
  Properties of the hub's execution sessions over every interleaving of their callers, senders,
  receivers and the shell registry: no section panics or blocks for ever, at most one start goes out and
  only the one the accepted preparation allows, a cancelled session never starts, and the shell registry
  behaves inside this system as it does alone.
\<close>

section \<open>Sessions\<close>

fun is_script :: "hub_frame \<Rightarrow> bool" where
  "is_script (HScriptChunk _ _) \<longleftrightarrow> True" | "is_script (HScriptEof _ _) \<longleftrightarrow> True" | "is_script _ \<longleftrightarrow> False"

fun is_input :: "hub_frame \<Rightarrow> bool" where
  "is_input (HInput _ _) \<longleftrightarrow> True" | "is_input (HInputEof _) \<longleftrightarrow> True" | "is_input _ \<longleftrightarrow> False"

fun is_start :: "hub_frame \<Rightarrow> bool" where
  "is_start (HStart _) \<longleftrightarrow> True" | "is_start _ \<longleftrightarrow> False"

definition prepared_ok :: "ExecutionSession \<Rightarrow> ExecutionPrepared \<Rightarrow> bool" where
  "prepared_ok s pr \<longleftrightarrow> pr_error pr = [] \<and> pr_command_sha pr = x_commandHash s \<and> pr_limits pr = Some (x_limits s) \<and>
     (\<exists>b i. pr_binding pr = Some b \<and> pr_identity pr = Some i \<and> eb_execution_id b = x_ID s \<and> eb_node_id b = x_NodeID s \<and>
        eb_boot_id b = x_bootID s \<and> (x_RequestedUser s \<noteq> [] \<longrightarrow> xi_username i = x_RequestedUser s))"

text \<open>The start the accepted preparation allows.\<close>

definition start_fits :: "ExecutionSession \<Rightarrow> ExecutionStart \<Rightarrow> bool" where
  "start_fits s st \<longleftrightarrow>
     (\<exists>pr b i. x_prepared s = Some pr \<and> pr_binding pr = Some b \<and> pr_identity pr = Some i \<and> xs_binding st = Some b \<and>
        eb_execution_id b = x_ID s \<and> eb_node_id b = x_NodeID s \<and> eb_boot_id b = x_bootID s \<and>
        xs_command_sha st = x_commandHash s \<and> xs_identity_sha st = xi_identity_sha i \<and> xs_limits st = Some (x_limits s) \<and>
        (x_RequestedUser s \<noteq> [] \<longrightarrow> xi_username i = x_RequestedUser s) \<and>
        (if x_enhanced s then xs_receipt st \<noteq> [] \<and> length (xs_receipt st) \<le> 16384 \<and> xs_admission_expires st \<le> eb_expires b
         else xs_receipt st = [] \<and> xs_policy st = ''standard-v1''))"

definition needs_script :: "ExecutionSession \<Rightarrow> bool" where
  "needs_script s \<longleftrightarrow> x_enhanced s \<and> x_scriptHash s \<noteq> []"

definition good_dispatch :: "ExecutionSession \<Rightarrow> executionDispatch \<Rightarrow> bool" where
  "good_dispatch s d \<longleftrightarrow> start_fits s (xd_start d) \<and> (needs_script s \<longrightarrow> xd_script d) \<and> (x_enhanced s \<longrightarrow> xd_before d)"

definition script_sent :: "ExecutionSession \<Rightarrow> hub_frame list \<Rightarrow> bool" where
  "script_sent s fs \<longleftrightarrow> HScriptEof (x_scriptLength s) (x_scriptHash s) \<in> set fs"

definition before_start_log :: "ExecutionSession \<Rightarrow> hub_frame list \<Rightarrow> bool" where
  "before_start_log s fs \<longleftrightarrow> x_log s = HAttached (Session_Binding s) # fs \<and> (\<forall>f \<in> set fs. is_script f)"

definition after_start_log :: "ExecutionSession \<Rightarrow> bool" where
  "after_start_log s \<longleftrightarrow> (\<exists>fs st ins. x_log s = HAttached (Session_Binding s) # fs @ HStart st # ins \<and> (\<forall>f \<in> set fs. is_script f) \<and>
     (\<forall>f \<in> set ins. is_input f) \<and> start_fits s st \<and> (needs_script s \<longrightarrow> script_sent s fs))"

definition log_ok :: "ExecutionSession \<Rightarrow> bool" where
  "log_ok s \<longleftrightarrow> x_log s = [] \<or> (\<exists>fs. before_start_log s fs) \<or> (x_startAttempted s \<and> after_start_log s)"

definition untouched :: "ExecutionSession \<Rightarrow> bool" where
  "untouched s \<longleftrightarrow> x_log s = [] \<and> \<not> x_attached s \<and> \<not> x_started s \<and> \<not> x_stdoutClosed s \<and> \<not> x_stderrClosed s \<and>
     x_result s = [] \<and> \<not> x_transportDone s \<and> \<not> x_dispatch s \<and> \<not> x_startAttempted s"

definition sess_ok :: "ExecutionSession \<Rightarrow> bool" where
  "sess_ok s \<longleftrightarrow> (\<not> x_ticketUsed s \<longrightarrow> untouched s) \<and>
     (x_preparedReady s \<longleftrightarrow> x_prepared s \<noteq> None \<or> x_prepareErr s \<noteq> None) \<and>
     (\<forall>pr. x_prepared s = Some pr \<longrightarrow> prepared_ok s pr) \<and> (x_ticketUsed s \<longrightarrow> x_prepared s \<noteq> None) \<and>
     (x_start s \<noteq> [] \<longrightarrow> x_dispatch s) \<and> (\<forall>d \<in> set (x_start s). good_dispatch s d) \<and>
     (\<forall>f \<in> set (x_stdin s). is_input f) \<and> log_ok s"

section \<open>Work\<close>

datatype x_role = Sender | Receiver | Main

fun role :: "x_work \<Rightarrow> (nat \<times> x_role) option" where
  "role (XMain p) = Some (p, Main)"
| "role (XAttached p) = Some (p, Sender)"
| "role (XWait p) = Some (p, Sender)"
| "role (XCheck p d) = Some (p, Sender)"
| "role (XScript p d) = Some (p, Sender)"
| "role (XBefore p d) = Some (p, Sender)"
| "role (XCommit p d) = Some (p, Sender)"
| "role (XStart p d) = Some (p, Sender)"
| "role (XInput p) = Some (p, Sender)"
| "role (XReceive p st) = Some (p, Receiver)"
| "role _ = None"

fun xptr :: "x_work \<Rightarrow> nat option" where
  "xptr (XTerminalRemove _ _) = None"
| "xptr (XFirst _) = None"
| "xptr w = map_option fst (session_work w)"

fun slot_holder :: "x_work \<Rightarrow> bool" where
  "slot_holder (XFirst _) \<longleftrightarrow> True" | "slot_holder (XMain _) \<longleftrightarrow> True" | "slot_holder (XMainEnd _ _) \<longleftrightarrow> True" | "slot_holder _ \<longleftrightarrow> False"

definition dispatch_ready :: "ExecutionSession \<Rightarrow> executionDispatch \<Rightarrow> bool" where
  "dispatch_ready s d \<longleftrightarrow> good_dispatch s d \<and> (\<exists>fs. before_start_log s fs \<and> (xd_script d \<longrightarrow> script_sent s fs))"

fun xfits :: "ExecutionSession \<Rightarrow> x_work \<Rightarrow> bool" where
  "xfits s (XAttached p) \<longleftrightarrow> x_log s = [] \<and> \<not> x_attached s \<and> \<not> x_startAttempted s"
| "xfits s (XWait p) \<longleftrightarrow> x_log s = [HAttached (Session_Binding s)] \<and> \<not> x_startAttempted s"
| "xfits s (XCheck p d) \<longleftrightarrow> good_dispatch s d \<and> x_log s = [HAttached (Session_Binding s)] \<and> \<not> x_startAttempted s"
| "xfits s (XScript p d) \<longleftrightarrow> good_dispatch s d \<and> x_log s = [HAttached (Session_Binding s)] \<and> \<not> x_startAttempted s"
| "xfits s (XBefore p d) \<longleftrightarrow> dispatch_ready s d \<and> \<not> x_startAttempted s"
| "xfits s (XCommit p d) \<longleftrightarrow> dispatch_ready s d \<and> \<not> x_startAttempted s"
| "xfits s (XStart p d) \<longleftrightarrow> dispatch_ready s d \<and> x_startAttempted s"
| "xfits s (XInput p) \<longleftrightarrow> x_startAttempted s \<and> after_start_log s"
| "xfits s (XReceive p st) \<longleftrightarrow> rv_stdoutEOF st = x_stdoutClosed s \<and> rv_stderrEOF st = x_stderrClosed s \<and>
     rv_started st = x_started s \<and> x_result s = [] \<and> (x_stdoutClosed s \<or> x_stderrClosed s \<longrightarrow> x_started s)"
| "xfits s (XMain p) \<longleftrightarrow> \<not> x_transportDone s"
| "xfits s _ \<longleftrightarrow> True"

text \<open>Fields that the stream's frames and the accepted start speak of.\<close>

definition same_stream :: "ExecutionSession \<Rightarrow> ExecutionSession \<Rightarrow> bool" where
  "same_stream s s' \<longleftrightarrow> x_ID s' = x_ID s \<and> x_NodeID s' = x_NodeID s \<and> x_bootID s' = x_bootID s \<and>
     x_RequestedUser s' = x_RequestedUser s \<and> x_commandHash s' = x_commandHash s \<and> x_prepared s' = x_prepared s \<and>
     x_enhanced s' = x_enhanced s \<and> x_scriptHash s' = x_scriptHash s \<and> x_scriptLength s' = x_scriptLength s \<and>
     x_limits s' = x_limits s"

lemma same_streamD:
  assumes "same_stream s s'"
  shows "start_fits s' st = start_fits s st" "good_dispatch s' d = good_dispatch s d" "Session_Binding s' = Session_Binding s"
    "needs_script s' = needs_script s" "script_sent s' fs = script_sent s fs" "prepared_ok s' pr = prepared_ok s pr"
  using assms by (simp_all add: same_stream_def start_fits_def good_dispatch_def needs_script_def Session_Binding_def
      script_sent_def prepared_ok_def split: option.split)

lemma same_stream_log:
  assumes "same_stream s s'" "x_log s' = x_log s"
  shows "before_start_log s' fs = before_start_log s fs" "after_start_log s' = after_start_log s"
    "dispatch_ready s' d = dispatch_ready s d"
    "x_startAttempted s' = x_startAttempted s \<Longrightarrow> log_ok s' = log_ok s"
  using assms by (simp_all add: before_start_log_def after_start_log_def dispatch_ready_def log_ok_def same_streamD [OF assms(1)])

text \<open>A section that leaves the stream and what belongs to the other goroutines.\<close>

definition keeps :: "x_role option \<Rightarrow> ExecutionSession \<Rightarrow> ExecutionSession \<Rightarrow> bool" where
  "keeps r s s' \<longleftrightarrow>
     (r \<noteq> Some Sender \<longrightarrow> x_log s' = x_log s \<and> x_attached s' = x_attached s \<and> x_startAttempted s' = x_startAttempted s) \<and>
     (r \<noteq> Some Receiver \<longrightarrow> x_started s' = x_started s \<and> x_stdoutClosed s' = x_stdoutClosed s \<and>
        x_stderrClosed s' = x_stderrClosed s \<and> x_result s' = x_result s) \<and>
     (r \<noteq> Some Main \<longrightarrow> x_transportDone s' = x_transportDone s)"

lemma keeps_fits:
  assumes "keeps r s s'" "same_stream s s'" "xfits s w" "map_option snd (role w) \<noteq> r \<or> role w = None"
  shows "xfits s' w"
proof -
  have sender: "x_log s' = x_log s" "x_attached s' = x_attached s" "x_startAttempted s' = x_startAttempted s"
    if "role w = Some (p, Sender)" for p using that assms(1,4) by (auto simp: keeps_def)
  note st = same_streamD [OF assms(2)]
  show ?thesis
  proof (cases w)
    case (XReceive p st')
    then show ?thesis using assms(1,3,4) by (auto simp: keeps_def)
  next
    case (XMain p)
    then show ?thesis using assms(1,3,4) by (auto simp: keeps_def)
  qed (use assms(3) sender st same_stream_log [OF assms(2)] in auto)
qed


section \<open>Sections of one session\<close>

text \<open>A section of the goroutine with role \<open>r\<close> of session \<open>p\<close>: it returns, keeps the session in order and
  out of the way of the others, and leaves at most one piece of work, its own continuation.\<close>

definition turn_ok :: "nat \<Rightarrow> x_role \<Rightarrow> ExecutionSession \<Rightarrow> (x_work list \<times> ExecutionSession) option \<Rightarrow> bool" where
  "turn_ok p r s res \<longleftrightarrow> (\<exists>ws s'. res = Some (ws, s') \<and> sess_ok s' \<and> x_ticketUsed s' = x_ticketUsed s \<and> same_stream s s' \<and>
     keeps (Some r) s s' \<and>
     (ws = [] \<or> (\<exists>x. ws = [x] \<and> xptr x = Some p \<and> (role x = None \<or> role x = Some (p, r)) \<and> xfits s' x)))"

lemma turn_okI:
  assumes "res = Some (ws, s')" "sess_ok s'" "x_ticketUsed s' = x_ticketUsed s" "same_stream s s'" "keeps (Some r) s s'"
    "ws = [] \<or> (\<exists>x. ws = [x] \<and> xptr x = Some p \<and> (role x = None \<or> role x = Some (p, r)) \<and> xfits s' x)"
  shows "turn_ok p r s res"
  using assms by (auto simp: turn_ok_def)

lemma same_stream_refl [simp]: "same_stream s s" by (simp add: same_stream_def)

lemma keeps_refl [simp]: "keeps r s s" by (simp add: keeps_def)

lemma turn_ok_same: "sess_ok s \<Longrightarrow> ws = [] \<or> (\<exists>x. ws = [x] \<and> xptr x = Some p \<and> (role x = None \<or> role x = Some (p, r)) \<and> xfits s x) \<Longrightarrow>
  turn_ok p r s (Some (ws, s))"
  by (intro turn_okI) auto

lemma sess_ok_same:
  assumes "sess_ok s" "same_stream s s'" "x_ticketUsed s' = x_ticketUsed s" "x_ticketUsed s \<or> untouched s'"
    "x_preparedReady s' = x_preparedReady s" "x_prepareErr s' = x_prepareErr s" "x_dispatch s' = x_dispatch s"
    "set (x_start s') \<subseteq> set (x_start s)" "\<forall>f \<in> set (x_stdin s'). is_input f" "log_ok s'"
  shows "sess_ok s'"
proof -
  have pr: "x_prepared s' = x_prepared s" using assms(2) by (simp add: same_stream_def)
  have i: "x_preparedReady s \<longleftrightarrow> x_prepared s \<noteq> None \<or> x_prepareErr s \<noteq> None"
      "\<And>pr. x_prepared s = Some pr \<Longrightarrow> prepared_ok s pr" "x_ticketUsed s \<Longrightarrow> x_prepared s \<noteq> None"
      "x_start s \<noteq> [] \<Longrightarrow> x_dispatch s" "\<And>d. d \<in> set (x_start s) \<Longrightarrow> good_dispatch s d"
    using assms(1) unfolding sess_ok_def by blast+
  have "x_start s' \<noteq> [] \<Longrightarrow> x_start s \<noteq> []" using assms(8) by auto
  then show ?thesis
    unfolding sess_ok_def pr assms(3,5,6,7) same_streamD [OF assms(2)]
    using i assms(4,8,9,10) by blast
qed

lemma logged:
  "x_log (log_frames fs s) = x_log s @ fs" "same_stream s (log_frames fs s)" "x_startAttempted (log_frames fs s) = x_startAttempted s"
  by (simp_all add: log_frames_def same_stream_def)

lemma script_loop_frames: "script_loop sha len hash offset seen reads = (fs, ok) \<Longrightarrow> \<forall>f \<in> set fs. is_script f"
  by (induction reads arbitrary: offset seen fs ok) (auto simp: Let_def split: if_splits prod.splits)

lemma script_frames:
  assumes "sendProtectedScript sha reads eof_sent s = (fs, ok)"
  shows "\<forall>f \<in> set fs. is_script f" "ok \<Longrightarrow> script_sent s fs"
  using assms script_loop_frames
  by (auto simp: sendProtectedScript_def script_sent_def split: prod.splits if_splits)

lemma before_log_frames:
  assumes "x_log s = [HAttached (Session_Binding s)]" "\<forall>f \<in> set fs. is_script f"
  shows "before_start_log (log_frames fs s) fs"
  using assms same_streamD(3) [OF logged(2), of fs s] by (simp add: before_start_log_def logged)

lemma send_attached_ok:
  assumes "sess_ok s" "x_ticketUsed s" "xfits s (XAttached p)" shows "turn_ok p Sender s (send_attached p ans s)"
proof (cases "xn_ok ans")
  case True
  let ?s = "log_frames [HAttached (Session_Binding s)] (s\<lparr>x_attached := True\<rparr>)"
  have ss: "same_stream s ?s" by (simp add: same_stream_def log_frames_def)
  have lg: "x_log ?s = [HAttached (Session_Binding ?s)]" using assms(3) same_streamD(3) [OF ss] by (simp add: log_frames_def)
  have "sess_ok ?s"
    by (rule sess_ok_same [OF assms(1) ss])
      (use assms lg in \<open>auto simp: log_frames_def sess_ok_def log_ok_def before_start_log_def\<close>)
  then show ?thesis
    using True assms ss lg by (intro turn_okI [of _ "[XWait p]" ?s]) (auto simp: send_attached_def log_frames_def keeps_def)
next
  case False
  then show ?thesis using assms by (simp add: send_attached_def turn_ok_same)
qed

lemma await_dispatch_ok:
  assumes "sess_ok s" "x_ticketUsed s" "xfits s (XWait p)" shows "turn_ok p Sender s (await_dispatch p ans s)"
proof (cases "xn_stop ans \<or> x_start s = []")
  case True
  then show ?thesis using assms by (auto simp: await_dispatch_def turn_ok_same)
next
  case False
  then obtain d ds where d: "x_start s = d # ds" by (cases "x_start s") auto
  let ?s = "s\<lparr>x_start := ds\<rparr>"
  have ss: "same_stream s ?s" by (simp add: same_stream_def)
  have "sess_ok ?s"
    by (rule sess_ok_same [OF assms(1) ss]) (use assms d same_stream_log(4) [OF ss] in \<open>auto simp: sess_ok_def\<close>)
  moreover have "good_dispatch s d" using assms(1) d by (simp add: sess_ok_def)
  ultimately show ?thesis
    using False d ss assms(3) same_streamD(2,3) [OF ss]
    by (intro turn_okI [of _ "[XCheck p d]" ?s]) (auto simp: await_dispatch_def keeps_def)
qed

lemma check_launch_ok:
  assumes "sess_ok s" "xfits s (XCheck p d)" shows "turn_ok p Sender s (check_launch p d ans s)"
  using assms by (auto simp: check_launch_def dispatch_ready_def before_start_log_def split: option.split intro!: turn_ok_same)

lemma transfer_script_ok:
  assumes "sess_ok s" "x_ticketUsed s" "xfits s (XScript p d)" shows "turn_ok p Sender s (transfer_script p d ans s)"
proof -
  obtain fs ok where r: "sendProtectedScript (xn_sha ans) (xn_reads ans) (xn_ok ans) s = (fs, ok)" by fastforce
  let ?s = "log_frames fs s"
  have b: "before_start_log ?s fs" using before_log_frames [of s fs] script_frames(1) [OF r] assms(3) by simp
  have "sess_ok ?s"
    by (rule sess_ok_same [OF assms(1) logged(2)])
      (use assms b in \<open>auto simp: log_frames_def [of fs s] sess_ok_def log_ok_def\<close>)
  moreover have "ok \<Longrightarrow> xfits ?s (XBefore p d)"
    using b script_frames(2) [OF r] assms(3) same_streamD [OF logged(2), of fs s] by (auto simp: dispatch_ready_def logged)
  ultimately show ?thesis
    using r logged(2) by (intro turn_okI [of _ "if ok then [XBefore p d] else []" ?s]) (auto simp: transfer_script_def log_frames_def keeps_def)
qed

lemma before_start_ok:
  assumes "sess_ok s" "xfits s (XBefore p d)" shows "turn_ok p Sender s (before_start p d ans s)"
  using assms by (auto simp: before_start_def intro!: turn_ok_same)

lemma commit_start_ok:
  assumes "sess_ok s" "x_ticketUsed s" "xfits s (XCommit p d)" shows "turn_ok p Sender s (commit_start p d ans s)"
proof (cases "commit_start p d ans s = Some ([], s)")
  case True
  then show ?thesis using assms(1) by (simp add: turn_ok_same)
next
  case False
  let ?s = "s\<lparr>x_startAttempted := True\<rparr>"
  have r: "commit_start p d ans s = Some ([XStart p d], ?s)" using False by (auto simp: commit_start_def split: option.splits if_splits)
  have ss: "same_stream s ?s" by (simp add: same_stream_def)
  note log = same_stream_log [OF ss]
  have "sess_ok ?s"
    by (rule sess_ok_same [OF assms(1) ss]) (use assms log in \<open>auto simp: sess_ok_def log_ok_def dispatch_ready_def\<close>)
  then show ?thesis
    using assms(3) log(3) ss by (intro turn_okI [OF r]) (auto simp: keeps_def)
qed

lemma send_start_ok:
  assumes "sess_ok s" "x_ticketUsed s" "xfits s (XStart p d)" shows "turn_ok p Sender s (send_start p d ans s)"
proof (cases "xn_ok ans")
  case False
  then show ?thesis using assms(1) by (simp add: send_start_def turn_ok_same)
next
  case True
  let ?s = "log_frames [HStart (xd_start d)] s"
  obtain fs where fs: "before_start_log s fs" "xd_script d \<longrightarrow> script_sent s fs" "good_dispatch s d" "x_startAttempted s"
    using assms(3) by (auto simp: dispatch_ready_def)
  note st = same_streamD [OF logged(2), of "[HStart (xd_start d)]" s]
  have a: "after_start_log ?s"
    unfolding after_start_log_def st
    by (intro exI [of _ fs] exI [of _ "xd_start d"] exI [of _ "[]"])
      (use fs in \<open>auto simp: before_start_log_def good_dispatch_def logged\<close>)
  have "sess_ok ?s"
    by (rule sess_ok_same [OF assms(1) logged(2)]) (use assms a in \<open>auto simp: log_frames_def sess_ok_def log_ok_def\<close>)
  then show ?thesis
    using True fs(4) a logged(2)
    by (intro turn_okI [of _ "[XInput p]" ?s]) (auto simp: send_start_def log_frames_def keeps_def)
qed

lemma forward_input_ok:
  assumes "sess_ok s" "x_ticketUsed s" "xfits s (XInput p)" shows "turn_ok p Sender s (forward_input p ans s)"
proof (cases "xn_stop ans \<or> x_stdin s = []")
  case True
  then show ?thesis using assms by (auto simp: forward_input_def intro!: turn_ok_same)
next
  case False
  then obtain m ms where m: "x_stdin s = m # ms" by (cases "x_stdin s") auto
  have inp: "is_input m" "\<forall>f \<in> set ms. is_input f" using assms(1) m by (simp_all add: sess_ok_def)
  let ?t = "s\<lparr>x_stdin := ms\<rparr>"
  let ?s = "if xn_ok ans then log_frames [m] ?t else ?t"
  have ss: "same_stream s ?s" by (simp add: same_stream_def log_frames_def)
  have a: "after_start_log ?s"
  proof -
    obtain fs st ins where l: "x_log s = HAttached (Session_Binding s) # fs @ HStart st # ins" "\<forall>f \<in> set fs. is_script f"
        "\<forall>f \<in> set ins. is_input f" "start_fits s st" "needs_script s \<longrightarrow> script_sent s fs"
      using assms(3) by (auto simp: after_start_log_def)
    have "x_log ?s = HAttached (Session_Binding s) # fs @ HStart st # (ins @ (if xn_ok ans then [m] else []))"
      using l(1) by (simp add: log_frames_def)
    moreover have "\<forall>f \<in> set (ins @ (if xn_ok ans then [m] else [])). is_input f" using l(3) inp(1) by auto
    ultimately show ?thesis unfolding after_start_log_def same_streamD [OF ss] using l(2,4,5) by blast
  qed
  have sa: "x_startAttempted ?s" using assms(3) by (simp add: log_frames_def)
  have "sess_ok ?s"
    by (rule sess_ok_same [OF assms(1) ss]) (use assms inp(2) a sa in \<open>auto simp: log_frames_def sess_ok_def log_ok_def\<close>)
  then show ?thesis
    using False m ss a sa
    by (intro turn_okI [of _ "if xn_ok ans then [XInput p] else []" ?s])
      (auto simp: forward_input_def log_frames_def keeps_def)
qed


text \<open>The receiver.\<close>

definition recv_ok :: "recv_state \<Rightarrow> ExecutionSession \<Rightarrow> bool" where
  "recv_ok st s \<longleftrightarrow> xfits s (XReceive 0 st)"

text \<open>What a message may change.\<close>

definition received :: "ExecutionSession \<Rightarrow> ExecutionSession \<Rightarrow> bool" where
  "received s s' \<longleftrightarrow> x_ticketUsed s' = x_ticketUsed s \<and> same_stream s s' \<and> keeps (Some Receiver) s s' \<and>
     x_preparedReady s' = x_preparedReady s \<and> x_prepareErr s' = x_prepareErr s \<and> x_dispatch s' = x_dispatch s \<and>
     x_start s' = x_start s \<and> x_stdin s' = x_stdin s"

lemma receive_message_ok:
  assumes "recv_ok st s"
  shows "\<exists>out s'. receive_message delivered m st s = Some (out, s') \<and> received s s' \<and> (\<forall>st'. out = RGoOn st' \<longrightarrow> recv_ok st' s')"
proof -
  have c: "rv_stdoutEOF st = x_stdoutClosed s" "rv_stderrEOF st = x_stderrClosed s" "rv_started st = x_started s" "x_result s = []"
      "\<not> x_started s \<Longrightarrow> \<not> x_stdoutClosed s \<and> \<not> x_stderrClosed s"
    using assms by (auto simp: recv_ok_def)
  note rd = received_def keeps_def same_stream_def
  have same: "received s s" "received s (s\<lparr>x_started := True\<rparr>)" by (simp_all add: rd)
  have out: "received s (s\<lparr>x_stdout := o1\<rparr>)" "received s (s\<lparr>x_stderr := o1\<rparr>)" for o1 by (simp_all add: rd)
  have eof: "received s (s\<lparr>x_stdoutClosed := True\<rparr>)" "received s (s\<lparr>x_stderrClosed := True\<rparr>)" by (simp_all add: rd)
  have res: "received s (s\<lparr>x_result := r\<rparr>)" "received s (s\<lparr>x_result := r, x_stdoutClosed := True, x_stderrClosed := True\<rparr>)" for r
    by (simp_all add: rd)
  show ?thesis
  proof (cases m)
    case (AStarted b)
    then show ?thesis using c same by (auto simp: receive_started_def recv_ok_def)
  next
    case (AStartFailed x)
    then show ?thesis using c same res by (auto simp: receive_start_failed_def send_result_def Let_def split: option.split)
  next
    case (AStdout x)
    then show ?thesis using c same out
      by (auto simp: receive_stdout_def recv_ok_def deliverExecutionOutput_def split: option.split sum.split)
  next
    case (AStderr x)
    then show ?thesis using c same out
      by (auto simp: receive_stderr_def recv_ok_def deliverExecutionOutput_def split: option.split sum.split)
  next
    case (AOutputEof x)
    then show ?thesis using c same eof
      by (auto simp: receive_eof_def recv_ok_def split: option.split output_kind.split)
  next
    case (AResult x)
    then show ?thesis using c same res by (auto simp: receive_result_def send_result_def split: option.split)
  next
    case AOther
    then show ?thesis using same by simp
  qed
qed

lemma received_frame:
  assumes "received s s'" "sess_ok s" "x_ticketUsed s"
  shows "sess_ok s'" "x_ticketUsed s' = x_ticketUsed s" "same_stream s s'" "keeps (Some Receiver) s s'"
proof -
  have f: "x_ticketUsed s' = x_ticketUsed s" "same_stream s s'" "keeps (Some Receiver) s s'" "x_preparedReady s' = x_preparedReady s"
      "x_prepareErr s' = x_prepareErr s" "x_dispatch s' = x_dispatch s" "x_start s' = x_start s" "x_stdin s' = x_stdin s"
      "x_log s' = x_log s" "x_startAttempted s' = x_startAttempted s"
    using assms(1) by (simp_all add: received_def keeps_def)
  then show "x_ticketUsed s' = x_ticketUsed s" "same_stream s s'" "keeps (Some Receiver) s s'" by simp_all
  show "sess_ok s'"
    by (rule sess_ok_same [OF assms(2) f(2,1)])
      (use f assms(2,3) same_stream_log(4) [OF f(2,9,10)] in \<open>auto simp: sess_ok_def\<close>)
qed

lemma receive_turn_ok:
  assumes "sess_ok s" "x_ticketUsed s" "xfits s (XReceive p st)" shows "turn_ok p Receiver s (receive_turn p st ans s)"
proof (cases "xn_msg ans")
  case None
  then show ?thesis using assms(1) by (simp add: receive_turn_def turn_ok_same)
next
  case (Some m)
  have "recv_ok st s" using assms(3) by (simp add: recv_ok_def)
  then obtain out s' where r: "receive_message (xn_ok ans) m st s = Some (out, s')" "received s s'"
      "\<And>st'. out = RGoOn st' \<Longrightarrow> recv_ok st' s'"
    using receive_message_ok [of st s "xn_ok ans" m] by blast
  note f = received_frame [OF r(2) assms(1,2)]
  show ?thesis
  proof (cases out)
    case (RGoOn st')
    then have turn: "receive_turn p st ans s = Some ([XReceive p st'], s')" using Some r(1) by (simp add: receive_turn_def)
    have "xfits s' (XReceive p st')" using r(3) [OF RGoOn] by (simp add: recv_ok_def)
    then show ?thesis by (intro turn_okI [OF turn f] disjI2 exI [of _ "XReceive p st'"]) simp
  next
    case (RReturn e)
    then have "receive_turn p st ans s = Some ([], s')" using Some r(1) by (simp add: receive_turn_def)
    then show ?thesis by (rule turn_okI [OF _ f]) simp
  qed
qed

text \<open>The main goroutine, cancellation and the preparation.\<close>

lemma end_transport_ok:
  assumes "sess_ok s" "x_ticketUsed s" "xfits s (XMain p)" shows "turn_ok p Main s (end_transport p ans s)"
proof -
  let ?s = "s\<lparr>x_transportDone := True\<rparr>"
  have ss: "same_stream s ?s" by (simp add: same_stream_def)
  have "sess_ok ?s"
    by (rule sess_ok_same [OF assms(1) ss]) (use assms same_stream_log(4) [OF ss] in \<open>auto simp: sess_ok_def\<close>)
  with assms(3) ss show ?thesis
    by (intro turn_okI [of _ "[XMainEnd p (\<not> xn_ok ans)]" ?s]) (auto simp: end_transport_def keeps_def)
qed

text \<open>A section of no role: it keeps what belongs to the goroutines.\<close>

definition quiet_ok :: "ExecutionSession \<Rightarrow> ExecutionSession \<Rightarrow> bool" where
  "quiet_ok s s' \<longleftrightarrow> sess_ok s' \<and> x_ticketUsed s' = x_ticketUsed s \<and> (x_ticketUsed s \<longrightarrow> same_stream s s') \<and> keeps None s s'"

lemma quiet_ok_refl [simp]: "sess_ok s \<Longrightarrow> quiet_ok s s" by (simp add: quiet_ok_def)

lemma cancel_ok:
  assumes "sess_ok s" shows "quiet_ok s (Execution_Cancel reason s)"
proof (cases "x_done s")
  case False
  let ?s = "s\<lparr>x_reason := reason, x_done := True\<rparr>"
  have ss: "same_stream s ?s" by (simp add: same_stream_def)
  have "sess_ok ?s"
    by (rule sess_ok_same [OF assms ss]) (use assms same_stream_log(4) [OF ss] in \<open>auto simp: sess_ok_def untouched_def\<close>)
  with False ss show ?thesis by (simp add: quiet_ok_def Execution_Cancel_def keeps_def)
qed (use assms in \<open>simp add: Execution_Cancel_def\<close>)

lemma validatePrepared_ok: "validatePrepared s p now = None \<Longrightarrow> prepared_ok s p"
  by (cases "pr_binding p"; cases "pr_identity p")
    (auto simp: validatePrepared_def prepared_ok_def split: if_split_asm)

lemma take_prepared_ok:
  assumes "sess_ok s"
  shows "\<exists>s'. take_prepared msg ans s = Some ([], s') \<and> quiet_ok s s'"
proof (cases "x_prepared s \<noteq> None \<or> x_prepareErr s \<noteq> None")
  case True
  then show ?thesis using assms by (auto simp: take_prepared_def DeliverPrepared_def)
next
  case False
  then have i: "\<not> x_preparedReady s" "x_prepared s = None" "x_prepareErr s = None" "\<not> x_ticketUsed s"
    using assms unfolding sess_ok_def by blast+
  then have u: "untouched s" "x_start s = []" "\<forall>f \<in> set (x_stdin s). is_input f"
    using assms unfolding sess_ok_def by (auto simp: untouched_def)
  show ?thesis
  proof (cases "validatePrepared s msg (hc_wall (xn_clock ans))")
    case None
    let ?s = "s\<lparr>x_prepared := Some msg, x_preparationDeadline := Some (preparation_deadline (xn_clock ans) (the (pr_binding msg))),
      x_preparedReady := True\<rparr>"
    have "prepared_ok ?s msg" using validatePrepared_ok [OF None] by (simp add: prepared_ok_def)
    then have "sess_ok ?s" using i u by (simp add: sess_ok_def untouched_def log_ok_def)
    then have "quiet_ok s ?s" using i(4) by (simp add: quiet_ok_def keeps_def)
    moreover have "take_prepared msg ans s = Some ([], ?s)" using None i by (simp add: take_prepared_def DeliverPrepared_def)
    ultimately show ?thesis by blast
  next
    case (Some e)
    let ?s = "s\<lparr>x_prepareErr := Some e, x_preparedReady := True\<rparr>"
    have "sess_ok ?s" using i u by (simp add: sess_ok_def untouched_def log_ok_def)
    then have "quiet_ok s ?s" using i(4) by (simp add: quiet_ok_def keeps_def)
    moreover have "take_prepared msg ans s = Some ([], ?s)" using Some i by (simp add: take_prepared_def DeliverPrepared_def)
    ultimately show ?thesis by blast
  qed
qed


text \<open>Calls on a session its caller holds.\<close>

lemma session_dispatch_ok:
  assumes "sess_ok s" "x_ticketUsed s" "\<not> x_dispatch s" "good_dispatch s d"
  shows "\<exists>s'. enqueue_dispatch d s = Some (Inr (), s') \<and> quiet_ok s s'"
proof -
  have "x_start s = []" using assms(1,3) by (auto simp: sess_ok_def)
  let ?s = "s\<lparr>x_dispatch := True, x_start := [d]\<rparr>"
  have ss: "same_stream s ?s" by (simp add: same_stream_def)
  have "sess_ok ?s"
    using assms same_streamD [OF ss] same_stream_log(4) [OF ss] unfolding sess_ok_def by simp
  then have "quiet_ok s ?s" using ss by (simp add: quiet_ok_def keeps_def)
  with \<open>x_start s = []\<close> show ?thesis by (simp add: enqueue_dispatch_def)
qed

lemma start_message_fits:
  assumes "sess_ok s" "x_ticketUsed s" "if x_enhanced s then receipt \<noteq> [] \<and> length receipt \<le> 16384 \<and>
      (\<exists>b. Option.bind (x_prepared s) pr_binding = Some b \<and> expiry \<le> eb_expires b) else receipt = [] \<and> policy = ''standard-v1''"
  shows "start_fits s (start_message (the (x_prepared s)) policy receipt expiry)"
proof -
  obtain pr where pr: "x_prepared s = Some pr" "prepared_ok s pr" using assms(1,2) by (auto simp: sess_ok_def)
  then obtain b i where "pr_binding pr = Some b" "pr_identity pr = Some i" by (auto simp: prepared_ok_def)
  with pr assms(3) show ?thesis by (auto simp: start_fits_def start_message_def prepared_ok_def split: if_splits)
qed

lemma session_calls_ok:
  assumes ok: "sess_ok s" shows "\<exists>s'. session_calls c s = Some s' \<and> quiet_ok s s'"
proof (cases c)
  case (SIssueAttach t random)
  have "quiet_ok s (s\<lparr>x_ticket := tk, x_ticketIssued := True\<rparr>)" for tk
  proof -
    let ?s = "s\<lparr>x_ticket := tk, x_ticketIssued := True\<rparr>"
    have ss: "same_stream s ?s" by (simp add: same_stream_def)
    have "sess_ok ?s"
      by (rule sess_ok_same [OF ok ss]) (use ok same_stream_log(4) [OF ss] in \<open>auto simp: sess_ok_def untouched_def\<close>)
    with ss show ?thesis by (simp add: quiet_ok_def keeps_def)
  qed
  with SIssueAttach ok show ?thesis by (simp add: IssueAttach_def split: option.split)
next
  case (SConfigure enhanced hash len limits)
  have "quiet_ok s (s\<lparr>x_enhanced := enhanced, x_scriptHash := hash, x_scriptLength := len, x_limits := l\<rparr>)"
    if "x_prepared s = None" for l
  proof -
    let ?s = "s\<lparr>x_enhanced := enhanced, x_scriptHash := hash, x_scriptLength := len, x_limits := l\<rparr>"
    have u: "\<not> x_ticketUsed s" using ok that by (auto simp: sess_ok_def)
    then have "untouched s" "x_start s = []" using ok by (auto simp: sess_ok_def untouched_def)
    then have "sess_ok ?s" using ok that u by (simp add: sess_ok_def untouched_def log_ok_def)
    with u show ?thesis by (simp add: quiet_ok_def keeps_def)
  qed
  with SConfigure ok show ?thesis by (auto simp: Configure_def split: option.split)
next
  case (SDispatch cm t checked)
  let ?d = "\<lparr>xd_start = start_message (the (x_prepared s)) ''standard-v1'' [] 0, xd_script = False, xd_before = checked\<rparr>"
  show ?thesis
  proof (cases "x_ticketUsed s \<and> \<not> x_dispatch s \<and> \<not> x_enhanced s")
    case True
    then have "good_dispatch s ?d" using start_message_fits [OF ok, of "[]" 0 "''standard-v1''"] by (simp add: good_dispatch_def needs_script_def)
    with True obtain s' where "enqueue_dispatch ?d s = Some (Inr (), s')" "quiet_ok s s'" using session_dispatch_ok [OF ok, of ?d] by blast
    with SDispatch ok show ?thesis by (simp add: dispatchStandard_def)
  next
    case False
    then have "dispatchStandard cm t checked s = Some (Inl ''execution is not dispatchable'', s)" by (auto simp: dispatchStandard_def)
    with SDispatch ok show ?thesis by simp
  qed
next
  case (SDispatchProtected cm t receipt expiry policy script checked)
  let ?d = "\<lparr>xd_start = start_message (the (x_prepared s)) policy receipt expiry, xd_script = script, xd_before = checked\<rparr>"
  let ?refuse = "DispatchProtected cm t receipt expiry policy script checked s = Some (Inl ''protected execution is not dispatchable'', s)"
  let ?late = "case Option.bind (x_prepared s) pr_binding of None \<Rightarrow> True | Some b \<Rightarrow> expiry > eb_expires b"
  show ?thesis
  proof (cases "x_ticketUsed s \<and> \<not> x_dispatch s \<and> x_enhanced s \<and> receipt \<noteq> [] \<and> length receipt \<le> 16384 \<and> \<not> ?late \<and> checked \<and>
      (x_scriptHash s = [] \<or> script)")
    case True
    then have "\<exists>b. Option.bind (x_prepared s) pr_binding = Some b \<and> expiry \<le> eb_expires b"
      by (auto split: option.splits)
    with True have "good_dispatch s ?d"
      using start_message_fits [OF ok, of receipt expiry policy] by (auto simp: good_dispatch_def needs_script_def)
    with True obtain s' where "enqueue_dispatch ?d s = Some (Inr (), s')" "quiet_ok s s'" using session_dispatch_ok [OF ok, of ?d] by blast
    with True SDispatchProtected ok show ?thesis by (auto simp: DispatchProtected_def)
  next
    case False
    then have ?refuse unfolding DispatchProtected_def by (subst if_P) auto
    with SDispatchProtected ok show ?thesis by simp
  qed
next
  case (SSendInput sel data)
  have "quiet_ok s (s\<lparr>x_stdin := x_stdin s @ [HInput sq data], x_inputSequence := n\<rparr>)" for sq n
  proof -
    let ?s = "s\<lparr>x_stdin := x_stdin s @ [HInput sq data], x_inputSequence := n\<rparr>"
    have ss: "same_stream s ?s" by (simp add: same_stream_def)
    have "sess_ok ?s"
      by (rule sess_ok_same [OF ok ss]) (use ok same_stream_log(4) [OF ss] in \<open>auto simp: sess_ok_def untouched_def\<close>)
    with ss show ?thesis by (simp add: quiet_ok_def keeps_def)
  qed
  with SSendInput ok show ?thesis by (auto simp: SendInput_def enqueueInput_def split: enqueue_select.split)
next
  case (SCloseInput sel)
  have "quiet_ok s (s\<lparr>x_stdin := x_stdin s @ [HInputEof sq], x_inputClosed := True\<rparr>)" for sq
  proof -
    let ?s = "s\<lparr>x_stdin := x_stdin s @ [HInputEof sq], x_inputClosed := True\<rparr>"
    have ss: "same_stream s ?s" by (simp add: same_stream_def)
    have "sess_ok ?s"
      by (rule sess_ok_same [OF ok ss]) (use ok same_stream_log(4) [OF ss] in \<open>auto simp: sess_ok_def untouched_def\<close>)
    with ss show ?thesis by (simp add: quiet_ok_def keeps_def)
  qed
  with SCloseInput ok show ?thesis by (auto simp: CloseInput_def enqueueInput_def split: enqueue_select.split)
next
  case (SCancel reason)
  then show ?thesis using cancel_ok [OF ok] by simp
qed


section \<open>The invariant of the system\<close>

definition has_role :: "nat \<Rightarrow> x_role \<Rightarrow> x_work \<Rightarrow> bool" where
  "has_role p r w \<longleftrightarrow> role w = Some (p, r)"

definition x_inv :: "ExecutionSessions \<Rightarrow> x_work list \<Rightarrow> bool" where
  "x_inv es work \<longleftrightarrow> (\<forall>(k, p) \<in> set (es_sessions es). p < es_next es) \<and> (\<forall>p < es_next es. sess_ok (es_objs es p)) \<and>
     (\<forall>w \<in> set work. \<forall>p. xptr w = Some p \<longrightarrow> p < es_next es \<and> xfits (es_objs es p) w) \<and>
     (\<forall>p r. count_where (has_role p r) work \<le> (if p < es_next es \<and> x_ticketUsed (es_objs es p) then 1 else 0)) \<and>
     es_rpcSlots es = count_where slot_holder work \<and> es_rpcSlots es \<le> rpc_slots"

lemma x_invI:
  assumes "\<And>k p. (k, p) \<in> set (es_sessions es) \<Longrightarrow> p < es_next es" "\<And>p. p < es_next es \<Longrightarrow> sess_ok (es_objs es p)"
    "\<And>w p. w \<in> set work \<Longrightarrow> xptr w = Some p \<Longrightarrow> p < es_next es \<and> xfits (es_objs es p) w"
    "\<And>p r. count_where (has_role p r) work \<le> (if p < es_next es \<and> x_ticketUsed (es_objs es p) then 1 else 0)"
    "es_rpcSlots es = count_where slot_holder work" "es_rpcSlots es \<le> rpc_slots"
  shows "x_inv es work"
  unfolding x_inv_def using assms by blast

lemma x_invD:
  assumes "x_inv es work"
  shows "(k, p) \<in> set (es_sessions es) \<Longrightarrow> p < es_next es" "p < es_next es \<Longrightarrow> sess_ok (es_objs es p)"
    "w \<in> set work \<Longrightarrow> xptr w = Some p \<Longrightarrow> p < es_next es" "w \<in> set work \<Longrightarrow> xptr w = Some p \<Longrightarrow> xfits (es_objs es p) w"
    "count_where (has_role p r) work \<le> (if p < es_next es \<and> x_ticketUsed (es_objs es p) then 1 else 0)"
    "es_rpcSlots es = count_where slot_holder work" "es_rpcSlots es \<le> rpc_slots"
  using assms unfolding x_inv_def by blast+

lemma count_where_pos: "w \<in> set work \<Longrightarrow> P w \<Longrightarrow> 0 < count_where P work"
  by (induction work) auto

lemma role_ptr: "role w = Some (p, r) \<Longrightarrow> xptr w = Some p" by (cases w) auto

lemma no_role_fits: "role w = None \<Longrightarrow> xfits s w" by (cases w) auto

lemma role_used:
  assumes "x_inv es work" "w \<in> set work" "role w = Some (p, r)"
  shows "p < es_next es" "x_ticketUsed (es_objs es p)" "\<And>x. x \<in> set (remove1 w work) \<Longrightarrow> role x \<noteq> Some (p, r)"
proof -
  have "0 < count_where (has_role p r) work" using assms(2,3) by (intro count_where_pos) (auto simp: has_role_def)
  then show "p < es_next es" "x_ticketUsed (es_objs es p)" using x_invD(5) [OF assms(1), of p r] by (auto split: if_splits)
  show "role x \<noteq> Some (p, r)" if "x \<in> set (remove1 w work)" for x
  proof
    assume "role x = Some (p, r)"
    then have "0 < count_where (has_role p r) (remove1 w work)" using that by (intro count_where_pos) (auto simp: has_role_def)
    then show False
      using count_where_remove1 [OF assms(2), of "has_role p r"] x_invD(5) [OF assms(1), of p r] assms(3)
      by (auto simp: has_role_def split: if_splits)
  qed
qed

text \<open>A section of a goroutine of one session.\<close>

lemma turn_inv:
  assumes inv: "x_inv es work" and w: "w \<in> set work" "role w = Some (p, r)" and turn: "turn_ok p r (es_objs es p) res"
    and slots: "\<And>ws s'. res = Some (ws, s') \<Longrightarrow> count_where slot_holder ws = (if slot_holder w then 1 else 0)"
  shows "\<exists>ws s'. res = Some (ws, s') \<and> x_inv (set_session p s' es) (ws @ remove1 w work)"
proof -
  let ?s = "es_objs es p"
  note used = role_used [OF inv w]
  obtain ws s' where res: "res = Some (ws, s')" "sess_ok s'" "x_ticketUsed s' = x_ticketUsed ?s" "same_stream ?s s'"
      "keeps (Some r) ?s s'" "ws = [] \<or> (\<exists>x. ws = [x] \<and> xptr x = Some p \<and> (role x = None \<or> role x = Some (p, r)) \<and> xfits s' x)"
    using turn by (auto simp: turn_ok_def)
  let ?es = "set_session p s' es"
  have o: "es_objs ?es p = s'" "q \<noteq> p \<Longrightarrow> es_objs ?es q = es_objs es q" "es_next ?es = es_next es" "es_sessions ?es = es_sessions es"
      "es_rpcSlots ?es = es_rpcSlots es" for q by (simp_all add: set_session_def)
  have "x_inv ?es (ws @ remove1 w work)"
  proof (rule x_invI)
    show "q < es_next ?es" if "(k, q) \<in> set (es_sessions ?es)" for k q using that x_invD(1) [OF inv] by (simp add: o)
    show "sess_ok (es_objs ?es q)" if "q < es_next ?es" for q
      using that x_invD(2) [OF inv] res(2) o by (cases "q = p") simp_all
    show "q < es_next ?es \<and> xfits (es_objs ?es q) x" if x: "x \<in> set (ws @ remove1 w work)" "xptr x = Some q" for x q
    proof (cases "x \<in> set ws")
      case True
      then show ?thesis using res(6) x(2) used(1) o by auto
    next
      case False
      then have xw: "x \<in> set (remove1 w work)" "x \<in> set work" using x(1) by (auto dest: set_remove1_subset [THEN subsetD])
      have "role x \<noteq> Some (p, r)" by (rule used(3) [OF xw(1)])
      then have "map_option snd (role x) \<noteq> Some r \<or> role x = None" if "q = p"
        using x(2) that role_ptr [of x] by (cases "role x") auto
      then show ?thesis
        using x_invD(3,4) [OF inv xw(2) x(2)] keeps_fits [OF res(5,4)] o by (cases "q = p") auto
    qed
    show "count_where (has_role q r') (ws @ remove1 w work) \<le> (if q < es_next ?es \<and> x_ticketUsed (es_objs ?es q) then 1 else 0)" for q r'
    proof -
      have "count_where (has_role q r') ws \<le> (if has_role q r' w then 1 else 0)" using res(6) w(2) by (auto simp: has_role_def)
      then have "count_where (has_role q r') (ws @ remove1 w work) \<le> count_where (has_role q r') work"
        using count_where_remove1 [OF w(1), of "has_role q r'"] by simp
      also have "\<dots> \<le> (if q < es_next es \<and> x_ticketUsed (es_objs es q) then 1 else 0)" by (rule x_invD(5) [OF inv])
      finally show ?thesis using res(3) o by (cases "q = p") simp_all
    qed
    show "es_rpcSlots ?es = count_where slot_holder (ws @ remove1 w work)"
      using slots [OF res(1)] count_where_remove1 [OF w(1), of slot_holder] x_invD(6) [OF inv] o by simp
    show "es_rpcSlots ?es \<le> rpc_slots" using x_invD(7) [OF inv] o by simp
  qed
  with res(1) show ?thesis by blast
qed

text \<open>A section of no goroutine of the session, with the work that is left.\<close>

lemma quiet_inv:
  assumes inv: "x_inv es work" and p: "p < es_next es" and q: "quiet_ok (es_objs es p) s'"
    and sub: "set work' \<subseteq> set work" and roles: "\<And>q r. count_where (has_role q r) work' \<le> count_where (has_role q r) work"
    and slots: "k = count_where slot_holder work'" "k \<le> rpc_slots"
  shows "x_inv ((set_session p s' es)\<lparr>es_rpcSlots := k\<rparr>) work'"
proof -
  let ?s = "es_objs es p" and ?es = "(set_session p s' es)\<lparr>es_rpcSlots := k\<rparr>"
  have s': "sess_ok s'" "x_ticketUsed s' = x_ticketUsed ?s" "x_ticketUsed ?s \<Longrightarrow> same_stream ?s s'" "keeps None ?s s'"
    using q by (auto simp: quiet_ok_def)
  have o: "es_objs ?es p = s'" "q \<noteq> p \<Longrightarrow> es_objs ?es q = es_objs es q" "es_next ?es = es_next es" "es_sessions ?es = es_sessions es"
      "es_rpcSlots ?es = k" for q by (simp_all add: set_session_def)
  show ?thesis
  proof (rule x_invI)
    show "q < es_next ?es" if "(k, q) \<in> set (es_sessions ?es)" for k q using that x_invD(1) [OF inv] by (simp add: o)
    show "sess_ok (es_objs ?es q)" if "q < es_next ?es" for q
      using that x_invD(2) [OF inv] s'(1) o by (cases "q = p") simp_all
    show "q < es_next ?es \<and> xfits (es_objs ?es q) x" if x: "x \<in> set work'" "xptr x = Some q" for x q
    proof -
      have xw: "x \<in> set work" using x(1) sub by blast
      note old = x_invD(3,4) [OF inv xw x(2)]
      have "xfits s' x" if eq: "q = p"
      proof (cases "role x")
        case None
        then show ?thesis by (rule no_role_fits)
      next
        case (Some a)
        then obtain r where r: "role x = Some (p, r)" using role_ptr [of x "fst a" "snd a"] x(2) eq by (cases a) auto
        have "same_stream ?s s'" using s'(3) role_used(2) [OF inv xw r] .
        from keeps_fits [OF s'(4) this] old(2) eq r show ?thesis by auto
      qed
      then show ?thesis using old o by (cases "q = p") simp_all
    qed
    show "count_where (has_role q r) work' \<le> (if q < es_next ?es \<and> x_ticketUsed (es_objs ?es q) then 1 else 0)" for q r
      using order_trans [OF roles x_invD(5) [OF inv], of q r] s'(2) o by (cases "q = p") simp_all
  qed (use slots o in simp_all)
qed


text \<open>Registry sections: the sessions stay, work on no goroutine's behalf is added.\<close>

lemma idle_inv:
  assumes inv: "x_inv es work" and es': "es_objs es' = es_objs es" "es_next es' = es_next es" "set (es_sessions es') \<subseteq> set (es_sessions es)"
    and sub: "set work' \<subseteq> set work" and roles: "\<And>q r. count_where (has_role q r) work' \<le> count_where (has_role q r) work"
    and ws: "\<And>x. x \<in> set ws \<Longrightarrow> role x = None \<and> (\<forall>p. xptr x = Some p \<longrightarrow> p < es_next es)"
    and slots: "es_rpcSlots es' = count_where slot_holder (ws @ work')" "es_rpcSlots es' \<le> rpc_slots"
  shows "x_inv es' (ws @ work')"
proof (rule x_invI)
  show "p < es_next es'" if "(k, p) \<in> set (es_sessions es')" for k p using that es' x_invD(1) [OF inv, of k p] by auto
  show "sess_ok (es_objs es' p)" if "p < es_next es'" for p using that es' x_invD(2) [OF inv] by simp
  show "p < es_next es' \<and> xfits (es_objs es' p) x" if "x \<in> set (ws @ work')" "xptr x = Some p" for x p
    using that ws [of x] no_role_fits [of x] sub x_invD(3,4) [OF inv, of x p] es' by auto
  show "count_where (has_role p r) (ws @ work') \<le> (if p < es_next es' \<and> x_ticketUsed (es_objs es' p) then 1 else 0)" for p r
  proof -
    have "count_where (has_role p r) ws = 0" using ws by (intro count_where_0) (auto simp: has_role_def)
    then show ?thesis using order_trans [OF roles x_invD(5) [OF inv], of p r] es' by simp
  qed
qed (use slots in simp_all)

lemma ws_slots: "(\<And>x. x \<in> set ws \<Longrightarrow> \<not> slot_holder x) \<Longrightarrow> count_where slot_holder ws = 0"
  by (rule count_where_0)

lemma found_session: "x_inv es work \<Longrightarrow> find_execution_session node i es = Some p \<Longrightarrow> p < es_next es"
  unfolding find_execution_session_def by (drule map_of_SomeD) (rule x_invD(1))

lemma run_xcall_ok:
  assumes inv: "x_inv es work" and ptr: "\<And>p k. c = XCSession p k \<Longrightarrow> p < es_next es"
  shows "\<exists>ws es'. run_xcall c es = Some (ws, es') \<and> x_inv es' (ws @ work)"
proof -
  have idle: ?thesis
    if "run_xcall c es = Some (ws, es')" "es_objs es' = es_objs es" "es_next es' = es_next es" "set (es_sessions es') \<subseteq> set (es_sessions es)"
      "\<And>x. x \<in> set ws \<Longrightarrow> role x = None \<and> \<not> slot_holder x \<and> (\<forall>p. xptr x = Some p \<longrightarrow> p < es_next es)" "es_rpcSlots es' = es_rpcSlots es"
    for ws es'
  proof -
    have "x_inv es' (ws @ work)"
      by (rule idle_inv [OF inv that(2-4)]) (use that(5,6) ws_slots [of ws] x_invD(6,7) [OF inv] in auto)
    with that(1) show ?thesis by blast
  qed
  have captured: "p < es_next es" if "p \<in> snd ` set (es_sessions es)" for p using that x_invD(1) [OF inv] by auto
  show ?thesis
  proof (cases c)
    case (XCSession p k)
    then have p: "p < es_next es" by (rule ptr)
    obtain s' where s': "session_calls k (es_objs es p) = Some s'" "quiet_ok (es_objs es p) s'"
      using session_calls_ok [OF x_invD(2) [OF inv p], of k] by blast
    have "x_inv ((set_session p s' es)\<lparr>es_rpcSlots := es_rpcSlots es\<rparr>) work"
      by (rule quiet_inv [OF inv p s'(2)]) (use x_invD(6,7) [OF inv] in auto)
    then have "x_inv (set_session p s' es) work" by (simp add: set_session_def)
    with s'(1) XCSession show ?thesis by simp
  next
    case (XCSetCapabilities cm node stream caps)
    obtain ps es' where r: "SetCapabilities cm node stream caps es = (ps, es')" by fastforce
    then have f: "es_objs es' = es_objs es" "es_next es' = es_next es" "es_sessions es' = es_sessions es" "es_rpcSlots es' = es_rpcSlots es"
        "set ps \<subseteq> snd ` set (es_sessions es)"
      by (auto simp: SetCapabilities_def Let_def split: option.splits if_splits)
    show ?thesis by (rule idle [OF _ f(1,2)]) (use XCSetCapabilities r f captured [OF subsetD [OF f(5)]] in auto)
  next
    case (XCRemove node i)
    let ?found = "find_execution_session node i es"
    let ?ws = "case ?found of None \<Rightarrow> [] | Some p \<Rightarrow> [XCancel p ''execution closed'', XTerminalRemove node i]"
    show ?thesis
      by (rule idle [of ?ws "snd (Execution_Remove node i es)"])
        (use XCRemove found_session [OF inv, of node i] in \<open>auto simp: Execution_Remove_def find_execution_session_def split: option.splits\<close>)
  next
    case (XCEnd cm node stream reason)
    obtain ps es' where r: "endConnection cm node stream es = (ps, es')" by fastforce
    then have f: "es_objs es' = es_objs es" "es_next es' = es_next es" "es_sessions es' = es_sessions es" "es_rpcSlots es' = es_rpcSlots es"
        "set ps \<subseteq> snd ` set (es_sessions es)"
      by (auto simp: endConnection_def split: option.splits if_splits)
    show ?thesis by (rule idle [OF _ f(1,2)]) (use XCEnd r f captured [OF subsetD [OF f(5)]] in auto)
  next
    case (XCDeliver cm node stream msg)
    let ?ws = "case prepared_target cm node stream msg es of None \<Rightarrow> [] | Some p \<Rightarrow> [XPrepared p (the msg)]"
    have "p < es_next es" if "prepared_target cm node stream msg es = Some p" for p
      using that found_session [OF inv] by (auto simp: prepared_target_def Let_def split: option.splits if_splits)
    then show ?thesis by (intro idle [of ?ws es]) (auto simp: XCDeliver split: option.splits)
  next
    case (XCExecute cm now peer lookup)
    show ?thesis
    proof (cases "Execute_open cm now peer lookup es = ([], es)")
      case True
      then show ?thesis by (intro idle [of "[]" es]) (auto simp: XCExecute)
    next
      case False
      then obtain node where r: "Execute_open cm now peer lookup es = ([XFirst node], es\<lparr>es_rpcSlots := es_rpcSlots es + 1\<rparr>)"
          "es_rpcSlots es < rpc_slots"
        by (auto simp: Execute_open_def split: sum.splits if_splits)
      have "x_inv (es\<lparr>es_rpcSlots := es_rpcSlots es + 1\<rparr>) ([XFirst node] @ work)"
        by (rule idle_inv [OF inv]) (use r(2) x_invD(6) [OF inv] in auto)
      with r(1) XCExecute show ?thesis by simp
    qed
  qed
qed

lemma attach_inv:
  assumes inv: "x_inv es work" and w: "XFirst node \<in> set work"
    and att: "Execution_Attach cm t node req es = (Inr p, es')"
  shows "x_inv es' ([XMain p, XAttached p, XReceive p recv_start] @ remove1 (XFirst node) work)"
proof -
  obtain b ticket s' where a: "find_execution_session node (eb_execution_id b) es = Some p"
      "attach_locked t b ticket (es_objs es p) = (Inr (), s')" "es' = set_session p s' es"
    using att by (auto simp: Execution_Attach_def Let_def split: option.splits if_splits prod.splits sum.splits)
  have p: "p < es_next es" by (rule found_session [OF inv a(1)])
  let ?s = "es_objs es p"
  have s': "s' = ?s\<lparr>x_ticketUsed := True, x_ticket := replicate 32 (CHR 0x00)\<rparr>" and free: "\<not> x_ticketUsed ?s"
      and prep: "x_prepared ?s \<noteq> None"
    using a(2) by (auto simp: attach_locked_def preparationExpiredLocked_def bind_eq_Some_conv split: if_splits option.splits)
  have ok: "sess_ok ?s" "untouched ?s" using x_invD(2) [OF inv p] free by (auto simp: sess_ok_def)
  have ss: "same_stream ?s s'" by (simp add: s' same_stream_def)
  have ok': "sess_ok s'"
    using ok prep same_streamD [OF ss] same_stream_log(4) [OF ss] unfolding sess_ok_def by (simp add: s')
  have none: "count_where (has_role p r) work = 0" for r using x_invD(5) [OF inv, of p r] free by simp
  have norole: "role x \<noteq> Some (p, r)" if "x \<in> set work" for x r
    using count_where_pos [of x work "has_role p r"] that none [of r] by (auto simp: has_role_def)
  have o: "es_objs es' p = s'" "q \<noteq> p \<Longrightarrow> es_objs es' q = es_objs es q" "es_next es' = es_next es" "es_sessions es' = es_sessions es"
      "es_rpcSlots es' = es_rpcSlots es" for q by (simp_all add: a(3) set_session_def)
  let ?new = "[XMain p, XAttached p, XReceive p recv_start]"
  show ?thesis
  proof (rule x_invI)
    show "q < es_next es'" if "(k, q) \<in> set (es_sessions es')" for k q using that x_invD(1) [OF inv] by (simp add: o)
    show "sess_ok (es_objs es' q)" if "q < es_next es'" for q using that x_invD(2) [OF inv] ok' o by (cases "q = p") simp_all
    show "q < es_next es' \<and> xfits (es_objs es' q) x" if x: "x \<in> set (?new @ remove1 (XFirst node) work)" "xptr x = Some q" for x q
    proof (cases "x \<in> set ?new")
      case True
      then show ?thesis using x(2) p ok(2) o by (auto simp: s' untouched_def recv_start_def)
    next
      case False
      then have xw: "x \<in> set work" using x(1) by (auto dest: set_remove1_subset [THEN subsetD])
      have "role x = None" if "q = p" using norole [OF xw] x(2) that role_ptr [of x] by (cases "role x") auto
      then show ?thesis using x_invD(3,4) [OF inv xw x(2)] no_role_fits [of x] o by (cases "q = p") auto
    qed
    show "count_where (has_role q r) (?new @ remove1 (XFirst node) work) \<le> (if q < es_next es' \<and> x_ticketUsed (es_objs es' q) then 1 else 0)" for q r
    proof -
      have "count_where (has_role q r) (remove1 (XFirst node) work) = count_where (has_role q r) work"
        using count_where_remove1 [OF w, of "has_role q r"] by (simp add: has_role_def)
      then show ?thesis
        using none [of r] p x_invD(5) [OF inv, of q r] o by (cases "q = p"; cases r) (auto simp: has_role_def s')
    qed
    show "es_rpcSlots es' = count_where slot_holder (?new @ remove1 (XFirst node) work)"
      using count_where_remove1 [OF w, of slot_holder] x_invD(6) [OF inv] o by simp
    show "es_rpcSlots es' \<le> rpc_slots" using x_invD(7) [OF inv] o by simp
  qed
qed


lemma session_work_turn:
  assumes "sess_ok s" "x_ticketUsed s" "xfits s w" "role w = Some (p, r)"
  obtains f where "session_work w = Some (p, f)" "turn_ok p r s (f ans s)"
    "\<And>ws s'. f ans s = Some (ws, s') \<Longrightarrow> count_where slot_holder ws = (if slot_holder w then 1 else 0)"
proof (cases w)
  case (XMain q)
  then show ?thesis using assms end_transport_ok [of s q ans]
    by (intro that [of "end_transport q"]) (auto simp: end_transport_def split: if_splits)
next
  case (XAttached q)
  then show ?thesis using assms send_attached_ok [of s q ans]
    by (intro that [of "send_attached q"]) (auto simp: send_attached_def split: if_splits)
next
  case (XWait q)
  then show ?thesis using assms await_dispatch_ok [of s q ans]
    by (intro that [of "await_dispatch q"]) (auto simp: await_dispatch_def split: if_splits list.splits)
next
  case (XCheck q d)
  then show ?thesis using assms check_launch_ok [of s q d ans]
    by (intro that [of "check_launch q d"]) (auto simp: check_launch_def split: if_splits option.splits)
next
  case (XScript q d)
  then show ?thesis using assms transfer_script_ok [of s q d ans]
    by (intro that [of "transfer_script q d"]) (auto simp: transfer_script_def split: if_splits prod.splits)
next
  case (XBefore q d)
  then show ?thesis using assms before_start_ok [of s q d ans]
    by (intro that [of "before_start q d"]) (auto simp: before_start_def split: if_splits)
next
  case (XCommit q d)
  then show ?thesis using assms commit_start_ok [of s q d ans]
    by (intro that [of "commit_start q d"]) (auto simp: commit_start_def split: if_splits option.splits)
next
  case (XStart q d)
  then show ?thesis using assms send_start_ok [of s q d ans]
    by (intro that [of "send_start q d"]) (auto simp: send_start_def split: if_splits)
next
  case (XInput q)
  then show ?thesis using assms forward_input_ok [of s q ans]
    by (intro that [of "forward_input q"]) (auto simp: forward_input_def split: if_splits list.splits)
next
  case (XReceive q st)
  then show ?thesis using assms receive_turn_ok [of s q st ans]
    by (intro that [of "receive_turn q st"]) (auto simp: receive_turn_def split: option.splits recv_outcome.splits)
qed (use assms(4) in auto)

lemma run_xwork_role: "role w = Some (p, r) \<Longrightarrow> session_work w = Some (p, f) \<Longrightarrow> run_xwork ans w es = on_session p (f ans) es"
  by (cases w) auto

lemma run_xwork_ok:
  assumes inv: "x_inv es work" and w: "w \<in> set work" and tr: "\<And>node i. w \<noteq> XTerminalRemove node i"
  shows "\<exists>ws es'. run_xwork ans w es = Some (ws, es') \<and> x_inv es' (ws @ remove1 w work)"
proof (cases "role w")
  case (Some a)
  then obtain p r where role: "role w = Some (p, r)" by (cases a) auto
  note used = role_used [OF inv w role]
  obtain f where f: "session_work w = Some (p, f)" "turn_ok p r (es_objs es p) (f ans (es_objs es p))"
      "\<And>ws s'. f ans (es_objs es p) = Some (ws, s') \<Longrightarrow> count_where slot_holder ws = (if slot_holder w then 1 else 0)"
    using session_work_turn [OF x_invD(2) [OF inv used(1)] used(2) x_invD(4) [OF inv w role_ptr [OF role]] role] by metis
  have "\<exists>ws s'. f ans (es_objs es p) = Some (ws, s') \<and> x_inv (set_session p s' es) (ws @ remove1 w work)"
    by (rule turn_inv [OF inv w role f(2)]) (rule f(3))
  then obtain ws s' where "f ans (es_objs es p) = Some (ws, s')" "x_inv (set_session p s' es) (ws @ remove1 w work)" by blast
  then show ?thesis using run_xwork_role [OF role f(1)] by (simp add: on_session_def)
next
  case None
  have sub: "set (remove1 w work) \<subseteq> set work" by (rule set_remove1_subset)
  have roles: "count_where (has_role q r) (remove1 w work) \<le> count_where (has_role q r) work" for q r
    using count_where_remove1 [OF w, of "has_role q r"] by simp
  have slots: "count_where slot_holder (remove1 w work) = es_rpcSlots es - (if slot_holder w then 1 else 0)"
      "count_where slot_holder (remove1 w work) \<le> rpc_slots"
    using count_where_remove1 [OF w, of slot_holder] x_invD(6,7) [OF inv] by (auto split: if_splits)
  have quiet: "x_inv ((set_session p s' es)\<lparr>es_rpcSlots := es_rpcSlots es - (if slot_holder w then 1 else 0)\<rparr>) (remove1 w work)"
    if "xptr w = Some p" "quiet_ok (es_objs es p) s'" for p s'
    by (rule quiet_inv [OF inv x_invD(3) [OF inv w that(1)] that(2) sub roles]) (use slots in auto)
  have drop: "x_inv (release_slot es) (remove1 w work)" if "slot_holder w"
    using idle_inv [OF inv, of "release_slot es" "remove1 w work" "[]"] sub roles slots that by (simp add: release_slot_def)
  show ?thesis
  proof (cases w)
    case (XCancel p reason)
    have "x_inv (set_session p (Execution_Cancel reason (es_objs es p)) es) (remove1 w work)"
      using quiet [of p, OF _ cancel_ok [OF x_invD(2) [OF inv]]] x_invD(3) [OF inv w] XCancel by (simp add: set_session_def)
    then show ?thesis by (simp add: XCancel on_session_def)
  next
    case (XPrepared p msg)
    obtain s' where "take_prepared msg ans (es_objs es p) = Some ([], s')" "quiet_ok (es_objs es p) s'"
      using take_prepared_ok [OF x_invD(2) [OF inv], of p msg ans] x_invD(3) [OF inv w] XPrepared by auto
    then show ?thesis using quiet [of p s'] XPrepared by (simp add: on_session_def set_session_def)
  next
    case (XMainEnd p failed)
    have ok: "sess_ok (es_objs es p)" using x_invD(2,3) [OF inv] w XMainEnd by auto
    let ?s = "if failed then Execution_Cancel ''execution transport lost'' (es_objs es p) else es_objs es p"
    have "quiet_ok (es_objs es p) ?s" using cancel_ok [OF ok] ok by simp
    then show ?thesis using quiet [of p ?s] XMainEnd by (simp add: on_session_def release_slot_def set_session_def)
  next
    case (XFirst node)
    show ?thesis
    proof (cases "xn_first ans")
      case None
      then show ?thesis using drop XFirst by (simp add: Execute_first_def)
    next
      case (Some req)
      obtain res es' where a: "Execution_Attach (xn_cm ans) (xn_clock ans) node req es = (res, es')" by fastforce
      show ?thesis
      proof (cases res)
        case (Inl e)
        then have "es' = es" using a by (auto simp: Execution_Attach_def Let_def split: option.splits if_splits prod.splits sum.splits)
        then show ?thesis using a Inl Some drop XFirst by (simp add: Execute_first_def)
      next
        case (Inr p)
        then show ?thesis using a Some attach_inv [OF inv, of node "xn_cm ans" "xn_clock ans" req p es'] w XFirst
          by (simp add: Execute_first_def)
      qed
    qed
  qed (use None tr in auto)
qed


section \<open>The composed system\<close>

text \<open>Inside this system the shell registry makes only its own steps.\<close>

lemma register_terminal:
  assumes "Execution_Register sha cm node i actor runAs command opts now (es, ts) = Some (r, es', ts')"
  shows "ts_step\<^sup>*\<^sup>* (ts, tw) (ts', tw)"
proof (cases "ts' = ts")
  case False
  let ?opts = "WithKind TerminalKindExec opts"
  have o: "(WithKind TerminalKindExec (opts\<lparr>ro_interactive := None\<rparr>)) = ?opts\<lparr>ro_interactive := None\<rparr>" by (simp add: WithKind_def)
  from assms False obtain m ts1 where t1: "Terminal_Register node i actor runAs (?opts\<lparr>ro_interactive := None\<rparr>) now ts = Some (m, ts1)"
      and t2: "ts' = ts1 \<or> (\<exists>b. AttachStream node i actor ts1 = Some (b, ts'))"
    unfolding o [symmetric] by (auto simp: Execution_Register_def Let_def split: if_splits option.splits)
  have "ts_step (ts, tw) (ts1, [] @ tw)"
    by (rule ts_step.call [of "CRegister node i actor runAs ?opts now"]) (use t1 in \<open>auto simp: lift_op_def\<close>)
  moreover have "ts_step\<^sup>*\<^sup>* (ts1, tw) (ts', tw)"
  proof (cases "ts' = ts1")
    case False
    with t2 obtain b where "AttachStream node i actor ts1 = Some (b, ts')" by blast
    then have "ts_step (ts1, tw) (ts', [] @ tw)" by (intro ts_step.call [of "CAttach node i actor"]) (auto simp: lift_op_def)
    then show ?thesis by simp
  qed simp
  ultimately show ?thesis by (simp add: converse_rtranclp_into_rtranclp)
qed simp

lemma hub_terminal_step:
  "hub_step \<sigma> \<sigma>' \<Longrightarrow> ts_step\<^sup>*\<^sup>* (snd (snd \<sigma>)) (snd (snd \<sigma>'))"
proof (induction rule: hub_step.induct)
  case (register sha cm node i actor runAs command opts now es ts r es' ts' work tw)
  then show ?case using register_terminal by simp
next
  case (terminal_remove node i work ts tws ts' es tw)
  then have "ts_step (ts, tw) (ts', tws @ tw)" by (intro ts_step.call [of "CRemove node i"]) auto
  then show ?case by simp
qed simp_all

lemma new_session_ok: "sess_ok (new_execution i node actor runAs c boot hash)"
  by (simp add: sess_ok_def new_execution_def untouched_def log_ok_def)

lemma execution_register_inv:
  assumes inv: "x_inv es work"
    and reg: "Execution_Register sha cm node i actor runAs command opts now (es, ts) = Some (r, es', ts')"
  shows "x_inv es' work"
proof (cases "es' = es")
  case True
  then show ?thesis using inv by simp
next
  case False
  with reg obtain c boot where es': "es' = es\<lparr>es_objs := (es_objs es)(es_next es := new_execution i node actor runAs c boot (sha command)),
      es_next := es_next es + 1, es_sessions := (makeKey node i, es_next es) # es_sessions es\<rparr>"
    by (auto simp: Execution_Register_def Let_def split: if_splits option.splits)
  let ?p = "es_next es"
  have o: "q < ?p \<Longrightarrow> es_objs es' q = es_objs es q" "es_objs es' ?p = new_execution i node actor runAs c boot (sha command)"
      "es_next es' = Suc ?p" for q by (simp_all add: es')
  show ?thesis
  proof (rule x_invI)
    show "q < es_next es'" if "(k, q) \<in> set (es_sessions es')" for k q using that x_invD(1) [OF inv, of k q] by (auto simp: es')
    show "sess_ok (es_objs es' q)" if "q < es_next es'" for q
      using that x_invD(2) [OF inv, of q] new_session_ok o by (cases "q = ?p") simp_all
    show "q < es_next es' \<and> xfits (es_objs es' q) x" if "x \<in> set work" "xptr x = Some q" for x q
      using x_invD(3,4) [OF inv that] o(1) [of q] by (simp add: es')
    show "count_where (has_role q r') work \<le> (if q < es_next es' \<and> x_ticketUsed (es_objs es' q) then 1 else 0)" for q r'
      using x_invD(5) [OF inv, of q r'] o(1) [of q] o(3) by (cases "q < ?p") auto
  qed (use x_invD(6,7) [OF inv] in \<open>auto simp: es'\<close>)
qed

lemma hub_step_inv:
  assumes "hub_step \<sigma> \<sigma>'" "x_inv (fst \<sigma>) (fst (snd \<sigma>))" shows "x_inv (fst \<sigma>') (fst (snd \<sigma>'))"
  using assms
proof (induction rule: hub_step.induct)
  case (call c es ws es' work T)
  then show ?case using run_xcall_ok [of es work c] by auto
next
  case (register sha cm node i actor runAs command opts now es ts r es' ts' work tw)
  then show ?case using execution_register_inv [of es work] by simp
next
  case (work w work ans es ws es' T)
  then show ?case using run_xwork_ok [of es work w ans] by auto
next
  case (terminal_remove node i work ts tws ts' es tw)
  let ?w = "XTerminalRemove node i"
  have inv: "x_inv es work" using terminal_remove by simp
  have c: "count_where P (remove1 ?w work) + (if P ?w then 1 else 0) = count_where P work" for P
    by (rule count_where_remove1 [OF terminal_remove(1)])
  have "x_inv es ([] @ remove1 ?w work)"
  proof (rule idle_inv [OF inv])
    show "count_where (has_role q r) (remove1 ?w work) \<le> count_where (has_role q r) work" for q r using c [of "has_role q r"] by simp
    show "es_rpcSlots es = count_where slot_holder ([] @ remove1 ?w work)" using c [of slot_holder] x_invD(6) [OF inv] by simp
    show "es_rpcSlots es \<le> rpc_slots" by (rule x_invD(7) [OF inv])
  qed (auto dest: set_remove1_subset [THEN subsetD])
  then show ?case by simp
qed simp

lemma hub_reachable_inv:
  assumes "hub_reachable (es, work, T)" shows "x_inv es work" "ts_reachable T"
proof -
  have "x_inv (fst \<sigma>) (fst (snd \<sigma>)) \<and> ts_reachable (snd (snd \<sigma>))"
    if "hub_step\<^sup>*\<^sup>* (NewExecutionSessions, [], (NewTerminalSessions, [])) \<sigma>" for \<sigma>
    using that
  proof (induction rule: rtranclp_induct)
    case base
    then show ?case by (simp add: x_inv_def NewExecutionSessions_def ts_reachable_def)
  next
    case (step \<sigma> \<sigma>')
    then show ?case using hub_step_inv [OF step(2)] hub_terminal_step [OF step(2)]
      unfolding ts_reachable_def by (auto intro: rtranclp_trans)
  qed
  from this [OF assms [unfolded hub_reachable_def]] show "x_inv es work" "ts_reachable T" by simp_all
qed

text \<open>Once cancelled before its start was attempted, a session never attempts it.\<close>

definition withdrawn :: "ExecutionSession \<Rightarrow> bool" where
  "withdrawn s \<longleftrightarrow> x_done s \<and> \<not> x_startAttempted s"

lemma withdrawn_calls: "withdrawn s \<Longrightarrow> session_calls c s = Some s' \<Longrightarrow> withdrawn s'"
  by (cases c) (auto simp: withdrawn_def IssueAttach_def Configure_def dispatchStandard_def DispatchProtected_def enqueue_dispatch_def
      SendInput_def CloseInput_def enqueueInput_def Execution_Cancel_def
      split: if_splits option.splits enqueue_select.splits prod.splits sum.splits)

lemma withdrawn_receive: "withdrawn s \<Longrightarrow> receive_message delivered m st s = Some (out, s') \<Longrightarrow> withdrawn s'"
  by (cases m) (auto simp: withdrawn_def receive_started_def receive_start_failed_def receive_stdout_def receive_stderr_def
      receive_eof_def receive_result_def send_result_def deliverExecutionOutput_def Let_def
      split: if_splits option.splits prod.splits sum.splits output_kind.splits)

lemma withdrawn_work:
  assumes "withdrawn s" "session_work w = Some (p, f)" "f ans s = Some (ws, s')" shows "withdrawn s'"
proof (cases w)
  case (XReceive q st)
  then show ?thesis using assms withdrawn_receive [OF assms(1)]
    by (auto simp: receive_turn_def split: option.splits recv_outcome.splits)
next
  case (XCommit q d)
  then show ?thesis using assms
    by (auto simp: commit_start_def validateLaunchLocked_def withdrawn_def split: option.splits if_splits)
qed (use assms in \<open>auto simp: withdrawn_def take_prepared_def DeliverPrepared_def end_transport_def send_attached_def
      await_dispatch_def check_launch_def transfer_script_def before_start_def send_start_def forward_input_def log_frames_def
      Execution_Cancel_def split: if_splits option.splits list.splits prod.splits\<close>)


lemma withdrawn_on_session:
  assumes "withdrawn (es_objs es p)" "p < es_next es" "x_inv es work" "w \<in> set work" "run_xwork ans w es = Some (ws, es')"
  shows "withdrawn (es_objs es' p) \<and> p < es_next es'"
proof (cases "session_work w")
  case (Some a)
  then obtain q f where f: "session_work w = Some (q, f)" by (cases a) auto
  have "\<exists>s'. f ans (es_objs es q) = Some (ws, s') \<and> es_objs es' = (es_objs es)(q := s') \<and> es_next es' = es_next es"
    using assms(5) f by (cases w) (auto simp: on_session_def set_session_def release_slot_def)
  with assms(1,2) withdrawn_work [OF _ f] show ?thesis by (cases "q = p") auto
next
  case None
  then have "(\<exists>node. w = XFirst node) \<or> (\<exists>node i. w = XTerminalRemove node i)" by (cases w) auto
  then show ?thesis
  proof (elim disjE exE)
    fix node assume w: "w = XFirst node"
    have "withdrawn s" if "attach_locked t b ticket s0 = (r, s)" "withdrawn s0" for t b ticket s0 r s
      using that by (auto simp: attach_locked_def withdrawn_def split: if_splits)
    then have "withdrawn (es_objs es1 p) \<and> es_next es1 = es_next es"
      if "Execution_Attach cm t node req es = (r, es1)" for cm t req r es1
      using that assms(1)
      by (fastforce simp: Execution_Attach_def Let_def set_session_def split: option.splits if_splits prod.splits sum.splits)
    with w assms(1,2,5) show ?thesis
      by (auto simp: Execute_first_def release_slot_def split: option.splits prod.splits sum.splits)
  next
    fix node i assume "w = XTerminalRemove node i"
    then show ?thesis using assms by simp
  qed
qed

lemma withdrawn_step:
  assumes "hub_step \<sigma> \<sigma>'" "x_inv (fst \<sigma>) (fst (snd \<sigma>))" "p < es_next (fst \<sigma>)" "withdrawn (es_objs (fst \<sigma>) p)"
  shows "p < es_next (fst \<sigma>') \<and> withdrawn (es_objs (fst \<sigma>') p)"
  using assms
proof (induction rule: hub_step.induct)
  case (call c es ws es' work T)
  show ?case
  proof (cases c)
    case (XCSession q k)
    then show ?thesis using call withdrawn_calls [of "es_objs es q" k] by (cases "q = p") (auto simp: set_session_def)
  qed (use call in \<open>auto simp: SetCapabilities_def Execution_Remove_def endConnection_def Execute_open_def Let_def
      split: option.splits if_splits sum.splits prod.splits\<close>)
next
  case (register sha cm node i actor runAs command opts now es ts r es' ts' work tw)
  then show ?case by (auto simp: Execution_Register_def Let_def split: if_splits option.splits)
next
  case (work w work ans es ws es' T)
  then show ?case using withdrawn_on_session [of es p work w ans ws es'] by auto
qed simp_all

lemma withdrawn_log: "sess_ok s \<Longrightarrow> withdrawn s \<Longrightarrow> HStart st \<notin> set (x_log s)"
  by (fastforce simp: sess_ok_def withdrawn_def log_ok_def before_start_log_def)

lemma split_unique:
  assumes "xs @ x # ys = us @ v # vs" "x \<notin> set us" "x \<notin> set vs" shows "xs = us \<and> x = v \<and> ys = vs"
  using assms by (induction us arbitrary: xs) (auto simp: append_eq_Cons_conv)

section \<open>Properties\<close>

text \<open>A standard execution from its registration to its start.\<close>

definition demo_cm :: ConnManager where
  "demo_cm = new_conn_manager\<lparr>streams := [''n1'' \<mapsto> 7],
     conns := (conns new_conn_manager)(7 := \<lparr>c_ServerID = ''n1'', c_Stream = 1, c_LastSeen = 0, c_closed = False\<rparr>)\<rparr>"

definition demo_hash :: string where "demo_hash = replicate 32 (CHR ''h'')"

definition demo_prepared :: ExecutionPrepared where
  "demo_prepared = \<lparr>pr_execution_id = ''e1'', pr_binding = Some \<lparr>eb_execution_id = ''e1'', eb_node_id = ''n1'', eb_preparation_id = ''p1'',
     eb_boot_id = ''b1'', eb_expires = 30000\<rparr>, pr_identity = Some \<lparr>xi_username = ''ops'', xi_uid = 1000, xi_gid = 1000, xi_groups = [],
     xi_groups_sha = demo_hash, xi_home = ''/'', xi_shell = ''/bin/sh'', xi_cwd = ''/'', xi_identity_sha = demo_hash\<rparr>,
     pr_command_sha = demo_hash, pr_limits = Some DefaultExecutionLimits, pr_error = []\<rparr>"

definition demo_clock :: hub_clock where "demo_clock = \<lparr>hc_mono = 0, hc_wall = 0\<rparr>"

definition demo_xanswers :: x_answers where
  "demo_xanswers = \<lparr>xn_cm = demo_cm, xn_clock = demo_clock, xn_ok = True, xn_stop = False,
     xn_first = Some (Some \<lparr>xa_binding = pr_binding demo_prepared, xa_ticket = demo_hash\<rparr>), xn_msg = None, xn_reads = [], xn_sha = (\<lambda>_. demo_hash)\<rparr>"

definition demo_peer :: peer_cert where
  "demo_peer = \<lparr>pc_verified = True, pc_leaf_matches = True, pc_CommonName = ''n1'', pc_NotBefore = 0, pc_NotAfter = 10\<rparr>"

text \<open>A run of calls and of pieces of work by their position; a step that is not enabled ends it.\<close>

datatype demo_move = DCall x_call | DWork nat

fun demo_enabled :: "demo_move \<Rightarrow> ExecutionSessions \<Rightarrow> x_work list \<Rightarrow> bool" where
  "demo_enabled (DCall c) es work \<longleftrightarrow> (case c of XCSession p k \<Rightarrow> p < es_next es | _ \<Rightarrow> True)"
| "demo_enabled (DWork k) es work \<longleftrightarrow> k < length work \<and> (case work ! k of XTerminalRemove node i \<Rightarrow> False | _ \<Rightarrow> True)"

fun demo_go :: "demo_move \<Rightarrow> ExecutionSessions \<times> x_work list \<Rightarrow> (ExecutionSessions \<times> x_work list) option" where
  "demo_go (DCall c) (es, work) =
     (if demo_enabled (DCall c) es work then map_option (\<lambda>(ws, es'). (es', ws @ work)) (run_xcall c es) else None)"
| "demo_go (DWork k) (es, work) =
     (if demo_enabled (DWork k) es work
      then map_option (\<lambda>(ws, es'). (es', ws @ remove1 (work ! k) work)) (run_xwork demo_xanswers (work ! k) es) else None)"

definition demo_moves :: "demo_move list" where
  "demo_moves = [DCall (XCDeliver demo_cm ''n1'' 1 (Some demo_prepared)), DWork 0,
     DCall (XCSession 0 (SIssueAttach demo_clock (Some demo_hash))),
     DCall (XCExecute demo_cm 5 (Some demo_peer) (\<lambda>_. Some \<lparr>sv_registration_token = None, sv_status = ''online''\<rparr>)), DWork 0, DWork 1,
     DCall (XCSession 0 (SDispatch demo_cm demo_clock False)), DWork 0, DWork 0, DWork 0, DWork 0, DWork 0]"

fun demo_run :: "demo_move list \<Rightarrow> ExecutionSessions \<times> x_work list \<Rightarrow> (ExecutionSessions \<times> x_work list) option" where
  "demo_run [] \<sigma> = Some \<sigma>"
| "demo_run (m # ms) \<sigma> = Option.bind (demo_go m \<sigma>) (demo_run ms)"

definition demo_registered :: ExecutionSessions where
  "demo_registered = NewExecutionSessions\<lparr>es_objs := (es_objs NewExecutionSessions)(0 := new_execution ''e1'' ''n1'' ''u1'' ''ops'' 7 ''b1'' demo_hash),
     es_next := 1, es_sessions := [(''n1:e1'', 0)],
     es_capabilities := [''n1'' \<mapsto> (7, \<lparr>xc_protocol = 1, xc_standard = True, xc_boot = ''b1'', xc_protected = False\<rparr>)]\<rparr>"

lemma demo_go_step:
  assumes "demo_go m (es, work) = Some (es', work')" shows "hub_step (es, work, T) (es', work', T)"
proof (cases m)
  case (DCall c)
  then obtain ws where "run_xcall c es = Some (ws, es')" "work' = ws @ work" "demo_enabled (DCall c) es work"
    using assms by (auto split: if_splits)
  then show ?thesis by (auto intro!: hub_step.call [of c])
next
  case (DWork k)
  then obtain ws where "run_xwork demo_xanswers (work ! k) es = Some (ws, es')" "work' = ws @ remove1 (work ! k) work"
      "demo_enabled (DWork k) es work"
    using assms by (auto split: if_splits)
  then show ?thesis by (auto intro!: hub_step.work [of "work ! k" work demo_xanswers])
qed

lemma demo_run_reachable:
  "demo_run ms (es, work) = Some (es', work') \<Longrightarrow> hub_reachable (es, work, T) \<Longrightarrow> hub_reachable (es', work', T)"
proof (induction ms arbitrary: es work)
  case (Cons m ms)
  then obtain es1 work1 where 1: "demo_go m (es, work) = Some (es1, work1)" "demo_run ms (es1, work1) = Some (es', work')"
    by (auto simp: bind_eq_Some_conv)
  have "hub_reachable (es1, work1, T)"
    using Cons.prems(2) demo_go_step [OF 1(1)] unfolding hub_reachable_def by (rule rtranclp.rtrancl_into_rtrancl)
  with Cons.IH 1(2) show ?case by blast
qed simp

definition demo_caps :: ExecutionCapabilities where
  "demo_caps = \<lparr>xc_protocol = 1, xc_standard = True, xc_boot = ''b1'', xc_protected = False\<rparr>"

lemma demo_registered_reachable: "\<exists>T. hub_reachable (demo_registered, [], T)"
proof -
  let ?es = "NewExecutionSessions\<lparr>es_capabilities := [''n1'' \<mapsto> (7, demo_caps)]\<rparr>"
  have "run_xcall (XCSetCapabilities demo_cm ''n1'' 1 (Some demo_caps)) NewExecutionSessions = Some ([], ?es)"
    by (simp add: SetCapabilities_def demo_cm_def GetConn_def capability_valid_def demo_caps_def NewExecutionSessions_def Let_def)
  then have "hub_step (NewExecutionSessions, [], (NewTerminalSessions, [])) (?es, [] @ [], (NewTerminalSessions, []))"
    by (rule hub_step.call) simp
  then have 1: "hub_reachable (?es, [], (NewTerminalSessions, []))" by (simp add: hub_reachable_def)
  have "valid_submission ''n1'' ''e1'' ''u1'' ''id''"
    by (simp add: valid_submission_def MaxExecutionCommandBytes_def valid_utf8.simps byte_in_def)
  then obtain ts where "Execution_Register (\<lambda>_. demo_hash) demo_cm ''n1'' ''e1'' ''u1'' ''ops'' ''id'' default_options 5
      (?es, NewTerminalSessions) = Some (Inr 0, demo_registered, ts)"
    by (simp add: Execution_Register_def demo_cm_def GetConn_def capability_live_def demo_caps_def NewExecutionSessions_def Let_def
        Terminal_Register_def NewTerminalSessions_def full_def registered_def AttachStream_def find_terminal_def makeKey_def
        demo_registered_def WithKind_def default_options_def watched_def TerminalKindExec_def new_terminal_def)
  then have "hub_step (?es, [], (NewTerminalSessions, [])) (demo_registered, [], (ts, []))" by (rule hub_step.register)
  with 1 have "hub_reachable (demo_registered, [], (ts, []))" unfolding hub_reachable_def by (rule rtranclp.rtrancl_into_rtrancl)
  then show ?thesis by blast
qed

lemma demo_started:
  "map_option (\<lambda>(es, work). (es_next es, x_log (es_objs es 0), length work)) (demo_run demo_moves (demo_registered, [])) =
   Some (1, [HAttached (the (pr_binding demo_prepared)), HStart (start_message demo_prepared ''standard-v1'' [] 0)], 3)"
  by code_simp



text \<open>C14. The stream of an execution tells the agent to start at most once, and only what was prepared.
  In every reachable state the frames sent for a session are the attachment, then the frames of the
  protected script, then at most one start, then input; the start repeats the binding, command digest,
  identity digest and limits of the accepted preparation, an enhanced start carries a receipt that does
  not outlive the binding, and its script had been sent to the end.\<close>

theorem start_disciplined:
  assumes "hub_reachable (es, work, T)" "p < es_next es" "x_log (es_objs es p) = fs1 @ HStart st # fs2"
  shows "start_fits (es_objs es p) st \<and> x_startAttempted (es_objs es p) \<and> x_ticketUsed (es_objs es p) \<and>
    (\<exists>script. fs1 = HAttached (Session_Binding (es_objs es p)) # script \<and> list_all is_script script \<and>
       (needs_script (es_objs es p) \<longrightarrow> HScriptEof (x_scriptLength (es_objs es p)) (x_scriptHash (es_objs es p)) \<in> set script)) \<and>
    list_all is_input fs2"
proof -
  let ?s = "es_objs es p"
  have ok: "sess_ok ?s" by (rule x_invD(2) [OF hub_reachable_inv(1) [OF assms(1)] assms(2)])
  have st: "HStart st \<in> set (x_log ?s)" using assms(3) by simp
  then have "x_startAttempted ?s \<and> after_start_log ?s"
    using ok by (fastforce simp: sess_ok_def log_ok_def before_start_log_def)
  then obtain script st' ins where l: "x_startAttempted ?s" "x_log ?s = HAttached (Session_Binding ?s) # script @ HStart st' # ins"
      "\<forall>f \<in> set script. is_script f" "\<forall>f \<in> set ins. is_input f" "start_fits ?s st'" "needs_script ?s \<longrightarrow> script_sent ?s script"
    by (auto simp: after_start_log_def)
  let ?pre = "HAttached (Session_Binding ?s) # script"
  have e: "fs1 @ HStart st # fs2 = ?pre @ HStart st' # ins" using assms(3) l(2) by simp
  have "HStart st \<notin> set ?pre" "HStart st \<notin> set ins" using l(3,4) by auto
  then have "fs1 = ?pre \<and> st = st' \<and> fs2 = ins" using split_unique [OF e] by simp
  moreover have "x_ticketUsed ?s" using ok l(2) by (auto simp: sess_ok_def untouched_def)
  ultimately show ?thesis using l by (auto simp: list_all_iff script_sent_def)
qed

theorem start_disciplined_witness:
  "\<exists>es work st. demo_run demo_moves (demo_registered, []) = Some (es, work) \<and>
     x_log (es_objs es 0) = [HAttached (the (pr_binding demo_prepared)), HStart st] \<and> start_fits (es_objs es 0) st"
proof -
  obtain T where T: "hub_reachable (demo_registered, [], T)" using demo_registered_reachable by blast
  obtain es work where r: "demo_run demo_moves (demo_registered, []) = Some (es, work)" "es_next es = 1"
      "x_log (es_objs es 0) = [HAttached (the (pr_binding demo_prepared)), HStart (start_message demo_prepared ''standard-v1'' [] 0)]"
    using demo_started by auto
  have "x_log (es_objs es 0) = [HAttached (the (pr_binding demo_prepared))] @ HStart (start_message demo_prepared ''standard-v1'' [] 0) # []"
    using r(3) by simp
  from start_disciplined [OF demo_run_reachable [OF r(1) T] _ this] r show ?thesis by auto
qed

text \<open>C15. A cancelled execution never starts. Once a session was cancelled (by its caller, by the loss of
  the connection or the capability, or by its removal) before its start was attempted, no interleaving of
  later sections attempts it, not even that of a sender which already took the dispatch.\<close>

theorem cancelled_never_starts:
  assumes "hub_reachable \<sigma>" "p < es_next (fst \<sigma>)" "x_done (es_objs (fst \<sigma>) p)" "\<not> x_startAttempted (es_objs (fst \<sigma>) p)"
    and "hub_step\<^sup>*\<^sup>* \<sigma> \<sigma>'"
  shows "\<not> x_startAttempted (es_objs (fst \<sigma>') p) \<and> HStart st \<notin> set (x_log (es_objs (fst \<sigma>') p))"
proof -
  have inv0: "x_inv (fst \<sigma>) (fst (snd \<sigma>))" using hub_reachable_inv(1) [of "fst \<sigma>" "fst (snd \<sigma>)" "snd (snd \<sigma>)"] assms(1) by simp
  have "x_inv (fst \<sigma>') (fst (snd \<sigma>')) \<and> p < es_next (fst \<sigma>') \<and> withdrawn (es_objs (fst \<sigma>') p)"
    using assms(5)
  proof (induction rule: rtranclp_induct)
    case base
    then show ?case using inv0 assms(2-4) by (simp add: withdrawn_def)
  next
    case (step \<tau> \<tau>')
    then show ?case using hub_step_inv [OF step(2)] withdrawn_step [OF step(2)] by blast
  qed
  then show ?thesis using withdrawn_log x_invD(2) by (auto simp: withdrawn_def)
qed

theorem cancelled_never_starts_witness:
  "HStart (start_message demo_prepared ''standard-v1'' [] 0) \<notin>
     set (x_log (es_objs (set_session 0 (Execution_Cancel ''gone'' (es_objs demo_registered 0)) demo_registered) 0))"
proof -
  let ?es = "set_session 0 (Execution_Cancel ''gone'' (es_objs demo_registered 0)) demo_registered"
  obtain T where "hub_reachable (demo_registered, [], T)" using demo_registered_reachable by blast
  moreover have "demo_run [DCall (XCSession 0 (SCancel ''gone''))] (demo_registered, []) = Some (?es, [])"
    by (simp add: demo_registered_def)
  ultimately have "hub_reachable (?es, [], T)" using demo_run_reachable by blast
  from cancelled_never_starts [OF this _ _ _ rtranclp.rtrancl_refl, of 0] show ?thesis
    by (simp add: set_session_def Execution_Cancel_def demo_registered_def new_execution_def)
qed



end
