(* ===== verification/Execution_Wire.thy ===== *)
theory Execution_Wire
  imports Execution_Stream Exec_Props
begin

text \<open>
  The two ends of an execution put together: the output frames an agent's run produces
  (\<open>readOutput\<close>) through the hub's receiver (\<open>receiveExecution\<close>), and the hub's script transfer
  (\<open>sendProtectedScript\<close>) through the agent's preparation (\<open>ScriptChunk\<close>, \<open>ScriptEOF\<close>).
\<close>

section \<open>Output\<close>

fun to_hub :: "agent_message \<Rightarrow> exec_agent_message" where
  "to_hub (MData Stdout sq bytes) = AStdout (Some (sq, bytes))"
| "to_hub (MData Stderr sq bytes) = AStderr (Some (sq, bytes))"
| "to_hub (MOutputEOF kind sq) = AOutputEof (Some (Some kind, sq))"

text \<open>A stream of chunks, numbered and ended.\<close>

fun framed :: "output_kind \<Rightarrow> 64 word \<Rightarrow> string list \<Rightarrow> agent_message list" where
  "framed kind sq [] = [MOutputEOF kind sq]"
| "framed kind sq (c # cs) = MData kind sq c # framed kind (sq + 1) cs"

lemma framed_zip:
  "framed kind sq chunks =
   map (\<lambda>(k, bytes). MData kind (sq + of_nat k) bytes) (zip [0..<length chunks] chunks) @ [MOutputEOF kind (sq + of_nat (length chunks))]"
proof (induction chunks arbitrary: sq)
  case (Cons c chunks)
  have "map (\<lambda>(k, bytes). MData kind (sq + of_nat k) bytes) (zip [0..<Suc n] (b # chunks)) =
      MData kind sq b # map (\<lambda>(k, bytes). MData kind (sq + 1 + of_nat k) bytes) (zip [0..<n] chunks)" for b n
    by (simp add: upt_conv_Cons map_Suc_upt [symmetric] zip_map1 split_beta comp_def add.assoc del: upt_Suc)
  with Cons show ?case by (simp add: add.assoc)
qed simp

text \<open>The bytes a process wrote to one output.\<close>

definition written_bytes :: "output_read list \<Rightarrow> string" where
  "written_bytes reads = concat (map or_bytes (takeWhile (\<lambda>c. or_error c = NoError) reads)) @
     or_bytes (hd (dropWhile (\<lambda>c. or_error c = NoError) reads))"

lemma read_loop_chunks:
  "read_loop kind sq reads = (ms, s, ok) \<Longrightarrow> \<forall>c \<in> set reads. length (or_bytes c) \<le> n \<Longrightarrow>
   \<forall>m \<in> set ms. \<forall>k q b. m = MData k q b \<longrightarrow> length b \<le> n"
proof (induction reads arbitrary: sq ms s ok)
  case (Cons c cs)
  show ?case
  proof (cases "or_bytes c \<noteq> [] \<and> \<not> or_emitted c \<or> or_error c \<noteq> NoError")
    case True
    with Cons.prems show ?thesis by (auto simp: Let_def split: if_splits)
  next
    case False
    obtain ms' s' ok' where r: "read_loop kind (if or_bytes c \<noteq> [] then sq + 1 else sq) cs = (ms', s', ok')" by (metis prod_cases3)
    with Cons.IH [OF r] Cons.prems False show ?thesis by (auto simp: Let_def split: if_splits)
  qed
qed simp

lemma readOutput_framed:
  assumes "readOutput kind reads True = (ms, True)" "\<forall>c \<in> set reads. length (or_bytes c) \<le> n"
  shows "\<exists>chunks. ms = framed kind 0 chunks \<and> concat chunks = written_bytes reads \<and> (\<forall>b \<in> set chunks. length b \<le> n)"
proof -
  obtain fs s ok where r: "read_loop kind 0 reads = (fs, s, ok)" by (metis prod_cases3)
  with assms(1) have ms: "ms = fs @ [MOutputEOF kind s]" "ok" by (auto simp: readOutput_def)
  obtain chunks where c: "fs = map (\<lambda>(k, bytes). MData kind (0 + of_nat k) bytes) (zip [0..<length chunks] chunks)"
      "s = 0 + of_nat (length chunks)" "concat chunks = written_bytes reads"
    using read_loop_frames [OF r] ms(2) unfolding written_bytes_def by blast
  have "ms = framed kind 0 chunks" using ms c framed_zip [of kind 0 chunks] by simp
  moreover have "length b \<le> n" if b: "b \<in> set chunks" for b
  proof -
    obtain k where "k < length chunks" "chunks ! k = b" using b by (metis in_set_conv_nth)
    then have "MData kind (of_nat k) b \<in> set fs" unfolding c(1) by (force simp: in_set_zip)
    then show ?thesis using read_loop_chunks [OF r assms(2)] by blast
  qed
  ultimately show ?thesis using c(3) by blast
qed

text \<open>The receiver with what is still to come on each output.\<close>

definition to_come :: "output_kind \<Rightarrow> bool \<Rightarrow> 64 word \<Rightarrow> string list \<Rightarrow> agent_message list \<Rightarrow> bool" where
  "to_come kind eof sq chunks ms \<longleftrightarrow> (if eof then chunks = [] \<and> ms = [] else ms = framed kind sq chunks)"

definition both_ended :: "string list \<Rightarrow> string list \<Rightarrow> ExecutionSession \<Rightarrow> ExecutionSession" where
  "both_ended out err s = s\<lparr>x_stdout := x_stdout s @ out, x_stderr := x_stderr s @ err, x_stdoutClosed := True, x_stderrClosed := True\<rparr>"

lemma receive_shuffle:
  assumes "ms \<in> shuffles A B" "to_come Stdout (x_stdoutClosed s) (rv_stdoutSeq st) out A" "to_come Stderr (x_stderrClosed s) (rv_stderrSeq st) err B"
    "rv_started st" "rv_stdoutEOF st = x_stdoutClosed s" "rv_stderrEOF st = x_stderrClosed s"
    "\<forall>b \<in> set out \<union> set err. length b \<le> MaxExecutionFrameBytes"
  shows "\<exists>st'. receiveExecution (map to_hub ms @ rest) st s = receiveExecution rest st' (both_ended out err s) \<and>
    rv_started st' \<and> rv_stdoutEOF st' \<and> rv_stderrEOF st'"
  using assms
proof (induction ms arbitrary: A B out err st s)
  case Nil
  then have "A = []" "B = []" by (auto simp: Nil_in_shuffles)
  with Nil.prems(2,3) have "x_stdoutClosed s" "x_stderrClosed s" "out = []" "err = []"
    by (cases out; cases err; auto simp: to_come_def split: if_splits)+
  then have "both_ended out err s = s" "rv_stdoutEOF st" "rv_stderrEOF st" using Nil.prems by (simp_all add: both_ended_def)
  then show ?case using Nil.prems(4) by (intro exI [of _ st]) simp
next
  case (Cons m ms)
  consider (out) "A \<noteq> []" "hd A = m" "ms \<in> shuffles (tl A) B" | (err) "B \<noteq> []" "hd B = m" "ms \<in> shuffles A (tl B)"
    using Cons.prems(1) by (auto simp: Cons_in_shuffles_iff)
  then show ?case
  proof cases
    case out
    then have open_out: "\<not> x_stdoutClosed s" "A = framed Stdout (rv_stdoutSeq st) out" using Cons.prems(2) by (auto simp: to_come_def split: if_splits)
    then have m: "m = hd (framed Stdout (rv_stdoutSeq st) out)" using out(2) by simp
    show ?thesis
    proof (cases out)
      case Nil
      let ?st = "st\<lparr>rv_stdoutEOF := True\<rparr>" and ?s = "s\<lparr>x_stdoutClosed := True\<rparr>"
      have "receive_message True (to_hub m) st s = Some (RGoOn ?st, ?s)"
        using m Nil open_out(1) Cons.prems(4,5) by (simp add: receive_eof_def)
      moreover have "both_ended [] err ?s = both_ended out err s" using Nil by (simp add: both_ended_def)
      ultimately show ?thesis
        using Cons.IH [OF out(3), of ?s ?st "[]" err] Cons.prems open_out Nil by (simp add: to_come_def)
    next
      case (Cons c cs)
      let ?st = "st\<lparr>rv_stdoutSeq := rv_stdoutSeq st + 1\<rparr>" and ?s = "s\<lparr>x_stdout := x_stdout s @ [c]\<rparr>"
      have "receive_message True (to_hub m) st s = Some (RGoOn ?st, ?s)"
        using m Cons open_out(1) \<open>rv_started st\<close> Cons.prems(5,7) by (simp add: receive_stdout_def deliverExecutionOutput_def)
      moreover have "both_ended cs err ?s = both_ended out err s" using Cons by (simp add: both_ended_def)
      ultimately show ?thesis
        using Cons.IH [OF out(3), of ?s ?st cs err] Cons.prems open_out Cons by (simp add: to_come_def)
    qed
  next
    case err
    then have open_err: "\<not> x_stderrClosed s" "B = framed Stderr (rv_stderrSeq st) err" using Cons.prems(3) by (auto simp: to_come_def split: if_splits)
    then have m: "m = hd (framed Stderr (rv_stderrSeq st) err)" using err(2) by simp
    show ?thesis
    proof (cases err)
      case Nil
      let ?st = "st\<lparr>rv_stderrEOF := True\<rparr>" and ?s = "s\<lparr>x_stderrClosed := True\<rparr>"
      have "receive_message True (to_hub m) st s = Some (RGoOn ?st, ?s)"
        using m Nil open_err(1) Cons.prems(4,6) by (simp add: receive_eof_def)
      moreover have "both_ended out [] ?s = both_ended out err s" using Nil by (simp add: both_ended_def)
      ultimately show ?thesis
        using Cons.IH [OF err(3), of ?s ?st out "[]"] Cons.prems open_err Nil by (simp add: to_come_def)
    next
      case (Cons c cs)
      let ?st = "st\<lparr>rv_stderrSeq := rv_stderrSeq st + 1\<rparr>" and ?s = "s\<lparr>x_stderr := x_stderr s @ [c]\<rparr>"
      have "receive_message True (to_hub m) st s = Some (RGoOn ?st, ?s)"
        using m Cons open_err(1) \<open>rv_started st\<close> Cons.prems(6,7) by (simp add: receive_stderr_def deliverExecutionOutput_def)
      moreover have "both_ended out cs ?s = both_ended out err s" using Cons by (simp add: both_ended_def)
      ultimately show ?thesis
        using Cons.IH [OF err(3), of ?s ?st out cs] Cons.prems open_err Cons by (simp add: to_come_def)
    qed
  qed
qed


definition fresh_session :: "ExecutionSession \<Rightarrow> bool" where
  "fresh_session s \<longleftrightarrow> x_dispatch s \<and> \<not> x_started s \<and> x_stdout s = [] \<and> x_stderr s = [] \<and> \<not> x_stdoutClosed s \<and>
     \<not> x_stderrClosed s \<and> x_result s = []"

definition acceptable_result :: "ExecutionResult \<Rightarrow> bool" where
  "acceptable_result r \<longleftrightarrow> er_state r \<in> {''exited'', ''cancelled'', ''transport_lost'', ''outcome_unknown''} \<and>
     (er_state r = ''exited'' \<longrightarrow> er_stdout_complete r \<and> er_stderr_complete r \<and> valid_exit r)"

text \<open>C18. Output survives the wire. When an agent's run reads both outputs of a process to the end, then
  however the frames of the two outputs interleave on the stream, the hub's receiver accepts them all,
  hands on exactly the bytes the process wrote to each output, in order, and returns with the run's
  result; sequence numbers are 64-bit and may wrap on both sides.\<close>

theorem output_survives_wire:
  assumes "readOutput Stdout outs True = (ms1, True)" "readOutput Stderr errs True = (ms2, True)" "ms \<in> shuffles ms1 ms2"
    and "\<forall>c \<in> set outs \<union> set errs. length (or_bytes c) \<le> MaxExecutionFrameBytes"
    and "fresh_session s" "er_binding r = Session_Binding s" "acceptable_result r"
  shows "\<exists>s'. receiveExecution (AStarted (Some (Session_Binding s)) # map to_hub ms @ [AResult (Some r)]) recv_start s = Some (None, s') \<and>
    concat (x_stdout s') = written_bytes outs \<and> concat (x_stderr s') = written_bytes errs \<and> x_result s' = [redacted r]"
proof -
  obtain out err where ch: "ms1 = framed Stdout 0 out" "concat out = written_bytes outs" "ms2 = framed Stderr 0 err"
      "concat err = written_bytes errs" "\<forall>b \<in> set out \<union> set err. length b \<le> MaxExecutionFrameBytes"
    using readOutput_framed [OF assms(1), of MaxExecutionFrameBytes] readOutput_framed [OF assms(2), of MaxExecutionFrameBytes] assms(4)
    by blast
  let ?s = "s\<lparr>x_started := True\<rparr>" and ?st = "recv_start\<lparr>rv_started := True\<rparr>"
  have f: "x_dispatch s" "\<not> x_started s" "x_stdout s = []" "x_stderr s = []" "\<not> x_stdoutClosed s" "\<not> x_stderrClosed s" "x_result s = []"
    using assms(5) by (simp_all add: fresh_session_def)
  have b: "Session_Binding (both_ended out err ?s) = Session_Binding s"
    by (simp add: Session_Binding_def both_ended_def split: option.split)
  have "receive_message True (AStarted (Some (Session_Binding s))) recv_start s = Some (RGoOn ?st, ?s)"
    using f by (simp add: receive_started_def recv_start_def)
  moreover obtain st' where st': "receiveExecution (map to_hub ms @ [AResult (Some r)]) ?st ?s = receiveExecution [AResult (Some r)] st' (both_ended out err ?s)"
      "rv_started st'" "rv_stdoutEOF st'" "rv_stderrEOF st'"
    using receive_shuffle [OF assms(3), of ?s ?st out err "[AResult (Some r)]"] ch f by (auto simp: to_come_def recv_start_def)
  moreover have "receive_message True (AResult (Some r)) st' (both_ended out err ?s) =
      Some (RReturn None, (both_ended out err ?s)\<lparr>x_result := [redacted r]\<rparr>)"
    using st' assms(6,7) f b by (auto simp: receive_result_def acceptable_result_def send_result_def both_ended_def)
  ultimately have "receiveExecution (AStarted (Some (Session_Binding s)) # map to_hub ms @ [AResult (Some r)]) recv_start s =
      Some (None, (both_ended out err ?s)\<lparr>x_result := [redacted r]\<rparr>)" by simp
  moreover have "x_stdout (both_ended out err ?s) = out" "x_stderr (both_ended out err ?s) = err"
    using f by (simp_all add: both_ended_def)
  ultimately show ?thesis using ch by (intro exI [of _ "(both_ended out err ?s)\<lparr>x_result := [redacted r]\<rparr>"]) simp
qed

definition demo_session :: ExecutionSession where
  "demo_session = (new_execution ''e1'' ''n1'' ''u1'' ''ops'' 7 ''b1'' ''h'')\<lparr>x_dispatch := True\<rparr>"

definition demo_reads :: "string \<Rightarrow> output_read list" where
  "demo_reads bytes = [\<lparr>or_bytes = bytes, or_error = NoError, or_emitted = True\<rparr>, \<lparr>or_bytes = [], or_error = EndOfFile, or_emitted = True\<rparr>]"

definition demo_result :: ExecutionResult where
  "demo_result = \<lparr>er_binding = Session_Binding demo_session, er_state = ''exited'', er_exit_code = 0, er_signal = [], er_reason = [],
     er_stdout_complete = True, er_stderr_complete = True\<rparr>"

theorem output_survives_wire_witness:
  "\<exists>s'. receiveExecution (AStarted (Some (Session_Binding demo_session)) # map to_hub
      [MData Stderr 0 ''oops'', MData Stdout 0 ''hi'', MOutputEOF Stdout 1, MOutputEOF Stderr 1] @ [AResult (Some demo_result)])
      recv_start demo_session = Some (None, s') \<and> concat (x_stdout s') = ''hi'' \<and> concat (x_stderr s') = ''oops'' \<and>
      x_result s' = [redacted demo_result]"
proof -
  have "readOutput Stdout (demo_reads ''hi'') True = ([MData Stdout 0 ''hi'', MOutputEOF Stdout 1], True)"
    "readOutput Stderr (demo_reads ''oops'') True = ([MData Stderr 0 ''oops'', MOutputEOF Stderr 1], True)"
    by (simp_all add: readOutput_def demo_reads_def)
  moreover have "[MData Stderr 0 ''oops'', MData Stdout 0 ''hi'', MOutputEOF Stdout 1, MOutputEOF Stderr 1]
      \<in> shuffles [MData Stdout 0 ''hi'', MOutputEOF Stdout 1] [MData Stderr 0 ''oops'', MOutputEOF Stderr 1]" by simp
  moreover have "fresh_session demo_session" "acceptable_result demo_result"
    by (simp_all add: fresh_session_def demo_session_def new_execution_def acceptable_result_def demo_result_def valid_exit_def)
  moreover have "written_bytes (demo_reads ''hi'') = ''hi''" "written_bytes (demo_reads ''oops'') = ''oops''"
    by (simp_all add: written_bytes_def demo_reads_def)
  ultimately show ?thesis
    using output_survives_wire [of "demo_reads ''hi''" "[MData Stdout 0 ''hi'', MOutputEOF Stdout 1]" "demo_reads ''oops''"
      "[MData Stderr 0 ''oops'', MOutputEOF Stderr 1]"
      "[MData Stderr 0 ''oops'', MData Stdout 0 ''hi'', MOutputEOF Stdout 1, MOutputEOF Stderr 1]" demo_session demo_result]
    by (simp add: demo_reads_def MaxExecutionFrameBytes_def demo_result_def)
qed


section \<open>Protected scripts\<close>

text \<open>The agent takes the frames of a script as they arrive, its storage working; an error ends it.\<close>

fun take_frames :: "exec_env \<Rightarrow> ExecutionBinding \<Rightarrow> (go_time \<times> hub_frame) list \<Rightarrow> Manager \<times> Budget \<Rightarrow> (Manager \<times> Budget) option" where
  "take_frames env bd [] mb = Some mb"
| "take_frames env bd ((now, f) # fs) mb =
     (case (case f of
              HScriptChunk off bytes \<Rightarrow> Some (ScriptChunk now True (Some bd) (Some (off, bytes)) (fst mb) (snd mb))
            | HScriptEof len hash \<Rightarrow> Some (ScriptEOF env now True (Some bd) (Some (len, hash)) (fst mb) (snd mb))
            | _ \<Rightarrow> None) of
        Some (Inr _, m, b) \<Rightarrow> take_frames env bd fs (m, b)
      | _ \<Rightarrow> None)"

definition with_preparation :: "preparation \<Rightarrow> Manager \<Rightarrow> Manager" where
  "with_preparation p m = m\<lparr>m_prepared := (m_prepared m)(eb_execution_id (p_binding p) \<mapsto> p)\<rparr>"

text \<open>An attached preparation that waits for its script.\<close>

definition awaits_script :: "64 word \<Rightarrow> string \<Rightarrow> preparation \<Rightarrow> Manager \<Rightarrow> bool" where
  "awaits_script len hash p m \<longleftrightarrow> \<not> m_closed m \<and> m_prepared m (eb_execution_id (p_binding p)) = Some p \<and> p_attached p \<and> p_enhanced p \<and>
     p_script p \<noteq> None \<and> \<not> p_script_complete p \<and> p_script_length p = len \<and> p_script_hash p = hash"

lemma word_room:
  fixes off len :: "64 word"
  assumes "off \<le> len" "len \<le> 0x1000000" "k \<le> 65536" "off + of_nat k \<le> len"
  shows "\<not> len - off < of_nat k" "unat (off + of_nat k) = unat off + k"
proof -
  have k: "unat (of_nat k :: 64 word) = k" using assms(3) by (simp add: unat_of_nat)
  have l: "unat len \<le> 16777216" using assms(2) by (simp add: word_le_nat_alt)
  have o: "unat off \<le> unat len" using assms(1) by (simp add: word_le_nat_alt)
  show sum: "unat (off + of_nat k) = unat off + k"
    using k l o assms(3) by (simp add: unat_word_ariths)
  have "k \<le> unat len - unat off" using assms(4) sum by (simp add: word_le_nat_alt)
  then show "\<not> len - off < of_nat k" using k unat_sub [OF assms(1)] by (simp add: word_less_nat_alt)
qed

lemma chunk_taken:
  assumes "awaits_script len hash p m" "unix_milli now < eb_expires (p_binding p)" "off = p_script_offset p" "bytes \<noteq> []"
    "length bytes \<le> 65536" "off \<le> len" "len \<le> 0x1000000" "off + of_nat (length bytes) \<le> len"
  shows "ScriptChunk now True (Some (p_binding p)) (Some (off, bytes)) m b = (Inr (), with_preparation (chunk_append bytes p) m, b)"
    "awaits_script len hash (chunk_append bytes p) (with_preparation (chunk_append bytes p) m)"
proof -
  have sp: "scriptPreparation now (Some (p_binding p)) m = Inr p" using assms(1,2) by (auto simp: scriptPreparation_def awaits_script_def)
  have room: "\<not> len - off < of_nat (length bytes)" using word_room(1) [OF assms(6,7,5,8)] .
  have "ScriptChunk_body now True (Some (p_binding p)) (Some (off, bytes)) m = (Inr (), with_preparation (chunk_append bytes p) m)"
    using sp assms(1,3,4,5) room by (simp add: ScriptChunk_body_def with_preparation_def awaits_script_def MaxFrameBytes_def chunk_append_def)
  then show "ScriptChunk now True (Some (p_binding p)) (Some (off, bytes)) m b = (Inr (), with_preparation (chunk_append bytes p) m, b)"
    by (simp add: ScriptChunk_def)
  show "awaits_script len hash (chunk_append bytes p) (with_preparation (chunk_append bytes p) m)"
    using assms(1) by (simp add: awaits_script_def with_preparation_def chunk_append_def)
qed

lemma with_preparation_twice: "p_binding q = p_binding p \<Longrightarrow> with_preparation q (with_preparation p m) = with_preparation q m"
  by (simp add: with_preparation_def)

text \<open>What a source gave, up to its end.\<close>

definition source_bytes :: "script_read list \<Rightarrow> string" where
  "source_bytes reads = concat (map sr_bytes (takeWhile (\<lambda>c. sr_error c \<noteq> EndOfFile) reads)) @
     sr_bytes (hd (dropWhile (\<lambda>c. sr_error c \<noteq> EndOfFile) reads))"

lemma script_taken:
  assumes "script_loop sha len hash off seen reads = (fs, True)" "awaits_script len hash p m" "off = p_script_offset p"
    "p_script p = Some seen" "off \<le> len" "len \<le> 0x1000000" "\<forall>c \<in> set reads. length (sr_bytes c) \<le> 65536"
    "length ts = length fs" "\<forall>t \<in> set ts. unix_milli t < eb_expires (p_binding p)"
  shows "\<exists>q m'. take_frames env (p_binding p) (zip ts fs @ rest) (m, b) = take_frames env (p_binding p) rest (m', b) \<and>
    awaits_script len hash q m' \<and> m' = with_preparation q m \<and> p_script q = Some (seen @ source_bytes reads) \<and> p_script_offset q = len \<and>
    p_binding q = p_binding p \<and> sha (seen @ source_bytes reads) = hash"
  using assms
proof (induction reads arbitrary: off seen fs p m ts)
  case (Cons c cs)
  let ?off = "off + of_nat (length (sr_bytes c))" and ?seen = "seen @ sr_bytes c"
  let ?fr = "if sr_bytes c \<noteq> [] then [HScriptChunk off (sr_bytes c)] else []"
  let ?p = "if sr_bytes c \<noteq> [] then chunk_append (sr_bytes c) p else p"
  have len: "sr_bytes c \<noteq> [] \<Longrightarrow> ?off \<le> len" using Cons.prems(1) by (auto simp: Let_def not_less split: if_splits prod.splits)
  then have le: "?off \<le> len" using Cons.prems(5) by (cases "sr_bytes c = []") auto
  obtain rest' where fs: "fs = ?fr @ rest'" using Cons.prems(1) by (auto simp: Let_def split: if_splits prod.splits)
  obtain t1 t2 where ts: "ts = t1 @ t2" "length t1 = length ?fr" "length t2 = length rest'"
    using Cons.prems(8) fs by (intro that [of "take (length ?fr) ts" "drop (length ?fr) ts"]) auto
  have p': "p_script ?p = Some ?seen" "p_script_offset ?p = ?off" "p_binding ?p = p_binding p"
    using Cons.prems(3,4) by (auto simp: chunk_append_def)
  have same: "with_preparation p m = m" using Cons.prems(2) by (auto simp: with_preparation_def awaits_script_def fun_upd_idem)
  have step: "take_frames env (p_binding p) (zip t1 ?fr @ more) (m, b) = take_frames env (p_binding p) more (with_preparation ?p m, b) \<and>
      awaits_script len hash ?p (with_preparation ?p m)" for more
  proof (cases "sr_bytes c = []")
    case True
    then show ?thesis using ts same Cons.prems(2) by simp
  next
    case False
    then obtain t where t: "t1 = [t]" "unix_milli t < eb_expires (p_binding p)" using ts Cons.prems(9) by (cases t1) auto
    have "length (sr_bytes c) \<le> 65536" using Cons.prems(7) by simp
    from chunk_taken [OF Cons.prems(2) t(2) Cons.prems(3) False this Cons.prems(5,6) len [OF False]] False t(1)
    show ?thesis by simp
  qed
  show ?case
  proof (cases "sr_error c = EndOfFile")
    case True
    then have e: "fs = ?fr" "?off = len" "sha ?seen = hash" using Cons.prems(1) by (auto simp: Let_def split: if_splits)
    then have "source_bytes (c # cs) = sr_bytes c" using True by (simp add: source_bytes_def)
    with e step [of rest] p' ts fs show ?thesis by (intro exI [of _ ?p] exI [of _ "with_preparation ?p m"]) auto
  next
    case False
    then have r: "script_loop sha len hash ?off ?seen cs = (rest', True)"
      using Cons.prems(1) fs by (auto simp: Let_def split: if_splits prod.splits)
    have later: "\<forall>t \<in> set t2. unix_milli t < eb_expires (p_binding ?p)" using Cons.prems(9) ts(1) p'(3) by simp
    obtain q m' where q: "take_frames env (p_binding ?p) (zip t2 rest' @ rest) (with_preparation ?p m, b) = take_frames env (p_binding ?p) rest (m', b)"
        "awaits_script len hash q m'" "m' = with_preparation q (with_preparation ?p m)" "p_script q = Some (?seen @ source_bytes cs)"
        "p_script_offset q = len" "p_binding q = p_binding ?p" "sha (?seen @ source_bytes cs) = hash"
      using Cons.IH [OF r conjunct2 [OF step] p'(2) [symmetric] p'(1) le Cons.prems(6) _ ts(3) later] Cons.prems(7) by auto
    have "take_frames env (p_binding p) (zip ts fs @ rest) (m, b) = take_frames env (p_binding p) rest (m', b)"
      using step [of "zip t2 rest' @ rest"] q(1) ts fs p'(3) by simp
    moreover have "source_bytes (c # cs) = sr_bytes c @ source_bytes cs" using False by (simp add: source_bytes_def)
    ultimately show ?thesis using q p'(3) with_preparation_twice [of q ?p m] by (intro exI [of _ q] exI [of _ m']) auto
  qed
qed simp


text \<open>C19. A protected script survives the wire. When the hub's transfer of a script succeeds, the agent's
  preparation that waits for it takes every frame, whatever the sizes of the reads, and is complete with
  exactly the bytes of the hub's source, whose digest is the announced one; the budget is unchanged.\<close>

theorem script_survives_wire:
  assumes "sendProtectedScript (xe_sha env) reads True s = (fs, True)" "x_scriptLength s \<le> 0x1000000"
    and "\<forall>c \<in> set reads. length (sr_bytes c) \<le> 65536"
    and "awaits_script (x_scriptLength s) (x_scriptHash s) p m" "p_script p = Some []" "p_script_offset p = 0"
    and "length ts = length fs" "\<forall>t \<in> set ts. unix_milli t < eb_expires (p_binding p)"
  shows "\<exists>m' q. take_frames env (p_binding p) (zip ts fs) (m, b) = Some (m', b) \<and>
    m_prepared m' (eb_execution_id (p_binding p)) = Some q \<and> p_script_complete q \<and> p_script q = Some (source_bytes reads) \<and>
    xe_sha env (source_bytes reads) = x_scriptHash s"
proof -
  let ?len = "x_scriptLength s" and ?hash = "x_scriptHash s"
  obtain fs0 where fs: "script_loop (xe_sha env) ?len ?hash 0 [] reads = (fs0, True)" "fs = fs0 @ [HScriptEof ?len ?hash]"
    using assms(1) by (auto simp: sendProtectedScript_def split: prod.splits if_splits)
  obtain t0 t where ts: "ts = t0 @ [t]" "length t0 = length fs0"
    using assms(7) fs(2) by (cases ts rule: rev_cases) auto
  have before: "\<forall>t \<in> set t0. unix_milli t < eb_expires (p_binding p)" "unix_milli t < eb_expires (p_binding p)"
    using assms(8) ts(1) by auto
  obtain q m1 where q: "take_frames env (p_binding p) (zip t0 fs0 @ [(t, HScriptEof ?len ?hash)]) (m, b) =
        take_frames env (p_binding p) [(t, HScriptEof ?len ?hash)] (m1, b)"
      "awaits_script ?len ?hash q m1" "p_script q = Some (source_bytes reads)" "p_script_offset q = ?len" "p_binding q = p_binding p"
      "xe_sha env (source_bytes reads) = ?hash"
    using script_taken [OF fs(1) assms(4), of t0 env "[(t, HScriptEof ?len ?hash)]" b] assms(2,3,5,6) before(1) ts(2) by auto
  let ?q = "q\<lparr>p_script_complete := True\<rparr>"
  have sp: "scriptPreparation t (Some (p_binding p)) m1 = Inr q" using q(2,5) before(2) by (auto simp: scriptPreparation_def awaits_script_def)
  have "ScriptEOF env t True (Some (p_binding p)) (Some (?len, ?hash)) m1 b = (Inr (), with_preparation ?q m1, b)"
    using sp q(2-6) by (simp add: ScriptEOF_def ScriptEOF_body_def with_preparation_def awaits_script_def)
  with q(1) ts fs(2) have "take_frames env (p_binding p) (zip ts fs) (m, b) = Some (with_preparation ?q m1, b)" by simp
  moreover have "m_prepared (with_preparation ?q m1) (eb_execution_id (p_binding p)) = Some ?q" using q(5) by (simp add: with_preparation_def)
  ultimately show ?thesis using q(3,6) by (intro exI [of _ "with_preparation ?q m1"] exI [of _ ?q]) simp
qed

definition demo_script_session :: ExecutionSession where
  "demo_script_session = demo_session\<lparr>x_enhanced := True, x_scriptHash := ''h'', x_scriptLength := 3\<rparr>"

definition demo_script_reads :: "script_read list" where
  "demo_script_reads = [\<lparr>sr_expired = False, sr_bytes = ''id'', sr_error = NoError, sr_expired_after = False, sr_sent = True, sr_stopped = False\<rparr>,
     \<lparr>sr_expired = False, sr_bytes = '';'', sr_error = EndOfFile, sr_expired_after = False, sr_sent = True, sr_stopped = False\<rparr>]"

definition demo_script_env :: exec_env where
  "demo_script_env = ex_xenv\<lparr>xe_journal := (xe_journal ex_xenv)\<lparr>je_sha := (\<lambda>_. ''h'')\<rparr>\<rparr>"

definition demo_waiting :: preparation where
  "demo_waiting = example_preparation\<lparr>p_script_hash := ''h'', p_script_length := 3, p_script_complete := False\<rparr>"

theorem script_survives_wire_witness:
  "\<exists>m' q. take_frames demo_script_env example_binding
      (zip [0, 0, 0] [HScriptChunk 0 ''id'', HScriptChunk 2 '';'', HScriptEof 3 ''h'']) (with_preparation demo_waiting ex_manager, New_budget 4) = Some (m', New_budget 4) \<and>
    m_prepared m' (eb_execution_id example_binding) = Some q \<and> p_script q = Some ''id;''"
proof -
  have w: "demo_waiting = example_preparation\<lparr>p_script_hash := ''h'', p_script_length := 3, p_script_complete := False\<rparr>" by (simp add: demo_waiting_def)
  have sent: "sendProtectedScript (xe_sha demo_script_env) demo_script_reads True demo_script_session =
      ([HScriptChunk 0 ''id'', HScriptChunk 2 '';'', HScriptEof 3 ''h''], True)"
    by (simp add: sendProtectedScript_def demo_script_reads_def demo_script_session_def demo_script_env_def xe_sha_def)
  have "awaits_script (x_scriptLength demo_script_session) (x_scriptHash demo_script_session) demo_waiting (with_preparation demo_waiting ex_manager)"
    by (simp add: awaits_script_def with_preparation_def w example_preparation_def demo_script_session_def ex_manager_def NewManager_def)
  moreover have "source_bytes demo_script_reads = ''id;''" by (simp add: source_bytes_def demo_script_reads_def)
  moreover have "p_binding demo_waiting = example_binding" "p_script demo_waiting = Some []" "p_script_offset demo_waiting = 0"
    by (simp_all add: w example_preparation_def)
  moreover have "x_scriptLength demo_script_session \<le> 0x1000000" by (simp add: demo_script_session_def)
  moreover have "\<forall>c \<in> set demo_script_reads. length (sr_bytes c) \<le> 65536" by (simp add: demo_script_reads_def)
  moreover have "unix_milli 0 < eb_expires example_binding" by (simp add: example_binding_def unix_milli_def)
  ultimately show ?thesis
    using script_survives_wire [OF sent, of demo_waiting "with_preparation demo_waiting ex_manager" "[0, 0, 0]" "New_budget 4"] by auto
qed

end
