(* ===== verification/Auth_Caches.thy ===== *)
theory Auth_Caches
  imports Veyport_Prelude
begin

text \<open>
  The hub's memory of spent credentials (\<open>hub/internal/auth/totp.go\<close>, \<open>totp_cache.go\<close>,
  \<open>blacklist.go\<close>): the one-time codes used in the last 90 seconds, and the revoked tokens, in memory
  and in the \<open>token_blacklist\<close> table. Each method runs under its mutex and is one function of the state
  and the clock; checking a one-time code against a secret is the \<open>otp\<close> library's and a parameter.
\<close>

section \<open>One-time codes\<close>

type_synonym TOTPUsedCodes = "string \<rightharpoonup> go_time"

definition NewTOTPUsedCodes :: TOTPUsedCodes where
  "NewTOTPUsedCodes = Map.empty"

definition code_key :: "string \<Rightarrow> string \<Rightarrow> string" where
  "code_key user code = user @ '':'' @ code"

definition drop_stale :: "go_time \<Rightarrow> TOTPUsedCodes \<Rightarrow> TOTPUsedCodes" where
  "drop_stale now codes = (\<lambda>k. case codes k of None \<Rightarrow> None | Some t \<Rightarrow> if time_sub now t > 90 * second then None else Some t)"

definition MarkUsed :: "go_time \<Rightarrow> string \<Rightarrow> string \<Rightarrow> TOTPUsedCodes \<Rightarrow> TOTPUsedCodes" where
  "MarkUsed now user code codes = drop_stale now (codes(code_key user code \<mapsto> now))"

definition WasUsed :: "string \<Rightarrow> string \<Rightarrow> TOTPUsedCodes \<Rightarrow> bool" where
  "WasUsed user code codes \<longleftrightarrow> codes (code_key user code) \<noteq> None"

definition CheckAndMark :: "go_time \<Rightarrow> string \<Rightarrow> string \<Rightarrow> TOTPUsedCodes \<Rightarrow> bool \<times> TOTPUsedCodes" where
  "CheckAndMark now user code codes =
     (if codes (code_key user code) \<noteq> None then (False, codes)
      else (True, drop_stale now (codes(code_key user code \<mapsto> now))))"

definition Clear_codes :: "TOTPUsedCodes \<Rightarrow> TOTPUsedCodes" where
  "Clear_codes codes = Map.empty"

text \<open>\<open>validate\<close> is the library's check of a code against a secret at a time. The operation's clock is
  the one the cache reads.\<close>

definition ValidateTOTPWithReplayAt ::
    "(string \<Rightarrow> string \<Rightarrow> go_time \<Rightarrow> bool) \<Rightarrow> string \<Rightarrow> string \<Rightarrow> string \<Rightarrow> go_time \<Rightarrow> TOTPUsedCodes option \<Rightarrow> bool \<times> TOTPUsedCodes option" where
  "ValidateTOTPWithReplayAt validate user secret code now cache =
     (if \<not> validate code secret now then (False, cache)
      else case cache of
        None \<Rightarrow> (True, None)
      | Some codes \<Rightarrow> (case CheckAndMark now user code codes of (ok, codes') \<Rightarrow> (ok, Some codes')))"

record totp_call =
  tc_time :: go_time
  tc_user :: string
  tc_secret :: string
  tc_code :: string

text \<open>A sequence of checks, with the ones that were accepted.\<close>

fun totp_run :: "(string \<Rightarrow> string \<Rightarrow> go_time \<Rightarrow> bool) \<Rightarrow> totp_call list \<Rightarrow> TOTPUsedCodes \<Rightarrow> totp_call list" where
  "totp_run validate [] codes = []"
| "totp_run validate (c # cs) codes =
     (case ValidateTOTPWithReplayAt validate (tc_user c) (tc_secret c) (tc_code c) (tc_time c) (Some codes) of
        (ok, codes') \<Rightarrow> (if ok then [c] else []) @ totp_run validate cs (case codes' of None \<Rightarrow> codes | Some m \<Rightarrow> m))"

lemma drop_stale_keeps: "codes k = Some t \<Longrightarrow> now - t \<le> 90 * second \<Longrightarrow> drop_stale now codes k = Some t"
  by (simp add: drop_stale_def time_sub_le_iff in_int64_def min_int64_def max_int64_def second_def linorder_not_less)

lemma CheckAndMark_keeps:
  assumes "codes k = Some t" "now - t \<le> 90 * second"
  shows "snd (CheckAndMark now user code codes) k = Some t"
proof (cases "codes (code_key user code)")
  case None
  then have "(codes(code_key user code \<mapsto> now)) k = Some t" using assms(1) by auto
  then show ?thesis using None assms(2) by (simp add: CheckAndMark_def drop_stale_keeps del: fun_upd_apply)
qed (simp add: CheckAndMark_def assms)

lemma CheckAndMark_marks:
  "fst (CheckAndMark now user code codes) \<Longrightarrow> snd (CheckAndMark now user code codes) (code_key user code) = Some now"
  by (auto simp: CheckAndMark_def split: if_splits intro!: drop_stale_keeps) (simp_all add: second_def)

lemma totp_run_subset: "d \<in> set (totp_run validate cs codes) \<Longrightarrow> d \<in> set cs"
  by (induction cs arbitrary: codes) (auto split: prod.splits if_splits)

lemma remembered_refused:
  assumes "codes (code_key u k) = Some t" "\<forall>c \<in> set cs. t \<le> tc_time c" "sorted (map tc_time cs)"
    and "d \<in> set (totp_run validate cs codes)" "tc_user d = u" "tc_code d = k"
  shows "90 * second < tc_time d - t"
  using assms
proof (induction cs arbitrary: codes)
  case (Cons c cs)
  let ?v = "validate (tc_code c) (tc_secret c) (tc_time c)" and ?r = "CheckAndMark (tc_time c) (tc_user c) (tc_code c) codes"
  consider (head) "?v" "fst ?r" "d = c" | (tail) codes' where "d \<in> set (totp_run validate cs codes')" "codes' = (if ?v then snd ?r else codes)"
    using Cons.prems(4) by (auto simp: ValidateTOTPWithReplayAt_def split: prod.splits if_splits)
  then show ?case
  proof cases
    case head
    then have "fst (CheckAndMark (tc_time c) u k codes)" using Cons.prems(5,6) by simp
    then show ?thesis using Cons.prems(1) by (simp add: CheckAndMark_def)
  next
    case tail
    show ?thesis
    proof (cases "tc_time c - t \<le> 90 * second")
      case True
      then have "codes' (code_key u k) = Some t"
        using tail(2) Cons.prems(1) CheckAndMark_keeps by simp
      then show ?thesis using Cons tail(1) by auto
    next
      case False
      have "d \<in> set cs" using tail(1) by (rule totp_run_subset)
      then have "tc_time c \<le> tc_time d" using Cons.prems(3) by simp
      then show ?thesis using False by linarith
    qed
  qed
qed simp


lemma accepted_apart:
  assumes "sorted (map tc_time cs)" "totp_run validate cs codes = ds1 @ c # ds2 @ d # ds3"
    and "tc_user c = tc_user d" "tc_code c = tc_code d"
  shows "90 * second < tc_time d - tc_time c"
  using assms
proof (induction cs arbitrary: codes ds1)
  case (Cons x cs)
  let ?v = "validate (tc_code x) (tc_secret x) (tc_time x)" and ?r = "CheckAndMark (tc_time x) (tc_user x) (tc_code x) codes"
  let ?codes = "if ?v then snd ?r else codes"
  have run: "(if ?v \<and> fst ?r then [x] else []) @ totp_run validate cs ?codes = ds1 @ c # ds2 @ d # ds3"
    using Cons.prems(2) by (auto simp: ValidateTOTPWithReplayAt_def split: prod.splits if_splits)
  show ?case
  proof (cases "(?v \<and> fst ?r) \<and> ds1 = []")
    case True
    then have x: "x = c" "d \<in> set (totp_run validate cs ?codes)" using run by auto
    have "?codes (code_key (tc_user d) (tc_code d)) = Some (tc_time x)"
      using True CheckAndMark_marks [of "tc_time x" "tc_user x" "tc_code x" codes] x(1) Cons.prems(3,4) by simp
    from remembered_refused [OF this _ _ x(2)] show ?thesis using Cons.prems(1) x(1) by simp
  next
    case False
    then obtain ds1' where "totp_run validate cs ?codes = ds1' @ c # ds2 @ d # ds3"
      using run by (cases ds1) (auto split: if_splits)
    then show ?thesis using Cons by simp
  qed
qed simp




section \<open>Revoked tokens\<close>

text \<open>\<open>TokenBlacklist\<close>: the entries in memory and the rows of \<open>token_blacklist\<close>, whose expiry is a
  whole second.\<close>

record TokenBlacklist =
  bl_entries :: "string \<rightharpoonup> go_time"
  bl_table :: "string \<rightharpoonup> sql_time"

definition drop_expired :: "go_time \<Rightarrow> (string \<rightharpoonup> go_time) \<Rightarrow> string \<rightharpoonup> go_time" where
  "drop_expired now entries = (\<lambda>k. case entries k of None \<Rightarrow> None | Some e \<Rightarrow> if now > e then None else Some e)"

definition row_live :: "go_time \<Rightarrow> sql_time \<Rightarrow> bool" where
  "row_live now e \<longleftrightarrow> e > format_sqlite now"

text \<open>A row whose text does not parse is skipped.\<close>

definition loadFromDB :: "go_time \<Rightarrow> bool \<Rightarrow> TokenBlacklist \<Rightarrow> TokenBlacklist" where
  "loadFromDB now fault b =
     (if fault then b
      else b\<lparr>bl_entries := (\<lambda>jti. case bl_table b jti of
               None \<Rightarrow> bl_entries b jti
             | Some e \<Rightarrow> if row_live now e then (case parse_sqlite (Some e) of None \<Rightarrow> bl_entries b jti | Some t \<Rightarrow> Some t)
                         else bl_entries b jti)\<rparr>)"

text \<open>A new process starts from the table alone.\<close>

definition NewTokenBlacklist :: "go_time \<Rightarrow> bool \<Rightarrow> (string \<rightharpoonup> sql_time) \<Rightarrow> TokenBlacklist" where
  "NewTokenBlacklist now fault table = loadFromDB now fault \<lparr>bl_entries = Map.empty, bl_table = table\<rparr>"

definition cleanup :: "go_time \<Rightarrow> bool \<Rightarrow> TokenBlacklist \<Rightarrow> TokenBlacklist" where
  "cleanup now fault b =
     b\<lparr>bl_entries := drop_expired now (bl_entries b),
       bl_table := (if fault then bl_table b
                    else (\<lambda>jti. case bl_table b jti of None \<Rightarrow> None | Some e \<Rightarrow> if row_live now e then Some e else None))\<rparr>"

definition Blacklist_Add :: "go_time \<Rightarrow> bool \<Rightarrow> string \<Rightarrow> go_time \<Rightarrow> TokenBlacklist \<Rightarrow> TokenBlacklist" where
  "Blacklist_Add now fault jti expiry b =
     b\<lparr>bl_entries := drop_expired now ((bl_entries b)(jti \<mapsto> expiry)),
       bl_table := (if fault then bl_table b else (bl_table b)(jti \<mapsto> format_sqlite expiry))\<rparr>"

text \<open>The first fault is of the count, the second of the re-read.\<close>

definition IsBlacklisted :: "go_time \<Rightarrow> bool \<Rightarrow> bool \<Rightarrow> string \<Rightarrow> TokenBlacklist \<Rightarrow> bool \<times> TokenBlacklist" where
  "IsBlacklisted now fault fault2 jti b =
     (if bl_entries b jti \<noteq> None then (True, b)
      else case bl_table b jti of
        None \<Rightarrow> (False, b)
      | Some e \<Rightarrow>
          if fault \<or> \<not> row_live now e then (False, b)
          else (True, case (if fault2 then None else parse_sqlite (Some e)) of
                        None \<Rightarrow> b | Some t \<Rightarrow> b\<lparr>bl_entries := (bl_entries b)(jti \<mapsto> t)\<rparr>))"

datatype blacklist_op =
    BAdd bool string go_time
  | BCleanup bool
  | BLookup bool bool string
  | BRestart bool

fun blacklist_step :: "go_time \<times> blacklist_op \<Rightarrow> TokenBlacklist \<Rightarrow> TokenBlacklist" where
  "blacklist_step (now, BAdd fault jti expiry) b = Blacklist_Add now fault jti expiry b"
| "blacklist_step (now, BCleanup fault) b = cleanup now fault b"
| "blacklist_step (now, BLookup fault fault2 jti) b = snd (IsBlacklisted now fault fault2 jti b)"
| "blacklist_step (now, BRestart fault) b = NewTokenBlacklist now fault (bl_table b)"

lemmas blacklist_defs = Blacklist_Add_def cleanup_def IsBlacklisted_def NewTokenBlacklist_def loadFromDB_def drop_expired_def

definition readds :: "string \<Rightarrow> blacklist_op \<Rightarrow> bool" where
  "readds jti opn \<longleftrightarrow> (\<exists>fault expiry. opn = BAdd fault jti expiry)"

text \<open>What a revocation leaves: the row, and in memory nothing or an expiry no earlier than the row's.\<close>

definition revoked_at :: "string \<Rightarrow> sql_time \<Rightarrow> TokenBlacklist \<Rightarrow> bool" where
  "revoked_at jti e b \<longleftrightarrow> bl_table b jti = Some e"

lemma row_liveI: "now < e * second \<Longrightarrow> row_live now e"
proof -
  assume "now < e * second"
  moreover have "format_sqlite now * second \<le> now" by (rule format_sqlite_bounds)
  ultimately show ?thesis by (simp add: row_live_def second_def)
qed

lemma step_keeps_row:
  assumes "revoked_at jti e b" "now < e * second" "\<not> readds jti opn"
  shows "revoked_at jti e (blacklist_step (now, opn) b)"
proof (cases opn)
  case (BAdd fault j x)
  then show ?thesis using assms by (auto simp: revoked_at_def blacklist_defs readds_def)
qed (use assms in \<open>auto simp: revoked_at_def blacklist_defs row_liveI split: option.splits if_splits\<close>)

lemma run_keeps_row:
  assumes "revoked_at jti e b" "\<forall>(now, opn) \<in> set ops. now < e * second \<and> \<not> readds jti opn"
  shows "revoked_at jti e (fold blacklist_step ops b)"
  using assms
proof (induction ops arbitrary: b)
  case (Cons x ops)
  obtain now opn where x: "x = (now, opn)" by fastforce
  then have "revoked_at jti e (blacklist_step x b)" using step_keeps_row Cons.prems by auto
  then show ?case using Cons by simp
qed simp

text \<open>C28. A revoked token stays refused. Once a revocation was stored, then until the second its token
  expires, whatever other revocations, cleanups, failing lookups and restarts of the hub follow, a lookup
  that can read the table answers that the token is revoked.\<close>

theorem revoked_token_refused:
  assumes "\<forall>(now, opn) \<in> set ops. now < format_sqlite expiry * second \<and> \<not> readds jti opn"
    and "now < format_sqlite expiry * second"
  shows "fst (IsBlacklisted now False fault2 jti (fold blacklist_step ops (Blacklist_Add t0 False jti expiry b)))"
proof -
  have "revoked_at jti (format_sqlite expiry) (Blacklist_Add t0 False jti expiry b)"
    by (simp add: revoked_at_def Blacklist_Add_def)
  from run_keeps_row [OF this] assms show ?thesis
    by (auto simp: revoked_at_def IsBlacklisted_def row_liveI split: option.splits)
qed

theorem revoked_token_refused_witness:
  "fst (IsBlacklisted (50 * second) False False ''j''
     (fold blacklist_step [(10 * second, BRestart True), (20 * second, BCleanup False), (30 * second, BAdd False ''k'' (31 * second))]
       (Blacklist_Add 0 False ''j'' (60 * second) \<lparr>bl_entries = Map.empty, bl_table = Map.empty\<rparr>)))"
  by (rule revoked_token_refused) (simp_all add: readds_def format_sqlite_def second_def)

end
