(* ===== verification/Reenroll.thy ===== *)
theory Reenroll
  imports Auth_Caches
begin

text \<open>
  Re-enrolment of a node that lost its certificate (\<open>hub/internal/grpcserver/reenroll.go\<close>,
  \<open>hub/internal/store/reenroll.go\<close>, \<open>hub/internal/server/handlers_reenroll.go\<close>). The node asks on a
  bootstrap stream; an administrator with a fresh one-time code approves or denies that exact request;
  approval sends the node its sealed key and a challenge; a valid signature of the challenge on the same
  stream gets a certificate. Sessions are objects of a heap, a section under \<open>reEnrollMu\<close> is one function,
  \<open>None\<close> is a panic or a send that blocks with the lock held. Streams, clocks, signatures, sealing and
  the certificate authority's signature are parameters; the audit entries of the handshake are left out.
\<close>

section \<open>The store\<close>

record ReEnrollRequest =
  rq_ID :: string
  rq_ServerID :: string
  rq_RequestedAt :: sql_time
  rq_IPAddress :: string
  rq_Fingerprint :: string
  rq_Status :: string
  rq_AnomalyFlags :: string
  rq_DecidedBy :: string

record reenroll_row =
  rw_id :: string
  rw_server_id :: string
  rw_requested_at :: sql_time
  rw_ip_address :: "string option"
  rw_fingerprint :: "string option"
  rw_status :: string
  rw_anomaly_flags :: "string option"
  rw_decided_by :: "string option"

record node_row =
  nd_id :: string
  nd_pubkey :: "string option"
  nd_kek_enc :: "string option"
  nd_fingerprint :: "string option"
  nd_transport :: "string option"
  nd_status :: string

record reenroll_db =
  reenroll_requests :: "reenroll_row list"
  nodes :: "node_row list"

datatype reenroll_error =
    ErrReEnrollNotPending
  | ErrServerNotFound
  | ErrRequestNotFound
  | ErrDatabase
  | ErrNoPendingReEnroll
  | ErrReEnrollDecisionInProgress
  | ErrText string

definition to_row :: "ReEnrollRequest \<Rightarrow> reenroll_row" where
  "to_row r = \<lparr>rw_id = rq_ID r, rw_server_id = rq_ServerID r, rw_requested_at = rq_RequestedAt r,
     rw_ip_address = Some (rq_IPAddress r), rw_fingerprint = Some (rq_Fingerprint r), rw_status = rq_Status r,
     rw_anomaly_flags = Some (rq_AnomalyFlags r), rw_decided_by = Some (rq_DecidedBy r)\<rparr>"

definition expire_pending :: "string \<Rightarrow> reenroll_row list \<Rightarrow> reenroll_row list" where
  "expire_pending server rows =
     sql_update (\<lambda>w. rw_server_id w = server \<and> rw_status w = ''pending'') (\<lambda>w. w\<lparr>rw_status := ''expired''\<rparr>) rows"

text \<open>A fault at any of begin, the two statements and the commit rolls everything back.\<close>

definition CreateCurrentReEnrollRequest :: "db_faults \<Rightarrow> ReEnrollRequest \<Rightarrow> reenroll_db \<Rightarrow> (reenroll_error + unit) \<times> reenroll_db" where
  "CreateCurrentReEnrollRequest fault r d =
     (if fault 0 \<or> fault 1 \<or> fault 2 \<or> fault 3 then (Inl ErrDatabase, d)
      else case sql_insert rw_id (to_row r) (expire_pending (rq_ServerID r) (reenroll_requests d)) of
        None \<Rightarrow> (Inl ErrDatabase, d)
      | Some rows \<Rightarrow> (Inr (), d\<lparr>reenroll_requests := rows\<rparr>))"

definition pending_request :: "string \<Rightarrow> string \<Rightarrow> reenroll_row \<Rightarrow> bool" where
  "pending_request server request w \<longleftrightarrow> rw_id w = request \<and> rw_server_id w = server \<and> rw_status w = ''pending''"

text \<open>The second fault is of reading the number of changed rows, after the update.\<close>

definition DecidePendingReEnroll ::
    "db_faults \<Rightarrow> string \<Rightarrow> string \<Rightarrow> string \<Rightarrow> string \<Rightarrow> reenroll_db \<Rightarrow> (reenroll_error + unit) \<times> reenroll_db" where
  "DecidePendingReEnroll fault server request status decidedBy d =
     (if fault 0 then (Inl ErrDatabase, d)
      else let rows = reenroll_requests d; P = pending_request server request;
               d1 = d\<lparr>reenroll_requests := sql_update P (\<lambda>w. w\<lparr>rw_status := status, rw_decided_by := Some decidedBy\<rparr>) rows\<rparr> in
        if fault 1 then (Inl ErrDatabase, d1)
        else if sql_count P rows \<noteq> 1 then (Inl ErrReEnrollNotPending, d1)
        else (Inr (), d1))"

definition update_node :: "bool \<Rightarrow> string \<Rightarrow> (node_row \<Rightarrow> node_row) \<Rightarrow> reenroll_db \<Rightarrow> (reenroll_error + unit) \<times> reenroll_db" where
  "update_node fault server f d =
     (if fault then (Inl ErrDatabase, d)
      else (if sql_count (\<lambda>n. nd_id n = server) (nodes d) = 0 then Inl ErrServerNotFound else Inr (),
            d\<lparr>nodes := sql_update (\<lambda>n. nd_id n = server) f (nodes d)\<rparr>))"

definition SetNodeCrypto :: "bool \<Rightarrow> string \<Rightarrow> string \<Rightarrow> string \<Rightarrow> string \<Rightarrow> reenroll_db \<Rightarrow> (reenroll_error + unit) \<times> reenroll_db" where
  "SetNodeCrypto fault server pub kek fingerprint =
     update_node fault server (\<lambda>n. n\<lparr>nd_pubkey := Some pub, nd_kek_enc := Some kek, nd_fingerprint := Some fingerprint\<rparr>)"

definition SetNodeTransportPub :: "bool \<Rightarrow> string \<Rightarrow> string \<Rightarrow> reenroll_db \<Rightarrow> (reenroll_error + unit) \<times> reenroll_db" where
  "SetNodeTransportPub fault server pub = update_node fault server (\<lambda>n. n\<lparr>nd_transport := Some pub\<rparr>)"

definition null_string :: "string option \<Rightarrow> string" where
  "null_string v = (case v of None \<Rightarrow> [] | Some s \<Rightarrow> s)"

definition read_node :: "bool \<Rightarrow> string \<Rightarrow> reenroll_db \<Rightarrow> reenroll_error + node_row" where
  "read_node fault server d =
     (if fault then Inl ErrDatabase
      else case sql_first (\<lambda>n. nd_id n = server) (nodes d) of None \<Rightarrow> Inl ErrServerNotFound | Some n \<Rightarrow> Inr n)"

definition GetNodeTransportPub :: "bool \<Rightarrow> string \<Rightarrow> reenroll_db \<Rightarrow> reenroll_error + string" where
  "GetNodeTransportPub fault server d = (case read_node fault server d of Inl e \<Rightarrow> Inl e | Inr n \<Rightarrow> Inr (null_string (nd_transport n)))"

definition GetNodeCrypto :: "bool \<Rightarrow> string \<Rightarrow> reenroll_db \<Rightarrow> reenroll_error + string \<times> string \<times> string" where
  "GetNodeCrypto fault server d =
     (case read_node fault server d of
        Inl e \<Rightarrow> Inl e
      | Inr n \<Rightarrow> Inr (null_string (nd_pubkey n), null_string (nd_kek_enc n), null_string (nd_fingerprint n)))"

definition GetReEnrollRequest :: "bool \<Rightarrow> string \<Rightarrow> reenroll_db \<Rightarrow> reenroll_error + ReEnrollRequest" where
  "GetReEnrollRequest fault i d =
     (if fault then Inl ErrDatabase
      else case sql_first (\<lambda>w. rw_id w = i) (reenroll_requests d) of
        None \<Rightarrow> Inl ErrRequestNotFound
      | Some w \<Rightarrow> Inr \<lparr>rq_ID = rw_id w, rq_ServerID = rw_server_id w, rq_RequestedAt = rw_requested_at w,
          rq_IPAddress = null_string (rw_ip_address w), rq_Fingerprint = null_string (rw_fingerprint w), rq_Status = rw_status w,
          rq_AnomalyFlags = null_string (rw_anomaly_flags w), rq_DecidedBy = null_string (rw_decided_by w)\<rparr>)"

text \<open>The list scans into strings: a null column is an error.\<close>

definition scan_request :: "reenroll_row \<Rightarrow> ReEnrollRequest option" where
  "scan_request w =
     (case (rw_ip_address w, rw_fingerprint w, rw_anomaly_flags w, rw_decided_by w) of
        (Some ip, Some fp, Some flags, Some by) \<Rightarrow>
          Some \<lparr>rq_ID = rw_id w, rq_ServerID = rw_server_id w, rq_RequestedAt = rw_requested_at w, rq_IPAddress = ip,
            rq_Fingerprint = fp, rq_Status = rw_status w, rq_AnomalyFlags = flags, rq_DecidedBy = by\<rparr>
      | _ \<Rightarrow> None)"

definition ListPendingReEnroll :: "bool \<Rightarrow> reenroll_db \<Rightarrow> reenroll_error + ReEnrollRequest list" where
  "ListPendingReEnroll fault d =
     (if fault then Inl ErrDatabase
      else let rows = map scan_request (sort_key rw_requested_at (filter (\<lambda>w. rw_status w = ''pending'') (reenroll_requests d))) in
        if None \<in> set rows then Inl ErrDatabase else Inr (map the rows))"

text \<open>\<open>CreateReEnrollRequest\<close> and \<open>UpdateReEnrollStatus\<close> have no caller in the program.\<close>

definition CreateReEnrollRequest :: "bool \<Rightarrow> ReEnrollRequest \<Rightarrow> reenroll_db \<Rightarrow> (reenroll_error + unit) \<times> reenroll_db" where
  "CreateReEnrollRequest fault r d =
     (case (if fault then None else sql_insert rw_id (to_row r) (reenroll_requests d)) of
        None \<Rightarrow> (Inl ErrDatabase, d)
      | Some rows \<Rightarrow> (Inr (), d\<lparr>reenroll_requests := rows\<rparr>))"

definition UpdateReEnrollStatus :: "bool \<Rightarrow> string \<Rightarrow> string \<Rightarrow> string \<Rightarrow> reenroll_db \<Rightarrow> (reenroll_error + unit) \<times> reenroll_db" where
  "UpdateReEnrollStatus fault i status decidedBy d =
     (if fault then (Inl ErrDatabase, d)
      else (if sql_count (\<lambda>w. rw_id w = i) (reenroll_requests d) = 0 then Inl ErrRequestNotFound else Inr (),
            d\<lparr>reenroll_requests := sql_update (\<lambda>w. rw_id w = i) (\<lambda>w. w\<lparr>rw_status := status, rw_decided_by := Some decidedBy\<rparr>) (reenroll_requests d)\<rparr>))"

section \<open>Sessions\<close>

datatype reEnrollState = ReEnrollPending | ReEnrollPreparing | ReEnrollAwaitingProof | ReEnrollDelivering | ReEnrollFinished

record reEnrollApproval =
  ra_ephemeralPub :: string
  ra_encryptedKek :: string
  ra_challenge :: string
  ra_decidedBy :: string

record reEnrollSession =
  ss_serverID :: string
  ss_requestID :: string
  ss_stream :: nat
  ss_csr :: string
  ss_fingerprint :: string
  ss_challenge :: string
  ss_decidedBy :: string
  ss_proofUntil :: go_time
  ss_state :: reEnrollState
  ss_outcome :: "reenroll_error option"
  ss_approve :: "reEnrollApproval list"
  ss_result :: "reenroll_error option list"
  ss_done :: bool

text \<open>What happened: an administrator passed the step-up check; a decision was released for a session
  with its challenge; the approval was sent; a certificate was handed out, with the node key and the
  signature it was given for.\<close>

datatype reenroll_event =
    EStepUp string
  | EReleased nat string string
  | EApproved nat string
  | ECertificate nat string string string

record reenroll_hub =
  rh_objs :: "nat \<Rightarrow> reEnrollSession"
  rh_next :: nat
  rh_sessions :: "string \<rightharpoonup> nat"
  rh_db :: reenroll_db
  rh_codes :: TOTPUsedCodes
  rh_log :: "reenroll_event list"

definition new_reenroll :: "string \<Rightarrow> string \<Rightarrow> string \<Rightarrow> string \<Rightarrow> nat \<Rightarrow> reEnrollSession" where
  "new_reenroll server csr fingerprint request stream =
     \<lparr>ss_serverID = server, ss_requestID = request, ss_stream = stream, ss_csr = csr, ss_fingerprint = fingerprint,
      ss_challenge = [], ss_decidedBy = [], ss_proofUntil = 0, ss_state = ReEnrollPending, ss_outcome = None,
      ss_approve = [], ss_result = [], ss_done = False\<rparr>"

definition NewReEnroll :: "reenroll_db \<Rightarrow> reenroll_hub" where
  "NewReEnroll d = \<lparr>rh_objs = (\<lambda>_. new_reenroll [] [] [] [] 0), rh_next = 0, rh_sessions = Map.empty, rh_db = d,
     rh_codes = NewTOTPUsedCodes, rh_log = []\<rparr>"

definition set_reenroll :: "nat \<Rightarrow> reEnrollSession \<Rightarrow> reenroll_hub \<Rightarrow> reenroll_hub" where
  "set_reenroll p s h = h\<lparr>rh_objs := (rh_objs h)(p := s)\<rparr>"

definition log_event :: "reenroll_event \<Rightarrow> reenroll_hub \<Rightarrow> reenroll_hub" where
  "log_event e h = h\<lparr>rh_log := e # rh_log h\<rparr>"

text \<open>The result channel has one slot and is never waited for; closing \<open>done\<close> twice panics.\<close>

definition finishReEnrollLocked :: "nat \<Rightarrow> reenroll_error option \<Rightarrow> reenroll_hub \<Rightarrow> reenroll_hub option" where
  "finishReEnrollLocked p err h =
     (let s = rh_objs h p in
      if ss_state s = ReEnrollFinished then Some h
      else if ss_done s then None
      else Some ((set_reenroll p (s\<lparr>ss_state := ReEnrollFinished, ss_outcome := err,
             ss_result := (if ss_result s = [] then [err] else ss_result s), ss_done := True\<rparr>) h)
           \<lparr>rh_sessions := (if rh_sessions h (ss_serverID s) = Some p then (rh_sessions h)(ss_serverID s := None) else rh_sessions h)\<rparr>))"

definition registerReEnrollLocked :: "string \<Rightarrow> string \<Rightarrow> string \<Rightarrow> string \<Rightarrow> nat \<Rightarrow> reenroll_hub \<Rightarrow> (nat \<times> reenroll_hub) option" where
  "registerReEnrollLocked server csr fingerprint request stream h =
     (case (case rh_sessions h server of
              None \<Rightarrow> Some h
            | Some previous \<Rightarrow> finishReEnrollLocked previous (Some (ErrText ''re-enrollment request superseded'')) h) of
        None \<Rightarrow> None
      | Some h1 \<Rightarrow>
          Some (rh_next h1, h1\<lparr>rh_objs := (rh_objs h1)(rh_next h1 := new_reenroll server csr fingerprint request stream),
            rh_next := rh_next h1 + 1, rh_sessions := (rh_sessions h1)(server \<mapsto> rh_next h1)\<rparr>))"

definition with_db :: "(reenroll_db \<Rightarrow> 'a \<times> reenroll_db) \<Rightarrow> reenroll_hub \<Rightarrow> 'a \<times> reenroll_hub" where
  "with_db f h = (case f (rh_db h) of (r, d) \<Rightarrow> (r, h\<lparr>rh_db := d\<rparr>))"

definition clearReEnroll :: "string \<Rightarrow> nat \<Rightarrow> reenroll_hub \<Rightarrow> reenroll_hub option" where
  "clearReEnroll server p h =
     (if ss_serverID (rh_objs h p) = server then finishReEnrollLocked p (Some ErrNoPendingReEnroll) h else Some h)"

text \<open>A failure to store the status is logged only.\<close>

definition endReEnroll :: "db_faults \<Rightarrow> nat \<Rightarrow> reenroll_error option \<Rightarrow> string \<Rightarrow> reenroll_hub \<Rightarrow> (reenroll_error option \<times> reenroll_hub) option" where
  "endReEnroll fault p reason status h =
     (let s = rh_objs h p in
      if ss_state s = ReEnrollFinished then Some (ss_outcome s, h)
      else let h1 = (if status \<noteq> [] then snd (with_db (DecidePendingReEnroll fault (ss_serverID s) (ss_requestID s) status (ss_decidedBy s)) h) else h) in
        map_option (\<lambda>h2. (reason, h2)) (finishReEnrollLocked p reason h1))"

text \<open>\<open>sendReEnrollMessage\<close>: whether the message went to the transport, and the error. The last
  argument is the case its second \<open>select\<close> took.\<close>

datatype send_select = SendResult "reenroll_error option" | SendDone | SendContext | SendTimer

definition sendReEnrollMessage :: "bool \<Rightarrow> bool \<Rightarrow> go_time \<Rightarrow> go_time \<Rightarrow> send_select \<Rightarrow> bool \<times> reenroll_error option" where
  "sendReEnrollMessage ended ctx now until sel =
     (if ended then (False, Some ErrNoPendingReEnroll)
      else if ctx then (False, Some (ErrText ''context''))
      else if \<not> now < until then (False, Some (ErrText ''timed out sending re-enrollment response''))
      else (True, case sel of
                    SendResult err \<Rightarrow> err
                  | SendDone \<Rightarrow> Some ErrNoPendingReEnroll
                  | SendContext \<Rightarrow> Some (ErrText ''context'')
                  | SendTimer \<Rightarrow> Some (ErrText ''timed out sending re-enrollment response'')))"

section \<open>Requests\<close>

record anomalyFlags =
  af_FingerprintChanged :: bool
  af_OriginalOnline :: bool

definition computeAnomalyFlags :: "db_faults \<Rightarrow> string \<Rightarrow> string \<Rightarrow> reenroll_db \<Rightarrow> anomalyFlags" where
  "computeAnomalyFlags fault server fingerprint d =
     \<lparr>af_FingerprintChanged = (case GetNodeCrypto (fault 0) server d of Inl _ \<Rightarrow> False | Inr (_, _, fp) \<Rightarrow> fp \<noteq> fingerprint),
      af_OriginalOnline = (case read_node (fault 1) server d of Inl _ \<Rightarrow> False | Inr n \<Rightarrow> nd_status n = ''online'')\<rparr>"

definition flags_json :: "anomalyFlags \<Rightarrow> string" where
  "flags_json f = ''{\"fingerprint_changed\":'' @ (if af_FingerprintChanged f then ''true'' else ''false'') @
     '',\"original_online\":'' @ (if af_OriginalOnline f then ''true'' else ''false'') @ ''}''"

text \<open>Everything outside this component, fixed for a run, and what it answers to one section.\<close>

record re_env =
  re_verify :: "string \<Rightarrow> string \<Rightarrow> string \<Rightarrow> bool"
  re_base64 :: "string \<Rightarrow> string option"
  re_ca :: bool
  re_sign :: "string \<Rightarrow> string \<Rightarrow> string option"
  re_open :: "string \<Rightarrow> string option"
  re_seal :: "string \<Rightarrow> string \<Rightarrow> (string \<times> string) option"
  re_validate :: "string \<Rightarrow> string \<Rightarrow> go_time \<Rightarrow> bool"
  re_decrypt :: "string \<Rightarrow> string option"

record re_answers =
  rx_now :: go_time
  rx_ctx :: bool
  rx_fault :: "nat \<Rightarrow> db_faults"
  rx_sel :: send_select
  rx_random :: "string option"
  rx_choice :: nat
  rx_msg :: "reenroll_error + string option"

definition reEnrollProofTimeout :: duration where "reEnrollProofTimeout = 30 * second"

definition issueRegistrationCertificate :: "re_env \<Rightarrow> string \<Rightarrow> string \<Rightarrow> reenroll_error + string" where
  "issueRegistrationCertificate env server csr =
     (if csr = [] then Inl (ErrText ''registration CSR required'')
      else if \<not> re_ca env then Inl (ErrText ''CA not configured'')
      else case re_sign env csr server of None \<Rightarrow> Inl (ErrText ''sign client certificate'') | Some c \<Rightarrow> Inr c)"

definition verifyReEnrollProofLocked :: "re_env \<Rightarrow> bool \<Rightarrow> reEnrollSession \<Rightarrow> string \<Rightarrow> reenroll_db \<Rightarrow> reenroll_error + string \<times> string" where
  "verifyReEnrollProofLocked env fault s sig d =
     (case GetNodeCrypto fault (ss_serverID s) d of
        Inl _ \<Rightarrow> Inl (ErrText ''server not enrolled'')
      | Inr (pub, _, _) \<Rightarrow>
          if pub = [] then Inl (ErrText ''server not enrolled'')
          else case re_base64 env pub of
            None \<Rightarrow> Inl (ErrText ''invalid node public key'')
          | Some raw \<Rightarrow>
              if length raw \<noteq> 32 then Inl (ErrText ''invalid node public key'')
              else if \<not> re_verify env raw (ss_challenge s) sig then Inl (ErrText ''proof verification failed'')
              else case issueRegistrationCertificate env (ss_serverID s) (ss_csr s) of Inl e \<Rightarrow> Inl e | Inr c \<Rightarrow> Inr (raw, c))"

definition prepareReEnrollApproval :: "re_env \<Rightarrow> db_faults \<Rightarrow> string option \<Rightarrow> string \<Rightarrow> string \<Rightarrow> reenroll_db \<Rightarrow> reenroll_error + reEnrollApproval" where
  "prepareReEnrollApproval env fault random server decidedBy d =
     (case GetNodeCrypto (fault 0) server d of
        Inl e \<Rightarrow> Inl e
      | Inr (_, kek_hex, _) \<Rightarrow>
         (case re_open env kek_hex of
            None \<Rightarrow> Inl (ErrText ''decrypt KEK'')
          | Some kek \<Rightarrow>
             (case GetNodeTransportPub (fault 1) server d of
                Inl e \<Rightarrow> Inl e
              | Inr transport \<Rightarrow>
                  if transport = [] then Inl (ErrText ''node has no transport key; re-register required to enable encrypted re-enrollment'')
                  else case re_base64 env transport of
                    None \<Rightarrow> Inl (ErrText ''decode transport pubkey'')
                  | Some raw \<Rightarrow>
                     (case re_seal env raw kek of
                        None \<Rightarrow> Inl (ErrText ''seal KEK'')
                      | Some (eph, sealed) \<Rightarrow>
                         (case random of
                            None \<Rightarrow> Inl (ErrText ''generate challenge'')
                          | Some ch \<Rightarrow> Inr \<lparr>ra_ephemeralPub = eph, ra_encryptedKek = sealed, ra_challenge = ch, ra_decidedBy = decidedBy\<rparr>)))))"

section \<open>The handshake\<close>

text \<open>What a goroutine still has to do. Of the bootstrap stream: publish the request, wait for a
  decision, having taken the approval, send it, look for the session whose proof to wait for, wait for it,
  handle it, deliver the certificate, and end sessions one after the other. Of the administrator's
  request: look at the pending list, call \<open>ReleaseKEK\<close>, prepare the approval, commit it, wait for the
  outcome; look at the list and deny.\<close>

datatype re_work =
    WPublish ReEnrollRequest string string nat
  | WDecision nat
  | WTaken nat reEnrollApproval
  | WApproval nat go_time reEnrollApproval
  | WReceive nat string
  | WProofWait nat
  | WProof nat string
  | WDeliver nat nat go_time
  | WEnds "(nat \<times> reenroll_error option \<times> string) list"
  | WApprove string string string
  | WRelease string string string
  | WPrepare nat string string string
  | WCommit nat string string string "reenroll_error + reEnrollApproval"
  | WOutcome nat
  | WDeny string string string
  | WDenyCall string string string

definition ended_stream :: "nat \<Rightarrow> (nat \<times> reenroll_error option \<times> string) list" where
  "ended_stream p = [(p, Some (ErrText ''re-enrollment stream ended''), ''expired'')]"

text \<open>\<open>handleReEnrollRequest\<close> up to the lock: the checks and the row.\<close>

definition handleReEnrollRequest ::
    "db_faults \<Rightarrow> nat \<Rightarrow> string \<Rightarrow> string \<Rightarrow> go_time \<Rightarrow> (string \<times> string \<times> string) option \<Rightarrow> reenroll_hub \<Rightarrow> re_work list" where
  "handleReEnrollRequest fault stream peerIP uuid now req h =
     (case req of
        None \<Rightarrow> []
      | Some (server, csr, fingerprint) \<Rightarrow>
          if server = [] then []
          else case GetNodeCrypto (fault 0) server (rh_db h) of
            Inl _ \<Rightarrow> []
          | Inr (pub, _, _) \<Rightarrow>
              if pub = [] then []
              else [WPublish \<lparr>rq_ID = uuid, rq_ServerID = server, rq_RequestedAt = format_sqlite now, rq_IPAddress = peerIP,
                      rq_Fingerprint = fingerprint, rq_Status = ''pending'',
                      rq_AnomalyFlags = flags_json (computeAnomalyFlags (\<lambda>n. fault (n + 1)) server fingerprint (rh_db h)),
                      rq_DecidedBy = []\<rparr> csr fingerprint stream])"

definition publish :: "db_faults \<Rightarrow> ReEnrollRequest \<Rightarrow> string \<Rightarrow> string \<Rightarrow> nat \<Rightarrow> reenroll_hub \<Rightarrow> (re_work list \<times> reenroll_hub) option" where
  "publish fault r csr fingerprint stream h =
     (case with_db (CreateCurrentReEnrollRequest fault r) h of
        (Inl _, h1) \<Rightarrow> Some ([], h1)
      | (Inr _, h1) \<Rightarrow>
          map_option (\<lambda>(p, h2). ([WDecision p], h2)) (registerReEnrollLocked (rq_ServerID r) csr fingerprint (rq_ID r) stream h1))"

text \<open>The \<open>select\<close> of the waiting stream: an approval, the end of the session, the ten-minute timer, the
  end of the stream (choices 0 to 3). A case that is not ready is not taken.\<close>

definition await_decision :: "re_answers \<Rightarrow> nat \<Rightarrow> reenroll_hub \<Rightarrow> (re_work list \<times> reenroll_hub) option" where
  "await_decision ans p h =
     (let s = rh_objs h p in
      if rx_choice ans = 0 then
        (case ss_approve s of
           [] \<Rightarrow> Some ([WDecision p], h)
         | a # rest \<Rightarrow> Some ([WTaken p a], set_reenroll p (s\<lparr>ss_approve := rest\<rparr>) h))
      else if rx_choice ans = 1 then Some (if ss_done s then [] else [WDecision p], h)
      else if rx_choice ans = 2 then Some ([WEnds [(p, Some (ErrText ''timed out waiting for admin approval''), ''expired'')]], h)
      else Some ([WEnds [(p, Some (ErrText ''context''), ''expired'')]], h))"

definition taken :: "re_answers \<Rightarrow> nat \<Rightarrow> reEnrollApproval \<Rightarrow> reenroll_hub \<Rightarrow> re_work list" where
  "taken ans p a h =
     (let s = rh_objs h p in
      if rh_sessions h (ss_serverID s) = Some p \<and> ss_state s = ReEnrollAwaitingProof \<and> \<not> rx_ctx ans
      then [WApproval p (ss_proofUntil s) a] else [])"

definition send_approval :: "re_answers \<Rightarrow> nat \<Rightarrow> go_time \<Rightarrow> reEnrollApproval \<Rightarrow> reenroll_hub \<Rightarrow> re_work list \<times> reenroll_hub" where
  "send_approval ans p until a h =
     (let s = rh_objs h p in
      case sendReEnrollMessage (ss_done s) (rx_ctx ans) (rx_now ans) until (rx_sel ans) of (sent, err) \<Rightarrow>
        (case err of Some e \<Rightarrow> [WEnds [(p, Some e, ''expired'')]] | None \<Rightarrow> [WReceive (ss_stream s) (ss_serverID s)],
         if sent then log_event (EApproved p (ra_challenge a)) h else h))"

text \<open>\<open>receiveReEnrollProof\<close>: its first section, then its \<open>select\<close>: a message, the end of the session,
  the timer, the end of the stream.\<close>

definition receiveReEnrollProof :: "nat \<Rightarrow> string \<Rightarrow> reenroll_hub \<Rightarrow> re_work list" where
  "receiveReEnrollProof stream server h =
     (case rh_sessions h server of
        None \<Rightarrow> []
      | Some p \<Rightarrow> if ss_stream (rh_objs h p) \<noteq> stream \<or> ss_state (rh_objs h p) \<noteq> ReEnrollAwaitingProof then [] else [WProofWait p])"

definition await_proof :: "re_answers \<Rightarrow> nat \<Rightarrow> reenroll_hub \<Rightarrow> re_work list" where
  "await_proof ans p h =
     (if rx_choice ans = 0 then
        (case rx_msg ans of
           Inl _ \<Rightarrow> [WEnds (ended_stream p)]
         | Inr None \<Rightarrow> [WEnds ((p, Some (ErrText ''expected re-enrollment proof''), ''denied'') # ended_stream p)]
         | Inr (Some sig) \<Rightarrow> [WProof p sig])
      else if rx_choice ans = 1 then (if ss_done (rh_objs h p) then [WEnds (ended_stream p)] else [WProofWait p])
      else if rx_choice ans = 2 then [WEnds ((p, Some (ErrText ''timed out waiting for agent proof''), ''expired'') # ended_stream p)]
      else [WEnds (ended_stream p)])"

text \<open>\<open>handleReEnrollProof\<close> looks the session up again; \<open>p0\<close> is the one its caller ends when it returns.\<close>

definition handleReEnrollProof :: "re_env \<Rightarrow> re_answers \<Rightarrow> nat \<Rightarrow> string \<Rightarrow> reenroll_hub \<Rightarrow> (re_work list \<times> reenroll_hub) option" where
  "handleReEnrollProof env ans p0 sig h =
     (let server = ss_serverID (rh_objs h p0); stream = ss_stream (rh_objs h p0) in
      case rh_sessions h server of
        None \<Rightarrow> Some ([WEnds (ended_stream p0)], h)
      | Some p \<Rightarrow>
         (let s = rh_objs h p in
          if ss_stream s \<noteq> stream \<or> ss_state s \<noteq> ReEnrollAwaitingProof \<or> length (ss_challenge s) \<noteq> 32 \<or>
             \<not> rx_now ans < ss_proofUntil s \<or> rx_ctx ans
          then Some ([WEnds (ended_stream p0)], h)
          else (case verifyReEnrollProofLocked env (rx_fault ans 0 0) s sig (rh_db h) of
                  Inl e \<Rightarrow>
                    map_option (\<lambda>h2. ([WEnds (ended_stream p0)], h2))
                      (finishReEnrollLocked p (Some e)
                        (snd (with_db (DecidePendingReEnroll (rx_fault ans 2) server (ss_requestID s) ''denied'' (ss_decidedBy s)) h)))
                | Inr (pub, cert) \<Rightarrow>
                   (case with_db (DecidePendingReEnroll (rx_fault ans 1) server (ss_requestID s) ''approved'' (ss_decidedBy s)) h of
                      (Inl e, h1) \<Rightarrow>
                        map_option (\<lambda>h2. ([WEnds (ended_stream p0)], h2))
                          (finishReEnrollLocked p (Some e)
                            (snd (with_db (DecidePendingReEnroll (rx_fault ans 2) server (ss_requestID s) ''denied'' (ss_decidedBy s)) h1)))
                    | (Inr _, h1) \<Rightarrow>
                        Some ([WDeliver p p0 (ss_proofUntil s)],
                          log_event (ECertificate p pub sig cert)
                            ((set_reenroll p (s\<lparr>ss_state := ReEnrollDelivering\<rparr>) h1)\<lparr>rh_sessions := (rh_sessions h1)(server := None)\<rparr>))))))"

text \<open>The delivery ends the session with the outcome of the send and no status.\<close>

definition deliver_certificate :: "re_answers \<Rightarrow> nat \<Rightarrow> nat \<Rightarrow> go_time \<Rightarrow> reenroll_hub \<Rightarrow> re_work list" where
  "deliver_certificate ans p p0 until h =
     (case sendReEnrollMessage (ss_done (rh_objs h p)) (rx_ctx ans) (rx_now ans) until (rx_sel ans) of
        (_, err) \<Rightarrow> [WEnds ((p, err, []) # ended_stream p0)])"

fun run_ends :: "db_faults \<Rightarrow> (nat \<times> reenroll_error option \<times> string) list \<Rightarrow> reenroll_hub \<Rightarrow> (re_work list \<times> reenroll_hub) option" where
  "run_ends fault [] h = Some ([], h)"
| "run_ends fault ((p, reason, status) # rest) h =
     map_option (\<lambda>(_, h1). (if rest = [] then [] else [WEnds rest], h1)) (endReEnroll fault p reason status h)"

section \<open>Decisions\<close>

definition ReleaseKEK :: "string \<Rightarrow> string \<Rightarrow> string \<Rightarrow> reenroll_hub \<Rightarrow> (reenroll_error + re_work list) \<times> reenroll_hub" where
  "ReleaseKEK server request decidedBy h =
     (case rh_sessions h server of
        None \<Rightarrow> (Inl ErrNoPendingReEnroll, h)
      | Some p \<Rightarrow>
         (let s = rh_objs h p in
          if ss_requestID s \<noteq> request \<or> request = [] then (Inl ErrNoPendingReEnroll, h)
          else if ss_state s \<noteq> ReEnrollPending then (Inl ErrReEnrollDecisionInProgress, h)
          else (Inr [WPrepare p server request decidedBy], set_reenroll p (s\<lparr>ss_state := ReEnrollPreparing\<rparr>) h)))"

definition commit_release ::
    "re_answers \<Rightarrow> nat \<Rightarrow> string \<Rightarrow> string \<Rightarrow> string \<Rightarrow> reenroll_error + reEnrollApproval \<Rightarrow> reenroll_hub \<Rightarrow> (re_work list \<times> reenroll_hub) option" where
  "commit_release ans p server request decidedBy res h =
     (let s = rh_objs h p in
      if rh_sessions h server \<noteq> Some p \<or> ss_state s \<noteq> ReEnrollPreparing \<or> rx_ctx ans
      then Some ([WEnds [(p, Some ErrNoPendingReEnroll, ''expired'')]], h)
      else case res of
        Inl _ \<Rightarrow> Some ([], set_reenroll p (s\<lparr>ss_state := ReEnrollPending\<rparr>) h)
      | Inr a \<Rightarrow>
         (case with_db (DecidePendingReEnroll (rx_fault ans 0) server request ''pending'' decidedBy) h of
            (Inl e, h1) \<Rightarrow> map_option (\<lambda>h2. ([], h2)) (finishReEnrollLocked p (Some e) h1)
          | (Inr _, h1) \<Rightarrow>
              if ss_approve s \<noteq> [] then None
              else Some ([WOutcome p],
                log_event (EReleased p decidedBy (ra_challenge a))
                  (set_reenroll p (s\<lparr>ss_challenge := ra_challenge a, ss_decidedBy := decidedBy,
                     ss_proofUntil := time_add (rx_now ans) reEnrollProofTimeout, ss_state := ReEnrollAwaitingProof,
                     ss_approve := [a]\<rparr>) h1))))"

text \<open>The last \<open>select\<close> of \<open>ReleaseKEK\<close>: the result, the end, the timer, the end of the stream.\<close>

definition await_outcome :: "re_answers \<Rightarrow> nat \<Rightarrow> reenroll_hub \<Rightarrow> re_work list \<times> reenroll_hub" where
  "await_outcome ans p h =
     (let s = rh_objs h p in
      if rx_choice ans = 0 then
        (case ss_result s of [] \<Rightarrow> ([WOutcome p], h) | _ # rest \<Rightarrow> ([], set_reenroll p (s\<lparr>ss_result := rest\<rparr>) h))
      else if rx_choice ans = 1 then (if ss_done s then [] else [WOutcome p], h)
      else if rx_choice ans = 2 then ([WEnds [(p, Some (ErrText ''timed out waiting for agent proof''), ''expired'')]], h)
      else ([WEnds [(p, Some (ErrText ''context''), ''expired'')]], h))"

definition DenyReEnroll :: "db_faults \<Rightarrow> string \<Rightarrow> string \<Rightarrow> string \<Rightarrow> reenroll_hub \<Rightarrow> ((reenroll_error + unit) \<times> reenroll_hub) option" where
  "DenyReEnroll fault server request decidedBy h =
     (case rh_sessions h server of
        None \<Rightarrow> Some (Inl ErrNoPendingReEnroll, h)
      | Some p \<Rightarrow>
         (let s = rh_objs h p in
          if ss_requestID s \<noteq> request \<or> request = [] then Some (Inl ErrNoPendingReEnroll, h)
          else if ss_state s \<noteq> ReEnrollPending then Some (Inl ErrReEnrollDecisionInProgress, h)
          else (case with_db (DecidePendingReEnroll fault server request ''denied'' decidedBy) h of
                  (Inl e, h1) \<Rightarrow> Some (Inl e, h1)
                | (Inr _, h1) \<Rightarrow>
                    map_option (\<lambda>h2. (Inr (), h2)) (finishReEnrollLocked p (Some (ErrText ''re-enrollment denied by admin'')) h1))))"

section \<open>The administrator's requests\<close>

text \<open>\<open>verifyAdminStepUpTOTP\<close>: the administrator's secret as stored (\<open>None\<close>: the account could not be
  read), decrypted when it carries the prefix.\<close>

definition verifyAdminStepUpTOTP :: "re_env \<Rightarrow> go_time \<Rightarrow> string option option \<Rightarrow> string \<Rightarrow> string \<Rightarrow> TOTPUsedCodes \<Rightarrow> (nat + unit) \<times> TOTPUsedCodes" where
  "verifyAdminStepUpTOTP env now stored admin code codes =
     (case stored of
        None \<Rightarrow> (Inl 500, codes)
      | Some None \<Rightarrow> (Inl 401, codes)
      | Some (Some secret) \<Rightarrow>
         (case (if take 4 secret = ''enc:'' then re_decrypt env secret else Some secret) of
            None \<Rightarrow> (Inl 500, codes)
          | Some plain \<Rightarrow>
             (case ValidateTOTPWithReplayAt (re_validate env) admin plain code now (Some codes) of
                (ok, codes') \<Rightarrow> (if ok then Inr () else Inl 401, case codes' of None \<Rightarrow> codes | Some m \<Rightarrow> m))))"

text \<open>\<open>requireCurrentPendingReEnroll\<close>: the status it answers with, or that the caller may proceed.\<close>

definition requireCurrentPendingReEnroll :: "bool \<Rightarrow> string \<Rightarrow> string \<Rightarrow> reenroll_db \<Rightarrow> nat + unit" where
  "requireCurrentPendingReEnroll fault server request d =
     (case ListPendingReEnroll fault d of
        Inl _ \<Rightarrow> Inl 500
      | Inr rs \<Rightarrow>
         (case find (\<lambda>r. rq_ServerID r = server) rs of
            None \<Rightarrow> Inl 404
          | Some r \<Rightarrow> if rq_ID r = [] then Inl 404 else if request \<noteq> rq_ID r then Inl 409 else Inr ()))"

text \<open>\<open>handleReEnrollApprove\<close> up to the pending list.\<close>

definition handleReEnrollApprove ::
    "re_env \<Rightarrow> go_time \<Rightarrow> string \<Rightarrow> string \<Rightarrow> string \<Rightarrow> string \<Rightarrow> string option option \<Rightarrow> reenroll_hub \<Rightarrow> (nat + re_work list) \<times> reenroll_hub" where
  "handleReEnrollApprove env now server request code admin stored h =
     (if server = [] \<or> code = [] then (Inl 400, h)
      else case verifyAdminStepUpTOTP env now stored admin code (rh_codes h) of
        (Inl status, codes) \<Rightarrow> (Inl status, h\<lparr>rh_codes := codes\<rparr>)
      | (Inr _, codes) \<Rightarrow>
          (if request = [] then Inl 400 else Inr [WApprove server request admin], log_event (EStepUp admin) (h\<lparr>rh_codes := codes\<rparr>)))"

definition handleReEnrollDeny :: "string \<Rightarrow> string \<Rightarrow> string \<Rightarrow> nat + re_work list" where
  "handleReEnrollDeny server request admin =
     (if server = [] \<or> request = [] then Inl 400 else Inr [WDeny server request admin])"

section \<open>The system\<close>

datatype re_call =
    CRequest db_faults nat string string go_time "(string \<times> string \<times> string) option"
  | CApprove go_time string string string string "string option option"
  | CDeny string string string
  | CClear string nat
  | CNodes "node_row list"

text \<open>Other components write the servers table: its rows may change in any way.\<close>

fun run_recall :: "re_env \<Rightarrow> re_call \<Rightarrow> reenroll_hub \<Rightarrow> (re_work list \<times> reenroll_hub) option" where
  "run_recall env (CRequest fault stream ip uuid now req) h = Some (handleReEnrollRequest fault stream ip uuid now req h, h)"
| "run_recall env (CApprove now server request code admin stored) h =
     (case handleReEnrollApprove env now server request code admin stored h of (r, h1) \<Rightarrow>
        Some (case r of Inl _ \<Rightarrow> [] | Inr ws \<Rightarrow> ws, h1))"
| "run_recall env (CDeny server request admin) h =
     Some (case handleReEnrollDeny server request admin of Inl _ \<Rightarrow> [] | Inr ws \<Rightarrow> ws, h)"
| "run_recall env (CClear server p) h = map_option (\<lambda>h1. ([], h1)) (clearReEnroll server p h)"
| "run_recall env (CNodes ns) h = Some ([], h\<lparr>rh_db := (rh_db h)\<lparr>nodes := ns\<rparr>\<rparr>)"

fun run_rework :: "re_env \<Rightarrow> re_answers \<Rightarrow> re_work \<Rightarrow> reenroll_hub \<Rightarrow> (re_work list \<times> reenroll_hub) option" where
  "run_rework env ans (WPublish r csr fp stream) h = publish (rx_fault ans 0) r csr fp stream h"
| "run_rework env ans (WDecision p) h = await_decision ans p h"
| "run_rework env ans (WTaken p a) h = Some (taken ans p a h, h)"
| "run_rework env ans (WApproval p until a) h = Some (send_approval ans p until a h)"
| "run_rework env ans (WReceive stream server) h = Some (receiveReEnrollProof stream server h, h)"
| "run_rework env ans (WProofWait p) h = Some (await_proof ans p h, h)"
| "run_rework env ans (WProof p sig) h = handleReEnrollProof env ans p sig h"
| "run_rework env ans (WDeliver p p0 until) h = Some (deliver_certificate ans p p0 until h, h)"
| "run_rework env ans (WEnds es) h = run_ends (rx_fault ans 0) es h"
| "run_rework env ans (WApprove server request admin) h =
     Some (case requireCurrentPendingReEnroll (rx_fault ans 0 0) server request (rh_db h) of
             Inl _ \<Rightarrow> [] | Inr _ \<Rightarrow> [WRelease server request admin], h)"
| "run_rework env ans (WRelease server request admin) h =
     (case ReleaseKEK server request admin h of (r, h1) \<Rightarrow> Some (case r of Inl _ \<Rightarrow> [] | Inr ws \<Rightarrow> ws, h1))"
| "run_rework env ans (WPrepare p server request admin) h =
     Some ([WCommit p server request admin (prepareReEnrollApproval env (rx_fault ans 0) (rx_random ans) server admin (rh_db h))], h)"
| "run_rework env ans (WCommit p server request admin res) h = commit_release ans p server request admin res h"
| "run_rework env ans (WOutcome p) h = Some (await_outcome ans p h)"
| "run_rework env ans (WDeny server request admin) h =
     Some (case requireCurrentPendingReEnroll (rx_fault ans 0 0) server request (rh_db h) of
             Inl _ \<Rightarrow> [] | Inr _ \<Rightarrow> [WDenyCall server request admin], h)"
| "run_rework env ans (WDenyCall server request admin) h =
     map_option (\<lambda>(_, h1). ([], h1)) (DenyReEnroll (rx_fault ans 0) server request admin h)"

type_synonym re_sys = "reenroll_hub \<times> re_work list"

inductive re_step :: "re_env \<Rightarrow> re_sys \<Rightarrow> re_sys \<Rightarrow> bool" for env where
  call: "run_recall env c h = Some (ws, h') \<Longrightarrow> (\<And>server p. c = CClear server p \<Longrightarrow> p < rh_next h) \<Longrightarrow> re_step env (h, work) (h', ws @ work)"
| work: "w \<in> set work \<Longrightarrow> run_rework env ans w h = Some (ws, h') \<Longrightarrow> re_step env (h, work) (h', ws @ remove1 w work)"

inductive_cases re_stepE: "re_step env (h, work) \<sigma>"

text \<open>A run starts with any rows that respect the table's key and hold at most one pending request for
  a server.\<close>

definition one_pending :: "reenroll_row list \<Rightarrow> bool" where
  "one_pending rows \<longleftrightarrow> pk_ok rw_id rows \<and>
     (\<forall>w \<in> set rows. \<forall>w' \<in> set rows. rw_status w = ''pending'' \<and> rw_status w' = ''pending'' \<and> rw_server_id w = rw_server_id w' \<longrightarrow> w = w')"

definition re_reachable :: "re_env \<Rightarrow> re_sys \<Rightarrow> bool" where
  "re_reachable env \<sigma> \<longleftrightarrow> (\<exists>d. one_pending (reenroll_requests d) \<and> (re_step env)\<^sup>*\<^sup>* (NewReEnroll d, []) \<sigma>)"

end
