(* ===== verification/Reenroll_Props.thy ===== *)
theory Reenroll_Props
  imports Reenroll
begin

text \<open>
  The invariant of the re-enrolment handshake over every interleaving of bootstrap streams,
  administrators' decisions, timers and failures, and the properties that follow from it: no section
  panics, decisions are final, and a certificate needs an administrator's decision and the node's key.
\<close>

section \<open>The invariant\<close>

definition waiting :: "reEnrollSession \<Rightarrow> bool" where
  "waiting s \<longleftrightarrow> ss_state s \<in> {ReEnrollPending, ReEnrollPreparing, ReEnrollAwaitingProof}"

abbreviation rows_of :: "reenroll_hub \<Rightarrow> reenroll_row list" where
  "rows_of h \<equiv> reenroll_requests (rh_db h)"

definition heap_inv :: "reenroll_hub \<Rightarrow> bool" where
  "heap_inv h \<longleftrightarrow>
     (\<forall>p. ss_done (rh_objs h p) \<longleftrightarrow> ss_state (rh_objs h p) = ReEnrollFinished) \<and>
     (\<forall>p. ss_state (rh_objs h p) \<in> {ReEnrollPending, ReEnrollPreparing} \<longrightarrow> ss_approve (rh_objs h p) = []) \<and>
     (\<forall>sv p. rh_sessions h sv = Some p \<longrightarrow> p < rh_next h \<and> ss_serverID (rh_objs h p) = sv \<and> waiting (rh_objs h p))"

definition log_inv :: "reenroll_hub \<Rightarrow> bool" where
  "log_inv h \<longleftrightarrow>
     (\<forall>p. ss_state (rh_objs h p) \<in> {ReEnrollAwaitingProof, ReEnrollDelivering} \<longrightarrow>
        EReleased p (ss_decidedBy (rh_objs h p)) (ss_challenge (rh_objs h p)) \<in> set (rh_log h)) \<and>
     (\<forall>p. \<forall>a \<in> set (ss_approve (rh_objs h p)). \<exists>by. EReleased p by (ra_challenge a) \<in> set (rh_log h)) \<and>
     (\<forall>p by ch. EReleased p by ch \<in> set (rh_log h) \<longrightarrow> p < rh_next h \<and> EStepUp by \<in> set (rh_log h)) \<and>
     (\<forall>p ch. EApproved p ch \<in> set (rh_log h) \<longrightarrow> (\<exists>by. EReleased p by ch \<in> set (rh_log h)))"

definition row_inv :: "reenroll_hub \<Rightarrow> bool" where
  "row_inv h \<longleftrightarrow> one_pending (rows_of h) \<and> inj_on (\<lambda>p. ss_requestID (rh_objs h p)) {..<rh_next h} \<and>
     (\<forall>p < rh_next h. \<exists>w \<in> set (rows_of h). rw_id w = ss_requestID (rh_objs h p))"

fun is_certificate :: "nat \<Rightarrow> reenroll_event \<Rightarrow> bool" where
  "is_certificate p (ECertificate q _ _ _) \<longleftrightarrow> q = p"
| "is_certificate p _ \<longleftrightarrow> False"

definition earned :: "re_env \<Rightarrow> reenroll_hub \<Rightarrow> nat \<Rightarrow> string \<Rightarrow> string \<Rightarrow> bool" where
  "earned env h p pub sig \<longleftrightarrow> (\<exists>by ch. EReleased p by ch \<in> set (rh_log h) \<and> length ch = 32 \<and> re_verify env pub ch sig \<and>
     (\<exists>w \<in> set (rows_of h). rw_id w = ss_requestID (rh_objs h p) \<and> rw_status w = ''approved'' \<and> rw_decided_by w = Some by))"

definition cert_inv :: "re_env \<Rightarrow> reenroll_hub \<Rightarrow> bool" where
  "cert_inv env h \<longleftrightarrow>
     (\<forall>p pub sig c. ECertificate p pub sig c \<in> set (rh_log h) \<longrightarrow>
        p < rh_next h \<and> \<not> waiting (rh_objs h p) \<and> earned env h p pub sig) \<and>
     (\<forall>p. length (filter (is_certificate p) (rh_log h)) \<le> 1)"

definition re_inv :: "re_env \<Rightarrow> reenroll_hub \<Rightarrow> bool" where
  "re_inv env h \<longleftrightarrow> heap_inv h \<and> log_inv h \<and> row_inv h \<and> cert_inv env h"

lemma re_invD:
  assumes "re_inv env h"
  shows "heap_inv h" "log_inv h" "row_inv h" "cert_inv env h"
  using assms by (simp_all add: re_inv_def)

lemma heap_invD:
  assumes "heap_inv h"
  shows "ss_done (rh_objs h p) \<longleftrightarrow> ss_state (rh_objs h p) = ReEnrollFinished"
    and "ss_state (rh_objs h p) \<in> {ReEnrollPending, ReEnrollPreparing} \<Longrightarrow> ss_approve (rh_objs h p) = []"
    and "rh_sessions h sv = Some p \<Longrightarrow> p < rh_next h \<and> ss_serverID (rh_objs h p) = sv \<and> waiting (rh_objs h p)"
  using assms unfolding heap_inv_def by blast+

lemma log_invD:
  assumes "log_inv h"
  shows "ss_state (rh_objs h p) \<in> {ReEnrollAwaitingProof, ReEnrollDelivering} \<Longrightarrow>
      EReleased p (ss_decidedBy (rh_objs h p)) (ss_challenge (rh_objs h p)) \<in> set (rh_log h)"
    and "a \<in> set (ss_approve (rh_objs h p)) \<Longrightarrow> \<exists>by. EReleased p by (ra_challenge a) \<in> set (rh_log h)"
    and "EReleased p by ch \<in> set (rh_log h) \<Longrightarrow> p < rh_next h \<and> EStepUp by \<in> set (rh_log h)"
    and "EApproved p ch \<in> set (rh_log h) \<Longrightarrow> \<exists>by. EReleased p by ch \<in> set (rh_log h)"
  using assms unfolding log_inv_def by blast+

lemma is_certificate_iff: "is_certificate p e \<longleftrightarrow> (\<exists>pub sig c. e = ECertificate p pub sig c)"
  by (cases e) auto

section \<open>How rows and hubs evolve\<close>

definition rows_grow :: "reenroll_row list \<Rightarrow> reenroll_row list \<Rightarrow> bool" where
  "rows_grow rows rows' \<longleftrightarrow> (\<forall>w \<in> set rows. rw_status w \<noteq> ''pending'' \<longrightarrow> w \<in> set rows') \<and>
     (\<forall>w \<in> set rows. \<exists>w' \<in> set rows'. rw_id w' = rw_id w)"

lemma rows_grow_refl [simp]: "rows_grow rows rows"
  by (auto simp: rows_grow_def)

lemma rows_grow_trans: "rows_grow a b \<Longrightarrow> rows_grow b c \<Longrightarrow> rows_grow a c"
  unfolding rows_grow_def by metis

lemma rows_grow_append: "rows_grow a b \<Longrightarrow> rows_grow a (b @ c)"
  unfolding rows_grow_def by fastforce

definition re_evolves :: "re_env \<Rightarrow> reenroll_hub \<Rightarrow> reenroll_hub \<Rightarrow> bool" where
  "re_evolves env h h' \<longleftrightarrow> (re_inv env h \<longrightarrow> re_inv env h') \<and> set (rh_log h) \<subseteq> set (rh_log h') \<and> rows_grow (rows_of h) (rows_of h')"

lemma re_evolves_refl [simp]: "re_evolves env h h"
  by (simp add: re_evolves_def)

lemma re_evolves_trans: "re_evolves env a b \<Longrightarrow> re_evolves env b c \<Longrightarrow> re_evolves env a c"
  unfolding re_evolves_def using rows_grow_trans by blast

lemma re_evolves_inv: "re_evolves env h h' \<Longrightarrow> re_inv env h \<Longrightarrow> re_inv env h'"
  by (simp add: re_evolves_def)

lemma updated_member: "w \<in> set rows \<Longrightarrow> (if P w then f w else w) \<in> set (sql_update P f rows)"
  by (auto simp: sql_update_def)

lemma updated_from: "w' \<in> set (sql_update P f rows) \<Longrightarrow> \<exists>w \<in> set rows. w' = (if P w then f w else w)"
  by (auto simp: sql_update_def)

lemma grown_update:
  assumes "\<And>w. rw_id (f w) = rw_id w" "\<And>w. P w \<Longrightarrow> rw_status w = ''pending''"
  shows "rows_grow rows (sql_update P f rows)"
proof -
  have "w \<in> set (sql_update P f rows)" if "w \<in> set rows" "rw_status w \<noteq> ''pending''" for w
    using updated_member [OF that(1), of P f] assms(2) [of w] that(2) by (cases "P w") simp_all
  moreover have "\<exists>w' \<in> set (sql_update P f rows). rw_id w' = rw_id w" if "w \<in> set rows" for w
    using updated_member [OF that, of P f] assms(1) [of w] by (cases "P w") auto
  ultimately show ?thesis unfolding rows_grow_def by blast
qed

lemma one_pending_update:
  assumes "one_pending rows" "\<And>w. rw_id (f w) = rw_id w" "\<And>w. rw_server_id (f w) = rw_server_id w"
    and "\<And>w. P w \<Longrightarrow> rw_status w = ''pending''"
  shows "one_pending (sql_update P f rows)"
  unfolding one_pending_def
proof (intro conjI ballI impI)
  show "pk_ok rw_id (sql_update P f rows)" using assms(1,2) by (simp add: one_pending_def pk_ok_update)
  fix a b
  assume ab: "a \<in> set (sql_update P f rows)" "b \<in> set (sql_update P f rows)"
    "rw_status a = ''pending'' \<and> rw_status b = ''pending'' \<and> rw_server_id a = rw_server_id b"
  obtain w v where w: "w \<in> set rows" "a = (if P w then f w else w)" and v: "v \<in> set rows" "b = (if P v then f v else v)"
    using updated_from [OF ab(1)] updated_from [OF ab(2)] by blast
  have "rw_status w = ''pending''" using w(2) ab(3) assms(4) [of w] by (cases "P w") simp_all
  moreover have "rw_status v = ''pending''" using v(2) ab(3) assms(4) [of v] by (cases "P v") simp_all
  moreover have "rw_server_id w = rw_server_id v"
    using w(2) v(2) ab(3) assms(3) [of w] assms(3) [of v] by (cases "P w"; cases "P v") simp_all
  ultimately have "w = v" using assms(1) w(1) v(1) unfolding one_pending_def by blast
  then show "a = b" using w(2) v(2) by simp
qed

lemma request_rows_evolve:
  assumes "one_pending (rows_of h) \<Longrightarrow> one_pending rows" "rows_grow (rows_of h) rows"
  shows "re_evolves env h (h\<lparr>rh_db := (rh_db h)\<lparr>reenroll_requests := rows\<rparr>\<rparr>)"
proof -
  have "re_inv env (h\<lparr>rh_db := (rh_db h)\<lparr>reenroll_requests := rows\<rparr>\<rparr>)" if inv: "re_inv env h"
  proof -
    let ?h = "h\<lparr>rh_db := (rh_db h)\<lparr>reenroll_requests := rows\<rparr>\<rparr>"
    have keeps: "w \<in> set rows" if "w \<in> set (rows_of h)" "rw_status w = ''approved''" for w
      using assms(2) that unfolding rows_grow_def by auto
    have "earned env ?h p pub sig" if "earned env h p pub sig" for p pub sig
    proof -
      from that obtain w adm ch where "EReleased p adm ch \<in> set (rh_log h)" "length ch = 32" "re_verify env pub ch sig"
          "w \<in> set (rows_of h)" "rw_id w = ss_requestID (rh_objs h p)" "rw_status w = ''approved''" "rw_decided_by w = Some adm"
        unfolding earned_def by blast
      with keeps [of w] show ?thesis unfolding earned_def by auto
    qed
    then have "cert_inv env ?h" using re_invD(4) [OF inv] by (auto simp: cert_inv_def)
    moreover have "\<exists>w \<in> set rows. rw_id w = ss_requestID (rh_objs h p)" if p: "p < rh_next h" for p
    proof -
      obtain w where "w \<in> set (rows_of h)" "rw_id w = ss_requestID (rh_objs h p)"
        using re_invD(3) [OF inv] p unfolding row_inv_def by blast
      then show ?thesis using assms(2) unfolding rows_grow_def by metis
    qed
    then have "row_inv ?h" using re_invD(3) [OF inv] assms(1) by (simp add: row_inv_def)
    moreover have "heap_inv ?h" "log_inv ?h" using re_invD(1,2) [OF inv] by (simp_all add: heap_inv_def log_inv_def)
    ultimately show ?thesis by (simp add: re_inv_def)
  qed
  then show ?thesis using assms(2) by (simp add: re_evolves_def)
qed

lemma decide_evolves: "re_evolves env h (snd (with_db (DecidePendingReEnroll fault server request status by) h))"
proof -
  let ?P = "pending_request server request" and ?f = "\<lambda>w. w\<lparr>rw_status := status, rw_decided_by := Some by\<rparr>"
  let ?rows = "sql_update ?P ?f (rows_of h)"
  have "re_evolves env h (h\<lparr>rh_db := (rh_db h)\<lparr>reenroll_requests := ?rows\<rparr>\<rparr>)"
  proof (rule request_rows_evolve)
    show "one_pending ?rows" if "one_pending (rows_of h)"
      by (rule one_pending_update [OF that]) (simp_all add: pending_request_def)
    show "rows_grow (rows_of h) ?rows" by (rule grown_update) (simp_all add: pending_request_def)
  qed
  then show ?thesis by (simp add: with_db_def DecidePendingReEnroll_def Let_def)
qed

text \<open>The decision that is accepted is on its row.\<close>

lemma decided_row:
  assumes "DecidePendingReEnroll fault server request status by d = (Inr (), d')"
  shows "\<exists>w \<in> set (reenroll_requests d'). rw_id w = request \<and> rw_status w = status \<and> rw_decided_by w = Some by"
proof -
  let ?P = "pending_request server request" and ?f = "\<lambda>w. w\<lparr>rw_status := status, rw_decided_by := Some by\<rparr>"
  have d: "reenroll_requests d' = sql_update ?P ?f (reenroll_requests d)" "sql_count ?P (reenroll_requests d) = 1"
    using assms by (auto simp: DecidePendingReEnroll_def Let_def split: if_splits)
  then obtain w where w: "w \<in> set (reenroll_requests d)" "?P w"
    using sql_count_pos_iff [of ?P "reenroll_requests d"] by auto
  then have "?f w \<in> set (reenroll_requests d')" using updated_member [OF w(1), of ?P ?f] d(1) by simp
  then show ?thesis using w(2) by (intro bexI [of _ "?f w"]) (simp_all add: pending_request_def)
qed

section \<open>Changes of one session\<close>

lemma session_evolves:
  assumes "ss_serverID s = ss_serverID (rh_objs h p)" "ss_requestID s = ss_requestID (rh_objs h p)"
    and "ss_done s \<longleftrightarrow> ss_state s = ReEnrollFinished"
    and "ss_state s \<in> {ReEnrollPending, ReEnrollPreparing} \<Longrightarrow> ss_approve s = []"
    and "\<And>sv. rh_sessions h sv = Some p \<Longrightarrow> waiting s"
    and "ss_state s \<in> {ReEnrollAwaitingProof, ReEnrollDelivering} \<Longrightarrow> EReleased p (ss_decidedBy s) (ss_challenge s) \<in> set (rh_log h)"
    and "\<And>a. a \<in> set (ss_approve s) \<Longrightarrow> \<exists>by. EReleased p by (ra_challenge a) \<in> set (rh_log h)"
    and "waiting s \<Longrightarrow> waiting (rh_objs h p)"
  shows "re_evolves env h (set_reenroll p s h)"
proof -
  have "re_inv env (set_reenroll p s h)" if inv: "re_inv env h"
  proof -
    have heap: "heap_inv (set_reenroll p s h)"
      using re_invD(1) [OF inv] assms(1,3,4,5) unfolding heap_inv_def by (auto simp: set_reenroll_def)
    have log: "log_inv (set_reenroll p s h)"
      using re_invD(2) [OF inv] assms(6,7) unfolding log_inv_def by (auto simp: set_reenroll_def)
    have same: "ss_requestID (rh_objs (set_reenroll p s h) q) = ss_requestID (rh_objs h q)" for q
      using assms(2) by (simp add: set_reenroll_def)
    then have row: "row_inv (set_reenroll p s h)" using re_invD(3) [OF inv] by (simp add: row_inv_def set_reenroll_def)
    have "earned env (set_reenroll p s h) q pub sig = earned env h q pub sig" for q pub sig
      using same [of q] by (simp add: earned_def) (simp add: set_reenroll_def)
    moreover have "\<not> waiting (rh_objs (set_reenroll p s h) q)" if "\<not> waiting (rh_objs h q)" for q
      using that assms(8) by (auto simp: set_reenroll_def)
    moreover have "rh_log (set_reenroll p s h) = rh_log h" "rh_next (set_reenroll p s h) = rh_next h"
      by (simp_all add: set_reenroll_def)
    ultimately have "cert_inv env (set_reenroll p s h)"
      using re_invD(4) [OF inv] unfolding cert_inv_def by metis
    with heap log row show ?thesis by (simp add: re_inv_def)
  qed
  then show ?thesis by (simp add: re_evolves_def set_reenroll_def)
qed

lemma unregister_evolves: "re_evolves env h (h\<lparr>rh_sessions := (rh_sessions h)(sv := None)\<rparr>)"
  unfolding re_evolves_def re_inv_def heap_inv_def log_inv_def row_inv_def cert_inv_def earned_def by auto

lemma finish_evolves:
  assumes "re_inv env h"
  obtains h' where "finishReEnrollLocked p err h = Some h'" "re_evolves env h h'"
proof -
  let ?s = "rh_objs h p"
  let ?s' = "?s\<lparr>ss_state := ReEnrollFinished, ss_outcome := err, ss_result := (if ss_result ?s = [] then [err] else ss_result ?s), ss_done := True\<rparr>"
  let ?h1 = "if rh_sessions h (ss_serverID ?s) = Some p then h\<lparr>rh_sessions := (rh_sessions h)(ss_serverID ?s := None)\<rparr> else h"
  show ?thesis
  proof (cases "ss_state ?s = ReEnrollFinished")
    case True
    then show ?thesis using that by (simp add: finishReEnrollLocked_def)
  next
    case False
    have one: "re_evolves env h ?h1" by (simp add: unregister_evolves)
    have gone: "rh_sessions ?h1 sv \<noteq> Some p" for sv
      using heap_invD(3) [OF re_invD(1) [OF assms], of sv p] by auto
    have obj: "rh_objs ?h1 p = ?s" "rh_log ?h1 = rh_log h" by simp_all
    have rel: "\<exists>by. EReleased p by (ra_challenge a) \<in> set (rh_log h)" if "a \<in> set (ss_approve ?s)" for a
      using re_invD(2) [OF assms] that unfolding log_inv_def by blast
    have "re_evolves env ?h1 (set_reenroll p ?s' ?h1)"
      by (rule session_evolves) (use obj gone rel in \<open>auto simp: waiting_def\<close>)
    with one have "re_evolves env h (set_reenroll p ?s' ?h1)" by (rule re_evolves_trans)
    moreover have "finishReEnrollLocked p err h = Some (set_reenroll p ?s' ?h1)"
      using False heap_invD(1) [OF re_invD(1) [OF assms], of p] by (simp add: finishReEnrollLocked_def Let_def set_reenroll_def)
    ultimately show ?thesis using that by blast
  qed
qed

lemma finish_same:
  assumes "finishReEnrollLocked p err h = Some h'"
  shows "rh_db h' = rh_db h" "rh_next h' = rh_next h" "rh_log h' = rh_log h" "ss_requestID (rh_objs h' q) = ss_requestID (rh_objs h q)"
    "rh_sessions h (ss_serverID (rh_objs h p)) = Some p \<Longrightarrow> ss_state (rh_objs h p) \<noteq> ReEnrollFinished \<Longrightarrow> rh_sessions h' (ss_serverID (rh_objs h p)) = None"
  using assms by (auto simp: finishReEnrollLocked_def Let_def set_reenroll_def split: if_splits)

lemma end_evolves:
  assumes "re_inv env h"
  obtains r h' where "endReEnroll fault p reason status h = Some (r, h')" "re_evolves env h h'"
proof (cases "ss_state (rh_objs h p) = ReEnrollFinished")
  case True
  then show ?thesis using that by (simp add: endReEnroll_def)
next
  case False
  let ?s = "rh_objs h p"
  let ?h1 = "if status \<noteq> [] then snd (with_db (DecidePendingReEnroll fault (ss_serverID ?s) (ss_requestID ?s) status (ss_decidedBy ?s)) h) else h"
  have one: "re_evolves env h ?h1" by (simp add: decide_evolves)
  obtain h' where h': "finishReEnrollLocked p reason ?h1 = Some h'" "re_evolves env ?h1 h'"
    using finish_evolves [OF re_evolves_inv [OF one assms]] by blast
  then have "endReEnroll fault p reason status h = Some (reason, h')" using False by (simp add: endReEnroll_def Let_def)
  then show ?thesis using that re_evolves_trans [OF one h'(2)] by blast
qed

lemma earned_logged: "earned env h p pub sig \<Longrightarrow> earned env (log_event e h) p pub sig"
  unfolding earned_def log_event_def by auto

lemma log_evolves:
  assumes "e = EStepUp by \<or> (e = EApproved p ch \<and> (\<exists>b. EReleased p b ch \<in> set (rh_log h))) \<or>
    (e = EReleased p by ch \<and> p < rh_next h \<and> EStepUp by \<in> set (rh_log h))"
  shows "re_evolves env h (log_event e h)"
proof -
  have "re_inv env (log_event e h)" if inv: "re_inv env h"
  proof -
    note D = log_invD [OF re_invD(2) [OF inv]]
    have L: "set (rh_log (log_event e h)) = insert e (set (rh_log h))" "rh_objs (log_event e h) = rh_objs h" "rh_next (log_event e h) = rh_next h"
      by (simp_all add: log_event_def)
    have "log_inv (log_event e h)"
      unfolding log_inv_def L
    proof (intro conjI allI impI ballI)
      fix q b c
      assume "EReleased q b c \<in> insert e (set (rh_log h))"
      then show "q < rh_next h" "EStepUp b \<in> insert e (set (rh_log h))" using assms D(3) by auto
    next
      fix q c
      assume "EApproved q c \<in> insert e (set (rh_log h))"
      then show "\<exists>b. EReleased q b c \<in> insert e (set (rh_log h))" using assms D(4) by auto
    next
      fix q a
      assume "a \<in> set (ss_approve (rh_objs h q))"
      then show "\<exists>b. EReleased q b (ra_challenge a) \<in> insert e (set (rh_log h))" using D(2) by blast
    qed (use D(1) in blast)
    moreover have "heap_inv (log_event e h)" "row_inv (log_event e h)"
      using re_invD(1,3) [OF inv] by (simp_all add: heap_inv_def row_inv_def log_event_def)
    moreover have "cert_inv env (log_event e h)"
      unfolding cert_inv_def L
    proof (intro conjI allI impI)
      fix q pub sig c
      assume "ECertificate q pub sig c \<in> insert e (set (rh_log h))"
      then have "ECertificate q pub sig c \<in> set (rh_log h)" using assms by auto
      then show "q < rh_next h" "\<not> waiting (rh_objs h q)" "earned env (log_event e h) q pub sig"
        using re_invD(4) [OF inv] earned_logged unfolding cert_inv_def by blast+
    next
      show "length (filter (is_certificate q) (rh_log (log_event e h))) \<le> 1" for q
        using re_invD(4) [OF inv] assms by (auto simp: cert_inv_def log_event_def)
    qed
    ultimately show ?thesis by (simp add: re_inv_def)
  qed
  then show ?thesis by (auto simp: re_evolves_def log_event_def)
qed

section \<open>Sections\<close>

fun work_ok_in :: "reenroll_event set \<Rightarrow> re_work \<Rightarrow> bool" where
  "work_ok_in L (WTaken p a) \<longleftrightarrow> (\<exists>by. EReleased p by (ra_challenge a) \<in> L)"
| "work_ok_in L (WApproval p _ a) \<longleftrightarrow> (\<exists>by. EReleased p by (ra_challenge a) \<in> L)"
| "work_ok_in L (WApprove _ _ by) \<longleftrightarrow> EStepUp by \<in> L"
| "work_ok_in L (WRelease _ _ by) \<longleftrightarrow> EStepUp by \<in> L"
| "work_ok_in L (WPrepare _ _ _ by) \<longleftrightarrow> EStepUp by \<in> L"
| "work_ok_in L (WCommit _ _ _ by _) \<longleftrightarrow> EStepUp by \<in> L"
| "work_ok_in L _ \<longleftrightarrow> True"

lemma work_ok_mono: "work_ok_in L w \<Longrightarrow> L \<subseteq> L' \<Longrightarrow> work_ok_in L' w"
  by (cases w) auto

definition re_section_ok :: "re_env \<Rightarrow> reenroll_hub \<Rightarrow> (re_work list \<times> reenroll_hub) option \<Rightarrow> bool" where
  "re_section_ok env h out \<longleftrightarrow> (\<exists>ws h'. out = Some (ws, h') \<and> re_evolves env h h' \<and> (\<forall>w \<in> set ws. work_ok_in (set (rh_log h')) w))"

lemma re_section_okI: "re_evolves env h h' \<Longrightarrow> (\<And>w. w \<in> set ws \<Longrightarrow> work_ok_in (set (rh_log h')) w) \<Longrightarrow> re_section_ok env h (Some (ws, h'))"
  by (auto simp: re_section_ok_def)

lemma section_finish:
  assumes "re_inv env h0" "re_evolves env h0 h" "\<And>w L. w \<in> set ws \<Longrightarrow> work_ok_in L w"
  shows "re_section_ok env h0 (map_option (\<lambda>h2. (ws, h2)) (finishReEnrollLocked p err h))"
proof -
  obtain h' where "finishReEnrollLocked p err h = Some h'" "re_evolves env h h'"
    using finish_evolves [OF re_evolves_inv [OF assms(2,1)]] by blast
  then show ?thesis using re_evolves_trans [OF assms(2)] assms(3) by (simp add: re_section_ok_def)
qed

lemma run_ends_ok: "re_inv env h \<Longrightarrow> re_section_ok env h (run_ends fault es h)"
proof (cases es)
  case (Cons e rest)
  assume inv: "re_inv env h"
  obtain p reason status where e: "e = (p, reason, status)" by (cases e) auto
  obtain r h' where "endReEnroll fault p reason status h = Some (r, h')" "re_evolves env h h'" using end_evolves [OF inv] by blast
  then show ?thesis using Cons e by (auto simp: re_section_ok_def)
qed (simp add: re_section_ok_def)

lemma register_evolves:
  assumes "re_inv env h" "\<And>q. q < rh_next h \<Longrightarrow> ss_requestID (rh_objs h q) \<noteq> request" "\<exists>w \<in> set (rows_of h). rw_id w = request"
  obtains p h' where "registerReEnrollLocked server csr fp request stream h = Some (p, h')" "re_evolves env h h'"
proof -
  obtain h1 where h1: "(case rh_sessions h server of None \<Rightarrow> Some h
      | Some previous \<Rightarrow> finishReEnrollLocked previous (Some (ErrText ''re-enrollment request superseded'')) h) = Some h1"
      "re_evolves env h h1" "rh_db h1 = rh_db h" "rh_next h1 = rh_next h" "\<And>q. ss_requestID (rh_objs h1 q) = ss_requestID (rh_objs h q)"
  proof (cases "rh_sessions h server")
    case (Some q)
    obtain h' where "finishReEnrollLocked q (Some (ErrText ''re-enrollment request superseded'')) h = Some h'" "re_evolves env h h'"
      using finish_evolves [OF assms(1)] by blast
    then show ?thesis using that [of h'] Some finish_same by simp
  qed (use that [of h] in simp)
  let ?h = "h1\<lparr>rh_objs := (rh_objs h1)(rh_next h1 := new_reenroll server csr fp request stream),
      rh_next := rh_next h1 + 1, rh_sessions := (rh_sessions h1)(server \<mapsto> rh_next h1)\<rparr>"
  have inv: "re_inv env h1" by (rule re_evolves_inv [OF h1(2) assms(1)])
  have "heap_inv ?h" using re_invD(1) [OF inv] unfolding heap_inv_def by (auto simp: new_reenroll_def waiting_def less_Suc_eq)
  moreover have "log_inv ?h" using re_invD(2) [OF inv] unfolding log_inv_def by (auto simp: new_reenroll_def less_Suc_eq)
  moreover have "row_inv ?h"
  proof -
    have old: "inj_on (\<lambda>q. ss_requestID (rh_objs h1 q)) {..<rh_next h1}" "\<forall>q<rh_next h1. \<exists>w\<in>set (rows_of h1). rw_id w = ss_requestID (rh_objs h1 q)"
      "one_pending (rows_of h1)"
      using re_invD(3) [OF inv] by (simp_all add: row_inv_def)
    have "inj_on (\<lambda>q. ss_requestID (rh_objs ?h q)) {..<Suc (rh_next h1)}"
      using old(1) assms(2) h1(4,5) by (auto simp: inj_on_def lessThan_Suc new_reenroll_def)
    then show ?thesis using old assms(3) h1(3) by (auto simp: row_inv_def new_reenroll_def less_Suc_eq)
  qed
  moreover have "cert_inv env ?h"
    using re_invD(4) [OF inv] unfolding cert_inv_def earned_def by (fastforce simp: less_Suc_eq)
  ultimately have "re_evolves env h1 ?h" by (simp add: re_evolves_def re_inv_def)
  then have "re_evolves env h ?h" by (rule re_evolves_trans [OF h1(2)])
  moreover have "registerReEnrollLocked server csr fp request stream h = Some (rh_next h1, ?h)"
    using h1(1) by (simp add: registerReEnrollLocked_def)
  ultimately show ?thesis using that by blast
qed

lemma create_evolves:
  assumes "CreateCurrentReEnrollRequest fault r (rh_db h) = (Inr (), d)"
  shows "re_evolves env h (h\<lparr>rh_db := d\<rparr>)" "rq_ID r \<notin> rw_id ` set (rows_of h)" "\<exists>w \<in> set (reenroll_requests d). rw_id w = rq_ID r"
proof -
  let ?P = "\<lambda>w. rw_server_id w = rq_ServerID r \<and> rw_status w = ''pending''" and ?f = "\<lambda>w. w\<lparr>rw_status := ''expired''\<rparr>"
  let ?rows = "sql_update ?P ?f (rows_of h)"
  have d: "d = (rh_db h)\<lparr>reenroll_requests := ?rows @ [to_row r]\<rparr>" and new: "rw_id (to_row r) \<notin> set (map rw_id ?rows)"
    using assms by (auto simp: CreateCurrentReEnrollRequest_def sql_insert_def expire_pending_def split: if_splits option.splits)
  have keys: "map rw_id ?rows = map rw_id (rows_of h)" by (rule sql_update_keys) simp
  then show "rq_ID r \<notin> rw_id ` set (rows_of h)" using new by (simp add: to_row_def)
  show "\<exists>w \<in> set (reenroll_requests d). rw_id w = rq_ID r" using d by (auto simp: to_row_def)
  have grow: "rows_grow (rows_of h) ?rows" by (rule grown_update) simp_all
  then have "rows_grow (rows_of h) (?rows @ [to_row r])" by (rule rows_grow_append)
  moreover have "one_pending (?rows @ [to_row r])" if "one_pending (rows_of h)"
  proof -
    have ok: "one_pending ?rows" by (rule one_pending_update [OF that]) simp_all
    have none: "rw_status w \<noteq> ''pending''" if "w \<in> set ?rows" "rw_server_id w = rw_server_id (to_row r)" for w
      using that by (auto simp: set_sql_update to_row_def)
    have "pk_ok rw_id (?rows @ [to_row r])" using ok new by (simp add: one_pending_def pk_ok_def)
    moreover have "w = v" if "w \<in> set (?rows @ [to_row r])" "v \<in> set (?rows @ [to_row r])" "rw_status w = ''pending''"
        "rw_status v = ''pending''" "rw_server_id w = rw_server_id v" for w v
    proof -
      consider "w \<in> set ?rows" "v \<in> set ?rows" | "w \<in> set ?rows" "v = to_row r" | "w = to_row r" "v \<in> set ?rows" | "w = to_row r" "v = to_row r"
        using \<open>w \<in> set (?rows @ [to_row r])\<close> \<open>v \<in> set (?rows @ [to_row r])\<close> by fastforce
      then show ?thesis
        by cases (use ok none that(3-5) in \<open>auto simp: one_pending_def\<close>)
    qed
    ultimately show ?thesis unfolding one_pending_def by blast
  qed
  ultimately show "re_evolves env h (h\<lparr>rh_db := d\<rparr>)" using request_rows_evolve [of h "?rows @ [to_row r]" env] d by simp
qed

lemma publish_ok:
  assumes "re_inv env h"
  shows "re_section_ok env h (publish fault r csr fp stream h)"
proof (cases "CreateCurrentReEnrollRequest fault r (rh_db h)")
  case (Pair res d)
  show ?thesis
  proof (cases res)
    case (Inl e)
    then have "d = rh_db h" using Pair by (auto simp: CreateCurrentReEnrollRequest_def split: if_splits option.splits)
    then show ?thesis using Pair Inl by (simp add: publish_def with_db_def re_section_ok_def)
  next
    case (Inr u)
    let ?h = "h\<lparr>rh_db := d\<rparr>"
    have c: "CreateCurrentReEnrollRequest fault r (rh_db h) = (Inr (), d)" using Pair Inr by simp
    have fresh: "ss_requestID (rh_objs ?h q) \<noteq> rq_ID r" if "q < rh_next ?h" for q
      using re_invD(3) [OF assms] create_evolves(2) [OF c] that by (simp add: row_inv_def image_iff) metis
    obtain p h' where "registerReEnrollLocked (rq_ServerID r) csr fp (rq_ID r) stream ?h = Some (p, h')" "re_evolves env ?h h'"
      by (rule register_evolves [OF re_evolves_inv [OF create_evolves(1) [OF c] assms] fresh])
        (use create_evolves(3) [OF c] in auto)
    then show ?thesis using c re_evolves_trans [OF create_evolves(1) [OF c]]
      by (auto simp: publish_def with_db_def re_section_ok_def)
  qed
qed

lemma await_decision_ok:
  assumes "re_inv env h"
  shows "re_section_ok env h (await_decision ans p h)"
proof (cases "rx_choice ans = 0 \<and> ss_approve (rh_objs h p) \<noteq> []")
  case True
  then obtain a rest where a: "ss_approve (rh_objs h p) = a # rest" by (cases "ss_approve (rh_objs h p)") auto
  have rel: "\<exists>by. EReleased p by (ra_challenge b) \<in> set (rh_log h)" if "b \<in> set (a # rest)" for b
    using re_invD(2) [OF assms] that a unfolding log_inv_def by metis
  have "re_evolves env h (set_reenroll p ((rh_objs h p)\<lparr>ss_approve := rest\<rparr>) h)"
  proof (rule session_evolves)
    show "waiting ((rh_objs h p)\<lparr>ss_approve := rest\<rparr>)" if "rh_sessions h sv = Some p" for sv
      using heap_invD(3) [OF re_invD(1) [OF assms] that] by (simp add: waiting_def)
    show "EReleased p (ss_decidedBy ((rh_objs h p)\<lparr>ss_approve := rest\<rparr>)) (ss_challenge ((rh_objs h p)\<lparr>ss_approve := rest\<rparr>)) \<in> set (rh_log h)"
      if "ss_state ((rh_objs h p)\<lparr>ss_approve := rest\<rparr>) \<in> {ReEnrollAwaitingProof, ReEnrollDelivering}"
      using log_invD(1) [OF re_invD(2) [OF assms], of p] that by simp
  qed (use a rel heap_invD(1,2) [OF re_invD(1) [OF assms], of p] in \<open>auto simp: waiting_def\<close>)
  then show ?thesis using True a rel by (auto simp: await_decision_def Let_def re_section_ok_def set_reenroll_def)
next
  case False
  then show ?thesis by (auto simp: await_decision_def Let_def re_section_ok_def split: list.splits)
qed

lemma taken_ok: "work_ok_in (set (rh_log h)) (WTaken p a) \<Longrightarrow> re_section_ok env h (Some (taken ans p a h, h))"
  by (auto simp: re_section_ok_def taken_def Let_def)

lemma send_approval_ok:
  assumes "work_ok_in (set (rh_log h)) (WApproval p until a)"
  shows "re_section_ok env h (Some (send_approval ans p until a h))"
proof -
  have "re_evolves env h (log_event (EApproved p (ra_challenge a)) h)" using assms by (intro log_evolves [where p = p]) simp
  then show ?thesis by (auto simp: send_approval_def re_section_ok_def Let_def split: prod.splits option.splits)
qed

lemma certificate_evolves:
  assumes inv: "re_inv env h" and p: "rh_sessions h server = Some p" "ss_state (rh_objs h p) = ReEnrollAwaitingProof"
    and sig: "length (ss_challenge (rh_objs h p)) = 32" "re_verify env pub (ss_challenge (rh_objs h p)) sig"
    and row: "\<exists>w \<in> set (rows_of h). rw_id w = ss_requestID (rh_objs h p) \<and> rw_status w = ''approved'' \<and>
      rw_decided_by w = Some (ss_decidedBy (rh_objs h p))"
  shows "re_evolves env h (log_event (ECertificate p pub sig c)
    ((set_reenroll p ((rh_objs h p)\<lparr>ss_state := ReEnrollDelivering\<rparr>) h)\<lparr>rh_sessions := (rh_sessions h)(server := None)\<rparr>))"
    (is "re_evolves env h (log_event ?e ?h)")
proof -
  let ?s = "(rh_objs h p)\<lparr>ss_state := ReEnrollDelivering\<rparr>"
  let ?h1 = "h\<lparr>rh_sessions := (rh_sessions h)(server := None)\<rparr>"
  have heap: "heap_inv h" and log: "log_inv h" and cert: "cert_inv env h" by (rule re_invD [OF inv])+
  have rel: "EReleased p (ss_decidedBy (rh_objs h p)) (ss_challenge (rh_objs h p)) \<in> set (rh_log h)"
    using log p(2) unfolding log_inv_def by simp
  have gone: "rh_sessions ?h1 sv \<noteq> Some p" for sv using heap_invD(3) [OF heap, of sv p] heap_invD(3) [OF heap p(1)] by auto
  have buf: "\<exists>by. EReleased p by (ra_challenge b) \<in> set (rh_log h)" if "b \<in> set (ss_approve (rh_objs h p))" for b
    using log that unfolding log_inv_def by blast
  have "re_evolves env ?h1 (set_reenroll p ?s ?h1)"
    by (rule session_evolves) (use gone rel buf p heap_invD(1) [OF heap, of p] in \<open>auto simp: waiting_def\<close>)
  moreover have "set_reenroll p ?s ?h1 = ?h" by (simp add: set_reenroll_def)
  ultimately have ev: "re_evolves env h ?h" using re_evolves_trans [OF unregister_evolves] by metis
  have inv': "re_inv env ?h" by (rule re_evolves_inv [OF ev inv])
  have none: "filter (is_certificate p) (rh_log h) = []"
  proof (rule ccontr)
    assume "filter (is_certificate p) (rh_log h) \<noteq> []"
    then obtain e where "e \<in> set (rh_log h)" "is_certificate p e" by (auto simp: filter_empty_conv)
    then obtain a b d where "ECertificate p a b d \<in> set (rh_log h)" unfolding is_certificate_iff by blast
    then show False using cert p(2) unfolding cert_inv_def waiting_def by blast
  qed
  have same: "rh_log ?h = rh_log h" "rows_of ?h = rows_of h" "rh_next ?h = rh_next h" by (simp_all add: set_reenroll_def)
  have "earned env ?h p pub sig" using rel sig row unfolding earned_def by (auto simp: set_reenroll_def)
  moreover have "p < rh_next ?h" "\<not> waiting (rh_objs ?h p)"
    using heap_invD(3) [OF heap p(1)] by (simp_all add: set_reenroll_def waiting_def)
  moreover have "length (filter (is_certificate q) (?e # rh_log ?h)) \<le> 1" for q
    using none cert unfolding same(1) cert_inv_def by (cases "q = p") auto
  moreover have mono: "earned env (log_event ?e ?h) q a b" if "earned env ?h q a b" for q a b
    using that unfolding earned_def log_event_def by auto
  ultimately have "cert_inv env (log_event ?e ?h)"
    using re_invD(4) [OF inv'] unfolding cert_inv_def by (auto simp: log_event_def)
  moreover have "heap_inv (log_event ?e ?h)" "log_inv (log_event ?e ?h)" "row_inv (log_event ?e ?h)"
    using re_invD(1-3) [OF inv'] unfolding heap_inv_def log_inv_def row_inv_def by (auto simp: log_event_def)
  ultimately have "re_inv env (log_event ?e ?h)" by (simp add: re_inv_def)
  then show ?thesis using ev unfolding re_evolves_def by (auto simp: log_event_def same)
qed

lemma verified:
  assumes "verifyReEnrollProofLocked env fault s sig d = Inr (pub, c)"
  shows "re_verify env pub (ss_challenge s) sig"
  using assms by (auto simp: verifyReEnrollProofLocked_def split: sum.splits prod.splits option.splits if_splits)

lemma handle_proof_ok:
  assumes inv: "re_inv env h"
  shows "re_section_ok env h (handleReEnrollProof env ans p0 sig h)"
proof -
  let ?server = "ss_serverID (rh_objs h p0)"
  let ?stop = "Some ([WEnds (ended_stream p0)], h)"
  have stop: "re_section_ok env h ?stop" by (rule re_section_okI) simp_all
  show ?thesis
  proof (cases "rh_sessions h ?server")
    case None
    then show ?thesis using stop by (simp add: handleReEnrollProof_def Let_def)
  next
    case (Some p)
    let ?s = "rh_objs h p"
    let ?decide = "\<lambda>f status h. with_db (DecidePendingReEnroll f ?server (ss_requestID ?s) status (ss_decidedBy ?s)) h"
    show ?thesis
    proof (cases "ss_stream ?s \<noteq> ss_stream (rh_objs h p0) \<or> ss_state ?s \<noteq> ReEnrollAwaitingProof \<or> length (ss_challenge ?s) \<noteq> 32 \<or>
        \<not> rx_now ans < ss_proofUntil ?s \<or> rx_ctx ans")
      case True
      then show ?thesis using Some stop by (simp add: handleReEnrollProof_def Let_def)
    next
      case ready: False
      show ?thesis
      proof (cases "verifyReEnrollProofLocked env (rx_fault ans 0 0) ?s sig (rh_db h)")
        case (Inl e)
        have "re_section_ok env h (map_option (\<lambda>h2. ([WEnds (ended_stream p0)], h2))
            (finishReEnrollLocked p (Some e) (snd (?decide (rx_fault ans 2) ''denied'' h))))"
          by (rule section_finish [OF inv decide_evolves]) simp
        then show ?thesis using Some ready Inl by (simp add: handleReEnrollProof_def Let_def)
      next
        case (Inr pc)
        obtain pub c where pc: "pc = (pub, c)" by fastforce
        obtain res h1 where h1: "?decide (rx_fault ans 1) ''approved'' h = (res, h1)" by fastforce
        have ev1: "re_evolves env h h1" using decide_evolves [of env h "rx_fault ans 1" ?server "ss_requestID ?s" "''approved''" "ss_decidedBy ?s"] h1 by simp
        show ?thesis
        proof (cases res)
          case (Inl e)
          have "re_section_ok env h (map_option (\<lambda>h2. ([WEnds (ended_stream p0)], h2))
              (finishReEnrollLocked p (Some e) (snd (?decide (rx_fault ans 2) ''denied'' h1))))"
            by (rule section_finish [OF inv re_evolves_trans [OF ev1 decide_evolves]]) simp
          then show ?thesis using Some ready Inr pc h1 Inl by (simp add: handleReEnrollProof_def Let_def)
        next
          case (Inr u)
          obtain d where d: "DecidePendingReEnroll (rx_fault ans 1) ?server (ss_requestID ?s) ''approved'' (ss_decidedBy ?s) (rh_db h) = (Inr (), d)"
              "h1 = h\<lparr>rh_db := d\<rparr>"
            using h1 Inr by (auto simp: with_db_def split: prod.splits)
          have "re_evolves env h1 (log_event (ECertificate p pub sig c)
              ((set_reenroll p ((rh_objs h1 p)\<lparr>ss_state := ReEnrollDelivering\<rparr>) h1)\<lparr>rh_sessions := (rh_sessions h1)(?server := None)\<rparr>))"
            by (rule certificate_evolves [OF re_evolves_inv [OF ev1 inv]])
              (use Some ready verified \<open>verifyReEnrollProofLocked env (rx_fault ans 0 0) ?s sig (rh_db h) = Inr pc\<close> pc d(2) decided_row [OF d(1)] in auto)
          from re_evolves_trans [OF ev1 this] show ?thesis
            using Some ready \<open>verifyReEnrollProofLocked env (rx_fault ans 0 0) ?s sig (rh_db h) = Inr pc\<close> pc h1 Inr d(2)
            by (auto simp: handleReEnrollProof_def Let_def re_section_ok_def)
        qed
      qed
    qed
  qed
qed

lemma state_evolves:
  assumes inv: "re_inv env h" and p: "rh_sessions h server = Some p"
    and st: "ss_state (rh_objs h p) \<in> {ReEnrollPending, ReEnrollPreparing}" "st \<in> {ReEnrollPending, ReEnrollPreparing}"
  shows "re_evolves env h (set_reenroll p ((rh_objs h p)\<lparr>ss_state := st\<rparr>) h)"
  by (rule session_evolves)
    (use st heap_invD(1,2) [OF re_invD(1) [OF inv], of p] in \<open>auto simp: waiting_def\<close>)

lemma release_ok:
  assumes inv: "re_inv env h" and adm: "EStepUp by \<in> set (rh_log h)"
  shows "re_section_ok env h (run_rework env ans (WRelease server request by) h)"
proof (cases "rh_sessions h server")
  case (Some p)
  show ?thesis
  proof (cases "ss_requestID (rh_objs h p) \<noteq> request \<or> request = [] \<or> ss_state (rh_objs h p) \<noteq> ReEnrollPending")
    case False
    then have "re_evolves env h (set_reenroll p ((rh_objs h p)\<lparr>ss_state := ReEnrollPreparing\<rparr>) h)"
      using state_evolves [OF inv Some] by simp
    then show ?thesis using False Some adm by (simp add: ReleaseKEK_def Let_def re_section_ok_def set_reenroll_def)
  qed (use Some in \<open>auto simp: ReleaseKEK_def Let_def re_section_ok_def\<close>)
qed (simp add: ReleaseKEK_def re_section_ok_def)

lemma commit_ok:
  assumes inv: "re_inv env h" and adm: "EStepUp by \<in> set (rh_log h)"
  shows "re_section_ok env h (commit_release ans p server request by res h)"
proof (cases "rh_sessions h server \<noteq> Some p \<or> ss_state (rh_objs h p) \<noteq> ReEnrollPreparing \<or> rx_ctx ans")
  case True
  then show ?thesis by (auto simp: commit_release_def Let_def re_section_ok_def)
next
  case False
  let ?s = "rh_objs h p"
  have p: "rh_sessions h server = Some p" "ss_state ?s = ReEnrollPreparing" "p < rh_next h"
    using False heap_invD(3) [OF re_invD(1) [OF inv]] by auto
  have buf: "ss_approve ?s = []" using heap_invD(2) [OF re_invD(1) [OF inv]] p(2) by simp
  show ?thesis
  proof (cases res)
    case (Inl e)
    then show ?thesis using False state_evolves [OF inv p(1)] p(2) by (simp add: commit_release_def Let_def re_section_ok_def)
  next
    case (Inr a)
    obtain r h1 where h1: "with_db (DecidePendingReEnroll (rx_fault ans 0) server request ''pending'' by) h = (r, h1)" by fastforce
    have ev: "re_evolves env h h1" using decide_evolves [of env h "rx_fault ans 0" server request "''pending''" "by"] h1 by simp
    have same: "rh_objs h1 = rh_objs h" "rh_sessions h1 = rh_sessions h" "rh_log h1 = rh_log h" "rh_next h1 = rh_next h"
      using h1 by (auto simp: with_db_def split: prod.splits)
    show ?thesis
    proof (cases r)
      case (Inl e)
      have "re_section_ok env h (map_option (\<lambda>h2. ([], h2)) (finishReEnrollLocked p (Some e) h1))"
        by (rule section_finish [OF inv ev]) simp
      then show ?thesis using False Inr h1 Inl by (simp add: commit_release_def Let_def)
    next
      case ok: (Inr u)
      let ?e = "EReleased p by (ra_challenge a)"
      let ?s' = "?s\<lparr>ss_challenge := ra_challenge a, ss_decidedBy := by, ss_proofUntil := time_add (rx_now ans) reEnrollProofTimeout,
          ss_state := ReEnrollAwaitingProof, ss_approve := [a]\<rparr>"
      have one: "re_evolves env h1 (log_event ?e h1)" using log_evolves [of ?e "by" p "ra_challenge a" h1] p(3) adm same by simp
      have two: "re_evolves env (log_event ?e h1) (set_reenroll p ?s' (log_event ?e h1))"
        by (rule session_evolves)
          (use same p heap_invD(1) [OF re_invD(1) [OF inv], of p] in \<open>auto simp: log_event_def waiting_def\<close>)
      have "set_reenroll p ?s' (log_event ?e h1) = log_event ?e (set_reenroll p ?s' h1)"
        by (simp add: set_reenroll_def log_event_def)
      with re_evolves_trans [OF re_evolves_trans [OF ev one] two] have "re_evolves env h (log_event ?e (set_reenroll p ?s' h1))" by simp
      then show ?thesis using False Inr h1 ok buf by (simp add: commit_release_def Let_def re_section_ok_def)
    qed
  qed
qed

lemma outcome_ok:
  assumes inv: "re_inv env h"
  shows "re_section_ok env h (Some (await_outcome ans p h))"
proof -
  note heap = re_invD(1) [OF inv]
  have "re_evolves env h (set_reenroll p ((rh_objs h p)\<lparr>ss_result := rest\<rparr>) h)" for rest
  proof (rule session_evolves)
    show "waiting ((rh_objs h p)\<lparr>ss_result := rest\<rparr>)" if "rh_sessions h sv = Some p" for sv
      using heap_invD(3) [OF heap that] by (simp add: waiting_def)
  qed (use heap_invD(1,2) [OF heap, of p] log_invD(1) [OF re_invD(2) [OF inv], of p] log_invD(2) [OF re_invD(2) [OF inv]]
      in \<open>auto simp: waiting_def\<close>)
  then show ?thesis by (auto simp: await_outcome_def Let_def re_section_ok_def split: list.splits)
qed

lemma deny_ok:
  assumes inv: "re_inv env h"
  shows "re_section_ok env h (run_rework env ans (WDenyCall server request by) h)"
proof (cases "rh_sessions h server")
  case (Some p)
  let ?s = "rh_objs h p"
  obtain r h1 where h1: "with_db (DecidePendingReEnroll (rx_fault ans 0) server request ''denied'' by) h = (r, h1)" by fastforce
  have ev: "re_evolves env h h1" using decide_evolves [of env h "rx_fault ans 0" server request "''denied''" "by"] h1 by simp
  obtain h2 where "finishReEnrollLocked p (Some (ErrText ''re-enrollment denied by admin'')) h1 = Some h2" "re_evolves env h1 h2"
    using finish_evolves [OF re_evolves_inv [OF ev inv]] by blast
  then have fin: "finishReEnrollLocked p (Some (ErrText ''re-enrollment denied by admin'')) h1 = Some h2" "re_evolves env h h2"
    using re_evolves_trans [OF ev] by simp_all
  show ?thesis
  proof (cases "ss_requestID ?s \<noteq> request \<or> request = [] \<or> ss_state ?s \<noteq> ReEnrollPending")
    case True
    then show ?thesis using Some by (auto simp: DenyReEnroll_def Let_def re_section_ok_def)
  next
    case False
    then show ?thesis using Some h1 ev fin by (cases r) (simp_all add: DenyReEnroll_def Let_def re_section_ok_def)
  qed
qed (simp add: DenyReEnroll_def re_section_ok_def)

lemma run_rework_ok:
  assumes "re_inv env h" "work_ok_in (set (rh_log h)) w"
  shows "re_section_ok env h (run_rework env ans w h)"
proof (cases w)
  case (WTaken p a)
  then show ?thesis using assms(2) taken_ok by simp
next
  case (WApproval p until a)
  then show ?thesis using assms(2) send_approval_ok by simp
next
  case (WRelease server request adm)
  then show ?thesis using assms release_ok by simp
next
  case (WCommit p server request adm res)
  then show ?thesis using assms commit_ok by simp
next
  case (WDenyCall server request adm)
  then show ?thesis using assms deny_ok by blast
qed (use assms publish_ok await_decision_ok handle_proof_ok run_ends_ok outcome_ok in
    \<open>auto simp: re_section_ok_def receiveReEnrollProof_def await_proof_def deliver_certificate_def
       split: option.splits sum.splits prod.splits\<close>)

lemma run_recall_ok:
  assumes "re_inv env h"
  shows "re_section_ok env h (run_recall env c h)"
proof (cases c)
  case (CClear server p)
  obtain h' where "finishReEnrollLocked p (Some ErrNoPendingReEnroll) h = Some h'" "re_evolves env h h'"
    using finish_evolves [OF assms] by blast
  then show ?thesis using CClear by (simp add: clearReEnroll_def re_section_ok_def)
next
  case (CApprove now server request code admin stored)
  have codes: "re_evolves env h (h\<lparr>rh_codes := m\<rparr>)" for m
    unfolding re_evolves_def re_inv_def heap_inv_def log_inv_def row_inv_def cert_inv_def earned_def by simp
  have "re_evolves env h (log_event (EStepUp admin) (h\<lparr>rh_codes := m\<rparr>))" for m
    using re_evolves_trans [OF codes log_evolves] by blast
  then show ?thesis using CApprove codes
    by (auto simp: handleReEnrollApprove_def re_section_ok_def log_event_def split: prod.splits sum.splits)
next
  case (CNodes ns)
  have "re_evolves env h (h\<lparr>rh_db := (rh_db h)\<lparr>nodes := ns\<rparr>\<rparr>)"
    unfolding re_evolves_def re_inv_def heap_inv_def log_inv_def row_inv_def cert_inv_def earned_def by simp
  then show ?thesis using CNodes by (simp add: re_section_ok_def)
qed (auto simp: re_section_ok_def handleReEnrollRequest_def handleReEnrollDeny_def split: option.splits sum.splits)

section \<open>Every reachable state\<close>

definition sys_inv :: "re_env \<Rightarrow> re_sys \<Rightarrow> bool" where
  "sys_inv env \<sigma> \<longleftrightarrow> re_inv env (fst \<sigma>) \<and> (\<forall>w \<in> set (snd \<sigma>). work_ok_in (set (rh_log (fst \<sigma>))) w)"

lemma re_step_ok:
  assumes "re_step env \<sigma> \<sigma>'" "sys_inv env \<sigma>"
  shows "sys_inv env \<sigma>' \<and> re_evolves env (fst \<sigma>) (fst \<sigma>')"
proof -
  have ok: "sys_inv env (h', ws @ rest) \<and> re_evolves env h h'"
    if "sys_inv env (h, work)" "re_section_ok env h (Some (ws, h'))" "set rest \<subseteq> set work" for h h' work ws rest
    using that work_ok_mono unfolding sys_inv_def re_section_ok_def re_evolves_def by fastforce
  show ?thesis using assms(1)
  proof cases
    case (call c h ws h' work)
    then show ?thesis using ok [of h work ws h' work] run_recall_ok [of env h c] assms(2) by (simp add: sys_inv_def)
  next
    case (work w work ans h ws h')
    then show ?thesis using ok [of h work ws h' "remove1 w work"] run_rework_ok [of env h w ans] assms(2) set_remove1_subset [of w work]
      by (simp add: sys_inv_def)
  qed
qed

lemma re_steps_ok:
  assumes "(re_step env)\<^sup>*\<^sup>* \<sigma> \<sigma>'" "sys_inv env \<sigma>"
  shows "sys_inv env \<sigma>' \<and> re_evolves env (fst \<sigma>) (fst \<sigma>')"
  using assms
proof (induction rule: rtranclp_induct)
  case (step \<tau> \<tau>')
  then show ?case using re_step_ok [of env \<tau> \<tau>'] re_evolves_trans by blast
qed simp

lemma initial_inv: "one_pending (reenroll_requests d) \<Longrightarrow> sys_inv env (NewReEnroll d, [])"
  by (simp add: sys_inv_def re_inv_def heap_inv_def log_inv_def row_inv_def cert_inv_def NewReEnroll_def new_reenroll_def)

lemma re_reachable_inv: "re_reachable env \<sigma> \<Longrightarrow> sys_inv env \<sigma>"
  unfolding re_reachable_def using re_steps_ok initial_inv by blast

lemma filter_key: "w \<in> set rows \<Longrightarrow> pk_ok key rows \<Longrightarrow> filter (\<lambda>w'. key w' = key w) rows = [w]"
proof (induction rows)
  case (Cons x rows)
  then have "key x \<notin> key ` set rows" "pk_ok key rows" by (simp_all add: pk_ok_def)
  then show ?case using Cons.prems(1) Cons.IH by (auto simp: filter_empty_conv image_iff)
qed simp

lemma at_most_one_row:
  assumes "pk_ok key rows" "\<And>w v. w \<in> set rows \<Longrightarrow> v \<in> set rows \<Longrightarrow> P w \<Longrightarrow> P v \<Longrightarrow> w = v"
  shows "length (filter P rows) \<le> 1"
proof -
  have "distinct (filter P rows)" using assms(1) by (simp add: pk_ok_def distinct_map)
  then have "length (filter P rows) = card (set (filter P rows))" by (rule distinct_card [symmetric])
  also have "\<dots> \<le> 1" using assms(2) by (auto simp: card_le_Suc0_iff_eq)
  finally show ?thesis .
qed

lemma one_certificate:
  assumes inv: "re_inv env h" and c: "ECertificate p pub sig c \<in> set (rh_log h)"
  shows "length (filter (\<lambda>e. \<exists>q. is_certificate q e \<and> ss_requestID (rh_objs h q) = ss_requestID (rh_objs h p)) (rh_log h)) = 1"
proof -
  have known: "q < rh_next h" if "e \<in> set (rh_log h)" "is_certificate q e" for e q
    using re_invD(4) [OF inv] that unfolding cert_inv_def is_certificate_iff by blast
  have p: "p < rh_next h" by (rule known [OF c]) simp
  have inj: "q = p" if "q < rh_next h" "ss_requestID (rh_objs h q) = ss_requestID (rh_objs h p)" for q
    using re_invD(3) [OF inv] that p unfolding row_inv_def inj_on_def by blast
  have "filter (\<lambda>e. \<exists>q. is_certificate q e \<and> ss_requestID (rh_objs h q) = ss_requestID (rh_objs h p)) (rh_log h) =
      filter (is_certificate p) (rh_log h)"
    using known inj by (intro filter_cong) blast+
  moreover have "length (filter (is_certificate p) (rh_log h)) \<le> 1" using re_invD(4) [OF inv] by (simp add: cert_inv_def)
  moreover have "filter (is_certificate p) (rh_log h) \<noteq> []" using c unfolding filter_empty_conv by force
  ultimately show ?thesis by (simp add: le_Suc_eq)
qed


text \<open>C26. A decision on a re-enrolment request is final: once its row is no longer pending, no
  interleaving of later requests, approvals, denials, proofs, timers and failures changes it, and it stays
  the only row with its identifier.\<close>

theorem reenroll_decision_final:
  assumes "re_reachable env \<sigma>" "(re_step env)\<^sup>*\<^sup>* \<sigma> \<sigma>'"
    and "w \<in> set (reenroll_requests (rh_db (fst \<sigma>)))" "rw_status w \<noteq> ''pending''"
  shows "filter (\<lambda>w'. rw_id w' = rw_id w) (reenroll_requests (rh_db (fst \<sigma>'))) = [w]"
proof -
  have ok: "sys_inv env \<sigma>'" "re_evolves env (fst \<sigma>) (fst \<sigma>')" using re_steps_ok [OF assms(2) re_reachable_inv [OF assms(1)]] by blast+
  have "w \<in> set (rows_of (fst \<sigma>'))" using ok(2) assms(3,4) unfolding re_evolves_def rows_grow_def by blast
  moreover have "pk_ok rw_id (rows_of (fst \<sigma>'))" using ok(1) by (simp add: sys_inv_def re_inv_def row_inv_def one_pending_def)
  ultimately show ?thesis by (rule filter_key)
qed

text \<open>No interleaving of the re-enrolment handshake makes a section panic or block with the lock
  held: every call and every piece of work in flight takes its next section, whatever the streams, the
  clock, the database and the cryptography answer; and a server never has two pending requests.\<close>

theorem reenroll_no_panic:
  assumes "re_reachable env (h, work)"
  shows "run_recall env c h \<noteq> None \<and> (\<forall>w ans. w \<in> set work \<longrightarrow> run_rework env ans w h \<noteq> None) \<and>
    length (filter (\<lambda>w. rw_server_id w = server \<and> rw_status w = ''pending'') (reenroll_requests (rh_db h))) \<le> 1"
proof (intro conjI allI impI)
  have inv: "re_inv env h" and ok: "\<forall>w \<in> set work. work_ok_in (set (rh_log h)) w"
    using re_reachable_inv [OF assms] by (simp_all add: sys_inv_def)
  show "run_recall env c h \<noteq> None" using run_recall_ok [OF inv, of c] by (auto simp: re_section_ok_def)
  show "run_rework env ans w h \<noteq> None" if "w \<in> set work" for w ans
    using run_rework_ok [OF inv, of w ans] ok that by (auto simp: re_section_ok_def)
  show "length (filter (\<lambda>w. rw_server_id w = server \<and> rw_status w = ''pending'') (rows_of h)) \<le> 1"
    using re_invD(3) [OF inv] by (intro at_most_one_row) (auto simp: row_inv_def one_pending_def)
qed

section \<open>A run\<close>

text \<open>A node asks, an administrator approves, the node proves its key. An old request of the node was
  denied before.\<close>

definition demo_re_env :: re_env where
  "demo_re_env = \<lparr>re_verify = (\<lambda>pub ch sig. sig = ch), re_base64 = (\<lambda>s. Some (replicate 32 (CHR ''k''))), re_ca = True,
     re_sign = (\<lambda>csr server. Some (''cert:'' @ server)), re_open = Some, re_seal = (\<lambda>pub kek. Some (''eph'', kek)),
     re_validate = (\<lambda>code secret now. code = secret), re_decrypt = Some\<rparr>"

definition demo_challenge :: string where "demo_challenge = replicate 32 (CHR ''c'')"

definition demo_old :: reenroll_row where
  "demo_old = \<lparr>rw_id = ''r0'', rw_server_id = ''n'', rw_requested_at = 0, rw_ip_address = Some [], rw_fingerprint = Some [],
     rw_status = ''denied'', rw_anomaly_flags = Some [], rw_decided_by = Some ''bob''\<rparr>"

definition demo_re_db :: reenroll_db where
  "demo_re_db = \<lparr>reenroll_requests = [demo_old],
     nodes = [\<lparr>nd_id = ''n'', nd_pubkey = Some ''pk'', nd_kek_enc = Some ''kek'', nd_fingerprint = Some ''f'', nd_transport = Some ''t'', nd_status = ''offline''\<rparr>]\<rparr>"

definition demo_re_answers :: re_answers where
  "demo_re_answers = \<lparr>rx_now = 0, rx_ctx = False, rx_fault = (\<lambda>_ _. False), rx_sel = SendResult None, rx_random = Some demo_challenge,
     rx_choice = 0, rx_msg = Inr (Some demo_challenge)\<rparr>"

text \<open>A move is a call, or the next section of the work at a position.\<close>

fun re_move :: "re_call + nat \<Rightarrow> re_sys \<Rightarrow> re_sys option" where
  "re_move (Inl c) (h, work) = map_option (\<lambda>(ws, h'). (h', ws @ work)) (run_recall demo_re_env c h)"
| "re_move (Inr i) (h, work) =
     (if i < length work then map_option (\<lambda>(ws, h'). (h', ws @ remove1 (work ! i) work)) (run_rework demo_re_env demo_re_answers (work ! i) h)
      else None)"

fun re_moves :: "(re_call + nat) list \<Rightarrow> re_sys \<Rightarrow> re_sys option" where
  "re_moves [] \<sigma> = Some \<sigma>"
| "re_moves (m # ms) \<sigma> = (case re_move m \<sigma> of None \<Rightarrow> None | Some \<sigma>' \<Rightarrow> re_moves ms \<sigma>')"

fun clears :: "re_call + nat \<Rightarrow> bool" where
  "clears (Inl (CClear _ _)) = True"
| "clears _ = False"

lemma re_move_step: "re_move m \<sigma> = Some \<sigma>' \<Longrightarrow> \<not> clears m \<Longrightarrow> re_step demo_re_env \<sigma> \<sigma>'"
proof (induction m \<sigma> rule: re_move.induct)
  case (1 c h work)
  then obtain ws h' where "run_recall demo_re_env c h = Some (ws, h')" "\<sigma>' = (h', ws @ work)" by auto
  then show ?case using 1(2) by (auto intro!: re_step.call)
next
  case (2 i h work)
  then obtain ws h' where "i < length work" "run_rework demo_re_env demo_re_answers (work ! i) h = Some (ws, h')"
      "\<sigma>' = (h', ws @ remove1 (work ! i) work)"
    by (auto split: if_splits)
  then show ?case by (auto intro!: re_step.work [where ans = demo_re_answers])
qed

lemma re_moves_steps: "re_moves ms \<sigma> = Some \<sigma>' \<Longrightarrow> list_all (\<lambda>m. \<not> clears m) ms \<Longrightarrow> (re_step demo_re_env)\<^sup>*\<^sup>* \<sigma> \<sigma>'"
proof (induction ms arbitrary: \<sigma>)
  case (Cons m ms)
  then obtain \<tau> where t: "re_move m \<sigma> = Some \<tau>" "re_moves ms \<tau> = Some \<sigma>'" by (auto split: option.splits)
  have "re_step demo_re_env \<sigma> \<tau>" using re_move_step [OF t(1)] Cons.prems(2) by simp
  moreover have "(re_step demo_re_env)\<^sup>*\<^sup>* \<tau> \<sigma>'" using Cons.IH [OF t(2)] Cons.prems(2) by simp
  ultimately show ?case by (rule converse_rtranclp_into_rtranclp)
qed simp

definition demo_re_moves :: "(re_call + nat) list" where
  "demo_re_moves = [Inl (CRequest (\<lambda>_. False) 7 ''ip'' ''r1'' 0 (Some (''n'', ''csr'', ''g''))), Inr 0,
     Inl (CApprove 0 ''n'' ''r1'' ''123456'' ''alice'' (Some (Some ''123456''))), Inr 0, Inr 0, Inr 0, Inr 0,
     Inr 1, Inr 0, Inr 0, Inr 0, Inr 0, Inr 0]"

lemma demo_re_run:
  "map_option (\<lambda>(h, work). (rh_log h, map rw_status (reenroll_requests (rh_db h)))) (re_moves demo_re_moves (NewReEnroll demo_re_db, [])) =
   Some ([ECertificate 0 (replicate 32 (CHR ''k'')) demo_challenge ''cert:n'', EApproved 0 demo_challenge,
     EReleased 0 ''alice'' demo_challenge, EStepUp ''alice''], [''denied'', ''approved''])"
  by code_simp

lemma demo_re_reached:
  obtains h work where "re_reachable demo_re_env (h, work)" "(re_step demo_re_env)\<^sup>*\<^sup>* (NewReEnroll demo_re_db, []) (h, work)"
    "rh_log h = [ECertificate 0 (replicate 32 (CHR ''k'')) demo_challenge ''cert:n'', EApproved 0 demo_challenge,
     EReleased 0 ''alice'' demo_challenge, EStepUp ''alice'']"
proof -
  obtain h work where run: "re_moves demo_re_moves (NewReEnroll demo_re_db, []) = Some (h, work)"
      and log: "rh_log h = [ECertificate 0 (replicate 32 (CHR ''k'')) demo_challenge ''cert:n'', EApproved 0 demo_challenge,
        EReleased 0 ''alice'' demo_challenge, EStepUp ''alice'']"
    using demo_re_run by (cases "re_moves demo_re_moves (NewReEnroll demo_re_db, [])") auto
  have steps: "(re_step demo_re_env)\<^sup>*\<^sup>* (NewReEnroll demo_re_db, []) (h, work)"
    by (rule re_moves_steps [OF run]) (simp add: demo_re_moves_def)
  moreover have "one_pending (reenroll_requests demo_re_db)" by (simp add: one_pending_def pk_ok_def demo_re_db_def)
  ultimately show ?thesis using that log unfolding re_reachable_def by blast
qed


theorem reenroll_decision_final_witness:
  "\<exists>h work. (re_step demo_re_env)\<^sup>*\<^sup>* (NewReEnroll demo_re_db, []) (h, work) \<and> length (rh_log h) = 4 \<and>
     filter (\<lambda>w. rw_id w = ''r0'') (reenroll_requests (rh_db h)) = [demo_old]"
proof -
  obtain h work where h: "(re_step demo_re_env)\<^sup>*\<^sup>* (NewReEnroll demo_re_db, []) (h, work)" "length (rh_log h) = 4"
    by (rule demo_re_reached) simp
  have "re_reachable demo_re_env (NewReEnroll demo_re_db, [])"
    unfolding re_reachable_def by (intro exI [of _ demo_re_db]) (simp add: one_pending_def pk_ok_def demo_re_db_def)
  from reenroll_decision_final [OF this h(1), of demo_old] h show ?thesis
    by (auto simp: NewReEnroll_def demo_re_db_def demo_old_def)
qed

end
