(* ===== verification/Spec2Isabelle.thy ===== *)
theory Spec2Isabelle
  imports Veyport_Prelude Lockout Account Session Store_Schema Audit_Log
    Session_Store Account_Store Conn_Manager Budget Exec_Journal Exec_Manager Exec_Invariants
    Exec_Props Exec_Run Policy_Model Security_Store Governance Governance_Props Audit_Record
    Authorization Transition Authorization_Props Service_Props Execution_Store Execution_Props Terminal_Props Terminal_Output
    Execution_Session_Props Execution_Wire Auth_Caches Reenroll_Props
begin

text \<open>
  Verification of veyport, a hub-and-spoke system for remote operations: a hub with an SQLite store,
  an HTTP interface, an SSH gateway and a gRPC service, and agents on the managed nodes that hold
  one outgoing stream to the hub each. This development models the parts that decide who may do
  what, how long, how often and at most how many times; the theorems below are about functions
  translated from the Go source, one per function or critical section, with every early return and
  error path a branch of the model.

  \<^bold>\<open>The program's parts and their theories.\<close>

  \<^item> \<open>Veyport_Prelude\<close>: what the source uses of Go and SQLite: 64-bit arithmetic, times and
    durations, \<open>TrimSpace\<close>, \<open>Atoi\<close>, \<open>Fields\<close>, UTF-8 validity, guarded updates on tables; runs
    of operations, and the locale \<open>one_shot\<close>: an effect that happens at most once. It is
    interpreted on session ends and refresh rotations (\<open>Session_Store\<close>), lock reports
    (\<open>Account_Store\<close>), journal claims (\<open>Exec_Journal\<close>, twice: across restarts and within a
    boot), step-up proofs (\<open>Governance_Props\<close>), execution dispatches and receipts (\<open>Execution_Props\<close>).

  \<^item> \<open>Lockout\<close> (\<open>hub/internal/lockout\<close>): the failed-sign-in policy, its loading and validation, the
    counter and the lock. \<open>Account\<close> (\<open>hub/internal/account\<close>): dormancy and account status.
    \<open>Session\<close> (\<open>hub/internal/session\<close>): idle and absolute limits of sessions.

  \<^item> \<open>Store_Schema\<close> (\<open>hub/internal/store\<close>, migrations): rows, triggers, immediate transactions with
    a fault at any statement, configuration, the guards on live sessions and protected
    principals. \<open>Session_Store\<close>: the session table and refresh rotation. \<open>Account_Store\<close>: sign-in
    outcomes, account lifecycle and the audited administrator operations under
    \<open>guardAccountManagementActor\<close>. \<open>Audit_Log\<close>: the hash-chained audit table.

  \<^item> \<open>Conn_Manager\<close> (\<open>hub/internal/connmgr\<close>): the registry of agent connections, its generations,
    sends, activities and maintenance reservations.

  \<^item> \<open>Budget\<close> (\<open>agent/internal/sessionlimit\<close>): the agent's session budget; its contract is the
    locale \<open>slot_budget\<close>. \<open>Exec_Journal\<close> (\<open>agent/internal/execution/journal.go\<close>): the durable
    journal of executions. \<open>Exec_Manager\<close> (\<open>manager.go\<close>, \<open>script.go\<close>): preparing, attaching,
    starting, cancelling and closing executions; \<open>Exec_Invariants\<close> proves the invariants of its
    interleavings from the contract of the budget and the one-shot claim of the journal, and
    \<open>Exec_Props\<close> states the properties. \<open>Exec_Run\<close>: input, output, script copy and result of a run.

  \<^item> \<open>Policy_Model\<close> (\<open>hub/internal/model/security.go\<close>, \<open>store/security.go\<close>, \<open>audit_controls.go\<close>): the
    audit policy, its stored versions with their digests, the execution-policy validator, audit
    settings. \<open>Security_Store\<close> (\<open>store/security.go\<close>): step-up proofs, security changes, votes, the
    quorum and the transition from approved to applied, with what each kind of payload does.
    \<open>Governance\<close> gives every one of these operations as a call, interleaves them with the account
    and session operations (\<open>gov_step\<close>) and proves the invariant; \<open>Governance_Props\<close> states the
    two-person rule and the rest, and runs a whole bootstrap. \<open>one_shot\<close> is interpreted on proofs.


  \<^item> \<open>Audit_Record\<close> (\<open>hub/internal/auditrecord\<close>): the strict JSON decoder over the token reader of
    \<open>encoding/json\<close>, the protected records and their validation. \<open>Authorization\<close>
    (\<open>hub/internal/authorization/authorization.go\<close>): capabilities, the execution policy and the
    interactive guard, typed changes, requests, approvals, quorum. \<open>Transition\<close>
    (\<open>transition.go\<close>, \<open>policy_continuity.go\<close>): the enrollment marker, the external anchor, evidence,
    applying and reconciling a change, start-up, local continuity; the evidence service, the marker
    file's operating-system calls and the JSON texts are parameters. \<open>Authorization_Props\<close> proves
    that a policy binds from the moment its transition begins, that a rolled-back database is
    frozen, and where capabilities come from; \<open>Service_Props\<close> that the service makes only governed
    steps, in the locale \<open>lasting\<close> (what the store never loses), interpreted on the change that was
    read. Calls of one operation are numbered, and the environment says for each number what fails.

  \<^item> \<open>Execution_Store\<close> (\<open>store/executions.go\<close>, \<open>protected_executions.go\<close>): the hub's executions, their
    event log, dispatches, receipts and the queue of evidence, each call a transaction with faults.
    \<open>Execution_Props\<close>: legal histories, single use of dispatches and receipts, final outcomes, evidence
    accounted for.

  \<^item> \<open>Terminal_Sessions\<close> (\<open>grpcserver/terminalsessions.go\<close>, \<open>interactive_terminal.go\<close>): the registry of
    shells with admissions, credential watchers, maintenance and removal, sessions as objects of a heap
    and every critical section a function that may panic; \<open>Terminal_Props\<close> proves the invariant of all
    interleavings. \<open>Terminal_Output\<close>: the gate between a shell's output and its transport.

  \<^item> \<open>Execution_Sessions\<close> (\<open>grpcserver/exec_sessions.go\<close>) and \<open>Execution_Stream\<close> (\<open>exec_stream.go\<close>):
    preparation, one-use attachment and dispatch of an execution at the hub, the stream with its sender
    and receiver, and the system of shells and executions together (\<open>hub_step\<close>);
    \<open>Execution_Session_Props\<close> proves its invariant and that it refines the shell registry.
    \<open>Execution_Wire\<close> joins the agent's model to the hub's: output and protected scripts arrive as sent.

  \<^item> \<open>Auth_Caches\<close> (\<open>hub/internal/auth\<close>): used one-time codes and revoked tokens.

  \<^item> \<open>Reenroll\<close> (\<open>grpcserver/reenroll.go\<close>, \<open>store/reenroll.go\<close>, \<open>server/handlers_reenroll.go\<close>): a node
    that lost its certificate asks again, an administrator decides, the node proves its key.
    \<open>Reenroll_Props\<close>: no section panics, decisions are final, certificates are earned.
  \<^bold>\<open>State and concurrency.\<close> A component's state is a record; code under a mutex or inside one
  transaction is one function on it. Concurrent callers are sequences of such functions
  (\<open>run_state\<close>, \<open>run_results\<close>) or, where a call leaves the lock between its sections, steps of an
  inductive relation with the goroutines in flight as part of the state (\<open>account_step\<close>,
  \<open>gov_step\<close>, \<open>cm_step\<close>, \<open>exec_step\<close>, \<open>ts_step\<close>, \<open>out_step\<close>, \<open>hub_step\<close>, \<open>re_step\<close>). Faults of the database, the file system and other libraries are
  parameters of each call, so a theorem over all parameters holds under every failure. SHA-256,
  JSON texts, random identifiers, the clock and the operating system's answers are parameters too.

  \<^bold>\<open>What the lemmas show.\<close> Invariants per operation, then per step, then of every reachable state;
  refinements of the store operations to the policy functions; equivalence of SQL guards and Go
  verdicts; single use of refresh digests, session ends, lock reports, execution claims, dispatches,
  receipts and one-time codes; exact accounting of activities, budget slots, watchers and evidence;
  delivery of input, scripts and output without gaps, from the agent's pipes to the hub's client and
  back; legal histories of executions; absence of panics and of sends to revoked shells; and honest
  results. The lemmas \<open>Load_overflow_invalid\<close>, \<open>dormancy_overflow\<close> and \<open>audit_hash_ignores_contents\<close>
  describe behaviour the code does not intend.

  \<^bold>\<open>Bounds and fuel.\<close> Only \<open>Register\<close> of the connection manager uses fuel, because another
  registration may get in between its rounds; two rounds suffice when none does, and the theorem
  says so. All other loops are structural or have a termination proof; the script copy loop is
  bounded by 100 reads per byte plus 100.

  \<^bold>\<open>Not modelled.\<close> HTTP handlers and middleware, the \<open>Connect\<close> loop of the gRPC handler and its
  listener, SSH streams, certificates, notifications, the CLI and process start-up: they mostly move
  bytes between libraries and the operations above. Agent updates, access to preserved originals, applications and their tunnels, and the external audit ledger have state of their own
  that is not modelled. Waiting for a process, pipes and timers enter as outcomes. Cryptography is
  assumed only where a theorem says so.
\<close>

end
